(* ===== verification/Osmo_Prelude.thy ===== *)
theory Osmo_Prelude
  imports Main "HOL-Library.Word"
begin

unbundle bit_operations_syntax

text \<open>
  Shared vocabulary of the development: the machine integer types of the C sources, the
  error codes the code returns, the collections of simplification rules the component
  theories fill, and the generic facts about lists that model the \<^verbatim>\<open>llist_for_each_entry\<close>
  loops with an early return and the in-place array updates.
\<close>

section \<open>Machine integers and error codes\<close>

type_synonym u8 = "8 word"
type_synonym u16 = "16 word"
type_synonym u24 = "24 word"
type_synonym u32 = "32 word"
type_synonym u64 = "64 word"

text \<open>
  The values of \<^verbatim>\<open>errno.h\<close> (Linux) that the modelled functions return negated.
\<close>

abbreviation (input) ENODEV :: int where "ENODEV \<equiv> 19"
abbreviation (input) EINVAL :: int where "EINVAL \<equiv> 22"
abbreviation (input) ENOMEM :: int where "ENOMEM \<equiv> 12"
abbreviation (input) ENOSPC :: int where "ENOSPC \<equiv> 28"
abbreviation (input) EBUSY :: int where "EBUSY \<equiv> 16"
abbreviation (input) EIO :: int where "EIO \<equiv> 5"
abbreviation (input) ENOENT :: int where "ENOENT \<equiv> 2"
abbreviation (input) EEXIST :: int where "EEXIST \<equiv> 17"

text \<open>C's division and remainder on signed integers truncate towards zero.\<close>

definition c_div :: "int \<Rightarrow> int \<Rightarrow> int" where
  "c_div a b = sgn a * sgn b * (\<bar>a\<bar> div \<bar>b\<bar>)"

definition c_mod :: "int \<Rightarrow> int \<Rightarrow> int" where
  "c_mod a b = sgn a * (\<bar>a\<bar> mod \<bar>b\<bar>)"

lemma c_div_nonneg [simp]: "0 \<le> a \<Longrightarrow> 0 \<le> b \<Longrightarrow> c_div a b = a div b"
  by (cases "a = 0"; cases "b = 0") (auto simp: c_div_def)

lemma c_mod_nonneg [simp]: "0 \<le> a \<Longrightarrow> 0 \<le> b \<Longrightarrow> c_mod a b = a mod b"
  by (cases "a = 0") (auto simp: c_mod_def)

section \<open>Rule collections\<close>

named_theorems wf_intros \<open>introduction rules of the well-formedness predicates\<close>
named_theorems frame_simps \<open>what an operation leaves unchanged\<close>

section \<open>Loops with an early return\<close>

text \<open>
  \<^verbatim>\<open>for (i = 0; i < n; i++) if (P(a[i])) return i;\<close> over the elements of an array or of a
  linked list: the index of the first element that satisfies the test.
\<close>

fun find_idx :: "('a \<Rightarrow> bool) \<Rightarrow> 'a list \<Rightarrow> nat option" where
  "find_idx P [] = None"
| "find_idx P (x # xs) = (if P x then Some 0 else map_option Suc (find_idx P xs))"

lemma find_idx_Some_iff:
  "find_idx P xs = Some i \<longleftrightarrow> i < length xs \<and> P (xs ! i) \<and> (\<forall>j < i. \<not> P (xs ! j))"
proof (induction xs arbitrary: i)
  case Nil
  then show ?case by simp
next
  case (Cons x xs)
  show ?case
  proof (cases "P x")
    case True
    then show ?thesis by (cases i) auto
  next
    case False
    then show ?thesis by (cases i) (auto simp: Cons.IH less_Suc_eq_0_disj)
  qed
qed

lemma find_idx_None_iff: "find_idx P xs = None \<longleftrightarrow> (\<forall>x \<in> set xs. \<not> P x)"
  by (induction xs) auto

lemma find_idx_SomeD:
  assumes "find_idx P xs = Some i"
  shows "i < length xs" and "P (xs ! i)" and "\<And>j. j < i \<Longrightarrow> \<not> P (xs ! j)"
  using assms by (simp_all add: find_idx_Some_iff)

lemma find_idx_exists: "x \<in> set xs \<Longrightarrow> P x \<Longrightarrow> \<exists>i. find_idx P xs = Some i"
  by (metis find_idx_None_iff not_None_eq)

section \<open>Array updates\<close>

text \<open>\<open>upd_nth i f xs\<close> applies \<open>f\<close> to the element at index \<open>i\<close> (nothing when out of range).\<close>

definition upd_nth :: "nat \<Rightarrow> ('a \<Rightarrow> 'a) \<Rightarrow> 'a list \<Rightarrow> 'a list" where
  "upd_nth i f xs = (if i < length xs then xs[i := f (xs ! i)] else xs)"

lemma length_upd_nth [simp]: "length (upd_nth i f xs) = length xs"
  by (simp add: upd_nth_def)

lemma nth_upd_nth: "j < length xs \<Longrightarrow> upd_nth i f xs ! j = (if i = j then f (xs ! j) else xs ! j)"
  by (auto simp: upd_nth_def nth_list_update)

lemma nth_upd_nth_eq [simp]: "i < length xs \<Longrightarrow> upd_nth i f xs ! i = f (xs ! i)"
  by (simp add: nth_upd_nth)

lemma nth_upd_nth_neq [simp]: "i \<noteq> j \<Longrightarrow> upd_nth i f xs ! j = xs ! j"
  by (cases "j < length xs") (auto simp: upd_nth_def)

lemma upd_nth_id: "(\<And>x. x \<in> set xs \<Longrightarrow> f x = x) \<Longrightarrow> upd_nth i f xs = xs"
  by (auto simp: upd_nth_def)

lemma upd_nth_Cons_0 [simp]: "upd_nth 0 f (x # xs) = f x # xs"
  by (simp add: upd_nth_def)

lemma upd_nth_Cons_Suc [simp]: "upd_nth (Suc i) f (x # xs) = x # upd_nth i f xs"
  by (simp add: upd_nth_def)

lemma set_upd_nth_subset: "set (upd_nth i f xs) \<subseteq> set xs \<union> f ` set xs"
proof
  fix y
  assume "y \<in> set (upd_nth i f xs)"
  then obtain k where k: "k < length xs" "y = upd_nth i f xs ! k"
    by (auto simp: in_set_conv_nth)
  then show "y \<in> set xs \<union> f ` set xs"
    by (auto simp: nth_upd_nth)
qed

lemma list_all_upd_nth:
  "list_all P xs \<Longrightarrow> (\<And>x. P x \<Longrightarrow> P (f x)) \<Longrightarrow> list_all P (upd_nth i f xs)"
  by (auto simp: list_all_length nth_upd_nth)

lemma map_upd_nth: "(\<And>x. g (f x) = g x) \<Longrightarrow> map g (upd_nth i f xs) = map g xs"
  by (intro nth_equalityI) (auto simp: nth_upd_nth)

lemma list_all_nth: "list_all P xs \<Longrightarrow> i < length xs \<Longrightarrow> P (xs ! i)"
  by (simp add: list_all_length)

lemma split_nth: "i < length ts \<Longrightarrow> \<exists>xs ys. ts = xs @ ts ! i # ys \<and> length xs = i"
  using id_take_nth_drop [of i ts] by (metis length_take min.absorb4)

section \<open>Byte lists\<close>

text \<open>Reading a big-endian 16 bit value from two bytes, and writing one.\<close>

definition be16 :: "u8 \<Rightarrow> u8 \<Rightarrow> u16" where
  "be16 hi lo = push_bit 8 (ucast hi) OR ucast lo"

definition hi8 :: "u16 \<Rightarrow> u8" where
  "hi8 w = ucast (drop_bit 8 w)"

definition lo8 :: "u16 \<Rightarrow> u8" where
  "lo8 w = ucast w"

lemma bit_u8_bound: "bit (x::u8) n \<Longrightarrow> n < 8"
  using bit_imp_le_length [of x n] by simp

lemma bit_u16_bound: "bit (x::u16) n \<Longrightarrow> n < 16"
  using bit_imp_le_length [of x n] by simp

lemma bit_u8_ge [simp]: "8 \<le> n \<Longrightarrow> \<not> bit (x::u8) n"
  using bit_u8_bound not_less by blast

text \<open>Two octets agree when their eight bits do; a goal about a bit index below eight as eight goals.\<close>

lemma u8_eqI: "(\<And>n. n < 8 \<Longrightarrow> bit (a::u8) n = bit b n) \<Longrightarrow> a = b"
  by (rule bit_word_eqI) simp

lemma less8_cases:
  assumes "n < (8::nat)"
  obtains "n = 0" | "n = 1" | "n = 2" | "n = 3" | "n = 4" | "n = 5" | "n = 6" | "n = 7"
  using assms by linarith

lemma less6_cases:
  assumes "n < (6::nat)"
  obtains "n = 0" | "n = 1" | "n = 2" | "n = 3" | "n = 4" | "n = 5"
  using assms by linarith

lemma be16_hi8_lo8 [simp]: "be16 (hi8 w) (lo8 w) = w"
  by (rule bit_word_eqI)
     (auto simp: be16_def hi8_def lo8_def bit_simps dest: bit_u16_bound)

lemma hi8_be16 [simp]: "hi8 (be16 h l) = h"
  by (rule bit_word_eqI)
     (auto simp: be16_def hi8_def bit_simps dest: bit_u8_bound)

lemma lo8_be16 [simp]: "lo8 (be16 h l) = l"
  by (rule bit_word_eqI)
     (auto simp: be16_def lo8_def bit_simps dest: bit_u8_bound)

section \<open>Messages\<close>

text \<open>Reading an octet of a message and copying octets from it; \<open>None\<close> is an access past the end.\<close>

definition rd :: "u8 list \<Rightarrow> nat \<Rightarrow> u8 option" where
  "rd buf i = (if i < length buf then Some (buf ! i) else None)"

definition rds :: "u8 list \<Rightarrow> nat \<Rightarrow> nat \<Rightarrow> u8 list option" where
  "rds buf i n = (if i + n \<le> length buf then Some (take n (drop i buf)) else None)"

end
