(* ===== verification/Gsm_Data.thy ===== *)
theory Gsm_Data
  imports Osmo_Prelude
begin

unbundle bit_operations_syntax

text \<open>
  The data model of a BTS (\<^verbatim>\<open>include/openbsc/gsm_data_shared.h\<close>,
  \<^verbatim>\<open>src/libcommon/gsm_data_shared.c\<close>): a BTS owns a list of transceivers, a transceiver
  eight timeslots, a timeslot eight logical channels. Structures are records; the pointers
  from a child to its parent (\<^verbatim>\<open>lchan->ts\<close>, \<^verbatim>\<open>ts->trx\<close>, \<^verbatim>\<open>trx->bts\<close>) are the position of the
  child inside its parent, so that a pointer to a logical channel is a path
  (transceiver position, timeslot index, sub-slot index). Lemmas: shape of what the allocation
  functions build, lookup of a transceiver by number, the managed-object reset, and the
  channel number encoding of GSM 04.08 table 10.5.25.
\<close>

section \<open>Enumerations\<close>

datatype gsm_phys_chan_config =
    GSM_PCHAN_NONE | GSM_PCHAN_CCCH | GSM_PCHAN_CCCH_SDCCH4 | GSM_PCHAN_TCH_F
  | GSM_PCHAN_TCH_H | GSM_PCHAN_SDCCH8_SACCH8C | GSM_PCHAN_PDCH | GSM_PCHAN_TCH_F_PDCH
  | GSM_PCHAN_UNKNOWN

datatype gsm_chan_t =
    GSM_LCHAN_NONE | GSM_LCHAN_SDCCH | GSM_LCHAN_TCH_F | GSM_LCHAN_TCH_H | GSM_LCHAN_UNKNOWN

datatype gsm_lchan_state =
    LCHAN_S_NONE | LCHAN_S_ACT_REQ | LCHAN_S_ACTIVE | LCHAN_S_REL_REQ | LCHAN_S_REL_ERR
  | LCHAN_S_INACTIVE

datatype gsm_bts_type =
    GSM_BTS_TYPE_UNKNOWN | GSM_BTS_TYPE_BS11 | GSM_BTS_TYPE_NANOBTS | GSM_BTS_TYPE_RBS2000
  | GSM_BTS_TYPE_HSL_FEMTO | GSM_BTS_TYPE_NOKIA_SITE

datatype gsm_chreq_reason_t =
    GSM_CHREQ_REASON_EMERG | GSM_CHREQ_REASON_PAG | GSM_CHREQ_REASON_CALL
  | GSM_CHREQ_REASON_LOCATION_UPD | GSM_CHREQ_REASON_OTHER

abbreviation (input) TRX_NR_TS :: nat where "TRX_NR_TS \<equiv> 8"
abbreviation (input) TS_MAX_LCHAN :: nat where "TS_MAX_LCHAN \<equiv> 8"
abbreviation (input) MAX_NEIGH_MEAS :: nat where "MAX_NEIGH_MEAS \<equiv> 10"
abbreviation (input) MAX_WIN_NEIGH_AVG :: nat where "MAX_WIN_NEIGH_AVG \<equiv> 10"
abbreviation (input) LCHAN_SAPI_UNUSED :: u8 where "LCHAN_SAPI_UNUSED \<equiv> 0"
abbreviation (input) LCHAN_SAPI_MS :: u8 where "LCHAN_SAPI_MS \<equiv> 1"
abbreviation (input) LCHAN_SAPI_NET :: u8 where "LCHAN_SAPI_NET \<equiv> 2"
abbreviation (input) TS_F_PDCH_MODE :: u32 where "TS_F_PDCH_MODE \<equiv> 0x1000"

text \<open>Operational and availability states of GSM 12.21, sections 9.4.38 and 9.4.7.\<close>

abbreviation (input) NM_OPSTATE_ENABLED :: u8 where "NM_OPSTATE_ENABLED \<equiv> 2"
abbreviation (input) NM_OPSTATE_NULL :: u8 where "NM_OPSTATE_NULL \<equiv> 0xff"
abbreviation (input) NM_AVSTATE_POWER_OFF :: u8 where "NM_AVSTATE_POWER_OFF \<equiv> 2"
abbreviation (input) NM_AVSTATE_OK :: u8 where "NM_AVSTATE_OK \<equiv> 0xff"
abbreviation (input) NM_STATE_UNLOCKED :: u8 where "NM_STATE_UNLOCKED \<equiv> 2"

datatype nm_obj_class =
    NM_OC_SITE_MANAGER | NM_OC_BTS | NM_OC_RADIO_CARRIER | NM_OC_CHANNEL | NM_OC_BASEB_TRANSC
  | NM_OC_BS11 | NM_OC_BS11_RACK | NM_OC_BS11_ENVABTSE | NM_OC_GPRS_NSE | NM_OC_GPRS_CELL
  | NM_OC_GPRS_NSVC | NM_OC_other u8

section \<open>Structures\<close>

record gsm_nm_state =
  operational :: u8
  administrative :: u8
  availability :: u8

record abis_om_obj_inst =
  oi_bts_nr :: u8
  oi_trx_nr :: u8
  oi_ts_nr :: u8

record gsm_abis_mo =
  obj_class :: nm_obj_class
  obj_inst :: abis_om_obj_inst
  nm_state :: gsm_nm_state

record gsm_meas_rep_cell =
  mrc_rxlev :: u8
  mrc_bsic :: u8
  mrc_neigh_idx :: u8
  mrc_arfcn :: u16
  mrc_flags :: u32

record gsm_rx_lev_qual =
  rx_lev :: u8
  rx_qual :: u8

record gsm_meas_rep_unidir =
  mru_full :: gsm_rx_lev_qual
  mru_sub :: gsm_rx_lev_qual

record gsm_meas_rep =
  mr_nr :: u8
  mr_flags :: u32
  mr_ul :: gsm_meas_rep_unidir
  mr_dl :: gsm_meas_rep_unidir
  mr_bs_power :: u8
  mr_ms_timing_offset :: u8
  mr_ms_l1_pwr :: int
  mr_ms_l1_ta :: u8
  mr_num_cell :: int
  mr_cell :: "gsm_meas_rep_cell list"

record neigh_meas_proc =
  nmp_arfcn :: u16
  nmp_bsic :: u8
  nmp_rxlev :: "u8 list"
  nmp_rxlev_cnt :: u32
  nmp_last_seen_nr :: u8

text \<open>
  The request reference of the RACH access (\<^verbatim>\<open>struct gsm48_req_ref\<close>): the random access octet and
  the two octets of the frame number.
\<close>

record gsm48_req_ref =
  rr_ra :: u8
  rr_t1 :: u8
  rr_t2 :: u8

datatype rsl_cmod_spd = RSL_CMOD_SPD_DATA | RSL_CMOD_SPD_SPEECH | RSL_CMOD_SPD_SIGN

datatype gsm48_chan_mode =
    GSM48_CMODE_SIGN | GSM48_CMODE_SPEECH_V1 | GSM48_CMODE_SPEECH_EFR | GSM48_CMODE_SPEECH_AMR
  | GSM48_CMODE_DATA_14k5 | GSM48_CMODE_DATA_12k0 | GSM48_CMODE_DATA_6k0
  | GSM48_CMODE_DATA_3k6 | GSM48_CMODE_other u8

text \<open>
  A logical channel. A timer is the callback it will run and the seconds it was scheduled for
  (\<open>None\<close> when it is not pending); \<open>lc_conn\<close> names the subscriber connection.
\<close>

datatype timer_cb =
    Lchan_act_tmr_cb | Lchan_deact_tmr_cb | Error_timeout_cb | T3101_expired | T3111_expired

record gsm_lchan =
  lc_nr :: u8
  lc_type :: gsm_chan_t
  lc_rsl_cmode :: rsl_cmod_spd
  lc_tch_mode :: gsm48_chan_mode
  lc_state :: gsm_lchan_state
  lc_bs_power :: u8
  lc_ms_power :: u8
  lc_encr_alg_id :: u8
  lc_encr_key_len :: u8
  lc_encr_key :: "u8 list"
  lc_mr_conf :: "u8 list"
  lc_sapis :: "u8 list"
  lc_sach_deact :: int
  lc_release_reason :: int
  lc_bound_ip :: u32
  lc_connect_ip :: u32
  lc_bound_port :: u16
  lc_connect_port :: u16
  lc_conn_id :: u16
  lc_rtp_payload :: u8
  lc_rtp_payload2 :: u8
  lc_speech_mode :: u8
  lc_rqd_ta :: u8
  lc_T3101 :: "(timer_cb \<times> int) option"
  lc_T3111 :: "(timer_cb \<times> int) option"
  lc_error_timer :: "(timer_cb \<times> int) option"
  lc_act_timer :: "(timer_cb \<times> int) option"
  lc_neigh_meas :: "neigh_meas_proc list"
  lc_meas_rep :: "gsm_meas_rep list"
  lc_meas_rep_idx :: int
  lc_rqd_ref :: "gsm48_req_ref option"
  lc_conn :: "nat option"

record gsm_bts_trx_ts =
  ts_nr :: u8
  ts_pchan :: gsm_phys_chan_config
  ts_flags :: u32
  ts_mo :: gsm_abis_mo
  ts_tsc :: int
  ts_hopping_enabled :: int
  ts_hopping_maio :: u8
  ts_hopping_hsn :: u8
  ts_hopping_ma_len :: u8
  ts_hopping_ma_data :: "u8 list"
  ts_lchan :: "gsm_lchan list"

record gsm_bts_trx =
  trx_nr :: u8
  trx_mo :: gsm_abis_mo
  trx_bb_transc_mo :: gsm_abis_mo
  trx_bs11_bbsig_mo :: gsm_abis_mo
  trx_bs11_pa_mo :: gsm_abis_mo
  trx_arfcn :: u16
  trx_nominal_power :: int
  trx_max_power_red :: u32
  trx_ts :: "gsm_bts_trx_ts list"

record gsm_bts_gprs_nsvc =
  nsvc_id :: int
  nsvc_mo :: gsm_abis_mo

text \<open>
  A BTS. \<open>bts_c0\<close> is the position of the first transceiver in \<open>bts_trx_list\<close>; the union of
  vendor specific state is restricted to the managed objects of the Siemens BS-11.
\<close>

record gsm_bts =
  bts_nr :: u8
  bts_type :: gsm_bts_type
  bts_bsic :: u8
  bts_tsc :: u8
  bts_ms_max_power :: int
  bts_mo :: gsm_abis_mo
  bts_site_mgr_mo :: gsm_abis_mo
  bts_bs11_cclk_mo :: gsm_abis_mo
  bts_bs11_rack_mo :: gsm_abis_mo
  bts_bs11_envabtse_mo :: "gsm_abis_mo list"
  bts_gprs_nse_mo :: gsm_abis_mo
  bts_gprs_nse_timer :: "u8 list"
  bts_gprs_cell_mo :: gsm_abis_mo
  bts_gprs_cell_timer :: "u8 list"
  bts_gprs_nsvc :: "gsm_bts_gprs_nsvc list"
  bts_paging_free_chans_need :: int
  bts_rach_b_thresh :: int
  bts_rach_ldavg_slots :: int
  bts_num_trx :: int
  bts_c0 :: nat
  bts_trx_list :: "gsm_bts_trx list"
  bts_chan_alloc_reverse :: bool

type_synonym lchan_ptr = "nat \<times> nat \<times> nat"
type_synonym ts_ptr = "nat \<times> nat"

section \<open>Dereferencing and updating along a path\<close>

abbreviation the_trx :: "gsm_bts \<Rightarrow> nat \<Rightarrow> gsm_bts_trx" where
  "the_trx bts t \<equiv> bts_trx_list bts ! t"

definition the_ts :: "gsm_bts \<Rightarrow> ts_ptr \<Rightarrow> gsm_bts_trx_ts" where
  "the_ts bts p = trx_ts (the_trx bts (fst p)) ! snd p"

definition the_lchan :: "gsm_bts \<Rightarrow> lchan_ptr \<Rightarrow> gsm_lchan" where
  "the_lchan bts p = (case p of (t, j, s) \<Rightarrow> ts_lchan (the_ts bts (t, j)) ! s)"

definition upd_ts :: "ts_ptr \<Rightarrow> (gsm_bts_trx_ts \<Rightarrow> gsm_bts_trx_ts) \<Rightarrow> gsm_bts \<Rightarrow> gsm_bts" where
  "upd_ts p f bts =
     bts\<lparr>bts_trx_list := upd_nth (fst p)
           (\<lambda>trx. trx\<lparr>trx_ts := upd_nth (snd p) f (trx_ts trx)\<rparr>) (bts_trx_list bts)\<rparr>"

definition upd_lchan :: "lchan_ptr \<Rightarrow> (gsm_lchan \<Rightarrow> gsm_lchan) \<Rightarrow> gsm_bts \<Rightarrow> gsm_bts" where
  "upd_lchan p f bts =
     (case p of (t, j, s) \<Rightarrow>
        upd_ts (t, j) (\<lambda>ts. ts\<lparr>ts_lchan := upd_nth s f (ts_lchan ts)\<rparr>) bts)"

text \<open>The path points to an object of the BTS.\<close>

definition valid_ts :: "gsm_bts \<Rightarrow> ts_ptr \<Rightarrow> bool" where
  "valid_ts bts p \<longleftrightarrow> fst p < length (bts_trx_list bts) \<and> snd p < length (trx_ts (the_trx bts (fst p)))"

definition valid_lchan :: "gsm_bts \<Rightarrow> lchan_ptr \<Rightarrow> bool" where
  "valid_lchan bts p \<longleftrightarrow>
     (case p of (t, j, s) \<Rightarrow> valid_ts bts (t, j) \<and> s < length (ts_lchan (the_ts bts (t, j))))"

section \<open>Managed objects\<close>

definition gsm_abis_mo_reset :: "gsm_abis_mo \<Rightarrow> gsm_abis_mo" where
  "gsm_abis_mo_reset mo =
     mo\<lparr>nm_state := (nm_state mo)\<lparr>operational := NM_OPSTATE_NULL,
                                  availability := NM_AVSTATE_POWER_OFF\<rparr>\<rparr>"

definition gsm_mo_init :: "nm_obj_class \<Rightarrow> u8 \<Rightarrow> u8 \<Rightarrow> u8 \<Rightarrow> gsm_abis_mo \<Rightarrow> gsm_abis_mo" where
  "gsm_mo_init oc p1 p2 p3 mo =
     gsm_abis_mo_reset
       (mo\<lparr>obj_class := oc,
           obj_inst := (obj_inst mo)\<lparr>oi_bts_nr := p1, oi_trx_nr := p2, oi_ts_nr := p3\<rparr>\<rparr>)"

definition nm_is_running :: "gsm_nm_state \<Rightarrow> bool" where
  "nm_is_running s \<longleftrightarrow>
     operational s = NM_OPSTATE_ENABLED \<and> (availability s = NM_AVSTATE_OK \<or> availability s = 0xff)"

definition is_ipaccess_bts :: "gsm_bts \<Rightarrow> bool" where
  "is_ipaccess_bts bts = (case bts_type bts of GSM_BTS_TYPE_NANOBTS \<Rightarrow> True | _ \<Rightarrow> False)"

text \<open>What \<^verbatim>\<open>talloc_zero\<close> leaves in the structures: every octet is zero.\<close>

definition zero_mo :: gsm_abis_mo where
  "zero_mo = \<lparr>obj_class = NM_OC_SITE_MANAGER,
              obj_inst = \<lparr>oi_bts_nr = 0, oi_trx_nr = 0, oi_ts_nr = 0\<rparr>,
              nm_state = \<lparr>operational = 0, administrative = 0, availability = 0\<rparr>\<rparr>"

definition zero_lev_qual :: gsm_rx_lev_qual where
  "zero_lev_qual = \<lparr>rx_lev = 0, rx_qual = 0\<rparr>"

definition zero_cell :: gsm_meas_rep_cell where
  "zero_cell = \<lparr>mrc_rxlev = 0, mrc_bsic = 0, mrc_neigh_idx = 0, mrc_arfcn = 0, mrc_flags = 0\<rparr>"

definition zero_meas_rep :: gsm_meas_rep where
  "zero_meas_rep =
     \<lparr>mr_nr = 0, mr_flags = 0,
      mr_ul = \<lparr>mru_full = zero_lev_qual, mru_sub = zero_lev_qual\<rparr>,
      mr_dl = \<lparr>mru_full = zero_lev_qual, mru_sub = zero_lev_qual\<rparr>,
      mr_bs_power = 0, mr_ms_timing_offset = 0, mr_ms_l1_pwr = 0, mr_ms_l1_ta = 0,
      mr_num_cell = 0, mr_cell = replicate 6 zero_cell\<rparr>"

definition zero_neigh :: neigh_meas_proc where
  "zero_neigh = \<lparr>nmp_arfcn = 0, nmp_bsic = 0, nmp_rxlev = replicate MAX_WIN_NEIGH_AVG 0,
                 nmp_rxlev_cnt = 0, nmp_last_seen_nr = 0\<rparr>"

definition zero_lchan :: gsm_lchan where
  "zero_lchan =
     \<lparr>lc_nr = 0, lc_type = GSM_LCHAN_NONE, lc_rsl_cmode = RSL_CMOD_SPD_DATA,
      lc_tch_mode = GSM48_CMODE_SIGN, lc_state = LCHAN_S_NONE, lc_bs_power = 0, lc_ms_power = 0,
      lc_encr_alg_id = 0, lc_encr_key_len = 0, lc_encr_key = replicate 16 0,
      lc_mr_conf = replicate 2 0, lc_sapis = replicate 8 0, lc_sach_deact = 0,
      lc_release_reason = 0, lc_bound_ip = 0, lc_connect_ip = 0, lc_bound_port = 0,
      lc_connect_port = 0, lc_conn_id = 0, lc_rtp_payload = 0, lc_rtp_payload2 = 0,
      lc_speech_mode = 0, lc_rqd_ta = 0, lc_T3101 = None, lc_T3111 = None,
      lc_error_timer = None, lc_act_timer = None,
      lc_neigh_meas = replicate MAX_NEIGH_MEAS zero_neigh,
      lc_meas_rep = replicate 6 zero_meas_rep, lc_meas_rep_idx = 0, lc_rqd_ref = None,
      lc_conn = None\<rparr>"

definition zero_ts :: gsm_bts_trx_ts where
  "zero_ts = \<lparr>ts_nr = 0, ts_pchan = GSM_PCHAN_NONE, ts_flags = 0, ts_mo = zero_mo, ts_tsc = 0,
              ts_hopping_enabled = 0, ts_hopping_maio = 0, ts_hopping_hsn = 0,
              ts_hopping_ma_len = 0, ts_hopping_ma_data = replicate 8 0,
              ts_lchan = replicate TS_MAX_LCHAN zero_lchan\<rparr>"

definition zero_trx :: gsm_bts_trx where
  "zero_trx = \<lparr>trx_nr = 0, trx_mo = zero_mo, trx_bb_transc_mo = zero_mo,
               trx_bs11_bbsig_mo = zero_mo, trx_bs11_pa_mo = zero_mo, trx_arfcn = 0,
               trx_nominal_power = 0, trx_max_power_red = 0,
               trx_ts = replicate TRX_NR_TS zero_ts\<rparr>"

definition zero_bts :: gsm_bts where
  "zero_bts =
     \<lparr>bts_nr = 0, bts_type = GSM_BTS_TYPE_UNKNOWN, bts_bsic = 0, bts_tsc = 0,
      bts_ms_max_power = 0, bts_mo = zero_mo, bts_site_mgr_mo = zero_mo,
      bts_bs11_cclk_mo = zero_mo, bts_bs11_rack_mo = zero_mo,
      bts_bs11_envabtse_mo = replicate 4 zero_mo,
      bts_gprs_nse_mo = zero_mo, bts_gprs_nse_timer = replicate 7 0,
      bts_gprs_cell_mo = zero_mo, bts_gprs_cell_timer = replicate 11 0,
      bts_gprs_nsvc = replicate 2 \<lparr>nsvc_id = 0, nsvc_mo = zero_mo\<rparr>,
      bts_paging_free_chans_need = 0, bts_rach_b_thresh = 0, bts_rach_ldavg_slots = 0,
      bts_num_trx = 0, bts_c0 = 0, bts_trx_list = [], bts_chan_alloc_reverse = False\<rparr>"

section \<open>Allocation\<close>

text \<open>
  \<open>mem\<close> is whether \<^verbatim>\<open>talloc_zero\<close> returned memory. The new transceiver goes to the tail of the
  list; the result is its position.
\<close>

definition init_lchan :: "nat \<Rightarrow> gsm_lchan \<Rightarrow> gsm_lchan" where
  "init_lchan l lc = lc\<lparr>lc_nr := of_nat l, lc_type := GSM_LCHAN_NONE\<rparr>"

definition init_ts :: "u8 \<Rightarrow> u8 \<Rightarrow> nat \<Rightarrow> gsm_bts_trx_ts \<Rightarrow> gsm_bts_trx_ts" where
  "init_ts bnr tnr k ts =
     ts\<lparr>ts_nr := of_nat k, ts_pchan := GSM_PCHAN_NONE, ts_tsc := -1,
        ts_mo := gsm_mo_init NM_OC_CHANNEL bnr tnr (of_nat k) (ts_mo ts),
        ts_lchan := map (\<lambda>(l, lc). init_lchan l lc) (enumerate 0 (ts_lchan ts))\<rparr>"

definition gsm_bts_trx_alloc :: "bool \<Rightarrow> gsm_bts \<Rightarrow> (gsm_bts \<times> nat) option" where
  "gsm_bts_trx_alloc mem bts =
     (if \<not> mem then None
      else
        (let nr = (of_int (bts_num_trx bts) :: u8);
             bts1 = bts\<lparr>bts_num_trx := bts_num_trx bts + 1\<rparr>;
             mo0 = (trx_mo zero_trx)\<lparr>nm_state :=
                     (nm_state (trx_mo zero_trx))\<lparr>administrative := NM_STATE_UNLOCKED\<rparr>\<rparr>;
             trx1 = zero_trx\<lparr>trx_nr := nr,
                     trx_mo := gsm_mo_init NM_OC_RADIO_CARRIER (bts_nr bts) nr 0xff mo0,
                     trx_bb_transc_mo := gsm_mo_init NM_OC_BASEB_TRANSC (bts_nr bts) nr 0xff
                                           (trx_bb_transc_mo zero_trx),
                     trx_ts := map (\<lambda>(k, ts). init_ts (bts_nr bts) nr k ts)
                                 (enumerate 0 (trx_ts zero_trx))\<rparr>;
             trx2 = (if nr \<noteq> 0
                     then trx1\<lparr>trx_nominal_power := trx_nominal_power (the_trx bts (bts_c0 bts))\<rparr>
                     else trx1)
         in Some (bts1\<lparr>bts_trx_list := bts_trx_list bts1 @ [trx2]\<rparr>,
                  length (bts_trx_list bts1))))"

definition bts_nse_timer_default :: "u8 list" where
  "bts_nse_timer_default = [3, 3, 3, 3, 30, 3, 10]"

definition bts_cell_timer_default :: "u8 list" where
  "bts_cell_timer_default = [3, 3, 3, 3, 3, 10, 3, 10, 3, 10, 3]"

definition gsm_bts_alloc :: "bool \<Rightarrow> bool \<Rightarrow> gsm_bts option" where
  "gsm_bts_alloc mem mem_trx =
     (if \<not> mem then None
      else
        (let b1 = zero_bts\<lparr>bts_num_trx := 0, bts_trx_list := [], bts_ms_max_power := 15\<rparr>;
             b2 = b1\<lparr>bts_mo := gsm_mo_init NM_OC_BTS (bts_nr b1) 0xff 0xff (bts_mo b1),
                     bts_site_mgr_mo := gsm_mo_init NM_OC_SITE_MANAGER 0xff 0xff 0xff
                                          (bts_site_mgr_mo b1),
                     bts_gprs_nsvc :=
                       map (\<lambda>(i, v). v\<lparr>nsvc_id := int i,
                              nsvc_mo := gsm_mo_init NM_OC_GPRS_NSVC (bts_nr b1) (of_nat i) 0xff
                                           (nsvc_mo v)\<rparr>) (enumerate 0 (bts_gprs_nsvc b1)),
                     bts_gprs_nse_timer := bts_nse_timer_default,
                     bts_gprs_nse_mo := gsm_mo_init NM_OC_GPRS_NSE (bts_nr b1) 0xff 0xff
                                          (bts_gprs_nse_mo b1),
                     bts_gprs_cell_timer := bts_cell_timer_default,
                     bts_gprs_cell_mo := gsm_mo_init NM_OC_GPRS_CELL (bts_nr b1) 0xff 0xff
                                           (bts_gprs_cell_mo b1)\<rparr>
         in case gsm_bts_trx_alloc mem_trx b2 of
              None \<Rightarrow> None
            | Some (b3, c0) \<Rightarrow>
                Some ((upd_ts (c0, 0) (\<lambda>ts. ts\<lparr>ts_pchan := GSM_PCHAN_CCCH_SDCCH4\<rparr>)
                         (b3\<lparr>bts_c0 := c0\<rparr>))
                        \<lparr>bts_rach_b_thresh := -1, bts_rach_ldavg_slots := -1,
                         bts_paging_free_chans_need := -1\<rparr>)))"

definition gsm_bts_mo_reset :: "gsm_bts \<Rightarrow> gsm_bts" where
  "gsm_bts_mo_reset bts =
     bts\<lparr>bts_mo := gsm_abis_mo_reset (bts_mo bts),
         bts_site_mgr_mo := gsm_abis_mo_reset (bts_site_mgr_mo bts),
         bts_gprs_nsvc := map (\<lambda>v. v\<lparr>nsvc_mo := gsm_abis_mo_reset (nsvc_mo v)\<rparr>) (bts_gprs_nsvc bts),
         bts_gprs_nse_mo := gsm_abis_mo_reset (bts_gprs_nse_mo bts),
         bts_gprs_cell_mo := gsm_abis_mo_reset (bts_gprs_cell_mo bts),
         bts_trx_list :=
           map (\<lambda>trx. trx\<lparr>trx_mo := gsm_abis_mo_reset (trx_mo trx),
                          trx_bb_transc_mo := gsm_abis_mo_reset (trx_bb_transc_mo trx),
                          trx_ts := map (\<lambda>ts. ts\<lparr>ts_mo := gsm_abis_mo_reset (ts_mo ts)\<rparr>) (trx_ts trx)\<rparr>)
               (bts_trx_list bts)\<rparr>"

text \<open>Position of the transceiver with the given number (\<open>None\<close> for \<^verbatim>\<open>NULL\<close>).\<close>

definition gsm_bts_trx_num :: "gsm_bts \<Rightarrow> int \<Rightarrow> nat option" where
  "gsm_bts_trx_num bts num =
     (if bts_num_trx bts \<le> num then None
      else find_idx (\<lambda>trx. uint (trx_nr trx) = num) (bts_trx_list bts))"

section \<open>Object instances\<close>

text \<open>
  A pointer to a managed object. The C code takes the address of a member of the transceiver it
  looked up without testing the result for \<^verbatim>\<open>NULL\<close>; \<open>MO_wild\<close> is that address when the lookup
  failed.
\<close>

datatype mo_ptr =
    MO_bts | MO_site_mgr | MO_trx nat | MO_bb_transc nat | MO_ts nat nat
  | MO_bs11_cclk | MO_bs11_bbsig nat | MO_bs11_pa nat | MO_bs11_rack | MO_bs11_envabtse nat
  | MO_gprs_nse | MO_gprs_cell | MO_gprs_nsvc nat | MO_wild

definition member_of_trx :: "nat option \<Rightarrow> (nat \<Rightarrow> mo_ptr) \<Rightarrow> mo_ptr" where
  "member_of_trx trx f = (case trx of None \<Rightarrow> MO_wild | Some t \<Rightarrow> f t)"

abbreviation (input) BS11_OBJ_BBSIG :: u8 where "BS11_OBJ_BBSIG \<equiv> 2"
abbreviation (input) BS11_OBJ_CCLK :: u8 where "BS11_OBJ_CCLK \<equiv> 4"
abbreviation (input) BS11_OBJ_PA :: u8 where "BS11_OBJ_PA \<equiv> 9"

text \<open>
  The \<^verbatim>\<open>case NM_OC_BS11\<close> has no \<^verbatim>\<open>break\<close> after its inner \<^verbatim>\<open>switch\<close>: whatever object it selected,
  control falls into \<^verbatim>\<open>case NM_OC_BS11_RACK\<close>, which overwrites it.
\<close>

definition gsm_objclass2mo :: "gsm_bts \<Rightarrow> nm_obj_class \<Rightarrow> abis_om_obj_inst \<Rightarrow> mo_ptr option" where
  "gsm_objclass2mo bts oc oi =
     (let trx = gsm_bts_trx_num bts (uint (oi_trx_nr oi));
          in_range = uint (oi_trx_nr oi) < bts_num_trx bts
      in case oc of
        NM_OC_BTS \<Rightarrow> Some MO_bts
      | NM_OC_RADIO_CARRIER \<Rightarrow>
          (if \<not> in_range then None else Some (member_of_trx trx MO_trx))
      | NM_OC_BASEB_TRANSC \<Rightarrow>
          (if \<not> in_range then None else Some (member_of_trx trx MO_bb_transc))
      | NM_OC_CHANNEL \<Rightarrow>
          (if \<not> in_range then None
           else if TRX_NR_TS \<le> unat (oi_ts_nr oi) then None
           else Some (member_of_trx trx (\<lambda>t. MO_ts t (unat (oi_ts_nr oi)))))
      | NM_OC_SITE_MANAGER \<Rightarrow> Some MO_site_mgr
      | NM_OC_BS11 \<Rightarrow>
          (if oi_bts_nr oi = BS11_OBJ_CCLK then Some MO_bs11_rack
           else if oi_bts_nr oi = BS11_OBJ_BBSIG \<or> oi_bts_nr oi = BS11_OBJ_PA then
             (if bts_num_trx bts < uint (oi_ts_nr oi) then None else Some MO_bs11_rack)
           else None)
      | NM_OC_BS11_RACK \<Rightarrow> Some MO_bs11_rack
      | NM_OC_BS11_ENVABTSE \<Rightarrow>
          (if length (bts_bs11_envabtse_mo bts) \<le> unat (oi_trx_nr oi) then None
           else Some (MO_bs11_envabtse (unat (oi_trx_nr oi))))
      | NM_OC_GPRS_NSE \<Rightarrow> Some MO_gprs_nse
      | NM_OC_GPRS_CELL \<Rightarrow> Some MO_gprs_cell
      | NM_OC_GPRS_NSVC \<Rightarrow>
          (if length (bts_gprs_nsvc bts) \<le> unat (oi_trx_nr oi) then None
           else Some (MO_gprs_nsvc (unat (oi_trx_nr oi))))
      | NM_OC_other _ \<Rightarrow> None)"

text \<open>The managed object a pointer denotes (\<open>None\<close>: reading it is undefined).\<close>

definition deref_mo :: "gsm_bts \<Rightarrow> mo_ptr \<Rightarrow> gsm_abis_mo option" where
  "deref_mo bts p =
     (case p of
        MO_bts \<Rightarrow> Some (bts_mo bts)
      | MO_site_mgr \<Rightarrow> Some (bts_site_mgr_mo bts)
      | MO_trx t \<Rightarrow> Some (trx_mo (the_trx bts t))
      | MO_bb_transc t \<Rightarrow> Some (trx_bb_transc_mo (the_trx bts t))
      | MO_ts t j \<Rightarrow> Some (ts_mo (the_ts bts (t, j)))
      | MO_bs11_cclk \<Rightarrow> Some (bts_bs11_cclk_mo bts)
      | MO_bs11_bbsig t \<Rightarrow> Some (trx_bs11_bbsig_mo (the_trx bts t))
      | MO_bs11_pa t \<Rightarrow> Some (trx_bs11_pa_mo (the_trx bts t))
      | MO_bs11_rack \<Rightarrow> Some (bts_bs11_rack_mo bts)
      | MO_bs11_envabtse i \<Rightarrow> Some (bts_bs11_envabtse_mo bts ! i)
      | MO_gprs_nse \<Rightarrow> Some (bts_gprs_nse_mo bts)
      | MO_gprs_cell \<Rightarrow> Some (bts_gprs_cell_mo bts)
      | MO_gprs_nsvc i \<Rightarrow> Some (nsvc_mo (bts_gprs_nsvc bts ! i))
      | MO_wild \<Rightarrow> None)"

definition gsm_objclass2nmstate ::
    "gsm_bts \<Rightarrow> nm_obj_class \<Rightarrow> abis_om_obj_inst \<Rightarrow> mo_ptr option" where
  "gsm_objclass2nmstate bts oc oi =
     (case gsm_objclass2mo bts oc oi of None \<Rightarrow> None | Some mo \<Rightarrow> Some mo)"

datatype obj_ptr =
    OBJ_bts | OBJ_site_mgr | OBJ_trx nat | OBJ_bb_transc nat | OBJ_ts nat nat
  | OBJ_gprs_nse | OBJ_gprs_cell | OBJ_gprs_nsvc nat | OBJ_wild

definition gsm_objclass2obj :: "gsm_bts \<Rightarrow> nm_obj_class \<Rightarrow> abis_om_obj_inst \<Rightarrow> obj_ptr option" where
  "gsm_objclass2obj bts oc oi =
     (let trx = gsm_bts_trx_num bts (uint (oi_trx_nr oi));
          in_range = uint (oi_trx_nr oi) < bts_num_trx bts;
          member = (\<lambda>f. case trx of None \<Rightarrow> OBJ_wild | Some t \<Rightarrow> f t)
      in case oc of
        NM_OC_BTS \<Rightarrow> Some OBJ_bts
      | NM_OC_RADIO_CARRIER \<Rightarrow>
          (if \<not> in_range then None else map_option OBJ_trx trx)
      | NM_OC_BASEB_TRANSC \<Rightarrow> (if \<not> in_range then None else Some (member OBJ_bb_transc))
      | NM_OC_CHANNEL \<Rightarrow>
          (if \<not> in_range then None
           else if TRX_NR_TS \<le> unat (oi_ts_nr oi) then None
           else Some (member (\<lambda>t. OBJ_ts t (unat (oi_ts_nr oi)))))
      | NM_OC_SITE_MANAGER \<Rightarrow> Some OBJ_site_mgr
      | NM_OC_GPRS_NSE \<Rightarrow> Some OBJ_gprs_nse
      | NM_OC_GPRS_CELL \<Rightarrow> Some OBJ_gprs_cell
      | NM_OC_GPRS_NSVC \<Rightarrow>
          (if length (bts_gprs_nsvc bts) \<le> unat (oi_trx_nr oi) then None
           else Some (OBJ_gprs_nsvc (unat (oi_trx_nr oi))))
      | _ \<Rightarrow> None)"

section \<open>Channel numbers\<close>

definition gsm_ts2chan_nr :: "gsm_bts_trx_ts \<Rightarrow> u8 \<Rightarrow> u8" where
  "gsm_ts2chan_nr ts lchan_nr =
     (let cbits = (case ts_pchan ts of
                     GSM_PCHAN_TCH_F \<Rightarrow> 0x01
                   | GSM_PCHAN_PDCH \<Rightarrow> 0x01
                   | GSM_PCHAN_TCH_F_PDCH \<Rightarrow> 0x01
                   | GSM_PCHAN_TCH_H \<Rightarrow> 0x02 + lchan_nr
                   | GSM_PCHAN_CCCH_SDCCH4 \<Rightarrow> 0x04 + lchan_nr
                   | GSM_PCHAN_SDCCH8_SACCH8C \<Rightarrow> 0x08 + lchan_nr
                   | _ \<Rightarrow> (0x10 :: u8))
      in push_bit 3 cbits OR (ts_nr ts AND 0x7))"

definition gsm_lchan2chan_nr :: "gsm_bts \<Rightarrow> lchan_ptr \<Rightarrow> u8" where
  "gsm_lchan2chan_nr bts p =
     (case p of (t, j, s) \<Rightarrow> gsm_ts2chan_nr (the_ts bts (t, j)) (lc_nr (the_lchan bts p)))"

section \<open>Next measurement report slot\<close>

text \<open>The slot is cleared and handed out; the index advances cyclically.\<close>

definition lchan_next_meas_rep :: "gsm_lchan \<Rightarrow> gsm_lchan \<times> nat" where
  "lchan_next_meas_rep lc =
     (let i = nat (lc_meas_rep_idx lc)
      in (lc\<lparr>lc_meas_rep := (lc_meas_rep lc)[i := zero_meas_rep],
             lc_meas_rep_idx := c_mod (lc_meas_rep_idx lc + 1) (int (length (lc_meas_rep lc)))\<rparr>, i))"

section \<open>Well-formed stations\<close>

text \<open>
  The shape every structure has after allocation and keeps: array sizes, and the numbers stored in
  the children are their positions.
\<close>

definition wf_neigh :: "neigh_meas_proc \<Rightarrow> bool" where
  "wf_neigh n \<longleftrightarrow> length (nmp_rxlev n) = MAX_WIN_NEIGH_AVG"

definition wf_lchan :: "nat \<Rightarrow> gsm_lchan \<Rightarrow> bool" where
  "wf_lchan s lc \<longleftrightarrow>
     lc_nr lc = of_nat s \<and> length (lc_sapis lc) = 8 \<and> length (lc_meas_rep lc) = 6 \<and>
     0 \<le> lc_meas_rep_idx lc \<and> lc_meas_rep_idx lc < 6 \<and>
     length (lc_neigh_meas lc) = MAX_NEIGH_MEAS \<and> list_all wf_neigh (lc_neigh_meas lc)"

definition wf_ts :: "nat \<Rightarrow> gsm_bts_trx_ts \<Rightarrow> bool" where
  "wf_ts j ts \<longleftrightarrow>
     ts_nr ts = of_nat j \<and> length (ts_lchan ts) = TS_MAX_LCHAN \<and>
     (\<forall>s < TS_MAX_LCHAN. wf_lchan s (ts_lchan ts ! s))"

definition wf_trx :: "nat \<Rightarrow> gsm_bts_trx \<Rightarrow> bool" where
  "wf_trx t trx \<longleftrightarrow>
     trx_nr trx = of_nat t \<and> length (trx_ts trx) = TRX_NR_TS \<and>
     (\<forall>j < TRX_NR_TS. wf_ts j (trx_ts trx ! j))"

definition wf_bts :: "gsm_bts \<Rightarrow> bool" where
  "wf_bts bts \<longleftrightarrow>
     bts_num_trx bts = int (length (bts_trx_list bts)) \<and> bts_trx_list bts \<noteq> [] \<and>
     bts_c0 bts = 0 \<and> (\<forall>t < length (bts_trx_list bts). wf_trx t (the_trx bts t)) \<and>
     length (bts_bs11_envabtse_mo bts) = 4 \<and> length (bts_gprs_nsvc bts) = 2"

lemma wf_bts_trx: "wf_bts bts \<Longrightarrow> t < length (bts_trx_list bts) \<Longrightarrow> wf_trx t (the_trx bts t)"
  by (simp add: wf_bts_def)

lemma wf_trx_ts: "wf_trx t trx \<Longrightarrow> j < TRX_NR_TS \<Longrightarrow> wf_ts j (trx_ts trx ! j)"
  by (simp add: wf_trx_def)

lemma wf_ts_lchan: "wf_ts j ts \<Longrightarrow> s < TS_MAX_LCHAN \<Longrightarrow> wf_lchan s (ts_lchan ts ! s)"
  by (simp add: wf_ts_def)

lemma wf_lengths [simp]:
  "wf_trx t trx \<Longrightarrow> length (trx_ts trx) = TRX_NR_TS"
  "wf_ts j ts \<Longrightarrow> length (ts_lchan ts) = TS_MAX_LCHAN"
  by (simp_all add: wf_trx_def wf_ts_def)

lemma valid_lchan_iff:
  assumes "wf_bts bts"
  shows "valid_lchan bts (t, j, s) \<longleftrightarrow>
           t < length (bts_trx_list bts) \<and> j < TRX_NR_TS \<and> s < TS_MAX_LCHAN"
proof (cases "t < length (bts_trx_list bts) \<and> j < TRX_NR_TS")
  case True
  with assms have "wf_trx t (the_trx bts t)" "wf_ts j (the_ts bts (t, j))"
    by (simp_all add: wf_bts_def wf_trx_def the_ts_def)
  with True show ?thesis
    by (simp add: valid_lchan_def valid_ts_def)
next
  case False
  then show ?thesis
    using assms by (auto simp: valid_lchan_def valid_ts_def wf_bts_def)
qed

lemma valid_ts_iff:
  "wf_bts bts \<Longrightarrow> valid_ts bts (t, j) \<longleftrightarrow> t < length (bts_trx_list bts) \<and> j < TRX_NR_TS"
  by (auto simp: valid_ts_def wf_bts_def)

subsection \<open>Updates along a path\<close>

lemma upd_ts_fields [simp, frame_simps]:
  "bts_num_trx (upd_ts p f bts) = bts_num_trx bts"
  "bts_c0 (upd_ts p f bts) = bts_c0 bts"
  "bts_type (upd_ts p f bts) = bts_type bts"
  "bts_nr (upd_ts p f bts) = bts_nr bts"
  "bts_bsic (upd_ts p f bts) = bts_bsic bts"
  "bts_ms_max_power (upd_ts p f bts) = bts_ms_max_power bts"
  "bts_chan_alloc_reverse (upd_ts p f bts) = bts_chan_alloc_reverse bts"
  "bts_gprs_nsvc (upd_ts p f bts) = bts_gprs_nsvc bts"
  "bts_bs11_envabtse_mo (upd_ts p f bts) = bts_bs11_envabtse_mo bts"
  "length (bts_trx_list (upd_ts p f bts)) = length (bts_trx_list bts)"
  by (simp_all add: upd_ts_def)

lemma upd_lchan_fields [simp, frame_simps]:
  "bts_num_trx (upd_lchan p g bts) = bts_num_trx bts"
  "bts_c0 (upd_lchan p g bts) = bts_c0 bts"
  "bts_type (upd_lchan p g bts) = bts_type bts"
  "bts_nr (upd_lchan p g bts) = bts_nr bts"
  "bts_bsic (upd_lchan p g bts) = bts_bsic bts"
  "bts_ms_max_power (upd_lchan p g bts) = bts_ms_max_power bts"
  "bts_chan_alloc_reverse (upd_lchan p g bts) = bts_chan_alloc_reverse bts"
  "bts_gprs_nsvc (upd_lchan p g bts) = bts_gprs_nsvc bts"
  "bts_bs11_envabtse_mo (upd_lchan p g bts) = bts_bs11_envabtse_mo bts"
  "length (bts_trx_list (upd_lchan p g bts)) = length (bts_trx_list bts)"
  by (cases p; simp add: upd_lchan_def)+

lemma the_trx_upd_ts:
  "t < length (bts_trx_list bts) \<Longrightarrow>
   the_trx (upd_ts p f bts) t =
     (if fst p = t then (the_trx bts t)\<lparr>trx_ts := upd_nth (snd p) f (trx_ts (the_trx bts t))\<rparr>
      else the_trx bts t)"
  by (auto simp: upd_ts_def nth_upd_nth)

lemma the_trx_upd_ts_fields [simp]:
  assumes "t < length (bts_trx_list bts)"
  shows "trx_nr (the_trx (upd_ts p f bts) t) = trx_nr (the_trx bts t)"
    and "trx_mo (the_trx (upd_ts p f bts) t) = trx_mo (the_trx bts t)"
    and "trx_bb_transc_mo (the_trx (upd_ts p f bts) t) = trx_bb_transc_mo (the_trx bts t)"
    and "length (trx_ts (the_trx (upd_ts p f bts) t)) = length (trx_ts (the_trx bts t))"
  using assms by (simp_all add: the_trx_upd_ts)

lemma the_ts_upd_ts:
  "valid_ts bts q \<Longrightarrow>
   the_ts (upd_ts p f bts) q = (if p = q then f (the_ts bts q) else the_ts bts q)"
  by (cases p; cases q) (auto simp: valid_ts_def the_ts_def the_trx_upd_ts nth_upd_nth)

lemma valid_ts_upd_ts [simp]: "valid_ts (upd_ts p f bts) q = valid_ts bts q"
  by (cases "fst q < length (bts_trx_list bts)") (auto simp: valid_ts_def)

lemma the_ts_upd_lchan:
  "valid_ts bts q \<Longrightarrow>
   the_ts (upd_lchan p f bts) q =
     (if (fst p, fst (snd p)) = q
      then (the_ts bts q)\<lparr>ts_lchan := upd_nth (snd (snd p)) f (ts_lchan (the_ts bts q))\<rparr>
      else the_ts bts q)"
  by (cases p) (simp add: upd_lchan_def the_ts_upd_ts)

lemma valid_lchan_upd_lchan [simp]: "valid_lchan (upd_lchan p f bts) q = valid_lchan bts q"
proof -
  obtain t j s where q: "q = (t, j, s)" by (cases q)
  have v: "valid_ts (upd_lchan p f bts) (t, j) = valid_ts bts (t, j)"
    by (cases p) (simp add: upd_lchan_def)
  show ?thesis
  proof (cases "valid_ts bts (t, j)")
    case True
    then show ?thesis using the_ts_upd_lchan [OF True, of p f] v by (simp add: q valid_lchan_def)
  next
    case False
    then show ?thesis using v by (simp add: q valid_lchan_def)
  qed
qed

lemma the_lchan_upd_lchan:
  assumes "valid_lchan bts q"
  shows "the_lchan (upd_lchan p f bts) q = (if p = q then f (the_lchan bts q) else the_lchan bts q)"
proof -
  obtain t j s where q: "q = (t, j, s)" by (cases q)
  obtain t' j' s' where p: "p = (t', j', s')" by (cases p)
  from assms have "valid_ts bts (t, j)" "s < length (ts_lchan (the_ts bts (t, j)))"
    by (simp_all add: q valid_lchan_def)
  then show ?thesis
    using the_ts_upd_lchan [of bts "(t, j)" p f] by (auto simp: p q the_lchan_def nth_upd_nth)
qed

lemma the_lchan_upd_same [simp]:
  "valid_lchan bts p \<Longrightarrow> the_lchan (upd_lchan p f bts) p = f (the_lchan bts p)"
  by (simp add: the_lchan_upd_lchan)

lemma the_lchan_upd_other [simp]:
  "valid_lchan bts q \<Longrightarrow> p \<noteq> q \<Longrightarrow> the_lchan (upd_lchan p f bts) q = the_lchan bts q"
  by (simp add: the_lchan_upd_lchan)

text \<open>The fields of the timeslot that a write to one of its logical channels leaves alone.\<close>

lemma the_ts_upd_lchan_fields [simp]:
  assumes "valid_ts bts q"
  shows "ts_pchan (the_ts (upd_lchan p f bts) q) = ts_pchan (the_ts bts q)"
    and "ts_flags (the_ts (upd_lchan p f bts) q) = ts_flags (the_ts bts q)"
    and "ts_nr (the_ts (upd_lchan p f bts) q) = ts_nr (the_ts bts q)"
    and "ts_mo (the_ts (upd_lchan p f bts) q) = ts_mo (the_ts bts q)"
  using the_ts_upd_lchan [OF assms, of p f] by auto

subsection \<open>Preservation of well-formedness\<close>

text \<open>
  The part of a timeslot or a logical channel that well-formedness speaks about; an update that
  keeps it keeps the station well-formed.
\<close>

lemma wf_bts_upd_ts [wf_intros]:
  assumes wf: "wf_bts bts"
    and f: "\<And>ts. wf_ts (snd p) ts \<Longrightarrow> wf_ts (snd p) (f ts)"
  shows "wf_bts (upd_ts p f bts)"
proof -
  have "wf_trx t (the_trx (upd_ts p f bts) t)" if t: "t < length (bts_trx_list bts)" for t
  proof -
    from wf t have w: "wf_trx t (the_trx bts t)" by (rule wf_bts_trx)
    then show ?thesis
      using f by (auto simp: the_trx_upd_ts [OF t] wf_trx_def nth_upd_nth)
  qed
  moreover have "bts_trx_list (upd_ts p f bts) \<noteq> []"
    using wf by (metis upd_ts_fields(10) length_0_conv wf_bts_def)
  ultimately show ?thesis
    using wf by (simp add: wf_bts_def)
qed

lemma wf_bts_upd_lchan [wf_intros]:
  assumes wf: "wf_bts bts"
    and f: "\<And>lc. wf_lchan (snd (snd p)) lc \<Longrightarrow> wf_lchan (snd (snd p)) (f lc)"
  shows "wf_bts (upd_lchan p f bts)"
proof -
  obtain t j s where p: "p = (t, j, s)" by (cases p)
  have "wf_ts j (ts\<lparr>ts_lchan := upd_nth s f (ts_lchan ts)\<rparr>)" if "wf_ts j ts" for ts
    using that f by (auto simp: p wf_ts_def nth_upd_nth)
  then show ?thesis
    using wf by (auto simp: p upd_lchan_def intro!: wf_bts_upd_ts)
qed

lemma wf_bts_the_lchan:
  "wf_bts bts \<Longrightarrow> valid_lchan bts (t, j, s) \<Longrightarrow> wf_lchan s (the_lchan bts (t, j, s))"
  by (simp add: valid_lchan_iff the_lchan_def the_ts_def wf_bts_def wf_trx_def wf_ts_def)

subsection \<open>Allocation builds well-formed stations\<close>

lemma wf_init_lchan: "wf_lchan s (init_lchan s zero_lchan)"
  by (simp add: wf_lchan_def init_lchan_def zero_lchan_def wf_neigh_def zero_neigh_def
      list_all_length)

lemma wf_init_ts: "wf_ts k (init_ts b t k zero_ts)"
  by (auto simp: wf_ts_def init_ts_def zero_ts_def nth_enumerate_eq wf_init_lchan)

lemma gsm_bts_trx_alloc_appends:
  assumes "gsm_bts_trx_alloc mem bts = Some (bts', t)"
  shows "\<exists>trx. bts' = bts\<lparr>bts_num_trx := bts_num_trx bts + 1, bts_trx_list := bts_trx_list bts @ [trx]\<rparr> \<and>
           t = length (bts_trx_list bts) \<and> trx_nr trx = of_int (bts_num_trx bts) \<and>
           length (trx_ts trx) = TRX_NR_TS \<and> (\<forall>j < TRX_NR_TS. wf_ts j (trx_ts trx ! j))"
  using assms
  by (auto simp: gsm_bts_trx_alloc_def Let_def zero_trx_def nth_enumerate_eq wf_init_ts
      split: if_splits)

lemma wf_bts_trx_alloc:
  assumes "gsm_bts_trx_alloc mem bts = Some (bts', t)" and wf: "wf_bts bts"
  shows "wf_bts bts'" and "t = length (bts_trx_list bts)"
proof -
  from gsm_bts_trx_alloc_appends [OF assms(1)] obtain trx where
    b: "bts' = bts\<lparr>bts_num_trx := bts_num_trx bts + 1, bts_trx_list := bts_trx_list bts @ [trx]\<rparr>"
    and t: "t = length (bts_trx_list bts)"
    and trx: "trx_nr trx = of_int (bts_num_trx bts)" "length (trx_ts trx) = TRX_NR_TS"
      "\<forall>j < TRX_NR_TS. wf_ts j (trx_ts trx ! j)"
    by blast
  from wf trx have "wf_trx (length (bts_trx_list bts)) trx"
    by (simp add: wf_trx_def wf_bts_def)
  with wf show "wf_bts bts'"
    by (auto simp: b wf_bts_def nth_append less_Suc_eq)
  show "t = length (bts_trx_list bts)" by (rule t)
qed

lemma gsm_bts_alloc_wf:
  assumes "gsm_bts_alloc mem mem_trx = Some bts"
  shows "wf_bts bts" and "length (bts_trx_list bts) = 1"
    and "ts_pchan (the_ts bts (0, 0)) = GSM_PCHAN_CCCH_SDCCH4"
proof -
  from assms obtain b2 b3 c0 where
    a: "gsm_bts_trx_alloc mem_trx b2 = Some (b3, c0)"
    and b2: "bts_num_trx b2 = 0" "bts_trx_list b2 = []" "length (bts_bs11_envabtse_mo b2) = 4"
      "length (bts_gprs_nsvc b2) = 2"
    and b: "bts = (upd_ts (c0, 0) (\<lambda>ts. ts\<lparr>ts_pchan := GSM_PCHAN_CCCH_SDCCH4\<rparr>) (b3\<lparr>bts_c0 := c0\<rparr>))
             \<lparr>bts_rach_b_thresh := -1, bts_rach_ldavg_slots := -1, bts_paging_free_chans_need := -1\<rparr>"
    by (auto simp: gsm_bts_alloc_def Let_def zero_bts_def split: if_splits option.splits)
  from gsm_bts_trx_alloc_appends [OF a] b2 obtain trx where
    b3: "b3 = b2\<lparr>bts_num_trx := 1, bts_trx_list := [trx]\<rparr>" and c0: "c0 = 0"
    and trx: "trx_nr trx = 0" "length (trx_ts trx) = TRX_NR_TS"
      "\<forall>j < TRX_NR_TS. wf_ts j (trx_ts trx ! j)"
    by auto
  have "wf_bts (b3\<lparr>bts_c0 := c0\<rparr>)"
    using trx b2 by (simp add: b3 c0 wf_bts_def wf_trx_def)
  then have "wf_bts (upd_ts (c0, 0) (\<lambda>ts. ts\<lparr>ts_pchan := GSM_PCHAN_CCCH_SDCCH4\<rparr>) (b3\<lparr>bts_c0 := c0\<rparr>))"
    by (rule wf_bts_upd_ts) (simp add: wf_ts_def)
  then show "wf_bts bts" by (simp add: b c0 wf_bts_def)
  show "length (bts_trx_list bts) = 1" by (simp add: b b3)
  show "ts_pchan (the_ts bts (0, 0)) = GSM_PCHAN_CCCH_SDCCH4"
    using trx by (simp add: b b3 c0 the_ts_def upd_ts_def)
qed

subsection \<open>Lookup by number\<close>

lemma trx_nr_unique:
  assumes wf: "wf_bts bts" and small: "length (bts_trx_list bts) \<le> 256"
    and t: "t < length (bts_trx_list bts)"
  shows "uint (trx_nr (the_trx bts t)) = int t"
proof -
  from wf t have "trx_nr (the_trx bts t) = of_nat t"
    by (simp add: wf_bts_def wf_trx_def)
  then show ?thesis using t small by (simp add: unsigned_of_nat take_bit_eq_mod)
qed

lemma gsm_bts_trx_num_eq:
  assumes wf: "wf_bts bts" and small: "length (bts_trx_list bts) \<le> 256" and n: "0 \<le> n"
  shows "gsm_bts_trx_num bts n = (if n < bts_num_trx bts then Some (nat n) else None)"
proof (cases "n < bts_num_trx bts")
  case True
  with wf have len: "nat n < length (bts_trx_list bts)" using n by (auto simp: wf_bts_def)
  then have "find_idx (\<lambda>trx. uint (trx_nr trx) = n) (bts_trx_list bts) = Some (nat n)"
    using n by (auto simp: find_idx_Some_iff trx_nr_unique [OF wf small])
  with True show ?thesis by (simp add: gsm_bts_trx_num_def)
next
  case False
  then show ?thesis by (simp add: gsm_bts_trx_num_def)
qed

text \<open>The station \<^verbatim>\<open>gsm_bts_alloc\<close> builds when memory is available.\<close>

definition fresh_bts :: gsm_bts where
  "fresh_bts = the (gsm_bts_alloc True True)"

lemma fresh_bts_alloc: "gsm_bts_alloc True True = Some fresh_bts"
  by (simp add: fresh_bts_def gsm_bts_alloc_def gsm_bts_trx_alloc_def Let_def)

section \<open>Properties\<close>

text \<open>For a station of at most 256 transceivers, the object an OML object class and instance resolve to can be read: the transceiver index is the number in the instance and exists, and a timeslot is one of the eight of its transceiver. The pointer the code forms without testing the lookup is never wild.\<close>

theorem objclass2mo_safe:
  assumes "wf_bts bts" "length (bts_trx_list bts) \<le> 256" "gsm_objclass2mo bts oc oi = Some mo"
  shows "deref_mo bts mo \<noteq> None \<and> (\<forall>t j. mo = MO_ts t j \<longrightarrow> valid_ts bts (t, j)) \<and> 
     (\<forall>t. mo = MO_trx t \<or> mo = MO_bb_transc t \<longrightarrow> t = unat (oi_trx_nr oi) \<and> t < length (bts_trx_list bts))"
proof -
  have "gsm_bts_trx_num bts (uint (oi_trx_nr oi)) = 
     (if uint (oi_trx_nr oi) < bts_num_trx bts then Some (unat (oi_trx_nr oi)) else None)"
    using gsm_bts_trx_num_eq [OF assms(1,2), of "uint (oi_trx_nr oi)"] by simp
  moreover have "unat (oi_trx_nr oi) < length (bts_trx_list bts)"
    if "uint (oi_trx_nr oi) < int (length (bts_trx_list bts))"
    using that by (metis of_nat_less_iff uint_nat)
  ultimately show ?thesis
    using assms(1,3) by (auto simp: gsm_objclass2mo_def Let_def member_of_trx_def deref_mo_def valid_ts_iff wf_bts_def
       split: nm_obj_class.splits if_splits)
qed

theorem objclass2mo_safe_witness:
  "deref_mo fresh_bts (MO_ts 0 5) \<noteq> None \<and> valid_ts fresh_bts (0, 5)"
proof -
  note wf = gsm_bts_alloc_wf [OF fresh_bts_alloc]
  have "gsm_bts_trx_num fresh_bts 0 = Some 0"
    using gsm_bts_trx_num_eq [of fresh_bts 0] wf by (simp add: wf_bts_def)
  then have "gsm_objclass2mo fresh_bts NM_OC_CHANNEL \<lparr>oi_bts_nr = 0, oi_trx_nr = 0, oi_ts_nr = 5\<rparr> = Some (MO_ts 0 5)"
    using wf by (simp add: gsm_objclass2mo_def member_of_trx_def wf_bts_def)
  from objclass2mo_safe [OF wf(1) _ this] wf(2) show ?thesis by simp
qed

end
