(* ===== verification/Chan_Alloc.thy ===== *)
theory Chan_Alloc
  imports Gsm_Data
begin

unbundle bit_operations_syntax

text \<open>
  The channel allocator of the BSC (\<^verbatim>\<open>src/libbsc/chan_alloc.c\<close>): timeslots and logical channels are
  searched in the order of the loops of the source, an allocation returns the path of the channel
  and the changed station, and the release sequence of a channel is a function on the channel that
  also lists the messages and signals it emits. Signal handlers (\<^verbatim>\<open>osmo_signal_dispatch\<close>) are a
  parameter: a function on the signalled channel.
\<close>

section \<open>Effects\<close>

datatype bsc_signal =
    S_CHALLOC_ALLOC_FAIL gsm_chan_t | S_CHALLOC_FREED gsm_chan_t
  | S_LCHAN_UNEXPECTED_RELEASE | S_LCHAN_ACTIVATE_ACK | S_LCHAN_ACTIVATE_NACK
  | S_LCHAN_MEAS_REP | S_LCHAN_HANDOVER_DETECT
  | S_ABISIP_CRCX_ACK | S_ABISIP_MDCX_ACK | S_ABISIP_DLCX_IND

text \<open>
  The information elements of the RSL messages the BSC builds, and what an operation emits: a
  signal, a message to the BTS (on the channel the operation works on), or a call into the layer
  above.
\<close>

datatype rsl_chan_rt = RSL_CMOD_CRT_SDCCH | RSL_CMOD_CRT_TCH_Bm | RSL_CMOD_CRT_TCH_Lm

datatype rsl_chan_rate =
    Rate_signalling | RSL_CMOD_SP_GSM1 | RSL_CMOD_SP_GSM2 | RSL_CMOD_SP_GSM3
  | RSL_CMOD_SP_NT_14k5 | RSL_CMOD_SP_NT_12k0 | RSL_CMOD_SP_NT_6k0

record rsl_ie_chan_mode =
  cm_dtx_dtu :: u8
  cm_spd_ind :: rsl_cmod_spd
  cm_chan_rt :: rsl_chan_rt
  cm_chan_rate :: rsl_chan_rate

datatype rsl_ie =
    IE_ACT_TYPE u8 | IE_CHAN_MODE rsl_ie_chan_mode | IE_CHAN_IDENT u8 "u8 list" "u8 list"
  | IE_ENCR_INFO "u8 list" | IE_HANDO_REF u8 | IE_BS_POWER u8 | IE_MS_POWER u8
  | IE_TIMING_ADVANCE u8 | IE_MR_CONFIG "u8 list"

datatype bsc_event =
    Ev_signal bsc_signal
  | Ev_oml_set_channel_attr ts_ptr gsm_phys_chan_config
  | Ev_rsl_release_request u8 u8
  | Ev_rr_release
  | Ev_rsl_rf_chan_rel
  | Ev_rsl_chan_activ "rsl_ie list"
  | Ev_rsl_mode_modify "rsl_ie list"
  | Ev_rsl_bs_power u8
  | Ev_rsl_ms_power u8
  | Ev_rsl_full_imm_assign "u8 list"
  | Ev_rsl_imm_assign "u8 list"
  | Ev_rll_indication u8 nat
  | Ev_l3_rcvmsg u8

type_synonym sig_handler = "bsc_signal \<Rightarrow> gsm_lchan \<Rightarrow> gsm_lchan"

section \<open>Physical channels\<close>

definition ts_is_usable :: "gsm_bts \<Rightarrow> gsm_bts_trx_ts \<Rightarrow> bool" where
  "ts_is_usable bts ts \<longleftrightarrow> \<not> (is_ipaccess_bts bts \<and> \<not> nm_is_running (nm_state (ts_mo ts)))"

definition trx_is_usable :: "gsm_bts \<Rightarrow> gsm_bts_trx \<Rightarrow> bool" where
  "trx_is_usable bts trx \<longleftrightarrow>
     \<not> (is_ipaccess_bts bts \<and>
        (\<not> nm_is_running (nm_state (trx_mo trx)) \<or> \<not> nm_is_running (nm_state (trx_bb_transc_mo trx))))"

definition ts_c0_alloc :: "gsm_bts \<Rightarrow> gsm_phys_chan_config \<Rightarrow> gsm_bts \<times> ts_ptr option" where
  "ts_c0_alloc bts pchan =
     (if pchan \<noteq> GSM_PCHAN_CCCH \<and> pchan \<noteq> GSM_PCHAN_CCCH_SDCCH4 then (bts, None)
      else if ts_pchan (the_ts bts (bts_c0 bts, 0)) \<noteq> GSM_PCHAN_NONE then (bts, None)
      else (upd_ts (bts_c0 bts, 0) (\<lambda>ts. ts\<lparr>ts_pchan := pchan\<rparr>) bts, Some (bts_c0 bts, 0)))"

text \<open>
  The first and last timeslot \<^verbatim>\<open>ts_alloc\<close> tries on a transceiver; \<open>None\<close> where its \<^verbatim>\<open>switch\<close> returns
  \<^verbatim>\<open>NULL\<close>. The \<^verbatim>\<open>case GSM_PCHAN_SDCCH8_SACCH8C\<close> of a secondary transceiver falls through to the
  traffic channels.
\<close>

definition ts_alloc_range :: "bool \<Rightarrow> gsm_phys_chan_config \<Rightarrow> (nat \<times> nat) option" where
  "ts_alloc_range is_c0 pchan =
     (if is_c0 then
        (case pchan of
           GSM_PCHAN_CCCH \<Rightarrow> Some (0, 0)
         | GSM_PCHAN_CCCH_SDCCH4 \<Rightarrow> Some (0, 0)
         | GSM_PCHAN_TCH_F \<Rightarrow> Some (1, 7)
         | GSM_PCHAN_TCH_H \<Rightarrow> Some (1, 7)
         | _ \<Rightarrow> None)
      else
        (case pchan of
           GSM_PCHAN_SDCCH8_SACCH8C \<Rightarrow> Some (1, 7)
         | GSM_PCHAN_TCH_F \<Rightarrow> Some (1, 7)
         | GSM_PCHAN_TCH_H \<Rightarrow> Some (1, 7)
         | _ \<Rightarrow> None))"

text \<open>The inner loop over the timeslots \<open>lo \<dots> hi\<close> (\<^verbatim>\<open>from\<close> and \<^verbatim>\<open>to\<close>).\<close>

fun ts_alloc_slots :: "gsm_bts \<Rightarrow> gsm_bts_trx_ts list \<Rightarrow> nat list \<Rightarrow> nat option" where
  "ts_alloc_slots bts tss [] = None"
| "ts_alloc_slots bts tss (j # js) =
     (if \<not> ts_is_usable bts (tss ! j) then ts_alloc_slots bts tss js
      else if ts_pchan (tss ! j) = GSM_PCHAN_NONE then Some j
      else ts_alloc_slots bts tss js)"

text \<open>The outer loop: \<open>t\<close> is the position of the first transceiver of the remaining list.\<close>

fun ts_alloc_trxs :: "gsm_bts \<Rightarrow> gsm_phys_chan_config \<Rightarrow> nat \<Rightarrow> gsm_bts_trx list \<Rightarrow> ts_ptr option" where
  "ts_alloc_trxs bts pchan t [] = None"
| "ts_alloc_trxs bts pchan t (trx # trxs) =
     (if \<not> trx_is_usable bts trx then ts_alloc_trxs bts pchan (Suc t) trxs
      else case ts_alloc_range (t = bts_c0 bts) pchan of
             None \<Rightarrow> None
           | Some (lo, hi) \<Rightarrow>
               (case ts_alloc_slots bts (trx_ts trx) [lo..<Suc hi] of
                  Some j \<Rightarrow> Some (t, j)
                | None \<Rightarrow> ts_alloc_trxs bts pchan (Suc t) trxs))"

definition ts_alloc ::
    "gsm_bts \<Rightarrow> gsm_phys_chan_config \<Rightarrow> gsm_bts \<times> ts_ptr option \<times> bsc_event list" where
  "ts_alloc bts pchan =
     (case ts_alloc_trxs bts pchan 0 (bts_trx_list bts) of
        None \<Rightarrow> (bts, None, [])
      | Some p \<Rightarrow> (upd_ts p (\<lambda>ts. ts\<lparr>ts_pchan := pchan\<rparr>) bts, Some p,
                   [Ev_oml_set_channel_attr p pchan]))"

definition ts_free :: "ts_ptr \<Rightarrow> gsm_bts \<Rightarrow> gsm_bts" where
  "ts_free p bts = upd_ts p (\<lambda>ts. ts\<lparr>ts_pchan := GSM_PCHAN_NONE\<rparr>) bts"

text \<open>
  The table \<^verbatim>\<open>subslots_per_pchan\<close> ends with \<^verbatim>\<open>GSM_PCHAN_TCH_F_PDCH\<close>; an entry that is not
  initialised is zero, and \<^verbatim>\<open>GSM_PCHAN_UNKNOWN\<close> indexes past its end (\<open>None\<close>).
\<close>

definition subslots_per_pchan :: "gsm_phys_chan_config \<Rightarrow> nat option" where
  "subslots_per_pchan pchan =
     (case pchan of
        GSM_PCHAN_NONE \<Rightarrow> Some 0
      | GSM_PCHAN_CCCH \<Rightarrow> Some 0
      | GSM_PCHAN_CCCH_SDCCH4 \<Rightarrow> Some 4
      | GSM_PCHAN_TCH_F \<Rightarrow> Some 1
      | GSM_PCHAN_TCH_H \<Rightarrow> Some 2
      | GSM_PCHAN_SDCCH8_SACCH8C \<Rightarrow> Some 8
      | GSM_PCHAN_PDCH \<Rightarrow> Some 0
      | GSM_PCHAN_TCH_F_PDCH \<Rightarrow> Some 1
      | GSM_PCHAN_UNKNOWN \<Rightarrow> None)"

section \<open>Logical channels\<close>

definition lchan_is_free :: "gsm_lchan \<Rightarrow> bool" where
  "lchan_is_free lc \<longleftrightarrow> lc_type lc = GSM_LCHAN_NONE \<and> lc_state lc = LCHAN_S_NONE"

text \<open>May a channel for \<open>pchan\<close> be taken from this timeslot (the \<^verbatim>\<open>continue\<close> conditions)?\<close>

definition ts_offers :: "gsm_bts \<Rightarrow> gsm_phys_chan_config \<Rightarrow> gsm_bts_trx_ts \<Rightarrow> bool" where
  "ts_offers bts pchan ts \<longleftrightarrow>
     ts_is_usable bts ts \<and>
     (if ts_pchan ts = GSM_PCHAN_TCH_F_PDCH \<and> pchan = GSM_PCHAN_TCH_F
      then ts_flags ts AND TS_F_PDCH_MODE = 0
      else ts_pchan ts = pchan)"

definition lc_find_ss :: "gsm_phys_chan_config \<Rightarrow> gsm_bts_trx_ts \<Rightarrow> nat option" where
  "lc_find_ss pchan ts =
     (case subslots_per_pchan pchan of
        None \<Rightarrow> None
      | Some n \<Rightarrow> find_idx lchan_is_free (take n (ts_lchan ts)))"

fun lc_find_tss :: "gsm_bts \<Rightarrow> gsm_phys_chan_config \<Rightarrow> nat \<Rightarrow> gsm_bts_trx_ts list \<Rightarrow> (nat \<times> nat) option" where
  "lc_find_tss bts pchan j [] = None"
| "lc_find_tss bts pchan j (ts # tss) =
     (if \<not> ts_offers bts pchan ts then lc_find_tss bts pchan (Suc j) tss
      else case lc_find_ss pchan ts of
             Some ss \<Rightarrow> Some (j, ss)
           | None \<Rightarrow> lc_find_tss bts pchan (Suc j) tss)"

definition lc_find_trx :: "gsm_bts \<Rightarrow> gsm_bts_trx \<Rightarrow> gsm_phys_chan_config \<Rightarrow> (nat \<times> nat) option" where
  "lc_find_trx bts trx pchan =
     (if \<not> trx_is_usable bts trx then None else lc_find_tss bts pchan 0 (trx_ts trx))"

fun lc_find_trxs :: "gsm_bts \<Rightarrow> gsm_phys_chan_config \<Rightarrow> nat list \<Rightarrow> lchan_ptr option" where
  "lc_find_trxs bts pchan [] = None"
| "lc_find_trxs bts pchan (t # ts) =
     (case lc_find_trx bts (the_trx bts t) pchan of
        Some (j, ss) \<Rightarrow> Some (t, j, ss)
      | None \<Rightarrow> lc_find_trxs bts pchan ts)"

definition lc_find_bts ::
    "gsm_bts \<Rightarrow> gsm_phys_chan_config \<Rightarrow> gsm_bts \<times> lchan_ptr option \<times> bsc_event list" where
  "lc_find_bts bts pchan =
     (let order = (if bts_chan_alloc_reverse bts then rev [0..<length (bts_trx_list bts)]
                   else [0..<length (bts_trx_list bts)])
      in case lc_find_trxs bts pchan order of
           Some p \<Rightarrow> (bts, Some p, [])
         | None \<Rightarrow>
             if pchan = GSM_PCHAN_CCCH_SDCCH4 then (bts, None, [])
             else (case ts_alloc bts pchan of
                     (bts', None, ev) \<Rightarrow> (bts', None, ev)
                   | (bts', Some (t, j), ev) \<Rightarrow> (bts', Some (t, j, 0), ev)))"

text \<open>
  \<open>try_next\<close> is the idiom \<^verbatim>\<open>if (lchan == NULL) { lchan = _lc_find_bts(\<dots>); type = \<dots>; }\<close>.
\<close>

type_synonym alloc_st = "gsm_bts \<times> lchan_ptr option \<times> gsm_chan_t \<times> bsc_event list"

fun try_next :: "gsm_phys_chan_config \<Rightarrow> gsm_chan_t \<Rightarrow> alloc_st \<Rightarrow> alloc_st" where
  "try_next pchan ty (bts, Some p, ty0, ev) = (bts, Some p, ty0, ev)"
| "try_next pchan ty (bts, None, ty0, ev) =
     (case lc_find_bts bts pchan of (bts', r, ev') \<Rightarrow> (bts', r, ty, ev @ ev'))"

definition lchan_alloc_search :: "gsm_bts \<Rightarrow> gsm_chan_t \<Rightarrow> bool \<Rightarrow> alloc_st" where
  "lchan_alloc_search bts ty allow_bigger =
     (case ty of
        GSM_LCHAN_SDCCH \<Rightarrow>
          (let (fst_p, snd_p) =
                 (if bts_chan_alloc_reverse bts
                  then (GSM_PCHAN_SDCCH8_SACCH8C, GSM_PCHAN_CCCH_SDCCH4)
                  else (GSM_PCHAN_CCCH_SDCCH4, GSM_PCHAN_SDCCH8_SACCH8C));
               s2 = try_next snd_p ty (try_next fst_p ty (bts, None, ty, []))
           in if allow_bigger
              then try_next GSM_PCHAN_TCH_F GSM_LCHAN_TCH_F (try_next GSM_PCHAN_TCH_H GSM_LCHAN_TCH_H s2)
              else s2)
      | GSM_LCHAN_TCH_F \<Rightarrow> try_next GSM_PCHAN_TCH_F ty (bts, None, ty, [])
      | GSM_LCHAN_TCH_H \<Rightarrow>
          try_next GSM_PCHAN_TCH_F GSM_LCHAN_TCH_F (try_next GSM_PCHAN_TCH_H ty (bts, None, ty, []))
      | _ \<Rightarrow> (bts, None, ty, []))"

text \<open>What the allocator writes into the channel it returns: type, cleared SAPIs and multi-rate configuration.\<close>

definition init_alloc :: "gsm_chan_t \<Rightarrow> gsm_lchan \<Rightarrow> gsm_lchan" where
  "init_alloc ty lc =
     lc\<lparr>lc_type := ty, lc_sapis := replicate (length (lc_sapis lc)) 0,
        lc_mr_conf := replicate (length (lc_mr_conf lc)) 0\<rparr>"

definition lchan_alloc ::
    "gsm_bts \<Rightarrow> gsm_chan_t \<Rightarrow> bool \<Rightarrow> gsm_bts \<times> lchan_ptr option \<times> bsc_event list" where
  "lchan_alloc bts ty allow_bigger =
     (case lchan_alloc_search bts ty allow_bigger of
        (bts', Some p, ty', ev) \<Rightarrow>
          (upd_lchan p (init_alloc ty') bts', Some p, ev)
      | (bts', None, ty', ev) \<Rightarrow> (bts', None, ev @ [Ev_signal (S_CHALLOC_ALLOC_FAIL ty')]))"

text \<open>
  Freeing a channel. The handlers of the two signals run in between; the connection is dropped
  whatever they did.
\<close>

definition clear_meas :: "gsm_lchan \<Rightarrow> gsm_lchan" where
  "clear_meas lc =
     lc\<lparr>lc_meas_rep_idx := 0,
        lc_meas_rep := map (\<lambda>m. m\<lparr>mr_flags := 0, mr_nr := 0\<rparr>) (lc_meas_rep lc),
        lc_neigh_meas := map (\<lambda>n. n\<lparr>nmp_arfcn := 0\<rparr>) (lc_neigh_meas lc)\<rparr>"

definition lchan_free :: "sig_handler \<Rightarrow> gsm_lchan \<Rightarrow> gsm_lchan \<times> bsc_event list" where
  "lchan_free h lc =
     (let old_type = lc_type lc;
          lc1 = lc\<lparr>lc_type := GSM_LCHAN_NONE, lc_state := LCHAN_S_NONE\<rparr>;
          (lc2, ev1) = (if lc_conn lc1 \<noteq> None
                        then (h S_LCHAN_UNEXPECTED_RELEASE lc1, [Ev_signal S_LCHAN_UNEXPECTED_RELEASE])
                        else (lc1, []));
          lc3 = clear_meas (lc2\<lparr>lc_T3101 := None\<rparr>);
          lc4 = (if lc_rqd_ref lc3 \<noteq> None then lc3\<lparr>lc_rqd_ref := None, lc_rqd_ta := 0\<rparr> else lc3);
          lc5 = h (S_CHALLOC_FREED old_type) lc4;
          lc6 = (if lc_conn lc5 \<noteq> None then lc5\<lparr>lc_conn := None\<rparr> else lc5)
      in (lc6\<lparr>lc_sach_deact := 0, lc_release_reason := 0\<rparr>,
          ev1 @ [Ev_signal (S_CHALLOC_FREED old_type)]))"

definition lchan_reset :: "gsm_lchan \<Rightarrow> gsm_lchan" where
  "lchan_reset lc =
     lc\<lparr>lc_T3101 := None, lc_T3111 := None, lc_error_timer := None,
        lc_type := GSM_LCHAN_NONE, lc_state := LCHAN_S_NONE\<rparr>"

section \<open>The release sequence\<close>

definition rsl_lchan_set_state :: "gsm_lchan_state \<Rightarrow> gsm_lchan \<Rightarrow> gsm_lchan" where
  "rsl_lchan_set_state s lc = lc\<lparr>lc_state := s\<rparr>"

text \<open>The message for the next SAPI other than 0 that is in use; \<open>None\<close> where the code returns 1.\<close>

definition lchan_release_next_sapi :: "gsm_lchan \<Rightarrow> bsc_event list option" where
  "lchan_release_next_sapi lc =
     (case find_idx (\<lambda>x. x \<noteq> LCHAN_SAPI_UNUSED) (drop 1 (lc_sapis lc)) of
        None \<Rightarrow> None
      | Some i \<Rightarrow>
          (let link_id = (of_nat (Suc i) :: u8);
               link_id' = (if lc_type lc = GSM_LCHAN_TCH_F \<or> lc_type lc = GSM_LCHAN_TCH_H
                           then link_id OR 0x40 else link_id)
           in Some [Ev_rsl_release_request link_id' (of_int (lc_release_reason lc))]))"

definition lchan_handle_release :: "gsm_lchan \<Rightarrow> gsm_lchan \<times> bsc_event list" where
  "lchan_handle_release lc =
     (case lchan_release_next_sapi lc of
        Some ev \<Rightarrow> (lc, ev)
      | None \<Rightarrow>
          if lc_sach_deact lc \<noteq> 0 then (lc, [Ev_rr_release])
          else (rsl_lchan_set_state LCHAN_S_REL_REQ lc,
                [Ev_rsl_release_request 0 (of_int (lc_release_reason lc))]))"

definition rsl_lchan_rll_release :: "gsm_lchan \<Rightarrow> u8 \<Rightarrow> gsm_lchan \<times> bsc_event list \<times> int" where
  "rsl_lchan_rll_release lc link_id =
     (if lc_state lc \<noteq> LCHAN_S_REL_REQ then (lc, [], -1)
      else if link_id AND 0x7 \<noteq> 0
      then (case lchan_handle_release lc of (lc', ev) \<Rightarrow> (lc', ev, 0))
      else (lc, [], 0))"

definition lchan_release :: "gsm_lchan \<Rightarrow> int \<Rightarrow> int \<Rightarrow> gsm_lchan \<times> bsc_event list" where
  "lchan_release lc sach_deact reason =
     lchan_handle_release
       ((rsl_lchan_set_state LCHAN_S_REL_REQ lc)
          \<lparr>lc_conn := None, lc_release_reason := reason, lc_sach_deact := sach_deact\<rparr>)"

section \<open>Searching connections, load\<close>

text \<open>
  \<open>subscr_of\<close> is \<^verbatim>\<open>conn->subscr\<close>: the subscriber a connection belongs to. The loops run over
  transceivers, timeslots and sub-slots in this order.
\<close>

definition lchan_paths :: "gsm_bts \<Rightarrow> lchan_ptr list" where
  "lchan_paths bts =
     [(t, j, s). t \<leftarrow> [0..<length (bts_trx_list bts)], j \<leftarrow> [0..<8], s \<leftarrow> [0..<TS_MAX_LCHAN]]"

definition lchan_find :: "(nat \<Rightarrow> 's option) \<Rightarrow> gsm_bts \<Rightarrow> 's \<Rightarrow> lchan_ptr option" where
  "lchan_find subscr_of bts subscr =
     find (\<lambda>p. case lc_conn (the_lchan bts p) of None \<Rightarrow> False | Some c \<Rightarrow> subscr_of c = Some subscr)
       (lchan_paths bts)"

fun connection_for_subscr :: "(nat \<Rightarrow> 's option) \<Rightarrow> gsm_bts list \<Rightarrow> 's \<Rightarrow> nat option" where
  "connection_for_subscr subscr_of [] subscr = None"
| "connection_for_subscr subscr_of (bts # rest) subscr =
     (case lchan_find subscr_of bts subscr of
        Some p \<Rightarrow> lc_conn (the_lchan bts p)
      | None \<Rightarrow> connection_for_subscr subscr_of rest subscr)"

record load_counter =
  total :: nat
  used :: nat

type_synonym pchan_load = "gsm_phys_chan_config \<Rightarrow> load_counter"

definition count_lchan :: "load_counter \<Rightarrow> gsm_lchan \<Rightarrow> load_counter" where
  "count_lchan pl lc =
     (let pl' = pl\<lparr>total := total pl + 1\<rparr>
      in case lc_state lc of LCHAN_S_NONE \<Rightarrow> pl' | _ \<Rightarrow> pl'\<lparr>used := used pl' + 1\<rparr>)"

text \<open>\<open>None\<close>: a timeslot in use has the configuration \<^verbatim>\<open>GSM_PCHAN_UNKNOWN\<close>, whose table entries do not exist.\<close>

fun ts_chan_load :: "pchan_load \<Rightarrow> gsm_bts_trx_ts list \<Rightarrow> pchan_load option" where
  "ts_chan_load cl [] = Some cl"
| "ts_chan_load cl (ts # tss) =
     (if \<not> nm_is_running (nm_state (ts_mo ts)) then ts_chan_load cl tss
      else case subslots_per_pchan (ts_pchan ts) of
             None \<Rightarrow> None
           | Some n \<Rightarrow>
               ts_chan_load (cl(ts_pchan ts := foldl count_lchan (cl (ts_pchan ts)) (take n (ts_lchan ts)))) tss)"

fun trx_chan_load :: "pchan_load \<Rightarrow> gsm_bts_trx list \<Rightarrow> pchan_load option" where
  "trx_chan_load cl [] = Some cl"
| "trx_chan_load cl (trx # trxs) =
     (if \<not> nm_is_running (nm_state (trx_mo trx)) \<or> \<not> nm_is_running (nm_state (trx_bb_transc_mo trx))
      then trx_chan_load cl trxs
      else case ts_chan_load cl (trx_ts trx) of
             None \<Rightarrow> None
           | Some cl' \<Rightarrow> trx_chan_load cl' trxs)"

definition bts_chan_load :: "pchan_load \<Rightarrow> gsm_bts \<Rightarrow> pchan_load option" where
  "bts_chan_load cl bts = trx_chan_load cl (bts_trx_list bts)"

fun bts_list_chan_load :: "pchan_load \<Rightarrow> gsm_bts list \<Rightarrow> pchan_load option" where
  "bts_list_chan_load cl [] = Some cl"
| "bts_list_chan_load cl (bts # rest) =
     (case bts_chan_load cl bts of None \<Rightarrow> None | Some cl' \<Rightarrow> bts_list_chan_load cl' rest)"

definition network_chan_load :: "gsm_bts list \<Rightarrow> pchan_load option" where
  "network_chan_load bts_list = bts_list_chan_load (\<lambda>_. \<lparr>total = 0, used = 0\<rparr>) bts_list"

section \<open>What the searches find\<close>

lemma lc_find_ss_SomeD:
  assumes "lc_find_ss pchan ts = Some ss"
  shows "\<exists>n. subslots_per_pchan pchan = Some n \<and> ss < n \<and> ss < length (ts_lchan ts) \<and>
             lchan_is_free (ts_lchan ts ! ss)"
proof -
  from assms obtain n where n: "subslots_per_pchan pchan = Some n"
    and f: "find_idx lchan_is_free (take n (ts_lchan ts)) = Some ss"
    by (auto simp: lc_find_ss_def split: option.splits)
  from find_idx_SomeD [OF f] n show ?thesis by auto
qed

lemma lc_find_ss_NoneD:
  assumes "lc_find_ss pchan ts = None" "subslots_per_pchan pchan = Some n"
    "s < n" "s < length (ts_lchan ts)"
  shows "\<not> lchan_is_free (ts_lchan ts ! s)"
proof -
  from assms(3,4) have "ts_lchan ts ! s \<in> set (take n (ts_lchan ts))"
    by (auto simp: in_set_conv_nth)
  with assms(1,2) show ?thesis by (auto simp: lc_find_ss_def find_idx_None_iff)
qed

lemma lc_find_tss_SomeD:
  "lc_find_tss bts pchan j tss = Some (k, ss) \<Longrightarrow>
   \<exists>i < length tss. k = j + i \<and> ts_offers bts pchan (tss ! i) \<and> lc_find_ss pchan (tss ! i) = Some ss"
proof (induction tss arbitrary: j)
  case Nil
  then show ?case by simp
next
  case (Cons ts tss)
  show ?case
  proof (cases "ts_offers bts pchan ts \<and> lc_find_ss pchan ts \<noteq> None")
    case True
    with Cons.prems have "k = j \<and> lc_find_ss pchan ts = Some ss" by auto
    with True show ?thesis by (intro exI [of _ 0]) auto
  next
    case False
    with Cons.prems have "lc_find_tss bts pchan (Suc j) tss = Some (k, ss)"
      by (auto split: if_splits)
    then obtain i where "i < length tss" "k = Suc j + i" "ts_offers bts pchan (tss ! i)"
        "lc_find_ss pchan (tss ! i) = Some ss"
      using Cons.IH by blast
    then show ?thesis by (intro exI [of _ "Suc i"]) auto
  qed
qed

lemma lc_find_tss_NoneD:
  "lc_find_tss bts pchan j tss = None \<Longrightarrow> ts \<in> set tss \<Longrightarrow> ts_offers bts pchan ts \<Longrightarrow>
   lc_find_ss pchan ts = None"
  by (induction tss arbitrary: j) (auto split: if_splits option.splits)

lemma lc_find_trx_SomeD:
  assumes "lc_find_trx bts trx pchan = Some (j, ss)"
  shows "trx_is_usable bts trx" "j < length (trx_ts trx)" "ts_offers bts pchan (trx_ts trx ! j)"
    and "lc_find_ss pchan (trx_ts trx ! j) = Some ss"
proof -
  from assms have u: "trx_is_usable bts trx" and "lc_find_tss bts pchan 0 (trx_ts trx) = Some (j, ss)"
    by (auto simp: lc_find_trx_def split: if_splits)
  from lc_find_tss_SomeD [OF this(2)] u
  show "trx_is_usable bts trx" "j < length (trx_ts trx)" "ts_offers bts pchan (trx_ts trx ! j)"
    "lc_find_ss pchan (trx_ts trx ! j) = Some ss" by auto
qed

lemma lc_find_trxs_SomeD:
  "lc_find_trxs bts pchan order = Some (t, j, ss) \<Longrightarrow>
   t \<in> set order \<and> lc_find_trx bts (the_trx bts t) pchan = Some (j, ss)"
  by (induction order) (auto split: option.splits)

lemma lc_find_trxs_NoneD:
  "lc_find_trxs bts pchan order = None \<Longrightarrow> t \<in> set order \<Longrightarrow>
   lc_find_trx bts (the_trx bts t) pchan = None"
  by (induction order) (auto split: option.splits)

lemma ts_alloc_slots_SomeD:
  "ts_alloc_slots bts tss js = Some j \<Longrightarrow>
   j \<in> set js \<and> ts_is_usable bts (tss ! j) \<and> ts_pchan (tss ! j) = GSM_PCHAN_NONE"
  by (induction js) (auto split: if_splits)

lemma ts_alloc_slots_NoneD:
  "ts_alloc_slots bts tss js = None \<Longrightarrow> j \<in> set js \<Longrightarrow> ts_is_usable bts (tss ! j) \<Longrightarrow>
   ts_pchan (tss ! j) \<noteq> GSM_PCHAN_NONE"
  by (induction js) (auto split: if_splits)

lemma ts_alloc_range_bound: "ts_alloc_range c pchan = Some (lo, hi) \<Longrightarrow> hi < 8"
  by (auto simp: ts_alloc_range_def split: if_splits gsm_phys_chan_config.splits)

lemma ts_alloc_trxs_SomeD:
  "ts_alloc_trxs bts pchan t trxs = Some (k, j) \<Longrightarrow>
   \<exists>i < length trxs. k = t + i \<and> trx_is_usable bts (trxs ! i) \<and> j < 8 \<and>
     ts_is_usable bts (trx_ts (trxs ! i) ! j) \<and> ts_pchan (trx_ts (trxs ! i) ! j) = GSM_PCHAN_NONE"
proof (induction trxs arbitrary: t)
  case Nil
  then show ?case by simp
next
  case (Cons trx trxs)
  show ?case
  proof (cases "ts_alloc_trxs bts pchan (Suc t) trxs = Some (k, j)")
    case True
    from Cons.IH [OF True] obtain i where "i < length trxs" "k = Suc t + i"
        "trx_is_usable bts (trxs ! i)" "j < 8" "ts_is_usable bts (trx_ts (trxs ! i) ! j)"
        "ts_pchan (trx_ts (trxs ! i) ! j) = GSM_PCHAN_NONE"
      by blast
    then show ?thesis by (intro exI [of _ "Suc i"]) auto
  next
    case False
    with Cons.prems obtain lo hi where u: "trx_is_usable bts trx"
      and r: "ts_alloc_range (t = bts_c0 bts) pchan = Some (lo, hi)"
      and s: "ts_alloc_slots bts (trx_ts trx) [lo..<Suc hi] = Some j" and k: "k = t"
      by (auto split: if_splits option.splits)
    from ts_alloc_slots_SomeD [OF s] ts_alloc_range_bound [OF r] u k
    show ?thesis by (intro exI [of _ 0]) auto
  qed
qed

section \<open>The allocation invariant\<close>

text \<open>
  A channel in use fits the configuration of its timeslot, and no channel of a timeslot without a
  configuration is in use.
\<close>

definition chan_fits :: "gsm_phys_chan_config \<Rightarrow> gsm_chan_t \<Rightarrow> nat \<Rightarrow> bool" where
  "chan_fits pchan ty s =
     (case ty of
        GSM_LCHAN_SDCCH \<Rightarrow> (pchan = GSM_PCHAN_CCCH_SDCCH4 \<and> s < 4) \<or> (pchan = GSM_PCHAN_SDCCH8_SACCH8C \<and> s < 8)
      | GSM_LCHAN_TCH_F \<Rightarrow> (pchan = GSM_PCHAN_TCH_F \<or> pchan = GSM_PCHAN_TCH_F_PDCH) \<and> s < 1
      | GSM_LCHAN_TCH_H \<Rightarrow> pchan = GSM_PCHAN_TCH_H \<and> s < 2
      | _ \<Rightarrow> False)"

definition lchan_inv :: "gsm_phys_chan_config \<Rightarrow> nat \<Rightarrow> gsm_lchan \<Rightarrow> bool" where
  "lchan_inv pchan s lc \<longleftrightarrow>
     (pchan = GSM_PCHAN_NONE \<longrightarrow> lchan_is_free lc) \<and>
     (lc_type lc \<noteq> GSM_LCHAN_NONE \<longrightarrow> chan_fits pchan (lc_type lc) s)"

definition alloc_inv :: "gsm_bts \<Rightarrow> bool" where
  "alloc_inv bts \<longleftrightarrow>
     wf_bts bts \<and>
     (\<forall>t j s. valid_lchan bts (t, j, s) \<longrightarrow>
        lchan_inv (ts_pchan (the_ts bts (t, j))) s (the_lchan bts (t, j, s)))"

lemma alloc_inv_wf: "alloc_inv bts \<Longrightarrow> wf_bts bts"
  by (simp add: alloc_inv_def)

lemma alloc_inv_lchan:
  "alloc_inv bts \<Longrightarrow> valid_lchan bts (t, j, s) \<Longrightarrow>
   lchan_inv (ts_pchan (the_ts bts (t, j))) s (the_lchan bts (t, j, s))"
  by (simp add: alloc_inv_def)

lemma valid_lchan_ts: "valid_lchan bts (t, j, s) \<Longrightarrow> valid_ts bts (t, j)"
  by (simp add: valid_lchan_def)

lemma upd_ts_pchan_lchan [simp]:
  assumes "valid_ts bts (t, j)"
  shows "the_lchan (upd_ts p (\<lambda>ts. ts\<lparr>ts_pchan := c\<rparr>) bts) (t, j, s) = the_lchan bts (t, j, s)"
  using the_ts_upd_ts [OF assms, of p "\<lambda>ts. ts\<lparr>ts_pchan := c\<rparr>"]
  by (auto simp: the_lchan_def)

lemma upd_ts_pchan_valid [simp]:
  "valid_lchan (upd_ts p (\<lambda>ts. ts\<lparr>ts_pchan := c\<rparr>) bts) (t, j, s) = valid_lchan bts (t, j, s)"
  using the_ts_upd_ts [of bts "(t, j)" p "\<lambda>ts. ts\<lparr>ts_pchan := c\<rparr>"]
  by (cases "valid_ts bts (t, j)") (auto simp: valid_lchan_def)

lemma upd_ts_pchan_wf: "wf_bts bts \<Longrightarrow> wf_bts (upd_ts p (\<lambda>ts. ts\<lparr>ts_pchan := c\<rparr>) bts)"
  by (rule wf_bts_upd_ts) (simp_all add: wf_ts_def)

text \<open>Configuring a timeslot that has no configuration keeps the invariant: all its channels are free.\<close>

lemma alloc_inv_configure:
  assumes inv: "alloc_inv bts" and free: "ts_pchan (the_ts bts p) = GSM_PCHAN_NONE"
  shows "alloc_inv (upd_ts p (\<lambda>ts. ts\<lparr>ts_pchan := c\<rparr>) bts)"
proof -
  have "lchan_inv (ts_pchan (the_ts (upd_ts p (\<lambda>ts. ts\<lparr>ts_pchan := c\<rparr>) bts) (t, j))) s (the_lchan bts (t, j, s))"
    if v: "valid_lchan bts (t, j, s)" for t j s
  proof -
    note old = alloc_inv_lchan [OF inv v]
    note vt = valid_lchan_ts [OF v]
    show ?thesis
    proof (cases "p = (t, j)")
      case True
      with old free have "lchan_is_free (the_lchan bts (t, j, s))" by (simp add: lchan_inv_def)
      then show ?thesis by (simp add: lchan_inv_def lchan_is_free_def)
    next
      case False
      with old show ?thesis
        using the_ts_upd_ts [OF vt, of p "\<lambda>ts. ts\<lparr>ts_pchan := c\<rparr>"] by simp
    qed
  qed
  then show ?thesis
    using upd_ts_pchan_wf [OF alloc_inv_wf [OF inv]] valid_lchan_ts
    by (auto simp: alloc_inv_def)
qed

text \<open>Writing a channel keeps the invariant when the channel written satisfies its part of it.\<close>

lemma alloc_inv_upd_lchan:
  assumes inv: "alloc_inv bts"
    and wf: "\<And>lc. wf_lchan s lc \<Longrightarrow> wf_lchan s (f lc)"
    and new: "valid_lchan bts (t, j, s) \<Longrightarrow>
       lchan_inv (ts_pchan (the_ts bts (t, j))) s (f (the_lchan bts (t, j, s)))"
  shows "alloc_inv (upd_lchan (t, j, s) f bts)"
proof -
  have "lchan_inv (ts_pchan (the_ts (upd_lchan (t, j, s) f bts) (t', j'))) s'
          (the_lchan (upd_lchan (t, j, s) f bts) (t', j', s'))"
    if v: "valid_lchan bts (t', j', s')" for t' j' s'
    using that new alloc_inv_lchan [OF inv v] valid_lchan_ts [OF v]
    by (cases "(t, j, s) = (t', j', s')") auto
  then show ?thesis
    using wf_bts_upd_lchan [of bts "(t, j, s)" f] wf alloc_inv_wf [OF inv]
    by (simp add: alloc_inv_def)
qed

section \<open>Allocation: safety and completeness\<close>

text \<open>
  \<open>found bts bts' pchan p\<close>: a search for \<open>pchan\<close> in \<open>bts\<close> ended with the channel \<open>p\<close>, either in a
  timeslot that offers \<open>pchan\<close> or in one it configured for \<open>pchan\<close>.
\<close>

definition found :: "gsm_bts \<Rightarrow> gsm_bts \<Rightarrow> gsm_phys_chan_config \<Rightarrow> lchan_ptr \<Rightarrow> bool" where
  "found bts bts' pchan p \<longleftrightarrow>
     (case p of (t, j, s) \<Rightarrow>
        valid_lchan bts p \<and> lchan_is_free (the_lchan bts p) \<and>
        (\<exists>n. subslots_per_pchan pchan = Some n \<and> s < n) \<and>
        (bts' = bts \<and> ts_offers bts pchan (the_ts bts (t, j)) \<or>
         ts_pchan (the_ts bts (t, j)) = GSM_PCHAN_NONE \<and>
         bts' = upd_ts (t, j) (\<lambda>ts. ts\<lparr>ts_pchan := pchan\<rparr>) bts))"

lemma lc_find_bts_NoneD: "lc_find_bts bts pchan = (bts', None, ev) \<Longrightarrow> bts' = bts \<and> ev = []"
  by (auto simp: lc_find_bts_def ts_alloc_def Let_def split: option.splits if_splits)

lemma lc_find_trxs_found:
  assumes wf: "wf_bts bts" and f: "lc_find_trxs bts pchan order = Some p"
    and order: "set order \<subseteq> {..<length (bts_trx_list bts)}"
  shows "found bts bts pchan p"
proof -
  obtain t j s where p: "p = (t, j, s)" by (cases p)
  from f lc_find_trxs_SomeD [of bts pchan order t j s] order
  have t: "t < length (bts_trx_list bts)" and trx: "lc_find_trx bts (the_trx bts t) pchan = Some (j, s)"
    by (auto simp: p)
  note d = lc_find_trx_SomeD [OF trx]
  from lc_find_ss_SomeD [OF d(4)] obtain n where n: "subslots_per_pchan pchan = Some n" "s < n"
    and s: "s < length (ts_lchan (trx_ts (the_trx bts t) ! j))"
      "lchan_is_free (ts_lchan (trx_ts (the_trx bts t) ! j) ! s)"
    by blast
  show ?thesis
    using t d(2,3) n s
    by (auto simp: found_def p valid_lchan_def valid_ts_def the_ts_def the_lchan_def)
qed

lemma lc_find_bts_found:
  assumes inv: "alloc_inv bts" and f: "lc_find_bts bts pchan = (bts', Some p, ev)"
    and n: "subslots_per_pchan pchan = Some n" "0 < n"
  shows "found bts bts' pchan p"
proof -
  note wf = alloc_inv_wf [OF inv]
  let ?order = "if bts_chan_alloc_reverse bts then rev [0..<length (bts_trx_list bts)]
                else [0..<length (bts_trx_list bts)]"
  show ?thesis
  proof (cases "lc_find_trxs bts pchan ?order")
    case (Some q)
    with f have "bts' = bts" "q = p" by (auto simp: lc_find_bts_def Let_def)
    moreover have "set ?order \<subseteq> {..<length (bts_trx_list bts)}" by auto
    ultimately show ?thesis using lc_find_trxs_found [OF wf Some] by simp
  next
    case None
    with f obtain t j where p: "p = (t, j, 0)"
      and a: "ts_alloc_trxs bts pchan 0 (bts_trx_list bts) = Some (t, j)"
      and b: "bts' = upd_ts (t, j) (\<lambda>ts. ts\<lparr>ts_pchan := pchan\<rparr>) bts"
      by (auto simp: lc_find_bts_def ts_alloc_def Let_def split: option.splits if_splits prod.splits)
    from ts_alloc_trxs_SomeD [OF a] have t: "t < length (bts_trx_list bts)" "j < 8"
      and free: "ts_pchan (the_ts bts (t, j)) = GSM_PCHAN_NONE"
      by (auto simp: the_ts_def)
    from t wf have v: "valid_lchan bts (t, j, 0)" by (simp add: valid_lchan_iff)
    from alloc_inv_lchan [OF inv v] free have "lchan_is_free (the_lchan bts (t, j, 0))"
      by (simp add: lchan_inv_def)
    with v free n show ?thesis by (simp add: found_def p b)
  qed
qed

definition pchan_serves :: "gsm_phys_chan_config \<Rightarrow> gsm_chan_t \<Rightarrow> bool" where
  "pchan_serves pchan ty \<longleftrightarrow>
     (pchan, ty) \<in> {(GSM_PCHAN_CCCH_SDCCH4, GSM_LCHAN_SDCCH), (GSM_PCHAN_SDCCH8_SACCH8C, GSM_LCHAN_SDCCH),
                    (GSM_PCHAN_TCH_H, GSM_LCHAN_TCH_H), (GSM_PCHAN_TCH_F, GSM_LCHAN_TCH_F)}"

lemma pchan_serves_subslots: "pchan_serves pchan ty \<Longrightarrow> \<exists>n > 0. subslots_per_pchan pchan = Some n"
  by (auto simp: pchan_serves_def subslots_per_pchan_def)

lemma pchan_serves_used: "pchan_serves pchan ty \<Longrightarrow> ty \<noteq> GSM_LCHAN_NONE"
  by (auto simp: pchan_serves_def)

lemma found_keeps:
  assumes "found bts bts' pchan p" and inv: "alloc_inv bts"
  shows "alloc_inv bts'" and "valid_lchan bts' q = valid_lchan bts q"
    and "valid_lchan bts q \<Longrightarrow> the_lchan bts' q = the_lchan bts q"
proof -
  obtain t j s where p: "p = (t, j, s)" by (cases p)
  obtain t' j' s' where q: "q = (t', j', s')" by (cases q)
  from assms(1) consider "bts' = bts"
    | "ts_pchan (the_ts bts (t, j)) = GSM_PCHAN_NONE" "bts' = upd_ts (t, j) (\<lambda>ts. ts\<lparr>ts_pchan := pchan\<rparr>) bts"
    by (auto simp: found_def p)
  then show "alloc_inv bts'" "valid_lchan bts' q = valid_lchan bts q"
    "valid_lchan bts q \<Longrightarrow> the_lchan bts' q = the_lchan bts q"
    using inv by (cases; auto simp: q alloc_inv_configure dest: valid_lchan_ts)+
qed

lemma found_fits:
  assumes "found bts bts' pchan (t, j, s)" "pchan_serves pchan ty"
  shows "chan_fits (ts_pchan (the_ts bts' (t, j))) ty s"
proof -
  from assms(1) have v: "valid_ts bts (t, j)"
    by (auto simp: found_def valid_lchan_def)
  from assms show ?thesis
    using the_ts_upd_ts [OF v, of "(t, j)" "\<lambda>ts. ts\<lparr>ts_pchan := pchan\<rparr>"]
    by (auto simp: found_def pchan_serves_def chan_fits_def ts_offers_def subslots_per_pchan_def
        split: if_splits)
qed

text \<open>The state of the search after some attempts: nothing changed, or a fitting channel was found.\<close>

definition search_ok :: "gsm_bts \<Rightarrow> alloc_st \<Rightarrow> bool" where
  "search_ok bts st \<longleftrightarrow>
     (case st of
        (b, None, ty, ev) \<Rightarrow> b = bts \<and> ev = []
      | (b, Some p, ty, ev) \<Rightarrow> \<exists>pchan. found bts b pchan p \<and> pchan_serves pchan ty)"

lemma search_ok_try_next:
  assumes inv: "alloc_inv bts" and ok: "search_ok bts st" and s: "pchan_serves pchan ty"
  shows "search_ok bts (try_next pchan ty st)"
proof -
  obtain b r ty0 ev where st: "st = (b, r, ty0, ev)" by (cases st)
  obtain n where n: "subslots_per_pchan pchan = Some n" "0 < n"
    using pchan_serves_subslots [OF s] by blast
  show ?thesis
  proof (cases r)
    case (Some p)
    with ok show ?thesis by (simp add: st)
  next
    case None
    with ok have [simp]: "b = bts" "ev = []" by (simp_all add: st search_ok_def)
    show ?thesis
      using lc_find_bts_found [OF inv _ n] lc_find_bts_NoneD [of bts pchan] s
      by (auto simp: st None search_ok_def split: prod.splits option.splits)
  qed
qed

lemma search_ok_start: "search_ok bts (bts, None, ty, [])"
  by (simp add: search_ok_def)

lemma search_ok_lchan_alloc:
  assumes "alloc_inv bts"
  shows "search_ok bts (lchan_alloc_search bts ty allow_bigger)"
  unfolding lchan_alloc_search_def
  by (auto simp: Let_def search_ok_start pchan_serves_def simp del: try_next.simps
      split: gsm_chan_t.splits intro!: search_ok_try_next [OF assms])

lemma wf_init_alloc: "wf_lchan s lc \<Longrightarrow> wf_lchan s (init_alloc ty lc)"
  by (simp add: wf_lchan_def init_alloc_def)

lemma lchan_alloc_cases:
  assumes inv: "alloc_inv bts" and a: "lchan_alloc bts ty allow_bigger = (bts', r, ev)"
  obtains (fail) ty' where "r = None" "bts' = bts" "ev = [Ev_signal (S_CHALLOC_ALLOC_FAIL ty')]"
      "lchan_alloc_search bts ty allow_bigger = (bts, None, ty', [])"
  | (ok) p pchan b ty' where "r = Some p" "found bts b pchan p" "pchan_serves pchan ty'"
      "bts' = upd_lchan p (init_alloc ty') b"
      "lchan_alloc_search bts ty allow_bigger = (b, Some p, ty', ev)"
proof -
  obtain b r' ty' ev' where s: "lchan_alloc_search bts ty allow_bigger = (b, r', ty', ev')"
    by (cases "lchan_alloc_search bts ty allow_bigger")
  from search_ok_lchan_alloc [OF inv, of ty allow_bigger] have st: "search_ok bts (b, r', ty', ev')"
    by (simp add: s)
  show ?thesis
  proof (cases r')
    case None
    with st a s show ?thesis
      by (intro fail) (auto simp: lchan_alloc_def search_ok_def)
  next
    case (Some p)
    with st obtain pchan where "found bts b pchan p" "pchan_serves pchan ty'"
      by (auto simp: search_ok_def)
    with a s Some show ?thesis
      by (intro ok) (auto simp: lchan_alloc_def init_alloc_def)
  qed
qed

lemma lchan_alloc_inv:
  assumes inv: "alloc_inv bts" and a: "lchan_alloc bts ty allow_bigger = (bts', r, ev)"
  shows "alloc_inv bts'"
  using inv a
proof (cases rule: lchan_alloc_cases)
  case fail
  with inv show ?thesis by simp
next
  case (ok p pchan b ty')
  obtain t j s where p: "p = (t, j, s)" by (cases p)
  have "lchan_inv (ts_pchan (the_ts b (t, j))) s (init_alloc ty' (the_lchan b (t, j, s)))"
    using found_fits [OF ok(2) [unfolded p] ok(3)] pchan_serves_used [OF ok(3)]
    by (auto simp: lchan_inv_def init_alloc_def chan_fits_def split: gsm_chan_t.splits)
  then show ?thesis
    unfolding ok(4) p
    by (intro alloc_inv_upd_lchan found_keeps(1) [OF ok(2) inv] wf_init_alloc)
qed

lemma lchan_alloc_SomeD:
  assumes inv: "alloc_inv bts" and a: "lchan_alloc bts ty allow_bigger = (bts', Some (t, j, s), ev)"
  shows "valid_lchan bts (t, j, s)" "lchan_is_free (the_lchan bts (t, j, s))"
    and "chan_fits (ts_pchan (the_ts bts' (t, j))) (lc_type (the_lchan bts' (t, j, s))) s"
    and "lc_sapis (the_lchan bts' (t, j, s)) = replicate 8 LCHAN_SAPI_UNUSED"
    and "\<And>q. valid_lchan bts q \<Longrightarrow> q \<noteq> (t, j, s) \<Longrightarrow> the_lchan bts' q = the_lchan bts q"
proof -
  from inv a obtain pchan b ty' where f: "found bts b pchan (t, j, s)" and srv: "pchan_serves pchan ty'"
    and b: "bts' = upd_lchan (t, j, s) (init_alloc ty') b"
    by (cases rule: lchan_alloc_cases) auto
  note keeps = found_keeps [OF f inv]
  from f show v: "valid_lchan bts (t, j, s)" and "lchan_is_free (the_lchan bts (t, j, s))"
    by (simp_all add: found_def)
  from v have vb: "valid_lchan b (t, j, s)" by (simp add: keeps(2))
  from found_fits [OF f srv] vb
  show "chan_fits (ts_pchan (the_ts bts' (t, j))) (lc_type (the_lchan bts' (t, j, s))) s"
    by (simp add: b init_alloc_def valid_lchan_ts [OF vb])
  have "wf_lchan s (the_lchan bts (t, j, s))"
    by (rule wf_bts_the_lchan [OF alloc_inv_wf [OF inv] v])
  then show "lc_sapis (the_lchan bts' (t, j, s)) = replicate 8 LCHAN_SAPI_UNUSED"
    using vb v by (simp add: b init_alloc_def keeps(3) wf_lchan_def)
  show "the_lchan bts' q = the_lchan bts q" if "valid_lchan bts q" "q \<noteq> (t, j, s)" for q
    using that keeps(2,3) [of q] by (simp add: b)
qed

subsection \<open>Completeness\<close>

text \<open>The physical channel configurations an allocation request may be served from.\<close>

definition candidates :: "gsm_chan_t \<Rightarrow> bool \<Rightarrow> gsm_phys_chan_config set" where
  "candidates ty allow_bigger =
     (case ty of
        GSM_LCHAN_SDCCH \<Rightarrow> {GSM_PCHAN_CCCH_SDCCH4, GSM_PCHAN_SDCCH8_SACCH8C} \<union>
          (if allow_bigger then {GSM_PCHAN_TCH_H, GSM_PCHAN_TCH_F} else {})
      | GSM_LCHAN_TCH_F \<Rightarrow> {GSM_PCHAN_TCH_F}
      | GSM_LCHAN_TCH_H \<Rightarrow> {GSM_PCHAN_TCH_H, GSM_PCHAN_TCH_F}
      | _ \<Rightarrow> {})"

text \<open>A free sub-slot that a search for \<open>pchan\<close> would have to return.\<close>

definition available :: "gsm_bts \<Rightarrow> gsm_phys_chan_config \<Rightarrow> lchan_ptr \<Rightarrow> bool" where
  "available bts pchan p \<longleftrightarrow>
     (case p of (t, j, s) \<Rightarrow>
        valid_lchan bts p \<and> trx_is_usable bts (the_trx bts t) \<and> ts_offers bts pchan (the_ts bts (t, j)) \<and>
        (\<exists>n. subslots_per_pchan pchan = Some n \<and> s < n) \<and> lchan_is_free (the_lchan bts p))"

lemma lc_find_bts_complete:
  assumes "lc_find_bts bts pchan = (bts', None, ev)"
  shows "\<not> available bts pchan p"
proof
  assume av: "available bts pchan p"
  obtain t j s where p: "p = (t, j, s)" by (cases p)
  let ?ts = "trx_ts (the_trx bts t) ! j"
  from av obtain n where u: "trx_is_usable bts (the_trx bts t)" and off: "ts_offers bts pchan ?ts"
    and n: "subslots_per_pchan pchan = Some n" "s < n" and t: "t < length (bts_trx_list bts)"
    and j: "j < length (trx_ts (the_trx bts t))" and sl: "s < length (ts_lchan ?ts)"
    and free: "lchan_is_free (ts_lchan ?ts ! s)"
    by (auto simp: available_def p valid_lchan_def valid_ts_def the_ts_def the_lchan_def)
  from assms have "lc_find_trxs bts pchan (if bts_chan_alloc_reverse bts then rev [0..<length (bts_trx_list bts)]
                else [0..<length (bts_trx_list bts)]) = None"
    by (auto simp: lc_find_bts_def Let_def split: option.splits)
  from lc_find_trxs_NoneD [OF this, of t] t have "lc_find_trx bts (the_trx bts t) pchan = None"
    by (auto split: if_splits)
  with u have "lc_find_tss bts pchan 0 (trx_ts (the_trx bts t)) = None"
    by (simp add: lc_find_trx_def)
  from lc_find_tss_NoneD [OF this nth_mem [OF j] off] have "lc_find_ss pchan ?ts = None" .
  from lc_find_ss_NoneD [OF this n(1) n(2) sl] free show False by simp
qed

abbreviation no_result :: "alloc_st \<Rightarrow> bool" where
  "no_result st \<equiv> fst (snd st) = None"

lemma try_next_None:
  assumes "no_result (try_next pchan ty st)" "search_ok bts st"
  shows "no_result st \<and> \<not> available bts pchan p"
proof -
  obtain b0 r ty0 ev0 where st: "st = (b0, r, ty0, ev0)" by (cases st)
  from assms(1) have r: "r = None" by (cases r) (auto simp: st)
  with assms(2) have b0: "b0 = bts" by (auto simp: st search_ok_def)
  from assms(1) r obtain b' ev' where "lc_find_bts bts pchan = (b', None, ev')"
    by (auto simp: st b0 split: prod.splits)
  then have "\<not> available bts pchan p" by (rule lc_find_bts_complete)
  then show ?thesis by (simp add: st r)
qed

lemma lchan_alloc_search_complete:
  assumes inv: "alloc_inv bts" and a: "no_result (lchan_alloc_search bts ty allow_bigger)"
    and c: "pchan \<in> candidates ty allow_bigger"
  shows "\<not> available bts pchan p"
proof -
  note ok = search_ok_start [of bts] search_ok_try_next [OF inv]
  note serves = pchan_serves_def
  show ?thesis
  proof (cases ty)
    case GSM_LCHAN_SDCCH
    define f where "f = (if bts_chan_alloc_reverse bts then GSM_PCHAN_SDCCH8_SACCH8C else GSM_PCHAN_CCCH_SDCCH4)"
    define g where "g = (if bts_chan_alloc_reverse bts then GSM_PCHAN_CCCH_SDCCH4 else GSM_PCHAN_SDCCH8_SACCH8C)"
    define s1 where "s1 = try_next f ty (bts, None, ty, [])"
    define s2 where "s2 = try_next g ty s1"
    define s3 where "s3 = try_next GSM_PCHAN_TCH_H GSM_LCHAN_TCH_H s2"
    have ok1: "search_ok bts s1" and ok2: "search_ok bts s2" and ok3: "search_ok bts s3"
      unfolding s1_def s2_def s3_def
      by (intro ok; simp add: serves f_def g_def GSM_LCHAN_SDCCH)+
    have res: "no_result (if allow_bigger then try_next GSM_PCHAN_TCH_F GSM_LCHAN_TCH_F s3 else s2)"
      using a by (simp add: lchan_alloc_search_def GSM_LCHAN_SDCCH f_def g_def s1_def s2_def s3_def Let_def
          del: try_next.simps split: if_splits)
    have big: "allow_bigger \<longrightarrow> \<not> available bts GSM_PCHAN_TCH_H p \<and> \<not> available bts GSM_PCHAN_TCH_F p"
      and n2: "no_result s2"
      using res try_next_None [OF _ ok3, of GSM_PCHAN_TCH_F GSM_LCHAN_TCH_F p]
        try_next_None [OF _ ok2, of GSM_PCHAN_TCH_H GSM_LCHAN_TCH_H p]
      by (simp_all add: s3_def [symmetric] del: try_next.simps split: if_splits)
    from try_next_None [OF n2 [unfolded s2_def] ok1, of p]
    have n1: "no_result s1" and "\<not> available bts g p" by simp_all
    moreover from try_next_None [OF n1 [unfolded s1_def] ok(1), of p] have "\<not> available bts f p" by simp
    moreover note big
    ultimately have "\<not> available bts f p" "\<not> available bts g p"
      "allow_bigger \<longrightarrow> \<not> available bts GSM_PCHAN_TCH_H p \<and> \<not> available bts GSM_PCHAN_TCH_F p"
      by simp_all
    with c show ?thesis
      by (auto simp: candidates_def GSM_LCHAN_SDCCH f_def g_def split: if_splits)
  next
    case GSM_LCHAN_TCH_F
    with a c show ?thesis
      using try_next_None [OF _ ok(1)]
      by (auto simp: lchan_alloc_search_def candidates_def simp del: try_next.simps)
  next
    case GSM_LCHAN_TCH_H
    define s1 where "s1 = try_next GSM_PCHAN_TCH_H ty (bts, None, ty, [])"
    have ok1: "search_ok bts s1"
      unfolding s1_def by (intro ok) (simp add: serves GSM_LCHAN_TCH_H)
    have "no_result (try_next GSM_PCHAN_TCH_F GSM_LCHAN_TCH_F s1)"
      using a by (simp add: lchan_alloc_search_def GSM_LCHAN_TCH_H s1_def del: try_next.simps)
    from try_next_None [OF this ok1, of p]
    have n1: "no_result s1" and "\<not> available bts GSM_PCHAN_TCH_F p" by simp_all
    moreover from try_next_None [OF n1 [unfolded s1_def] ok(1), of p]
    have "\<not> available bts GSM_PCHAN_TCH_H p" by simp
    ultimately have "\<not> available bts GSM_PCHAN_TCH_F p" "\<not> available bts GSM_PCHAN_TCH_H p"
      by simp_all
    with c show ?thesis by (auto simp: candidates_def GSM_LCHAN_TCH_H)
  qed (use c in \<open>auto simp: candidates_def\<close>)
qed

section \<open>Contracts: signal handlers and channel operations\<close>

text \<open>
  What the code relies on from the signal handlers: a handler does not allocate the signalled
  channel, does not put a free channel back into use and keeps its arrays.
\<close>

locale signal_handler =
  fixes h :: sig_handler
  assumes type_kept: "lc_type (h sg lc) = lc_type lc \<or> lc_type (h sg lc) = GSM_LCHAN_NONE"
    and free_kept: "lchan_is_free lc \<Longrightarrow> lchan_is_free (h sg lc)"
    and wf_kept: "wf_lchan s lc \<Longrightarrow> wf_lchan s (h sg lc)"

text \<open>
  An operation on one channel that may free it but never allocates it; applied to a channel of a
  configured timeslot it keeps the allocation invariant of the station.
\<close>

locale lchan_op =
  fixes op :: "gsm_lchan \<Rightarrow> gsm_lchan"
  assumes op_type: "lc_type (op lc) = lc_type lc \<or> lc_type (op lc) = GSM_LCHAN_NONE"
    and op_wf: "wf_lchan s lc \<Longrightarrow> wf_lchan s (op lc)"
begin

lemma keeps_alloc_inv:
  assumes inv: "alloc_inv bts" and conf: "ts_pchan (the_ts bts (t, j)) \<noteq> GSM_PCHAN_NONE"
  shows "alloc_inv (upd_lchan (t, j, s) op bts)"
proof (rule alloc_inv_upd_lchan [OF inv])
  show "wf_lchan s (op lc)" if "wf_lchan s lc" for lc using that by (rule op_wf)
  assume "valid_lchan bts (t, j, s)"
  then have "lchan_inv (ts_pchan (the_ts bts (t, j))) s (the_lchan bts (t, j, s))"
    by (rule alloc_inv_lchan [OF inv])
  then show "lchan_inv (ts_pchan (the_ts bts (t, j))) s (op (the_lchan bts (t, j, s)))"
    using conf op_type [of "the_lchan bts (t, j, s)"] by (auto simp: lchan_inv_def)
qed

end

text \<open>An operation whose result is always a free channel also keeps it on timeslots without a configuration.\<close>

locale lchan_freeing_op = lchan_op +
  assumes op_free: "lchan_is_free (op lc)"
begin

lemma frees_keeps_alloc_inv:
  assumes inv: "alloc_inv bts"
  shows "alloc_inv (upd_lchan (t, j, s) op bts)"
proof (rule alloc_inv_upd_lchan [OF inv])
  show "wf_lchan s (op lc)" if "wf_lchan s lc" for lc using that by (rule op_wf)
  show "lchan_inv (ts_pchan (the_ts bts (t, j))) s (op (the_lchan bts (t, j, s)))"
    using op_free [of "the_lchan bts (t, j, s)"] by (simp add: lchan_inv_def lchan_is_free_def)
qed

end

section \<open>Freeing and releasing\<close>

lemma wf_clear_meas: "wf_lchan s lc \<Longrightarrow> wf_lchan s (clear_meas lc)"
  by (auto simp: wf_lchan_def clear_meas_def list_all_length wf_neigh_def)

lemma clear_meas_free [simp]: "lchan_is_free (clear_meas lc) = lchan_is_free lc"
  by (simp add: clear_meas_def lchan_is_free_def)

lemma free_frame [simp]:
  "lchan_is_free (lc\<lparr>lc_T3101 := x\<rparr>) = lchan_is_free lc"
  "lchan_is_free (lc\<lparr>lc_rqd_ref := r, lc_rqd_ta := y\<rparr>) = lchan_is_free lc"
  "lchan_is_free (lc\<lparr>lc_conn := c\<rparr>) = lchan_is_free lc"
  "lchan_is_free (lc\<lparr>lc_sach_deact := d, lc_release_reason := e\<rparr>) = lchan_is_free lc"
  "lchan_is_free (lc\<lparr>lc_type := GSM_LCHAN_NONE, lc_state := LCHAN_S_NONE\<rparr>)"
  by (simp_all add: lchan_is_free_def)

lemma wf_lchan_frame [simp]:
  "wf_lchan s (lc\<lparr>lc_T3101 := x\<rparr>) = wf_lchan s lc"
  "wf_lchan s (lc\<lparr>lc_T3111 := x\<rparr>) = wf_lchan s lc"
  "wf_lchan s (lc\<lparr>lc_error_timer := x\<rparr>) = wf_lchan s lc"
  "wf_lchan s (lc\<lparr>lc_act_timer := x\<rparr>) = wf_lchan s lc"
  "wf_lchan s (lc\<lparr>lc_rqd_ref := r\<rparr>) = wf_lchan s lc"
  "wf_lchan s (lc\<lparr>lc_rqd_ta := y\<rparr>) = wf_lchan s lc"
  "wf_lchan s (lc\<lparr>lc_conn := c\<rparr>) = wf_lchan s lc"
  "wf_lchan s (lc\<lparr>lc_sach_deact := d\<rparr>) = wf_lchan s lc"
  "wf_lchan s (lc\<lparr>lc_release_reason := e\<rparr>) = wf_lchan s lc"
  "wf_lchan s (lc\<lparr>lc_state := st\<rparr>) = wf_lchan s lc"
  "wf_lchan s (lc\<lparr>lc_type := ty\<rparr>) = wf_lchan s lc"
  by (simp_all add: wf_lchan_def)

context signal_handler
begin

lemma lchan_free_free: "lchan_is_free (fst (lchan_free h lc))"
  by (auto simp: lchan_free_def Let_def free_kept)

lemma lchan_free_wf: "wf_lchan s lc \<Longrightarrow> wf_lchan s (fst (lchan_free h lc))"
  by (auto simp: lchan_free_def Let_def wf_clear_meas wf_kept)

end

lemma lchan_free_conn: "lc_conn (fst (lchan_free h lc)) = None"
  by (auto simp: lchan_free_def Let_def)

sublocale signal_handler \<subseteq> free: lchan_freeing_op "\<lambda>lc. fst (lchan_free h lc)"
proof
  show "lchan_is_free (fst (lchan_free h lc))" for lc by (rule lchan_free_free)
  then show "lc_type (fst (lchan_free h lc)) = lc_type lc \<or> lc_type (fst (lchan_free h lc)) = GSM_LCHAN_NONE" for lc
    by (simp add: lchan_is_free_def)
  show "wf_lchan s (fst (lchan_free h lc))" if "wf_lchan s lc" for s lc using that by (rule lchan_free_wf)
qed

interpretation reset: lchan_freeing_op lchan_reset
  by unfold_locales (simp_all add: lchan_reset_def lchan_is_free_def)

lemma lchan_handle_release_frame:
  "lc_type (fst (lchan_handle_release lc)) = lc_type lc"
  "lc_sapis (fst (lchan_handle_release lc)) = lc_sapis lc"
  "wf_lchan s (fst (lchan_handle_release lc)) = wf_lchan s lc"
  by (auto simp: lchan_handle_release_def rsl_lchan_set_state_def split: option.splits)

interpretation handle_release: lchan_op "\<lambda>lc. fst (lchan_handle_release lc)"
  by unfold_locales (simp_all add: lchan_handle_release_frame)

interpretation release: lchan_op "\<lambda>lc. fst (lchan_release lc d r)" for d r
  by unfold_locales
     (simp_all add: lchan_release_def lchan_handle_release_frame rsl_lchan_set_state_def)

section \<open>Load\<close>

text \<open>The channels a timeslot with the configuration \<open>pchan\<close> contributes to the load.\<close>

definition load_lchans_ts :: "gsm_phys_chan_config \<Rightarrow> gsm_bts_trx_ts \<Rightarrow> gsm_lchan list" where
  "load_lchans_ts pchan ts =
     (if nm_is_running (nm_state (ts_mo ts)) \<and> ts_pchan ts = pchan
      then take (the (subslots_per_pchan pchan)) (ts_lchan ts) else [])"

definition load_lchans_trx :: "gsm_phys_chan_config \<Rightarrow> gsm_bts_trx \<Rightarrow> gsm_lchan list" where
  "load_lchans_trx pchan trx =
     (if nm_is_running (nm_state (trx_mo trx)) \<and> nm_is_running (nm_state (trx_bb_transc_mo trx))
      then concat (map (load_lchans_ts pchan) (trx_ts trx)) else [])"

definition load_lchans :: "gsm_phys_chan_config \<Rightarrow> gsm_bts \<Rightarrow> gsm_lchan list" where
  "load_lchans pchan bts = concat (map (load_lchans_trx pchan) (bts_trx_list bts))"

definition load_of :: "gsm_lchan list \<Rightarrow> load_counter \<Rightarrow> load_counter" where
  "load_of lcs pl = pl\<lparr>total := total pl + length lcs,
     used := used pl + length (filter (\<lambda>lc. lc_state lc \<noteq> LCHAN_S_NONE) lcs)\<rparr>"

lemma load_of_append: "load_of ys (load_of xs pl) = load_of (xs @ ys) pl"
  by (simp add: load_of_def)

lemma load_of_Nil [simp]: "load_of [] pl = pl"
  by (simp add: load_of_def)

lemma foldl_count_lchan: "foldl count_lchan pl lcs = load_of lcs pl"
  by (induction lcs arbitrary: pl)
     (auto simp: count_lchan_def load_of_def Let_def split: gsm_lchan_state.splits)

definition known_pchan :: "gsm_bts_trx_ts \<Rightarrow> bool" where
  "known_pchan ts \<longleftrightarrow> ts_pchan ts \<noteq> GSM_PCHAN_UNKNOWN"

lemma known_subslots: "known_pchan ts \<Longrightarrow> \<exists>n. subslots_per_pchan (ts_pchan ts) = Some n"
  by (auto simp: known_pchan_def subslots_per_pchan_def split: gsm_phys_chan_config.splits)

lemma ts_chan_load_eq:
  "\<forall>ts \<in> set tss. known_pchan ts \<Longrightarrow>
   ts_chan_load cl tss = Some (\<lambda>pchan. load_of (concat (map (load_lchans_ts pchan) tss)) (cl pchan))"
proof (induction tss arbitrary: cl)
  case (Cons ts tss)
  then obtain n where n: "subslots_per_pchan (ts_pchan ts) = Some n" using known_subslots by fastforce
  show ?case
  proof (cases "nm_is_running (nm_state (ts_mo ts))")
    case True
    let ?cl = "cl(ts_pchan ts := load_of (take n (ts_lchan ts)) (cl (ts_pchan ts)))"
    have "load_of (load_lchans_ts pchan ts) (cl pchan) = ?cl pchan" for pchan
      using True n by (auto simp: load_lchans_ts_def)
    with Cons True n show ?thesis by (simp add: foldl_count_lchan load_of_append [symmetric])
  next
    case False
    with Cons show ?thesis by (simp add: load_lchans_ts_def)
  qed
qed simp

lemma trx_chan_load_eq:
  "\<forall>trx \<in> set trxs. \<forall>ts \<in> set (trx_ts trx). known_pchan ts \<Longrightarrow>
   trx_chan_load cl trxs = Some (\<lambda>pchan. load_of (concat (map (load_lchans_trx pchan) trxs)) (cl pchan))"
  by (induction trxs arbitrary: cl)
     (auto simp: ts_chan_load_eq load_lchans_trx_def load_of_append)

lemma bts_list_chan_load_eq:
  "\<forall>bts \<in> set bs. \<forall>trx \<in> set (bts_trx_list bts). \<forall>ts \<in> set (trx_ts trx). known_pchan ts \<Longrightarrow>
   bts_list_chan_load cl bs = Some (\<lambda>pchan. load_of (concat (map (load_lchans pchan) bs)) (cl pchan))"
  by (induction bs arbitrary: cl)
     (auto simp: bts_chan_load_def trx_chan_load_eq load_lchans_def load_of_append)

section \<open>New stations\<close>

lemma trx_alloc_free:
  assumes "gsm_bts_trx_alloc mem bts = Some (bts', t)"
  shows "\<exists>trx. bts' = bts\<lparr>bts_num_trx := bts_num_trx bts + 1, bts_trx_list := bts_trx_list bts @ [trx]\<rparr> \<and>
    length (trx_ts trx) = TRX_NR_TS \<and>
    (\<forall>j < TRX_NR_TS. \<forall>s < TS_MAX_LCHAN. lchan_is_free (ts_lchan (trx_ts trx ! j) ! s))"
  using assms
  by (auto simp: gsm_bts_trx_alloc_def Let_def zero_trx_def nth_enumerate_eq init_ts_def zero_ts_def
      init_lchan_def zero_lchan_def lchan_is_free_def split: if_splits)

lemma free_lchan_inv: "lchan_is_free lc \<Longrightarrow> lchan_inv pchan s lc"
  by (simp add: lchan_inv_def lchan_is_free_def)

lemma trx_alloc_inv:
  assumes inv: "alloc_inv bts" and a: "gsm_bts_trx_alloc mem bts = Some (bts', t)"
  shows "alloc_inv bts'"
proof -
  note wf = alloc_inv_wf [OF inv]
  note wf' = wf_bts_trx_alloc(1) [OF a wf]
  from trx_alloc_free [OF a] obtain trx
    where b: "bts' = bts\<lparr>bts_num_trx := bts_num_trx bts + 1, bts_trx_list := bts_trx_list bts @ [trx]\<rparr>"
      and free: "\<And>j s. j < TRX_NR_TS \<Longrightarrow> s < TS_MAX_LCHAN \<Longrightarrow> lchan_is_free (ts_lchan (trx_ts trx ! j) ! s)"
    by blast
  have "lchan_inv (ts_pchan (the_ts bts' (t, j))) s (the_lchan bts' (t, j, s))"
    if v: "valid_lchan bts' (t, j, s)" for t j s
  proof (cases "t < length (bts_trx_list bts)")
    case True
    with v have "valid_lchan bts (t, j, s)" by (simp add: valid_lchan_iff [OF wf'] valid_lchan_iff [OF wf])
    from alloc_inv_lchan [OF inv this] True show ?thesis
      by (simp add: b the_ts_def the_lchan_def nth_append)
  next
    case False
    with v have "t = length (bts_trx_list bts)" "j < TRX_NR_TS" "s < TS_MAX_LCHAN"
      by (simp_all add: valid_lchan_iff [OF wf'], simp add: b)
    then show ?thesis
      by (intro free_lchan_inv) (simp add: b the_lchan_def the_ts_def free)
  qed
  with wf' show ?thesis by (simp add: alloc_inv_def)
qed

lemma bts_alloc_inv:
  assumes "gsm_bts_alloc mem mem_trx = Some bts"
  shows "alloc_inv bts"
proof -
  note wf = gsm_bts_alloc_wf(1) [OF assms]
  from assms obtain b2 b3 c0 where a: "gsm_bts_trx_alloc mem_trx b2 = Some (b3, c0)"
    and b2: "bts_num_trx b2 = 0" "bts_trx_list b2 = []" "length (bts_bs11_envabtse_mo b2) = 4"
      "length (bts_gprs_nsvc b2) = 2"
    and b: "bts = (upd_ts (c0, 0) (\<lambda>ts. ts\<lparr>ts_pchan := GSM_PCHAN_CCCH_SDCCH4\<rparr>) (b3\<lparr>bts_c0 := c0\<rparr>))
             \<lparr>bts_rach_b_thresh := -1, bts_rach_ldavg_slots := -1, bts_paging_free_chans_need := -1\<rparr>"
    by (auto simp: gsm_bts_alloc_def Let_def zero_bts_def split: if_splits option.splits)
  from trx_alloc_free [OF a] b2 obtain trx where b3: "bts_trx_list b3 = [trx]"
    and free: "\<And>j s. j < TRX_NR_TS \<Longrightarrow> s < TS_MAX_LCHAN \<Longrightarrow> lchan_is_free (ts_lchan (trx_ts trx ! j) ! s)"
    and len: "length (trx_ts trx) = TRX_NR_TS"
    by auto
  have "lchan_is_free (the_lchan bts (t, j, s))" if "valid_lchan bts (t, j, s)" for t j s
  proof -
    from that have "t = 0" "j < TRX_NR_TS" "s < TS_MAX_LCHAN"
      by (simp_all add: valid_lchan_iff [OF wf] gsm_bts_alloc_wf(2) [OF assms])
    then show ?thesis
      using len by (auto simp: the_lchan_def the_ts_def b b3 upd_ts_def upd_nth_def nth_list_update free)
  qed
  then show ?thesis using wf free_lchan_inv by (auto simp: alloc_inv_def)
qed

lemma fresh_bts_inv: "alloc_inv fresh_bts"
  by (rule bts_alloc_inv [OF fresh_bts_alloc])

section \<open>Reset stations\<close>

lemma reset_not_running [simp]: "\<not> nm_is_running (nm_state (gsm_abis_mo_reset mo))"
  by (simp add: gsm_abis_mo_reset_def nm_is_running_def)

lemma reset_trx:
  "trx \<in> set (bts_trx_list (gsm_bts_mo_reset bts)) \<Longrightarrow> \<not> nm_is_running (nm_state (trx_mo trx))"
  by (auto simp: gsm_bts_mo_reset_def)

lemma unusable_trxs_alloc:
  "\<forall>trx \<in> set trxs. \<not> trx_is_usable bts trx \<Longrightarrow> ts_alloc_trxs bts pchan t trxs = None"
  by (induction trxs arbitrary: t) auto

lemma unusable_trxs_find:
  "\<forall>t \<in> set order. \<not> trx_is_usable bts (the_trx bts t) \<Longrightarrow> lc_find_trxs bts pchan order = None"
  by (induction order) (auto simp: lc_find_trx_def)

lemma unusable_find_bts:
  assumes "\<forall>trx \<in> set (bts_trx_list bts). \<not> trx_is_usable bts trx"
  shows "lc_find_bts bts pchan = (bts, None, [])"
proof -
  have "\<forall>t \<in> set (if bts_chan_alloc_reverse bts then rev [0..<length (bts_trx_list bts)] else [0..<length (bts_trx_list bts)]).
     \<not> trx_is_usable bts (the_trx bts t)"
    using assms by auto
  from unusable_trxs_find [OF this, of pchan] unusable_trxs_alloc [OF assms, of pchan 0] show ?thesis
    by (simp add: lc_find_bts_def ts_alloc_def)
qed

section \<open>Properties\<close>

text \<open>C2: An allocation that returns a channel returns one that was free, of a kind its timeslot carries, with no signalling link in use; every other channel of the station is unchanged and the allocation invariant holds afterwards.\<close>

theorem lchan_alloc_safe:
  assumes "alloc_inv bts" and "lchan_alloc bts ty allow_bigger = (bts', Some (t, j, s), ev)"
  shows "alloc_inv bts' \<and> valid_lchan bts (t, j, s) \<and> lchan_is_free (the_lchan bts (t, j, s)) \<and>
     chan_fits (ts_pchan (the_ts bts' (t, j))) (lc_type (the_lchan bts' (t, j, s))) s \<and>
     lc_sapis (the_lchan bts' (t, j, s)) = replicate 8 LCHAN_SAPI_UNUSED \<and>
     (\<forall>q. valid_lchan bts q \<longrightarrow> q \<noteq> (t, j, s) \<longrightarrow> the_lchan bts' q = the_lchan bts q)"
  using lchan_alloc_SomeD [OF assms] lchan_alloc_inv [OF assms] by blast

theorem lchan_alloc_safe_witness:
  "alloc_inv (fst (lchan_alloc fresh_bts GSM_LCHAN_SDCCH False)) \<and> lchan_is_free (the_lchan fresh_bts (0, 0, 0))"
proof -
  have "fst (snd (lchan_alloc fresh_bts GSM_LCHAN_SDCCH False)) = Some (0, 0, 0)" by code_simp
  then have "lchan_alloc fresh_bts GSM_LCHAN_SDCCH False =
      (fst (lchan_alloc fresh_bts GSM_LCHAN_SDCCH False), Some (0, 0, 0),
       snd (snd (lchan_alloc fresh_bts GSM_LCHAN_SDCCH False)))"
    by (metis prod.collapse)
  from lchan_alloc_safe [OF fresh_bts_inv this] show ?thesis by blast
qed

text \<open>C4: An allocation that fails leaves the station unchanged, and fails only when no configuration that could serve the request offers a free sub-slot on a usable timeslot.\<close>

theorem lchan_alloc_complete:
  assumes "alloc_inv bts" and "lchan_alloc bts ty allow_bigger = (bts', None, ev)"
  shows "bts' = bts \<and> (\<forall>pchan \<in> candidates ty allow_bigger. \<forall>p. \<not> available bts pchan p)"
proof -
  from assms(2) have "no_result (lchan_alloc_search bts ty allow_bigger)"
    by (auto simp: lchan_alloc_def split: prod.splits option.splits)
  then show ?thesis
    using lchan_alloc_search_complete [OF assms(1)] assms by (auto elim: lchan_alloc_cases)
qed


theorem lchan_alloc_complete_witness:
  "\<not> available (fresh_bts\<lparr>bts_type := GSM_BTS_TYPE_NANOBTS\<rparr>) GSM_PCHAN_TCH_F (0, 1, 0)"
proof -
  let ?b = "fresh_bts\<lparr>bts_type := GSM_BTS_TYPE_NANOBTS\<rparr>"
  have "alloc_inv ?b"
    using fresh_bts_inv by (simp add: alloc_inv_def wf_bts_def valid_lchan_def valid_ts_def the_ts_def the_lchan_def)
  moreover have "fst (snd (lchan_alloc ?b GSM_LCHAN_TCH_H False)) = None" by code_simp
  then have "lchan_alloc ?b GSM_LCHAN_TCH_H False =
      (fst (lchan_alloc ?b GSM_LCHAN_TCH_H False), None, snd (snd (lchan_alloc ?b GSM_LCHAN_TCH_H False)))"
    by (metis prod.collapse)
  ultimately show ?thesis using lchan_alloc_complete [of ?b GSM_LCHAN_TCH_H False] by (auto simp: candidates_def)
qed

text \<open>After the managed objects of a nanoBTS were reset, no channel is allocated on it and no timeslot is configured.\<close>

theorem mo_reset_stops_allocation:
  assumes "bts_type bts = GSM_BTS_TYPE_NANOBTS"
  shows "\<exists>ev. lchan_alloc (gsm_bts_mo_reset bts) ty allow_bigger = (gsm_bts_mo_reset bts, None, ev)"
proof -
  let ?b = "gsm_bts_mo_reset bts"
  have "bts_type ?b = GSM_BTS_TYPE_NANOBTS" using assms by (simp add: gsm_bts_mo_reset_def)
  then have "\<forall>trx \<in> set (bts_trx_list ?b). \<not> trx_is_usable ?b trx"
    using reset_trx by (auto simp: trx_is_usable_def is_ipaccess_bts_def)
  note nothing = unusable_find_bts [OF this]
  then show ?thesis
    by (cases ty) (auto simp: lchan_alloc_def lchan_alloc_search_def Let_def)
qed

theorem mo_reset_stops_allocation_witness:
  "\<exists>ev. lchan_alloc (gsm_bts_mo_reset (fresh_bts\<lparr>bts_type := GSM_BTS_TYPE_NANOBTS\<rparr>)) GSM_LCHAN_TCH_F True =
     (gsm_bts_mo_reset (fresh_bts\<lparr>bts_type := GSM_BTS_TYPE_NANOBTS\<rparr>), None, ev)"
  by (rule mo_reset_stops_allocation) simp

text \<open>The load of the network is computed for every network without unknown configurations; for each configuration its total is the number of sub-slots of running timeslots and the used count the number of those whose state is not idle.\<close>

theorem network_chan_load_counts:
  assumes "\<forall>bts \<in> set bs. \<forall>trx \<in> set (bts_trx_list bts). \<forall>ts \<in> set (trx_ts trx). ts_pchan ts \<noteq> GSM_PCHAN_UNKNOWN"
  shows "\<exists>cl. network_chan_load bs = Some cl \<and>
     (\<forall>pchan. total (cl pchan) = length (concat (map (load_lchans pchan) bs)) \<and>
              used (cl pchan) = length (filter (\<lambda>lc. lc_state lc \<noteq> LCHAN_S_NONE) (concat (map (load_lchans pchan) bs))) \<and>
              used (cl pchan) \<le> total (cl pchan))"
  using assms by (auto simp: network_chan_load_def bts_list_chan_load_eq known_pchan_def load_of_def length_filter_le)

theorem network_chan_load_counts_witness:
  "\<exists>cl. network_chan_load [fresh_bts] = Some cl \<and> used (cl GSM_PCHAN_TCH_F) \<le> total (cl GSM_PCHAN_TCH_F)"
proof -
  have "\<forall>trx \<in> set (bts_trx_list fresh_bts). \<forall>ts \<in> set (trx_ts trx). ts_pchan ts \<noteq> GSM_PCHAN_UNKNOWN"
    by code_simp
  then show ?thesis using network_chan_load_counts [of "[fresh_bts]"] by auto
qed

text \<open>A request for an SDCCH/8 never configures a timeslot while the first transceiver is usable: the search stops there.\<close>

theorem sdcch8_never_configured:
  assumes "wf_bts bts" "trx_is_usable bts (the_trx bts (bts_c0 bts))"
  shows "ts_alloc bts GSM_PCHAN_SDCCH8_SACCH8C = (bts, None, [])"
proof -
  from assms obtain trx trxs where "bts_trx_list bts = trx # trxs" "bts_c0 bts = 0"
    by (auto simp: wf_bts_def neq_Nil_conv)
  with assms(2) show ?thesis by (simp add: ts_alloc_def ts_alloc_range_def)
qed

theorem sdcch8_never_configured_witness:
  "ts_alloc fresh_bts GSM_PCHAN_SDCCH8_SACCH8C = (fresh_bts, None, [])"
proof -
  have "trx_is_usable fresh_bts (the_trx fresh_bts (bts_c0 fresh_bts))" by code_simp
  then show ?thesis
    using sdcch8_never_configured [of fresh_bts] gsm_bts_alloc_wf(1) [OF fresh_bts_alloc] by simp
qed

end
