(* ===== verification/Gsm_04_08_Utils.thy ===== *)
theory Gsm_04_08_Utils
  imports Gsm_Data
begin

unbundle bit_operations_syntax

text \<open>
  Layer 3 helpers of the BSC (\<^verbatim>\<open>src/libbsc/gsm_04_08_utils.c\<close>): classification of the random access
  octet of a channel request, the channel description of a logical channel, the ciphering mode
  setting, and the parser of the bit-packed measurement report, compared with a reference reader of
  the bit stream of GSM 04.08 section 10.5.2.20.
\<close>

section \<open>Channel requests\<close>

datatype chreq_type =
    CHREQ_T_EMERG_CALL | CHREQ_T_CALL_REEST_TCH_F | CHREQ_T_CALL_REEST_TCH_H
  | CHREQ_T_CALL_REEST_TCH_H_DBL | CHREQ_T_SDCCH | CHREQ_T_TCH_F | CHREQ_T_VOICE_CALL_TCH_H
  | CHREQ_T_DATA_CALL_TCH_H | CHREQ_T_LOCATION_UPD | CHREQ_T_PAG_R_ANY_NECI1
  | CHREQ_T_PAG_R_ANY_NECI0 | CHREQ_T_PAG_R_TCH_F | CHREQ_T_PAG_R_TCH_FH | CHREQ_T_LMU
  | CHREQ_T_RESERVED_SDCCH | CHREQ_T_RESERVED_IGNORE

type_synonym chreq = "u8 \<times> u8 \<times> chreq_type"

definition chreq_type_neci1 :: "chreq list" where
  "chreq_type_neci1 =
    [(0xa0, 0xe0, CHREQ_T_EMERG_CALL),
     (0xc0, 0xe0, CHREQ_T_CALL_REEST_TCH_F),
     (0x68, 0xfc, CHREQ_T_CALL_REEST_TCH_H),
     (0x6c, 0xfc, CHREQ_T_CALL_REEST_TCH_H_DBL),
     (0xe0, 0xe0, CHREQ_T_TCH_F),
     (0x40, 0xf0, CHREQ_T_VOICE_CALL_TCH_H),
     (0x50, 0xf0, CHREQ_T_DATA_CALL_TCH_H),
     (0x00, 0xf0, CHREQ_T_LOCATION_UPD),
     (0x10, 0xf0, CHREQ_T_SDCCH),
     (0x80, 0xe0, CHREQ_T_PAG_R_ANY_NECI1),
     (0x20, 0xf0, CHREQ_T_PAG_R_TCH_F),
     (0x30, 0xf0, CHREQ_T_PAG_R_TCH_FH),
     (0x67, 0xff, CHREQ_T_LMU),
     (0x60, 0xf9, CHREQ_T_RESERVED_SDCCH),
     (0x61, 0xfb, CHREQ_T_RESERVED_SDCCH),
     (0x63, 0xff, CHREQ_T_RESERVED_SDCCH),
     (0x7f, 0xff, CHREQ_T_RESERVED_IGNORE)]"

definition chreq_type_neci0 :: "chreq list" where
  "chreq_type_neci0 =
    [(0xa0, 0xe0, CHREQ_T_EMERG_CALL),
     (0xc0, 0xe0, CHREQ_T_CALL_REEST_TCH_H),
     (0xe0, 0xe0, CHREQ_T_TCH_F),
     (0x50, 0xf0, CHREQ_T_DATA_CALL_TCH_H),
     (0x00, 0xe0, CHREQ_T_LOCATION_UPD),
     (0x80, 0xe0, CHREQ_T_PAG_R_ANY_NECI0),
     (0x20, 0xf0, CHREQ_T_PAG_R_TCH_F),
     (0x30, 0xf0, CHREQ_T_PAG_R_TCH_FH),
     (0x67, 0xff, CHREQ_T_LMU),
     (0x60, 0xf9, CHREQ_T_RESERVED_SDCCH),
     (0x61, 0xfb, CHREQ_T_RESERVED_SDCCH),
     (0x63, 0xff, CHREQ_T_RESERVED_SDCCH),
     (0x7f, 0xff, CHREQ_T_RESERVED_IGNORE)]"

fun ctype_by_chreq :: "chreq_type \<Rightarrow> gsm_chan_t" where
  "ctype_by_chreq CHREQ_T_EMERG_CALL = GSM_LCHAN_TCH_F"
| "ctype_by_chreq CHREQ_T_CALL_REEST_TCH_F = GSM_LCHAN_TCH_F"
| "ctype_by_chreq CHREQ_T_CALL_REEST_TCH_H = GSM_LCHAN_TCH_H"
| "ctype_by_chreq CHREQ_T_CALL_REEST_TCH_H_DBL = GSM_LCHAN_TCH_H"
| "ctype_by_chreq CHREQ_T_SDCCH = GSM_LCHAN_SDCCH"
| "ctype_by_chreq CHREQ_T_TCH_F = GSM_LCHAN_TCH_F"
| "ctype_by_chreq CHREQ_T_VOICE_CALL_TCH_H = GSM_LCHAN_TCH_H"
| "ctype_by_chreq CHREQ_T_DATA_CALL_TCH_H = GSM_LCHAN_TCH_H"
| "ctype_by_chreq CHREQ_T_LOCATION_UPD = GSM_LCHAN_SDCCH"
| "ctype_by_chreq CHREQ_T_PAG_R_ANY_NECI1 = GSM_LCHAN_SDCCH"
| "ctype_by_chreq CHREQ_T_PAG_R_ANY_NECI0 = GSM_LCHAN_SDCCH"
| "ctype_by_chreq CHREQ_T_PAG_R_TCH_F = GSM_LCHAN_TCH_F"
| "ctype_by_chreq CHREQ_T_PAG_R_TCH_FH = GSM_LCHAN_TCH_F"
| "ctype_by_chreq CHREQ_T_LMU = GSM_LCHAN_SDCCH"
| "ctype_by_chreq CHREQ_T_RESERVED_SDCCH = GSM_LCHAN_SDCCH"
| "ctype_by_chreq CHREQ_T_RESERVED_IGNORE = GSM_LCHAN_UNKNOWN"

fun reason_by_chreq :: "chreq_type \<Rightarrow> gsm_chreq_reason_t" where
  "reason_by_chreq CHREQ_T_EMERG_CALL = GSM_CHREQ_REASON_EMERG"
| "reason_by_chreq CHREQ_T_CALL_REEST_TCH_F = GSM_CHREQ_REASON_CALL"
| "reason_by_chreq CHREQ_T_CALL_REEST_TCH_H = GSM_CHREQ_REASON_CALL"
| "reason_by_chreq CHREQ_T_CALL_REEST_TCH_H_DBL = GSM_CHREQ_REASON_CALL"
| "reason_by_chreq CHREQ_T_SDCCH = GSM_CHREQ_REASON_OTHER"
| "reason_by_chreq CHREQ_T_TCH_F = GSM_CHREQ_REASON_OTHER"
| "reason_by_chreq CHREQ_T_VOICE_CALL_TCH_H = GSM_CHREQ_REASON_CALL"
| "reason_by_chreq CHREQ_T_DATA_CALL_TCH_H = GSM_CHREQ_REASON_OTHER"
| "reason_by_chreq CHREQ_T_LOCATION_UPD = GSM_CHREQ_REASON_LOCATION_UPD"
| "reason_by_chreq CHREQ_T_PAG_R_ANY_NECI1 = GSM_CHREQ_REASON_PAG"
| "reason_by_chreq CHREQ_T_PAG_R_ANY_NECI0 = GSM_CHREQ_REASON_PAG"
| "reason_by_chreq CHREQ_T_PAG_R_TCH_F = GSM_CHREQ_REASON_PAG"
| "reason_by_chreq CHREQ_T_PAG_R_TCH_FH = GSM_CHREQ_REASON_PAG"
| "reason_by_chreq CHREQ_T_LMU = GSM_CHREQ_REASON_OTHER"
| "reason_by_chreq CHREQ_T_RESERVED_SDCCH = GSM_CHREQ_REASON_OTHER"
| "reason_by_chreq CHREQ_T_RESERVED_IGNORE = GSM_CHREQ_REASON_OTHER"

text \<open>The part of \<^verbatim>\<open>struct gsm_network\<close> the BSC core reads.\<close>

record gsm_network =
  net_neci :: int
  net_pag_any_tch :: int
  net_dtx_enabled :: bool
  net_ctype_by_chreq :: "chreq_type \<Rightarrow> gsm_chan_t"
  net_T3101 :: int
  net_T3111 :: int
  net_T3122 :: int

definition gsm_net_update_ctype :: "gsm_network \<Rightarrow> gsm_network" where
  "gsm_net_update_ctype net =
     (let c0 = ctype_by_chreq;
          c1 = (if net_neci net \<noteq> 0 then c0(CHREQ_T_EMERG_CALL := GSM_LCHAN_TCH_H) else c0);
          c2 = (if net_pag_any_tch net \<noteq> 0 then
                  (if net_neci net \<noteq> 0 then
                     c1(CHREQ_T_PAG_R_ANY_NECI0 := GSM_LCHAN_TCH_H, CHREQ_T_PAG_R_ANY_NECI1 := GSM_LCHAN_TCH_H)
                   else
                     c1(CHREQ_T_PAG_R_ANY_NECI0 := GSM_LCHAN_TCH_F, CHREQ_T_PAG_R_ANY_NECI1 := GSM_LCHAN_TCH_F))
                else c1)
      in net\<lparr>net_ctype_by_chreq := c2\<rparr>)"

text \<open>The loop over the table both lookups share: the first row whose masked value matches.\<close>

fun chreq_match :: "chreq list \<Rightarrow> u8 \<Rightarrow> chreq_type option" where
  "chreq_match [] ra = None"
| "chreq_match ((val, msk, ty) # rest) ra =
     (if ra AND msk = val then Some ty else chreq_match rest ra)"

definition chreq_table :: "int \<Rightarrow> chreq list" where
  "chreq_table neci = (if neci \<noteq> 0 then chreq_type_neci1 else chreq_type_neci0)"

definition get_ctype_by_chreq :: "gsm_network \<Rightarrow> u8 \<Rightarrow> gsm_chan_t" where
  "get_ctype_by_chreq net ra =
     (case chreq_match (chreq_table (net_neci net)) ra of
        Some ty \<Rightarrow> net_ctype_by_chreq net ty
      | None \<Rightarrow> GSM_LCHAN_SDCCH)"

definition get_reason_by_chreq :: "u8 \<Rightarrow> int \<Rightarrow> gsm_chreq_reason_t" where
  "get_reason_by_chreq ra neci =
     (case chreq_match (chreq_table neci) ra of
        Some ty \<Rightarrow> reason_by_chreq ty
      | None \<Rightarrow> GSM_CHREQ_REASON_OTHER)"

section \<open>Channel description and ciphering\<close>

text \<open>
  The channel description of GSM 04.08 section 10.5.2.5: three octets, the last two as bit fields
  for a hopping (\<open>h = 1\<close>) or a fixed frequency (\<open>h = 0\<close>). The bit fields keep only the low bits of
  what is assigned to them.
\<close>

definition gsm48_lchan2chan_desc :: "gsm_bts \<Rightarrow> lchan_ptr \<Rightarrow> u8 list" where
  "gsm48_lchan2chan_desc bts p =
     (case p of (t, j, s) \<Rightarrow>
        (let ts = the_ts bts (t, j);
             arfcn = trx_arfcn (the_trx bts t) AND 0x3ff;
             tsc = push_bit 5 (bts_tsc bts AND 0x7)
         in gsm_lchan2chan_nr bts p #
            (if ts_hopping_enabled ts = 0
             then [tsc OR ucast (drop_bit 8 arfcn), ucast (arfcn AND 0xff)]
             else [tsc OR 0x10 OR (drop_bit 2 (ts_hopping_maio ts) AND 0xf),
                   push_bit 6 (ts_hopping_maio ts AND 0x03) OR (ts_hopping_hsn ts AND 0x3f)])))"

text \<open>\<^verbatim>\<open>RSL_ENC_ALG_A5(x)\<close> is \<open>x + 1\<close>; the octet of the ciphering mode command.\<close>

definition rr_ciph_mode_octet :: "gsm_lchan \<Rightarrow> int \<Rightarrow> u8" where
  "rr_ciph_mode_octet lc want_imeisv =
     (let ciph_mod_set = (if lc_encr_alg_id lc \<le> 1 then 0
                          else push_bit 1 (lc_encr_alg_id lc - 2) OR 1)
      in push_bit 4 (of_int want_imeisv AND 0x1) OR (ciph_mod_set AND 0xf))"

section \<open>Cell description, mobile identity, mode modify\<close>

text \<open>Octets of the cell description: network and base station colour code with the high bits of
  the ARFCN, then its low octet.\<close>

definition gsm48_cell_desc :: "gsm_bts \<Rightarrow> u8 \<times> u8 \<times> u8 \<times> u8" where
  "gsm48_cell_desc bts =
     (let arfcn = trx_arfcn (the_trx bts (bts_c0 bts))
      in (drop_bit 3 (bts_bsic bts) AND 0x7, bts_bsic bts AND 0x7,
          ucast (drop_bit 8 arfcn) AND 0x3, ucast (arfcn AND 0xff)))"

text \<open>
  \<^verbatim>\<open>gsm48_extract_mi\<close>: \<open>buf\<close> holds the octets from the classmark on and \<open>length\<close> is the size the
  caller claims for them. \<open>Inl rc\<close> is the error code; \<open>Inr (mi_type, mi)\<close> the identity type and the
  octets handed to \<^verbatim>\<open>gsm48_mi_to_string\<close>. The code tests the claimed length against the length
  octets only, so that it reads octets the test does not cover; \<open>None\<close> is a read outside the
  buffer.
\<close>

definition gsm48_extract_mi :: "u8 list \<Rightarrow> int \<Rightarrow> (int + (u8 \<times> u8 list)) option" where
  "gsm48_extract_mi buf len =
     (if buf = [] then None
      else
        (let cm = uint (hd buf)
         in if len < 1 + cm then Some (Inl (-1))
            else if int (length buf) \<le> cm + 1 then None
            else
              (let mi_lv = drop (nat cm + 1) buf;
                   mi_len = uint (hd mi_lv)
               in if len < 2 + cm + mi_len then Some (Inl (-2))
                  else if length mi_lv < 2 \<or> length mi_lv < Suc (nat mi_len) then None
                  else Some (Inr (mi_lv ! 1 AND 0x07, take (nat mi_len) (drop 1 mi_lv))))))"

text \<open>The RSL channel mode that a confirmed layer 3 mode selects; other modes leave it alone.\<close>

definition rsl_cmode_of_tch_mode :: "gsm48_chan_mode \<Rightarrow> rsl_cmod_spd \<Rightarrow> rsl_cmod_spd" where
  "rsl_cmode_of_tch_mode mode old =
     (case mode of
        GSM48_CMODE_SIGN \<Rightarrow> RSL_CMOD_SPD_SIGN
      | GSM48_CMODE_SPEECH_V1 \<Rightarrow> RSL_CMOD_SPD_SPEECH
      | GSM48_CMODE_SPEECH_EFR \<Rightarrow> RSL_CMOD_SPD_SPEECH
      | GSM48_CMODE_SPEECH_AMR \<Rightarrow> RSL_CMOD_SPD_SPEECH
      | GSM48_CMODE_DATA_14k5 \<Rightarrow> RSL_CMOD_SPD_DATA
      | GSM48_CMODE_DATA_12k0 \<Rightarrow> RSL_CMOD_SPD_DATA
      | GSM48_CMODE_DATA_6k0 \<Rightarrow> RSL_CMOD_SPD_DATA
      | GSM48_CMODE_DATA_3k6 \<Rightarrow> RSL_CMOD_SPD_DATA
      | GSM48_CMODE_other _ \<Rightarrow> old)"

section \<open>Measurement reports\<close>

abbreviation (input) MEAS_REP_F_UL_DTX :: u32 where "MEAS_REP_F_UL_DTX \<equiv> 0x01"
abbreviation (input) MEAS_REP_F_DL_VALID :: u32 where "MEAS_REP_F_DL_VALID \<equiv> 0x02"
abbreviation (input) MEAS_REP_F_BA1 :: u32 where "MEAS_REP_F_BA1 \<equiv> 0x04"

text \<open>
  One neighbour: the code of \<^verbatim>\<open>gsm48_parse_meas_rep\<close> for the cell with the given index. \<open>nth_bit\<close> is
  \<^verbatim>\<open>bitvec_get_nth_set_bit\<close> on the neighbour list of the station.
\<close>

definition meas_rep_rxlev :: "u8 list \<Rightarrow> nat \<Rightarrow> u8" where
  "meas_rep_rxlev d i =
     (if i = 0 then d ! 3 AND 0x3f
      else if i = 1 then push_bit 1 (d ! 5 AND 0x1f) OR drop_bit 7 (d ! 6)
      else if i = 2 then push_bit 2 (d ! 7 AND 0x0f) OR drop_bit 6 (d ! 8)
      else if i = 3 then push_bit 3 (d ! 9 AND 0x07) OR drop_bit 5 (d ! 10)
      else if i = 4 then push_bit 4 (d ! 11 AND 0x03) OR drop_bit 4 (d ! 12)
      else push_bit 5 (d ! 13 AND 0x01) OR drop_bit 3 (d ! 14))"

definition meas_rep_neigh_idx :: "u8 list \<Rightarrow> nat \<Rightarrow> u8" where
  "meas_rep_neigh_idx d i =
     (if i = 0 then drop_bit 3 (d ! 4)
      else if i = 1 then drop_bit 2 (d ! 6) AND 0x1f
      else if i = 2 then drop_bit 1 (d ! 8) AND 0x1f
      else if i = 3 then d ! 10 AND 0x1f
      else if i = 4 then push_bit 1 (d ! 12 AND 0xf) OR drop_bit 7 (d ! 13)
      else push_bit 2 (d ! 14 AND 0x07) OR drop_bit 6 (d ! 15))"

definition meas_rep_bsic :: "u8 list \<Rightarrow> nat \<Rightarrow> u8" where
  "meas_rep_bsic d i =
     (if i = 0 then push_bit 3 (d ! 4 AND 0x07) OR drop_bit 5 (d ! 5)
      else if i = 1 then push_bit 4 (d ! 6 AND 0x03) OR drop_bit 4 (d ! 7)
      else if i = 2 then push_bit 5 (d ! 8 AND 0x01) OR drop_bit 3 (d ! 9)
      else if i = 3 then drop_bit 2 (d ! 11)
      else if i = 4 then drop_bit 1 (d ! 13) AND 0x3f
      else d ! 15 AND 0x3f)"

definition parse_meas_cell :: "(nat \<Rightarrow> u16) \<Rightarrow> u8 list \<Rightarrow> nat \<Rightarrow> gsm_meas_rep_cell \<Rightarrow> gsm_meas_rep_cell" where
  "parse_meas_cell nth_bit d i mrc =
     mrc\<lparr>mrc_rxlev := meas_rep_rxlev d i, mrc_neigh_idx := meas_rep_neigh_idx d i,
         mrc_arfcn := nth_bit (unat (meas_rep_neigh_idx d i) + 1), mrc_bsic := meas_rep_bsic d i\<rparr>"

text \<open>
  The cells are filled in order and the function returns after \<^verbatim>\<open>num_cell\<close> of them. \<open>is_meas_rep\<close> is
  whether the message type is \<^verbatim>\<open>GSM48_MT_RR_MEAS_REP\<close>.
\<close>

fun parse_meas_cells :: "(nat \<Rightarrow> u16) \<Rightarrow> u8 list \<Rightarrow> nat \<Rightarrow> nat \<Rightarrow> gsm_meas_rep_cell list \<Rightarrow> gsm_meas_rep_cell list" where
  "parse_meas_cells nth_bit d i 0 cells = cells"
| "parse_meas_cells nth_bit d i (Suc n) cells =
     parse_meas_cells nth_bit d (Suc i) n (upd_nth i (parse_meas_cell nth_bit d i) cells)"

definition gsm48_parse_meas_rep ::
    "(nat \<Rightarrow> u16) \<Rightarrow> bool \<Rightarrow> u8 list \<Rightarrow> gsm_meas_rep \<Rightarrow> gsm_meas_rep \<times> int" where
  "gsm48_parse_meas_rep nth_bit is_meas_rep d rep =
     (if \<not> is_meas_rep then (rep, - EINVAL)
      else
        (let f1 = (if d ! 0 AND 0x80 \<noteq> 0 then mr_flags rep OR MEAS_REP_F_BA1 else mr_flags rep);
             f2 = (if d ! 0 AND 0x40 \<noteq> 0 then f1 OR MEAS_REP_F_UL_DTX else f1);
             f3 = (if d ! 1 AND 0x40 = 0 then f2 OR MEAS_REP_F_DL_VALID else f2);
             dl = \<lparr>mru_full = \<lparr>rx_lev = d ! 0 AND 0x3f, rx_qual = drop_bit 4 (d ! 3) AND 0x7\<rparr>,
                   mru_sub = \<lparr>rx_lev = d ! 1 AND 0x3f, rx_qual = drop_bit 1 (d ! 3) AND 0x7\<rparr>\<rparr>;
             n = uint ((drop_bit 6 (d ! 3) AND 0x3) OR push_bit 2 (d ! 2 AND 0x01));
             rep1 = rep\<lparr>mr_flags := f3, mr_dl := dl, mr_num_cell := n\<rparr>
         in if n < 1 \<or> n > 6 then (rep1, 0)
            else (rep1\<lparr>mr_cell := parse_meas_cells nth_bit d 0 (nat n) (mr_cell rep1)\<rparr>, 0)))"

subsection \<open>A reference reader of the bit stream\<close>

text \<open>
  Bit \<open>k\<close> of an octet string counted from the most significant bit of the first octet, and a field
  of \<open>len\<close> bits that starts there. A neighbour report takes 17 bits: 6 bits of level, 5 bits of
  frequency index, 6 bits of BSIC; the first starts at bit 26.
\<close>

definition bit_at :: "u8 list \<Rightarrow> nat \<Rightarrow> bool" where
  "bit_at d k = bit (d ! (k div 8)) (7 - k mod 8)"

primrec bits_at :: "u8 list \<Rightarrow> nat \<Rightarrow> nat \<Rightarrow> u8" where
  "bits_at d off 0 = 0"
| "bits_at d off (Suc n) = push_bit 1 (bits_at d off n) OR (if bit_at d (off + n) then 1 else 0)"

definition cell_field :: "u8 list \<Rightarrow> nat \<Rightarrow> nat \<Rightarrow> nat \<Rightarrow> u8" where
  "cell_field d i off len = bits_at d (26 + 17 * i + off) len"

lemma bit_bits_at:
  "len \<le> 8 \<Longrightarrow> bit (bits_at d off len) n \<longleftrightarrow> n < len \<and> bit_at d (off + (len - 1 - n))"
proof (induction len arbitrary: n)
  case 0
  then show ?case by simp
next
  case (Suc len)
  show ?case
  proof (cases n)
    case 0
    then show ?thesis by (simp add: bit_simps del: push_bit_Suc)
  next
    case (Suc m)
    then show ?thesis
      using Suc.prems Suc.IH [of m] by (auto simp: bit_simps simp del: push_bit_Suc)
  qed
qed

lemmas field_simps8 = cell_field_def bit_bits_at bit_at_def bit_simps

lemma meas_rep_rxlev_eq: "i < 6 \<Longrightarrow> meas_rep_rxlev d i = cell_field d i 0 6"
  by (erule less6_cases; rule u8_eqI; erule less8_cases;
      (simp add: meas_rep_rxlev_def field_simps8 del: push_bit_Suc drop_bit_Suc One_nat_def)?; simp?)

lemma meas_rep_neigh_idx_eq: "i < 6 \<Longrightarrow> meas_rep_neigh_idx d i = cell_field d i 6 5"
  by (erule less6_cases; rule u8_eqI; erule less8_cases;
      (simp add: meas_rep_neigh_idx_def field_simps8 del: push_bit_Suc drop_bit_Suc One_nat_def)?; simp?)

lemma meas_rep_bsic_eq: "i < 6 \<Longrightarrow> meas_rep_bsic d i = cell_field d i 11 6"
  by (erule less6_cases; rule u8_eqI; erule less8_cases;
      (simp add: meas_rep_bsic_def field_simps8 del: push_bit_Suc drop_bit_Suc One_nat_def)?; simp?)

lemma length_parse_meas_cells [simp]: "length (parse_meas_cells nb d i n cells) = length cells"
  by (induction n arbitrary: i cells) auto

lemma nth_parse_meas_cells:
  "k < length cells \<Longrightarrow>
   parse_meas_cells nb d i n cells ! k =
     (if i \<le> k \<and> k < i + n then parse_meas_cell nb d k (cells ! k) else cells ! k)"
  by (induction n arbitrary: i cells) (auto simp: nth_upd_nth)

text \<open>A network for concrete runs: the default channel type table, T3101 of 10 s, T3111 of 2 s.\<close>

definition sample_net :: gsm_network where
  "sample_net = \<lparr>net_neci = 1, net_pag_any_tch = 0, net_dtx_enabled = False,
     net_ctype_by_chreq = ctype_by_chreq, net_T3101 = 10, net_T3111 = 2, net_T3122 = 10\<rparr>"

lemma reason_loc_upd: "reason_by_chreq ty = GSM_CHREQ_REASON_LOCATION_UPD \<longleftrightarrow> ty = CHREQ_T_LOCATION_UPD"
  by (cases ty) simp_all

lemma reason_emerg: "reason_by_chreq ty = GSM_CHREQ_REASON_EMERG \<longleftrightarrow> ty = CHREQ_T_EMERG_CALL"
  by (cases ty) simp_all

section \<open>Properties\<close>

text \<open>C28: The fields of every neighbour cell of a measurement report, which the code picks from the octets with six sets of shifts and masks, are the fields of a stream of 17-bit records (6 bits level, 5 bits frequency index, 6 bits BSIC) that starts at bit 26; the frequency is looked up with that index.\<close>

theorem parse_meas_rep_cells:
  assumes "gsm48_parse_meas_rep nth_bit True d rep = (rep', rc)" and "length (mr_cell rep) = 6"
    and "1 \<le> mr_num_cell rep'" "mr_num_cell rep' \<le> 6" and "i < nat (mr_num_cell rep')"
  shows "rc = 0 \<and> mrc_rxlev (mr_cell rep' ! i) = bits_at d (26 + 17 * i) 6 \<and>
     mrc_neigh_idx (mr_cell rep' ! i) = bits_at d (26 + 17 * i + 6) 5 \<and>
     mrc_bsic (mr_cell rep' ! i) = bits_at d (26 + 17 * i + 11) 6 \<and>
     mrc_arfcn (mr_cell rep' ! i) = nth_bit (unat (bits_at d (26 + 17 * i + 6) 5) + 1)"
proof -
  have i: "i < 6" using assms(4,5) by linarith
  from assms(1,3,4) have r: "rc = 0"
    "mr_cell rep' = parse_meas_cells nth_bit d 0 (nat (mr_num_cell rep')) (mr_cell rep)"
    by (auto simp: gsm48_parse_meas_rep_def Let_def split: if_splits)
  have "mr_cell rep' ! i = parse_meas_cell nth_bit d i (mr_cell rep ! i)"
    using assms(2,5) i by (simp add: r(2) nth_parse_meas_cells)
  then show ?thesis
    using meas_rep_rxlev_eq [OF i, of d] meas_rep_neigh_idx_eq [OF i, of d] meas_rep_bsic_eq [OF i, of d]
    by (simp add: r(1) parse_meas_cell_def cell_field_def)
qed

theorem parse_meas_rep_cells_witness:
  "mrc_rxlev (mr_cell (fst (gsm48_parse_meas_rep (\<lambda>_. 0) True ([0x20, 0x10, 0x00, 0x6a] @ replicate 12 0) zero_meas_rep)) ! 0) = 0x2a"
proof -
  let ?d = "[0x20, 0x10, 0x00, 0x6a] @ replicate 12 (0::u8)"
  let ?r = "gsm48_parse_meas_rep (\<lambda>_. 0) True ?d zero_meas_rep"
  have n: "mr_num_cell (fst ?r) = 1" by code_simp
  have b: "bits_at ?d 26 6 = 0x2a" by code_simp
  show ?thesis
    using parse_meas_rep_cells [of "\<lambda>_. 0" ?d zero_meas_rep "fst ?r" "snd ?r" 0] n b
    by (simp add: zero_meas_rep_def)
qed

text \<open>A location update is given a signalling channel and an emergency call a traffic channel (half rate when NECI is set), for every random access octet; only the reserved values are given no channel kind.\<close>

theorem chreq_channel_kinds:
  "(get_reason_by_chreq ra (net_neci net) = GSM_CHREQ_REASON_LOCATION_UPD \<longrightarrow>
            get_ctype_by_chreq (gsm_net_update_ctype net) ra = GSM_LCHAN_SDCCH)
       \<and> (get_reason_by_chreq ra (net_neci net) = GSM_CHREQ_REASON_EMERG \<longrightarrow>
            get_ctype_by_chreq (gsm_net_update_ctype net) ra = (if net_neci net \<noteq> 0 then GSM_LCHAN_TCH_H else GSM_LCHAN_TCH_F))
       \<and> (get_ctype_by_chreq (gsm_net_update_ctype net) ra \<in> {GSM_LCHAN_SDCCH, GSM_LCHAN_TCH_F, GSM_LCHAN_TCH_H} \<longleftrightarrow>
            chreq_match (chreq_table (net_neci net)) ra \<noteq> Some CHREQ_T_RESERVED_IGNORE)"
proof (cases "chreq_match (chreq_table (net_neci net)) ra")
  case (Some ty)
  have "net_ctype_by_chreq (gsm_net_update_ctype net) ty \<in> {GSM_LCHAN_SDCCH, GSM_LCHAN_TCH_F, GSM_LCHAN_TCH_H} \<longleftrightarrow>
          ty \<noteq> CHREQ_T_RESERVED_IGNORE"
    by (cases ty) (simp_all add: gsm_net_update_ctype_def Let_def)
  moreover have "net_neci (gsm_net_update_ctype net) = net_neci net" by (simp add: gsm_net_update_ctype_def Let_def)
  moreover have "net_ctype_by_chreq (gsm_net_update_ctype net) CHREQ_T_LOCATION_UPD = GSM_LCHAN_SDCCH"
    "net_ctype_by_chreq (gsm_net_update_ctype net) CHREQ_T_EMERG_CALL = (if net_neci net \<noteq> 0 then GSM_LCHAN_TCH_H else GSM_LCHAN_TCH_F)"
    by (simp_all add: gsm_net_update_ctype_def Let_def)
  ultimately show ?thesis
    using Some by (simp add: get_reason_by_chreq_def get_ctype_by_chreq_def reason_loc_upd reason_emerg)
qed (simp add: get_reason_by_chreq_def get_ctype_by_chreq_def gsm_net_update_ctype_def Let_def)

theorem chreq_channel_kinds_witness:
  "get_ctype_by_chreq (gsm_net_update_ctype sample_net) 0x05 = GSM_LCHAN_SDCCH"
proof -
  have "get_reason_by_chreq 0x05 (net_neci sample_net) = GSM_CHREQ_REASON_LOCATION_UPD" by code_simp
  then show ?thesis using chreq_channel_kinds [where ra = "0x05" and net = sample_net] by simp
qed

end
