(* ===== verification/Abis_Rsl.thy ===== *)
theory Abis_Rsl
  imports Chan_Alloc Gsm_04_08_Utils
begin

unbundle bit_operations_syntax

text \<open>
  The radio signalling link (\<^verbatim>\<open>src/libbsc/abis_rsl.c\<close>): channel numbers back to channels, the life
  cycle of a logical channel (request, activation, release, the error timers) as functions that the
  received messages and the timer callbacks apply, and the messages built on the way. The
  libraries below (\<^verbatim>\<open>abis_rsl_sendmsg\<close>, \<^verbatim>\<open>ms_pwr_ctl_lvl\<close>, \<^verbatim>\<open>ms_pwr_dbm\<close>, the TLV parser) are
  parameters: the record \<open>rsl_env\<close> and, for received messages, the elements the parser found.
\<close>

section \<open>Parameters\<close>

record rsl_env =
  env_net :: gsm_network
  env_handler :: sig_handler
  env_send_rc :: int
  env_ms_pwr_ctl_lvl :: "int \<Rightarrow> int"
  env_ms_pwr_dbm :: "u8 \<Rightarrow> int"
  env_nth_set_bit :: "nat \<Rightarrow> u16"

section \<open>Message discriminators and channel numbers\<close>

datatype rsl_mdisc =
    ABIS_RSL_MDISC_RLL | ABIS_RSL_MDISC_DED_CHAN | ABIS_RSL_MDISC_COM_CHAN | ABIS_RSL_MDISC_TRX
  | ABIS_RSL_MDISC_LOC | ABIS_RSL_MDISC_IPACCESS

definition mdisc_by_msgtype :: "u8 \<Rightarrow> rsl_mdisc" where
  "mdisc_by_msgtype msg_type =
     (let m = msg_type AND 0xfe
      in if m AND 0xf0 = 0x00 then ABIS_RSL_MDISC_RLL
         else if m AND 0xf0 = 0x10 then
           (if 0x19 \<le> m \<and> m \<le> 0x22 then ABIS_RSL_MDISC_TRX else ABIS_RSL_MDISC_COM_CHAN)
         else if m AND 0xe0 = 0x20 then ABIS_RSL_MDISC_DED_CHAN
         else ABIS_RSL_MDISC_LOC)"

text \<open>
  The channel a channel number denotes on a transceiver: timeslot and sub-slot. A configuration of
  the timeslot that does not match is only logged; \<open>None\<close> is the \<^verbatim>\<open>NULL\<close> for unknown numbers.
\<close>

definition lchan_lookup :: "u8 \<Rightarrow> (nat \<times> nat) option" where
  "lchan_lookup chan_nr =
     (let ts_nr = unat (chan_nr AND 0x07);
          cbits = drop_bit 3 chan_nr
      in if cbits = 0x01 then Some (ts_nr, 0)
         else if cbits AND 0x1e = 0x02 then Some (ts_nr, unat (cbits AND 0x1))
         else if cbits AND 0x1c = 0x04 then Some (ts_nr, unat (cbits AND 0x3))
         else if cbits AND 0x18 = 0x08 then Some (ts_nr, unat (cbits AND 0x7))
         else if cbits = 0x10 \<or> cbits = 0x11 \<or> cbits = 0x12 then Some (ts_nr, 0)
         else None)"

section \<open>Octet strings\<close>

abbreviation (input) MACBLOCK_SIZE :: nat where "MACBLOCK_SIZE \<equiv> 23"

definition pad_macblock :: "u8 list \<Rightarrow> u8 list" where
  "pad_macblock inp =
     (if length inp < MACBLOCK_SIZE then inp @ replicate (MACBLOCK_SIZE - length inp) 0x2b else inp)"

definition build_encr_info :: "gsm_lchan \<Rightarrow> u8 list" where
  "build_encr_info lc = (lc_encr_alg_id lc AND 0xff) # take (unat (lc_encr_key_len lc)) (lc_encr_key lc)"

text \<open>
  \<^verbatim>\<open>imsi_str2bcd\<close>: digits to packed BCD, low nibble first; \<open>None\<close> where it returns -1.
  \<open>bcd_loop i out str\<close> is the loop at index \<open>i\<close>.
\<close>

fun bcd_loop :: "nat \<Rightarrow> u8 list \<Rightarrow> nat list \<Rightarrow> u8 list option" where
  "bcd_loop i out [] = Some out"
| "bcd_loop i out (c # cs) =
     (if c < 0x30 \<or> 0x39 < c then None
      else if i mod 2 = 0 then bcd_loop (Suc i) (out @ [of_nat (c - 0x30)]) cs
      else bcd_loop (Suc i) (upd_nth (i div 2) (\<lambda>b. b OR push_bit 4 (of_nat (c - 0x30))) out) cs)"

definition imsi_str2bcd :: "nat list \<Rightarrow> u8 list option" where
  "imsi_str2bcd str = bcd_loop 0 [] str"

section \<open>Power control and channel mode\<close>

definition rsl_chan_bs_power_ctrl :: "rsl_env \<Rightarrow> gsm_lchan \<Rightarrow> bool \<Rightarrow> int \<Rightarrow> gsm_lchan \<times> bsc_event list \<times> int" where
  "rsl_chan_bs_power_ctrl env lc fpc db =
     (let db' = \<bar>db\<bar>
      in if db' > 30 then (lc, [], - EINVAL)
         else
           (let pw = (of_int (c_div db' 2) :: u8);
                pw' = (if fpc then pw OR 0x10 else pw)
            in (lc\<lparr>lc_bs_power := pw'\<rparr>, [Ev_rsl_bs_power pw'], env_send_rc env)))"

definition rsl_chan_ms_power_ctrl :: "rsl_env \<Rightarrow> gsm_lchan \<Rightarrow> bool \<Rightarrow> int \<Rightarrow> gsm_lchan \<times> bsc_event list \<times> int" where
  "rsl_chan_ms_power_ctrl env lc fpc dbm =
     (let ctl_lvl = env_ms_pwr_ctl_lvl env dbm
      in if ctl_lvl < 0 then (lc, [], ctl_lvl)
         else
           (let pw = (of_int ctl_lvl :: u8);
                pw' = (if fpc then pw OR 0x20 else pw)
            in (lc\<lparr>lc_ms_power := pw'\<rparr>, [Ev_rsl_ms_power pw'], env_send_rc env)))"

definition channel_mode_from_lchan :: "rsl_env \<Rightarrow> gsm_lchan \<Rightarrow> int + rsl_ie_chan_mode" where
  "channel_mode_from_lchan env lc =
     (let dtx = (if net_dtx_enabled (env_net env) then 0x03 else 0x00);
          rt = (case lc_type lc of
                  GSM_LCHAN_SDCCH \<Rightarrow> Some RSL_CMOD_CRT_SDCCH
                | GSM_LCHAN_TCH_F \<Rightarrow> Some RSL_CMOD_CRT_TCH_Bm
                | GSM_LCHAN_TCH_H \<Rightarrow> Some RSL_CMOD_CRT_TCH_Lm
                | _ \<Rightarrow> None);
          rate = (case lc_tch_mode lc of
                    GSM48_CMODE_SIGN \<Rightarrow> Some Rate_signalling
                  | GSM48_CMODE_SPEECH_V1 \<Rightarrow> Some RSL_CMOD_SP_GSM1
                  | GSM48_CMODE_SPEECH_EFR \<Rightarrow> Some RSL_CMOD_SP_GSM2
                  | GSM48_CMODE_SPEECH_AMR \<Rightarrow> Some RSL_CMOD_SP_GSM3
                  | GSM48_CMODE_DATA_14k5 \<Rightarrow> Some RSL_CMOD_SP_NT_14k5
                  | GSM48_CMODE_DATA_12k0 \<Rightarrow> Some RSL_CMOD_SP_NT_12k0
                  | GSM48_CMODE_DATA_6k0 \<Rightarrow> Some RSL_CMOD_SP_NT_6k0
                  | _ \<Rightarrow> None)
      in case (rt, rate) of
           (Some crt, Some crate) \<Rightarrow>
             Inr \<lparr>cm_dtx_dtu = dtx, cm_spd_ind = lc_rsl_cmode lc, cm_chan_rt = crt, cm_chan_rate = crate\<rparr>
         | _ \<Rightarrow> Inl (- EINVAL))"

datatype rsl_act_type = RSL_ACT_INTRA_IMM_ASS | RSL_ACT_INTRA_NORM_ASS | RSL_ACT_INTER_ASYNC | RSL_ACT_INTER_SYNC

definition act_type_octet :: "rsl_act_type \<Rightarrow> u8" where
  "act_type_octet a =
     (case a of RSL_ACT_INTRA_IMM_ASS \<Rightarrow> 0 | RSL_ACT_INTRA_NORM_ASS \<Rightarrow> 1
      | RSL_ACT_INTER_ASYNC \<Rightarrow> 2 | RSL_ACT_INTER_SYNC \<Rightarrow> 3)"

text \<open>
  CHANNEL ACTIVATION: the elements in the order they are put. The length octet of the channel
  identification covers the channel description (tag and three octets) and the mobile allocation
  (tag, length, value).
\<close>

definition rsl_chan_activate_lchan ::
    "rsl_env \<Rightarrow> gsm_bts \<Rightarrow> lchan_ptr \<Rightarrow> rsl_act_type \<Rightarrow> u8 \<Rightarrow> u8 \<Rightarrow> int + rsl_ie list" where
  "rsl_chan_activate_lchan env bts p act_type ta ho_ref =
     (let lc = the_lchan bts p;
          ts = the_ts bts (fst p, fst (snd p))
      in case channel_mode_from_lchan env lc of
           Inl rc \<Rightarrow> Inl rc
         | Inr cm \<Rightarrow>
             (let cd = gsm48_lchan2chan_desc bts p;
                  ma = (if ts_hopping_enabled ts \<noteq> 0
                        then take (unat (ts_hopping_ma_len ts)) (ts_hopping_ma_data ts) else [])
              in Inr ([IE_ACT_TYPE (act_type_octet act_type), IE_CHAN_MODE cm,
                       IE_CHAN_IDENT (of_nat (1 + length cd + 2 + length ma)) cd ma] @
                      (if lc_encr_alg_id lc > 1 then [IE_ENCR_INFO (build_encr_info lc)] else []) @
                      (case act_type of
                         RSL_ACT_INTER_ASYNC \<Rightarrow> [IE_HANDO_REF ho_ref]
                       | RSL_ACT_INTER_SYNC \<Rightarrow> [IE_HANDO_REF ho_ref]
                       | _ \<Rightarrow> []) @
                      [IE_BS_POWER (lc_bs_power lc), IE_MS_POWER (lc_ms_power lc), IE_TIMING_ADVANCE ta] @
                      (if lc_tch_mode lc = GSM48_CMODE_SPEECH_AMR then [IE_MR_CONFIG (lc_mr_conf lc)] else []))))"

definition rsl_chan_mode_modify_req :: "rsl_env \<Rightarrow> gsm_lchan \<Rightarrow> int + rsl_ie list" where
  "rsl_chan_mode_modify_req env lc =
     (case channel_mode_from_lchan env lc of
        Inl rc \<Rightarrow> Inl rc
      | Inr cm \<Rightarrow>
          Inr ([IE_CHAN_MODE cm] @
               (if lc_encr_alg_id lc > 1 then [IE_ENCR_INFO (build_encr_info lc)] else []) @
               (if lc_tch_mode lc = GSM48_CMODE_SPEECH_AMR then [IE_MR_CONFIG (lc_mr_conf lc)] else [])))"

section \<open>Release of the radio channel\<close>

text \<open>Operations on one channel return the channel, the emitted events and the return code.\<close>

type_synonym lchan_res = "gsm_lchan \<times> bsc_event list \<times> int"

definition rsl_rf_chan_release :: "rsl_env \<Rightarrow> gsm_lchan \<Rightarrow> bool \<Rightarrow> lchan_res" where
  "rsl_rf_chan_release env lc error =
     (if lc_state lc = LCHAN_S_REL_ERR then (lc, [], -1)
      else
        (let lc1 = (if error
                    then (rsl_lchan_set_state LCHAN_S_REL_ERR lc)
                           \<lparr>lc_error_timer := Some (Error_timeout_cb, net_T3111 (env_net env) + 2)\<rparr>
                    else lc);
             lc2 = lc1\<lparr>lc_act_timer := Some (Lchan_deact_tmr_cb, 4)\<rparr>
         in (lc2, [Ev_rsl_rf_chan_rel], env_send_rc env)))"

definition rsl_rx_rf_chan_rel_ack :: "rsl_env \<Rightarrow> gsm_lchan \<Rightarrow> lchan_res" where
  "rsl_rx_rf_chan_rel_ack env lc =
     (let lc1 = lc\<lparr>lc_act_timer := None, lc_T3111 := None\<rparr>;
          lc2 = (if lc_state lc1 \<noteq> LCHAN_S_REL_ERR then rsl_lchan_set_state LCHAN_S_NONE lc1 else lc1);
          (lc3, ev) = lchan_free (env_handler env) lc2
      in (lc3, ev, 0))"

definition rsl_handle_release :: "rsl_env \<Rightarrow> gsm_lchan \<Rightarrow> gsm_lchan" where
  "rsl_handle_release env lc =
     (if lc_state lc \<noteq> LCHAN_S_REL_REQ then lc
      else if \<exists>x \<in> set (lc_sapis lc). x \<noteq> LCHAN_SAPI_UNUSED then lc
      else lc\<lparr>lc_T3111 := Some (T3111_expired, net_T3111 (env_net env))\<rparr>)"

text \<open>The callback of a timer; the timer that fires is no longer pending.\<close>

fun timer_fires :: "rsl_env \<Rightarrow> timer_cb \<Rightarrow> gsm_lchan \<Rightarrow> lchan_res" where
  "timer_fires env Lchan_act_tmr_cb lc =
     (case lchan_free (env_handler env) (rsl_lchan_set_state LCHAN_S_NONE (lc\<lparr>lc_act_timer := None\<rparr>)) of
        (lc', ev) \<Rightarrow> (lc', ev, 0))"
| "timer_fires env Lchan_deact_tmr_cb lc =
     (case lchan_free (env_handler env) (rsl_lchan_set_state LCHAN_S_NONE (lc\<lparr>lc_act_timer := None\<rparr>)) of
        (lc', ev) \<Rightarrow> (lc', ev, 0))"
| "timer_fires env Error_timeout_cb lc =
     (let lc' = lc\<lparr>lc_error_timer := None\<rparr>
      in if lc_state lc' \<noteq> LCHAN_S_REL_ERR then (lc', [], 0)
         else (rsl_lchan_set_state LCHAN_S_NONE lc', [], 0))"
| "timer_fires env T3101_expired lc = rsl_rf_chan_release env (lc\<lparr>lc_T3101 := None\<rparr>) True"
| "timer_fires env T3111_expired lc = rsl_rf_chan_release env (lc\<lparr>lc_T3111 := None\<rparr>) False"

section \<open>Immediate assignment\<close>

text \<open>
  The octets of the immediate assignment: L2 pseudo length, RR protocol discriminator, message
  type, page mode, channel description, request reference, timing advance, mobile allocation.
\<close>

definition GSM48_LEN2PLEN :: "nat \<Rightarrow> u8" where
  "GSM48_LEN2PLEN a = push_bit 2 (of_nat a) OR 1"

definition imm_ass_octets :: "gsm_bts \<Rightarrow> lchan_ptr \<Rightarrow> gsm48_req_ref \<Rightarrow> u8 \<Rightarrow> u8 list" where
  "imm_ass_octets bts p rr ta =
     (let ts = the_ts bts (fst p, fst (snd p));
          ma = (if ts_hopping_enabled ts = 0 then []
                else take (unat (ts_hopping_ma_len ts)) (ts_hopping_ma_data ts))
      in [GSM48_LEN2PLEN ((12 - 1) + length ma), 0x06, 0x3f, 0x00] @ gsm48_lchan2chan_desc bts p @
         [rr_ra rr, rr_t1 rr, rr_t2 rr, ta, of_nat (length ma)] @ ma)"

definition rsl_imm_assign_cmd :: "gsm_bts \<Rightarrow> u8 list \<Rightarrow> bsc_event" where
  "rsl_imm_assign_cmd bts val =
     (case bts_type bts of
        GSM_BTS_TYPE_BS11 \<Rightarrow> Ev_rsl_imm_assign val
      | _ \<Rightarrow> Ev_rsl_full_imm_assign (take MACBLOCK_SIZE (pad_macblock val)))"

text \<open>
  The reject message holds four references and wait indications after its header. The code passes
  \<^verbatim>\<open>sizeof(iar)\<close>, the size of the pointer (\<open>ptr_size\<close>), as its length.
\<close>

definition imm_ass_rej_octets :: "gsm48_req_ref list \<Rightarrow> u8 \<Rightarrow> u8 list" where
  "imm_ass_rej_octets refs wait_ind =
     (let ref = (\<lambda>i. if i < length refs then refs ! i else refs ! 0);
          octets = (\<lambda>r. [rr_ra r, rr_t1 r, rr_t2 r, wait_ind])
      in [0x00, 0x06, 0x3f, 0x00] @ octets (ref 0) @ octets (ref 1) @ octets (ref 2) @ octets (ref 3))"

definition rsl_send_imm_ass_rej :: "nat \<Rightarrow> gsm_bts \<Rightarrow> gsm48_req_ref list \<Rightarrow> u8 \<Rightarrow> bsc_event" where
  "rsl_send_imm_ass_rej ptr_size bts refs wait_ind =
     rsl_imm_assign_cmd bts (take ptr_size (imm_ass_rej_octets refs wait_ind))"

definition rsl_send_imm_assignment :: "rsl_env \<Rightarrow> gsm_bts \<Rightarrow> lchan_ptr \<Rightarrow> gsm48_req_ref \<Rightarrow> gsm_lchan \<Rightarrow> gsm_lchan \<times> bsc_event list" where
  "rsl_send_imm_assignment env bts p rr lc =
     (lc\<lparr>lc_T3101 := Some (T3101_expired, net_T3101 (env_net env))\<rparr>,
      [rsl_imm_assign_cmd bts (imm_ass_octets bts p rr (lc_rqd_ta lc))])"

section \<open>Dedicated channel messages\<close>

text \<open>\<open>ie_ok\<close>: the first element is the channel number.\<close>

definition rsl_rx_chan_act_ack :: "rsl_env \<Rightarrow> gsm_bts \<Rightarrow> lchan_ptr \<Rightarrow> bool \<Rightarrow> gsm_lchan \<Rightarrow> lchan_res" where
  "rsl_rx_chan_act_ack env bts p ie_ok lc =
     (if \<not> ie_ok then (lc, [], - EINVAL)
      else
        (let lc1 = rsl_lchan_set_state LCHAN_S_ACTIVE (lc\<lparr>lc_act_timer := None\<rparr>);
             (lc2, ev) = (case lc_rqd_ref lc1 of
                            None \<Rightarrow> (lc1, [])
                          | Some rr \<Rightarrow>
                              (case rsl_send_imm_assignment env bts p rr lc1 of
                                 (l, e) \<Rightarrow> (l\<lparr>lc_rqd_ref := None, lc_rqd_ta := 0\<rparr>, e)))
         in (env_handler env S_LCHAN_ACTIVATE_ACK lc2, ev @ [Ev_signal S_LCHAN_ACTIVATE_ACK], 0)))"

datatype rsl_cause = RSL_ERR_RCH_ALR_ACTV_ALLOC | RSL_ERR_other u8

definition rsl_rx_chan_act_nack :: "rsl_env \<Rightarrow> bool \<Rightarrow> rsl_cause option \<Rightarrow> gsm_lchan \<Rightarrow> lchan_res" where
  "rsl_rx_chan_act_nack env ie_ok cause lc =
     (let lc1 = lc\<lparr>lc_act_timer := None\<rparr>
      in if \<not> ie_ok then (lc1, [], - EINVAL)
         else
           (let (lc2, ev) = (case cause of
                    Some RSL_ERR_RCH_ALR_ACTV_ALLOC \<Rightarrow>
                      (case rsl_rf_chan_release env lc1 True of (l, e, _) \<Rightarrow> (l, e))
                  | _ \<Rightarrow> (rsl_lchan_set_state LCHAN_S_NONE lc1, []));
                lc3 = env_handler env S_LCHAN_ACTIVATE_NACK lc2;
                (lc4, ev') = lchan_free (env_handler env) lc3
            in (lc4, ev @ [Ev_signal S_LCHAN_ACTIVATE_NACK] @ ev', 0)))"

definition rsl_rx_conn_fail :: "rsl_env \<Rightarrow> gsm_lchan \<Rightarrow> lchan_res" where
  "rsl_rx_conn_fail env lc = rsl_rf_chan_release env lc True"

text \<open>The elements of a MEASUREMENT RESULT that the TLV parser found.\<close>

record meas_res_ies =
  ie_meas_res_nr :: "u8 option"
  ie_uplink_meas :: "u8 list option"
  ie_bs_power :: "u8 option"
  ie_ms_timing_offset :: "u8 option"
  ie_l1_info :: "u8 list option"
  ie_l3_info :: "(bool \<times> u8 list) option"

abbreviation (input) MEAS_REP_F_DL_DTX :: u32 where "MEAS_REP_F_DL_DTX \<equiv> 0x08"
abbreviation (input) MEAS_REP_F_MS_L1 :: u32 where "MEAS_REP_F_MS_L1 \<equiv> 0x20"
abbreviation (input) MEAS_REP_F_FPC :: u32 where "MEAS_REP_F_FPC \<equiv> 0x40"

definition fill_meas_rep :: "rsl_env \<Rightarrow> meas_res_ies \<Rightarrow> u8 \<Rightarrow> u8 list \<Rightarrow> u8 \<Rightarrow> gsm_meas_rep" where
  "fill_meas_rep env ies nr ul bsp =
     (let m0 = zero_meas_rep\<lparr>mr_nr := nr\<rparr>;
          m1 = (if 3 \<le> length ul
                then m0\<lparr>mr_flags := (if ul ! 0 AND 0x40 \<noteq> 0 then mr_flags m0 OR MEAS_REP_F_DL_DTX else mr_flags m0),
                        mr_ul := \<lparr>mru_full = \<lparr>rx_lev = ul ! 0 AND 0x3f, rx_qual = drop_bit 3 (ul ! 2) AND 0x7\<rparr>,
                                  mru_sub = \<lparr>rx_lev = ul ! 1 AND 0x3f, rx_qual = ul ! 2 AND 0x7\<rparr>\<rparr>\<rparr>
                else m0);
          m2 = m1\<lparr>mr_bs_power := bsp\<rparr>;
          m3 = (case ie_ms_timing_offset ies of None \<Rightarrow> m2 | Some v \<Rightarrow> m2\<lparr>mr_ms_timing_offset := v\<rparr>)
      in case ie_l1_info ies of
           None \<Rightarrow> m3
         | Some v \<Rightarrow>
             (let f = mr_flags m3 OR MEAS_REP_F_MS_L1;
                  f' = (if v ! 0 AND 0x04 \<noteq> 0 then f OR MEAS_REP_F_FPC else f)
              in m3\<lparr>mr_flags := f', mr_ms_l1_pwr := env_ms_pwr_dbm env (drop_bit 3 (v ! 0)), mr_ms_l1_ta := v ! 1\<rparr>))"

definition rsl_rx_meas_res :: "rsl_env \<Rightarrow> meas_res_ies \<Rightarrow> gsm_lchan \<Rightarrow> lchan_res" where
  "rsl_rx_meas_res env ies lc =
     (case lchan_next_meas_rep lc of (lc1, i) \<Rightarrow>
        if lc_state lc1 \<noteq> LCHAN_S_ACTIVE then (lc1, [], 0)
        else
          (let put = (\<lambda>m. lc1\<lparr>lc_meas_rep := (lc_meas_rep lc1)[i := m]\<rparr>)
           in case (ie_meas_res_nr ies, ie_uplink_meas ies, ie_bs_power ies) of
                (Some nr, Some ul, Some bsp) \<Rightarrow>
                  (let m = fill_meas_rep env ies nr ul bsp
                   in case ie_l3_info ies of
                        None \<Rightarrow> (env_handler env S_LCHAN_MEAS_REP (put m), [Ev_signal S_LCHAN_MEAS_REP], 0)
                      | Some (is_mr, d) \<Rightarrow>
                          (case gsm48_parse_meas_rep (env_nth_set_bit env) is_mr d m of
                             (m', rc) \<Rightarrow>
                               if rc < 0 then (put m', [], rc)
                               else (env_handler env S_LCHAN_MEAS_REP (put m'), [Ev_signal S_LCHAN_MEAS_REP], 0)))
              | _ \<Rightarrow> (put zero_meas_rep, [], - EIO)))"

datatype rsl_dchan_msg =
    MT_CHAN_ACTIV_ACK bool | MT_CHAN_ACTIV_NACK bool "rsl_cause option" | MT_CONN_FAIL
  | MT_MEAS_RES meas_res_ies | MT_HANDO_DET | MT_RF_CHAN_REL_ACK
  | MT_MODE_MODIFY_ACK | MT_MODE_MODIFY_NACK
  | MT_IPAC_PDCH_ACT_ACK | MT_IPAC_PDCH_ACT_NACK | MT_IPAC_PDCH_DEACT_ACK | MT_IPAC_PDCH_DEACT_NACK
  | MT_dchan_unimplemented u8 | MT_dchan_unknown u8

text \<open>What a message does to the addressed channel.\<close>

definition dchan_on_lchan :: "rsl_env \<Rightarrow> gsm_bts \<Rightarrow> lchan_ptr \<Rightarrow> rsl_dchan_msg \<Rightarrow> gsm_lchan \<Rightarrow> lchan_res" where
  "dchan_on_lchan env bts p msg lc =
     (case msg of
        MT_CHAN_ACTIV_ACK ok \<Rightarrow> rsl_rx_chan_act_ack env bts p ok lc
      | MT_CHAN_ACTIV_NACK ok cause \<Rightarrow> rsl_rx_chan_act_nack env ok cause lc
      | MT_CONN_FAIL \<Rightarrow> rsl_rx_conn_fail env lc
      | MT_MEAS_RES ies \<Rightarrow> rsl_rx_meas_res env ies lc
      | MT_HANDO_DET \<Rightarrow> (env_handler env S_LCHAN_HANDOVER_DETECT lc, [Ev_signal S_LCHAN_HANDOVER_DETECT], 0)
      | MT_RF_CHAN_REL_ACK \<Rightarrow> rsl_rx_rf_chan_rel_ack env lc
      | MT_dchan_unknown _ \<Rightarrow> (lc, [], - EINVAL)
      | _ \<Rightarrow> (lc, [], 0))"

text \<open>What it does to the timeslot: the acknowledgement of a dynamic PDCH switch.\<close>

definition dchan_on_ts :: "rsl_dchan_msg \<Rightarrow> gsm_bts_trx_ts \<Rightarrow> gsm_bts_trx_ts" where
  "dchan_on_ts msg ts =
     (case msg of
        MT_IPAC_PDCH_ACT_ACK \<Rightarrow> ts\<lparr>ts_flags := ts_flags ts OR TS_F_PDCH_MODE\<rparr>
      | MT_IPAC_PDCH_DEACT_ACK \<Rightarrow> ts\<lparr>ts_flags := ts_flags ts AND NOT TS_F_PDCH_MODE\<rparr>
      | _ \<Rightarrow> ts)"

text \<open>
  The dispatcher for a message on transceiver \<open>t\<close>. The code uses the result of the lookup without a
  test (\<^verbatim>\<open>gsm_lchan_name(msg->lchan)\<close>): \<open>None\<close> is the access through the \<^verbatim>\<open>NULL\<close> pointer.
\<close>

definition abis_rsl_rx_dchan ::
    "rsl_env \<Rightarrow> nat \<Rightarrow> u8 \<Rightarrow> rsl_dchan_msg \<Rightarrow> gsm_bts \<Rightarrow> (gsm_bts \<times> bsc_event list \<times> int) option" where
  "abis_rsl_rx_dchan env t chan_nr msg bts =
     (case lchan_lookup chan_nr of
        None \<Rightarrow> None
      | Some (j, s) \<Rightarrow>
          (let p = (t, j, s)
           in case dchan_on_lchan env bts p msg (the_lchan bts p) of
                (lc, ev, rc) \<Rightarrow> Some (upd_ts (t, j) (dchan_on_ts msg) (upd_lchan p (\<lambda>_. lc) bts), ev, rc)))"

section \<open>Radio link layer messages\<close>

datatype rsl_rll_msg =
    MT_DATA_IND bool | MT_EST_IND bool | MT_EST_CONF | MT_REL_IND | MT_REL_CONF
  | MT_ERROR_IND bool | MT_UNIT_DATA_IND | MT_rll_unknown u8

text \<open>
  The flag of the data messages: an L3 element is present. The flag of the error indication: its cause is
  \<^verbatim>\<open>RLL_CAUSE_T200_EXPIRED\<close>. The second field of an \<open>Ev_rll_indication\<close> is 0 for a confirmed
  establishment, 1 for a release, 2 for an error.
\<close>

definition rll_on_lchan :: "rsl_env \<Rightarrow> u8 \<Rightarrow> rsl_rll_msg \<Rightarrow> gsm_lchan \<Rightarrow> lchan_res" where
  "rll_on_lchan env link_id msg lc =
     (let sapi = unat (link_id AND 0x7);
          set_sapi = (\<lambda>v. lc\<lparr>lc_sapis := (lc_sapis lc)[sapi := v]\<rparr>)
      in case msg of
           MT_DATA_IND l3 \<Rightarrow> (lc, if l3 then [Ev_l3_rcvmsg link_id] else [], 0)
         | MT_EST_IND l3 \<Rightarrow>
             ((set_sapi LCHAN_SAPI_MS)\<lparr>lc_T3101 := None\<rparr>, if l3 then [Ev_l3_rcvmsg link_id] else [], 0)
         | MT_EST_CONF \<Rightarrow> (set_sapi LCHAN_SAPI_NET, [Ev_rll_indication link_id 0], 0)
         | MT_REL_IND \<Rightarrow>
             (case rsl_lchan_rll_release (rsl_handle_release env (set_sapi LCHAN_SAPI_UNUSED)) link_id of
                (lc', ev, _) \<Rightarrow> (lc', Ev_rll_indication link_id 1 # ev, 0))
         | MT_REL_CONF \<Rightarrow>
             (case rsl_lchan_rll_release (rsl_handle_release env (set_sapi LCHAN_SAPI_UNUSED)) link_id of
                (lc', ev, _) \<Rightarrow> (lc', ev, 0))
         | MT_ERROR_IND t200 \<Rightarrow>
             (if t200
              then (case rsl_rf_chan_release env lc True of
                      (lc', ev, rc) \<Rightarrow> (lc', Ev_rll_indication link_id 2 # ev, rc))
              else (lc, [Ev_rll_indication link_id 2], 0))
         | _ \<Rightarrow> (lc, [], 0))"

definition abis_rsl_rx_rll ::
    "rsl_env \<Rightarrow> nat \<Rightarrow> u8 \<Rightarrow> u8 \<Rightarrow> rsl_rll_msg \<Rightarrow> gsm_bts \<Rightarrow> (gsm_bts \<times> bsc_event list \<times> int) option" where
  "abis_rsl_rx_rll env t chan_nr link_id msg bts =
     (case lchan_lookup chan_nr of
        None \<Rightarrow> None
      | Some (j, s) \<Rightarrow>
          (let p = (t, j, s)
           in case rll_on_lchan env link_id msg (the_lchan bts p) of
                (lc, ev, rc) \<Rightarrow> Some (upd_lchan p (\<lambda>_. lc) bts, ev, rc)))"

section \<open>Channel required\<close>

abbreviation (input) RSL_IE_ACCESS_DELAY :: u8 where "RSL_IE_ACCESS_DELAY \<equiv> 0x11"
abbreviation (input) RSL_IE_REQ_REFERENCE :: u8 where "RSL_IE_REQ_REFERENCE \<equiv> 0x13"

text \<open>The fields of the channel that are set before the activation is requested.\<close>

definition prepare_lchan :: "rsl_env \<Rightarrow> gsm_bts \<Rightarrow> gsm48_req_ref \<Rightarrow> u8 \<Rightarrow> gsm_lchan \<Rightarrow> gsm_lchan" where
  "prepare_lchan env bts rr ta lc =
     lc\<lparr>lc_rqd_ref := Some rr, lc_rqd_ta := ta, lc_encr_alg_id := 1,
        lc_ms_power := of_int (env_ms_pwr_ctl_lvl env (bts_ms_max_power bts)), lc_bs_power := 0,
        lc_rsl_cmode := RSL_CMOD_SPD_SIGN, lc_tch_mode := GSM48_CMODE_SIGN,
        lc_act_timer := Some (Lchan_act_tmr_cb, 4)\<rparr>"

text \<open>
  \<open>mem\<close>: \<^verbatim>\<open>talloc_zero\<close> for the request reference succeeded. \<open>None\<close>: the message is shorter than the octets
  the code reads.
\<close>

definition rsl_rx_chan_rqd ::
    "rsl_env \<Rightarrow> nat \<Rightarrow> bool \<Rightarrow> u8 list \<Rightarrow> gsm_bts \<Rightarrow> (gsm_bts \<times> bsc_event list \<times> int) option" where
  "rsl_rx_chan_rqd env ptr_size mem d bts =
     (if length d < 6 then None
      else if d ! 0 \<noteq> RSL_IE_REQ_REFERENCE then Some (bts, [], - EINVAL)
      else if d ! 4 \<noteq> RSL_IE_ACCESS_DELAY then Some (bts, [], - EINVAL)
      else
        (let rr = \<lparr>rr_ra = d ! 1, rr_t1 = d ! 2, rr_t2 = d ! 3\<rparr>;
             rqd_ta = d ! 5;
             net = env_net env;
             lctype = get_ctype_by_chreq net (rr_ra rr);
             is_lu = (get_reason_by_chreq (rr_ra rr) (net_neci net) = GSM_CHREQ_REASON_LOCATION_UPD)
         in case lchan_alloc bts lctype is_lu of
              (bts1, None, ev) \<Rightarrow>
                Some (bts1,
                      ev @ (if net_T3122 net \<noteq> 0
                            then [rsl_send_imm_ass_rej ptr_size bts1 [rr] (of_int (net_T3122 net) AND 0xff)]
                            else []), - ENOMEM)
            | (bts1, Some p, ev) \<Rightarrow>
                (let bts2 = upd_lchan p (rsl_lchan_set_state LCHAN_S_ACT_REQ) bts1
                 in if \<not> mem
                    then (case lchan_free (env_handler env) (the_lchan bts2 p) of
                            (lc, ev') \<Rightarrow> Some (upd_lchan p (\<lambda>_. lc) bts2, ev @ ev', - ENOMEM))
                    else
                      (let bts3 = upd_lchan p (prepare_lchan env bts rr rqd_ta) bts2
                       in case rsl_chan_activate_lchan env bts3 p RSL_ACT_INTRA_IMM_ASS rqd_ta 0 of
                            Inl _ \<Rightarrow> Some (bts3, ev, 0)
                          | Inr ies \<Rightarrow> Some (bts3, ev @ [Ev_rsl_chan_activ ies], 0)))))"

section \<open>Channel numbers denote their channel\<close>

lemma chan_nr_fields:
  fixes c :: u8
  assumes "c < 32"
  shows "drop_bit 3 (push_bit 3 c OR (x AND 0x7)) = c"
    and "(push_bit 3 c OR (x AND 0x7)) AND 0x7 = x AND 0x7"
proof -
  have c: "\<not> bit c n" if "5 \<le> n" for n
  proof -
    from assms have "c = take_bit 5 c"
      by (simp add: word_less_nat_alt take_bit_eq_mod unat_mod word_unat_eq_iff)
    then have "bit c n = bit (take_bit 5 c) n" by simp
    with that show ?thesis by (simp add: bit_take_bit_iff)
  qed
  have m: "bit (7::u8) n \<longleftrightarrow> n < 3" if "n < 8" for n
    by (cases rule: less8_cases [OF that]) simp_all
  show "drop_bit 3 (push_bit 3 c OR (x AND 0x7)) = c"
  proof (rule u8_eqI)
    fix n :: nat assume "n < 8"
    then show "bit (drop_bit 3 (push_bit 3 c OR (x AND 0x7))) n = bit c n"
      using c [of n] m [of "3 + n"]
      by (cases "n < 5") (simp_all add: bit_drop_bit_eq bit_or_iff bit_push_bit_iff bit_and_iff del: push_bit_numeral)
  qed
  show "(push_bit 3 c OR (x AND 0x7)) AND 0x7 = x AND 0x7"
  proof (rule u8_eqI)
    fix n :: nat assume "n < 8"
    then show "bit ((push_bit 3 c OR (x AND 0x7)) AND 0x7) n = bit (x AND 0x7) n"
      using m [of n] by (auto simp: bit_or_iff bit_push_bit_iff bit_and_iff simp del: push_bit_numeral)
  qed
qed

lemma lookup_ts2chan_nr:
  assumes nr: "ts_nr ts = of_nat j" "j < 8"
    and n: "subslots_per_pchan (ts_pchan ts) = Some n" "s < n \<or> s = 0"
  shows "lchan_lookup (gsm_ts2chan_nr ts (of_nat s)) = Some (j, s)"
proof -
  from n have s: "s < 8" by (auto simp: subslots_per_pchan_def split: gsm_phys_chan_config.splits)
  have j: "unat (of_nat j AND (7::u8)) = j"
    by (cases rule: less8_cases [OF nr(2)]) simp_all
  define cb where "cb = (case ts_pchan ts of
                     GSM_PCHAN_TCH_F \<Rightarrow> 0x01 | GSM_PCHAN_PDCH \<Rightarrow> 0x01 | GSM_PCHAN_TCH_F_PDCH \<Rightarrow> 0x01
                   | GSM_PCHAN_TCH_H \<Rightarrow> 0x02 + of_nat s | GSM_PCHAN_CCCH_SDCCH4 \<Rightarrow> 0x04 + of_nat s
                   | GSM_PCHAN_SDCCH8_SACCH8C \<Rightarrow> 0x08 + of_nat s | _ \<Rightarrow> (0x10 :: u8))"
  have one: "(1::u8) < 32" by (simp add: word_less_nat_alt)
  have cb32: "cb < 32"
    using n by (cases rule: less8_cases [OF s]; cases "ts_pchan ts")
      (simp_all add: cb_def subslots_per_pchan_def one)
  have *: "gsm_ts2chan_nr ts (of_nat s) = push_bit 3 cb OR (of_nat j AND 0x7)"
    by (simp add: gsm_ts2chan_nr_def cb_def nr(1) Let_def cong: gsm_phys_chan_config.case_cong)
  have "lchan_lookup (gsm_ts2chan_nr ts (of_nat s)) = (if cb = 0x01 then Some (j, 0)
         else if cb AND 0x1e = 0x02 then Some (j, unat (cb AND 0x1))
         else if cb AND 0x1c = 0x04 then Some (j, unat (cb AND 0x3))
         else if cb AND 0x18 = 0x08 then Some (j, unat (cb AND 0x7))
         else if cb = 0x10 \<or> cb = 0x11 \<or> cb = 0x12 then Some (j, 0)
         else None)"
    unfolding * lchan_lookup_def Let_def chan_nr_fields [OF cb32] j ..
  also have "\<dots> = Some (j, s)"
    using n by (cases rule: less8_cases [OF s]; cases "ts_pchan ts") (simp_all add: cb_def subslots_per_pchan_def)
  finally show ?thesis .
qed

section \<open>Writing a channel back\<close>

lemma upd_nth_const: "upd_nth i (\<lambda>_. f (xs ! i)) xs = upd_nth i f xs"
  by (rule nth_equalityI) (auto simp: nth_upd_nth)

lemma upd_lchan_const: "upd_lchan p (\<lambda>_. f (the_lchan bts p)) bts = upd_lchan p f bts"
proof -
  obtain t j s where p: "p = (t, j, s)" by (cases p)
  have "bts_trx_list (upd_lchan p (\<lambda>_. f (the_lchan bts p)) bts) = bts_trx_list (upd_lchan p f bts)"
    apply (rule nth_equalityI) apply simp
    apply (auto simp: p upd_lchan_def the_lchan_def the_ts_def upd_ts_def nth_upd_nth)
    apply (rule arg_cong [where f = "\<lambda>x. (_ :: gsm_bts_trx)\<lparr>trx_ts := x\<rparr>"])
    apply (rule nth_equalityI) apply simp
    apply (auto simp: nth_upd_nth upd_nth_const)
    done
  then show ?thesis by (simp add: p upd_lchan_def upd_ts_def)
qed


section \<open>Contracts of the message handlers\<close>

locale rsl_sys = signal_handler "env_handler env" for env :: rsl_env
begin

lemma rf_chan_release_op: "lchan_op (\<lambda>lc. fst (rsl_rf_chan_release env lc err))"
  by unfold_locales (auto simp: rsl_rf_chan_release_def rsl_lchan_set_state_def Let_def)

lemma rel_ack_op: "lchan_freeing_op (\<lambda>lc. fst (rsl_rx_rf_chan_rel_ack env lc))"
  by unfold_locales
     (auto simp: rsl_rx_rf_chan_rel_ack_def rsl_lchan_set_state_def Let_def case_prod_unfold
        lchan_free_free [unfolded lchan_is_free_def] lchan_free_free lchan_free_wf)

lemma timer_op: "lchan_op (\<lambda>lc. fst (timer_fires env cb lc))"
proof (cases cb)
  case Error_timeout_cb
  then show ?thesis
    by unfold_locales (auto simp: rsl_lchan_set_state_def Let_def)
qed (unfold_locales; use rf_chan_release_op [unfolded lchan_op_def] in
   \<open>force simp: rsl_lchan_set_state_def case_prod_unfold lchan_free_wf lchan_free_free [unfolded lchan_is_free_def]\<close>)+

lemma type_keptD: "lc_type (env_handler env sg lc) \<noteq> GSM_LCHAN_NONE \<Longrightarrow> lc_type (env_handler env sg lc) = lc_type lc"
  using type_kept by blast

lemma act_ack_op: "lchan_op (\<lambda>lc. fst (rsl_rx_chan_act_ack env bts p ok lc))"
  by unfold_locales
     (auto simp: rsl_rx_chan_act_ack_def rsl_lchan_set_state_def rsl_send_imm_assignment_def Let_def wf_kept
        dest: type_keptD split: option.splits)

lemma act_nack_op: "lchan_op (\<lambda>lc. fst (rsl_rx_chan_act_nack env ok cause lc))"
  by unfold_locales
     (auto simp: rsl_rx_chan_act_nack_def rsl_lchan_set_state_def case_prod_unfold Let_def wf_kept
        lchan_free_free [unfolded lchan_is_free_def] lchan_free_wf
        rf_chan_release_op [unfolded lchan_op_def] split: option.splits rsl_cause.splits)

lemma next_meas_rep_frame:
  "lc_type (fst (lchan_next_meas_rep lc)) = lc_type lc"
  "wf_lchan s lc \<Longrightarrow> wf_lchan s (fst (lchan_next_meas_rep lc))"
  by (auto simp: lchan_next_meas_rep_def Let_def wf_lchan_def)

lemma wf_put_meas_rep: "wf_lchan s lc \<Longrightarrow> wf_lchan s (lc\<lparr>lc_meas_rep := (lc_meas_rep lc)[i := m]\<rparr>)"
  by (simp add: wf_lchan_def)

lemma meas_res_op: "lchan_op (\<lambda>lc. fst (rsl_rx_meas_res env ies lc))"
  by unfold_locales
   (auto simp: rsl_rx_meas_res_def next_meas_rep_frame Let_def case_prod_unfold wf_put_meas_rep wf_kept
     dest: type_keptD split: option.splits)

lemma dchan_op: "lchan_op (\<lambda>lc. fst (dchan_on_lchan env bts p msg lc))"
proof (cases msg)
  case MT_HANDO_DET
  then show ?thesis
    using type_kept wf_kept by unfold_locales (simp_all add: dchan_on_lchan_def)
qed (simp_all add: dchan_on_lchan_def act_ack_op act_nack_op meas_res_op rsl_rx_conn_fail_def rf_chan_release_op
      lchan_freeing_op.axioms(1) [OF rel_ack_op], (unfold_locales; simp)+)

end

lemma wf_lchan_sapis [simp]: "wf_lchan s (lc\<lparr>lc_sapis := (lc_sapis lc)[i := v]\<rparr>) = wf_lchan s lc"
  by (simp add: wf_lchan_def)

lemma rll_release_frame:
  "lc_type (fst (rsl_lchan_rll_release lc l)) = lc_type lc"
  "wf_lchan s (fst (rsl_lchan_rll_release lc l)) = wf_lchan s lc"
  by (auto simp: rsl_lchan_rll_release_def lchan_handle_release_frame case_prod_unfold)

lemma handle_release_frame:
  "lc_type (rsl_handle_release env lc) = lc_type lc"
  "wf_lchan s (rsl_handle_release env lc) = wf_lchan s lc"
  by (auto simp: rsl_handle_release_def)

interpretation rll: lchan_op "\<lambda>lc. fst (rll_on_lchan env link_id msg lc)" for env link_id msg
  by unfold_locales
     (auto simp: rll_on_lchan_def Let_def case_prod_unfold rll_release_frame handle_release_frame
        rsl_rf_chan_release_def rsl_lchan_set_state_def split: rsl_rll_msg.splits)

section \<open>The handlers of the BSC\<close>

text \<open>
  What \<^verbatim>\<open>bsc_handle_lchan_signal\<close> (\<^verbatim>\<open>src/libbsc/bsc_api.c\<close>) does to the signalled channel itself:
  an unexpected release and the failed activation of the secondary channel of a connection
  (\<open>is_secondary\<close>) drop its connection.
\<close>

definition bsc_handle_lchan_signal :: "(nat \<Rightarrow> bool) \<Rightarrow> sig_handler" where
  "bsc_handle_lchan_signal is_secondary sg lc =
     (case lc_conn lc of
        None \<Rightarrow> lc
      | Some c \<Rightarrow>
          (case sg of
             S_LCHAN_UNEXPECTED_RELEASE \<Rightarrow> lc\<lparr>lc_conn := None\<rparr>
           | S_LCHAN_ACTIVATE_NACK \<Rightarrow> if is_secondary c then lc\<lparr>lc_conn := None\<rparr> else lc
           | _ \<Rightarrow> lc))"

interpretation bsc_api: signal_handler "bsc_handle_lchan_signal sec" for sec
  by unfold_locales
     (auto simp: bsc_handle_lchan_signal_def split: option.splits bsc_signal.splits)

section \<open>Messages keep the allocation invariant\<close>

definition configured :: "gsm_bts \<Rightarrow> ts_ptr \<Rightarrow> bool" where
  "configured bts p \<longleftrightarrow> ts_pchan (the_ts bts p) \<noteq> GSM_PCHAN_NONE"

lemma alloc_inv_ts_flags:
  assumes inv: "alloc_inv bts"
    and f: "\<And>ts. ts_pchan (f ts) = ts_pchan ts \<and> ts_lchan (f ts) = ts_lchan ts \<and> ts_nr (f ts) = ts_nr ts"
  shows "alloc_inv (upd_ts p f bts)"
proof -
  have wf: "wf_bts (upd_ts p f bts)"
    by (rule wf_bts_upd_ts [OF alloc_inv_wf [OF inv]]) (simp add: wf_ts_def f)
  have "lchan_inv (ts_pchan (the_ts (upd_ts p f bts) (t, j))) s (the_lchan (upd_ts p f bts) (t, j, s))"
    if "valid_lchan (upd_ts p f bts) (t, j, s)" for t j s
  proof -
    from that have v: "valid_lchan bts (t, j, s)"
      using valid_lchan_iff [OF wf] valid_lchan_iff [OF alloc_inv_wf [OF inv]] by simp
    then show ?thesis
      using alloc_inv_lchan [OF inv v] the_ts_upd_ts [OF valid_lchan_ts [OF v], of p f]
      by (simp add: the_lchan_def f)
  qed
  with wf show ?thesis by (simp add: alloc_inv_def)
qed

lemma dchan_on_ts_frame:
  "ts_pchan (dchan_on_ts msg ts) = ts_pchan ts \<and> ts_lchan (dchan_on_ts msg ts) = ts_lchan ts \<and>
   ts_nr (dchan_on_ts msg ts) = ts_nr ts"
  by (simp add: dchan_on_ts_def split: rsl_dchan_msg.splits)

lemma abis_rsl_rx_rll_inv:
  assumes inv: "alloc_inv bts" and a: "abis_rsl_rx_rll env t chan_nr l msg bts = Some (bts', ev, rc)"
    and conf: "\<And>j s. lchan_lookup chan_nr = Some (j, s) \<Longrightarrow> configured bts (t, j)"
  shows "alloc_inv bts'"
proof -
  from a obtain j s where l: "lchan_lookup chan_nr = Some (j, s)"
    and b: "bts' = upd_lchan (t, j, s) (\<lambda>lc. fst (rll_on_lchan env l msg lc)) bts"
    by (auto simp: abis_rsl_rx_rll_def Let_def case_prod_unfold upd_lchan_const [where f = "\<lambda>lc. fst (rll_on_lchan env l msg lc)"]
        split: option.splits)
  show ?thesis
    unfolding b by (rule rll.keeps_alloc_inv [OF inv conf [OF l, unfolded configured_def]])
qed

context rsl_sys
begin

lemma rx_dchan_inv:
  assumes inv: "alloc_inv bts" and a: "abis_rsl_rx_dchan env t chan_nr msg bts = Some (bts', ev, rc)"
    and conf: "\<And>j s. lchan_lookup chan_nr = Some (j, s) \<Longrightarrow> configured bts (t, j)"
  shows "alloc_inv bts'"
proof -
  from a obtain j s where l: "lchan_lookup chan_nr = Some (j, s)"
    and b: "bts' = upd_ts (t, j) (dchan_on_ts msg)
              (upd_lchan (t, j, s) (\<lambda>lc. fst (dchan_on_lchan env bts (t, j, s) msg lc)) bts)"
    by (auto simp: abis_rsl_rx_dchan_def Let_def case_prod_unfold
        upd_lchan_const [where f = "\<lambda>lc. fst (dchan_on_lchan env bts (t, j, s) msg lc)" for t j s]
        split: option.splits)
  show ?thesis
    unfolding b
    by (intro alloc_inv_ts_flags dchan_on_ts_frame
        lchan_op.keeps_alloc_inv [OF dchan_op inv conf [OF l, unfolded configured_def]])
qed

end

lemma lchan_alloc_valid:
  assumes inv: "alloc_inv bts" and a: "lchan_alloc bts ty big = (bts', r, ev)"
  shows "valid_lchan bts' q = valid_lchan bts q"
  using inv a
proof (cases rule: lchan_alloc_cases)
  case (ok p pchan b ty')
  then show ?thesis using found_keeps(2) [OF ok(2) inv, of q] by simp
qed simp

lemma lchan_alloc_configured:
  assumes "alloc_inv bts" "lchan_alloc bts ty big = (bts', Some (t, j, s), ev)"
  shows "configured bts' (t, j)"
  using lchan_alloc_SomeD(3) [OF assms] by (auto simp: configured_def chan_fits_def split: gsm_chan_t.splits)

interpretation set_state: lchan_op "rsl_lchan_set_state st" for st
  by unfold_locales (simp_all add: rsl_lchan_set_state_def)

interpretation prepare: lchan_op "prepare_lchan env bts rr ta" for env bts rr ta
  by unfold_locales (simp_all add: prepare_lchan_def wf_lchan_def)

context rsl_sys
begin

lemma rx_chan_rqd_inv:
  assumes inv: "alloc_inv bts" and a: "rsl_rx_chan_rqd env ptr_size mem d bts = Some (bts', ev, rc)"
  shows "alloc_inv bts'"
proof -
  let ?ty = "get_ctype_by_chreq (env_net env) (d ! Suc 0)"
  let ?lu = "get_reason_by_chreq (d ! Suc 0) (net_neci (env_net env)) = GSM_CHREQ_REASON_LOCATION_UPD"
  obtain b1 r e where al: "lchan_alloc bts ?ty ?lu = (b1, r, e)" by (cases "lchan_alloc bts ?ty ?lu")
  note inv1 = lchan_alloc_inv [OF inv al]
  show ?thesis
  proof (cases r)
    case None
    with a inv inv1 show ?thesis
      by (auto simp: rsl_rx_chan_rqd_def Let_def al split: if_splits)
  next
    case (Some p)
    obtain t j s where p: "p = (t, j, s)" by (cases p)
    define b2 where "b2 = upd_lchan p (rsl_lchan_set_state LCHAN_S_ACT_REQ) b1"
    have v: "valid_ts b1 (t, j)"
      using lchan_alloc_SomeD(1) [OF inv al [unfolded Some p]] lchan_alloc_valid [OF inv al] valid_lchan_ts by blast
    have c1: "ts_pchan (the_ts b1 (t, j)) \<noteq> GSM_PCHAN_NONE"
      using lchan_alloc_configured [OF inv al [unfolded Some p]] by (simp add: configured_def)
    then have inv2: "alloc_inv b2" and c2: "ts_pchan (the_ts b2 (t, j)) \<noteq> GSM_PCHAN_NONE"
      unfolding b2_def p using set_state.keeps_alloc_inv [OF inv1 c1] v by simp_all
    have fr: "alloc_inv (upd_lchan p (\<lambda>_. fst (lchan_free (env_handler env) (the_lchan b2 p))) b2)"
      using free.frees_keeps_alloc_inv [OF inv2, of t j s]
        upd_lchan_const [where f = "\<lambda>lc. fst (lchan_free (env_handler env) lc)" and p = p and bts = b2]
      by (simp add: p)
    have pr: "alloc_inv (upd_lchan p (prepare_lchan env bts rr ta) b2)" for rr ta
      using prepare.keeps_alloc_inv [OF inv2 c2] by (simp add: p)
    from a inv fr pr show ?thesis
      by (auto simp: rsl_rx_chan_rqd_def Let_def al Some b2_def [symmetric] case_prod_unfold
          split: if_splits sum.splits)
  qed
qed

end

section \<open>IMSI digits\<close>

text \<open>Digit \<open>i\<close> of a packed BCD string.\<close>

definition bcd_digit :: "u8 list \<Rightarrow> nat \<Rightarrow> u8" where
  "bcd_digit out i = (if even i then out ! (i div 2) AND 0xf else drop_bit 4 (out ! (i div 2)))"

lemma digit_cases:
  assumes "0x30 \<le> c" "c \<le> 0x39"
  obtains k where "k < 10" "c = 0x30 + (k::nat)"
  using that [of "c - 0x30"] assms by auto

lemma nibbles:
  assumes "a < 10" "b < 10"
  shows "((of_nat a :: u8) OR push_bit 4 (of_nat b)) AND 0xf = of_nat a"
    and "drop_bit 4 ((of_nat a :: u8) OR push_bit 4 (of_nat b)) = of_nat b"
    and "(of_nat a :: u8) AND 0xf = of_nat a"
proof -
  from assms(1) have a: "a = 0 \<or> a = 1 \<or> a = 2 \<or> a = 3 \<or> a = 4 \<or> a = 5 \<or> a = 6 \<or> a = 7 \<or> a = 8 \<or> a = 9" by presburger
  from assms(2) have b: "b = 0 \<or> b = 1 \<or> b = 2 \<or> b = 3 \<or> b = 4 \<or> b = 5 \<or> b = 6 \<or> b = 7 \<or> b = 8 \<or> b = 9"
    by presburger
  from a show "(of_nat a :: u8) AND 0xf = of_nat a" by (elim disjE) simp_all
  from a b show "((of_nat a :: u8) OR push_bit 4 (of_nat b)) AND 0xf = of_nat a"
    by (elim disjE) simp_all
  from a b show "drop_bit 4 ((of_nat a :: u8) OR push_bit 4 (of_nat b)) = of_nat b"
    by (elim disjE) simp_all
qed

fun pack_bcd :: "nat list \<Rightarrow> u8 list" where
  "pack_bcd [] = []"
| "pack_bcd [c] = [of_nat (c - 0x30)]"
| "pack_bcd (c # d # cs) = (of_nat (c - 0x30) OR push_bit 4 (of_nat (d - 0x30))) # pack_bcd cs"

lemma bcd_loop_pack:
  assumes "length out = k" "\<forall>c \<in> set cs. 0x30 \<le> c \<and> c \<le> 0x39"
  shows "bcd_loop (2 * k) out cs = Some (out @ pack_bcd cs)"
  using assms
proof (induction cs arbitrary: out k rule: pack_bcd.induct)
  case (3 c d cs)
  let ?b = "of_nat (c - 0x30) OR push_bit 4 (of_nat (d - 0x30)) :: u8"
  have "bcd_loop (2 * Suc k) (out @ [?b]) cs = Some ((out @ [?b]) @ pack_bcd cs)"
    using 3 by (intro 3(1)) auto
  moreover have "upd_nth (length out) f (out @ [x]) = out @ [f x]" for f and x :: u8
    by (simp add: upd_nth_def)
  ultimately show ?case using 3(2,3) by (simp add: not_less)
qed auto

lemma length_pack_bcd: "length (pack_bcd cs) = (length cs + 1) div 2"
  by (induction cs rule: pack_bcd.induct) auto

lemma pack_bcd_digit:
  assumes "\<forall>c \<in> set cs. 0x30 \<le> c \<and> c \<le> 0x39" "i < length cs"
  shows "bcd_digit (pack_bcd cs) i = of_nat (cs ! i - 0x30)"
  using assms
proof (induction cs arbitrary: i rule: pack_bcd.induct)
  case (2 c)
  then show ?case using nibbles(3) [of "c - 0x30" 0] by (auto simp: bcd_digit_def simp del: of_nat_diff)
next
  case (3 c d cs)
  consider "i = 0" | "i = 1" | k where "i = Suc (Suc k)" by (metis One_nat_def not0_implies_Suc)
  then show ?case
  proof cases
    case 3
    then show ?thesis using "3.IH" [of k] "3.prems" by (simp add: bcd_digit_def split: if_splits)
  qed (use "3.prems" nibbles [of "c - 0x30" "d - 0x30"] in \<open>auto simp: bcd_digit_def simp del: push_bit_numeral of_nat_diff\<close>)
qed simp

lemma bcd_loop_reject:
  "\<exists>c \<in> set cs. c < 0x30 \<or> 0x39 < c \<Longrightarrow> bcd_loop i out cs = None"
  by (induction cs arbitrary: i out) auto

lemma bsc_handle_frame [simp]:
  "lc_type (bsc_handle_lchan_signal sec sg lc) = lc_type lc"
  "lc_state (bsc_handle_lchan_signal sec sg lc) = lc_state lc"
  "lc_act_timer (bsc_handle_lchan_signal sec sg lc) = lc_act_timer lc"
  "lc_T3101 (bsc_handle_lchan_signal sec sg lc) = lc_T3101 lc"
  "lc_T3111 (bsc_handle_lchan_signal sec sg lc) = lc_T3111 lc"
  "lc_rqd_ref (bsc_handle_lchan_signal sec sg lc) = lc_rqd_ref lc"
  "lc_meas_rep_idx (bsc_handle_lchan_signal sec sg lc) = lc_meas_rep_idx lc"
  by (simp_all add: bsc_handle_lchan_signal_def split: option.split bsc_signal.split)

lemma length_chan_desc [simp]: "length (gsm48_lchan2chan_desc bts p) = 3"
  by (cases p) (simp add: gsm48_lchan2chan_desc_def Let_def)

section \<open>Properties\<close>

text \<open>C26: A channel number built for a channel of a configured timeslot denotes that channel when it comes back in a message.\<close>

theorem chan_nr_roundtrip:
  assumes "wf_bts bts" and "valid_lchan bts (t, j, s)"
    and "subslots_per_pchan (ts_pchan (the_ts bts (t, j))) = Some n" and "s < n"
  shows "lchan_lookup (gsm_lchan2chan_nr bts (t, j, s)) = Some (j, s)"
proof -
  from wf_bts_the_lchan [OF assms(1,2)] have "lc_nr (the_lchan bts (t, j, s)) = of_nat s"
    by (simp add: wf_lchan_def)
  moreover have "ts_nr (the_ts bts (t, j)) = of_nat j" "j < 8"
    using assms(1,2) by (auto simp: valid_lchan_iff the_ts_def wf_bts_def wf_trx_def wf_ts_def)
  ultimately show ?thesis
    using lookup_ts2chan_nr [of "the_ts bts (t, j)" j n s] assms(3,4) by (simp add: gsm_lchan2chan_nr_def)
qed

theorem chan_nr_roundtrip_witness:
  "lchan_lookup (gsm_lchan2chan_nr fresh_bts (0, 0, 3)) = Some (0, 3)"
proof -
  note wf = gsm_bts_alloc_wf [OF fresh_bts_alloc]
  have "valid_lchan fresh_bts (0, 0, 3)" by (simp add: valid_lchan_iff [OF wf(1)] wf(2))
  then show ?thesis
    using chan_nr_roundtrip [of fresh_bts 0 0 3 4] wf by (simp add: subslots_per_pchan_def)
qed

text \<open>The release acknowledgement of the BTS leaves the channel free, without connection, request reference, pending activation or signalling timers, and announces the freed channel.\<close>

theorem rel_ack_frees:
  "\<exists>lc' ev. rsl_rx_rf_chan_rel_ack (env\<lparr>env_handler := bsc_handle_lchan_signal sec\<rparr>) lc = (lc', ev, 0) \<and>
     lchan_is_free lc' \<and> lc_conn lc' = None \<and> lc_act_timer lc' = None \<and> lc_T3101 lc' = None \<and> lc_T3111 lc' = None \<and>
     lc_rqd_ref lc' = None \<and> lc_meas_rep_idx lc' = 0 \<and>
     Ev_signal (S_CHALLOC_FREED (lc_type lc)) \<in> set ev"
  by (simp add: rsl_rx_rf_chan_rel_ack_def lchan_free_def Let_def clear_meas_def
     lchan_is_free_def rsl_lchan_set_state_def case_prod_unfold)

text \<open>For every BTS but the BS-11 the immediate assignment is sent as one MAC block of 23 octets: the message with its L2 pseudo length, padded with 0x2b.\<close>

theorem imm_assign_is_macblock:
  assumes "bts_type bts \<noteq> GSM_BTS_TYPE_BS11"
  shows "\<exists>blk. rsl_imm_assign_cmd bts (imm_ass_octets bts p rr ta) = Ev_rsl_full_imm_assign blk \<and>
     length blk = 23 \<and>
     blk ! 0 = GSM48_LEN2PLEN (11 + length (drop 12 (imm_ass_octets bts p rr ta))) \<and>
     (\<forall>i < 23. blk ! i = (if i < length (imm_ass_octets bts p rr ta) then imm_ass_octets bts p rr ta ! i else 0x2b))"
proof -
  let ?o = "imm_ass_octets bts p rr ta"
  have "rsl_imm_assign_cmd bts ?o = Ev_rsl_full_imm_assign (take 23 (pad_macblock ?o))"
    using assms by (auto simp: rsl_imm_assign_cmd_def split: gsm_bts_type.splits)
  moreover have "?o ! 0 = GSM48_LEN2PLEN (11 + length (drop 12 ?o))"  "12 \<le> length ?o"
    by (auto simp: imm_ass_octets_def Let_def)
  ultimately show ?thesis
    by (auto simp: pad_macblock_def nth_append)
qed

theorem imm_assign_is_macblock_witness:
  "\<exists>blk. rsl_imm_assign_cmd fresh_bts (imm_ass_octets fresh_bts (0, 0, 1) \<lparr>rr_ra = 1, rr_t1 = 2, rr_t2 = 3\<rparr> 4) =
     Ev_rsl_full_imm_assign blk \<and> length blk = 23"
proof -
  have "bts_type fresh_bts = GSM_BTS_TYPE_UNKNOWN" by code_simp
  then show ?thesis
    using imm_assign_is_macblock [of fresh_bts "(0, 0, 1)" "\<lparr>rr_ra = 1, rr_t1 = 2, rr_t2 = 3\<rparr>" 4] by auto
qed

text \<open>An IMSI of decimal digits is packed two digits to the octet, and each digit can be read back.\<close>

theorem imsi_str2bcd_digits:
  assumes "\<forall>c \<in> set str. 0x30 \<le> c \<and> c \<le> 0x39"
  shows "\<exists>out. imsi_str2bcd str = Some out \<and> length out = (length str + 1) div 2 \<and>
     (\<forall>i < length str. bcd_digit out i = of_nat (str ! i - 0x30))"
  using bcd_loop_pack [of "[]" 0 str] assms pack_bcd_digit [OF assms]
  by (auto simp: imsi_str2bcd_def length_pack_bcd simp del: of_nat_diff)

theorem imsi_str2bcd_digits_witness:
  "bcd_digit (the (imsi_str2bcd [0x39, 0x30, 0x31])) 2 = 1"
  using imsi_str2bcd_digits [of "[0x39, 0x30, 0x31]"] by auto

end
