(* ===== verification/Lchan_Life.thy ===== *)
theory Lchan_Life
  imports Abis_Rsl
begin

unbundle bit_operations_syntax

text \<open>
  The life of the logical channels of a station under everything that can happen to it: the
  operator, the messages of the BTS, the timers and the layer above are the steps of a transition
  relation, and the allocation invariant holds in every reachable station. The release of the
  signalling links of a channel is followed to its end.
\<close>

section \<open>The channel life cycle as a step relation\<close>

text \<open>The timer of the channel that runs the callback is pending.\<close>

definition timer_pending :: "timer_cb \<Rightarrow> gsm_lchan \<Rightarrow> bool" where
  "timer_pending cb lc \<longleftrightarrow>
     cb \<in> fst ` (set_option (lc_act_timer lc) \<union> set_option (lc_error_timer lc) \<union>
                 set_option (lc_T3101 lc) \<union> set_option (lc_T3111 lc))"

text \<open>
  One step of the BSC on a station: configuration of an unused timeslot or another transceiver by
  the operator, a message of the BTS on a timeslot that is configured, the expiry of a pending
  timer, a release requested by the layer above.
\<close>

inductive bsc_step :: "rsl_env \<Rightarrow> gsm_bts \<Rightarrow> gsm_bts \<Rightarrow> bool" for env where
  add_trx: "gsm_bts_trx_alloc mem bts = Some (bts', t) \<Longrightarrow> bsc_step env bts bts'"
| configure: "valid_ts bts p \<Longrightarrow> ts_pchan (the_ts bts p) = GSM_PCHAN_NONE \<Longrightarrow>
    bsc_step env bts (upd_ts p (\<lambda>ts. ts\<lparr>ts_pchan := c\<rparr>) bts)"
| chan_rqd: "rsl_rx_chan_rqd env ptr_size mem d bts = Some (bts', ev, rc) \<Longrightarrow> bsc_step env bts bts'"
| dchan: "lchan_lookup chan_nr = Some (j, s) \<Longrightarrow> configured bts (t, j) \<Longrightarrow>
    abis_rsl_rx_dchan env t chan_nr msg bts = Some (bts', ev, rc) \<Longrightarrow> bsc_step env bts bts'"
| rll: "lchan_lookup chan_nr = Some (j, s) \<Longrightarrow> configured bts (t, j) \<Longrightarrow>
    abis_rsl_rx_rll env t chan_nr l msg bts = Some (bts', ev, rc) \<Longrightarrow> bsc_step env bts bts'"
| timer: "configured bts (t, j) \<Longrightarrow> timer_pending cb (the_lchan bts (t, j, s)) \<Longrightarrow>
    bsc_step env bts (upd_lchan (t, j, s) (\<lambda>lc. fst (timer_fires env cb lc)) bts)"
| release: "configured bts (t, j) \<Longrightarrow>
    bsc_step env bts (upd_lchan (t, j, s) (\<lambda>lc. fst (lchan_release lc d r)) bts)"

inductive bsc_reachable :: "rsl_env \<Rightarrow> gsm_bts \<Rightarrow> bool" for env where
  init: "gsm_bts_alloc mem mem_trx = Some bts \<Longrightarrow> bsc_reachable env bts"
| step: "bsc_reachable env bts \<Longrightarrow> bsc_step env bts bts' \<Longrightarrow> bsc_reachable env bts'"

inductive_cases bsc_stepE: "bsc_step env bts bts'"

context rsl_sys
begin

lemma step_inv: "bsc_step env bts bts' \<Longrightarrow> alloc_inv bts \<Longrightarrow> alloc_inv bts'"
  by (erule bsc_stepE)
     (auto simp: configured_def intro: trx_alloc_inv alloc_inv_configure rx_chan_rqd_inv
       rx_dchan_inv abis_rsl_rx_rll_inv release.keeps_alloc_inv lchan_op.keeps_alloc_inv [OF timer_op])

lemma reachable_inv: "bsc_reachable env bts \<Longrightarrow> alloc_inv bts"
  by (induction rule: bsc_reachable.induct) (auto intro: step_inv bts_alloc_inv)
end

section \<open>The release sequence ends\<close>

text \<open>
  The BTS confirms every release it is asked for: \<open>n\<close> rounds of REL REQUEST and REL CONFIRM. The
  sequence stops when the BSC requests nothing more.
\<close>

fun bts_confirms :: "rsl_env \<Rightarrow> nat \<Rightarrow> gsm_lchan \<times> bsc_event list \<Rightarrow> gsm_lchan \<times> bsc_event list" where
  "bts_confirms env 0 st = st"
| "bts_confirms env (Suc n) (lc, ev) =
     (case ev of
        [Ev_rsl_release_request link_id _] \<Rightarrow>
          (case rll_on_lchan env link_id MT_REL_CONF lc of (lc', ev', _) \<Rightarrow> bts_confirms env n (lc', ev'))
      | _ \<Rightarrow> (lc, ev))"

definition used_sapis :: "gsm_lchan \<Rightarrow> nat" where
  "used_sapis lc = length (filter (\<lambda>x. x \<noteq> LCHAN_SAPI_UNUSED) (drop 1 (lc_sapis lc)))"

lemma link_id_sapi:
  assumes "i < 7"
  shows "unat ((of_nat (Suc i) :: u8) AND 7) = Suc i"
    and "unat (((of_nat (Suc i) :: u8) OR 0x40) AND 7) = Suc i"
    and "(of_nat (Suc i) :: u8) AND 7 \<noteq> 0" "((of_nat (Suc i) :: u8) OR 0x40) AND 7 \<noteq> 0"
proof -
  have "i = 0 \<or> i = 1 \<or> i = 2 \<or> i = 3 \<or> i = 4 \<or> i = 5 \<or> i = 6" using assms by linarith
  then show "unat ((of_nat (Suc i) :: u8) AND 7) = Suc i"
    "unat (((of_nat (Suc i) :: u8) OR 0x40) AND 7) = Suc i"
    "(of_nat (Suc i) :: u8) AND 7 \<noteq> 0" "((of_nat (Suc i) :: u8) OR 0x40) AND 7 \<noteq> 0"
    by (elim disjE; simp)+
qed

lemma count_update:
  assumes "i < length xs" "P (xs ! i)" "\<not> P y"
  shows "length (filter P xs) = Suc (length (filter P (xs[i := y])))"
  using assms by (induction xs arbitrary: i) (auto split: nat.splits simp: nth_Cons)

text \<open>A channel on which the release was started: the next request names a SAPI in use.\<close>

lemma next_sapi_None: "lchan_release_next_sapi lc = None \<longleftrightarrow> used_sapis lc = 0"
proof -
  have "lchan_release_next_sapi lc = None \<longleftrightarrow>
          find_idx (\<lambda>x. x \<noteq> LCHAN_SAPI_UNUSED) (drop 1 (lc_sapis lc)) = None"
    by (simp add: lchan_release_next_sapi_def Let_def split: option.split)
  then show ?thesis by (simp add: find_idx_None_iff used_sapis_def filter_empty_conv)
qed

lemma next_sapi_Some:
  assumes "lchan_release_next_sapi lc = Some ev" "length (lc_sapis lc) = 8"
  obtains l r where "ev = [Ev_rsl_release_request l r]" "0 < unat (l AND 7)" "unat (l AND 7) < 8" "l AND 7 \<noteq> 0"
    "lc_sapis lc ! unat (l AND 7) \<noteq> LCHAN_SAPI_UNUSED"
proof -
  from assms(1) obtain i where i: "find_idx (\<lambda>x. x \<noteq> LCHAN_SAPI_UNUSED) (drop 1 (lc_sapis lc)) = Some i"
    and ev: "ev = [Ev_rsl_release_request (if lc_type lc = GSM_LCHAN_TCH_F \<or> lc_type lc = GSM_LCHAN_TCH_H
                           then of_nat (Suc i) OR 0x40 else of_nat (Suc i)) (of_int (lc_release_reason lc))]"
    by (auto simp: lchan_release_next_sapi_def Let_def split: option.splits)
  from find_idx_SomeD [OF i] assms(2) have "i < 7" "lc_sapis lc ! Suc i \<noteq> LCHAN_SAPI_UNUSED"
    by auto
  with link_id_sapi [of i] show ?thesis
    using that [OF ev] by auto
qed

lemma used_sapis_clear:
  assumes "length (lc_sapis lc) = 8" "0 < i" "i < 8" "lc_sapis lc ! i \<noteq> LCHAN_SAPI_UNUSED"
  shows "used_sapis lc = Suc (used_sapis (lc\<lparr>lc_sapis := (lc_sapis lc)[i := LCHAN_SAPI_UNUSED]\<rparr>))"
proof -
  obtain k where k: "i = Suc k" using assms(2) by (cases i) auto
  have "drop 1 ((lc_sapis lc)[i := 0]) = (drop 1 (lc_sapis lc))[k := 0]"
    by (simp add: k drop_update_swap)
  then show ?thesis
    using count_update [of k "drop 1 (lc_sapis lc)" "\<lambda>x. x \<noteq> LCHAN_SAPI_UNUSED" 0] assms
    by (simp add: used_sapis_def k)
qed

definition released :: "rsl_env \<Rightarrow> gsm_lchan \<Rightarrow> bool" where
  "released env lc \<longleftrightarrow> lc_state lc = LCHAN_S_REL_REQ \<and> (\<forall>x \<in> set (lc_sapis lc). x = LCHAN_SAPI_UNUSED) \<and>
     lc_T3111 lc = Some (T3111_expired, net_T3111 (env_net env))"

lemma confirm_sapi0:
  assumes "lc_state lc = LCHAN_S_REL_REQ" "length (lc_sapis lc) = 8" "used_sapis lc = 0"
    "rll_on_lchan env 0 MT_REL_CONF lc = (lc', ev, rc)"
  shows "released env lc' \<and> ev = []"
proof -
  have "x = 0" if "x \<in> set ((lc_sapis lc)[0 := 0])" for x
    using that assms(2,3) by (cases "lc_sapis lc") (auto simp: used_sapis_def filter_empty_conv)
  with assms show ?thesis
    by (auto simp: rll_on_lchan_def released_def rsl_handle_release_def rsl_lchan_rll_release_def split: if_splits)
qed

text \<open>A confirmation for SAPI \<open>l\<close> continues with the request for the next one.\<close>

lemma confirm_sapi:
  assumes "lc_state lc = LCHAN_S_REL_REQ" "l AND 7 \<noteq> 0" "unat (l AND 7) = i"
    "rll_on_lchan env l MT_REL_CONF lc = (lc', ev, rc)"
  shows "\<exists>tm. lchan_handle_release (lc\<lparr>lc_sapis := (lc_sapis lc)[i := LCHAN_SAPI_UNUSED], lc_T3111 := tm\<rparr>) = (lc', ev)"
  using assms
  by (auto simp: rll_on_lchan_def rsl_handle_release_def rsl_lchan_rll_release_def Let_def case_prod_unfold split: if_splits
     intro: exI [of _ "lc_T3111 lc"] exI [of _ "Some (T3111_expired, net_T3111 (env_net env))"])

lemma release_run:
  assumes "used_sapis lc = n" "lc_state lc = LCHAN_S_REL_REQ" "length (lc_sapis lc) = 8" "lc_sach_deact lc = 0"
  shows "\<exists>lc'. bts_confirms env (Suc n) (lchan_handle_release lc) = (lc', []) \<and> released env lc'"
  using assms
proof (induction n arbitrary: lc)
  case 0
  then have "lchan_handle_release lc = (lc, [Ev_rsl_release_request 0 (of_int (lc_release_reason lc))])"
    by (cases lc) (simp add: lchan_handle_release_def next_sapi_None [THEN iffD2] rsl_lchan_set_state_def)
  with 0 confirm_sapi0 [of lc env] show ?case
    by (auto split: prod.splits)
next
  case (Suc n)
  then obtain ev where ev: "lchan_release_next_sapi lc = Some ev"
    using next_sapi_None [of lc] by (cases "lchan_release_next_sapi lc") auto
  from next_sapi_Some [OF ev Suc.prems(3)] obtain l r where e: "ev = [Ev_rsl_release_request l r]"
    and i: "0 < unat (l AND 7)" "unat (l AND 7) < 8" "l AND 7 \<noteq> 0" "lc_sapis lc ! unat (l AND 7) \<noteq> LCHAN_SAPI_UNUSED"
    by blast
  obtain lc' ev' rc where c: "rll_on_lchan env l MT_REL_CONF lc = (lc', ev', rc)"
    by (cases "rll_on_lchan env l MT_REL_CONF lc")
  from confirm_sapi [OF Suc.prems(2) i(3) refl c] obtain tm where
    h: "lchan_handle_release (lc\<lparr>lc_sapis := (lc_sapis lc)[unat (l AND 7) := LCHAN_SAPI_UNUSED], lc_T3111 := tm\<rparr>) = (lc', ev')"
    by blast
  have "used_sapis (lc\<lparr>lc_sapis := (lc_sapis lc)[unat (l AND 7) := LCHAN_SAPI_UNUSED], lc_T3111 := tm\<rparr>) = n"
    using used_sapis_clear [OF Suc.prems(3) i(1,2,4)] Suc.prems(1) by (simp add: used_sapis_def)
  from Suc.IH [OF this] Suc.prems h
  have "\<exists>lc''. bts_confirms env (Suc n) (lc', ev') = (lc'', []) \<and> released env lc''"
    by simp
  moreover have "lchan_handle_release lc = (lc, [Ev_rsl_release_request l r])"
    using ev e by (simp add: lchan_handle_release_def)
  ultimately show ?case
    using c by simp
qed

interpretation bsc: rsl_sys "env\<lparr>env_handler := bsc_handle_lchan_signal sec\<rparr>" for env sec
  by (simp add: rsl_sys_def bsc_api.signal_handler_axioms)

text \<open>An environment for concrete runs.\<close>

definition sample_env :: rsl_env where
  "sample_env = \<lparr>env_net = sample_net, env_handler = bsc_handle_lchan_signal (\<lambda>_. False), env_send_rc = 0,
     env_ms_pwr_ctl_lvl = (\<lambda>_. 5), env_ms_pwr_dbm = (\<lambda>_. 33), env_nth_set_bit = (\<lambda>_. 0)\<rparr>"

lemma sample_env_handler: "sample_env\<lparr>env_handler := bsc_handle_lchan_signal (\<lambda>_. False)\<rparr> = sample_env"
  by (simp add: sample_env_def)

section \<open>Properties\<close>



text \<open>C9: A local release ends: when the BTS confirms each requested release, then after one round for each signalling link in use besides SAPI 0, and one for SAPI 0, no link is in use, nothing more is requested and T3111 runs.\<close>

theorem release_completes:
  assumes "wf_lchan s lc"
  shows "\<exists>lc'. bts_confirms env (Suc (used_sapis lc)) (lchan_release lc 0 reason) = (lc', []) \<and>
     lc_state lc' = LCHAN_S_REL_REQ \<and> (\<forall>x \<in> set (lc_sapis lc'). x = LCHAN_SAPI_UNUSED) \<and>
     lc_T3111 lc' = Some (T3111_expired, net_T3111 (env_net env))"
proof -
  let ?lc = "(rsl_lchan_set_state LCHAN_S_REL_REQ lc)\<lparr>lc_conn := None, lc_release_reason := reason, lc_sach_deact := 0\<rparr>"
  have "used_sapis ?lc = used_sapis lc" by (simp add: used_sapis_def rsl_lchan_set_state_def)
  then show ?thesis
    using assms release_run [of ?lc "used_sapis lc" env]
    by (auto simp: lchan_release_def released_def wf_lchan_def rsl_lchan_set_state_def)
qed

theorem release_completes_witness:
  "\<exists>lc'. bts_confirms sample_env 2 (lchan_release (zero_lchan\<lparr>lc_sapis := [1, 0, 0, 1, 0, 0, 0, 0]\<rparr>) 0 0) = (lc', []) \<and>
     lc_T3111 lc' = Some (T3111_expired, 2)"
proof -
  have "wf_lchan 0 (zero_lchan\<lparr>lc_sapis := [1, 0, 0, 1, 0, 0, 0, 0]\<rparr>)"
    by (simp add: wf_lchan_def zero_lchan_def wf_neigh_def zero_neigh_def list_all_length)
  from release_completes [OF this, where env = sample_env and reason = 0] show ?thesis
    by (auto simp: used_sapis_def sample_env_def sample_net_def numeral_2_eq_2)
qed

end
