(* ===== verification/Meas_Rep.thy ===== *)
theory Meas_Rep
  imports Gsm_Data Gsm_04_08_Utils
begin

text \<open>
  Averages over the measurement reports of a channel (\<^verbatim>\<open>src/libbsc/meas_rep.c\<close>). The reports are a
  ring of six; index arithmetic is that of \<^verbatim>\<open>unsigned int\<close>, kept at 32 bits. The lemmas relate the
  ring to the sequence of reports written to it: for windows no longer than the ring, an average
  and a threshold test see exactly the last reports.
\<close>

section \<open>Operations\<close>

datatype meas_rep_field =
    MEAS_REP_DL_RXLEV_FULL | MEAS_REP_DL_RXLEV_SUB | MEAS_REP_DL_RXQUAL_FULL | MEAS_REP_DL_RXQUAL_SUB
  | MEAS_REP_UL_RXLEV_FULL | MEAS_REP_UL_RXLEV_SUB | MEAS_REP_UL_RXQUAL_FULL | MEAS_REP_UL_RXQUAL_SUB

definition get_field :: "gsm_meas_rep \<Rightarrow> meas_rep_field \<Rightarrow> int" where
  "get_field rep field =
     (case field of
        MEAS_REP_DL_RXLEV_FULL \<Rightarrow> uint (rx_lev (mru_full (mr_dl rep)))
      | MEAS_REP_DL_RXLEV_SUB \<Rightarrow> uint (rx_lev (mru_sub (mr_dl rep)))
      | MEAS_REP_DL_RXQUAL_FULL \<Rightarrow> uint (rx_qual (mru_full (mr_dl rep)))
      | MEAS_REP_DL_RXQUAL_SUB \<Rightarrow> uint (rx_qual (mru_sub (mr_dl rep)))
      | MEAS_REP_UL_RXLEV_FULL \<Rightarrow> uint (rx_lev (mru_full (mr_ul rep)))
      | MEAS_REP_UL_RXLEV_SUB \<Rightarrow> uint (rx_lev (mru_sub (mr_ul rep)))
      | MEAS_REP_UL_RXQUAL_FULL \<Rightarrow> uint (rx_qual (mru_full (mr_ul rep)))
      | MEAS_REP_UL_RXQUAL_SUB \<Rightarrow> uint (rx_qual (mru_sub (mr_ul rep))))"

text \<open>\<open>offs\<close> is the difference read as a signed number; the sum wraps around at 32 bits.\<close>

definition calc_initial_idx :: "u32 \<Rightarrow> u32 \<Rightarrow> u32 \<Rightarrow> u32" where
  "calc_initial_idx array_size meas_rep_idx num_values =
     (let offs = meas_rep_idx - num_values
      in if sint offs < 0 then array_size + offs else offs)"

text \<open>The slots the loops visit: \<^verbatim>\<open>(idx + i) % array_size\<close> for \<open>i\<close> below \<open>num\<close>.\<close>

definition ring_window :: "nat \<Rightarrow> u32 \<Rightarrow> nat \<Rightarrow> nat list" where
  "ring_window array_size idx num = map (\<lambda>i. unat ((idx + of_nat i) mod of_nat array_size)) [0..<num]"

definition get_meas_rep_avg :: "gsm_lchan \<Rightarrow> meas_rep_field \<Rightarrow> nat \<Rightarrow> int" where
  "get_meas_rep_avg lc field num =
     (if num < 1 then 0
      else
        (let n = length (lc_meas_rep lc);
             idx = calc_initial_idx (of_nat n) (of_int (lc_meas_rep_idx lc)) (of_nat num)
         in sum_list (map (\<lambda>j. get_field (lc_meas_rep lc ! j) field) (ring_window n idx num)) div int num))"

text \<open>The loop with its early return.\<close>

fun n_out_of_m_loop :: "int \<Rightarrow> nat \<Rightarrow> nat \<Rightarrow> int list \<Rightarrow> bool" where
  "n_out_of_m_loop be n count [] = False"
| "n_out_of_m_loop be n count (v # vs) =
     (let count' = (if v \<ge> be then count + 1 else count)
      in if count' \<ge> n then True else n_out_of_m_loop be n count' vs)"

definition meas_rep_n_out_of_m_be :: "gsm_lchan \<Rightarrow> meas_rep_field \<Rightarrow> nat \<Rightarrow> nat \<Rightarrow> int \<Rightarrow> bool" where
  "meas_rep_n_out_of_m_be lc field n m be =
     (let sz = length (lc_meas_rep lc);
          idx = calc_initial_idx (of_nat sz) (of_int (lc_meas_rep_idx lc)) (of_nat m)
      in n_out_of_m_loop be n 0 (map (\<lambda>j. get_field (lc_meas_rep lc ! j) field) (ring_window sz idx m)))"

section \<open>The window of a ring\<close>

lemma unat_of_nat_small: "n < 2 ^ 32 \<Longrightarrow> unat (of_nat n :: u32) = n"
  by (simp add: unsigned_of_nat take_bit_eq_mod)

lemma sint_u32_small: "- (2 ^ 31) \<le> x \<Longrightarrow> x < 2 ^ 31 \<Longrightarrow> sint (of_int x :: u32) = x"
  by (simp add: sint_sbintrunc' signed_take_bit_int_eq_self)

lemma calc_initial_idx_eq:
  assumes "num \<le> sz" "i < sz" "sz < 2 ^ 31"
  shows "calc_initial_idx (of_nat sz) (of_nat i) (of_nat num) =
    of_nat (if i < num then sz + i - num else i - num)"
proof -
  have e: "(of_nat i :: u32) - of_nat num = of_int (int i - int num)" by simp
  have s: "sint ((of_nat i :: u32) - of_nat num) = int i - int num"
    unfolding e using assms by (intro sint_u32_small) auto
  show ?thesis
  proof (cases "i < num")
    case True
    have "of_nat sz + ((of_nat i :: u32) - of_nat num) = of_nat (sz + i - num)"
      using assms by (simp add: of_nat_diff)
    with True s show ?thesis by (simp add: calc_initial_idx_def)
  next
    case False
    with s show ?thesis by (simp add: calc_initial_idx_def of_nat_diff)
  qed
qed

lemma ring_window_eq:
  assumes "num \<le> sz" "i < sz" "sz < 2 ^ 31"
  shows "ring_window sz (calc_initial_idx (of_nat sz) (of_nat i) (of_nat num)) num =
    map (\<lambda>k. (i + sz - num + k) mod sz) [0..<num]"
proof -
  have "unat ((calc_initial_idx (of_nat sz) (of_nat i) (of_nat num) + of_nat k) mod of_nat sz) =
      (i + sz - num + k) mod sz" if "k < num" for k
  proof -
    let ?a = "(if i < num then sz + i - num else i - num) + k"
    have "?a < 2 ^ 32" using assms that by auto
    then have "unat ((of_nat ?a :: u32) mod of_nat sz) = ?a mod sz"
      using assms by (simp add: unat_mod unat_of_nat_small del: of_nat_add)
    moreover have "?a mod sz = (i + sz - num + k) mod sz"
    proof (cases "i < num")
      case False
      then have "i + sz - num + k = (i - num + k) + sz" by simp
      then have "(i + sz - num + k) mod sz = (i - num + k) mod sz" by (simp only: mod_add_self2)
      with False show ?thesis by simp
    qed (simp add: add.commute)
    ultimately show ?thesis by (simp add: calc_initial_idx_eq [OF assms])
  qed
  then show ?thesis by (simp add: ring_window_def)
qed

lemma n_out_of_m_loop_count:
  "n_out_of_m_loop be n count vs \<longleftrightarrow> vs \<noteq> [] \<and> n \<le> count + length (filter (\<lambda>v. v \<ge> be) vs) \<or>
     vs \<noteq> [] \<and> n \<le> count"
  by (induction vs arbitrary: count) (auto simp: Let_def)

section \<open>The ring and the history of reports\<close>

text \<open>A report arrives: it is put into the slot that \<^verbatim>\<open>lchan_next_meas_rep\<close> hands out.\<close>

definition record_report :: "gsm_lchan \<Rightarrow> gsm_meas_rep \<Rightarrow> gsm_lchan" where
  "record_report lc m =
     (case lchan_next_meas_rep lc of (lc', i) \<Rightarrow> lc'\<lparr>lc_meas_rep := (lc_meas_rep lc')[i := m]\<rparr>)"

lemma record_report_fields:
  assumes "wf_lchan s lc"
  shows "lc_meas_rep (record_report lc m) = (lc_meas_rep lc)[nat (lc_meas_rep_idx lc) := m]"
    and "nat (lc_meas_rep_idx (record_report lc m)) = Suc (nat (lc_meas_rep_idx lc)) mod 6"
    and "wf_lchan s (record_report lc m)"
  using assms
  by (auto simp: record_report_def lchan_next_meas_rep_def Let_def wf_lchan_def nat_mod_distrib nat_add_distrib)

lemma record_reports_wf: "wf_lchan s lc \<Longrightarrow> wf_lchan s (foldl record_report lc ms)"
  by (induction ms arbitrary: lc) (auto intro: record_report_fields(3))

lemma ring_holds:
  assumes "wf_lchan s lc" "k < length ms" "k < 6"
  shows "lc_meas_rep (foldl record_report lc ms) !
           ((nat (lc_meas_rep_idx (foldl record_report lc ms)) + 5 - k) mod 6) = rev ms ! k"
  using assms(2,3)
proof (induction ms arbitrary: k rule: rev_induct)
  case (snoc m ms)
  define l where "l = foldl record_report lc ms"
  define i where "i = nat (lc_meas_rep_idx l)"
  have wf: "wf_lchan s l" unfolding l_def by (rule record_reports_wf [OF assms(1)])
  then have i: "i < 6" and len: "length (lc_meas_rep l) = 6" by (auto simp: wf_lchan_def i_def)
  note f = record_report_fields [OF wf, of m, folded i_def]
  show ?case
  proof (cases k)
    case 0
    have "(Suc i mod 6 + 5) mod 6 = i" using i by presburger
    with 0 i len show ?thesis by (simp add: l_def [symmetric] f)
  next
    case (Suc k')
    with snoc.prems have k5: "k' < 5" and k6: "k' < 6" by auto
    from Suc snoc have IH: "lc_meas_rep l ! ((i + 5 - k') mod 6) = rev ms ! k'" by (simp add: l_def i_def)
    have "(Suc i mod 6 + 5 - Suc k') mod 6 = (i + 5 - k') mod 6" "(i + 5 - k') mod 6 \<noteq> i"
      by (cases rule: less6_cases [OF i]; cases rule: less6_cases [OF k6]; use k5 in simp)+
    with IH show ?thesis by (simp add: Suc l_def [symmetric] f)
  qed
qed simp

lemma window_is_last:
  assumes "wf_lchan s lc" "num \<le> length ms" "num \<le> 6"
  defines "l \<equiv> foldl record_report lc ms"
  shows "map (\<lambda>j. lc_meas_rep l ! j)
      (ring_window 6 (calc_initial_idx 6 (of_int (lc_meas_rep_idx l)) (of_nat num)) num) =
     drop (length ms - num) ms"
proof -
  have wf: "wf_lchan s l" unfolding l_def by (rule record_reports_wf [OF assms(1)])
  define i where "i = nat (lc_meas_rep_idx l)"
  from wf have i: "i < 6" and ii: "of_int (lc_meas_rep_idx l) = (of_nat i :: u32)"
    by (auto simp: wf_lchan_def i_def)
  have "lc_meas_rep l ! ((i + 6 - num + k) mod 6) = drop (length ms - num) ms ! k" if "k < num" for k
  proof -
    have "i + 6 - num + k = i + 5 - (num - 1 - k)" using that assms(3) by simp
    moreover have "rev ms ! (num - 1 - k) = ms ! (length ms - num + k)"
      using that assms(2) by (simp add: rev_nth Suc_diff_Suc)
    ultimately show ?thesis
      using ring_holds [OF assms(1), of "num - 1 - k" ms] that assms(2,3) by (simp add: l_def i_def)
  qed
  then show ?thesis
    using ring_window_eq [of num 6 i] assms(2,3) i
    by (intro nth_equalityI) (auto simp: ii)
qed

lemma window_fields:
  assumes "wf_lchan s lc" "num \<le> length ms" "num \<le> 6"
  defines "l \<equiv> foldl record_report lc ms"
  shows "map (\<lambda>j. get_field (lc_meas_rep l ! j) field) (ring_window (length (lc_meas_rep l))
       (calc_initial_idx (of_nat (length (lc_meas_rep l))) (of_int (lc_meas_rep_idx l)) (of_nat num)) num) =
     map (\<lambda>m. get_field m field) (drop (length ms - num) ms)"
proof -
  have "length (lc_meas_rep l) = 6"
    using record_reports_wf [OF assms(1), of ms] by (simp add: wf_lchan_def l_def)
  then show ?thesis
    using arg_cong [OF window_is_last [OF assms(1-3)], of "map (\<lambda>m. get_field m field)"]
    by (simp add: l_def comp_def)
qed

section \<open>Properties\<close>

text \<open>After at least \<open>num\<close> reports were written to the ring (\<open>num\<close> between 1 and its size of 6), the
  average of a field over a window of \<open>num\<close> is the mean of that field in the last \<open>num\<close> reports.\<close>

theorem meas_rep_avg_last:
  assumes "wf_lchan s lc" and "1 \<le> num" and "num \<le> 6" and "num \<le> length ms"
  shows "get_meas_rep_avg (foldl record_report lc ms) field num =
     sum_list (map (\<lambda>m. get_field m field) (drop (length ms - num) ms)) div int num"
  using window_fields [OF assms(1,4,3), of field] assms(2) by (simp add: get_meas_rep_avg_def Let_def)

theorem meas_rep_avg_last_witness:
  "get_meas_rep_avg (foldl record_report (init_lchan 0 zero_lchan) (replicate 7 zero_meas_rep)) MEAS_REP_DL_RXLEV_FULL 3 = 0"
  using meas_rep_avg_last [OF wf_init_lchan, of 3 "replicate 7 zero_meas_rep" 0 MEAS_REP_DL_RXLEV_FULL]
  by (simp add: get_field_def zero_meas_rep_def zero_lev_qual_def sum_list_replicate)

text \<open>The test whether \<open>n\<close> of the last \<open>m\<close> reports reach a threshold, which stops counting early,
  is the comparison of \<open>n\<close> with the number of those reports.\<close>

theorem n_out_of_m_last:
  assumes "wf_lchan s lc" and "1 \<le> m" and "m \<le> 6" and "m \<le> length ms"
  shows "meas_rep_n_out_of_m_be (foldl record_report lc ms) field n m be \<longleftrightarrow>
     n \<le> length (filter (\<lambda>r. be \<le> get_field r field) (drop (length ms - m) ms))"
proof -
  have "drop (length ms - m) ms \<noteq> []" using assms(2,4) by simp
  then have ne: "map (\<lambda>r. get_field r field) (drop (length ms - m) ms) \<noteq> []" by simp
  have "meas_rep_n_out_of_m_be (foldl record_report lc ms) field n m be \<longleftrightarrow>
      n_out_of_m_loop be n 0 (map (\<lambda>r. get_field r field) (drop (length ms - m) ms))"
    unfolding meas_rep_n_out_of_m_be_def Let_def window_fields [OF assms(1,4,3), of field] ..
  with ne show ?thesis
    by (simp only: n_out_of_m_loop_count) (auto simp: filter_map comp_def)
qed

theorem n_out_of_m_last_witness:
  "\<not> meas_rep_n_out_of_m_be (foldl record_report (init_lchan 0 zero_lchan) (replicate 4 zero_meas_rep)) MEAS_REP_DL_RXQUAL_FULL 3 4 5"
  using n_out_of_m_last [OF wf_init_lchan, of 4 "replicate 4 zero_meas_rep" 0 MEAS_REP_DL_RXQUAL_FULL 3 5]
  by (simp add: get_field_def zero_meas_rep_def zero_lev_qual_def sum_list_replicate)

text \<open>A window longer than the ring is read wrongly: with the default window of 10 reports the
  start index wraps around at 32 bits and the ten reads visit the slots 0 to 3, then 0 to 5 again,
  while a ring read backwards from the index would start at slot 2.\<close>

theorem default_window_wraps:
  "ring_window 6 (calc_initial_idx 6 0 10) 10 = [0, 1, 2, 3, 0, 1, 2, 3, 4, 5]"
  by code_simp

end
