(* ===== verification/Handover_Decision.thy ===== *)
theory Handover_Decision
  imports Meas_Rep
begin

unbundle bit_operations_syntax

text \<open>
  The handover decision (\<^verbatim>\<open>src/libbsc/handover_decision.c\<close>): a measurement report updates the table of
  neighbour cells of the channel, and the averages decide whether a handover is attempted and to
  which cell. The decision is a value; starting the handover is the business of the handover logic.
  \<^verbatim>\<open>rxlev2dbm\<close> (libosmocore) is a parameter.
\<close>

section \<open>Operations\<close>

abbreviation (input) MRC_F_PROCESSED :: u32 where "MRC_F_PROCESSED \<equiv> 0x0001"

record ho_config =
  ho_active :: bool
  ho_win_rxlev_avg :: nat
  ho_win_rxlev_avg_neigh :: nat
  ho_pwr_interval :: nat
  ho_pwr_hysteresis :: int
  ho_max_distance :: nat

definition mark_processed :: "gsm_meas_rep_cell \<Rightarrow> gsm_meas_rep_cell" where
  "mark_processed mrc = mrc\<lparr>mrc_flags := mrc_flags mrc OR MRC_F_PROCESSED\<rparr>"

definition rxlev_for_cell_in_rep :: "gsm_meas_rep \<Rightarrow> u16 \<Rightarrow> u8 \<Rightarrow> gsm_meas_rep \<times> int" where
  "rxlev_for_cell_in_rep mr arfcn bsic =
     (case find_idx (\<lambda>mrc. mrc_arfcn mrc = arfcn \<and> mrc_bsic mrc = bsic)
             (take (nat (mr_num_cell mr)) (mr_cell mr)) of
        None \<Rightarrow> (mr, - ENODEV)
      | Some i \<Rightarrow> (mr\<lparr>mr_cell := upd_nth i mark_processed (mr_cell mr)\<rparr>, uint (mrc_rxlev (mr_cell mr ! i))))"

definition neigh_meas_avg :: "neigh_meas_proc \<Rightarrow> nat \<Rightarrow> int" where
  "neigh_meas_avg nmp window =
     (let n = length (nmp_rxlev nmp);
          idx = calc_initial_idx (of_nat n) (nmp_rxlev_cnt nmp mod of_nat n) (of_nat window)
      in c_div (sum_list (map (\<lambda>j. uint (nmp_rxlev nmp ! j)) (ring_window n idx window))) (int window))"

text \<open>The second loop of \<^verbatim>\<open>find_evict_neigh\<close> at slot \<open>j\<close>; \<open>worst\<close> is the slot found so far and its average.\<close>

fun evict_loop :: "nat \<Rightarrow> (nat \<times> int) option \<Rightarrow> neigh_meas_proc list \<Rightarrow> nat option" where
  "evict_loop j worst [] = map_option fst worst"
| "evict_loop j worst (nmp # nmps) =
     (let avg = neigh_meas_avg nmp MAX_WIN_NEIGH_AVG
      in case worst of
           None \<Rightarrow> evict_loop (Suc j) (Some (j, avg)) nmps
         | Some (k, w) \<Rightarrow> if avg < w then evict_loop (Suc j) (Some (j, avg)) nmps
                         else evict_loop (Suc j) worst nmps)"

definition find_evict_neigh :: "gsm_lchan \<Rightarrow> nat option" where
  "find_evict_neigh lc =
     (case find_idx (\<lambda>nmp. nmp_arfcn nmp = 0) (lc_neigh_meas lc) of
        Some j \<Rightarrow> Some j
      | None \<Rightarrow> evict_loop 0 None (lc_neigh_meas lc))"

definition add_rxlev :: "u8 \<Rightarrow> neigh_meas_proc \<Rightarrow> neigh_meas_proc" where
  "add_rxlev lev nmp =
     nmp\<lparr>nmp_rxlev := (nmp_rxlev nmp)[unat (nmp_rxlev_cnt nmp mod of_nat (length (nmp_rxlev nmp))) := lev],
         nmp_rxlev_cnt := nmp_rxlev_cnt nmp + 1\<rparr>"

text \<open>The first loop of \<^verbatim>\<open>process_meas_neigh\<close>: the neighbours already in the table.\<close>

fun update_known :: "gsm_meas_rep \<Rightarrow> neigh_meas_proc list \<Rightarrow> gsm_meas_rep \<times> neigh_meas_proc list" where
  "update_known mr [] = (mr, [])"
| "update_known mr (nmp # nmps) =
     (if nmp_arfcn nmp = 0
      then (case update_known mr nmps of (mr', nmps') \<Rightarrow> (mr', nmp # nmps'))
      else
        (case rxlev_for_cell_in_rep mr (nmp_arfcn nmp) (nmp_bsic nmp) of (mr1, rxlev) \<Rightarrow>
           (let nmp' = (if rxlev \<ge> 0
                        then (add_rxlev (of_int rxlev) nmp)\<lparr>nmp_last_seen_nr := mr_nr mr\<rparr>
                        else add_rxlev 0 nmp)
            in case update_known mr1 nmps of (mr', nmps') \<Rightarrow> (mr', nmp' # nmps'))))"

text \<open>The second loop: the cells of the report that were not processed yet, each into an empty or evicted slot.\<close>

fun add_unknown :: "nat list \<Rightarrow> gsm_meas_rep \<Rightarrow> gsm_lchan \<Rightarrow> gsm_meas_rep \<times> gsm_lchan" where
  "add_unknown [] mr lc = (mr, lc)"
| "add_unknown (i # is) mr lc =
     (let mrc = mr_cell mr ! i
      in if mrc_flags mrc AND MRC_F_PROCESSED \<noteq> 0 then add_unknown is mr lc
         else
           (case find_evict_neigh lc of
              None \<Rightarrow> (mr, lc)
            | Some j \<Rightarrow>
                (let fill = (\<lambda>nmp. (add_rxlev (mrc_rxlev mrc)
                                     (nmp\<lparr>nmp_arfcn := mrc_arfcn mrc, nmp_bsic := mrc_bsic mrc\<rparr>))
                                     \<lparr>nmp_last_seen_nr := mr_nr mr\<rparr>)
                 in add_unknown is (mr\<lparr>mr_cell := upd_nth i mark_processed (mr_cell mr)\<rparr>)
                      (lc\<lparr>lc_neigh_meas := upd_nth j fill (lc_neigh_meas lc)\<rparr>))))"

definition process_meas_neigh :: "gsm_meas_rep \<Rightarrow> gsm_lchan \<Rightarrow> gsm_meas_rep \<times> gsm_lchan" where
  "process_meas_neigh mr lc =
     (case update_known mr (lc_neigh_meas lc) of (mr1, nmps) \<Rightarrow>
        add_unknown [0..<nat (mr_num_cell mr)] mr1 (lc\<lparr>lc_neigh_meas := nmps\<rparr>))"

datatype ho_decision = HO_none | HO_disabled | HO_start u16 u8

text \<open>
  The loop of \<^verbatim>\<open>attempt_handover\<close>: the best cell so far and by how much it is better. The comparison
  with the hysteresis is unsigned in the code; both sides are not negative.
\<close>

fun best_cell_loop ::
    "ho_config \<Rightarrow> int \<Rightarrow> neigh_meas_proc option \<Rightarrow> int \<Rightarrow> neigh_meas_proc list \<Rightarrow> neigh_meas_proc option" where
  "best_cell_loop cfg lev best db [] = best"
| "best_cell_loop cfg lev best db (nmp # nmps) =
     (if nmp_arfcn nmp = 0 then best_cell_loop cfg lev best db nmps
      else
        (let avg = neigh_meas_avg nmp (ho_win_rxlev_avg_neigh cfg)
         in if avg < lev + ho_pwr_hysteresis cfg then best_cell_loop cfg lev best db nmps
            else if avg - lev > db then best_cell_loop cfg lev (Some nmp) (avg - lev) nmps
            else best_cell_loop cfg lev best db nmps))"

definition attempt_handover :: "ho_config \<Rightarrow> gsm_meas_rep \<Rightarrow> gsm_lchan \<Rightarrow> ho_decision" where
  "attempt_handover cfg mr lc =
     (case best_cell_loop cfg (uint (rx_lev (mru_full (mr_dl mr)))) None 0 (lc_neigh_meas lc) of
        None \<Rightarrow> HO_none
      | Some nmp \<Rightarrow> if \<not> ho_active cfg then HO_disabled else HO_start (nmp_arfcn nmp) (nmp_bsic nmp))"

definition process_meas_rep ::
    "(int \<Rightarrow> int) \<Rightarrow> ho_config \<Rightarrow> gsm_meas_rep \<Rightarrow> gsm_lchan \<Rightarrow> gsm_meas_rep \<times> gsm_lchan \<times> ho_decision" where
  "process_meas_rep rxlev2dbm cfg mr lc =
     (if lc_type lc \<noteq> GSM_LCHAN_TCH_F \<and> lc_type lc \<noteq> GSM_LCHAN_TCH_H then (mr, lc, HO_none)
      else
        (let (mr1, lc1) = (if 0 < mr_num_cell mr \<and> mr_num_cell mr < 7 then process_meas_neigh mr lc else (mr, lc));
             av_rxlev = get_meas_rep_avg lc1 MEAS_REP_DL_RXLEV_FULL (ho_win_rxlev_avg cfg);
             bad_quality = meas_rep_n_out_of_m_be lc1 MEAS_REP_DL_RXQUAL_FULL 3 4 5
         in if rxlev2dbm av_rxlev > -85 \<and> bad_quality then (mr1, lc1, attempt_handover cfg mr1 lc1)
            else if bad_quality then (mr1, lc1, attempt_handover cfg mr1 lc1)
            else if rxlev2dbm av_rxlev \<le> -110 then (mr1, lc1, attempt_handover cfg mr1 lc1)
            else if unat (mr_ms_l1_ta mr1) > ho_max_distance cfg then (mr1, lc1, attempt_handover cfg mr1 lc1)
            else if unat (mr_nr mr1) mod ho_pwr_interval cfg = 0 then (mr1, lc1, attempt_handover cfg mr1 lc1)
            else (mr1, lc1, HO_none)))"

text \<open>The station a neighbour report denotes: the first one with this frequency and colour code.\<close>

definition gsm_bts_neighbor :: "gsm_bts list \<Rightarrow> u16 \<Rightarrow> u8 \<Rightarrow> nat option" where
  "gsm_bts_neighbor btss arfcn bsic =
     find_idx (\<lambda>b. trx_arfcn (the_trx b (bts_c0 b)) = arfcn \<and> bts_bsic b = bsic) btss"

section \<open>Eviction\<close>

lemma evict_loop_least:
  "\<exists>r v. evict_loop j (Some (k, w)) ns = Some r \<and>
     (r, v) \<in> set ((k, w) # zip [j..<j + length ns] (map (\<lambda>n. neigh_meas_avg n MAX_WIN_NEIGH_AVG) ns)) \<and>
     (\<forall>(i, x) \<in> set ((k, w) # zip [j..<j + length ns] (map (\<lambda>n. neigh_meas_avg n MAX_WIN_NEIGH_AVG) ns)). v \<le> x)"
proof (induction ns arbitrary: j k w)
  case (Cons n ns)
  let ?a = "\<lambda>n. neigh_meas_avg n MAX_WIN_NEIGH_AVG"
  have z: "zip [j..<j + length (n # ns)] (map ?a (n # ns)) = (j, ?a n) # zip [Suc j..<Suc j + length ns] (map ?a ns)"
    by (simp add: upt_conv_Cons del: upt_Suc)
  show ?case
  proof (cases "?a n < w")
    case True
    from Cons.IH [of "Suc j" j "?a n"] obtain r v where
      "evict_loop (Suc j) (Some (j, ?a n)) ns = Some r"
      "(r, v) \<in> set ((j, ?a n) # zip [Suc j..<Suc j + length ns] (map ?a ns))"
      "\<forall>(i, x) \<in> set ((j, ?a n) # zip [Suc j..<Suc j + length ns] (map ?a ns)). v \<le> x" by blast
    with True show ?thesis unfolding z by (intro exI [of _ r] exI [of _ v]) auto
  next
    case False
    from Cons.IH [of "Suc j" k w] obtain r v where
      "evict_loop (Suc j) (Some (k, w)) ns = Some r"
      "(r, v) \<in> set ((k, w) # zip [Suc j..<Suc j + length ns] (map ?a ns))"
      "\<forall>(i, x) \<in> set ((k, w) # zip [Suc j..<Suc j + length ns] (map ?a ns)). v \<le> x" by blast
    with False show ?thesis unfolding z by (intro exI [of _ r] exI [of _ v]) auto
  qed
qed simp

lemma evict_loop_spec:
  assumes "ns \<noteq> []"
  shows "\<exists>r < length ns. evict_loop 0 None ns = Some r \<and>
     (\<forall>i < length ns. neigh_meas_avg (ns ! r) MAX_WIN_NEIGH_AVG \<le> neigh_meas_avg (ns ! i) MAX_WIN_NEIGH_AVG)"
proof -
  let ?a = "\<lambda>n. neigh_meas_avg n MAX_WIN_NEIGH_AVG"
  obtain n ns' where ns: "ns = n # ns'" using assms by (cases ns) auto
  have z: "(0, ?a n) # zip [1..<1 + length ns'] (map ?a ns') = zip [0..<length ns] (map ?a ns)"
    by (simp add: ns upt_conv_Cons del: upt_Suc)
  have mem: "(i, x) \<in> set (zip [0..<length ns] (map ?a ns)) \<longleftrightarrow> i < length ns \<and> x = ?a (ns ! i)" for i x
    by (auto simp: set_zip intro!: exI [of _ i])
  from evict_loop_least [of 1 0 "?a n" ns'] obtain r v where
    "evict_loop 1 (Some (0, ?a n)) ns' = Some r" "(r, v) \<in> set (zip [0..<length ns] (map ?a ns))"
    "\<forall>(i, x) \<in> set (zip [0..<length ns] (map ?a ns)). v \<le> x"
    unfolding z by blast
  moreover have "evict_loop 0 None ns = evict_loop 1 (Some (0, ?a n)) ns'" by (simp add: ns)
  moreover from calculation(2) have "r < length ns" "v = ?a (ns ! r)" by (simp_all only: mem)
  moreover from calculation(3) have "v \<le> ?a (ns ! i)" if "i < length ns" for i using that mem by fastforce
  ultimately show ?thesis by auto
qed

section \<open>The best cell\<close>

definition eligible :: "ho_config \<Rightarrow> int \<Rightarrow> neigh_meas_proc \<Rightarrow> bool" where
  "eligible cfg lev nmp \<longleftrightarrow>
     nmp_arfcn nmp \<noteq> 0 \<and> lev + ho_pwr_hysteresis cfg \<le> neigh_meas_avg nmp (ho_win_rxlev_avg_neigh cfg)"

abbreviation gain :: "ho_config \<Rightarrow> int \<Rightarrow> neigh_meas_proc \<Rightarrow> int" where
  "gain cfg lev nmp \<equiv> neigh_meas_avg nmp (ho_win_rxlev_avg_neigh cfg) - lev"

lemma best_cell_loop_cases:
  "(best_cell_loop cfg lev best db nmps = best \<and> (\<forall>n \<in> set nmps. eligible cfg lev n \<longrightarrow> gain cfg lev n \<le> db)) \<or>
   (\<exists>b \<in> set nmps. best_cell_loop cfg lev best db nmps = Some b \<and> eligible cfg lev b \<and> db < gain cfg lev b \<and>
      (\<forall>n \<in> set nmps. eligible cfg lev n \<longrightarrow> gain cfg lev n \<le> gain cfg lev b))"
proof (induction nmps arbitrary: best db)
  case (Cons n ns)
  show ?case
  proof (cases "eligible cfg lev n \<and> db < gain cfg lev n")
    case True
    then have "best_cell_loop cfg lev best db (n # ns) = best_cell_loop cfg lev (Some n) (gain cfg lev n) ns"
      by (auto simp: eligible_def Let_def)
    with Cons.IH [of "Some n" "gain cfg lev n"] True show ?thesis by force
  next
    case False
    then have "best_cell_loop cfg lev best db (n # ns) = best_cell_loop cfg lev best db ns"
      by (auto simp: eligible_def Let_def)
    with Cons.IH [of best db] False show ?thesis by (force simp del: best_cell_loop.simps)
  qed
qed simp

section \<open>Properties\<close>



text \<open>A new neighbour goes into an empty slot of the table when there is one, and otherwise into a
  slot whose cell has the lowest average; the search always finds a slot.\<close>

theorem find_evict_neigh_spec:
  assumes "wf_lchan s lc"
  shows "\<exists>j < MAX_NEIGH_MEAS. find_evict_neigh lc = Some j \<and>
     (nmp_arfcn (lc_neigh_meas lc ! j) = 0 \<or>
      (\<forall>i < MAX_NEIGH_MEAS. nmp_arfcn (lc_neigh_meas lc ! i) \<noteq> 0 \<and>
         neigh_meas_avg (lc_neigh_meas lc ! j) MAX_WIN_NEIGH_AVG \<le> neigh_meas_avg (lc_neigh_meas lc ! i) MAX_WIN_NEIGH_AVG))"
proof (cases "find_idx (\<lambda>nmp. nmp_arfcn nmp = 0) (lc_neigh_meas lc)")
  case None
  have "length (lc_neigh_meas lc) = MAX_NEIGH_MEAS" using assms by (simp add: wf_lchan_def)
  moreover from this have "lc_neigh_meas lc \<noteq> []" by auto
  moreover have "find_evict_neigh lc = evict_loop 0 None (lc_neigh_meas lc)" using None by (simp add: find_evict_neigh_def)
  ultimately show ?thesis
    using evict_loop_spec [of "lc_neigh_meas lc"] None by (auto simp: find_idx_None_iff)
next
  case (Some j)
  with find_idx_SomeD [OF Some] assms show ?thesis
    by (auto simp: find_evict_neigh_def wf_lchan_def)
qed

theorem find_evict_neigh_spec_witness:
  "\<exists>j < MAX_NEIGH_MEAS. find_evict_neigh (init_lchan 0 zero_lchan) = Some j"
  using find_evict_neigh_spec [OF wf_init_lchan] by blast

end
