(* ===== verification/Bsc_Net.thy ===== *)
theory Bsc_Net
  imports Abis_Rsl Handover_Decision
begin

unbundle bit_operations_syntax

text \<open>
  Subscriber connections over all stations: the BSC API (\<^verbatim>\<open>src/libbsc/bsc_api.c\<close>) and the handover
  logic (\<^verbatim>\<open>src/libbsc/handover_logic.c\<close>). A connection holds up to three channels (primary, secondary
  during an assignment, handover target) and every channel points back to its connection; a
  handover record names the old and the new channel. The state is explicit, \<open>None\<close> as the result of
  an operation is an access through a \<^verbatim>\<open>NULL\<close> pointer. The lemmas show that the pointers stay
  consistent and that the accesses are safe while they are.
\<close>

section \<open>State\<close>

type_synonym net_lchan = "nat \<times> lchan_ptr"

record subscr_conn =
  cn_lchan :: "net_lchan option"
  cn_ho_lchan :: "net_lchan option"
  cn_secondary_lchan :: "net_lchan option"
  cn_bts :: "nat option"
  cn_T10 :: bool

record bsc_handover =
  ho_old_lchan :: net_lchan
  ho_new_lchan :: net_lchan
  ho_T3103 :: bool
  ho_ref :: u8

record bsc_net =
  bn_bts :: "gsm_bts list"
  bn_conns :: "nat \<Rightarrow> subscr_conn option"
  bn_hos :: "bsc_handover list"
  bn_ho_ref :: u8

text \<open>Messages to the BTS of a channel and calls into the layer above, with the connection.\<close>

datatype net_event =
    NE_lchan net_lchan bsc_event
  | NE_assign_fail nat u8 "u8 option" | NE_assign_compl nat u8 u8 u8 u8
  | NE_cipher_mode_compl nat u8 | NE_dtap nat u8 | NE_compl_l3 nat
  | NE_clear_request nat | NE_ipacc_crcx net_lchan
  | NE_ass_cmd net_lchan net_lchan u8 | NE_ho_cmd net_lchan net_lchan u8

definition net_lc :: "bsc_net \<Rightarrow> net_lchan \<Rightarrow> gsm_lchan" where
  "net_lc n p = the_lchan (bn_bts n ! fst p) (snd p)"

definition upd_lc :: "net_lchan \<Rightarrow> (gsm_lchan \<Rightarrow> gsm_lchan) \<Rightarrow> bsc_net \<Rightarrow> bsc_net" where
  "upd_lc p f n = n\<lparr>bn_bts := upd_nth (fst p) (upd_lchan (snd p) f) (bn_bts n)\<rparr>"

definition upd_conn :: "nat \<Rightarrow> (subscr_conn \<Rightarrow> subscr_conn) \<Rightarrow> bsc_net \<Rightarrow> bsc_net" where
  "upd_conn c f n = n\<lparr>bn_conns := (bn_conns n)(c := map_option f (bn_conns n c))\<rparr>"

definition valid_lc :: "bsc_net \<Rightarrow> net_lchan \<Rightarrow> bool" where
  "valid_lc n p \<longleftrightarrow> fst p < length (bn_bts n) \<and> valid_lchan (bn_bts n ! fst p) (snd p)"

section \<open>Octets for the MSC\<close>

definition lchan_to_chosen_channel :: "gsm_lchan \<Rightarrow> u8" where
  "lchan_to_chosen_channel lc =
     (let channel_mode = (case lc_tch_mode lc of
                GSM48_CMODE_SPEECH_V1 \<Rightarrow> 0x9 | GSM48_CMODE_SPEECH_EFR \<Rightarrow> 0x9 | GSM48_CMODE_SPEECH_AMR \<Rightarrow> 0x9
              | GSM48_CMODE_SIGN \<Rightarrow> 0x8 | GSM48_CMODE_DATA_14k5 \<Rightarrow> 0xe | GSM48_CMODE_DATA_12k0 \<Rightarrow> 0xb
              | GSM48_CMODE_DATA_6k0 \<Rightarrow> 0xc | GSM48_CMODE_DATA_3k6 \<Rightarrow> 0xd | _ \<Rightarrow> (0 :: u8));
          channel = (case lc_type lc of
                GSM_LCHAN_NONE \<Rightarrow> 0x0 | GSM_LCHAN_SDCCH \<Rightarrow> 0x1 | GSM_LCHAN_TCH_F \<Rightarrow> 0x8
              | GSM_LCHAN_TCH_H \<Rightarrow> 0x9 | GSM_LCHAN_UNKNOWN \<Rightarrow> (0 :: u8))
      in push_bit 4 channel_mode OR channel)"

definition chan_mode_to_speech :: "gsm_lchan \<Rightarrow> u8" where
  "chan_mode_to_speech lc =
     (let finish = (\<lambda>mode. if lc_type lc = GSM_LCHAN_TCH_H \<or> lc_tch_mode lc = GSM48_CMODE_SPEECH_AMR
                           then mode OR 0x4 else mode)
      in case lc_tch_mode lc of
           GSM48_CMODE_SPEECH_V1 \<Rightarrow> finish 1
         | GSM48_CMODE_SPEECH_EFR \<Rightarrow> finish 0x11
         | GSM48_CMODE_SPEECH_AMR \<Rightarrow> finish 0x21
         | _ \<Rightarrow> 0)"

section \<open>Connections\<close>

definition set_conn_ptr :: "net_lchan \<Rightarrow> nat option \<Rightarrow> bsc_net \<Rightarrow> bsc_net" where
  "set_conn_ptr p c = upd_lc p (\<lambda>lc. lc\<lparr>lc_conn := c\<rparr>)"

definition clear_ptr :: "net_lchan option \<Rightarrow> bsc_net \<Rightarrow> bsc_net" where
  "clear_ptr po n = (case po of None \<Rightarrow> n | Some p \<Rightarrow> set_conn_ptr p None n)"

definition net_release :: "net_lchan \<Rightarrow> int \<Rightarrow> int \<Rightarrow> bsc_net \<Rightarrow> bsc_net \<times> net_event list" where
  "net_release p sach_deact reason n =
     (upd_lc p (\<lambda>lc. fst (lchan_release lc sach_deact reason)) n,
      map (NE_lchan p) (snd (lchan_release (net_lc n p) sach_deact reason)))"

definition opt_release :: "net_lchan option \<Rightarrow> int \<Rightarrow> int \<Rightarrow> bsc_net \<Rightarrow> bsc_net \<times> net_event list" where
  "opt_release po sach_deact reason n =
     (case po of None \<Rightarrow> (n, []) | Some p \<Rightarrow> net_release p sach_deact reason n)"

text \<open>\<open>c\<close> is the new connection, \<open>mem\<close> whether memory for it was available.\<close>

definition subscr_con_allocate :: "bool \<Rightarrow> nat \<Rightarrow> net_lchan \<Rightarrow> bsc_net \<Rightarrow> bsc_net option" where
  "subscr_con_allocate mem c p n =
     (if \<not> mem then None
      else Some (set_conn_ptr p (Some c)
             (n\<lparr>bn_conns := (bn_conns n)(c \<mapsto> \<lparr>cn_lchan = Some p, cn_ho_lchan = None, cn_secondary_lchan = None,
                                              cn_bts = Some (fst p), cn_T10 = False\<rparr>)\<rparr>)))"

definition subscr_con_free :: "nat \<Rightarrow> bsc_net \<Rightarrow> bsc_net" where
  "subscr_con_free c n =
     (case bn_conns n c of
        None \<Rightarrow> n
      | Some cn \<Rightarrow>
          (let n1 = clear_ptr (cn_ho_lchan cn) n;
               n2 = clear_ptr (cn_lchan cn) n1;
               n3 = clear_ptr (cn_secondary_lchan cn) n2
           in n3\<lparr>bn_conns := (bn_conns n3)(c := None)\<rparr>))"

section \<open>Handover records\<close>

definition bsc_ho_by_new_lchan :: "bsc_net \<Rightarrow> net_lchan \<Rightarrow> bsc_handover option" where
  "bsc_ho_by_new_lchan n p = find (\<lambda>ho. ho_new_lchan ho = p) (bn_hos n)"

definition bsc_ho_by_old_lchan :: "bsc_net \<Rightarrow> net_lchan \<Rightarrow> bsc_handover option" where
  "bsc_ho_by_old_lchan n p = find (\<lambda>ho. ho_old_lchan ho = p) (bn_hos n)"

definition del_ho :: "bsc_handover \<Rightarrow> bsc_net \<Rightarrow> bsc_net" where
  "del_ho ho n = n\<lparr>bn_hos := remove1 ho (bn_hos n)\<rparr>"

definition bsc_clear_handover :: "nat \<Rightarrow> bool \<Rightarrow> bsc_net \<Rightarrow> bsc_net \<times> net_event list" where
  "bsc_clear_handover c free_lchan n =
     (case bn_conns n c of
        None \<Rightarrow> (n, [])
      | Some cn \<Rightarrow>
          (case cn_ho_lchan cn of
             None \<Rightarrow> (n, [])
           | Some p \<Rightarrow>
               (case bsc_ho_by_new_lchan n p of
                  None \<Rightarrow> (n, [])
                | Some ho \<Rightarrow>
                    (let n1 = upd_conn c (\<lambda>cn. cn\<lparr>cn_ho_lchan := None\<rparr>) (set_conn_ptr p None n);
                         (n2, ev) = (if free_lchan then net_release (ho_new_lchan ho) 0 1 n1 else (n1, []))
                     in (del_ho ho n2, ev)))))"

text \<open>What a handover or an assignment copies from the old channel to the new one.\<close>

definition copy_params :: "gsm_lchan \<Rightarrow> gsm_lchan \<Rightarrow> gsm_lchan" where
  "copy_params old lc =
     lc\<lparr>lc_encr_alg_id := lc_encr_alg_id old, lc_encr_key_len := lc_encr_key_len old, lc_encr_key := lc_encr_key old,
        lc_ms_power := lc_ms_power old, lc_bs_power := lc_bs_power old\<rparr>"

definition activate_rc :: "rsl_env \<Rightarrow> bsc_net \<Rightarrow> net_lchan \<Rightarrow> rsl_act_type \<Rightarrow> u8 \<Rightarrow> int \<times> net_event list" where
  "activate_rc env n p act_type ref =
     (case rsl_chan_activate_lchan env (bn_bts n ! fst p) (snd p) act_type 0 ref of
        Inl rc \<Rightarrow> (rc, [])
      | Inr ies \<Rightarrow> (env_send_rc env, [NE_lchan p (Ev_rsl_chan_activ ies)]))"

definition net_free :: "rsl_env \<Rightarrow> net_lchan \<Rightarrow> bsc_net \<Rightarrow> bsc_net \<times> net_event list" where
  "net_free env p n =
     (upd_lc p (\<lambda>lc. fst (lchan_free (env_handler env) lc)) n,
      map (NE_lchan p) (snd (lchan_free (env_handler env) (net_lc n p))))"

definition bsc_handover_start ::
    "rsl_env \<Rightarrow> bool \<Rightarrow> net_lchan \<Rightarrow> nat \<Rightarrow> bsc_net \<Rightarrow> bsc_net \<times> net_event list \<times> int" where
  "bsc_handover_start env mem old b n =
     (if bsc_ho_by_old_lchan n old \<noteq> None then (n, [], - EBUSY)
      else
        (case lc_conn (net_lc n old) of
           None \<Rightarrow> (n, [], - ENOSPC)
         | Some c \<Rightarrow>
             (case lchan_alloc (bn_bts n ! b) (lc_type (net_lc n old)) False of
                (bts', None, ev) \<Rightarrow> (n\<lparr>bn_bts := (bn_bts n)[b := bts']\<rparr>, map (NE_lchan (b, 0, 0, 0)) ev, - ENOSPC)
              | (bts', Some p, ev) \<Rightarrow>
                  (let new = (b, p);
                       ev0 = map (NE_lchan new) ev;
                       n1 = n\<lparr>bn_bts := (bn_bts n)[b := bts']\<rparr>
                   in if \<not> mem then (case net_free env new n1 of (n2, ev1) \<Rightarrow> (n2, ev0 @ ev1, - ENOMEM))
                      else
                        (let ho = \<lparr>ho_old_lchan = old, ho_new_lchan = new, ho_T3103 = False, ho_ref = bn_ho_ref n\<rparr>;
                             o_lc = net_lc n1 old;
                             n2 = upd_lc new (\<lambda>lc. (copy_params o_lc lc)
                                      \<lparr>lc_rsl_cmode := lc_rsl_cmode o_lc, lc_tch_mode := lc_tch_mode o_lc,
                                       lc_conn := Some c\<rparr>)
                                    (n1\<lparr>bn_ho_ref := bn_ho_ref n + 1\<rparr>);
                             n3 = upd_conn c (\<lambda>cn. cn\<lparr>cn_ho_lchan := Some new\<rparr>) n2
                         in case activate_rc env n3 new RSL_ACT_INTER_ASYNC (ho_ref ho) of
                              (rc, ev1) \<Rightarrow>
                                if rc < 0
                                then (case net_free env new (set_conn_ptr new None
                                             (upd_conn c (\<lambda>cn. cn\<lparr>cn_ho_lchan := None\<rparr>) n3)) of
                                        (n4, ev2) \<Rightarrow> (n4, ev0 @ ev1 @ ev2, rc))
                                else ((upd_lc new (rsl_lchan_set_state LCHAN_S_ACT_REQ) n3)
                                        \<lparr>bn_hos := ho # bn_hos n3\<rparr>, ev0 @ ev1, 0))))))"

text \<open>
  The handlers of the handover. Where the code follows \<^verbatim>\<open>new_lchan->conn\<close> without a test, a missing
  connection is \<open>None\<close>.
\<close>

definition ho_T3103_cb :: "bsc_handover \<Rightarrow> bsc_net \<Rightarrow> (bsc_net \<times> net_event list) option" where
  "ho_T3103_cb ho n =
     (case lc_conn (net_lc n (ho_new_lchan ho)) of
        None \<Rightarrow> None
      | Some c \<Rightarrow>
          (let n1 = set_conn_ptr (ho_new_lchan ho) None (upd_conn c (\<lambda>cn. cn\<lparr>cn_ho_lchan := None\<rparr>) n);
               (n2, ev) = net_release (ho_new_lchan ho) 0 1 n1
           in Some (del_ho ho n2, ev)))"

definition ho_chan_activ_ack :: "net_lchan \<Rightarrow> bsc_net \<Rightarrow> bsc_net \<times> net_event list \<times> int" where
  "ho_chan_activ_ack new n =
     (case bsc_ho_by_new_lchan n new of
        None \<Rightarrow> (n, [], - ENODEV)
      | Some ho \<Rightarrow>
          (n\<lparr>bn_hos := map (\<lambda>h. if h = ho then h\<lparr>ho_T3103 := True\<rparr> else h) (bn_hos n)\<rparr>,
           NE_ho_cmd (ho_old_lchan ho) new (ho_ref ho) #
             (if is_ipaccess_bts (bn_bts n ! fst new) then [NE_ipacc_crcx new] else []), 0))"

definition ho_chan_activ_nack :: "net_lchan \<Rightarrow> bsc_net \<Rightarrow> (bsc_net \<times> int) option" where
  "ho_chan_activ_nack new n =
     (case bsc_ho_by_new_lchan n new of
        None \<Rightarrow> Some (n, - ENODEV)
      | Some ho \<Rightarrow>
          (case lc_conn (net_lc n new) of
             None \<Rightarrow> None
           | Some c \<Rightarrow> Some (del_ho ho (set_conn_ptr new None (upd_conn c (\<lambda>cn. cn\<lparr>cn_ho_lchan := None\<rparr>) n)), 0)))"

text \<open>The log message of the completed handover follows \<^verbatim>\<open>old_lchan->conn\<close>.\<close>

definition ho_gsm48_ho_compl :: "net_lchan \<Rightarrow> bsc_net \<Rightarrow> (bsc_net \<times> net_event list \<times> int) option" where
  "ho_gsm48_ho_compl new n =
     (case bsc_ho_by_new_lchan n new of
        None \<Rightarrow> Some (n, [], - ENODEV)
      | Some ho \<Rightarrow>
          (case (lc_conn (net_lc n (ho_old_lchan ho)), lc_conn (net_lc n new)) of
             (Some _, Some c) \<Rightarrow>
               (let n1 = upd_conn c (\<lambda>cn. cn\<lparr>cn_ho_lchan := None, cn_lchan := Some new\<rparr>) n;
                    n2 = upd_lc (ho_old_lchan ho) (\<lambda>lc. rsl_lchan_set_state LCHAN_S_INACTIVE (lc\<lparr>lc_conn := None\<rparr>)) n1;
                    (n3, ev) = net_release (ho_old_lchan ho) 0 1 n2
                in Some (del_ho ho n3, ev, 0))
           | _ \<Rightarrow> None))"

definition ho_gsm48_ho_fail :: "net_lchan \<Rightarrow> bsc_net \<Rightarrow> (bsc_net \<times> net_event list \<times> int) option" where
  "ho_gsm48_ho_fail old n =
     (case bsc_ho_by_old_lchan n old of
        None \<Rightarrow> Some (n, [], - ENODEV)
      | Some ho \<Rightarrow>
          (case lc_conn (net_lc n (ho_new_lchan ho)) of
             None \<Rightarrow> None
           | Some c \<Rightarrow>
               (let n1 = upd_conn c (\<lambda>cn. cn\<lparr>cn_ho_lchan := None\<rparr>) (del_ho ho n);
                    (n2, ev) = net_release (ho_new_lchan ho) 0 1 (set_conn_ptr (ho_new_lchan ho) None n1)
                in Some (n2, ev, 0))))"

definition ho_rsl_detect :: "net_lchan \<Rightarrow> bsc_net \<Rightarrow> int" where
  "ho_rsl_detect new n = (case bsc_ho_by_new_lchan n new of None \<Rightarrow> - ENODEV | Some _ \<Rightarrow> 0)"

section \<open>Assignment\<close>

abbreviation (input) CAUSE_NO_RADIO_RESOURCE :: u8 where "CAUSE_NO_RADIO_RESOURCE \<equiv> 0x21"
abbreviation (input) CAUSE_RADIO_IF_MSG_FAILURE :: u8 where "CAUSE_RADIO_IF_MSG_FAILURE \<equiv> 0x00"
abbreviation (input) CAUSE_RADIO_IF_FAILURE :: u8 where "CAUSE_RADIO_IF_FAILURE \<equiv> 0x01"

text \<open>Octets of the multi-rate configuration after version, ICMI and the 5.90 mode were set.\<close>

definition handle_mr_config :: "gsm_lchan \<Rightarrow> gsm_lchan" where
  "handle_mr_config lc =
     lc\<lparr>lc_mr_conf := [(hd (lc_mr_conf lc) AND 0x1f) OR 0x28, (lc_mr_conf lc ! 1) OR 0x04]\<rparr>"

definition handle_new_assignment ::
    "rsl_env \<Rightarrow> nat \<Rightarrow> gsm48_chan_mode \<Rightarrow> bool \<Rightarrow> bsc_net \<Rightarrow> (bsc_net \<times> net_event list \<times> int) option" where
  "handle_new_assignment env c chan_mode full_rate n =
     (case bn_conns n c of
        None \<Rightarrow> None
      | Some cn \<Rightarrow>
          (case (cn_bts cn, cn_lchan cn) of
             (Some b, Some prim) \<Rightarrow>
               (case lchan_alloc (bn_bts n ! b) (if full_rate then GSM_LCHAN_TCH_F else GSM_LCHAN_TCH_H) False of
                  (bts', None, ev) \<Rightarrow>
                    Some (n\<lparr>bn_bts := (bn_bts n)[b := bts']\<rparr>, map (NE_lchan (b, 0, 0, 0)) ev, -1)
                | (bts', Some p, ev) \<Rightarrow>
                    (let new = (b, p);
                         ev0 = map (NE_lchan new) ev;
                         n1 = n\<lparr>bn_bts := (bn_bts n)[b := bts']\<rparr>;
                         fill = (\<lambda>lc. (copy_params (net_lc n1 prim) lc)
                                        \<lparr>lc_tch_mode := chan_mode, lc_rsl_cmode := RSL_CMOD_SPD_SPEECH\<rparr>);
                         n2 = upd_lc new (\<lambda>lc. if chan_mode = GSM48_CMODE_SPEECH_AMR
                                               then handle_mr_config (fill lc) else fill lc) n1
                     in case activate_rc env n2 new RSL_ACT_INTRA_NORM_ASS 0 of
                          (rc, ev1) \<Rightarrow>
                            if rc < 0
                            then (case net_free env new n2 of (n3, ev2) \<Rightarrow> Some (n3, ev0 @ ev1 @ ev2, -1))
                            else Some (upd_lc new (\<lambda>lc. rsl_lchan_set_state LCHAN_S_ACT_REQ (lc\<lparr>lc_conn := Some c\<rparr>))
                                         (upd_conn c (\<lambda>cn. cn\<lparr>cn_secondary_lchan := Some new\<rparr>) n2), ev0 @ ev1, 0)))
           | _ \<Rightarrow> None))"

definition assignment_t10_timeout :: "nat \<Rightarrow> bsc_net \<Rightarrow> (bsc_net \<times> net_event list) option" where
  "assignment_t10_timeout c n =
     (case bn_conns n c of
        None \<Rightarrow> None
      | Some cn \<Rightarrow>
          (case opt_release (cn_secondary_lchan cn) 0 1 n of
             (n1, ev) \<Rightarrow>
               Some (upd_conn c (\<lambda>cn. cn\<lparr>cn_secondary_lchan := None, cn_T10 := False\<rparr>) n1,
                     ev @ [NE_assign_fail c CAUSE_NO_RADIO_RESOURCE None])))"

text \<open>\<open>l3\<close> is what follows the header of the layer 3 message.\<close>

definition handle_ass_compl :: "nat \<Rightarrow> net_lchan \<Rightarrow> u8 list \<Rightarrow> bsc_net \<Rightarrow> (bsc_net \<times> net_event list) option" where
  "handle_ass_compl c msg_lchan l3 n =
     (case bn_conns n c of
        None \<Rightarrow> None
      | Some cn \<Rightarrow>
          if cn_secondary_lchan cn \<noteq> Some msg_lchan then Some (n, [])
          else if length l3 \<noteq> 1 then Some (n, [])
          else
            (case cn_lchan cn of
               None \<Rightarrow> None
             | Some prim \<Rightarrow>
                 (case net_release prim 0 1 n of
                    (n1, ev) \<Rightarrow>
                      (let n2 = upd_conn c (\<lambda>cn. cn\<lparr>cn_T10 := False, cn_lchan := cn_secondary_lchan cn,
                                                     cn_secondary_lchan := None\<rparr>) n1;
                           lc = net_lc n2 msg_lchan
                       in Some (n2, ev @
                            (case cn_bts cn of
                               Some b \<Rightarrow> if is_ipaccess_bts (bn_bts n ! b) \<and> lc_tch_mode lc \<noteq> GSM48_CMODE_SIGN
                                         then [NE_ipacc_crcx msg_lchan] else []
                             | None \<Rightarrow> []) @
                            [NE_assign_compl c (hd l3) (lchan_to_chosen_channel lc) (lc_encr_alg_id lc)
                               (chan_mode_to_speech lc)])))))"

definition handle_ass_fail :: "nat \<Rightarrow> net_lchan \<Rightarrow> u8 list \<Rightarrow> bsc_net \<Rightarrow> (bsc_net \<times> net_event list) option" where
  "handle_ass_fail c msg_lchan l3 n =
     (case bn_conns n c of
        None \<Rightarrow> None
      | Some cn \<Rightarrow>
          if cn_lchan cn \<noteq> Some msg_lchan then Some (n, [])
          else
            (case cn_secondary_lchan cn of
               None \<Rightarrow> None
             | Some sec \<Rightarrow>
                 (case net_release sec 0 1 n of
                    (n1, ev) \<Rightarrow>
                      Some (upd_conn c (\<lambda>cn. cn\<lparr>cn_T10 := False, cn_secondary_lchan := None\<rparr>) n1,
                            ev @ [NE_assign_fail c CAUSE_RADIO_IF_MSG_FAILURE
                                    (if length l3 \<noteq> 1 then None else Some (hd l3))]))))"

section \<open>Clearing\<close>

definition gsm0808_clear :: "nat \<Rightarrow> bsc_net \<Rightarrow> bsc_net \<times> net_event list" where
  "gsm0808_clear c n =
     (let (n1, ev1) = bsc_clear_handover c True n;
          sec = Option.bind (bn_conns n1 c) cn_secondary_lchan;
          prim = Option.bind (bn_conns n1 c) cn_lchan;
          (n2, ev2) = opt_release sec 0 1 n1;
          (n3, ev3) = opt_release prim 1 0 n2
      in (upd_conn c (\<lambda>_. \<lparr>cn_lchan = None, cn_ho_lchan = None, cn_secondary_lchan = None, cn_bts = None,
                           cn_T10 = False\<rparr>) n3, ev1 @ ev2 @ ev3))"

text \<open>\<open>destruct\<close>: what the clear request of the layer above returns.\<close>

definition handle_release :: "bool \<Rightarrow> nat \<Rightarrow> net_lchan \<Rightarrow> bsc_net \<Rightarrow> bsc_net \<times> net_event list" where
  "handle_release destruct c p n =
     (let is_sec = (Option.bind (bn_conns n c) cn_secondary_lchan = Some p);
          (n1, ev1) = (if is_sec
                       then (upd_conn c (\<lambda>cn. cn\<lparr>cn_T10 := False, cn_secondary_lchan := None\<rparr>) n,
                             [NE_assign_fail c CAUSE_RADIO_IF_FAILURE None])
                       else (n, []));
          n2 = upd_conn c (\<lambda>cn. if cn_lchan cn = Some p then cn\<lparr>cn_lchan := None\<rparr> else cn) n1;
          (n3, ev3) = (if Option.bind (bn_conns n2 c) cn_ho_lchan = Some p
                       then (case bsc_clear_handover c False n2 of
                               (m, e) \<Rightarrow> (upd_conn c (\<lambda>cn. cn\<lparr>cn_ho_lchan := None\<rparr>) m, e))
                       else (n2, []));
          (n4, ev4) = gsm0808_clear c (set_conn_ptr p None n3)
      in (if destruct then subscr_con_free c n4 else n4, ev1 @ [NE_clear_request c] @ ev3 @ ev4))"

definition handle_chan_ack :: "nat \<Rightarrow> net_lchan \<Rightarrow> bsc_net \<Rightarrow> net_event list" where
  "handle_chan_ack c p n =
     (case bn_conns n c of
        Some cn \<Rightarrow> (case (cn_secondary_lchan cn = Some p, cn_lchan cn) of
                      (True, Some prim) \<Rightarrow> [NE_ass_cmd prim p (lc_ms_power (net_lc n p))]
                    | _ \<Rightarrow> [])
      | None \<Rightarrow> [])"

definition handle_chan_nack :: "nat \<Rightarrow> net_lchan \<Rightarrow> bsc_net \<Rightarrow> bsc_net" where
  "handle_chan_nack c p n =
     (if Option.bind (bn_conns n c) cn_secondary_lchan \<noteq> Some p then n
      else upd_conn c (\<lambda>cn. cn\<lparr>cn_secondary_lchan := None\<rparr>) (set_conn_ptr p None n))"

text \<open>
  Freeing a channel (\<^verbatim>\<open>lchan_free\<close>) with the handler that \<^verbatim>\<open>bsc_api.c\<close> registers for the unexpected
  release; \<open>free_rest\<close> is what the function does to the channel after that signal.
\<close>

definition free_rest :: "gsm_lchan \<Rightarrow> gsm_lchan" where
  "free_rest lc =
     (let lc3 = clear_meas (lc\<lparr>lc_T3101 := None\<rparr>);
          lc4 = (if lc_rqd_ref lc3 \<noteq> None then lc3\<lparr>lc_rqd_ref := None, lc_rqd_ta := 0\<rparr> else lc3);
          lc6 = (if lc_conn lc4 \<noteq> None then lc4\<lparr>lc_conn := None\<rparr> else lc4)
      in lc6\<lparr>lc_sach_deact := 0, lc_release_reason := 0\<rparr>)"

definition net_lchan_free :: "bool \<Rightarrow> net_lchan \<Rightarrow> bsc_net \<Rightarrow> bsc_net \<times> net_event list" where
  "net_lchan_free destruct p n =
     (let n1 = upd_lc p (\<lambda>lc. lc\<lparr>lc_type := GSM_LCHAN_NONE, lc_state := LCHAN_S_NONE\<rparr>) n;
          (n2, ev) = (case lc_conn (net_lc n p) of
                        None \<Rightarrow> (n1, [])
                      | Some c \<Rightarrow> handle_release destruct c p n1)
      in (upd_lc p free_rest n2, ev @ [NE_lchan p (Ev_signal (S_CHALLOC_FREED (lc_type (net_lc n p))))]))"

section \<open>Messages of the mobile station\<close>

text \<open>
  The layer 3 message: protocol discriminator, message type and what follows. \<open>modif_rc\<close> is the
  return code of the mode modify acknowledgement, \<open>compl_l3\<close> whether the layer above accepts the new
  connection \<open>c\<close>, \<open>mem\<close> whether memory for it is available.
\<close>

datatype l3_msg =
    RR_CIPH_M_COMPL | RR_ASS_COMPL "u8 list" | RR_ASS_FAIL "u8 list" | RR_CHAN_MODE_MODIF_ACK int
  | L3_other | L3_short

definition dispatch_dtap :: "nat \<Rightarrow> u8 \<Rightarrow> net_lchan \<Rightarrow> l3_msg \<Rightarrow> bsc_net \<Rightarrow> (bsc_net \<times> net_event list) option" where
  "dispatch_dtap c link_id p msg n =
     (let prim = Option.bind (bn_conns n c) cn_lchan;
          fwd = (\<lambda>(m, ev). (m, ev @ [NE_dtap c link_id]))
      in case msg of
           L3_short \<Rightarrow> Some (n, [])
         | RR_CIPH_M_COMPL \<Rightarrow> map_option (\<lambda>q. (n, [NE_cipher_mode_compl c (lc_encr_alg_id (net_lc n q))])) prim
         | RR_ASS_COMPL l3 \<Rightarrow> map_option fwd (handle_ass_compl c p l3 n)
         | RR_ASS_FAIL l3 \<Rightarrow> map_option fwd (handle_ass_fail c p l3 n)
         | RR_CHAN_MODE_MODIF_ACK modif_rc \<Rightarrow>
             (let n1 = upd_conn c (\<lambda>cn. cn\<lparr>cn_T10 := False\<rparr>) n
              in if modif_rc < 0 then Some (n1, [NE_assign_fail c CAUSE_NO_RADIO_RESOURCE None])
                 else map_option (\<lambda>q. (n1, [NE_assign_compl c 0 (lchan_to_chosen_channel (net_lc n q))
                                     (lc_encr_alg_id (net_lc n q)) (chan_mode_to_speech (net_lc n q))])) prim)
         | L3_other \<Rightarrow> Some (n, [NE_dtap c link_id]))"

definition gsm0408_rcvmsg ::
    "bool \<Rightarrow> bool \<Rightarrow> nat \<Rightarrow> net_lchan \<Rightarrow> u8 \<Rightarrow> l3_msg \<Rightarrow> bsc_net \<Rightarrow> (bsc_net \<times> net_event list \<times> int) option" where
  "gsm0408_rcvmsg mem accepted c p link_id msg n =
     (if lc_state (net_lc n p) \<noteq> LCHAN_S_ACTIVE then Some (n, [], -1)
      else
        (case lc_conn (net_lc n p) of
           Some c' \<Rightarrow> map_option (\<lambda>(m, ev). (m, ev, 0)) (dispatch_dtap c' link_id p msg n)
         | None \<Rightarrow>
             (case subscr_con_allocate mem c p n of
                None \<Rightarrow> (case net_release p 0 0 n of (n1, ev) \<Rightarrow> Some (n1, ev, -1))
              | Some n1 \<Rightarrow>
                  if accepted then Some (n1, [NE_compl_l3 c], 0)
                  else
                    (let n2 = subscr_con_free c (upd_conn c (\<lambda>cn. cn\<lparr>cn_lchan := None\<rparr>) n1)
                     in case net_release p 0 0 n2 of (n3, ev) \<Rightarrow> Some (n3, NE_compl_l3 c # ev, 0)))))"

section \<open>The links between channels, connections and handovers\<close>

text \<open>
  The abstract view of a network: the connection of each channel, the connections, the handovers.
  \<open>link_inv\<close>: a channel has a connection exactly when it is in one of the connection's three places,
  the places are different, and the handover channels are the targets of the handover records.
\<close>

definition chans :: "subscr_conn \<Rightarrow> net_lchan set" where
  "chans cn = set_option (cn_lchan cn) \<union> set_option (cn_ho_lchan cn) \<union> set_option (cn_secondary_lchan cn)"

definition diff3 :: "subscr_conn \<Rightarrow> bool" where
  "diff3 cn \<longleftrightarrow>
     (\<forall>p. (cn_lchan cn = Some p \<longrightarrow> cn_ho_lchan cn \<noteq> Some p \<and> cn_secondary_lchan cn \<noteq> Some p) \<and>
          (cn_ho_lchan cn = Some p \<longrightarrow> cn_secondary_lchan cn \<noteq> Some p))"

definition link_inv ::
    "(net_lchan \<Rightarrow> nat option) \<Rightarrow> (nat \<Rightarrow> subscr_conn option) \<Rightarrow> bsc_handover list \<Rightarrow> bool" where
  "link_inv C K H \<longleftrightarrow>
     (\<forall>p c. C p = Some c \<longleftrightarrow> (\<exists>cn. K c = Some cn \<and> p \<in> chans cn)) \<and>
     (\<forall>c cn. K c = Some cn \<longrightarrow> diff3 cn) \<and>
     (\<forall>p. (\<exists>c cn. K c = Some cn \<and> cn_ho_lchan cn = Some p) \<longleftrightarrow> p \<in> ho_new_lchan ` set H) \<and>
     distinct (map ho_new_lchan H)"

lemma link_invD:
  assumes "link_inv C K H"
  shows "C p = Some c \<longleftrightarrow> (\<exists>cn. K c = Some cn \<and> p \<in> chans cn)"
    and "K c = Some cn \<Longrightarrow> diff3 cn"
    and "(\<exists>c cn. K c = Some cn \<and> cn_ho_lchan cn = Some p) \<longleftrightarrow> p \<in> ho_new_lchan ` set H"
    and "distinct (map ho_new_lchan H)"
  using assms by (simp_all add: link_inv_def del: split_paired_All split_paired_Ex)

lemma link_inv_chan: "link_inv C K H \<Longrightarrow> K c = Some cn \<Longrightarrow> p \<in> chans cn \<Longrightarrow> C p = Some c"
  using link_invD(1) by blast

lemma link_unique:
  "link_inv C K H \<Longrightarrow> K c = Some cn \<Longrightarrow> p \<in> chans cn \<Longrightarrow> K c' = Some cn' \<Longrightarrow> p \<in> chans cn' \<Longrightarrow> c' = c"
  by (metis link_inv_chan option.inject)

text \<open>Replacing one connection: what has to hold of the new one.\<close>

lemma link_inv_replace:
  assumes inv: "link_inv C K H" and K: "K c = Some cn" and d: "diff3 cn'"
    and C': "\<And>p. p \<in> chans cn' \<Longrightarrow> C' p = Some c"
    and C'n: "\<And>p. p \<notin> chans cn' \<Longrightarrow> p \<in> chans cn \<Longrightarrow> C' p = None"
    and C'o: "\<And>p. p \<notin> chans cn' \<Longrightarrow> p \<notin> chans cn \<Longrightarrow> C' p = C p"
    and new: "\<And>p. p \<in> chans cn' \<Longrightarrow> p \<notin> chans cn \<Longrightarrow> C p = None"
    and H: "ho_new_lchan ` set H' = ho_new_lchan ` set H - set_option (cn_ho_lchan cn) \<union> set_option (cn_ho_lchan cn')"
    and dH: "distinct (map ho_new_lchan H')"
  shows "link_inv C' (K(c \<mapsto> cn')) H'"
proof -
  note uniq = link_unique [OF inv K]
  have "C' p = Some c' \<longleftrightarrow> (\<exists>cn''. (K(c \<mapsto> cn')) c' = Some cn'' \<and> p \<in> chans cn'')" for p c'
  proof (cases "p \<in> chans cn'")
    case True
    then have "C' p = Some c" by (rule C')
    moreover have "\<not> p \<in> chans cn''" if "c' \<noteq> c" "K c' = Some cn''" for cn''
    proof
      assume p: "p \<in> chans cn''"
      then have "C p = Some c'" using link_inv_chan [OF inv that(2)] by simp
      moreover from this new [OF True] have "p \<in> chans cn" by force
      ultimately show False using uniq [OF _ that(2) p] that(1) by simp
    qed
    ultimately show ?thesis using True by auto
  next
    case False
    show ?thesis
    proof (cases "p \<in> chans cn")
      case True
      with False C'n uniq [OF True] show ?thesis by auto
    next
      case no: False
      with False C'o have "C' p = C p" by blast
      moreover have "C p \<noteq> Some c" using no K by (simp add: link_invD(1) [OF inv])
      ultimately show ?thesis using False by (auto simp: link_invD(1) [OF inv])
    qed
  qed
  moreover have "\<forall>c' cn''. (K(c \<mapsto> cn')) c' = Some cn'' \<longrightarrow> diff3 cn''"
    using link_invD(2) [OF inv] d by simp
  moreover have "(\<exists>c' cn''. (K(c \<mapsto> cn')) c' = Some cn'' \<and> cn_ho_lchan cn'' = Some p) \<longleftrightarrow> p \<in> ho_new_lchan ` set H'" for p
  proof -
    have old: "(\<exists>c' cn''. K c' = Some cn'' \<and> cn_ho_lchan cn'' = Some p) \<longleftrightarrow> p \<in> ho_new_lchan ` set H"
      by (rule link_invD(3) [OF inv])
    have "c' = c" if "cn_ho_lchan cn = Some p" "K c' = Some cn''" "cn_ho_lchan cn'' = Some p" for c' cn''
      using uniq [of p c' cn''] that by (auto simp: chans_def)
    note same = this
    show ?thesis
    proof (cases "cn_ho_lchan cn' = Some p")
      case True
      then show ?thesis unfolding H by (intro iffI) (auto intro!: exI [of _ c])
    next
      case False
      then have "(\<exists>c' cn''. (K(c \<mapsto> cn')) c' = Some cn'' \<and> cn_ho_lchan cn'' = Some p) \<longleftrightarrow>
          (\<exists>c' cn''. c' \<noteq> c \<and> K c' = Some cn'' \<and> cn_ho_lchan cn'' = Some p)"
        by (metis fun_upd_apply option.inject)
      also have "\<dots> \<longleftrightarrow> p \<in> ho_new_lchan ` set H \<and> cn_ho_lchan cn \<noteq> Some p"
        unfolding old [symmetric] using same K by (metis option.inject)
      finally show ?thesis using False unfolding H by simp
    qed
  qed
  ultimately show ?thesis using dH unfolding link_inv_def by blast
qed

lemma distinct_remove1_image:
  "distinct (map f xs) \<Longrightarrow> x \<in> set xs \<Longrightarrow> f ` set (remove1 x xs) = f ` set xs - {f x}"
  by (induction xs) (auto simp: image_iff)

lemma distinct_map_remove1: "distinct (map f xs) \<Longrightarrow> distinct (map f (remove1 x xs))"
  by (metis distinct_map distinct_remove1 inj_on_subset set_remove1_subset)

section \<open>The view of a network\<close>

definition conn_of :: "bsc_net \<Rightarrow> net_lchan \<Rightarrow> nat option" where
  "conn_of n p = (if valid_lc n p then lc_conn (net_lc n p) else None)"

lemma valid_lc_upd_lc [simp]: "valid_lc (upd_lc p f n) q = valid_lc n q"
  by (cases "fst p = fst q"; cases "fst q < length (bn_bts n)") (auto simp: valid_lc_def upd_lc_def nth_upd_nth)

lemma net_lc_upd_lc:
  "valid_lc n q \<Longrightarrow> net_lc (upd_lc p f n) q = (if p = q then f (net_lc n q) else net_lc n q)"
  by (cases p; cases q) (auto simp: valid_lc_def upd_lc_def net_lc_def nth_upd_nth the_lchan_upd_lchan)

lemma view_upd_lc [simp]:
  "bn_conns (upd_lc p f n) = bn_conns n" "bn_hos (upd_lc p f n) = bn_hos n" "bn_ho_ref (upd_lc p f n) = bn_ho_ref n"
  "length (bn_bts (upd_lc p f n)) = length (bn_bts n)"
  by (simp_all add: upd_lc_def)

lemma conn_of_upd_lc:
  "conn_of (upd_lc p f n) = (conn_of n)(p := if valid_lc n p then lc_conn (f (net_lc n p)) else None)"
  by (rule ext) (auto simp: conn_of_def net_lc_upd_lc)

lemma view_upd_conn [simp]:
  "bn_conns (upd_conn c f n) = (bn_conns n)(c := map_option f (bn_conns n c))"
  "bn_hos (upd_conn c f n) = bn_hos n" "bn_bts (upd_conn c f n) = bn_bts n"
  "valid_lc (upd_conn c f n) q = valid_lc n q" "net_lc (upd_conn c f n) q = net_lc n q"
  "conn_of (upd_conn c f n) = conn_of n"
  by (auto simp: upd_conn_def valid_lc_def net_lc_def conn_of_def fun_eq_iff)

lemma view_del_ho [simp]:
  "bn_conns (del_ho ho n) = bn_conns n" "bn_hos (del_ho ho n) = remove1 ho (bn_hos n)"
  "bn_bts (del_ho ho n) = bn_bts n" "valid_lc (del_ho ho n) q = valid_lc n q" "net_lc (del_ho ho n) q = net_lc n q"
  "conn_of (del_ho ho n) = conn_of n"
  by (auto simp: del_ho_def valid_lc_def net_lc_def conn_of_def fun_eq_iff)

lemma view_frame [simp]:
  "conn_of (n\<lparr>bn_conns := k\<rparr>) = conn_of n" "conn_of (n\<lparr>bn_hos := h\<rparr>) = conn_of n" "conn_of (n\<lparr>bn_ho_ref := r\<rparr>) = conn_of n"
  "valid_lc (n\<lparr>bn_conns := k\<rparr>) q = valid_lc n q" "valid_lc (n\<lparr>bn_hos := h\<rparr>) q = valid_lc n q"
  "valid_lc (n\<lparr>bn_ho_ref := r\<rparr>) q = valid_lc n q"
  "net_lc (n\<lparr>bn_conns := k\<rparr>) q = net_lc n q" "net_lc (n\<lparr>bn_hos := h\<rparr>) q = net_lc n q" "net_lc (n\<lparr>bn_ho_ref := r\<rparr>) q = net_lc n q"
  by (auto simp: valid_lc_def net_lc_def conn_of_def fun_eq_iff)

lemma view_set_conn_ptr [simp]:
  "bn_conns (set_conn_ptr p c n) = bn_conns n" "bn_hos (set_conn_ptr p c n) = bn_hos n"
  "valid_lc (set_conn_ptr p c n) q = valid_lc n q"
  "conn_of (set_conn_ptr p c n) = (conn_of n)(p := if valid_lc n p then c else None)"
  by (simp_all add: set_conn_ptr_def conn_of_upd_lc)

lemma lchan_release_conn [simp]: "lc_conn (fst (lchan_release lc d r)) = None"
  by (auto simp: lchan_release_def lchan_handle_release_def rsl_lchan_set_state_def split: option.splits)

lemma view_net_release [simp]:
  "bn_conns (fst (net_release p d r n)) = bn_conns n" "bn_hos (fst (net_release p d r n)) = bn_hos n"
  "valid_lc (fst (net_release p d r n)) q = valid_lc n q"
  "conn_of (fst (net_release p d r n)) = (conn_of n)(p := None)"
  by (auto simp: net_release_def conn_of_upd_lc conn_of_def fun_eq_iff)

section \<open>The invariant of the network\<close>

text \<open>
  Each station satisfies the allocation invariant, a channel with a connection is allocated, and
  the links are consistent. While a channel is being freed it is excepted (\<open>X\<close>): its type is gone
  before its connection.
\<close>

definition st_inv :: "net_lchan set \<Rightarrow> bsc_net \<Rightarrow> bool" where
  "st_inv X n \<longleftrightarrow>
     (\<forall>b < length (bn_bts n). alloc_inv (bn_bts n ! b)) \<and>
     (\<forall>p. p \<notin> X \<longrightarrow> conn_of n p \<noteq> None \<longrightarrow> lc_type (net_lc n p) \<noteq> GSM_LCHAN_NONE)"

definition net_inv :: "bsc_net \<Rightarrow> bool" where
  "net_inv n \<longleftrightarrow> st_inv {} n \<and> link_inv (conn_of n) (bn_conns n) (bn_hos n)"

lemma st_inv_typed: "st_inv X n \<Longrightarrow> p \<notin> X \<Longrightarrow> conn_of n p \<noteq> None \<Longrightarrow> lc_type (net_lc n p) \<noteq> GSM_LCHAN_NONE"
  by (simp add: st_inv_def del: split_paired_All)

lemma st_inv_alloc: "st_inv X n \<Longrightarrow> b < length (bn_bts n) \<Longrightarrow> alloc_inv (bn_bts n ! b)"
  by (simp add: st_inv_def)

lemma st_inv_frame:
  assumes "bn_bts n' = bn_bts n"
  shows "st_inv X n' = st_inv X n"
  using assms by (simp add: st_inv_def conn_of_def valid_lc_def net_lc_def)

lemma st_inv_frames [simp]:
  "st_inv X (upd_conn c f n) = st_inv X n" "st_inv X (del_ho ho n) = st_inv X n"
  "st_inv X (n\<lparr>bn_conns := k\<rparr>) = st_inv X n" "st_inv X (n\<lparr>bn_hos := h\<rparr>) = st_inv X n"
  "st_inv X (n\<lparr>bn_ho_ref := r\<rparr>) = st_inv X n"
  by (rule st_inv_frame, simp)+

lemma st_inv_lchan:
  assumes "st_inv X n" "valid_lc n (b, t, j, s)"
  shows "lchan_inv (ts_pchan (the_ts (bn_bts n ! b) (t, j))) s (net_lc n (b, t, j, s))"
  unfolding net_lc_def fst_conv snd_conv using assms
  by (intro alloc_inv_lchan) (auto simp: st_inv_def valid_lc_def)

lemma st_inv_upd_lc:
  assumes inv: "st_inv X n" and wf: "\<And>s lc. wf_lchan s lc \<Longrightarrow> wf_lchan s (f lc)"
    and new: "\<And>pchan s. valid_lc n p \<Longrightarrow> lchan_inv pchan s (net_lc n p) \<Longrightarrow> lchan_inv pchan s (f (net_lc n p))"
    and cn: "lc_conn (f (net_lc n p)) \<noteq> None \<Longrightarrow> p \<notin> X \<Longrightarrow> lc_type (f (net_lc n p)) \<noteq> GSM_LCHAN_NONE"
  shows "st_inv X (upd_lc p f n)"
proof -
  obtain b t j s where p: "p = (b, t, j, s)" by (cases p)
  have "alloc_inv (upd_lchan (t, j, s) f (bn_bts n ! b))" if k: "b < length (bn_bts n)"
  proof (rule alloc_inv_upd_lchan [OF st_inv_alloc [OF inv k] wf])
    assume "valid_lchan (bn_bts n ! b) (t, j, s)"
    with k have v: "valid_lc n (b, t, j, s)" by (simp add: valid_lc_def)
    from new [unfolded p, OF v st_inv_lchan [OF inv v]]
    show "lchan_inv (ts_pchan (the_ts (bn_bts n ! b) (t, j))) s (f (the_lchan (bn_bts n ! b) (t, j, s)))"
      by (simp add: net_lc_def)
  qed
  then have "alloc_inv (bn_bts (upd_lc p f n) ! k)" if "k < length (bn_bts n)" for k
    using that st_inv_alloc [OF inv] by (auto simp: upd_lc_def p nth_upd_nth)
  moreover have "lc_type (net_lc (upd_lc p f n) q) \<noteq> GSM_LCHAN_NONE" if "q \<notin> X" "conn_of (upd_lc p f n) q \<noteq> None" for q
    using that cn st_inv_typed [OF inv that(1)]
    by (auto simp: conn_of_upd_lc conn_of_def net_lc_upd_lc split: if_splits)
  ultimately show ?thesis by (simp add: st_inv_def del: split_paired_All)
qed

text \<open>An operation that keeps type and state, and one that works on an allocated channel.\<close>

lemma lchan_inv_same:
  "lc_type lc' = lc_type lc \<Longrightarrow> lc_state lc' = lc_state lc \<Longrightarrow> lchan_inv pchan s lc' = lchan_inv pchan s lc"
  by (simp add: lchan_inv_def lchan_is_free_def)

lemma lchan_inv_allocated:
  "lchan_inv pchan s lc \<Longrightarrow> lc_type lc \<noteq> GSM_LCHAN_NONE \<Longrightarrow>
   lc_type lc' = lc_type lc \<or> lc_type lc' = GSM_LCHAN_NONE \<Longrightarrow> lchan_inv pchan s lc'"
  by (auto simp: lchan_inv_def lchan_is_free_def)

lemma st_inv_set_conn_ptr:
  assumes "st_inv X n" "p \<notin> X \<Longrightarrow> c \<noteq> None \<Longrightarrow> lc_type (net_lc n p) \<noteq> GSM_LCHAN_NONE"
  shows "st_inv X (set_conn_ptr p c n)"
  unfolding set_conn_ptr_def
  by (rule st_inv_upd_lc [OF assms(1)])
     (use assms(2) lchan_inv_same [of "(net_lc n p)\<lparr>lc_conn := c\<rparr>" "net_lc n p"] in simp_all)

lemma st_inv_net_release:
  assumes "st_inv X n" "valid_lc n p \<Longrightarrow> lc_type (net_lc n p) \<noteq> GSM_LCHAN_NONE"
  shows "st_inv X (fst (net_release p d r n))"
  unfolding net_release_def fst_conv
proof (rule st_inv_upd_lc [OF assms(1)])
  show "lchan_inv pchan s (fst (lchan_release (net_lc n p) d r))" if "valid_lc n p" "lchan_inv pchan s (net_lc n p)" for pchan s
    using that assms(2) release.op_type by (blast intro: lchan_inv_allocated)
qed (simp_all add: release.op_wf)

lemma type_kept [simp]:
  "valid_lc n q \<Longrightarrow> lc_type (net_lc (set_conn_ptr p c n) q) = lc_type (net_lc n q)"
  "valid_lc n q \<Longrightarrow> lc_type (net_lc (fst (net_release p d r n)) q) = lc_type (net_lc n q)"
  by (auto simp: set_conn_ptr_def net_release_def net_lc_upd_lc lchan_release_def lchan_handle_release_frame
      rsl_lchan_set_state_def)

lemma conn_valid: "conn_of n p \<noteq> None \<Longrightarrow> valid_lc n p"
  by (auto simp: conn_of_def split: if_splits)

section \<open>Detaching and attaching channels\<close>

declare split_paired_All [simp del] split_paired_Ex [simp del]

lemma link_inv_replace_same:
  assumes inv: "link_inv C K H" and K: "K c = Some cn" and same: "cn_ho_lchan cn' = cn_ho_lchan cn"
    and "diff3 cn'"
    and "\<And>p. p \<in> chans cn' \<Longrightarrow> C' p = Some c"
    and "\<And>p. p \<notin> chans cn' \<Longrightarrow> p \<in> chans cn \<Longrightarrow> C' p = None"
    and "\<And>p. p \<notin> chans cn' \<Longrightarrow> p \<notin> chans cn \<Longrightarrow> C' p = C p"
    and "\<And>p. p \<in> chans cn' \<Longrightarrow> p \<notin> chans cn \<Longrightarrow> C p = None"
  shows "link_inv C' (K(c \<mapsto> cn')) H"
proof (rule link_inv_replace [OF inv K])
  have "p \<in> ho_new_lchan ` set H" if "cn_ho_lchan cn = Some p" for p
    using that K link_invD(3) [OF inv, of p] by blast
  then have "set_option (cn_ho_lchan cn) \<subseteq> ho_new_lchan ` set H"
    by (cases "cn_ho_lchan cn") auto
  then show "ho_new_lchan ` set H = ho_new_lchan ` set H - set_option (cn_ho_lchan cn) \<union> set_option (cn_ho_lchan cn')"
    unfolding same by blast
qed (use assms link_invD(4) [OF inv] in auto)

lemma link_detach_prim:
  assumes "link_inv C K H" "K c = Some cn" "cn_lchan cn = Some p" "cn_lchan cn' = None"
    "cn_ho_lchan cn' = cn_ho_lchan cn" "cn_secondary_lchan cn' = cn_secondary_lchan cn"
  shows "link_inv (C(p := None)) (K(c \<mapsto> cn')) H"
  using assms(3-) link_invD(2) [OF assms(1,2)] link_inv_chan [OF assms(1,2)]
  by (intro link_inv_replace_same [OF assms(1,2)]) (auto simp: chans_def diff3_def)

lemma link_detach_sec:
  assumes "link_inv C K H" "K c = Some cn" "cn_secondary_lchan cn = Some p" "cn_secondary_lchan cn' = None"
    "cn_ho_lchan cn' = cn_ho_lchan cn" "cn_lchan cn' = cn_lchan cn"
  shows "link_inv (C(p := None)) (K(c \<mapsto> cn')) H"
  using assms(3-) link_invD(2) [OF assms(1,2)] link_inv_chan [OF assms(1,2)]
  by (intro link_inv_replace_same [OF assms(1,2)]) (auto simp: chans_def diff3_def)

lemma link_detach_ho:
  assumes "link_inv C K H" "K c = Some cn" "cn_ho_lchan cn = Some (ho_new_lchan ho)" "ho \<in> set H"
    "cn_ho_lchan cn' = None" "cn_lchan cn' = cn_lchan cn" "cn_secondary_lchan cn' = cn_secondary_lchan cn"
  shows "link_inv (C(ho_new_lchan ho := None)) (K(c \<mapsto> cn')) (remove1 ho H)"
  using assms(3-) link_invD(2) [OF assms(1,2)] link_inv_chan [OF assms(1,2)]
    distinct_remove1_image [OF link_invD(4) [OF assms(1)] assms(4)] distinct_map_remove1 [OF link_invD(4) [OF assms(1)]]
  by (intro link_inv_replace [OF assms(1,2)]) (auto simp: chans_def diff3_def)

text \<open>A place changes its role: the secondary or the handover channel becomes the primary one.\<close>

lemma link_same_chans:
  assumes "link_inv C K H" "K c = Some cn" "cn_ho_lchan cn' = cn_ho_lchan cn" "diff3 cn'" "chans cn' = chans cn"
  shows "link_inv C (K(c \<mapsto> cn')) H"
  using assms(3-) link_inv_chan [OF assms(1,2)]
  by (intro link_inv_replace_same [OF assms(1,2)]) auto

lemma link_promote_ho:
  assumes "link_inv C K H" "K c = Some cn" "cn_ho_lchan cn = Some (ho_new_lchan ho)" "ho \<in> set H" "cn_lchan cn = None"
    "cn_ho_lchan cn' = None" "cn_lchan cn' = Some (ho_new_lchan ho)" "cn_secondary_lchan cn' = cn_secondary_lchan cn"
  shows "link_inv C (K(c \<mapsto> cn')) (remove1 ho H)"
  using assms(3-) link_invD(2) [OF assms(1,2)] link_inv_chan [OF assms(1,2)]
    distinct_remove1_image [OF link_invD(4) [OF assms(1)] assms(4)] distinct_map_remove1 [OF link_invD(4) [OF assms(1)]]
  by (intro link_inv_replace [OF assms(1,2)]) (auto simp: chans_def diff3_def)

lemma link_attach_sec:
  assumes "link_inv C K H" "K c = Some cn" "C p = None" "cn_secondary_lchan cn = None"
    "cn_secondary_lchan cn' = Some p" "cn_ho_lchan cn' = cn_ho_lchan cn" "cn_lchan cn' = cn_lchan cn"
  shows "link_inv (C(p \<mapsto> c)) (K(c \<mapsto> cn')) H"
proof -
  have "p \<notin> chans cn" using link_inv_chan [OF assms(1,2), of p] assms(3) by auto
  then show ?thesis
    using assms(3-) link_invD(2) [OF assms(1,2)] link_inv_chan [OF assms(1,2)]
    by (intro link_inv_replace_same [OF assms(1,2)]) (auto simp: chans_def diff3_def)
qed

lemma link_attach_ho:
  assumes "link_inv C K H" "K c = Some cn" "C (ho_new_lchan ho) = None" "cn_ho_lchan cn = None"
    "cn_ho_lchan cn' = Some (ho_new_lchan ho)" "cn_secondary_lchan cn' = cn_secondary_lchan cn" "cn_lchan cn' = cn_lchan cn"
  shows "link_inv (C(ho_new_lchan ho \<mapsto> c)) (K(c \<mapsto> cn')) (ho # H)"
proof -
  let ?p = "ho_new_lchan ho"
  have p: "?p \<notin> chans cn" using link_inv_chan [OF assms(1,2), of ?p] assms(3) by auto
  have "?p \<notin> ho_new_lchan ` set H"
  proof
    assume "?p \<in> ho_new_lchan ` set H"
    then obtain c' cn'' where "K c' = Some cn''" "?p \<in> chans cn''"
      using link_invD(3) [OF assms(1), of ?p] by (auto simp: chans_def)
    then have "C ?p = Some c'" by (rule link_inv_chan [OF assms(1)])
    with assms(3) show False by simp
  qed
  with p show ?thesis
    using assms(3-) link_invD(2) [OF assms(1,2)] link_inv_chan [OF assms(1,2)] link_invD(4) [OF assms(1)]
    by (intro link_inv_replace [OF assms(1,2)]) (auto simp: chans_def diff3_def)
qed

lemma link_new_conn:
  assumes "link_inv C K H" "K c = None" "C p = None" "cn_lchan cn = Some p" "cn_ho_lchan cn = None" "cn_secondary_lchan cn = None"
  shows "link_inv (C(p \<mapsto> c)) (K(c \<mapsto> cn)) H"
  unfolding link_inv_def
proof (intro conjI allI)
  fix q c'
  show "(C(p \<mapsto> c)) q = Some c' \<longleftrightarrow> (\<exists>cn'. (K(c \<mapsto> cn)) c' = Some cn' \<and> q \<in> chans cn')"
    using assms(2-) link_invD(1) [OF assms(1), of q c'] link_invD(1) [OF assms(1), of p c']
    by (auto simp: chans_def)
  show "(K(c \<mapsto> cn)) c' = Some cn' \<longrightarrow> diff3 cn'" for cn'
    using assms(4-) link_invD(2) [OF assms(1), of c' cn'] by (auto simp: diff3_def)
  show "(\<exists>c' cn'. (K(c \<mapsto> cn)) c' = Some cn' \<and> cn_ho_lchan cn' = Some q) \<longleftrightarrow> q \<in> ho_new_lchan ` set H"
    using link_invD(3) [OF assms(1), of q] assms(2,5) by (metis fun_upd_apply option.distinct(1) option.inject)
qed (rule link_invD(4) [OF assms(1)])

lemma link_del_conn:
  assumes "link_inv C K H" "K c = Some cn" "chans cn = {}"
  shows "link_inv C (K(c := None)) H"
  unfolding link_inv_def
proof (intro conjI allI)
  fix q c'
  show "C q = Some c' \<longleftrightarrow> (\<exists>cn'. (K(c := None)) c' = Some cn' \<and> q \<in> chans cn')"
    using assms(2,3) link_invD(1) [OF assms(1), of q c'] by auto
  show "(K(c := None)) c' = Some cn' \<longrightarrow> diff3 cn'" for cn'
    using link_invD(2) [OF assms(1), of c' cn'] by auto
  have "cn_ho_lchan cn = None" using assms(3) by (auto simp: chans_def)
  then show "(\<exists>c' cn'. (K(c := None)) c' = Some cn' \<and> cn_ho_lchan cn' = Some q) \<longleftrightarrow> q \<in> ho_new_lchan ` set H"
    using link_invD(3) [OF assms(1), of q] assms(2) by (metis fun_upd_apply option.distinct(1) option.inject)
qed (rule link_invD(4) [OF assms(1)])

end
