(* ===== verification/Bsc_Net_Inv.thy ===== *)
theory Bsc_Net_Inv
  imports Bsc_Net Lchan_Life
begin

text \<open>
  The operations on connections keep the invariant of the network: assignment, handover, clearing,
  release and the messages of the mobile station, as far as the code relies on it. The conditions
  under which it holds (one assignment, one handover at a time for a connection) are the guards of
  the transition relation.
\<close>

declare split_paired_All [simp del] split_paired_Ex [simp del]

section \<open>The operations keep the invariant\<close>

lemma ho_by_new_SomeD: "bsc_ho_by_new_lchan n p = Some ho \<Longrightarrow> ho \<in> set (bn_hos n) \<and> ho_new_lchan ho = p"
  by (auto simp: bsc_ho_by_new_lchan_def find_Some_iff)

lemma ho_by_old_SomeD: "bsc_ho_by_old_lchan n p = Some ho \<Longrightarrow> ho \<in> set (bn_hos n) \<and> ho_old_lchan ho = p"
  by (auto simp: bsc_ho_by_old_lchan_def find_Some_iff)

lemma ho_by_new_found:
  assumes "link_inv C K (bn_hos n)" "K c = Some cn" "cn_ho_lchan cn = Some p"
  obtains ho where "bsc_ho_by_new_lchan n p = Some ho" "ho \<in> set (bn_hos n)" "ho_new_lchan ho = p"
proof -
  from assms have "p \<in> ho_new_lchan ` set (bn_hos n)" using link_invD(3) [OF assms(1), of p] by blast
  then have "find (\<lambda>ho. ho_new_lchan ho = p) (bn_hos n) \<noteq> None" by (auto simp: find_None_iff)
  then obtain ho where "bsc_ho_by_new_lchan n p = Some ho" by (auto simp: bsc_ho_by_new_lchan_def)
  with that ho_by_new_SomeD [OF this] show ?thesis by blast
qed

text \<open>
  Clearing a handover, when the handover channel may be excepted. The connection stays, without its
  handover channel.
\<close>

lemma clear_handover_st:
  assumes st: "st_inv X n" and link: "link_inv (conn_of n) (bn_conns n) (bn_hos n)" and K: "bn_conns n c = Some cn"
    and X: "\<And>p. fr \<Longrightarrow> cn_ho_lchan cn = Some p \<Longrightarrow> p \<notin> X"
  defines "n' \<equiv> fst (bsc_clear_handover c fr n)"
  shows "st_inv X n'" "link_inv (conn_of n') (bn_conns n') (bn_hos n')"
    "bn_conns n' = (bn_conns n)(c \<mapsto> cn\<lparr>cn_ho_lchan := None\<rparr>)" "\<And>q. valid_lc n' q = valid_lc n q"
    "\<And>q. valid_lc n q \<Longrightarrow> lc_type (net_lc n' q) = lc_type (net_lc n q)"
proof -
  have "st_inv X n' \<and> link_inv (conn_of n') (bn_conns n') (bn_hos n') \<and>
    bn_conns n' = (bn_conns n)(c \<mapsto> cn\<lparr>cn_ho_lchan := None\<rparr>) \<and> (\<forall>q. valid_lc n' q = valid_lc n q) \<and>
    (\<forall>q. valid_lc n q \<longrightarrow> lc_type (net_lc n' q) = lc_type (net_lc n q))"
  proof (cases "cn_ho_lchan cn")
    case None
    then have "cn\<lparr>cn_ho_lchan := None\<rparr> = cn" by simp
    with None K st link show ?thesis by (simp add: n'_def bsc_clear_handover_def fun_upd_idem)
  next
    case (Some p)
    from ho_by_new_found [OF link K Some] obtain ho where
      ho: "bsc_ho_by_new_lchan n p = Some ho" "ho \<in> set (bn_hos n)" "ho_new_lchan ho = p" .
    have cp: "conn_of n p = Some c" using link_inv_chan [OF link K, of p] Some by (simp add: chans_def)
    note v = conn_valid [of n p, unfolded cp, simplified]
    let ?n1 = "upd_conn c (\<lambda>cn. cn\<lparr>cn_ho_lchan := None\<rparr>) (set_conn_ptr p None n)"
    have n': "n' = del_ho ho (if fr then fst (net_release p 0 1 ?n1) else ?n1)"
      using K Some ho by (simp add: n'_def bsc_clear_handover_def Let_def case_prod_unfold)
    have s1: "st_inv X ?n1" using st_inv_set_conn_ptr [OF st, of p None] by simp
    have "st_inv X (fst (net_release p 0 1 ?n1))" if "fr"
      by (rule st_inv_net_release [OF s1]) (use st_inv_typed [OF st X [OF that Some]] cp v in simp)
    with s1 have "st_inv X n'" by (simp add: n')
    moreover have "conn_of n' = (conn_of n)(p := None)" "bn_conns n' = (bn_conns n)(c \<mapsto> cn\<lparr>cn_ho_lchan := None\<rparr>)"
      "bn_hos n' = remove1 ho (bn_hos n)" using K by (auto simp: n')
    moreover have "link_inv ((conn_of n)(p := None)) ((bn_conns n)(c \<mapsto> cn\<lparr>cn_ho_lchan := None\<rparr>)) (remove1 ho (bn_hos n))"
      using link_detach_ho [OF link K _ ho(2)] Some ho(3) by simp
    ultimately show ?thesis by (auto simp: n')
  qed
  then show "st_inv X n'" "link_inv (conn_of n') (bn_conns n') (bn_hos n')"
    "bn_conns n' = (bn_conns n)(c \<mapsto> cn\<lparr>cn_ho_lchan := None\<rparr>)" "\<And>q. valid_lc n' q = valid_lc n q"
    "\<And>q. valid_lc n q \<Longrightarrow> lc_type (net_lc n' q) = lc_type (net_lc n q)"
    by blast+
qed


text \<open>Clearing a connection whose remaining channels are not excepted: it has no channel afterwards.\<close>

lemma opt_release_view [simp]:
  "bn_conns (fst (opt_release po d r n)) = bn_conns n" "bn_hos (fst (opt_release po d r n)) = bn_hos n"
  "valid_lc (fst (opt_release po d r n)) q = valid_lc n q"
  "conn_of (fst (opt_release po d r n)) = (\<lambda>q. if po = Some q then None else conn_of n q)"
  "valid_lc n q \<Longrightarrow> lc_type (net_lc (fst (opt_release po d r n)) q) = lc_type (net_lc n q)"
  by (cases po; auto simp: opt_release_def)+

lemma st_inv_opt_release:
  assumes "st_inv X n" "\<And>p. po = Some p \<Longrightarrow> valid_lc n p \<Longrightarrow> lc_type (net_lc n p) \<noteq> GSM_LCHAN_NONE"
  shows "st_inv X (fst (opt_release po d r n))"
  using assms by (cases po) (auto simp: opt_release_def intro: st_inv_net_release)

lemma gsm0808_clear_st:
  assumes st: "st_inv X n" and link: "link_inv (conn_of n) (bn_conns n) (bn_hos n)" and K: "bn_conns n c = Some cn"
    and X: "chans cn \<inter> X = {}"
  defines "n' \<equiv> fst (gsm0808_clear c n)"
  shows "st_inv X n'" "link_inv (conn_of n') (bn_conns n') (bn_hos n')"
    "\<exists>cn'. bn_conns n' = (bn_conns n)(c \<mapsto> cn') \<and> chans cn' = {}" "conn_of n p = None \<Longrightarrow> conn_of n' p = None"
proof -
  define n1 where "n1 = fst (bsc_clear_handover c True n)"
  have Xh: "p \<notin> X" if "cn_ho_lchan cn = Some p" for p using X that by (auto simp: chans_def)
  have 1: "st_inv X n1" "link_inv (conn_of n1) (bn_conns n1) (bn_hos n1)"
    "bn_conns n1 = (bn_conns n)(c \<mapsto> cn\<lparr>cn_ho_lchan := None\<rparr>)" "\<And>q. valid_lc n1 q = valid_lc n q"
    "\<And>q. valid_lc n q \<Longrightarrow> lc_type (net_lc n1 q) = lc_type (net_lc n q)"
    unfolding n1_def by (rule clear_handover_st [OF st link K], erule Xh, assumption?)+
  define n2 where "n2 = fst (opt_release (cn_secondary_lchan cn) 0 1 n1)"
  define n3 where "n3 = fst (opt_release (cn_lchan cn) 1 0 n2)"
  let ?e = "\<lparr>cn_lchan = None, cn_ho_lchan = None, cn_secondary_lchan = None, cn_bts = None, cn_T10 = False\<rparr>"
  have n': "n' = upd_conn c (\<lambda>_. ?e) n3"
    using 1(3) by (simp add: n'_def gsm0808_clear_def Let_def case_prod_unfold n3_def n2_def n1_def)
  have ty: "lc_type (net_lc n p) \<noteq> GSM_LCHAN_NONE" if "p \<in> chans cn" for p
    using st_inv_typed [OF st, of p] link_inv_chan [OF link K that] X that by auto
  have s2: "st_inv X n2" unfolding n2_def
    by (rule st_inv_opt_release [OF 1(1)]) (use ty 1(4,5) in \<open>simp add: chans_def\<close>)
  have s3: "st_inv X n3" unfolding n3_def
    by (rule st_inv_opt_release [OF s2]) (use ty 1(4,5) in \<open>simp add: chans_def n2_def\<close>)
  then show "st_inv X n'" by (simp add: n')
  have K1: "bn_conns n1 c = Some (cn\<lparr>cn_ho_lchan := None\<rparr>)" by (simp add: 1(3))
  have C': "conn_of n' = (\<lambda>q. if q \<in> chans (cn\<lparr>cn_ho_lchan := None\<rparr>) then None else conn_of n1 q)"
    by (rule ext) (auto simp: n' n3_def n2_def chans_def)
  have K': "bn_conns n' = (bn_conns n1)(c \<mapsto> ?e)" "bn_hos n' = bn_hos n1"
    by (simp_all add: n' n3_def n2_def K1)
  show "link_inv (conn_of n') (bn_conns n') (bn_hos n')"
    unfolding K'
    by (rule link_inv_replace_same [OF 1(2) K1]) (simp_all add: diff3_def chans_def C')
  show "\<exists>cn'. bn_conns n' = (bn_conns n)(c \<mapsto> cn') \<and> chans cn' = {}"
    using K' 1(3) by (intro exI [of _ ?e]) (simp add: chans_def)
  assume None: "conn_of n p = None"
  show "conn_of n' p = None"
  proof (rule ccontr)
    assume "conn_of n' p \<noteq> None"
    then obtain c' where "conn_of n1 p = Some c'" by (auto simp: C' split: if_splits)
    then obtain cn' where "bn_conns n1 c' = Some cn'" "p \<in> chans cn'" using link_invD(1) [OF 1(2)] by blast
    then obtain cn'' where "bn_conns n c' = Some cn''" "p \<in> chans cn''"
      using 1(3) K by (auto simp: chans_def split: if_splits)
    from link_inv_chan [OF link this] None show False by simp
  qed
qed

lemma gsm0808_clear_inv:
  assumes "net_inv n"
  shows "net_inv (fst (gsm0808_clear c n))"
proof (cases "bn_conns n c")
  case None
  then have "bn_conns (fst (gsm0808_clear c n)) = bn_conns n" "bn_hos (fst (gsm0808_clear c n)) = bn_hos n"
    "bn_bts (fst (gsm0808_clear c n)) = bn_bts n"
    by (simp_all add: gsm0808_clear_def bsc_clear_handover_def opt_release_def fun_upd_idem)
  moreover from this(3) have "conn_of (fst (gsm0808_clear c n)) = conn_of n"
    by (simp add: conn_of_def valid_lc_def net_lc_def fun_eq_iff)
  ultimately show ?thesis using assms st_inv_frame by (metis net_inv_def)
next
  case (Some cn)
  with assms gsm0808_clear_st [of "{}" n c cn] show ?thesis by (simp add: net_inv_def)
qed

lemma con_free_empty:
  "bn_conns n c = Some cn \<Longrightarrow> chans cn = {} \<Longrightarrow> subscr_con_free c n = n\<lparr>bn_conns := (bn_conns n)(c := None)\<rparr>"
  by (simp add: subscr_con_free_def chans_def clear_ptr_def)

text \<open>
  An unexpected release: first the channel leaves its place in the connection, then the connection
  is cleared.
\<close>

lemma leave_place:
  assumes st: "st_inv {p} n" and link: "link_inv (conn_of n) (bn_conns n) (bn_hos n)"
    and K: "bn_conns n c = Some cn" and p: "p \<in> chans cn"
  defines "n1 \<equiv> (if cn_secondary_lchan cn = Some p
                  then upd_conn c (\<lambda>cn. cn\<lparr>cn_T10 := False, cn_secondary_lchan := None\<rparr>) n else n)"
  defines "n2 \<equiv> upd_conn c (\<lambda>cn. if cn_lchan cn = Some p then cn\<lparr>cn_lchan := None\<rparr> else cn) n1"
  defines "n3 \<equiv> (if cn_ho_lchan cn = Some p
                  then upd_conn c (\<lambda>cn. cn\<lparr>cn_ho_lchan := None\<rparr>) (fst (bsc_clear_handover c False n2)) else n2)"
  defines "n4 \<equiv> set_conn_ptr p None n3"
  shows "st_inv {p} n4 \<and> link_inv (conn_of n4) (bn_conns n4) (bn_hos n4) \<and>
    (\<exists>cn'. bn_conns n4 = (bn_conns n)(c \<mapsto> cn') \<and> p \<notin> chans cn')"
proof -
  have cp: "conn_of n p = Some c" by (rule link_inv_chan [OF link K p])
  have d: "diff3 cn" by (rule link_invD(2) [OF link K])
  from p consider (sec) "cn_secondary_lchan cn = Some p" | (prim) "cn_lchan cn = Some p" | (ho) "cn_ho_lchan cn = Some p"
    by (auto simp: chans_def)
  then show ?thesis
  proof cases
    case sec
    with d have o: "cn_lchan cn \<noteq> Some p" "cn_ho_lchan cn \<noteq> Some p" by (auto simp: diff3_def)
    let ?cn = "cn\<lparr>cn_T10 := False, cn_secondary_lchan := None\<rparr>"
    have "bn_conns n4 = (bn_conns n)(c \<mapsto> ?cn)" "bn_hos n4 = bn_hos n" "conn_of n4 = (conn_of n)(p := None)"
      "st_inv {p} n4"
      using sec o K st_inv_set_conn_ptr [of "{p}" n3 p None] st by (simp_all add: n4_def n3_def n2_def n1_def)
    with link_detach_sec [OF link K sec, of ?cn] o show ?thesis by (auto simp: chans_def)
  next
    case prim
    with d have o: "cn_secondary_lchan cn \<noteq> Some p" "cn_ho_lchan cn \<noteq> Some p" by (auto simp: diff3_def)
    let ?cn = "cn\<lparr>cn_lchan := None\<rparr>"
    have "bn_conns n4 = (bn_conns n)(c \<mapsto> ?cn)" "bn_hos n4 = bn_hos n" "conn_of n4 = (conn_of n)(p := None)"
      "st_inv {p} n4"
      using prim o K st_inv_set_conn_ptr [of "{p}" n3 p None] st by (simp_all add: n4_def n3_def n2_def n1_def)
    with link_detach_prim [OF link K prim, of ?cn] o show ?thesis by (auto simp: chans_def)
  next
    case ho
    with d have o: "cn_secondary_lchan cn \<noteq> Some p" "cn_lchan cn \<noteq> Some p" by (auto simp: diff3_def)
    let ?cn = "cn\<lparr>cn_ho_lchan := None\<rparr>"
    have K2: "bn_conns n2 = bn_conns n" "bn_hos n2 = bn_hos n" "conn_of n2 = conn_of n" "st_inv {p} n2"
      using o K st by (auto simp: n2_def n1_def)
    define m where "m = fst (bsc_clear_handover c False n2)"
    have m: "st_inv {p} m" "link_inv (conn_of m) (bn_conns m) (bn_hos m)" "bn_conns m = (bn_conns n2)(c \<mapsto> ?cn)"
      unfolding m_def by (rule clear_handover_st [OF K2(4)]; use link K in \<open>simp add: K2\<close>)+
    have n4: "n4 = set_conn_ptr p None (upd_conn c (\<lambda>cn. cn\<lparr>cn_ho_lchan := None\<rparr>) m)"
      using ho by (simp add: n4_def n3_def m_def)
    have pn: "p \<notin> chans ?cn" using o by (auto simp: chans_def)
    have "conn_of m p = None"
    proof (rule ccontr)
      assume "conn_of m p \<noteq> None"
      then obtain c' cn' where "bn_conns m c' = Some cn'" "p \<in> chans cn'" using link_invD(1) [OF m(2)] by blast
      with pn have "bn_conns n c' = Some cn'" "c' \<noteq> c" by (auto simp: m(3) K2 split: if_splits)
      with link_unique [OF link K p _ \<open>p \<in> chans cn'\<close>] show False by blast
    qed
    then have "conn_of n4 = conn_of m" "bn_conns n4 = bn_conns m" "bn_hos n4 = bn_hos m" "st_inv {p} n4"
      using m(1) st_inv_set_conn_ptr [of "{p}" "upd_conn c (\<lambda>cn. cn\<lparr>cn_ho_lchan := None\<rparr>) m" p None]
      by (auto simp: n4 m(3))
    with m K2 pn show ?thesis by auto
  qed
qed

lemma handle_release_st:
  fixes destruct :: bool
  assumes st: "st_inv {p} n" and link: "link_inv (conn_of n) (bn_conns n) (bn_hos n)" and c: "conn_of n p = Some c"
  defines "n' \<equiv> fst (handle_release destruct c p n)"
  shows "st_inv {p} n' \<and> link_inv (conn_of n') (bn_conns n') (bn_hos n') \<and> conn_of n' p = None"
proof -
  from c obtain cn where K: "bn_conns n c = Some cn" and p: "p \<in> chans cn" using link_invD(1) [OF link] by blast
  note lp = leave_place [OF st link K p]
  define n1 where "n1 = (if cn_secondary_lchan cn = Some p
                  then upd_conn c (\<lambda>cn. cn\<lparr>cn_T10 := False, cn_secondary_lchan := None\<rparr>) n else n)"
  define n2 where "n2 = upd_conn c (\<lambda>cn. if cn_lchan cn = Some p then cn\<lparr>cn_lchan := None\<rparr> else cn) n1"
  define n3 where "n3 = (if cn_ho_lchan cn = Some p
                  then upd_conn c (\<lambda>cn. cn\<lparr>cn_ho_lchan := None\<rparr>) (fst (bsc_clear_handover c False n2)) else n2)"
  define n4 where "n4 = set_conn_ptr p None n3"
  note lp = lp [folded n1_def, folded n2_def, folded n3_def, folded n4_def]
  then obtain cn' where s4: "st_inv {p} n4" and l4: "link_inv (conn_of n4) (bn_conns n4) (bn_hos n4)"
    and K4: "bn_conns n4 c = Some cn'" and p4: "p \<notin> chans cn'" by auto
  have h: "Option.bind (bn_conns n2 c) cn_ho_lchan = cn_ho_lchan cn"
    using K by (auto simp: n2_def n1_def)
  define n5 where "n5 = fst (gsm0808_clear c n4)"
  have n': "n' = (if destruct then subscr_con_free c n5 else n5)"
    using K by (simp add: n'_def handle_release_def Let_def case_prod_unfold n5_def n4_def n3_def h [unfolded n2_def n1_def] n2_def n1_def
        if_distrib [of fst] cong: if_cong)
  have X: "chans cn' \<inter> {p} = {}" using p4 by simp
  note 5 = gsm0808_clear_st [OF s4 l4 K4 X, folded n5_def]
  from 5(3) obtain e where e: "bn_conns n5 c = Some e" "chans e = {}" by auto
  have "conn_of n4 p = None" by (simp add: n4_def)
  from 5(4) [OF this] have "conn_of n5 p = None" .
  moreover have "link_inv (conn_of n5) ((bn_conns n5)(c := None)) (bn_hos n5)"
    by (rule link_del_conn [OF 5(2) e])
  ultimately show ?thesis using 5(1,2) by (auto simp: n' con_free_empty [OF e])
qed


section \<open>Freeing a channel\<close>

lemma free_rest_fields [simp]:
  "lc_conn (free_rest lc) = None" "lc_type (free_rest lc) = lc_type lc" "lc_state (free_rest lc) = lc_state lc"
  by (auto simp: free_rest_def Let_def clear_meas_def)

lemma wf_free_rest: "wf_lchan s lc \<Longrightarrow> wf_lchan s (free_rest lc)"
  using wf_clear_meas [of s "lc\<lparr>lc_T3101 := None\<rparr>"] by (auto simp: free_rest_def Let_def)

lemma st_inv_strengthen: "st_inv (insert p X) n \<Longrightarrow> conn_of n p = None \<Longrightarrow> st_inv X n"
  unfolding st_inv_def by (metis insertE)

lemma freed_links:
  fixes destruct :: bool
  assumes "net_inv n" and v: "valid_lc n p"
  defines "n1 \<equiv> upd_lc p (\<lambda>lc. lc\<lparr>lc_type := GSM_LCHAN_NONE, lc_state := LCHAN_S_NONE\<rparr>) n"
  defines "n2 \<equiv> (case lc_conn (net_lc n p) of None \<Rightarrow> n1 | Some c \<Rightarrow> fst (handle_release destruct c p n1))"
  shows "st_inv {p} n2 \<and> link_inv (conn_of n2) (bn_conns n2) (bn_hos n2) \<and> conn_of n2 p = None"
proof -
  from assms(1) have st: "st_inv {} n" and link: "link_inv (conn_of n) (bn_conns n) (bn_hos n)" by (simp_all add: net_inv_def)
  have "st_inv {p} n" using st by (simp add: st_inv_def)
  then have s1: "st_inv {p} n1"
    unfolding n1_def by (rule st_inv_upd_lc) (simp_all add: free_lchan_inv lchan_is_free_def)
  have C1: "conn_of n1 = conn_of n" using v by (auto simp: n1_def conn_of_upd_lc conn_of_def fun_eq_iff)
  show ?thesis
  proof (cases "lc_conn (net_lc n p)")
    case None
    then show ?thesis using s1 link C1 by (simp add: n2_def conn_of_def) (simp add: n1_def)
  next
    case (Some c)
    have "link_inv (conn_of n1) (bn_conns n1) (bn_hos n1)" using link by (simp add: C1) (simp add: n1_def)
    moreover have "conn_of n1 p = Some c" using Some v by (simp add: C1) (simp add: conn_of_def)
    ultimately show ?thesis using handle_release_st [OF s1] Some by (simp add: n2_def)
  qed
qed

lemma net_lchan_free_inv:
  assumes "net_inv n" "valid_lc n p"
  shows "net_inv (fst (net_lchan_free destruct p n))"
proof -
  define n1 where "n1 = upd_lc p (\<lambda>lc. lc\<lparr>lc_type := GSM_LCHAN_NONE, lc_state := LCHAN_S_NONE\<rparr>) n"
  define n2 where "n2 = (case lc_conn (net_lc n p) of None \<Rightarrow> n1 | Some c \<Rightarrow> fst (handle_release destruct c p n1))"
  note 2 = freed_links [OF assms, of destruct, folded n1_def, folded n2_def]
  have e: "fst (net_lchan_free destruct p n) = upd_lc p free_rest n2"
    by (simp add: net_lchan_free_def n2_def n1_def Let_def case_prod_unfold split: option.split)
  have "st_inv {p} (upd_lc p free_rest n2)"
    using 2 by (intro st_inv_upd_lc) (simp_all add: wf_free_rest lchan_inv_same [of "free_rest (net_lc n2 p)" "net_lc n2 p"])
  moreover have c: "conn_of (upd_lc p free_rest n2) = conn_of n2" using 2 by (auto simp: conn_of_upd_lc fun_eq_iff)
  ultimately have "st_inv {} (upd_lc p free_rest n2)" using 2 by (intro st_inv_strengthen [of p "{}"]) simp_all
  then show ?thesis using 2 by (simp add: e net_inv_def c)
qed

text \<open>What freeing a channel does to the channel itself: other channels of the connection are different ones.\<close>

definition unlink :: "gsm_lchan \<Rightarrow> gsm_lchan" where
  "unlink lc = lc\<lparr>lc_conn := None\<rparr>"

lemma unlink_upd [simp]: "unlink (lc\<lparr>lc_conn := c\<rparr>) = unlink lc"
  by (simp add: unlink_def)

lemma net_lc_frames [simp]:
  "net_lc (upd_conn c f n) p = net_lc n p" "net_lc (del_ho ho n) p = net_lc n p"
  by (simp_all add: net_lc_def upd_conn_def del_ho_def)

lemma unlink_set_conn_ptr [simp]: "valid_lc n p \<Longrightarrow> unlink (net_lc (set_conn_ptr q c n) p) = unlink (net_lc n p)"
  by (simp add: set_conn_ptr_def net_lc_upd_lc)

lemma unlink_release: "valid_lc n p \<Longrightarrow> po \<noteq> Some p \<Longrightarrow> net_lc (fst (opt_release po d r n)) p = net_lc n p"
  by (auto simp: opt_release_def net_release_def net_lc_upd_lc split: option.split)

lemma clear_handover_lc:
  assumes "valid_lc n p" "fr \<Longrightarrow> Option.bind (bn_conns n c) cn_ho_lchan \<noteq> Some p"
  shows "unlink (net_lc (fst (bsc_clear_handover c fr n)) p) = unlink (net_lc n p)"
proof (cases "\<exists>q ho. Option.bind (bn_conns n c) cn_ho_lchan = Some q \<and> bsc_ho_by_new_lchan n q = Some ho")
  case True
  then obtain q ho cn where q: "bn_conns n c = Some cn" "cn_ho_lchan cn = Some q" "bsc_ho_by_new_lchan n q = Some ho"
    by (auto simp: bind_eq_Some_conv)
  with ho_by_new_SomeD [OF q(3)] assms show ?thesis
    by (auto simp: bsc_clear_handover_def Let_def net_release_def net_lc_upd_lc)
qed (auto simp: bsc_clear_handover_def split: option.splits)

lemma clear_handover_conns:
  "bn_conns (fst (bsc_clear_handover c fr n)) c' = bn_conns n c' \<or>
   bn_conns (fst (bsc_clear_handover c fr n)) c' = map_option (\<lambda>cn. cn\<lparr>cn_ho_lchan := None\<rparr>) (bn_conns n c')"
  by (auto simp: bsc_clear_handover_def Let_def case_prod_unfold upd_conn_def set_conn_ptr_def upd_lc_def split: option.splits)

lemma clear_handover_valid [simp]: "valid_lc (fst (bsc_clear_handover c fr n)) q = valid_lc n q"
  by (auto simp: bsc_clear_handover_def Let_def case_prod_unfold split: option.splits)

lemma gsm0808_clear_lc:
  assumes v: "valid_lc n p" and K: "bn_conns n c = Some cn" and p: "p \<notin> chans cn"
  shows "unlink (net_lc (fst (gsm0808_clear c n)) p) = unlink (net_lc n p)"
proof -
  let ?n1 = "fst (bsc_clear_handover c True n)"
  have "Option.bind (bn_conns ?n1 c) cn_secondary_lchan \<noteq> Some p" "Option.bind (bn_conns ?n1 c) cn_lchan \<noteq> Some p"
    using clear_handover_conns [of c True n c] K p by (auto simp: chans_def)
  then have "net_lc (fst (gsm0808_clear c n)) p = net_lc ?n1 p"
    using v by (simp add: gsm0808_clear_def Let_def case_prod_unfold unlink_release)
  moreover have "unlink (net_lc ?n1 p) = unlink (net_lc n p)"
    by (rule clear_handover_lc [OF v]) (use K p in \<open>auto simp: chans_def\<close>)
  ultimately show ?thesis by simp
qed

lemma handle_release_lc:
  assumes v: "valid_lc n p" and K: "bn_conns n c = Some cn" and d: "diff3 cn" and p: "p \<in> chans cn"
  shows "unlink (net_lc (fst (handle_release destruct c p n)) p) = unlink (net_lc n p) \<and>
    valid_lc (fst (handle_release destruct c p n)) p"
proof -
  let ?n1 = "if cn_secondary_lchan cn = Some p
             then upd_conn c (\<lambda>cn. cn\<lparr>cn_T10 := False, cn_secondary_lchan := None\<rparr>) n else n"
  define n2 where "n2 = upd_conn c (\<lambda>cn. if cn_lchan cn = Some p then cn\<lparr>cn_lchan := None\<rparr> else cn) ?n1"
  define n3 where "n3 = (if cn_ho_lchan cn = Some p
             then upd_conn c (\<lambda>cn. cn\<lparr>cn_ho_lchan := None\<rparr>) (fst (bsc_clear_handover c False n2)) else n2)"
  define n5 where "n5 = fst (gsm0808_clear c (set_conn_ptr p None n3))"
  have h: "Option.bind (bn_conns n2 c) cn_ho_lchan = cn_ho_lchan cn" using K by (auto simp: n2_def)
  have e: "fst (handle_release destruct c p n) = (if destruct then subscr_con_free c n5 else n5)"
    using K by (simp add: handle_release_def Let_def case_prod_unfold n5_def n3_def h [unfolded n2_def] n2_def
        if_distrib [of fst] cong: if_cong)
  have u2: "unlink (net_lc n2 p) = unlink (net_lc n p)" "valid_lc n2 p" using v by (simp_all add: n2_def)
  then have u3: "unlink (net_lc n3 p) = unlink (net_lc n p)" "valid_lc n3 p"
    using clear_handover_lc [of n2 p False c] by (simp_all add: n3_def)
  obtain cn2 where c2: "bn_conns n2 c = Some cn2" "cn_lchan cn2 \<noteq> Some p" "cn_secondary_lchan cn2 \<noteq> Some p"
    "cn_ho_lchan cn2 = cn_ho_lchan cn"
    using K by (cases "cn_secondary_lchan cn = Some p"; cases "cn_lchan cn = Some p") (auto simp: n2_def)
  then obtain cn3 where c3: "bn_conns n3 c = Some cn3" "p \<notin> chans cn3"
    using clear_handover_conns [of c False n2 c]
    by (cases "cn_ho_lchan cn = Some p") (auto simp: n3_def chans_def)
  then have "unlink (net_lc n5 p) = unlink (net_lc n p)" "valid_lc n5 p"
    using gsm0808_clear_lc [of "set_conn_ptr p None n3" p c cn3] u3
    by (simp_all add: n5_def) (simp add: gsm0808_clear_def Let_def case_prod_unfold)
  then show ?thesis
    by (auto simp: e subscr_con_free_def clear_ptr_def Let_def split: option.split)
qed

lemma clear_meas_frame: "lc_conn (clear_meas lc) = lc_conn lc" "lc_rqd_ref (clear_meas lc) = lc_rqd_ref lc"
  by (simp_all add: clear_meas_def)

lemma unlink_id: "lc_conn lc = None \<Longrightarrow> unlink lc = lc"
  by (simp add: unlink_def)

lemma lchan_free_unlink:
  "fst (lchan_free (bsc_handle_lchan_signal sec) lc) = free_rest (unlink (lc\<lparr>lc_type := GSM_LCHAN_NONE, lc_state := LCHAN_S_NONE\<rparr>))"
proof (cases "lc_conn lc")
  case None
  then have u: "unlink (lc\<lparr>lc_type := GSM_LCHAN_NONE, lc_state := LCHAN_S_NONE\<rparr>) = lc\<lparr>lc_type := GSM_LCHAN_NONE, lc_state := LCHAN_S_NONE\<rparr>"
    by (intro unlink_id) simp
  show ?thesis unfolding u using None
    by (simp add: free_rest_def lchan_free_def Let_def bsc_handle_lchan_signal_def clear_meas_frame)
next
  case (Some c)
  then show ?thesis
    by (simp add: free_rest_def lchan_free_def Let_def unlink_def bsc_handle_lchan_signal_def clear_meas_frame)
qed

lemma net_lchan_free_lc:
  assumes inv: "net_inv n" and v: "valid_lc n p"
  shows "net_lc (fst (net_lchan_free destruct p n)) p = fst (lchan_free (bsc_handle_lchan_signal sec) (net_lc n p))"
proof -
  let ?lc = "(net_lc n p)\<lparr>lc_type := GSM_LCHAN_NONE, lc_state := LCHAN_S_NONE\<rparr>"
  define n1 where "n1 = upd_lc p (\<lambda>lc. lc\<lparr>lc_type := GSM_LCHAN_NONE, lc_state := LCHAN_S_NONE\<rparr>) n"
  define n2 where "n2 = (case lc_conn (net_lc n p) of None \<Rightarrow> n1 | Some c \<Rightarrow> fst (handle_release destruct c p n1))"
  have n1: "net_lc n1 p = ?lc" "valid_lc n1 p" using v by (simp_all add: n1_def net_lc_upd_lc)
  note 2 = freed_links [OF inv v, of destruct, folded n1_def, folded n2_def]
  have e: "fst (net_lchan_free destruct p n) = upd_lc p free_rest n2"
    by (simp add: net_lchan_free_def n2_def n1_def Let_def case_prod_unfold split: option.split)
  have u: "unlink (net_lc n2 p) = unlink ?lc \<and> valid_lc n2 p"
  proof (cases "lc_conn (net_lc n p)")
    case (Some c)
    with v have C: "conn_of n p = Some c" by (simp add: conn_of_def)
    from inv have link: "link_inv (conn_of n) (bn_conns n) (bn_hos n)" by (simp add: net_inv_def)
    with C obtain cn where K: "bn_conns n c = Some cn" "p \<in> chans cn" using link_invD(1) [OF link] by blast
    have "bn_conns n1 c = Some cn" using K by (simp add: n1_def)
    from handle_release_lc [OF n1(2) this link_invD(2) [OF link K(1)] K(2), of destruct] Some show ?thesis
      by (simp add: n2_def n1)
  qed (simp add: n2_def n1)
  then have v2: "valid_lc n2 p" by simp
  have "lc_conn (net_lc n2 p) = None" using 2 v2 by (simp add: conn_of_def)
  then have "unlink (net_lc n2 p) = net_lc n2 p" by (simp add: unlink_def)
  then have "net_lc n2 p = unlink ?lc" using u by simp
  then show ?thesis using v2 by (simp only: e net_lc_upd_lc lchan_free_unlink if_True simp_thms)
qed

section \<open>Allocating a channel for a connection\<close>

lemma lchan_alloc_conn:
  assumes "alloc_inv bts" "lchan_alloc bts ty big = (bts', Some p, ev)" "valid_lchan bts q"
  shows "lc_conn (the_lchan bts' q) = lc_conn (the_lchan bts q)"
  using assms(1,2)
proof (cases rule: lchan_alloc_cases)
  case (ok p' pchan b ty')
  with assms found_keeps(2,3) [OF ok(2) assms(1), of q] show ?thesis
    by (cases "p' = q") (auto simp: init_alloc_def)
qed simp

lemma net_alloc:
  assumes st: "st_inv {} n" and b: "b < length (bn_bts n)"
    and a: "lchan_alloc (bn_bts n ! b) ty big = (bts', Some p, ev)"
  defines "n1 \<equiv> n\<lparr>bn_bts := (bn_bts n)[b := bts']\<rparr>"
  shows "st_inv {} n1" "conn_of n1 = conn_of n" "conn_of n (b, p) = None" "valid_lc n1 q = valid_lc n q" "valid_lc n (b, p)"
    "lc_type (net_lc n1 (b, p)) \<noteq> GSM_LCHAN_NONE" "bn_conns n1 = bn_conns n" "bn_hos n1 = bn_hos n"
proof -
  obtain t j s where p: "p = (t, j, s)" by (cases p)
  note inv = st_inv_alloc [OF st b]
  note S = lchan_alloc_SomeD [OF inv a [unfolded p], folded p]
  note val = lchan_alloc_valid [OF inv a]
  note cn = lchan_alloc_conn [OF inv a]
  show v: "valid_lc n (b, p)" using S(1) b by (simp add: valid_lc_def)
  have v1: "\<And>q. valid_lc n1 q = valid_lc n q" using val b by (auto simp: n1_def valid_lc_def nth_list_update)
  then show "valid_lc n1 q = valid_lc n q" by simp
  have "lc_type (net_lc n (b, p)) = GSM_LCHAN_NONE" using S(2) by (simp add: net_lc_def lchan_is_free_def)
  with st_inv_typed [OF st, of "(b, p)"] show c0: "conn_of n (b, p) = None" by blast
  show C: "conn_of n1 = conn_of n"
    using cn b by (auto simp: conn_of_def v1 fun_eq_iff) (auto simp: n1_def net_lc_def valid_lc_def nth_list_update)
  show ty: "lc_type (net_lc n1 (b, p)) \<noteq> GSM_LCHAN_NONE"
    using S(3) b by (auto simp: n1_def net_lc_def chan_fits_def p split: gsm_chan_t.splits)
  have "lc_type (net_lc n1 q) \<noteq> GSM_LCHAN_NONE" if "conn_of n1 q \<noteq> None" for q
  proof -
    from that have "q \<noteq> (b, p)" "valid_lc n q" using c0 conn_valid [of n q] by (auto simp: C)
    then have "net_lc n1 q = net_lc n q"
      using S(5) [of "snd q"] b by (cases "fst q = b"; cases q) (auto simp: n1_def net_lc_def valid_lc_def)
    with that st_inv_typed [OF st, of q] show ?thesis by (simp add: C)
  qed
  moreover have "alloc_inv (bn_bts n1 ! k)" if "k < length (bn_bts n)" for k
    using that b lchan_alloc_inv [OF inv a] st_inv_alloc [OF st that] by (cases "k = b") (simp_all add: n1_def)
  moreover have "length (bn_bts n1) = length (bn_bts n)" by (simp add: n1_def)
  ultimately show "st_inv {} n1" by (simp add: st_inv_def)
  show "bn_conns n1 = bn_conns n" "bn_hos n1 = bn_hos n" by (simp_all add: n1_def)
qed

lemma net_alloc_None:
  assumes "st_inv {} n" "b < length (bn_bts n)" "lchan_alloc (bn_bts n ! b) ty big = (bts', None, ev)"
  shows "n\<lparr>bn_bts := (bn_bts n)[b := bts']\<rparr> = n"
  using lchan_alloc_cases [OF st_inv_alloc [OF assms(1,2)] assms(3)] by (metis list_update_id option.distinct(1) bsc_net.surjective bsc_net.update_convs(1))


text \<open>A write to an allocated channel that keeps its type and its connection.\<close>

lemma st_inv_write:
  assumes "st_inv {} n" "valid_lc n p \<Longrightarrow> lc_type (net_lc n p) \<noteq> GSM_LCHAN_NONE"
    and "\<And>s lc. wf_lchan s lc \<Longrightarrow> wf_lchan s (f lc)" "\<And>lc. lc_type (f lc) = lc_type lc" "valid_lc n p"
  shows "st_inv {} (upd_lc p f n)"
proof (rule st_inv_upd_lc [OF assms(1,3)])
  show "lchan_inv pchan s (f (net_lc n p))" if "valid_lc n p" "lchan_inv pchan s (net_lc n p)" for pchan s
    using that assms(2,4) by (blast intro: lchan_inv_allocated)
qed (use assms in auto)

lemma conn_of_upd_same: "(\<And>lc. lc_conn (f lc) = lc_conn lc) \<Longrightarrow> conn_of (upd_lc p f n) = conn_of n"
  by (auto simp: conn_of_def net_lc_upd_lc fun_eq_iff)

lemma wf_lchan_params [simp]:
  "wf_lchan s (copy_params o_lc lc) = wf_lchan s lc"
  "wf_lchan s (lc\<lparr>lc_tch_mode := m\<rparr>) = wf_lchan s lc"
  "wf_lchan s (lc\<lparr>lc_rsl_cmode := r\<rparr>) = wf_lchan s lc"
  "wf_lchan s (handle_mr_config lc) = wf_lchan s lc"
  by (simp_all add: wf_lchan_def copy_params_def handle_mr_config_def)

lemma params_fields [simp]:
  "lc_type (copy_params o_lc lc) = lc_type lc" "lc_conn (copy_params o_lc lc) = lc_conn lc"
  "lc_type (handle_mr_config lc) = lc_type lc" "lc_conn (handle_mr_config lc) = lc_conn lc"
  "lc_type (rsl_lchan_set_state st lc) = lc_type lc" "lc_conn (rsl_lchan_set_state st lc) = lc_conn lc"
  "wf_lchan s (rsl_lchan_set_state st lc) = wf_lchan s lc"
  by (simp_all add: copy_params_def handle_mr_config_def rsl_lchan_set_state_def)

text \<open>Freeing a channel without a connection.\<close>

lemma net_free_unlinked:
  assumes h: "signal_handler (env_handler env)" and inv: "net_inv n" and c: "conn_of n p = None"
  shows "net_inv (fst (net_free env p n))"
proof -
  from inv have st: "st_inv {} n" and link: "link_inv (conn_of n) (bn_conns n) (bn_hos n)" by (simp_all add: net_inv_def)
  let ?f = "\<lambda>lc. fst (lchan_free (env_handler env) lc)"
  have "st_inv {} (upd_lc p ?f n)"
    using signal_handler.lchan_free_wf [OF h] signal_handler.lchan_free_free [OF h]
    by (intro st_inv_upd_lc [OF st]) (auto simp: lchan_free_conn free_lchan_inv)
  moreover have "conn_of (upd_lc p ?f n) = conn_of n" using c by (auto simp: conn_of_upd_lc lchan_free_conn fun_eq_iff)
  ultimately show ?thesis using link by (simp add: net_free_def net_inv_def)
qed

section \<open>Assignment\<close>

lemma handle_new_assignment_inv:
  assumes h: "signal_handler (env_handler env)" and inv: "net_inv n" and K: "bn_conns n c = Some cn"
    and guard: "cn_secondary_lchan cn = None" and b: "cn_bts cn = Some b" "b < length (bn_bts n)" and prim: "cn_lchan cn = Some q"
  shows "\<exists>n' ev rc. handle_new_assignment env c mode full n = Some (n', ev, rc) \<and> net_inv n'"
proof -
  from inv have st: "st_inv {} n" and link: "link_inv (conn_of n) (bn_conns n) (bn_hos n)" by (simp_all add: net_inv_def)
  let ?ty = "if full then GSM_LCHAN_TCH_F else GSM_LCHAN_TCH_H"
  obtain bts' r ev where a: "lchan_alloc (bn_bts n ! b) ?ty False = (bts', r, ev)"
    by (cases "lchan_alloc (bn_bts n ! b) ?ty False")
  show ?thesis
  proof (cases r)
    case None
    then show ?thesis
      using a K b prim inv net_alloc_None [OF st b(2), of ?ty False bts' ev] by (simp add: handle_new_assignment_def)
  next
    case (Some p)
    define n1 where "n1 = n\<lparr>bn_bts := (bn_bts n)[b := bts']\<rparr>"
    note A = net_alloc [OF st b(2) a [unfolded Some], folded n1_def]
    define fill where "fill = (\<lambda>lc. (copy_params (net_lc n1 q) lc)\<lparr>lc_tch_mode := mode, lc_rsl_cmode := RSL_CMOD_SPD_SPEECH\<rparr>)"
    define g where "g = (\<lambda>lc. if mode = GSM48_CMODE_SPEECH_AMR then handle_mr_config (fill lc) else fill lc)"
    have g: "\<And>s lc. wf_lchan s lc \<Longrightarrow> wf_lchan s (g lc)" "\<And>lc. lc_type (g lc) = lc_type lc" "\<And>lc. lc_conn (g lc) = lc_conn lc"
      by (simp_all add: g_def fill_def)
    define n2 where "n2 = upd_lc (b, p) g n1"
    have s2: "st_inv {} n2" unfolding n2_def using A(4-6) by (intro st_inv_write [OF A(1)] g) auto
    have C2: "conn_of n2 = conn_of n" using A(2) by (simp add: n2_def conn_of_upd_same g)
    have K2: "bn_conns n2 = bn_conns n" "bn_hos n2 = bn_hos n" by (simp_all add: n2_def A)
    have i2: "net_inv n2" using s2 link by (simp add: net_inv_def C2 K2)
    obtain rc ev1 where act: "activate_rc env n2 (b, p) RSL_ACT_INTRA_NORM_ASS 0 = (rc, ev1)"
      by (cases "activate_rc env n2 (b, p) RSL_ACT_INTRA_NORM_ASS 0")
    define n3 where "n3 = upd_lc (b, p) (\<lambda>lc. rsl_lchan_set_state LCHAN_S_ACT_REQ (lc\<lparr>lc_conn := Some c\<rparr>))
        (upd_conn c (\<lambda>cn. cn\<lparr>cn_secondary_lchan := Some (b, p)\<rparr>) n2)"
    have eq: "handle_new_assignment env c mode full n =
        (if rc < 0 then Some (fst (net_free env (b, p) n2), map (NE_lchan (b, p)) ev @ ev1 @ snd (net_free env (b, p) n2), -1)
         else Some (n3, map (NE_lchan (b, p)) ev @ ev1, 0))"
      using K b(1) prim a Some act unfolding n3_def n2_def g_def fill_def n1_def
      by (simp add: handle_new_assignment_def Let_def case_prod_unfold)
    have v2: "valid_lc n2 (b, p)" and t2: "lc_type (net_lc n2 (b, p)) \<noteq> GSM_LCHAN_NONE"
      using A(4-6) by (simp_all add: n2_def net_lc_upd_lc g)
    have "st_inv {} n3"
      unfolding n3_def using s2 v2 t2 by (intro st_inv_write) auto
    moreover have "conn_of n3 = (conn_of n)((b, p) \<mapsto> c)" using v2 by (simp add: n3_def conn_of_upd_lc C2)
    moreover have "link_inv ((conn_of n)((b, p) \<mapsto> c)) ((bn_conns n)(c \<mapsto> cn\<lparr>cn_secondary_lchan := Some (b, p)\<rparr>)) (bn_hos n)"
      by (rule link_attach_sec [OF link K A(3) guard]) simp_all
    ultimately have "net_inv n3" using K by (simp add: net_inv_def n3_def K2)
    moreover have "net_inv (fst (net_free env (b, p) n2))"
      by (rule net_free_unlinked [OF h i2]) (simp add: C2 A(3))
    ultimately show ?thesis by (auto simp: eq)
  qed
qed

lemma release_sec:
  assumes inv: "net_inv n" and K: "bn_conns n c = Some cn" and sec: "cn_secondary_lchan cn = Some p"
    and f: "\<And>x. cn_secondary_lchan (f x) = None" "\<And>x. cn_lchan (f x) = cn_lchan x" "\<And>x. cn_ho_lchan (f x) = cn_ho_lchan x"
  shows "net_inv (upd_conn c f (fst (net_release p d r n)))"
proof -
  from inv have st: "st_inv {} n" and link: "link_inv (conn_of n) (bn_conns n) (bn_hos n)" by (simp_all add: net_inv_def)
  have c: "conn_of n p = Some c" by (rule link_inv_chan [OF link K]) (simp add: chans_def sec)
  have "st_inv {} (fst (net_release p d r n))"
    by (rule st_inv_net_release [OF st]) (use st_inv_typed [OF st, of p] c in simp)
  moreover have "link_inv ((conn_of n)(p := None)) ((bn_conns n)(c \<mapsto> f cn)) (bn_hos n)"
    by (rule link_detach_sec [OF link K sec]) (simp_all add: f)
  ultimately show ?thesis using K by (simp add: net_inv_def)
qed

lemma t10_timeout_inv:
  assumes inv: "net_inv n" and K: "bn_conns n c = Some cn"
  shows "\<exists>n' ev. assignment_t10_timeout c n = Some (n', ev) \<and> net_inv n'"
proof (cases "cn_secondary_lchan cn")
  case None
  let ?f = "\<lambda>cn. cn\<lparr>cn_secondary_lchan := None, cn_T10 := False\<rparr>"
  from inv have st: "st_inv {} n" and link: "link_inv (conn_of n) (bn_conns n) (bn_hos n)" by (simp_all add: net_inv_def)
  have "link_inv (conn_of n) ((bn_conns n)(c \<mapsto> ?f cn)) (bn_hos n)"
    using None link_invD(2) [OF link K] by (intro link_same_chans [OF link K]) (auto simp: chans_def diff3_def)
  with st K None show ?thesis by (simp add: assignment_t10_timeout_def opt_release_def net_inv_def)
next
  case (Some p)
  with K release_sec [OF inv K Some, of "\<lambda>cn. cn\<lparr>cn_secondary_lchan := None, cn_T10 := False\<rparr>" 0 1] show ?thesis
    by (simp add: assignment_t10_timeout_def opt_release_def case_prod_unfold)
qed

lemma ass_fail_inv:
  assumes inv: "net_inv n" and K: "bn_conns n c = Some cn" and sec: "cn_secondary_lchan cn \<noteq> None"
  shows "\<exists>n' ev. handle_ass_fail c q l3 n = Some (n', ev) \<and> net_inv n'"
proof -
  from sec obtain p where p: "cn_secondary_lchan cn = Some p" by blast
  with K inv release_sec [OF inv K p, of "\<lambda>cn. cn\<lparr>cn_T10 := False, cn_secondary_lchan := None\<rparr>" 0 1] show ?thesis
    by (auto simp: handle_ass_fail_def case_prod_unfold)
qed

lemma ass_compl_inv:
  assumes inv: "net_inv n" and K: "bn_conns n c = Some cn" and prim: "cn_lchan cn = Some p"
  shows "\<exists>n' ev. handle_ass_compl c q l3 n = Some (n', ev) \<and> net_inv n' \<and>
    (cn_secondary_lchan cn = Some q \<and> length l3 = 1 \<longrightarrow>
       bn_conns n' c = Some (cn\<lparr>cn_T10 := False, cn_lchan := Some q, cn_secondary_lchan := None\<rparr>) \<and>
       conn_of n' q = Some c \<and> conn_of n' p = None)"
proof (cases "cn_secondary_lchan cn = Some q \<and> length l3 = 1")
  case True
  from inv have st: "st_inv {} n" and link: "link_inv (conn_of n) (bn_conns n) (bn_hos n)" by (simp_all add: net_inv_def)
  let ?f = "\<lambda>cn. cn\<lparr>cn_T10 := False, cn_lchan := cn_secondary_lchan cn, cn_secondary_lchan := None\<rparr>"
  let ?n = "upd_conn c ?f (fst (net_release p 0 1 n))"
  have c: "conn_of n p = Some c" "conn_of n q = Some c" using True prim link_inv_chan [OF link K] by (simp_all add: chans_def)
  have ne: "p \<noteq> q" using True prim link_invD(2) [OF link K] by (auto simp: diff3_def)
  have "st_inv {} (fst (net_release p 0 1 n))"
    by (rule st_inv_net_release [OF st]) (use st_inv_typed [OF st, of p] c in simp)
  moreover have "link_inv ((conn_of n)(p := None)) ((bn_conns n)(c \<mapsto> ?f cn)) (bn_hos n)"
  proof -
    have 1: "link_inv ((conn_of n)(p := None)) ((bn_conns n)(c \<mapsto> cn\<lparr>cn_lchan := None\<rparr>)) (bn_hos n)"
      by (rule link_detach_prim [OF link K prim]) simp_all
    have "link_inv ((conn_of n)(p := None)) ((bn_conns n)(c \<mapsto> cn\<lparr>cn_lchan := None\<rparr>, c \<mapsto> ?f cn)) (bn_hos n)"
      using True link_invD(2) [OF link K] by (intro link_same_chans [OF 1, of c "cn\<lparr>cn_lchan := None\<rparr>"]) (auto simp: chans_def diff3_def)
    then show ?thesis by simp
  qed
  ultimately have "net_inv ?n" using K by (simp add: net_inv_def)
  moreover have "\<exists>ev. handle_ass_compl c q l3 n = Some (?n, ev)"
    using True K prim by (auto simp: handle_ass_compl_def Let_def case_prod_unfold)
  ultimately show ?thesis using True K c ne by auto
next
  case False
  with K inv prim show ?thesis by (auto simp: handle_ass_compl_def)
qed

lemma chan_nack_inv:
  assumes inv: "net_inv n" and K: "bn_conns n c = Some cn"
  shows "net_inv (handle_chan_nack c p n)"
proof (cases "cn_secondary_lchan cn = Some p")
  case True
  from inv have st: "st_inv {} n" and link: "link_inv (conn_of n) (bn_conns n) (bn_hos n)" by (simp_all add: net_inv_def)
  have "st_inv {} (set_conn_ptr p None n)" by (rule st_inv_set_conn_ptr [OF st]) simp
  moreover have "link_inv ((conn_of n)(p := None)) ((bn_conns n)(c \<mapsto> cn\<lparr>cn_secondary_lchan := None\<rparr>)) (bn_hos n)"
    by (rule link_detach_sec [OF link K True]) simp_all
  ultimately show ?thesis using True K by (simp add: handle_chan_nack_def net_inv_def)
qed (use assms in \<open>simp add: handle_chan_nack_def\<close>)

section \<open>Handover\<close>

text \<open>The connection of the channel a handover record names, which the code follows without a test.\<close>

lemma ho_record_conn:
  assumes "net_inv n" "ho \<in> set (bn_hos n)"
  obtains c cn where "conn_of n (ho_new_lchan ho) = Some c" "lc_conn (net_lc n (ho_new_lchan ho)) = Some c"
    "bn_conns n c = Some cn" "cn_ho_lchan cn = Some (ho_new_lchan ho)" "valid_lc n (ho_new_lchan ho)"
proof -
  from assms(1) have link: "link_inv (conn_of n) (bn_conns n) (bn_hos n)" by (simp add: net_inv_def)
  from assms(2) obtain c cn where K: "bn_conns n c = Some cn" "cn_ho_lchan cn = Some (ho_new_lchan ho)"
    using link_invD(3) [OF link, of "ho_new_lchan ho"] by blast
  then have c: "conn_of n (ho_new_lchan ho) = Some c" using link_inv_chan [OF link K(1)] by (simp add: chans_def)
  from conn_valid [of n "ho_new_lchan ho"] c have "valid_lc n (ho_new_lchan ho)" by simp
  with c that [OF c _ K] show ?thesis by (simp add: conn_of_def)
qed

lemma drop_ho:
  assumes inv: "net_inv n" and ho: "ho \<in> set (bn_hos n)" and c: "conn_of n (ho_new_lchan ho) = Some c"
  shows "net_inv (del_ho ho (set_conn_ptr (ho_new_lchan ho) None (upd_conn c (\<lambda>cn. cn\<lparr>cn_ho_lchan := None\<rparr>) n)))"
proof -
  from inv have st: "st_inv {} n" and link: "link_inv (conn_of n) (bn_conns n) (bn_hos n)" by (simp_all add: net_inv_def)
  from ho_record_conn [OF inv ho] c obtain cn where K: "bn_conns n c = Some cn" "cn_ho_lchan cn = Some (ho_new_lchan ho)" by force
  have "st_inv {} (set_conn_ptr (ho_new_lchan ho) None (upd_conn c (\<lambda>cn. cn\<lparr>cn_ho_lchan := None\<rparr>) n))"
    by (rule st_inv_set_conn_ptr) (simp_all add: st)
  moreover have "link_inv ((conn_of n)(ho_new_lchan ho := None)) ((bn_conns n)(c \<mapsto> cn\<lparr>cn_ho_lchan := None\<rparr>)) (remove1 ho (bn_hos n))"
    by (rule link_detach_ho [OF link K ho]) simp_all
  ultimately show ?thesis using K(1) by (simp add: net_inv_def)
qed

lemma ho_nack_inv:
  assumes "net_inv n"
  shows "\<exists>n' rc. ho_chan_activ_nack p n = Some (n', rc) \<and> net_inv n'"
proof (cases "bsc_ho_by_new_lchan n p")
  case (Some ho)
  note h = ho_by_new_SomeD [OF Some]
  from ho_record_conn [OF assms conjunct1 [OF h]] obtain c where
    "conn_of n (ho_new_lchan ho) = Some c" "lc_conn (net_lc n (ho_new_lchan ho)) = Some c" by blast
  with drop_ho [OF assms conjunct1 [OF h]] h Some show ?thesis by (simp add: ho_chan_activ_nack_def)
qed (use assms in \<open>simp add: ho_chan_activ_nack_def\<close>)

lemma release_dropped:
  assumes inv: "net_inv n" and v: "valid_lc n p" and ty: "lc_type (net_lc n p) \<noteq> GSM_LCHAN_NONE" and c: "conn_of n p = None"
  shows "net_inv (fst (net_release p d r n))"
proof -
  from inv have st: "st_inv {} n" and link: "link_inv (conn_of n) (bn_conns n) (bn_hos n)" by (simp_all add: net_inv_def)
  have "st_inv {} (fst (net_release p d r n))" by (rule st_inv_net_release [OF st ty])
  moreover have "conn_of (fst (net_release p d r n)) = conn_of n" using c by (simp add: fun_upd_idem)
  ultimately show ?thesis using link by (simp add: net_inv_def)
qed


lemma dropped_release:
  assumes inv: "net_inv n" and ho: "ho \<in> set (bn_hos n)" and c: "conn_of n (ho_new_lchan ho) = Some c"
  shows "net_inv (del_ho ho (fst (net_release (ho_new_lchan ho) d r
           (set_conn_ptr (ho_new_lchan ho) None (upd_conn c (\<lambda>cn. cn\<lparr>cn_ho_lchan := None\<rparr>) n)))))"
proof -
  let ?p = "ho_new_lchan ho"
  let ?n = "del_ho ho (set_conn_ptr ?p None (upd_conn c (\<lambda>cn. cn\<lparr>cn_ho_lchan := None\<rparr>) n))"
  from inv have st: "st_inv {} n" by (simp add: net_inv_def)
  have v: "valid_lc n ?p" using conn_valid [of n ?p] c by simp
  have t: "lc_type (net_lc n ?p) \<noteq> GSM_LCHAN_NONE" using st_inv_typed [OF st, of ?p] c by simp
  have "net_inv (fst (net_release ?p d r ?n))"
    by (rule release_dropped [OF drop_ho [OF inv ho c]]) (use v t in simp_all)
  moreover have "fst (net_release ?p d r ?n) = del_ho ho (fst (net_release ?p d r
      (set_conn_ptr ?p None (upd_conn c (\<lambda>cn. cn\<lparr>cn_ho_lchan := None\<rparr>) n))))"
    by (simp add: net_release_def del_ho_def upd_lc_def)
  ultimately show ?thesis by simp
qed

lemma T3103_inv:
  assumes "net_inv n" "ho \<in> set (bn_hos n)"
  shows "\<exists>n' ev. ho_T3103_cb ho n = Some (n', ev) \<and> net_inv n'"
proof -
  from ho_record_conn [OF assms] obtain c where
    c: "conn_of n (ho_new_lchan ho) = Some c" "lc_conn (net_lc n (ho_new_lchan ho)) = Some c" by blast
  with dropped_release [OF assms c(1)] show ?thesis
    by (simp add: ho_T3103_cb_def Let_def case_prod_unfold)
qed

lemma ho_fail_inv:
  assumes "net_inv n"
  shows "\<exists>n' ev rc. ho_gsm48_ho_fail p n = Some (n', ev, rc) \<and> net_inv n'"
proof (cases "bsc_ho_by_old_lchan n p")
  case (Some ho)
  note h = conjunct1 [OF ho_by_old_SomeD [OF Some]]
  from ho_record_conn [OF assms h] obtain c where
    c: "conn_of n (ho_new_lchan ho) = Some c" "lc_conn (net_lc n (ho_new_lchan ho)) = Some c" by blast
  have "fst (net_release (ho_new_lchan ho) 0 1 (set_conn_ptr (ho_new_lchan ho) None
        (upd_conn c (\<lambda>cn. cn\<lparr>cn_ho_lchan := None\<rparr>) (del_ho ho n)))) =
      del_ho ho (fst (net_release (ho_new_lchan ho) 0 1 (set_conn_ptr (ho_new_lchan ho) None
        (upd_conn c (\<lambda>cn. cn\<lparr>cn_ho_lchan := None\<rparr>) n))))"
    by (simp add: net_release_def del_ho_def upd_lc_def set_conn_ptr_def upd_conn_def)
  with dropped_release [OF assms h c(1), of 0 1] c Some show ?thesis
    by (simp add: ho_gsm48_ho_fail_def Let_def case_prod_unfold)
qed (use assms in \<open>simp add: ho_gsm48_ho_fail_def\<close>)

text \<open>
  A completed handover, when the old channel still is the primary one: the new channel takes its
  place and the old one is released.
\<close>

lemma ho_compl_inv:
  assumes inv: "net_inv n" and f: "bsc_ho_by_new_lchan n p = Some ho" and K: "bn_conns n c = Some cn"
    and hoc: "cn_ho_lchan cn = Some p" and old: "cn_lchan cn = Some (ho_old_lchan ho)"
  shows "\<exists>n' ev. ho_gsm48_ho_compl p n = Some (n', ev, 0) \<and> net_inv n' \<and>
     bn_conns n' c = Some (cn\<lparr>cn_ho_lchan := None, cn_lchan := Some p\<rparr>) \<and>
     conn_of n' p = Some c \<and> conn_of n' (ho_old_lchan ho) = None \<and> ho \<notin> set (bn_hos n')"
proof -
  from inv have st: "st_inv {} n" and link: "link_inv (conn_of n) (bn_conns n) (bn_hos n)" by (simp_all add: net_inv_def)
  note h = ho_by_new_SomeD [OF f]
  let ?o = "ho_old_lchan ho"
  let ?f = "\<lambda>cn. cn\<lparr>cn_ho_lchan := None, cn_lchan := Some p\<rparr>"
  have c: "conn_of n p = Some c" "conn_of n ?o = Some c" using hoc old link_inv_chan [OF link K] by (simp_all add: chans_def)
  have ne: "p \<noteq> ?o" using hoc old link_invD(2) [OF link K] by (auto simp: diff3_def)
  have v: "valid_lc n p" "valid_lc n ?o" using conn_valid [of n p] conn_valid [of n ?o] c by simp_all
  have lc: "lc_conn (net_lc n p) = Some c" "lc_conn (net_lc n ?o) = Some c" using c v by (simp_all add: conn_of_def)
  define n1 where "n1 = upd_conn c ?f n"
  define n2 where "n2 = upd_lc ?o (\<lambda>lc. rsl_lchan_set_state LCHAN_S_INACTIVE (lc\<lparr>lc_conn := None\<rparr>)) n1"
  define n3 where "n3 = del_ho ho (fst (net_release ?o 0 1 n2))"
  have "\<exists>ev. ho_gsm48_ho_compl p n = Some (n3, ev, 0)"
    using f lc by (simp add: ho_gsm48_ho_compl_def n3_def n2_def n1_def Let_def case_prod_unfold)
  moreover have "st_inv {} n1" by (simp add: n1_def st)
  then have "st_inv {} n2"
    unfolding n2_def using st_inv_typed [OF st, of ?o] c v by (intro st_inv_write) (simp_all add: n1_def)
  then have "st_inv {} n3"
    using st_inv_typed [OF st, of ?o] c v by (simp add: n3_def st_inv_net_release n2_def net_lc_upd_lc n1_def)
  moreover have V: "conn_of n3 = (conn_of n)(?o := None)" "bn_conns n3 = (bn_conns n)(c \<mapsto> ?f cn)"
    "bn_hos n3 = remove1 ho (bn_hos n)"
    using K by (auto simp: n3_def n2_def n1_def conn_of_upd_lc)
  have "link_inv ((conn_of n)(?o := None)) ((bn_conns n)(c \<mapsto> ?f cn)) (remove1 ho (bn_hos n))"
  proof -
    have 1: "link_inv ((conn_of n)(?o := None)) ((bn_conns n)(c \<mapsto> cn\<lparr>cn_lchan := None\<rparr>)) (bn_hos n)"
      by (rule link_detach_prim [OF link K old]) simp_all
    have "link_inv ((conn_of n)(?o := None)) ((bn_conns n)(c \<mapsto> cn\<lparr>cn_lchan := None\<rparr>, c \<mapsto> ?f cn)) (remove1 ho (bn_hos n))"
      by (rule link_promote_ho [OF 1, of c "cn\<lparr>cn_lchan := None\<rparr>"]) (use h hoc in simp_all)
    then show ?thesis by simp
  qed
  moreover have "ho \<notin> set (remove1 ho (bn_hos n))"
    using link_invD(4) [OF link] by (simp add: distinct_map)
  ultimately show ?thesis using c ne by (auto simp: net_inv_def V)
qed


lemma handover_start_inv:
  assumes h: "signal_handler (env_handler env)" and inv: "net_inv n" and b: "b < length (bn_bts n)"
    and guard: "\<And>c cn. conn_of n old = Some c \<Longrightarrow> bn_conns n c = Some cn \<Longrightarrow> cn_ho_lchan cn = None"
    and v: "valid_lc n old"
  shows "net_inv (fst (bsc_handover_start env mem old b n))"
proof (cases "bsc_ho_by_old_lchan n old = None \<and> lc_conn (net_lc n old) \<noteq> None")
  case False
  then show ?thesis using inv by (auto simp: bsc_handover_start_def split: option.splits)
next
  case True
  then obtain c where c: "lc_conn (net_lc n old) = Some c" "conn_of n old = Some c" using v by (auto simp: conn_of_def)
  from inv have st: "st_inv {} n" and link: "link_inv (conn_of n) (bn_conns n) (bn_hos n)" by (simp_all add: net_inv_def)
  from c(2) obtain cn where K: "bn_conns n c = Some cn" using link_invD(1) [OF link] by blast
  note g = guard [OF c(2) K]
  let ?ty = "lc_type (net_lc n old)"
  obtain bts' r ev where a: "lchan_alloc (bn_bts n ! b) ?ty False = (bts', r, ev)"
    by (cases "lchan_alloc (bn_bts n ! b) ?ty False")
  show ?thesis
  proof (cases r)
    case None
    then show ?thesis
      using True c a inv net_alloc_None [OF st b, of ?ty False bts' ev] by (simp add: bsc_handover_start_def)
  next
    case (Some p)
    let ?new = "(b, p)"
    define n1 where "n1 = n\<lparr>bn_bts := (bn_bts n)[b := bts']\<rparr>"
    note A = net_alloc [OF st b a [unfolded Some], folded n1_def]
    have i1: "net_inv n1" using A(1) link by (simp add: net_inv_def A(2,7,8))
    define o_lc where "o_lc = net_lc n1 old"
    define ho where "ho = \<lparr>ho_old_lchan = old, ho_new_lchan = ?new, ho_T3103 = False, ho_ref = bn_ho_ref n\<rparr>"
    define w where "w = (\<lambda>lc. (copy_params o_lc lc)\<lparr>lc_rsl_cmode := lc_rsl_cmode o_lc, lc_tch_mode := lc_tch_mode o_lc, lc_conn := Some c\<rparr>)"
    define n3 where "n3 = upd_conn c (\<lambda>cn. cn\<lparr>cn_ho_lchan := Some ?new\<rparr>) (upd_lc ?new w (n1\<lparr>bn_ho_ref := bn_ho_ref n + 1\<rparr>))"
    obtain rc ev1 where act: "activate_rc env n3 ?new RSL_ACT_INTER_ASYNC (bn_ho_ref n) = (rc, ev1)"
      by (cases "activate_rc env n3 ?new RSL_ACT_INTER_ASYNC (bn_ho_ref n)")
    define n4 where "n4 = set_conn_ptr ?new None (upd_conn c (\<lambda>cn. cn\<lparr>cn_ho_lchan := None\<rparr>) n3)"
    define n5 where "n5 = (upd_lc ?new (rsl_lchan_set_state LCHAN_S_ACT_REQ) n3)\<lparr>bn_hos := ho # bn_hos n3\<rparr>"
    have eq: "fst (bsc_handover_start env mem old b n) =
        (if \<not> mem then fst (net_free env ?new n1) else if rc < 0 then fst (net_free env ?new n4) else n5)"
      using True c a Some act unfolding n5_def n4_def n3_def w_def ho_def o_lc_def n1_def
      by (simp add: bsc_handover_start_def Let_def case_prod_unfold)
    have f0: "net_inv (fst (net_free env ?new n1))" by (rule net_free_unlinked [OF h i1]) (simp add: A)
    have s1': "st_inv {} (n1\<lparr>bn_ho_ref := bn_ho_ref n + 1\<rparr>)" using A(1) by simp
    have w: "\<And>s lc. wf_lchan s lc \<Longrightarrow> wf_lchan s (w lc)" "\<And>lc. lc_type (w lc) = lc_type lc" "\<And>lc. lc_conn (w lc) = Some c"
      by (simp_all add: w_def)
    have v1: "valid_lc n1 ?new" using A(4,5) by simp
    have s3: "st_inv {} n3"
      unfolding n3_def st_inv_frames using A(6) v1 by (intro st_inv_write [OF s1'] w) simp_all
    have t3: "lc_type (net_lc n3 ?new) \<noteq> GSM_LCHAN_NONE" "valid_lc n3 ?new"
      using A(6) v1 by (simp_all add: n3_def net_lc_upd_lc w)
    have C3: "conn_of n3 = (conn_of n)(?new \<mapsto> c)" "bn_conns n3 = (bn_conns n)(c \<mapsto> cn\<lparr>cn_ho_lchan := Some ?new\<rparr>)"
      "bn_hos n3 = bn_hos n"
      using v1 K by (simp_all add: n3_def conn_of_upd_lc w A)
    have "st_inv {} n5" unfolding n5_def st_inv_frames using s3 t3 by (intro st_inv_write) simp_all
    moreover have "conn_of n5 = conn_of n3" by (simp add: n5_def conn_of_upd_same)
    moreover have "link_inv ((conn_of n)(?new \<mapsto> c)) ((bn_conns n)(c \<mapsto> cn\<lparr>cn_ho_lchan := Some ?new\<rparr>)) (ho # bn_hos n)"
      using link_attach_ho [OF link K, of ho "cn\<lparr>cn_ho_lchan := Some ?new\<rparr>"] A(3) g by (simp add: ho_def)
    ultimately have f5: "net_inv n5" by (simp add: net_inv_def n5_def C3)
    have "st_inv {} n4" unfolding n4_def by (rule st_inv_set_conn_ptr) (simp_all add: s3)
    moreover have "conn_of n4 = conn_of n" "bn_conns n4 = bn_conns n" "bn_hos n4 = bn_hos n"
      using A(3) g K by (auto simp: n4_def C3 fun_eq_iff)
    ultimately have "net_inv n4" using link by (simp add: net_inv_def)
    then have f4: "net_inv (fst (net_free env ?new n4))"
      by (rule net_free_unlinked [OF h]) (simp add: \<open>conn_of n4 = conn_of n\<close> A(3))
    show ?thesis using f0 f4 f5 by (simp add: eq)
  qed
qed

section \<open>Messages\<close>

lemma upd_conn_T10_inv:
  assumes "net_inv n"
  shows "net_inv (upd_conn c (\<lambda>cn. cn\<lparr>cn_T10 := x\<rparr>) n)"
proof (cases "bn_conns n c")
  case (Some cn)
  from assms have st: "st_inv {} n" and link: "link_inv (conn_of n) (bn_conns n) (bn_hos n)" by (simp_all add: net_inv_def)
  have "link_inv (conn_of n) ((bn_conns n)(c \<mapsto> cn\<lparr>cn_T10 := x\<rparr>)) (bn_hos n)"
    using link_invD(2) [OF link Some] by (intro link_same_chans [OF link Some]) (auto simp: chans_def diff3_def)
  with st Some show ?thesis by (simp add: net_inv_def)
next
  case None
  then have "(bn_conns n)(c := map_option (\<lambda>cn. cn\<lparr>cn_T10 := x\<rparr>) (bn_conns n c)) = bn_conns n" by (simp add: fun_upd_idem)
  with assms show ?thesis by (simp add: net_inv_def)
qed

lemma new_connection_inv:
  assumes inv: "net_inv n" and v: "valid_lc n p" and ty: "lc_type (net_lc n p) \<noteq> GSM_LCHAN_NONE"
    and conn: "lc_conn (net_lc n p) = None" and fresh: "bn_conns n c = None" and st: "lc_state (net_lc n p) = LCHAN_S_ACTIVE"
  shows "\<exists>n' ev rc. gsm0408_rcvmsg mem accepted c p l msg n = Some (n', ev, rc) \<and> net_inv n' \<and>
    (mem \<and> accepted \<longrightarrow> conn_of n' p = Some c) \<and> (\<not> (mem \<and> accepted) \<longrightarrow> bn_conns n' = bn_conns n)"
proof -
  from inv have sti: "st_inv {} n" and link: "link_inv (conn_of n) (bn_conns n) (bn_hos n)" by (simp_all add: net_inv_def)
  have cp: "conn_of n p = None" using conn by (simp add: conn_of_def)
  let ?cn = "\<lparr>cn_lchan = Some p, cn_ho_lchan = None, cn_secondary_lchan = None, cn_bts = Some (fst p), cn_T10 = False\<rparr>"
  define n1 where "n1 = set_conn_ptr p (Some c) (n\<lparr>bn_conns := (bn_conns n)(c \<mapsto> ?cn)\<rparr>)"
  have s1: "st_inv {} n1" unfolding n1_def by (rule st_inv_set_conn_ptr) (use sti ty in simp_all)
  have v1: "conn_of n1 = (conn_of n)(p \<mapsto> c)" "bn_conns n1 = (bn_conns n)(c \<mapsto> ?cn)" "bn_hos n1 = bn_hos n"
    "valid_lc n1 p" "lc_type (net_lc n1 p) = lc_type (net_lc n p)" using v by (simp_all add: n1_def)
  have "link_inv ((conn_of n)(p \<mapsto> c)) ((bn_conns n)(c \<mapsto> ?cn)) (bn_hos n)"
    by (rule link_new_conn [OF link fresh cp]) simp_all
  with s1 have i1: "net_inv n1" by (simp add: net_inv_def v1)
  let ?n2 = "n1\<lparr>bn_conns := bn_conns n\<rparr>"
  have free: "subscr_con_free c (upd_conn c (\<lambda>cn. cn\<lparr>cn_lchan := None\<rparr>) n1) = ?n2"
    using con_free_empty [of "upd_conn c (\<lambda>cn. cn\<lparr>cn_lchan := None\<rparr>) n1" c "?cn\<lparr>cn_lchan := None\<rparr>"] fresh
    by (simp add: v1 chans_def fun_upd_idem) (simp add: upd_conn_def)
  have "st_inv {} (fst (net_release p 0 0 ?n2))"
    by (rule st_inv_net_release) (use s1 ty in \<open>simp_all add: v1\<close>)
  moreover have "conn_of (fst (net_release p 0 0 ?n2)) = conn_of n" using cp by (auto simp: v1 fun_eq_iff)
  ultimately have i3: "net_inv (fst (net_release p 0 0 ?n2))" using link by (simp add: net_inv_def v1)
  have i0: "net_inv (fst (net_release p 0 0 n))" by (rule release_dropped [OF inv v ty cp])
  show ?thesis
  proof (cases "mem \<and> accepted")
    case True
    then show ?thesis using st conn i1 v1
      by (simp add: gsm0408_rcvmsg_def subscr_con_allocate_def n1_def [symmetric])
  next
    case False
    then show ?thesis using st conn i0 i3
      by (auto simp: gsm0408_rcvmsg_def subscr_con_allocate_def n1_def [symmetric] free Let_def case_prod_unfold)
  qed
qed


section \<open>The network as a transition system\<close>

text \<open>
  The steps: the operator configures an unused timeslot; a channel is allocated on request and
  activated; the mobile station opens a connection; an assignment or a handover is started for a
  connection that has none in progress, and ends one way or another; a connection is cleared; a
  channel is freed unexpectedly.
\<close>

inductive net_step :: "rsl_env \<Rightarrow> bsc_net \<Rightarrow> bsc_net \<Rightarrow> bool" for env where
  configure: "b < length (bn_bts n) \<Longrightarrow> valid_ts (bn_bts n ! b) q \<Longrightarrow> ts_pchan (the_ts (bn_bts n ! b) q) = GSM_PCHAN_NONE \<Longrightarrow>
    net_step env n (n\<lparr>bn_bts := (bn_bts n)[b := upd_ts q (\<lambda>ts. ts\<lparr>ts_pchan := pc\<rparr>) (bn_bts n ! b)]\<rparr>)"
| request: "b < length (bn_bts n) \<Longrightarrow> lchan_alloc (bn_bts n ! b) ty big = (bts', Some p, ev) \<Longrightarrow>
    net_step env n (upd_lc (b, p) (rsl_lchan_set_state LCHAN_S_ACT_REQ) (n\<lparr>bn_bts := (bn_bts n)[b := bts']\<rparr>))"
| activated: "valid_lc n p \<Longrightarrow> lc_type (net_lc n p) \<noteq> GSM_LCHAN_NONE \<Longrightarrow>
    net_step env n (upd_lc p (rsl_lchan_set_state LCHAN_S_ACTIVE) n)"
| connect: "valid_lc n p \<Longrightarrow> lc_type (net_lc n p) \<noteq> GSM_LCHAN_NONE \<Longrightarrow> lc_conn (net_lc n p) = None \<Longrightarrow>
    lc_state (net_lc n p) = LCHAN_S_ACTIVE \<Longrightarrow> bn_conns n c = None \<Longrightarrow>
    gsm0408_rcvmsg mem accepted c p l msg n = Some (n', ev, rc) \<Longrightarrow> net_step env n n'"
| assign: "bn_conns n c = Some cn \<Longrightarrow> cn_secondary_lchan cn = None \<Longrightarrow> cn_bts cn = Some b \<Longrightarrow> b < length (bn_bts n) \<Longrightarrow>
    cn_lchan cn = Some q \<Longrightarrow> handle_new_assignment env c mode full n = Some (n', ev, rc) \<Longrightarrow> net_step env n n'"
| ass_compl: "bn_conns n c = Some cn \<Longrightarrow> cn_lchan cn = Some q \<Longrightarrow> handle_ass_compl c p l3 n = Some (n', ev) \<Longrightarrow> net_step env n n'"
| ass_fail: "bn_conns n c = Some cn \<Longrightarrow> cn_secondary_lchan cn \<noteq> None \<Longrightarrow> handle_ass_fail c p l3 n = Some (n', ev) \<Longrightarrow> net_step env n n'"
| T10: "bn_conns n c = Some cn \<Longrightarrow> assignment_t10_timeout c n = Some (n', ev) \<Longrightarrow> net_step env n n'"
| act_nack: "bn_conns n c = Some cn \<Longrightarrow> net_step env n (handle_chan_nack c p n)"
| ho_start: "b < length (bn_bts n) \<Longrightarrow> valid_lc n old \<Longrightarrow>
    (\<And>c cn. conn_of n old = Some c \<Longrightarrow> bn_conns n c = Some cn \<Longrightarrow> cn_ho_lchan cn = None) \<Longrightarrow>
    net_step env n (fst (bsc_handover_start env mem old b n))"
| ho_ack: "net_step env n (fst (ho_chan_activ_ack p n))"
| ho_nack: "ho_chan_activ_nack p n = Some (n', rc) \<Longrightarrow> net_step env n n'"
| ho_compl: "bsc_ho_by_new_lchan n p = Some ho \<Longrightarrow> bn_conns n c = Some cn \<Longrightarrow> cn_ho_lchan cn = Some p \<Longrightarrow>
    cn_lchan cn = Some (ho_old_lchan ho) \<Longrightarrow> ho_gsm48_ho_compl p n = Some (n', ev, rc) \<Longrightarrow> net_step env n n'"
| ho_fail: "ho_gsm48_ho_fail p n = Some (n', ev, rc) \<Longrightarrow> net_step env n n'"
| T3103: "ho \<in> set (bn_hos n) \<Longrightarrow> ho_T3103_cb ho n = Some (n', ev) \<Longrightarrow> net_step env n n'"
| clear: "net_step env n (fst (gsm0808_clear c n))"
| freed: "valid_lc n p \<Longrightarrow> net_step env n (fst (net_lchan_free destruct p n))"

definition net_init :: "gsm_bts list \<Rightarrow> bsc_net" where
  "net_init btss = \<lparr>bn_bts = btss, bn_conns = (\<lambda>_. None), bn_hos = [], bn_ho_ref = 0\<rparr>"

inductive net_reachable :: "rsl_env \<Rightarrow> bsc_net \<Rightarrow> bool" for env where
  init: "net_reachable env (net_init (replicate k fresh_bts))"
| step: "net_reachable env n \<Longrightarrow> net_step env n n' \<Longrightarrow> net_reachable env n'"

inductive_cases net_stepE: "net_step env n n'"

lemma configure_inv:
  assumes inv: "net_inv n" and b: "b < length (bn_bts n)" and q: "ts_pchan (the_ts (bn_bts n ! b) q) = GSM_PCHAN_NONE"
  shows "net_inv (n\<lparr>bn_bts := (bn_bts n)[b := upd_ts q (\<lambda>ts. ts\<lparr>ts_pchan := pc\<rparr>) (bn_bts n ! b)]\<rparr>)" (is "net_inv ?n")
proof -
  from inv have st: "st_inv {} n" and link: "link_inv (conn_of n) (bn_conns n) (bn_hos n)" by (simp_all add: net_inv_def)
  let ?b = "upd_ts q (\<lambda>ts. ts\<lparr>ts_pchan := pc\<rparr>) (bn_bts n ! b)"
  have v: "valid_lc ?n p = valid_lc n p" for p using b by (cases p) (auto simp: valid_lc_def nth_list_update)
  have l: "net_lc ?n p = net_lc n p" if "valid_lc n p" for p
    using that b by (cases p) (auto simp: net_lc_def valid_lc_def nth_list_update dest: valid_lchan_ts)
  have C: "conn_of ?n = conn_of n" using v l by (auto simp: conn_of_def fun_eq_iff)
  have "alloc_inv (bn_bts ?n ! k)" if "k < length (bn_bts n)" for k
    using that b st_inv_alloc [OF st that] alloc_inv_configure [OF st_inv_alloc [OF st b] q]
    by (cases "k = b") simp_all
  moreover have "lc_type (net_lc ?n p) \<noteq> GSM_LCHAN_NONE" if "conn_of ?n p \<noteq> None" for p
    using that l [of p] st_inv_typed [OF st, of p] conn_valid [of n p] by (simp add: C)
  ultimately have "st_inv {} ?n" by (simp add: st_inv_def)
  then show ?thesis using link by (simp add: net_inv_def C)
qed

lemma activated_inv:
  assumes "net_inv n" "valid_lc n p" "lc_type (net_lc n p) \<noteq> GSM_LCHAN_NONE"
  shows "net_inv (upd_lc p (rsl_lchan_set_state s) n)"
  using assms st_inv_write [of n p "rsl_lchan_set_state s"] by (simp add: net_inv_def conn_of_upd_same)

lemma request_inv:
  assumes inv: "net_inv n" and b: "b < length (bn_bts n)" and a: "lchan_alloc (bn_bts n ! b) ty big = (bts', Some p, ev)"
  shows "net_inv (upd_lc (b, p) (rsl_lchan_set_state s) (n\<lparr>bn_bts := (bn_bts n)[b := bts']\<rparr>))"
proof -
  from inv have st: "st_inv {} n" and link: "link_inv (conn_of n) (bn_conns n) (bn_hos n)" by (simp_all add: net_inv_def)
  note A = net_alloc [OF st b a]
  have "net_inv (n\<lparr>bn_bts := (bn_bts n)[b := bts']\<rparr>)" using A(1,2) link by (simp add: net_inv_def)
  then show ?thesis using A(4-6) by (intro activated_inv) simp_all
qed

lemma ho_ack_inv: "net_inv n \<Longrightarrow> net_inv (fst (ho_chan_activ_ack p n))"
proof (cases "bsc_ho_by_new_lchan n p")
  case (Some ho)
  assume inv: "net_inv n"
  let ?H = "map (\<lambda>h. if h = ho then h\<lparr>ho_T3103 := True\<rparr> else h) (bn_hos n)"
  have m: "map ho_new_lchan ?H = map ho_new_lchan (bn_hos n)" by simp
  have "link_inv C K ?H = link_inv C K (bn_hos n)" for C K
    unfolding link_inv_def set_map [symmetric] m ..
  then show ?thesis using inv Some by (simp add: net_inv_def ho_chan_activ_ack_def)
qed (simp add: ho_chan_activ_ack_def)

lemma net_init_inv: "net_inv (net_init (replicate k fresh_bts))"
proof -
  have "list_all (\<lambda>trx. list_all (\<lambda>ts. list_all (\<lambda>lc. Option.is_none (lc_conn lc)) (ts_lchan ts)) (trx_ts trx))
      (bts_trx_list fresh_bts)" by code_simp
  then have "lc_conn (the_lchan fresh_bts p) = None" if "valid_lchan fresh_bts p" for p
    using that by (cases p) (auto simp: valid_lchan_def valid_ts_def the_lchan_def the_ts_def list_all_length is_none_simps Option.is_none_def)
  then have "conn_of (net_init (replicate k fresh_bts)) = (\<lambda>_. None)"
    by (auto simp: conn_of_def net_init_def valid_lc_def net_lc_def fun_eq_iff)
  then show ?thesis using fresh_bts_inv
    by (simp add: net_inv_def st_inv_def link_inv_def) (simp add: net_init_def)
qed

lemma net_step_inv:
  assumes h: "signal_handler (env_handler env)" and "net_step env n n'" and inv: "net_inv n"
  shows "net_inv n'"
  using assms(2)
proof (cases rule: net_step.cases)
  case (connect p c mem accepted l msg ev rc)
  with new_connection_inv [OF inv connect(1-3,5,4), of mem accepted l msg] show ?thesis by auto
next
  case (assign c cn b q mode full ev rc)
  with handle_new_assignment_inv [OF h inv assign(1-4,5), of mode full] show ?thesis by auto
next
  case (ass_compl c cn q p l3 ev)
  with ass_compl_inv [OF inv ass_compl(1,2), of p l3] show ?thesis by auto
next
  case (ass_fail c cn p l3 ev)
  with ass_fail_inv [OF inv ass_fail(1,2), of p l3] show ?thesis by auto
next
  case (T10 c cn ev)
  with t10_timeout_inv [OF inv T10(1)] show ?thesis by auto
next
  case (ho_nack p rc)
  with ho_nack_inv [OF inv, of p] show ?thesis by auto
next
  case (ho_compl p ho c cn ev rc)
  with ho_compl_inv [OF inv ho_compl(1-4)] show ?thesis by auto
next
  case (ho_fail p ev rc)
  with ho_fail_inv [OF inv, of p] show ?thesis by auto
next
  case (T3103 ho ev)
  with T3103_inv [OF inv T3103(1)] show ?thesis by auto
qed (auto intro: configure_inv [OF inv] request_inv [OF inv] activated_inv [OF inv] chan_nack_inv [OF inv]
     handover_start_inv [OF h inv] ho_ack_inv [OF inv] gsm0808_clear_inv [OF inv] net_lchan_free_inv [OF inv])

lemma net_reachable_inv:
  assumes "net_reachable env n" "signal_handler (env_handler env)"
  shows "net_inv n"
  using assms by (induction rule: net_reachable.induct) (simp_all add: net_init_inv net_step_inv)

lemma reachable_net_inv: "net_reachable (env\<lparr>env_handler := bsc_handle_lchan_signal sec\<rparr>) n \<Longrightarrow> net_inv n"
  by (erule net_reachable_inv) (simp add: bsc_api.signal_handler_axioms)

section \<open>A sample run\<close>

text \<open>
  Two stations; a signalling channel of the first is allocated, activated and connected (\<open>sample_n2\<close>);
  the connection is handed over to the second (\<open>sample_n3\<close>).
\<close>

definition sample_n0 :: bsc_net where
  "sample_n0 = net_init (replicate 2 fresh_bts)"

definition sample_n1 :: bsc_net where
  "sample_n1 = upd_lc (0, 0, 0, 0) (rsl_lchan_set_state LCHAN_S_ACT_REQ)
     (sample_n0\<lparr>bn_bts := (bn_bts sample_n0)[0 := fst (lchan_alloc fresh_bts GSM_LCHAN_SDCCH False)]\<rparr>)"

definition sample_n2 :: bsc_net where
  "sample_n2 = fst (the (gsm0408_rcvmsg True True 7 (0, 0, 0, 0) 0 L3_other
     (upd_lc (0, 0, 0, 0) (rsl_lchan_set_state LCHAN_S_ACTIVE) sample_n1)))"

definition sample_n3 :: bsc_net where
  "sample_n3 = fst (bsc_handover_start sample_env True (0, 0, 0, 0) 1 sample_n2)"

definition sample_ho :: bsc_handover where
  "sample_ho = \<lparr>ho_old_lchan = (0, 0, 0, 0), ho_new_lchan = (1, 0, 0, 0), ho_T3103 = False, ho_ref = 0\<rparr>"

definition sample_conn :: subscr_conn where
  "sample_conn = \<lparr>cn_lchan = Some (0, 0, 0, 0), cn_ho_lchan = Some (1, 0, 0, 0), cn_secondary_lchan = None,
     cn_bts = Some 0, cn_T10 = False\<rparr>"

lemma sample_alloc: "fst (snd (lchan_alloc fresh_bts GSM_LCHAN_SDCCH False)) = Some (0, 0, 0)"
  by code_simp

lemma sample_n3_eval: "(bn_hos sample_n3, bn_conns sample_n3 7) = ([sample_ho], Some sample_conn)"
  by code_simp

lemma sample_n3_state: "bn_hos sample_n3 = [sample_ho]" "bn_conns sample_n3 7 = Some sample_conn"
  using sample_n3_eval by (simp_all only: prod.inject)

lemma sample_len: "length (bn_bts sample_n0) = 2" "bn_bts sample_n0 ! 0 = fresh_bts"
  "bn_conns sample_n0 = (\<lambda>_. None)" "length (bn_bts sample_n1) = 2" "bn_conns sample_n1 = (\<lambda>_. None)"
  by (simp_all add: sample_n1_def sample_n0_def net_init_def numeral_2_eq_2)

lemma sample_n1_values:
  "(valid_lc sample_n1 (0, 0, 0, 0), lc_type (net_lc sample_n1 (0, 0, 0, 0)), lc_conn (net_lc sample_n1 (0, 0, 0, 0))) =
   (True, GSM_LCHAN_SDCCH, None)"
  by code_simp

lemma sample_n1_valid:
  "valid_lc sample_n1 (0, 0, 0, 0)" "lc_type (net_lc sample_n1 (0, 0, 0, 0)) = GSM_LCHAN_SDCCH"
  "lc_conn (net_lc sample_n1 (0, 0, 0, 0)) = None"
  using sample_n1_values by (simp_all only: prod.inject simp_thms)

lemma sample_n2_eq:
  "gsm0408_rcvmsg True True 7 (0, 0, 0, 0) 0 L3_other (upd_lc (0, 0, 0, 0) (rsl_lchan_set_state LCHAN_S_ACTIVE) sample_n1) =
     Some (sample_n2, [NE_compl_l3 7], 0)"
  "sample_n2 = set_conn_ptr (0, 0, 0, 0) (Some 7)
     ((upd_lc (0, 0, 0, 0) (rsl_lchan_set_state LCHAN_S_ACTIVE) sample_n1)
        \<lparr>bn_conns := [7 \<mapsto> sample_conn\<lparr>cn_ho_lchan := None\<rparr>]\<rparr>)"
  using sample_n1_valid
  by (simp_all add: sample_n2_def gsm0408_rcvmsg_def net_lc_upd_lc subscr_con_allocate_def sample_len sample_conn_def
      rsl_lchan_set_state_def [of LCHAN_S_ACTIVE])

lemma sample_n2_reachable: "net_reachable sample_env sample_n2"
proof -
  let ?a = "lchan_alloc fresh_bts GSM_LCHAN_SDCCH False"
  have r0: "net_reachable sample_env sample_n0" unfolding sample_n0_def by (rule net_reachable.init)
  have a: "lchan_alloc (bn_bts sample_n0 ! 0) GSM_LCHAN_SDCCH False = (fst ?a, Some (0, 0, 0), snd (snd ?a))"
    unfolding sample_len(2) using sample_alloc by (metis prod.collapse)
  have "net_step sample_env sample_n0 sample_n1"
    unfolding sample_n1_def by (rule net_step.request [OF _ a]) (simp add: sample_len)
  with r0 have r1: "net_reachable sample_env sample_n1" by (rule net_reachable.step)
  let ?n = "upd_lc (0, 0, 0, 0) (rsl_lchan_set_state LCHAN_S_ACTIVE) sample_n1"
  have "net_step sample_env sample_n1 ?n" by (rule net_step.activated) (simp_all add: sample_n1_valid)
  with r1 have r2: "net_reachable sample_env ?n" by (rule net_reachable.step)
  have "net_lc ?n (0, 0, 0, 0) = rsl_lchan_set_state LCHAN_S_ACTIVE (net_lc sample_n1 (0, 0, 0, 0))"
    using sample_n1_valid(1) by (simp add: net_lc_upd_lc)
  then have "net_step sample_env ?n sample_n2"
    by (intro net_step.connect [OF _ _ _ _ _ sample_n2_eq(1)])
       (simp_all add: sample_n1_valid sample_len, simp add: rsl_lchan_set_state_def)
  with r2 show ?thesis by (rule net_reachable.step)
qed

lemma sample_n3_reachable: "net_reachable sample_env sample_n3"
proof -
  have "net_step sample_env sample_n2 sample_n3"
    unfolding sample_n3_def
  proof (rule net_step.ho_start)
    show "1 < length (bn_bts sample_n2)" by (simp add: sample_n2_eq(2) set_conn_ptr_def sample_len)
    show "valid_lc sample_n2 (0, 0, 0, 0)" using sample_n1_valid(1) by (simp add: sample_n2_eq(2))
    show "cn_ho_lchan cn = None" if "bn_conns sample_n2 c = Some cn" for c cn
      using that by (auto simp: sample_n2_eq(2) split: if_splits)
  qed
  with sample_n2_reachable show ?thesis by (rule net_reachable.step)
qed

text \<open>An assignment of a traffic channel, after a timeslot was configured for it.\<close>

definition sample_n4 :: bsc_net where
  "sample_n4 = sample_n2\<lparr>bn_bts := (bn_bts sample_n2)[0 := upd_ts (0, 1) (\<lambda>ts. ts\<lparr>ts_pchan := GSM_PCHAN_TCH_F\<rparr>) (bn_bts sample_n2 ! 0)]\<rparr>"

definition sample_n5 :: bsc_net where
  "sample_n5 = fst (the (handle_new_assignment sample_env 7 GSM48_CMODE_SPEECH_V1 True sample_n4))"

lemma sample_n5_state:
  "bn_conns sample_n5 7 = Some (sample_conn\<lparr>cn_ho_lchan := None, cn_secondary_lchan := Some (0, 0, 1, 0)\<rparr>)"
  by code_simp

lemma sample_n2_ts: "valid_ts (bn_bts sample_n2 ! 0) (0, 1) \<and> ts_pchan (the_ts (bn_bts sample_n2 ! 0) (0, 1)) = GSM_PCHAN_NONE"
  by code_simp

lemma sample_n5_reachable: "net_reachable sample_env sample_n5"
proof -
  have l: "length (bn_bts sample_n2) = 2" by (simp add: sample_n2_eq(2) set_conn_ptr_def sample_len)
  have "net_step sample_env sample_n2 sample_n4"
    unfolding sample_n4_def by (rule net_step.configure) (use sample_n2_ts l in simp_all)
  with sample_n2_reachable have r4: "net_reachable sample_env sample_n4" by (rule net_reachable.step)
  have h: "signal_handler (env_handler sample_env)" by (simp add: sample_env_def bsc_api.signal_handler_axioms)
  have K: "bn_conns sample_n4 7 = Some (sample_conn\<lparr>cn_ho_lchan := None\<rparr>)" by (simp add: sample_n4_def sample_n2_eq(2))
  let ?cn = "sample_conn\<lparr>cn_ho_lchan := None\<rparr>"
  have g: "cn_secondary_lchan ?cn = None" "cn_bts ?cn = Some 0" "0 < length (bn_bts sample_n4)" "cn_lchan ?cn = Some (0, 0, 0, 0)"
    by (simp_all add: sample_conn_def sample_n4_def l)
  from handle_new_assignment_inv [OF h net_reachable_inv [OF r4 h] K g, of GSM48_CMODE_SPEECH_V1 True] obtain ev rc
    where "handle_new_assignment sample_env 7 GSM48_CMODE_SPEECH_V1 True sample_n4 = Some (sample_n5, ev, rc)"
    by (auto simp: sample_n5_def)
  from r4 net_step.assign [OF K g this] show ?thesis by (rule net_reachable.step)
qed

section \<open>Properties\<close>



text \<open>In every reachable network the failure paths of handover and assignment never follow a missing connection: T3103 of a handover record, a negative activation acknowledgement, a handover failure and T10 of a connection all complete, and leave a network with consistent links.\<close>

theorem failure_paths_complete:
  assumes "net_reachable (env\<lparr>env_handler := bsc_handle_lchan_signal sec\<rparr>) n"
  shows "(\<exists>n' rc. ho_chan_activ_nack p n = Some (n', rc) \<and> net_inv n') \<and>
         (\<exists>n' ev rc. ho_gsm48_ho_fail p n = Some (n', ev, rc) \<and> net_inv n') \<and>
         (ho \<in> set (bn_hos n) \<longrightarrow> (\<exists>n' ev. ho_T3103_cb ho n = Some (n', ev) \<and> net_inv n')) \<and>
         (bn_conns n c \<noteq> None \<longrightarrow> (\<exists>n' ev. assignment_t10_timeout c n = Some (n', ev) \<and> net_inv n'))"
proof -
  note inv = reachable_net_inv [OF assms]
  show ?thesis using ho_nack_inv [OF inv] ho_fail_inv [OF inv] T3103_inv [OF inv] t10_timeout_inv [OF inv] by blast
qed

theorem failure_paths_complete_witness:
  "\<exists>n' ev. ho_T3103_cb sample_ho sample_n3 = Some (n', ev) \<and> net_inv n'"
  using failure_paths_complete [where env = sample_env and sec = "\<lambda>_. False" and n = sample_n3 and p = "(1, 0, 0, 0)" and ho = sample_ho and c = 7]
  unfolding sample_env_handler by (simp add: sample_n3_reachable sample_n3_state)





text \<open>C27: Freeing a channel, with all that the unexpected release does to its connection, its handover and the other channels, acts on the channel itself as the channel allocator does with the handler of the BSC API.\<close>

theorem net_lchan_free_refines:
  assumes "net_reachable (env\<lparr>env_handler := bsc_handle_lchan_signal sec\<rparr>) n" and "valid_lc n p"
  shows "net_lc (fst (net_lchan_free destruct p n)) p = fst (lchan_free (bsc_handle_lchan_signal sec') (net_lc n p))"
  by (rule net_lchan_free_lc [OF reachable_net_inv [OF assms(1)] assms(2)])

theorem net_lchan_free_refines_witness:
  "net_lc (fst (net_lchan_free True (0, 0, 0, 0) sample_n2)) (0, 0, 0, 0) =
     fst (lchan_free (bsc_handle_lchan_signal (\<lambda>_. True)) (net_lc sample_n2 (0, 0, 0, 0)))"
proof -
  have v: "valid_lc sample_n2 (0, 0, 0, 0)" using sample_n1_valid(1) by (simp add: sample_n2_eq(2))
  show ?thesis
    by (rule net_lchan_free_refines [where env = sample_env and sec = "\<lambda>_. False"])
       (simp_all only: sample_env_handler sample_n2_reachable v)
qed

end
