(* ===== verification/Crc24.thy ===== *)
theory Crc24
  imports Osmo_Prelude
begin

unbundle bit_operations_syntax

text \<open>
  The frame check sequence of the GPRS LLC layer (\<^verbatim>\<open>src/gprs/crc24.c\<close>): the table driven routine of the
  code, the bit serial shift register it implements, and what it detects.
\<close>

section \<open>The routine\<close>

definition tbl_crc24 :: "u32 list" where
  "tbl_crc24 =
    [
     0x000000, 0xd6a776, 0xf64557, 0x20e221, 0xb78115, 0x612663, 0x41c442, 0x976334,
     0x340991, 0xe2aee7, 0xc24cc6, 0x14ebb0, 0x838884, 0x552ff2, 0x75cdd3, 0xa36aa5,
     0x681322, 0xbeb454, 0x9e5675, 0x48f103, 0xdf9237, 0x093541, 0x29d760, 0xff7016,
     0x5c1ab3, 0x8abdc5, 0xaa5fe4, 0x7cf892, 0xeb9ba6, 0x3d3cd0, 0x1ddef1, 0xcb7987,
     0xd02644, 0x068132, 0x266313, 0xf0c465, 0x67a751, 0xb10027, 0x91e206, 0x474570,
     0xe42fd5, 0x3288a3, 0x126a82, 0xc4cdf4, 0x53aec0, 0x8509b6, 0xa5eb97, 0x734ce1,
     0xb83566, 0x6e9210, 0x4e7031, 0x98d747, 0x0fb473, 0xd91305, 0xf9f124, 0x2f5652,
     0x8c3cf7, 0x5a9b81, 0x7a79a0, 0xacded6, 0x3bbde2, 0xed1a94, 0xcdf8b5, 0x1b5fc3,
     0xfb4733, 0x2de045, 0x0d0264, 0xdba512, 0x4cc626, 0x9a6150, 0xba8371, 0x6c2407,
     0xcf4ea2, 0x19e9d4, 0x390bf5, 0xefac83, 0x78cfb7, 0xae68c1, 0x8e8ae0, 0x582d96,
     0x935411, 0x45f367, 0x651146, 0xb3b630, 0x24d504, 0xf27272, 0xd29053, 0x043725,
     0xa75d80, 0x71faf6, 0x5118d7, 0x87bfa1, 0x10dc95, 0xc67be3, 0xe699c2, 0x303eb4,
     0x2b6177, 0xfdc601, 0xdd2420, 0x0b8356, 0x9ce062, 0x4a4714, 0x6aa535, 0xbc0243,
     0x1f68e6, 0xc9cf90, 0xe92db1, 0x3f8ac7, 0xa8e9f3, 0x7e4e85, 0x5eaca4, 0x880bd2,
     0x437255, 0x95d523, 0xb53702, 0x639074, 0xf4f340, 0x225436, 0x02b617, 0xd41161,
     0x777bc4, 0xa1dcb2, 0x813e93, 0x5799e5, 0xc0fad1, 0x165da7, 0x36bf86, 0xe018f0,
     0xad85dd, 0x7b22ab, 0x5bc08a, 0x8d67fc, 0x1a04c8, 0xcca3be, 0xec419f, 0x3ae6e9,
     0x998c4c, 0x4f2b3a, 0x6fc91b, 0xb96e6d, 0x2e0d59, 0xf8aa2f, 0xd8480e, 0x0eef78,
     0xc596ff, 0x133189, 0x33d3a8, 0xe574de, 0x7217ea, 0xa4b09c, 0x8452bd, 0x52f5cb,
     0xf19f6e, 0x273818, 0x07da39, 0xd17d4f, 0x461e7b, 0x90b90d, 0xb05b2c, 0x66fc5a,
     0x7da399, 0xab04ef, 0x8be6ce, 0x5d41b8, 0xca228c, 0x1c85fa, 0x3c67db, 0xeac0ad,
     0x49aa08, 0x9f0d7e, 0xbfef5f, 0x694829, 0xfe2b1d, 0x288c6b, 0x086e4a, 0xdec93c,
     0x15b0bb, 0xc317cd, 0xe3f5ec, 0x35529a, 0xa231ae, 0x7496d8, 0x5474f9, 0x82d38f,
     0x21b92a, 0xf71e5c, 0xd7fc7d, 0x015b0b, 0x96383f, 0x409f49, 0x607d68, 0xb6da1e,
     0x56c2ee, 0x806598, 0xa087b9, 0x7620cf, 0xe143fb, 0x37e48d, 0x1706ac, 0xc1a1da,
     0x62cb7f, 0xb46c09, 0x948e28, 0x42295e, 0xd54a6a, 0x03ed1c, 0x230f3d, 0xf5a84b,
     0x3ed1cc, 0xe876ba, 0xc8949b, 0x1e33ed, 0x8950d9, 0x5ff7af, 0x7f158e, 0xa9b2f8,
     0x0ad85d, 0xdc7f2b, 0xfc9d0a, 0x2a3a7c, 0xbd5948, 0x6bfe3e, 0x4b1c1f, 0x9dbb69,
     0x86e4aa, 0x5043dc, 0x70a1fd, 0xa6068b, 0x3165bf, 0xe7c2c9, 0xc720e8, 0x11879e,
     0xb2ed3b, 0x644a4d, 0x44a86c, 0x920f1a, 0x056c2e, 0xd3cb58, 0xf32979, 0x258e0f,
     0xeef788, 0x3850fe, 0x18b2df, 0xce15a9, 0x59769d, 0x8fd1eb, 0xaf33ca, 0x7994bc,
     0xdafe19, 0x0c596f, 0x2cbb4e, 0xfa1c38, 0x6d7f0c, 0xbbd87a, 0x9b3a5b, 0x4d9d2d]"

definition INIT_CRC24 :: u32 where
  "INIT_CRC24 = 0xffffff"

definition crc24_step :: "u32 \<Rightarrow> u8 \<Rightarrow> u32" where
  "crc24_step fcs c = drop_bit 8 fcs XOR tbl_crc24 ! unat ((fcs XOR ucast c) AND 0xff)"

definition crc24_calc :: "u32 \<Rightarrow> u8 list \<Rightarrow> u32" where
  "crc24_calc fcs cp = foldl crc24_step fcs cp"

section \<open>The shift register\<close>

definition crc24_bit :: "u32 \<Rightarrow> u32" where
  "crc24_bit x = (if bit x 0 then drop_bit 1 x XOR 0xad85dd else drop_bit 1 x)"

text \<open>One bit of the message after the other, the least significant of each octet first.\<close>

definition octet_bits :: "u8 \<Rightarrow> bool list" where
  "octet_bits c = map (bit c) [0..<8]"

definition crc24_serial :: "u32 \<Rightarrow> bool list \<Rightarrow> u32" where
  "crc24_serial fcs bs = foldl (\<lambda>f b. crc24_bit (f XOR of_bool b)) fcs bs"

lemma crc24_bit_xor: "crc24_bit (x XOR y) = crc24_bit x XOR crc24_bit y"
  by (rule bit_word_eqI) (auto simp: crc24_bit_def bit_simps)

lemma crc24_bits_xor: "(crc24_bit ^^ k) (x XOR y) = (crc24_bit ^^ k) x XOR (crc24_bit ^^ k) y"
  by (induction k) (simp_all add: crc24_bit_xor)

text \<open>
  The table lists the effect of eight shifts on each octet. It is computed by doubling: the upper
  half of a table of \<open>2 ^ (k + 1)\<close> entries is the lower half with the entry for bit \<open>k\<close> added.
\<close>

definition shift8 :: "nat \<Rightarrow> u32" where
  "shift8 i = (crc24_bit ^^ 8) (of_nat i)"

lemma of_nat_disjoint_xor:
  assumes "i < 2 ^ k"
  shows "(of_nat (2 ^ k + i) :: u32) = of_nat (2 ^ k) XOR of_nat i"
proof -
  have "(2 ^ k :: nat) AND i = 0"
    by (rule bit_eqI) (use assms in \<open>auto simp: bit_and_iff bit_exp_iff bit_iff_odd [of i]\<close>)
  then have "2 ^ k + i = 2 ^ k XOR i" by (rule disjunctive_add_eq_xor)
  then show ?thesis by (simp only: of_nat_xor_eq)
qed

lemma shift8_double:
  assumes "m = 2 ^ k"
  shows "map shift8 [0..<m + m] = map shift8 [0..<m] @ map (\<lambda>x. shift8 m XOR x) (map shift8 [0..<m])"
proof -
  have "[0..<m + m] = [0..<m] @ map (\<lambda>i. m + i) [0..<m]"
    by (simp add: upt_add_eq_append [of 0 m m] map_add_upt add.commute)
  moreover have "shift8 (m + i) = shift8 m XOR shift8 i" if "i < m" for i
    using of_nat_disjoint_xor [of i k] that assms by (simp add: shift8_def crc24_bits_xor)
  ultimately show ?thesis by simp
qed

lemma shift8_basis:
  "shift8 0 = 0" "shift8 1 = 0xd6a776" "shift8 2 = 0xf64557" "shift8 4 = 0xb78115" "shift8 8 = 0x340991"
  "shift8 16 = 0x681322" "shift8 32 = 0xd02644" "shift8 64 = 0xfb4733" "shift8 128 = 0xad85dd"
  by code_simp+

lemma tbl_crc24_eq: "tbl_crc24 = map shift8 [0..<256]"
proof -
  have 1: "map shift8 [0..<1] = [0]" by (simp add: shift8_basis)
  have 2: "map shift8 [0..<2] = take 2 tbl_crc24"
    using shift8_basis(1,2) by (simp add: numeral_2_eq_2 tbl_crc24_def)
  have 4: "map shift8 [0..<4] = take 4 tbl_crc24"
    using shift8_double [of 2 1] by (simp add: 2 shift8_basis tbl_crc24_def)
  have 8: "map shift8 [0..<8] = take 8 tbl_crc24"
    using shift8_double [of 4 2] by (simp add: 4 shift8_basis tbl_crc24_def)
  have 16: "map shift8 [0..<16] = take 16 tbl_crc24"
    using shift8_double [of 8 3] by (simp add: 8 shift8_basis tbl_crc24_def)
  have 32: "map shift8 [0..<32] = take 32 tbl_crc24"
    using shift8_double [of 16 4] by (simp add: 16 shift8_basis tbl_crc24_def)
  have 64: "map shift8 [0..<64] = take 64 tbl_crc24"
    using shift8_double [of 32 5] by (simp add: 32 shift8_basis tbl_crc24_def)
  have 128: "map shift8 [0..<128] = take 128 tbl_crc24"
    using shift8_double [of 64 6] by (simp add: 64 shift8_basis tbl_crc24_def)
  show ?thesis
    using shift8_double [of 128 7] by (simp add: 128 shift8_basis tbl_crc24_def)
qed

section \<open>The table driven routine is the shift register\<close>

lemma crc24_bits_low_zero: "(\<And>n. n < k \<Longrightarrow> \<not> bit y n) \<Longrightarrow> (crc24_bit ^^ k) y = drop_bit k y"
proof (induction k)
  case (Suc k)
  then have "\<not> bit y k" by blast
  with Suc show ?case by (simp add: crc24_bit_def bit_drop_bit_eq ac_simps)
qed simp

lemma and_split: "x = (x AND NOT m) XOR (x AND m)" for x m :: u32
  by (rule bit_word_eqI) (auto simp: bit_and_iff bit_xor_iff bit_not_iff)

lemma crc24_step_shift: "crc24_step f c = (crc24_bit ^^ 8) (f XOR ucast c)"
proof -
  let ?x = "f XOR ucast c"
  have m: "(0xff :: u32) = mask 8" by (simp add: mask_numeral)
  have "(crc24_bit ^^ 8) (?x AND NOT (mask 8)) = drop_bit 8 (?x AND NOT (mask 8))"
    by (rule crc24_bits_low_zero) (simp add: bit_and_iff bit_not_iff bit_mask_iff)
  also have "\<dots> = drop_bit 8 f"
    by (rule bit_word_eqI) (auto simp: bit_simps dest: bit_imp_le_length)
  finally have hi: "(crc24_bit ^^ 8) (?x AND NOT (mask 8)) = drop_bit 8 f" .
  have "?x AND mask 8 < 2 ^ 8" by (rule and_mask_less') simp
  then have "unat (?x AND mask 8) < 256" by (simp add: word_less_nat_alt)
  then have "tbl_crc24 ! unat (?x AND mask 8) = (crc24_bit ^^ 8) (?x AND mask 8)"
    by (simp add: tbl_crc24_eq shift8_def)
  then show ?thesis by (subst and_split [of ?x "mask 8"]) (simp only: crc24_bits_xor hi crc24_step_def m)
qed

lemma crc24_serial_prefix:
  assumes "k \<le> 8"
  shows "crc24_serial f (map (bit c) [0..<k]) = (crc24_bit ^^ k) (f XOR take_bit k (ucast c))"
  using assms
proof (induction k)
  case (Suc k)
  let ?b = "of_bool (bit c k) :: u32"
  have "(crc24_bit ^^ k) (push_bit k ?b) = ?b"
    by (subst crc24_bits_low_zero)
       (use Suc.prems in \<open>auto simp: bit_simps intro!: bit_word_eqI\<close>)
  moreover have "take_bit (Suc k) (ucast c) = take_bit k (ucast c) XOR push_bit k ?b"
    by (rule bit_word_eqI) (use Suc.prems in \<open>auto simp: bit_simps less_Suc_eq\<close>)
  ultimately show ?case
    using Suc by (simp add: crc24_serial_def crc24_bits_xor crc24_bit_xor ac_simps)
qed (simp add: crc24_serial_def)

lemma crc24_step_serial: "crc24_step f c = crc24_serial f (octet_bits c)"
proof -
  have "take_bit 8 (ucast c :: u32) = ucast c" by (rule bit_word_eqI) (auto simp: bit_simps dest: bit_imp_le_length)
  then show ?thesis by (simp add: octet_bits_def crc24_serial_prefix crc24_step_shift)
qed

section \<open>Bursts\<close>

lemma u24_iff: "take_bit 24 x = x \<longleftrightarrow> (\<forall>n. bit x n \<longrightarrow> n < 24)" for x :: u32
proof
  assume "take_bit 24 x = x"
  then have "bit x n \<longleftrightarrow> n < 24 \<and> bit x n" for n using bit_take_bit_iff [of 24 x n] by simp
  then show "\<forall>n. bit x n \<longrightarrow> n < 24" by blast
next
  assume "\<forall>n. bit x n \<longrightarrow> n < 24"
  then show "take_bit 24 x = x" by (intro bit_word_eqI) (auto simp: bit_take_bit_iff)
qed

lemma xor_cancel: "x XOR c = y XOR c \<Longrightarrow> x = y" for x y c :: u32
  by (auto simp: bit_eq_iff bit_xor_iff)

lemma xor_zero: "x XOR y = 0 \<Longrightarrow> x = y" for x y :: u32
  by (auto simp: bit_eq_iff bit_xor_iff)

lemma crc24_bit_24: "take_bit 24 x = x \<Longrightarrow> take_bit 24 (crc24_bit x) = crc24_bit x"
proof -
  assume x: "take_bit 24 x = x"
  have "take_bit 24 (drop_bit 1 x) = drop_bit 1 x"
    using x unfolding u24_iff by (auto simp: bit_simps)
  moreover have "take_bit 24 (0xad85dd :: u32) = 0xad85dd" by simp
  ultimately show ?thesis by (simp add: crc24_bit_def)
qed

lemma crc24_bits_24: "take_bit 24 x = x \<Longrightarrow> take_bit 24 ((crc24_bit ^^ k) x) = (crc24_bit ^^ k) x"
  by (induction k) (simp_all add: crc24_bit_24)

lemma crc24_bit_zero:
  assumes z: "take_bit 24 z = z" and e: "crc24_bit z = 0"
  shows "z = 0"
proof (cases "bit z 0")
  case True
  with e have "drop_bit 1 z = 0xad85dd" by - (rule xor_zero, simp add: crc24_bit_def)
  then have "bit (drop_bit 1 z) 23" by simp
  with z show ?thesis unfolding u24_iff by (auto simp: bit_simps)
next
  case False
  with e have d: "drop_bit 1 z = 0" by (simp add: crc24_bit_def)
  show ?thesis
  proof (rule bit_word_eqI)
    fix n
    have "bit z n = bit (drop_bit 1 z) (n - 1)" if "n \<noteq> 0" using that by (simp add: bit_drop_bit_eq)
    with False d show "bit z n = bit 0 n" by (cases "n = 0") simp_all
  qed
qed

lemma crc24_bits_inj:
  assumes "take_bit 24 x = x" "take_bit 24 y = y" "(crc24_bit ^^ k) x = (crc24_bit ^^ k) y"
  shows "x = y"
proof -
  have "(crc24_bit ^^ k) (x XOR y) = 0" using assms(3) by (simp add: crc24_bits_xor)
  moreover have "take_bit 24 (x XOR y) = x XOR y" using assms by simp
  ultimately have "x XOR y = 0"
  proof (induction k)
    case (Suc k)
    then show ?case using crc24_bit_zero [OF crc24_bits_24] by simp
  qed simp
  then show ?thesis by (rule xor_zero)
qed

text \<open>The octets of a burst as one number, the first octet lowest.\<close>

primrec pack_le :: "u8 list \<Rightarrow> u32" where
  "pack_le [] = 0"
| "pack_le (c # cs) = ucast c XOR push_bit 8 (pack_le cs)"

lemma pack_le_bound: "bit (pack_le cs) n \<Longrightarrow> n < 8 * length cs"
  by (induction cs arbitrary: n) (auto simp: bit_simps dest: bit_imp_le_length, fastforce)

lemma pack_le_inj: "length cs = length ds \<Longrightarrow> length cs \<le> 4 \<Longrightarrow> pack_le cs = pack_le ds \<Longrightarrow> cs = ds"
proof (induction cs ds rule: list_induct2)
  case (Cons c cs d ds)
  have "bit c n = bit d n" if "n < 8" for n
    using that arg_cong [OF Cons.prems(2), of "\<lambda>x. bit x n"] by (auto simp: bit_simps)
  then have "c = d" by (intro bit_word_eqI) simp
  moreover have "bit (pack_le cs) n = bit (pack_le ds) n" if "n < 24" for n
    using that arg_cong [OF Cons.prems(2), of "\<lambda>x. bit x (n + 8)"] \<open>c = d\<close> by (auto simp: bit_simps)
  then have "pack_le cs = pack_le ds"
    using Cons.prems(1) Cons.hyps pack_le_bound [of cs] pack_le_bound [of ds]
    by (intro bit_word_eqI) fastforce
  ultimately show ?case using Cons by simp
qed simp

lemma crc24_calc_pack:
  "length cs \<le> 4 \<Longrightarrow> crc24_calc f cs = (crc24_bit ^^ (8 * length cs)) (f XOR pack_le cs)"
proof (induction cs arbitrary: f)
  case (Cons c cs)
  let ?p = "pack_le cs"
  have "n < 24" if "bit ?p n" for n using pack_le_bound [OF that] Cons.prems by simp
  then have "(crc24_bit ^^ 8) (push_bit 8 ?p) = ?p"
    by (subst crc24_bits_low_zero) (auto simp: bit_simps intro!: bit_word_eqI)
  then have "crc24_step f c XOR ?p = (crc24_bit ^^ 8) (f XOR pack_le (c # cs))"
    by (simp add: crc24_step_shift crc24_bits_xor ac_simps)
  moreover have "crc24_calc f (c # cs) = (crc24_bit ^^ (8 * length cs)) (crc24_step f c XOR ?p)"
    using Cons by (simp add: crc24_calc_def)
  moreover have "8 * length (c # cs) = 8 * length cs + 8" by simp
  ultimately show ?case by (simp only: funpow_add comp_def)
qed (simp add: crc24_calc_def)

lemma ucast_24: "take_bit 24 (ucast c) = (ucast c :: u32)" for c :: u8
  by (rule bit_word_eqI) (auto simp: bit_simps dest: bit_imp_le_length)

lemma crc24_step_24: "take_bit 24 f = f \<Longrightarrow> take_bit 24 (crc24_step f c) = crc24_step f c"
  using ucast_24 [of c] unfolding crc24_step_shift by (intro crc24_bits_24) simp

lemma crc24_calc_24: "take_bit 24 f = f \<Longrightarrow> take_bit 24 (crc24_calc f cs) = crc24_calc f cs"
  unfolding crc24_calc_def by (induction cs arbitrary: f) (simp_all add: crc24_step_24)

lemma crc24_step_inj:
  "take_bit 24 f = f \<Longrightarrow> take_bit 24 g = g \<Longrightarrow> crc24_step f c = crc24_step g c \<Longrightarrow> f = g"
  unfolding crc24_step_shift using ucast_24 [of c]
  by - (rule xor_cancel [where c = "ucast c"], rule crc24_bits_inj [where k = 8], simp_all)

lemma crc24_calc_inj:
  "take_bit 24 f = f \<Longrightarrow> take_bit 24 g = g \<Longrightarrow> crc24_calc f cs = crc24_calc g cs \<Longrightarrow> f = g"
  unfolding crc24_calc_def
proof (induction cs arbitrary: f g)
  case (Cons c cs)
  then have "crc24_step f c = crc24_step g c" by - (rule Cons.IH, simp_all add: crc24_step_24)
  with Cons.prems show ?case by - (rule crc24_step_inj)
qed simp

lemma crc24_calc_append: "crc24_calc f (xs @ ys) = crc24_calc (crc24_calc f xs) ys"
  by (simp add: crc24_calc_def)

lemma INIT_CRC24_24: "take_bit 24 INIT_CRC24 = INIT_CRC24"
  by (simp add: INIT_CRC24_def)

section \<open>Properties\<close>

text \<open>C37: The table driven checksum equals the bit serial shift register with the generator polynomial of GPRS LLC over the bits of the message, the least significant bit of each octet first.\<close>

theorem crc24_calc_serial: "crc24_calc fcs cp = crc24_serial fcs (concat (map octet_bits cp))"
  by (induction cp arbitrary: fcs) (simp_all add: crc24_calc_def crc24_serial_def crc24_step_serial)

text \<open>C38: Every change within three consecutive octets of a frame of any length changes its checksum.\<close>

theorem crc24_detects_bursts:
  assumes "length a = length b" "length a \<le> 3" "a \<noteq> b"
  shows "crc24_calc INIT_CRC24 (pre @ a @ post) \<noteq> crc24_calc INIT_CRC24 (pre @ b @ post)"
proof
  let ?f = "crc24_calc INIT_CRC24 pre"
  assume "crc24_calc INIT_CRC24 (pre @ a @ post) = crc24_calc INIT_CRC24 (pre @ b @ post)"
  moreover have f: "take_bit 24 ?f = ?f" by (rule crc24_calc_24 [OF INIT_CRC24_24])
  ultimately have "crc24_calc ?f a = crc24_calc ?f b"
    by - (rule crc24_calc_inj [where cs = post], simp_all add: crc24_calc_append crc24_calc_24)
  then have "(crc24_bit ^^ (8 * length a)) (?f XOR pack_le a) = (crc24_bit ^^ (8 * length a)) (?f XOR pack_le b)"
    using assms by (simp add: crc24_calc_pack)
  moreover have "take_bit 24 (pack_le cs) = pack_le cs" if "length cs \<le> 3" for cs
    using that by (auto simp: u24_iff dest: pack_le_bound)
  ultimately have "?f XOR pack_le a = ?f XOR pack_le b"
    using assms f by - (rule crc24_bits_inj, simp_all)
  then have "pack_le a = pack_le b" by - (rule xor_cancel [where c = ?f], simp add: ac_simps)
  with pack_le_inj [of a b] assms show False by simp
qed

theorem crc24_detects_bursts_witness:
  "crc24_calc INIT_CRC24 ([0x01] @ [0xc0, 0x01, 0x08] @ [0x55]) \<noteq> crc24_calc INIT_CRC24 ([0x01] @ [0xc0, 0x01, 0x09] @ [0x55])"
  by (rule crc24_detects_bursts) simp_all

end
