(* ===== verification/Gprs_Llc.thy ===== *)
theory Gprs_Llc
  imports Crc24
begin

unbundle bit_operations_syntax

text \<open>
  The logical link control layer of the SGSN (\<^verbatim>\<open>src/gprs/gprs_llc.c\<close>): logical link entities, the UI and
  U frames it sends, the header parser, reception with decryption and frame check, TLLI assignment.
  An LLME is addressed by its position in the list \<^verbatim>\<open>gprs_llc_llmes\<close>. The TLLI classification, the
  cipher and the lower layer are code outside the repository and are fields of \<open>llc_env\<close>. The result
  \<open>None\<close> of an operation is an access outside a buffer or the abort of \<^verbatim>\<open>msgb_put\<close>.
\<close>

section \<open>State\<close>

abbreviation (input) EFBIG :: int where "EFBIG \<equiv> 27"

record gprs_llc_params =
  iov_i_exp :: u16
  t200_201 :: u16
  n200 :: u16
  n201_u :: u16
  n201_i :: u16
  mD :: u16
  mU :: u16
  kD :: u16
  kU :: u16

datatype gprs_llc_lle_state =
    GPRS_LLES_UNASSIGNED | GPRS_LLES_ASSIGNED_ADM | GPRS_LLES_LOCAL_EST | GPRS_LLES_REMOTE_EST
  | GPRS_LLES_ABM | GPRS_LLES_LOCAL_REL | GPRS_LLES_TIMER_REC

datatype gprs_llc_llme_state = GPRS_LLMS_UNASSIGNED | GPRS_LLMS_ASSIGNED

record gprs_llc_lle =
  lle_sapi :: u32
  lle_state :: gprs_llc_lle_state
  v_sent :: u16
  v_ack :: u16
  v_recv :: u16
  vu_send :: u16
  vu_recv :: u16
  oc_i_send :: u32
  oc_i_recv :: u32
  oc_ui_send :: u32
  oc_ui_recv :: u32
  retrans_ctr :: u32
  lle_params :: gprs_llc_params

abbreviation (input) NUM_SAPIS :: nat where "NUM_SAPIS \<equiv> 16"

record gprs_llc_llme =
  llme_state :: gprs_llc_llme_state
  llme_tlli :: u32
  llme_old_tlli :: u32
  llme_algo :: nat
  llme_kc :: "u8 list"
  llme_bvci :: u16
  llme_nsei :: u16
  llme_lle :: "gprs_llc_lle list"

abbreviation (input) GPRS_ALGO_GEA0 :: nat where "GPRS_ALGO_GEA0 \<equiv> 0"

datatype tlli_type = TLLI_LOCAL | TLLI_FOREIGN | TLLI_RANDOM | TLLI_AUXILIARY | TLLI_RESERVED

datatype ciph_dir = GPRS_CIPH_MS2SGSN | GPRS_CIPH_SGSN2MS

text \<open>
  \<open>le_after_table n\<close> is what memory holds \<open>n\<close> entries after the parameter table, \<open>le_cipher_run\<close> the key
  stream or an error code.
\<close>

record llc_env =
  le_tlli_type :: "u32 \<Rightarrow> tlli_type"
  le_gen_input_ui :: "u32 \<Rightarrow> u32 \<Rightarrow> u32 \<Rightarrow> u32 \<Rightarrow> u32"
  le_cipher_run :: "nat \<Rightarrow> nat \<Rightarrow> u8 list \<Rightarrow> u32 \<Rightarrow> ciph_dir \<Rightarrow> int + u8 list"
  le_after_table :: "nat \<Rightarrow> gprs_llc_params"
  le_tx_rc :: int

section \<open>Entities\<close>

definition zero_params :: gprs_llc_params where
  "zero_params = \<lparr>iov_i_exp = 0, t200_201 = 0, n200 = 0, n201_u = 0, n201_i = 0, mD = 0, mU = 0, kD = 0, kU = 0\<rparr>"

definition llc_default_params :: "gprs_llc_params list" where
  "llc_default_params =
     [zero_params,
      zero_params\<lparr>t200_201 := 5, n200 := 3, n201_u := 400\<rparr>,
      zero_params\<lparr>t200_201 := 5, n200 := 3, n201_u := 270\<rparr>,
      \<lparr>iov_i_exp = 27, t200_201 = 5, n200 = 3, n201_u = 500, n201_i = 1503, mD = 1520, mU = 1520, kD = 16, kU = 16\<rparr>,
      zero_params,
      \<lparr>iov_i_exp = 27, t200_201 = 10, n200 = 3, n201_u = 500, n201_i = 1503, mD = 760, mU = 760, kD = 8, kU = 8\<rparr>,
      zero_params,
      zero_params\<lparr>t200_201 := 20, n200 := 3, n201_u := 270\<rparr>,
      zero_params\<lparr>t200_201 := 20, n200 := 3, n201_u := 270\<rparr>,
      \<lparr>iov_i_exp = 27, t200_201 = 20, n200 = 3, n201_u = 500, n201_i = 1503, mD = 380, mU = 380, kD = 4, kU = 4\<rparr>,
      zero_params,
      \<lparr>iov_i_exp = 27, t200_201 = 40, n200 = 3, n201_u = 500, n201_i = 1503, mD = 190, mU = 190, kD = 2, kU = 2\<rparr>]"

definition tlli_foreign2local :: "llc_env \<Rightarrow> u32 \<Rightarrow> u32" where
  "tlli_foreign2local env tlli =
     (if le_tlli_type env tlli = TLLI_FOREIGN then tlli OR 0x40000000 else tlli)"

definition lle_by_tlli_sapi :: "llc_env \<Rightarrow> u32 \<Rightarrow> gprs_llc_llme list \<Rightarrow> nat option" where
  "lle_by_tlli_sapi env tlli llmes =
     (let t = tlli_foreign2local env tlli
      in find_idx (\<lambda>llme. llme_tlli llme = t \<or> llme_old_tlli llme = t) llmes)"

text \<open>The copy of the parameters reads the table at every SAPI, also past its end.\<close>

definition lle_init :: "llc_env \<Rightarrow> nat \<Rightarrow> gprs_llc_lle" where
  "lle_init env sapi =
     \<lparr>lle_sapi = of_nat sapi, lle_state = GPRS_LLES_UNASSIGNED, v_sent = 0, v_ack = 0, v_recv = 0,
      vu_send = 0, vu_recv = 0, oc_i_send = 0, oc_i_recv = 0, oc_ui_send = 0, oc_ui_recv = 0, retrans_ctr = 0,
      lle_params = (if sapi < length llc_default_params then llc_default_params ! sapi
                    else le_after_table env (sapi - length llc_default_params))\<rparr>"

definition llme_alloc :: "llc_env \<Rightarrow> u32 \<Rightarrow> gprs_llc_llme list \<Rightarrow> gprs_llc_llme list" where
  "llme_alloc env tlli llmes =
     \<lparr>llme_state = GPRS_LLMS_UNASSIGNED, llme_tlli = tlli, llme_old_tlli = 0xffffffff, llme_algo = GPRS_ALGO_GEA0,
      llme_kc = replicate 8 0, llme_bvci = 0, llme_nsei = 0, llme_lle = map (lle_init env) [0..<NUM_SAPIS]\<rparr> # llmes"

definition llme_free :: "nat \<Rightarrow> gprs_llc_llme list \<Rightarrow> gprs_llc_llme list" where
  "llme_free i llmes = take i llmes @ drop (Suc i) llmes"

definition upd_lle :: "nat \<Rightarrow> nat \<Rightarrow> (gprs_llc_lle \<Rightarrow> gprs_llc_lle) \<Rightarrow> gprs_llc_llme list \<Rightarrow> gprs_llc_llme list" where
  "upd_lle i sapi f = upd_nth i (\<lambda>llme. llme\<lparr>llme_lle := upd_nth sapi f (llme_lle llme)\<rparr>)"

definition the_lle :: "gprs_llc_llme list \<Rightarrow> nat \<Rightarrow> nat \<Rightarrow> gprs_llc_lle" where
  "the_lle llmes i sapi = llme_lle (llmes ! i) ! sapi"

section \<open>Timers\<close>

definition t200_expired :: "gprs_llc_lle \<Rightarrow> gprs_llc_lle" where
  "t200_expired lle =
     (let lle1 = (if retrans_ctr lle \<ge> ucast (n200 (lle_params lle))
                  then lle\<lparr>lle_state := GPRS_LLES_ASSIGNED_ADM\<rparr> else lle)
      in case lle_state lle1 of
           GPRS_LLES_LOCAL_EST \<Rightarrow> lle1\<lparr>retrans_ctr := retrans_ctr lle1 + 1\<rparr>
         | GPRS_LLES_LOCAL_REL \<Rightarrow> lle1\<lparr>retrans_ctr := retrans_ctr lle1 + 1\<rparr>
         | _ \<Rightarrow> lle1)"

definition t201_expired :: "gprs_llc_lle \<Rightarrow> gprs_llc_lle" where
  "t201_expired lle =
     (if retrans_ctr lle < ucast (n200 (lle_params lle)) then lle\<lparr>retrans_ctr := retrans_ctr lle + 1\<rparr> else lle)"

section \<open>Frames\<close>

definition gprs_llc_fcs :: "u8 list \<Rightarrow> u32" where
  "gprs_llc_fcs data = NOT (crc24_calc INIT_CRC24 data) AND 0xffffff"

definition fcs_octets :: "u32 \<Rightarrow> u8 list" where
  "fcs_octets fcs = [ucast (fcs AND 0xff), ucast (drop_bit 8 fcs AND 0xff), ucast (drop_bit 16 fcs AND 0xff)]"

definition with_fcs :: "u8 list \<Rightarrow> u8 list" where
  "with_fcs frame = frame @ fcs_octets (gprs_llc_fcs frame)"

text \<open>Values of \<^verbatim>\<open>enum gprs_llc_u_cmd\<close>.\<close>

abbreviation (input) GPRS_LLC_U_XID :: u8 where "GPRS_LLC_U_XID \<equiv> 0x0b"

definition addr_field :: "u8 \<Rightarrow> bool \<Rightarrow> u8" where
  "addr_field sapi command = (if command then (sapi AND 0xf) OR 0x40 else sapi AND 0xf)"

definition gprs_llc_tx_u :: "u8 list \<Rightarrow> u8 \<Rightarrow> bool \<Rightarrow> u8 \<Rightarrow> bool \<Rightarrow> u8 list" where
  "gprs_llc_tx_u msg sapi command u_cmd pf_bit =
     with_fcs ([addr_field sapi command, (if pf_bit then (0xe0 OR u_cmd) OR 0x10 else 0xe0 OR u_cmd)] @ msg)"

definition xor_octets :: "u8 list \<Rightarrow> u8 list \<Rightarrow> u8 list" where
  "xor_octets = map2 (XOR)"

text \<open>
  A frame handed to BSSGP with the identifiers that route it. For the XID response they are those of
  the LLME.
\<close>

datatype llc_event =
    BSSGP_tx_dl_ud "u8 list"
  | BSSGP_tx_xid u32 u16 u16 "u8 list"
  | LL_GMM "u8 list" nat
  | LL_SNDCP nat "u8 list" nat u16

definition ui_ctrl0 :: "u16 \<Rightarrow> u8" where
  "ui_ctrl0 nu = 0xc0 OR ucast (drop_bit 6 nu)"

definition ui_ctrl1 :: "u16 \<Rightarrow> u8" where
  "ui_ctrl1 nu = (ucast (push_bit 2 nu) AND 0xfc) OR 0x01"

text \<open>
  Sending a UI frame. The octets are written before the encryption marks \<^verbatim>\<open>ctrl[1]\<close>, so the mark is not
  part of the frame.
\<close>

definition gprs_llc_tx_ui ::
    "llc_env \<Rightarrow> u32 \<Rightarrow> u16 \<Rightarrow> u16 \<Rightarrow> u8 list \<Rightarrow> u8 \<Rightarrow> bool \<Rightarrow> gprs_llc_llme list \<Rightarrow>
     gprs_llc_llme list \<times> llc_event list \<times> int" where
  "gprs_llc_tx_ui env tlli bvci nsei msg sapi command llmes =
     (let (llmes1, i) = (case lle_by_tlli_sapi env tlli llmes of
                           Some i \<Rightarrow> (llmes, i)
                         | None \<Rightarrow> (llme_alloc env tlli llmes, 0));
          lle = the_lle llmes1 i (unat sapi)
      in if length msg > unat (n201_u (lle_params lle)) then (llmes1, [], - EFBIG)
         else
           (let llmes2 = upd_nth i (\<lambda>m. m\<lparr>llme_bvci := bvci, llme_nsei := nsei\<rparr>) llmes1;
                nu = vu_send lle;
                oc = oc_ui_send lle;
                vu = (nu + 1) mod 512;
                llmes3 = upd_lle i (unat sapi) (\<lambda>l. l\<lparr>vu_send := vu,
                           oc_ui_send := (if (unat vu + 1) div 512 \<noteq> 0 then oc + 512 else oc)\<rparr>) llmes2;
                frame = with_fcs ([addr_field sapi command, ui_ctrl0 nu, ui_ctrl1 nu] @ msg);
                algo = llme_algo (llmes3 ! i)
            in if algo = GPRS_ALGO_GEA0 then (llmes3, [BSSGP_tx_dl_ud frame], le_tx_rc env)
               else
                 (case le_cipher_run env (length msg + 3) algo (llme_kc (llmes3 ! i))
                         (le_gen_input_ui env 0 (ucast sapi) (ucast nu) oc) GPRS_CIPH_SGSN2MS of
                    Inl rc \<Rightarrow> (llmes3, [], rc)
                  | Inr ks \<Rightarrow> (llmes3, [BSSGP_tx_dl_ud (take 3 frame @ xor_octets (drop 3 frame) ks)], le_tx_rc env))))"

section \<open>The header parser\<close>

datatype gprs_llc_cmd =
    GPRS_LLC_NULL | GPRS_LLC_RR | GPRS_LLC_ACK | GPRS_LLC_RNR | GPRS_LLC_SACK | GPRS_LLC_DM
  | GPRS_LLC_DISC | GPRS_LLC_UA | GPRS_LLC_SABM | GPRS_LLC_FRMR | GPRS_LLC_XID | GPRS_LLC_UI

text \<open>\<open>ghp_data\<close> is the offset of the information field, \<open>None\<close> the \<^verbatim>\<open>NULL\<close> pointer.\<close>

record gprs_llc_hdr_parsed =
  ghp_sapi :: u8
  ghp_is_cmd :: bool
  ghp_ack_req :: bool
  ghp_is_encrypted :: bool
  ghp_seq_rx :: u32
  ghp_seq_tx :: u32
  ghp_fcs :: u32
  ghp_data :: "nat option"
  ghp_data_len :: u16
  ghp_crc_length :: u16
  ghp_cmd :: gprs_llc_cmd

definition zero_ghp :: gprs_llc_hdr_parsed where
  "zero_ghp = \<lparr>ghp_sapi = 0, ghp_is_cmd = False, ghp_ack_req = False, ghp_is_encrypted = False, ghp_seq_rx = 0,
     ghp_seq_tx = 0, ghp_fcs = 0, ghp_data = None, ghp_data_len = 0, ghp_crc_length = 0, ghp_cmd = GPRS_LLC_NULL\<rparr>"

definition supervisory_cmd :: "u8 \<Rightarrow> gprs_llc_cmd" where
  "supervisory_cmd s =
     (if s AND 0x03 = 0 then GPRS_LLC_RR else if s AND 0x03 = 1 then GPRS_LLC_ACK
      else if s AND 0x03 = 2 then GPRS_LLC_RNR else GPRS_LLC_SACK)"

definition reserved_sapi :: "u8 \<Rightarrow> bool" where
  "reserved_sapi sapi \<longleftrightarrow> sapi \<in> {0, 4, 6, 0xa, 0xc, 0xd, 0xf}"

text \<open>The number of octets between the information field at offset \<open>off\<close> and the FCS, in 16 bits.\<close>

definition inf_len :: "nat \<Rightarrow> nat \<Rightarrow> u16" where
  "inf_len len off = word_of_int (int len - 3 - int off)"

definition unnumbered :: "u8 \<Rightarrow> gprs_llc_cmd option" where
  "unnumbered c =
     (let m = c AND 0xf
      in if m = 0x00 then Some GPRS_LLC_NULL else if m = 0x01 then Some GPRS_LLC_DM
         else if m = 0x04 then Some GPRS_LLC_DISC else if m = 0x06 then Some GPRS_LLC_UA
         else if m = 0x07 then Some GPRS_LLC_SABM else if m = 0x08 then Some GPRS_LLC_FRMR
         else if m = 0x0b then Some GPRS_LLC_XID else None)"

text \<open>
  The extent of a selective acknowledgement may be read after the frame; its value does not matter,
  because such frames are refused at the end.
\<close>

definition parse_ctrl :: "u8 list \<Rightarrow> gprs_llc_hdr_parsed \<Rightarrow> int + gprs_llc_hdr_parsed" where
  "parse_ctrl pdu ghp =
     (let c0 = pdu ! 1; c1 = pdu ! 2; c2 = pdu ! 3; len = length pdu
      in if c0 AND 0x80 = 0 then
           (let cmd = supervisory_cmd c2;
                off = (if cmd = GPRS_LLC_SACK then 4 + 1 + unat (pdu ! 4 AND 0x1f) else 4)
            in Inr (ghp\<lparr>ghp_ack_req := (c0 AND 0x40 \<noteq> 0),
                 ghp_seq_tx := push_bit 4 (ucast (c0 AND 0x1f)) OR ucast (drop_bit 4 c1),
                 ghp_seq_rx := push_bit 6 (ucast (c1 AND 0x7)) OR ucast (drop_bit 2 c2),
                 ghp_cmd := cmd, ghp_data := Some off, ghp_data_len := inf_len len off\<rparr>))
         else if c0 AND 0xc0 = 0x80 then
           Inr (ghp\<lparr>ghp_data := None, ghp_data_len := 0, ghp_ack_req := (c0 AND 0x20 \<noteq> 0),
             ghp_seq_rx := push_bit 6 (ucast (c0 AND 0x7)) OR ucast (drop_bit 2 c1),
             ghp_cmd := supervisory_cmd c1\<rparr>)
         else if c0 AND 0xe0 = 0xc0 then
           Inr (ghp\<lparr>ghp_cmd := GPRS_LLC_UI, ghp_data := Some 3, ghp_data_len := inf_len len 3,
             ghp_seq_tx := push_bit 6 (ucast (c0 AND 0x7)) OR ucast (drop_bit 2 c1),
             ghp_is_encrypted := (c1 AND 0x02 \<noteq> 0),
             ghp_crc_length := (if c1 AND 0x01 \<noteq> 0 then ghp_crc_length ghp
                                else if ghp_crc_length ghp > 3 + 4 then 3 + 4 else ghp_crc_length ghp)\<rparr>)
         else
           (case unnumbered c0 of
              None \<Rightarrow> Inl (- EIO)
            | Some cmd \<Rightarrow>
                Inr (if cmd = GPRS_LLC_XID
                     then ghp\<lparr>ghp_cmd := cmd, ghp_data := Some 2, ghp_data_len := inf_len len 2\<rparr>
                     else ghp\<lparr>ghp_cmd := cmd, ghp_data := None, ghp_data_len := 0\<rparr>)))"

definition gprs_llc_hdr_parse :: "u8 list \<Rightarrow> int + gprs_llc_hdr_parsed" where
  "gprs_llc_hdr_parse pdu =
     (let len = length pdu
      in if len \<le> 3 then Inl (- EIO)
         else if pdu ! 0 AND 0x80 \<noteq> 0 then Inl (- EIO)
         else if reserved_sapi (pdu ! 0 AND 0xf) then Inl (- EINVAL)
         else
           (let ghp = zero_ghp\<lparr>ghp_crc_length := of_nat (len - 3),
                  ghp_fcs := ucast (pdu ! (len - 3)) OR push_bit 8 (ucast (pdu ! (len - 2))) OR
                             push_bit 16 (ucast (pdu ! (len - 1))),
                  ghp_is_cmd := (pdu ! 0 AND 0x40 = 0), ghp_sapi := pdu ! 0 AND 0xf\<rparr>
            in case parse_ctrl pdu ghp of
                 Inl e \<Rightarrow> Inl e
               | Inr ghp1 \<Rightarrow> if ghp_cmd ghp1 = GPRS_LLC_SACK then Inl (- EIO) else Inr ghp1))"

section \<open>Reception\<close>

text \<open>
  Processing by the logical link entity: the entity, the XID response if there is one, the return
  code. The buffer of the response has 3072 octets after its headroom.
\<close>

definition gprs_llc_hdr_rx ::
    "u8 list \<Rightarrow> gprs_llc_hdr_parsed \<Rightarrow> gprs_llc_lle \<Rightarrow> (gprs_llc_lle \<times> u8 list option \<times> int) option" where
  "gprs_llc_hdr_rx pdu gph lle =
     (case ghp_cmd gph of
        GPRS_LLC_SABM \<Rightarrow> Some (lle\<lparr>v_sent := 0, v_ack := 0, v_recv := 0, lle_state := GPRS_LLES_ABM\<rparr>, None, 0)
      | GPRS_LLC_DISC \<Rightarrow> Some (lle\<lparr>lle_state := GPRS_LLES_ASSIGNED_ADM\<rparr>, None, 0)
      | GPRS_LLC_UA \<Rightarrow>
          Some (if lle_state lle = GPRS_LLES_LOCAL_EST then lle\<lparr>lle_state := GPRS_LLES_ABM\<rparr> else lle, None, 0)
      | GPRS_LLC_DM \<Rightarrow>
          Some (if lle_state lle = GPRS_LLES_LOCAL_EST then lle\<lparr>lle_state := GPRS_LLES_ASSIGNED_ADM\<rparr> else lle, None, 0)
      | GPRS_LLC_XID \<Rightarrow>
          (let n = unat (ghp_data_len gph); off = the (ghp_data gph)
           in if n + 3 > 3072 \<or> off + n > length pdu then None
              else Some (lle, Some (gprs_llc_tx_u (take n (drop off pdu)) (ucast (lle_sapi lle)) False GPRS_LLC_U_XID True), 0))
      | GPRS_LLC_UI \<Rightarrow>
          if ghp_seq_tx gph < ucast (vu_recv lle) then Some (lle, None, - EIO)
          else Some (lle\<lparr>vu_recv := ucast ((ghp_seq_tx gph + 1) mod 512),
                         oc_ui_recv := (if (ghp_seq_tx gph + 1) div 512 \<noteq> 0 then oc_ui_recv lle + 512 else oc_ui_recv lle)\<rparr>,
                     None, 0)
      | _ \<Rightarrow> Some (lle, None, 0))"

definition xor_at :: "nat \<Rightarrow> u8 list \<Rightarrow> u8 list \<Rightarrow> u8 list" where
  "xor_at off ks pdu = take off pdu @ xor_octets (take (length ks) (drop off pdu)) ks @ drop (off + length ks) pdu"

text \<open>
  Decryption or the test that the frame need not be encrypted: \<open>Inl\<close> ends the reception with a code.
  The frame check sequence the parser read is not read again.
\<close>

definition llc_decrypt ::
    "llc_env \<Rightarrow> gprs_llc_hdr_parsed \<Rightarrow> gprs_llc_llme \<Rightarrow> gprs_llc_lle \<Rightarrow> u8 list \<Rightarrow> (int + u8 list) option" where
  "llc_decrypt env ghp llme lle pdu =
     (if ghp_is_encrypted ghp then
        (if llme_algo llme = GPRS_ALGO_GEA0 then Some (Inl 0)
         else
           (let crypt_len = unat (ghp_data_len ghp + 3); off = the (ghp_data ghp)
            in case le_cipher_run env crypt_len (llme_algo llme) (llme_kc llme)
                      (le_gen_input_ui env 0 (lle_sapi lle) (ghp_seq_tx ghp) (oc_ui_recv lle)) GPRS_CIPH_MS2SGSN of
                 Inl rc \<Rightarrow> Some (Inl rc)
               | Inr ks \<Rightarrow> if off + crypt_len > length pdu then None else Some (Inr (xor_at off ks pdu))))
      else if llme_algo llme \<noteq> GPRS_ALGO_GEA0 then Some (Inl 0)
      else Some (Inr pdu))"

definition is_sndcp_sapi :: "u8 \<Rightarrow> bool" where
  "is_sndcp_sapi sapi \<longleftrightarrow> sapi \<in> {3, 5, 9, 11}"

text \<open>\<open>up_rc\<close> is the return code of the layer the payload is passed to.\<close>

definition llc_deliver :: "int \<Rightarrow> nat \<Rightarrow> gprs_llc_hdr_parsed \<Rightarrow> u8 list \<Rightarrow> llc_event list \<times> int" where
  "llc_deliver up_rc i ghp pdu =
     (case ghp_data ghp of
        None \<Rightarrow> ([], 0)
      | Some off \<Rightarrow>
          if ghp_sapi ghp = 1 then ([LL_GMM pdu off], up_rc)
          else if is_sndcp_sapi (ghp_sapi ghp) then ([LL_SNDCP i pdu off (ghp_data_len ghp)], up_rc)
          else ([], - EINVAL))"

definition gprs_llc_rcvmsg ::
    "llc_env \<Rightarrow> int \<Rightarrow> u32 \<Rightarrow> u16 \<Rightarrow> u16 \<Rightarrow> u8 list \<Rightarrow> gprs_llc_llme list \<Rightarrow>
     (gprs_llc_llme list \<times> llc_event list \<times> int) option" where
  "gprs_llc_rcvmsg env up_rc tlli bvci nsei pdu llmes =
     (case gprs_llc_hdr_parse pdu of
        Inl rc \<Rightarrow> Some (llmes, [], rc)
      | Inr ghp \<Rightarrow>
          (let found = (case lle_by_tlli_sapi env tlli llmes of
                          Some i \<Rightarrow> Some (llmes, i)
                        | None \<Rightarrow>
                            if ghp_sapi ghp = 1 \<and> (ghp_cmd ghp = GPRS_LLC_XID \<or> ghp_cmd ghp = GPRS_LLC_UI)
                            then Some (llme_alloc env tlli llmes, 0) else None)
           in case found of
                None \<Rightarrow> Some (llmes, [], 0)
              | Some (llmes1, i) \<Rightarrow>
                  (let sapi = unat (ghp_sapi ghp); lle = the_lle llmes1 i sapi
                   in case llc_decrypt env ghp (llmes1 ! i) lle pdu of
                        None \<Rightarrow> None
                      | Some (Inl rc) \<Rightarrow> Some (llmes1, [], rc)
                      | Some (Inr pdu1) \<Rightarrow>
                          if ghp_fcs ghp \<noteq> gprs_llc_fcs (take (unat (ghp_crc_length ghp)) pdu1)
                          then Some (llmes1, [], - EIO)
                          else
                            (let llmes2 = upd_nth i (\<lambda>m. m\<lparr>llme_bvci := bvci, llme_nsei := nsei\<rparr>) llmes1
                             in case gprs_llc_hdr_rx pdu1 ghp lle of
                                  None \<Rightarrow> None
                                | Some (lle1, resp, rc) \<Rightarrow>
                                    (let llmes3 = upd_lle i sapi (\<lambda>_. lle1) llmes2;
                                         xid = (case resp of
                                                  None \<Rightarrow> []
                                                | Some f \<Rightarrow> [BSSGP_tx_xid (llme_tlli (llmes3 ! i)) bvci nsei f]);
                                         (ev, rc1) = llc_deliver up_rc i ghp pdu1
                                     in if rc < 0 then Some (llmes3, xid, rc)
                                        else Some (llmes3, xid @ ev, rc1))))))"

section \<open>TLLI assignment\<close>

definition gprs_llgmm_assign ::
    "nat \<Rightarrow> u32 \<Rightarrow> u32 \<Rightarrow> nat \<Rightarrow> u8 list \<Rightarrow> gprs_llc_llme list \<Rightarrow> gprs_llc_llme list \<times> int" where
  "gprs_llgmm_assign i old_tlli new_tlli alg kc llmes =
     (let keyed = upd_nth i (\<lambda>m. m\<lparr>llme_algo := alg,
                    llme_kc := (if alg \<noteq> GPRS_ALGO_GEA0 then take 8 kc else llme_kc m)\<rparr>) llmes
      in if old_tlli = 0xffffffff \<and> new_tlli \<noteq> 0xffffffff then
           (upd_nth i (\<lambda>m. if llme_old_tlli m \<noteq> 0xffffffff
                            then m\<lparr>llme_old_tlli := 0xffffffff, llme_tlli := new_tlli\<rparr>
                            else m\<lparr>llme_old_tlli := 0xffffffff, llme_tlli := new_tlli, llme_state := GPRS_LLMS_ASSIGNED,
                                   llme_lle := map (\<lambda>l. l\<lparr>vu_send := 0, vu_recv := 0, retrans_ctr := 0,
                                                 lle_state := GPRS_LLES_ASSIGNED_ADM\<rparr>) (llme_lle m)\<rparr>) keyed, 0)
         else if old_tlli \<noteq> 0xffffffff \<and> new_tlli \<noteq> 0xffffffff then
           (upd_nth i (\<lambda>m. m\<lparr>llme_old_tlli := llme_tlli m, llme_tlli := new_tlli, llme_state := GPRS_LLMS_ASSIGNED\<rparr>) keyed, 0)
         else if old_tlli \<noteq> 0xffffffff \<and> new_tlli = 0xffffffff then (llme_free i keyed, 0)
         else (keyed, - EINVAL))"

definition gprs_llgmm_reset_state :: "nat \<Rightarrow> gprs_llc_llme list \<Rightarrow> gprs_llc_llme list" where
  "gprs_llgmm_reset_state i =
     upd_nth i (\<lambda>m. m\<lparr>llme_lle := map (\<lambda>l. l\<lparr>vu_recv := 0, retrans_ctr := 0, lle_state := GPRS_LLES_ASSIGNED_ADM\<rparr>)
                                    (llme_lle m)\<rparr>)"

section \<open>The frame check sequence at the end of a frame\<close>

definition read_fcs :: "u8 list \<Rightarrow> u32" where
  "read_fcs pdu = ucast (pdu ! (length pdu - 3)) OR push_bit 8 (ucast (pdu ! (length pdu - 2))) OR
     push_bit 16 (ucast (pdu ! (length pdu - 1)))"

lemma bit_0xff: "bit (0xff :: nat) k \<longleftrightarrow> k < 8" "bit (0xff :: int) k \<longleftrightarrow> k < 8"
  using bit_mask_iff [of 8 k, where 'a = nat] bit_mask_iff [of 8 k, where 'a = int] by (auto simp: mask_numeral)

text \<open>What the frames rely on: a checksum of 24 bits.\<close>

locale frame_check =
  fixes fcs :: "u8 list \<Rightarrow> u32"
  assumes fcs_24: "take_bit 24 (fcs frame) = fcs frame"
begin

lemma read_fcs_append:
  assumes "length post = 3"
  shows "read_fcs (frame @ post) = ucast (post ! 0) OR push_bit 8 (ucast (post ! 1)) OR push_bit 16 (ucast (post ! 2))"
  using assms by (simp add: read_fcs_def nth_append)

lemma fcs_octets_read:
  "ucast (fcs_octets (fcs frame) ! 0) OR push_bit 8 (ucast (fcs_octets (fcs frame) ! 1)) OR
     push_bit 16 (ucast (fcs_octets (fcs frame) ! 2)) = fcs frame"
proof (rule bit_word_eqI)
  fix n
  assume "n < LENGTH(32)"
  have "bit (fcs frame) n \<Longrightarrow> n < 24" using fcs_24 [of frame] by (auto simp: u24_iff)
  then show "bit (ucast (fcs_octets (fcs frame) ! 0) OR push_bit 8 (ucast (fcs_octets (fcs frame) ! 1)) OR
     push_bit 16 (ucast (fcs_octets (fcs frame) ! 2)) :: u32) n = bit (fcs frame) n"
    using \<open>n < LENGTH(32)\<close> by (cases "n < 8"; cases "n < 16") (auto simp: fcs_octets_def bit_simps bit_0xff)
qed

lemma read_fcs_frame: "read_fcs (frame @ fcs_octets (fcs frame)) = fcs frame"
  by (subst read_fcs_append) (simp add: fcs_octets_def, rule fcs_octets_read)

end

interpretation llc_fcs: frame_check gprs_llc_fcs
proof
  fix frame
  have "(0xffffff :: u32) = mask 24" by (simp add: mask_numeral)
  then show "take_bit 24 (gprs_llc_fcs frame) = gprs_llc_fcs frame"
    by (simp only: gprs_llc_fcs_def take_bit_eq_mask [symmetric] take_bit_take_bit) simp
qed

lemma with_fcs_simps [simp]:
  "length (with_fcs frame) = length frame + 3" "take (length frame) (with_fcs frame) = frame"
  "read_fcs (with_fcs frame) = gprs_llc_fcs frame"
  "k < length frame \<Longrightarrow> with_fcs frame ! k = frame ! k"
  by (simp_all add: with_fcs_def fcs_octets_def nth_append)
     (rule llc_fcs.read_fcs_frame [unfolded fcs_octets_def])

lemma take_with_fcs: "length frame = n \<Longrightarrow> take n (with_fcs frame) = frame"
  by (simp add: with_fcs_def)

section \<open>UI frames\<close>

lemma ui_ctrl_bits:
  assumes "nu < (512 :: u16)"
  shows "ui_ctrl0 nu AND 0x80 \<noteq> 0" "ui_ctrl0 nu AND 0xc0 \<noteq> 0x80" "ui_ctrl0 nu AND 0xe0 = 0xc0"
    "ui_ctrl1 nu AND 0x02 = 0" "ui_ctrl1 nu AND 0x01 \<noteq> 0"
    "push_bit 6 (ucast (ui_ctrl0 nu AND 0x7)) OR ucast (drop_bit 2 (ui_ctrl1 nu)) = (ucast nu :: u32)"
proof -
  have "nu AND mask 9 = nu" by (rule less_mask_eq) (use assms in simp)
  then have b: "n < 9" if "bit nu n" for n using that by (metis bit_and_iff bit_mask_iff)
  have c0: "bit (ui_ctrl0 nu) n \<longleftrightarrow> n = 7 \<or> n = 6 \<or> (n < 3 \<and> bit nu (n + 6))" if "n < 8" for n
    using that b [of "n + 6"] by (cases rule: less8_cases) (auto simp: ui_ctrl0_def bit_simps)
  have c1: "bit (ui_ctrl1 nu) n \<longleftrightarrow> n = 0 \<or> (2 \<le> n \<and> bit nu (n - 2))" if "n < 8" for n
    using that by (cases rule: less8_cases) (auto simp: ui_ctrl1_def bit_simps)
  have "bit (ui_ctrl0 nu AND 0x80) 7" by (simp add: bit_and_iff c0)
  then show "ui_ctrl0 nu AND 0x80 \<noteq> 0" by auto
  have "bit (ui_ctrl0 nu AND 0xc0) 6" by (simp add: bit_and_iff c0)
  then show "ui_ctrl0 nu AND 0xc0 \<noteq> 0x80" by auto
  show "ui_ctrl0 nu AND 0xe0 = 0xc0"
    by (rule u8_eqI, erule less8_cases) (simp_all add: bit_and_iff c0)
  show "ui_ctrl1 nu AND 0x02 = 0"
    by (rule u8_eqI, erule less8_cases) (simp_all add: bit_and_iff c1)
  have "bit (ui_ctrl1 nu AND 0x01) 0" by (simp add: bit_and_iff c1)
  then show "ui_ctrl1 nu AND 0x01 \<noteq> 0" by auto
  show "push_bit 6 (ucast (ui_ctrl0 nu AND 0x7)) OR ucast (drop_bit 2 (ui_ctrl1 nu)) = (ucast nu :: u32)"
  proof (rule bit_word_eqI)
    fix n
    assume n: "n < LENGTH(32)"
    have seven: "bit (7 :: nat) k \<longleftrightarrow> k < 3" "bit (7 :: int) k \<longleftrightarrow> k < 3" for k
      using bit_mask_iff [of 3 k, where 'a = nat] bit_mask_iff [of 3 k, where 'a = int] by (auto simp: mask_numeral)
    have hi: "bit (ucast (ui_ctrl0 nu AND 0x7) :: u32) k \<longleftrightarrow> k < 3 \<and> bit nu (k + 6)" for k
      by (cases "k < 8") (simp_all add: bit_and_iff bit_ucast_iff c0 seven, auto)
    have lo: "bit (ucast (drop_bit 2 (ui_ctrl1 nu)) :: u32) k \<longleftrightarrow> k < 6 \<and> bit nu k" for k
      by (cases "k < 6") (auto simp: bit_ucast_iff bit_drop_bit_eq c1)
    show "bit (push_bit 6 (ucast (ui_ctrl0 nu AND 0x7)) OR ucast (drop_bit 2 (ui_ctrl1 nu)) :: u32) n = bit (ucast nu :: u32) n"
      unfolding bit_or_iff bit_push_bit_iff hi lo using n b [of n] by (auto simp: bit_ucast_iff)
  qed
qed

lemma addr_field_bits:
  assumes "sapi < 16"
  shows "addr_field sapi command AND 0x80 = 0" "addr_field sapi command AND 0xf = sapi"
    "addr_field sapi command AND 0x40 = 0 \<longleftrightarrow> \<not> command"
proof -
  have "sapi AND mask 4 = sapi" by (rule less_mask_eq) (use assms in simp)
  then have b: "n < 4" if "bit sapi n" for n using that by (metis bit_and_iff bit_mask_iff)
  have b4: "\<not> bit sapi 4" "\<not> bit sapi 5" "\<not> bit sapi 6" "\<not> bit sapi 7" using b [of 4] b [of 5] b [of 6] b [of 7] by auto
  have a: "bit (addr_field sapi command) n \<longleftrightarrow> (n = 6 \<and> command) \<or> bit sapi n" if "n < 8" for n
    using that b [of n] by (cases rule: less8_cases) (auto simp: addr_field_def bit_or_iff bit_and_iff)
  show "addr_field sapi command AND 0x80 = 0"
    by (rule u8_eqI, erule less8_cases) (use b4 in \<open>simp_all add: bit_and_iff a\<close>)
  show "addr_field sapi command AND 0xf = sapi"
    by (rule u8_eqI, erule less8_cases) (use b4 in \<open>simp_all add: bit_and_iff a\<close>)
  have "bit (addr_field sapi command AND 0x40) 6 \<longleftrightarrow> command" using b [of 6] by (auto simp: bit_and_iff a)
  moreover have "addr_field sapi command AND 0x40 = 0" if "\<not> command"
    by (rule u8_eqI, erule less8_cases) (use b4 that a [of 6] in \<open>simp_all add: bit_and_iff a\<close>)
  ultimately show "addr_field sapi command AND 0x40 = 0 \<longleftrightarrow> \<not> command" by auto
qed

lemma inf_len_eq: "off + 3 \<le> len \<Longrightarrow> len < 65536 \<Longrightarrow> unat (inf_len len off) = len - 3 - off"
proof -
  assume a: "off + 3 \<le> len" "len < 65536"
  then have "int len - 3 - int off = int (len - 3 - off)" by simp
  then have "inf_len len off = of_nat (len - 3 - off)" by (simp only: inf_len_def of_int_of_nat_eq)
  then show ?thesis using a by (simp only: unat_of_nat) simp
qed

lemma ui_format:
  assumes "c AND 0xe0 = (0xc0 :: u8)"
  shows "c AND 0x80 \<noteq> 0" "c AND 0xc0 \<noteq> 0x80"
proof -
  have "bit c 7" "bit c 6"
    using arg_cong [OF assms, of "\<lambda>x. bit x 7"] arg_cong [OF assms, of "\<lambda>x. bit x 6"] by (simp_all add: bit_and_iff)
  then have "bit (c AND 0x80) 7" "bit (c AND 0xc0) 6" by (simp_all add: bit_and_iff)
  then show "c AND 0x80 \<noteq> 0" "c AND 0xc0 \<noteq> 0x80" by auto
qed

lemma parse_ui:
  assumes "3 < length pdu" "pdu ! 0 AND 0x80 = 0" "\<not> reserved_sapi (pdu ! 0 AND 0xf)" "pdu ! 1 AND 0xe0 = 0xc0"
  shows "gprs_llc_hdr_parse pdu = Inr (zero_ghp
    \<lparr>ghp_sapi := pdu ! 0 AND 0xf, ghp_is_cmd := (pdu ! 0 AND 0x40 = 0), ghp_is_encrypted := (pdu ! 2 AND 0x02 \<noteq> 0),
     ghp_seq_tx := push_bit 6 (ucast (pdu ! 1 AND 0x7)) OR ucast (drop_bit 2 (pdu ! 2)), ghp_fcs := read_fcs pdu,
     ghp_data := Some 3, ghp_data_len := inf_len (length pdu) 3,
     ghp_crc_length := (if pdu ! 2 AND 0x01 \<noteq> 0 then of_nat (length pdu - 3)
                        else if (of_nat (length pdu - 3) :: u16) > 7 then 7 else of_nat (length pdu - 3)),
     ghp_cmd := GPRS_LLC_UI\<rparr>)"
  using assms ui_format [OF assms(4)]
  by (simp add: gprs_llc_hdr_parse_def parse_ctrl_def Let_def read_fcs_def zero_ghp_def)

text \<open>A UI frame in protected mode is parsed as such.\<close>

lemma parse_ui_frame:
  assumes "sapi < 16" "\<not> reserved_sapi sapi" "nu < 512" "length msg < 60000"
  shows "\<exists>ghp. gprs_llc_hdr_parse (with_fcs ([addr_field sapi command, ui_ctrl0 nu, ui_ctrl1 nu] @ msg)) = Inr ghp \<and>
    ghp_cmd ghp = GPRS_LLC_UI \<and> ghp_sapi ghp = sapi \<and> ghp_is_cmd ghp = (\<not> command) \<and> \<not> ghp_is_encrypted ghp \<and>
    ghp_seq_tx ghp = ucast nu \<and> ghp_data ghp = Some 3 \<and> unat (ghp_data_len ghp) = length msg \<and>
    unat (ghp_crc_length ghp) = length msg + 3 \<and>
    ghp_fcs ghp = gprs_llc_fcs ([addr_field sapi command, ui_ctrl0 nu, ui_ctrl1 nu] @ msg)"
proof -
  let ?f = "[addr_field sapi command, ui_ctrl0 nu, ui_ctrl1 nu] @ msg"
  let ?p = "with_fcs ?f"
  have l: "length ?p = length msg + 6" by simp
  have o: "?p ! 0 = addr_field sapi command" "?p ! 1 = ui_ctrl0 nu" "?p ! 2 = ui_ctrl1 nu" by simp_all
  have r: "read_fcs ?p = gprs_llc_fcs ?f" by (rule with_fcs_simps)
  have n: "unat (of_nat (length ?p - 3) :: u16) = length msg + 3" using assms(4) by (simp only: l unat_of_nat) simp
  have i: "unat (inf_len (length ?p) 3) = length msg" using assms(4) by (simp add: l inf_len_eq)
  have "gprs_llc_hdr_parse ?p = Inr (zero_ghp
    \<lparr>ghp_sapi := sapi, ghp_is_cmd := (\<not> command), ghp_is_encrypted := False, ghp_seq_tx := ucast nu,
     ghp_fcs := gprs_llc_fcs ?f, ghp_data := Some 3, ghp_data_len := inf_len (length ?p) 3,
     ghp_crc_length := of_nat (length ?p - 3), ghp_cmd := GPRS_LLC_UI\<rparr>)"
    using assms by (subst parse_ui) (simp_all only: o r addr_field_bits ui_ctrl_bits l, simp_all)
  with n i show ?thesis by simp
qed

section \<open>Well-formed entities\<close>

text \<open>The sequence numbers of unconfirmed transfer have nine bits, every LLME has sixteen entities.\<close>

definition wf_lle :: "nat \<Rightarrow> gprs_llc_lle \<Rightarrow> bool" where
  "wf_lle sapi lle \<longleftrightarrow> vu_send lle < 512 \<and> vu_recv lle < 512 \<and> lle_sapi lle = of_nat sapi"

definition wf_llme :: "gprs_llc_llme \<Rightarrow> bool" where
  "wf_llme llme \<longleftrightarrow> length (llme_lle llme) = NUM_SAPIS \<and> (\<forall>k < NUM_SAPIS. wf_lle k (llme_lle llme ! k))"

definition wf_llmes :: "gprs_llc_llme list \<Rightarrow> bool" where
  "wf_llmes llmes \<longleftrightarrow> list_all wf_llme llmes"

inductive llc_step :: "llc_env \<Rightarrow> gprs_llc_llme list \<Rightarrow> gprs_llc_llme list \<Rightarrow> bool" for env where
  tx_ui: "sapi < 16 \<Longrightarrow> gprs_llc_tx_ui env tlli bvci nsei msg sapi command llmes = (llmes', ev, rc) \<Longrightarrow> llc_step env llmes llmes'"
| rcvmsg: "gprs_llc_rcvmsg env up_rc tlli bvci nsei pdu llmes = Some (llmes', ev, rc) \<Longrightarrow> llc_step env llmes llmes'"
| assign: "gprs_llgmm_assign i old_tlli new_tlli alg kc llmes = (llmes', rc) \<Longrightarrow> llc_step env llmes llmes'"
| reset: "llc_step env llmes (gprs_llgmm_reset_state i llmes)"
| t200: "llc_step env llmes (upd_lle i k t200_expired llmes)"
| t201: "llc_step env llmes (upd_lle i k t201_expired llmes)"

inductive llc_reachable :: "llc_env \<Rightarrow> gprs_llc_llme list \<Rightarrow> bool" for env where
  init: "llc_reachable env []"
| step: "llc_reachable env llmes \<Longrightarrow> llc_step env llmes llmes' \<Longrightarrow> llc_reachable env llmes'"

lemma wf_llmes_upd: "wf_llmes llmes \<Longrightarrow> (\<And>m. wf_llme m \<Longrightarrow> wf_llme (f m)) \<Longrightarrow> wf_llmes (upd_nth i f llmes)"
  unfolding wf_llmes_def by (rule list_all_upd_nth)

lemma wf_llme_frame: "wf_llme m \<Longrightarrow> llme_lle m' = llme_lle m \<Longrightarrow> wf_llme m'"
  by (simp add: wf_llme_def)

lemma wf_upd_lle:
  "wf_llmes llmes \<Longrightarrow> (\<And>l. wf_lle k l \<Longrightarrow> wf_lle k (f l)) \<Longrightarrow> wf_llmes (upd_lle i k f llmes)"
  unfolding upd_lle_def by (erule wf_llmes_upd) (auto simp: wf_llme_def nth_upd_nth)

lemma wf_llme_alloc: "wf_llmes llmes \<Longrightarrow> wf_llmes (llme_alloc env tlli llmes)"
  by (simp add: wf_llmes_def llme_alloc_def wf_llme_def lle_init_def wf_lle_def del: upt.simps)

lemma wf_llme_free: "wf_llmes llmes \<Longrightarrow> wf_llmes (llme_free i llmes)"
  by (auto simp: wf_llmes_def llme_free_def list_all_iff dest: in_set_takeD in_set_dropD)

lemma wf_the_lle: "wf_llmes llmes \<Longrightarrow> i < length llmes \<Longrightarrow> k < 16 \<Longrightarrow> wf_lle k (the_lle llmes i k)"
  by (auto simp: wf_llmes_def the_lle_def list_all_length wf_llme_def)

lemma mod512_less: "(x :: u16) mod 512 < 512" "ucast ((y :: u32) mod 512) < (512 :: u16)"
  by (simp_all add: word_less_nat_alt unsigned_ucast_eq unat_mod_distrib take_bit_eq_mod)

lemma lle_lookup_bound: "lle_by_tlli_sapi env tlli llmes = Some i \<Longrightarrow> i < length llmes"
  by (auto simp: lle_by_tlli_sapi_def Let_def dest: find_idx_SomeD(1))

lemma tx_ui_wf:
  assumes "wf_llmes llmes" "sapi < 16" "gprs_llc_tx_ui env tlli bvci nsei msg sapi command llmes = (llmes', ev, rc)"
  shows "wf_llmes llmes'"
proof -
  obtain llmes1 i where 1: "(case lle_by_tlli_sapi env tlli llmes of Some i \<Rightarrow> (llmes, i)
      | None \<Rightarrow> (llme_alloc env tlli llmes, 0)) = (llmes1, i)" by fastforce
  then have w: "wf_llmes llmes1" using assms(1) wf_llme_alloc by (auto split: option.splits)
  let ?g = "\<lambda>m. m\<lparr>llme_bvci := bvci, llme_nsei := nsei\<rparr>"
  have w2: "wf_llmes (upd_nth i ?g llmes1)" by (rule wf_llmes_upd [OF w]) (erule wf_llme_frame, simp)
  have "wf_llmes (upd_lle i (unat sapi) (\<lambda>l. l\<lparr>vu_send := (x :: u16) mod 512, oc_ui_send := oc\<rparr>) (upd_nth i ?g llmes1))" for x oc
    by (rule wf_upd_lle [OF w2]) (simp add: wf_lle_def mod512_less)
  then show ?thesis using assms(3) w unfolding gprs_llc_tx_ui_def 1
    by (auto simp: Let_def split: if_splits sum.splits)
qed

lemma hdr_rx_wf: "gprs_llc_hdr_rx pdu ghp lle = Some (lle', resp, rc) \<Longrightarrow> wf_lle k lle \<Longrightarrow> wf_lle k lle'"
  by (auto simp: gprs_llc_hdr_rx_def wf_lle_def Let_def mod512_less split: gprs_llc_cmd.splits if_splits)

lemma parse_sapi:
  assumes "gprs_llc_hdr_parse pdu = Inr ghp"
  shows "unat (ghp_sapi ghp) < 16"
proof -
  have "parse_ctrl pdu g = Inr ghp \<Longrightarrow> ghp_sapi ghp = ghp_sapi g" for g
    by (auto simp: parse_ctrl_def Let_def split: if_splits option.splits)
  then have "ghp_sapi ghp = pdu ! 0 AND 0xf"
    using assms by (auto simp: gprs_llc_hdr_parse_def Let_def zero_ghp_def split: if_splits sum.splits)
  moreover have "pdu ! 0 AND 0xf \<le> 0xf" by (rule word_and_le1)
  ultimately show ?thesis by (simp add: word_le_nat_alt)
qed

lemma rcvmsg_wf:
  assumes wf: "wf_llmes llmes" and r: "gprs_llc_rcvmsg env up_rc tlli bvci nsei pdu llmes = Some (llmes', ev, rc)"
  shows "wf_llmes llmes'"
proof (cases "gprs_llc_hdr_parse pdu")
  case (Inr ghp)
  let ?k = "unat (ghp_sapi ghp)"
  have k: "?k < 16" by (rule parse_sapi [OF Inr])
  define found where "found = (case lle_by_tlli_sapi env tlli llmes of Some i \<Rightarrow> Some (llmes, i)
      | None \<Rightarrow> if ghp_sapi ghp = 1 \<and> (ghp_cmd ghp = GPRS_LLC_XID \<or> ghp_cmd ghp = GPRS_LLC_UI)
               then Some (llme_alloc env tlli llmes, 0) else None)"
  show ?thesis
  proof (cases found)
    case None
    then show ?thesis using r wf Inr by (simp add: gprs_llc_rcvmsg_def Let_def flip: found_def)
  next
    case (Some q)
    then obtain llmes1 i where f: "found = Some (llmes1, i)" by (cases q) auto
    then have w: "wf_llmes llmes1" and i: "i < length llmes1"
      using wf wf_llme_alloc lle_lookup_bound [of env tlli llmes]
      by (auto simp: found_def llme_alloc_def split: option.splits if_splits)
    let ?g = "\<lambda>m. m\<lparr>llme_bvci := bvci, llme_nsei := nsei\<rparr>"
    have w2: "wf_llmes (upd_nth i ?g llmes1)" by (rule wf_llmes_upd [OF w]) (erule wf_llme_frame, simp)
    have "wf_llmes (upd_lle i ?k (\<lambda>_. lle1) (upd_nth i ?g llmes1))"
      if "gprs_llc_hdr_rx pdu1 ghp (the_lle llmes1 i ?k) = Some (lle1, resp, rc1)" for pdu1 lle1 resp rc1
      by (rule wf_upd_lle [OF w2]) (rule hdr_rx_wf [OF that wf_the_lle [OF w i k]])
    then show ?thesis
      using r w by (auto simp: gprs_llc_rcvmsg_def Let_def Inr f simp flip: found_def
          split: option.splits sum.splits if_splits prod.splits)
  qed
qed (use assms in \<open>simp add: gprs_llc_rcvmsg_def\<close>)

lemma assign_wf:
  assumes wf: "wf_llmes llmes" and a: "gprs_llgmm_assign i old_tlli new_tlli alg kc llmes = (llmes', rc)"
  shows "wf_llmes llmes'"
proof -
  let ?k = "upd_nth i (\<lambda>m. m\<lparr>llme_algo := alg, llme_kc := (if alg \<noteq> GPRS_ALGO_GEA0 then take 8 kc else llme_kc m)\<rparr>) llmes"
  have k: "wf_llmes ?k" by (rule wf_llmes_upd [OF wf]) (erule wf_llme_frame, simp)
  have "wf_llmes (upd_nth i f ?k)" if "\<And>m. wf_llme m \<Longrightarrow> wf_llme (f m)" for f by (rule wf_llmes_upd [OF k that])
  then show ?thesis using a k wf_llme_free [OF k]
    by (auto simp: gprs_llgmm_assign_def Let_def wf_llme_def wf_lle_def split: if_splits)
qed

lemma llc_step_wf: "llc_step env llmes llmes' \<Longrightarrow> wf_llmes llmes \<Longrightarrow> wf_llmes llmes'"
proof (induction rule: llc_step.induct)
  case (reset llmes i)
  then show ?case
    unfolding gprs_llgmm_reset_state_def
    by (intro wf_llmes_upd) (auto simp: wf_llme_def wf_lle_def)
qed (auto intro: tx_ui_wf rcvmsg_wf assign_wf intro!: wf_upd_lle
      simp: wf_lle_def t200_expired_def t201_expired_def Let_def split: gprs_llc_lle_state.splits)

lemma llc_reachable_wf_llmes: "llc_reachable env llmes \<Longrightarrow> wf_llmes llmes"
  by (induction rule: llc_reachable.induct) (auto simp: wf_llmes_def [of "[]"] intro: llc_step_wf)

section \<open>Reception of UI frames\<close>

text \<open>Reception on a known entity, one step at a time.\<close>

lemma rcvmsg_found:
  assumes "gprs_llc_hdr_parse pdu = Inr ghp" "lle_by_tlli_sapi env tlli llmes = Some i"
  shows "gprs_llc_rcvmsg env up_rc tlli bvci nsei pdu llmes =
    (case llc_decrypt env ghp (llmes ! i) (the_lle llmes i (unat (ghp_sapi ghp))) pdu of
       None \<Rightarrow> None
     | Some (Inl rc) \<Rightarrow> Some (llmes, [], rc)
     | Some (Inr pdu1) \<Rightarrow>
         if ghp_fcs ghp \<noteq> gprs_llc_fcs (take (unat (ghp_crc_length ghp)) pdu1) then Some (llmes, [], - EIO)
         else
           (case gprs_llc_hdr_rx pdu1 ghp (the_lle llmes i (unat (ghp_sapi ghp))) of
              None \<Rightarrow> None
            | Some (lle1, resp, rc) \<Rightarrow>
                (let llmes3 = upd_lle i (unat (ghp_sapi ghp)) (\<lambda>_. lle1)
                               (upd_nth i (\<lambda>m. m\<lparr>llme_bvci := bvci, llme_nsei := nsei\<rparr>) llmes);
                     xid = (case resp of None \<Rightarrow> [] | Some f \<Rightarrow> [BSSGP_tx_xid (llme_tlli (llmes3 ! i)) bvci nsei f])
                 in if rc < 0 then Some (llmes3, xid, rc)
                    else Some (llmes3, xid @ fst (llc_deliver up_rc i ghp pdu1), snd (llc_deliver up_rc i ghp pdu1)))))"
  using assms by (auto simp: gprs_llc_rcvmsg_def Let_def split: option.split sum.split prod.split)

lemma hdr_rx_ui:
  assumes "ghp_cmd ghp = GPRS_LLC_UI"
  shows "gprs_llc_hdr_rx pdu ghp lle =
    (if ghp_seq_tx ghp < ucast (vu_recv lle) then Some (lle, None, - EIO)
     else Some (lle\<lparr>vu_recv := ucast ((ghp_seq_tx ghp + 1) mod 512),
                    oc_ui_recv := (if (ghp_seq_tx ghp + 1) div 512 \<noteq> 0 then oc_ui_recv lle + 512 else oc_ui_recv lle)\<rparr>, None, 0))"
  by (simp add: gprs_llc_hdr_rx_def assms)

lemma upd_llme_tlli:
  assumes "\<And>m. llme_tlli (f m) = llme_tlli m" "\<And>m. llme_old_tlli (f m) = llme_old_tlli m"
  shows "lle_by_tlli_sapi env tlli (upd_nth i f llmes) = lle_by_tlli_sapi env tlli llmes"
proof -
  have "find_idx (P :: _ \<Rightarrow> bool) (upd_nth i f llmes) = find_idx P llmes" if "\<And>m. P (f m) = P m" for P
  proof (induction llmes arbitrary: i)
    case (Cons m llmes)
    then show ?case using that by (cases i) simp_all
  qed (simp add: upd_nth_def)
  then show ?thesis using assms by (simp add: lle_by_tlli_sapi_def Let_def)
qed

lemma read_fcs_inj:
  assumes "read_fcs (xs @ [a, b, c]) = read_fcs (ys @ [a', b', c'])"
  shows "[a, b, c] = [a', b', c']"
proof -
  let ?r = "\<lambda>a b c. ucast (a :: u8) OR push_bit 8 (ucast (b :: u8)) OR push_bit 16 (ucast (c :: u8)) :: u32"
  have e: "?r a b c = ?r a' b' c'" using assms by (simp add: read_fcs_def nth_append)
  have 0: "bit (?r a b c) n \<longleftrightarrow> bit a n" if "n < 8" for a b c n using that by (auto simp: bit_simps)
  have 1: "bit (?r a b c) (n + 8) \<longleftrightarrow> bit b n" if "n < 8" for a b c n using that by (auto simp: bit_simps)
  have 2: "bit (?r a b c) (n + 16) \<longleftrightarrow> bit c n" if "n < 8" for a b c n using that by (auto simp: bit_simps)
  have "a = a'" by (rule u8_eqI) (metis e 0)
  moreover have "b = b'" by (rule u8_eqI) (metis e 1)
  moreover have "c = c'" by (rule u8_eqI) (metis e 2)
  ultimately show ?thesis by simp
qed

lemma xor_octets_xor [simp]: "length xs = length ks \<Longrightarrow> xor_octets (xor_octets xs ks) ks = xs"
  unfolding xor_octets_def by (induction xs ks rule: list_induct2) (simp_all add: xor.assoc)

lemma xor_octets_simps [simp]:
  "xor_octets [] ks = []" "xor_octets (x # xs) (k # ks) = (x XOR k) # xor_octets xs ks"
  by (simp_all add: xor_octets_def)

lemma length_xor_octets [simp]: "length (xor_octets xs ks) = min (length xs) (length ks)"
  by (simp add: xor_octets_def)

lemma xor_octets_append:
  "length xs = length ks \<Longrightarrow> xor_octets (xs @ ys) (ks @ ls) = xor_octets xs ks @ xor_octets ys ls"
  by (simp add: xor_octets_def)

section \<open>A sample entity\<close>

text \<open>TLLIs are classified by their two leading bits; the key stream is constant.\<close>

definition sample_llc :: llc_env where
  "sample_llc = \<lparr>le_tlli_type = (\<lambda>t. if \<not> bit t 31 then TLLI_RANDOM else if bit t 30 then TLLI_LOCAL else TLLI_FOREIGN),
     le_gen_input_ui = (\<lambda>iov sapi nu oc. 0x08000000 * sapi + nu + oc + iov),
     le_cipher_run = (\<lambda>n algo kc iv dir. Inr (replicate n 0x5a)), le_after_table = (\<lambda>_. zero_params), le_tx_rc = 0\<rparr>"

definition sample_llmes :: "gprs_llc_llme list" where
  "sample_llmes = fst (gprs_llc_tx_ui sample_llc 0xc0000001 1 2 [0x08] 3 True [])"

lemma sample_llmes_reachable: "llc_reachable sample_llc sample_llmes"
proof -
  obtain ev rc where "gprs_llc_tx_ui sample_llc 0xc0000001 1 2 [0x08] 3 True [] = (sample_llmes, ev, rc)"
    unfolding sample_llmes_def by (metis prod.collapse)
  from llc_step.tx_ui [OF _ this] show ?thesis
    by (intro llc_reachable.step [OF llc_reachable.init]) simp
qed

lemma sample_llc_facts:
  "lle_by_tlli_sapi sample_llc 0xc0000001 sample_llmes = Some 0" "llme_algo (sample_llmes ! 0) = 0"
  "vu_send (the_lle sample_llmes 0 3) = 1" "vu_recv (the_lle sample_llmes 0 3) = 0"
  "n201_u (lle_params (the_lle sample_llmes 0 3)) = 500"
  by code_simp+

section \<open>Properties\<close>

text \<open>C39: Whatever frames arrive and whatever the layers above request, every LLME keeps sixteen entities whose sequence numbers of unconfirmed transfer have nine bits, so that they fit the control field of the frames sent.\<close>

theorem llc_reachable_wf:
  assumes "llc_reachable env llmes"
  shows "\<forall>llme \<in> set llmes. length (llme_lle llme) = NUM_SAPIS \<and>
    (\<forall>k < NUM_SAPIS. vu_send (llme_lle llme ! k) < 512 \<and> vu_recv (llme_lle llme ! k) < 512 \<and>
                     lle_sapi (llme_lle llme ! k) = of_nat k)"
  using llc_reachable_wf_llmes [OF assms] by (auto simp: wf_llmes_def list_all_iff wf_llme_def wf_lle_def)

theorem llc_reachable_wf_witness: "vu_send (llme_lle (hd sample_llmes) ! 3) < 512"
proof -
  have "sample_llmes \<noteq> []" using sample_llc_facts(1) lle_lookup_bound by fastforce
  with llc_reachable_wf [OF sample_llmes_reachable] show ?thesis by (cases sample_llmes) simp_all
qed

text \<open>C29: A UI frame sent on an entity without encryption is parsed by the receiving side as a UI frame of the same SAPI with the sender's sequence number, the information field and a matching frame check sequence; the sender's next sequence number is the successor modulo 512.\<close>

theorem ui_frame_roundtrip:
  assumes "llc_reachable env llmes" "lle_by_tlli_sapi env tlli llmes = Some i" "llme_algo (llmes ! i) = GPRS_ALGO_GEA0"
    and "sapi < 16" "\<not> reserved_sapi sapi"
    and "length msg \<le> unat (n201_u (lle_params (the_lle llmes i (unat sapi))))" "length msg < 60000"
  shows "\<exists>llmes' frame ghp.
    gprs_llc_tx_ui env tlli bvci nsei msg sapi command llmes = (llmes', [BSSGP_tx_dl_ud frame], le_tx_rc env) \<and>
    gprs_llc_hdr_parse frame = Inr ghp \<and> ghp_cmd ghp = GPRS_LLC_UI \<and> ghp_sapi ghp = sapi \<and> \<not> ghp_is_encrypted ghp \<and>
    ghp_seq_tx ghp = ucast (vu_send (the_lle llmes i (unat sapi))) \<and> ghp_data ghp = Some 3 \<and>
    take (unat (ghp_data_len ghp)) (drop 3 frame) = msg \<and>
    ghp_fcs ghp = gprs_llc_fcs (take (unat (ghp_crc_length ghp)) frame) \<and>
    vu_send (the_lle llmes' i (unat sapi)) = (vu_send (the_lle llmes i (unat sapi)) + 1) mod 512"
proof -
  let ?k = "unat sapi" and ?lle = "the_lle llmes i (unat sapi)"
  let ?f = "[addr_field sapi command, ui_ctrl0 (vu_send ?lle), ui_ctrl1 (vu_send ?lle)] @ msg"
  have wf: "wf_llmes llmes" by (rule llc_reachable_wf_llmes [OF assms(1)])
  have i: "i < length llmes" by (rule lle_lookup_bound [OF assms(2)])
  have k: "?k < 16" using assms(4) by (simp add: word_less_nat_alt)
  have nu: "vu_send ?lle < 512" using wf_the_lle [OF wf i k] by (simp add: wf_lle_def)
  have len: "length (llme_lle (llmes ! i)) = 16" using wf i by (simp add: wf_llmes_def list_all_length wf_llme_def)
  have tx: "\<exists>llmes'. gprs_llc_tx_ui env tlli bvci nsei msg sapi command llmes =
      (llmes', [BSSGP_tx_dl_ud (with_fcs ?f)], le_tx_rc env) \<and>
      vu_send (the_lle llmes' i ?k) = (vu_send ?lle + 1) mod 512"
    using assms(2,3,6) i k len by (simp add: gprs_llc_tx_ui_def Let_def upd_lle_def the_lle_def)
  obtain ghp where "gprs_llc_hdr_parse (with_fcs ?f) = Inr ghp" "ghp_cmd ghp = GPRS_LLC_UI" "ghp_sapi ghp = sapi"
    "\<not> ghp_is_encrypted ghp" "ghp_seq_tx ghp = ucast (vu_send ?lle)" "ghp_data ghp = Some 3"
    "unat (ghp_data_len ghp) = length msg" "unat (ghp_crc_length ghp) = length msg + 3" "ghp_fcs ghp = gprs_llc_fcs ?f"
    using parse_ui_frame [OF assms(4,5) nu assms(7), of command] by blast
  moreover have "take (length msg) (drop 3 (with_fcs ?f)) = msg" by (simp add: with_fcs_def)
  moreover have "take (length msg + 3) (with_fcs ?f) = ?f" by (rule take_with_fcs) simp
  ultimately show ?thesis using tx by metis
qed

theorem ui_frame_roundtrip_witness:
  "\<exists>llmes' frame ghp. gprs_llc_tx_ui sample_llc 0xc0000001 1 2 [1, 2, 3] 3 True sample_llmes =
       (llmes', [BSSGP_tx_dl_ud frame], 0) \<and>
     gprs_llc_hdr_parse frame = Inr ghp \<and> ghp_seq_tx ghp = 1 \<and> take (unat (ghp_data_len ghp)) (drop 3 frame) = [1, 2, 3]"
  using ui_frame_roundtrip [OF sample_llmes_reachable sample_llc_facts(1,2), where sapi = 3 and msg = "[1, 2, 3]" and
      bvci = 1 and nsei = 2 and command = True]
  by (auto simp: sample_llc_facts reserved_sapi_def sample_llc_def)

text \<open>A UI frame that was delivered is not delivered again when it is repeated, unless it had the last sequence number before the wrap-around: the repetition is refused and changes nothing.\<close>

theorem duplicate_ui_dropped:
  assumes "llc_reachable env llmes" "lle_by_tlli_sapi env tlli llmes = Some i"
    and "gprs_llc_hdr_parse pdu = Inr ghp" "ghp_cmd ghp = GPRS_LLC_UI" "\<not> ghp_is_encrypted ghp" "ghp_seq_tx ghp < 511"
    and "gprs_llc_rcvmsg env up_rc tlli bvci nsei pdu llmes = Some (llmes', ev, rc)" "ev \<noteq> []"
  shows "gprs_llc_rcvmsg env up_rc' tlli bvci nsei pdu llmes' = Some (llmes', [], - EIO)"
proof -
  let ?k = "unat (ghp_sapi ghp)" and ?g = "\<lambda>m. m\<lparr>llme_bvci := bvci, llme_nsei := nsei\<rparr>"
  let ?lle = "the_lle llmes i ?k"
  let ?lle1 = "?lle\<lparr>vu_recv := ucast ((ghp_seq_tx ghp + 1) mod 512),
                    oc_ui_recv := (if (ghp_seq_tx ghp + 1) div 512 \<noteq> 0 then oc_ui_recv ?lle + 512 else oc_ui_recv ?lle)\<rparr>"
  have wf: "wf_llmes llmes" by (rule llc_reachable_wf_llmes [OF assms(1)])
  have i: "i < length llmes" by (rule lle_lookup_bound [OF assms(2)])
  have k: "?k < 16" by (rule parse_sapi [OF assms(3)])
  have len: "length (llme_lle (llmes ! i)) = 16" using wf i by (simp add: wf_llmes_def list_all_length wf_llme_def)
  have l': "llmes' = upd_lle i ?k (\<lambda>_. ?lle1) (upd_nth i ?g llmes)" and a: "llme_algo (llmes ! i) = GPRS_ALGO_GEA0"
    and f: "ghp_fcs ghp = gprs_llc_fcs (take (unat (ghp_crc_length ghp)) pdu)"
    using assms(7,8) unfolding rcvmsg_found [OF assms(3,2)] hdr_rx_ui [OF assms(4)]
    by (auto simp: llc_decrypt_def assms(5) Let_def split: if_splits)
  have i': "lle_by_tlli_sapi env tlli llmes' = Some i"
    unfolding l' upd_lle_def by (simp add: upd_llme_tlli assms(2))
  have lle': "the_lle llmes' i ?k = ?lle1" "llme_algo (llmes' ! i) = GPRS_ALGO_GEA0"
    using i k len a by (simp_all add: l' upd_lle_def the_lle_def)
  have "unat (ghp_seq_tx ghp) < 511" using assms(6) by (simp add: word_less_nat_alt)
  then have "ghp_seq_tx ghp < ucast (ucast ((ghp_seq_tx ghp + 1) mod 512) :: u16)"
    by (simp add: word_less_nat_alt unsigned_ucast_eq unat_mod_distrib unat_word_ariths take_bit_eq_mod)
  moreover have "upd_lle i ?k (\<lambda>_. ?lle1) (upd_nth i ?g llmes') = llmes'"
    using i k len by (simp add: l' upd_lle_def upd_nth_def)
  ultimately show ?thesis
    unfolding rcvmsg_found [OF assms(3) i'] hdr_rx_ui [OF assms(4)]
    by (simp add: llc_decrypt_def assms(5) lle' f [symmetric])
qed

theorem duplicate_ui_dropped_witness:
  "\<exists>llmes'. gprs_llc_rcvmsg sample_llc 0 0xc0000001 1 2 (with_fcs [0x03, 0xc0, 0x15, 0x42]) llmes' = Some (llmes', [], - EIO)"
proof -
  let ?pdu = "with_fcs [0x03, 0xc0, 0x15, 0x42]"
  have "(case gprs_llc_hdr_parse ?pdu of Inl _ \<Rightarrow> False
         | Inr ghp \<Rightarrow> ghp_cmd ghp = GPRS_LLC_UI \<and> \<not> ghp_is_encrypted ghp \<and> ghp_seq_tx ghp = 5)" by code_simp
  then obtain ghp where g: "gprs_llc_hdr_parse ?pdu = Inr ghp" "ghp_cmd ghp = GPRS_LLC_UI" "\<not> ghp_is_encrypted ghp"
    "ghp_seq_tx ghp = 5" by (auto split: sum.splits)
  have "(case gprs_llc_rcvmsg sample_llc 0 0xc0000001 1 2 ?pdu sample_llmes of None \<Rightarrow> False
         | Some (l, ev, rc) \<Rightarrow> ev \<noteq> [])" by code_simp
  then obtain l ev rc where "gprs_llc_rcvmsg sample_llc 0 0xc0000001 1 2 ?pdu sample_llmes = Some (l, ev, rc)" "ev \<noteq> []"
    by (auto split: option.splits)
  from duplicate_ui_dropped [OF sample_llmes_reachable sample_llc_facts(1) g(1-3) _ this] g(4) show ?thesis by auto
qed

text \<open>A UI frame that the mobile station encrypts as specified, the key stream added to the information field and the frame check sequence, is dropped unless the last three octets of the key stream are zero: the check sequence read before decryption is compared with the one computed after it.\<close>

theorem encrypted_ui_dropped:
  assumes "lle_by_tlli_sapi env tlli llmes = Some i" "llme_algo (llmes ! i) \<noteq> GPRS_ALGO_GEA0"
    and "a AND 0x80 = 0" "\<not> reserved_sapi (a AND 0xf)" "c0 AND 0xe0 = 0xc0" "c1 AND 0x02 \<noteq> 0" "c1 AND 0x01 \<noteq> 0"
    and "le_cipher_run env (length msg + 3) (llme_algo (llmes ! i)) (llme_kc (llmes ! i))
           (le_gen_input_ui env 0 (lle_sapi (the_lle llmes i (unat (a AND 0xf))))
              (push_bit 6 (ucast (c0 AND 0x7)) OR ucast (drop_bit 2 c1)) (oc_ui_recv (the_lle llmes i (unat (a AND 0xf)))))
           GPRS_CIPH_MS2SGSN = Inr ks"
    and "length ks = length msg + 3" "drop (length msg) ks \<noteq> [0, 0, 0]" "length msg < 60000"
  shows "gprs_llc_rcvmsg env up_rc tlli bvci nsei
           ([a, c0, c1] @ xor_octets (drop 3 (with_fcs ([a, c0, c1] @ msg))) ks) llmes = Some (llmes, [], - EIO)"
proof -
  let ?f = "[a, c0, c1] @ msg" and ?fo = "fcs_octets (gprs_llc_fcs ([a, c0, c1] @ msg))"
  let ?body = "drop 3 (with_fcs ?f)"
  let ?pdu = "[a, c0, c1] @ xor_octets ?body ks"
  have body: "?body = msg @ ?fo" by (simp add: with_fcs_def)
  have lp: "length ?pdu = length msg + 6" using assms(9) by simp
  have p: "gprs_llc_hdr_parse ?pdu = Inr (zero_ghp
    \<lparr>ghp_sapi := a AND 0xf, ghp_is_cmd := (a AND 0x40 = 0), ghp_is_encrypted := True,
     ghp_seq_tx := push_bit 6 (ucast (c0 AND 0x7)) OR ucast (drop_bit 2 c1), ghp_fcs := read_fcs ?pdu,
     ghp_data := Some 3, ghp_data_len := inf_len (length ?pdu) 3,
     ghp_crc_length := of_nat (length ?pdu - 3), ghp_cmd := GPRS_LLC_UI\<rparr>)" (is "_ = Inr ?ghp")
    using assms(3-7) lp by (subst parse_ui) simp_all
  have n: "unat (of_nat (length ?pdu - 3) :: u16) = length msg + 3" using assms(11) by (simp only: lp unat_of_nat) simp
  have i: "unat (inf_len (length ?pdu) 3) = length msg" using assms(11) by (simp only: lp) (simp add: inf_len_eq)
  have c: "unat (inf_len (length ?pdu) 3 + 3) = length msg + 3" using i assms(11) by (simp only: unat_word_ariths) simp
  have x: "xor_at 3 ks ?pdu = with_fcs ?f"
    using assms(9) by (simp add: xor_at_def) (simp add: with_fcs_def)
  have d: "llc_decrypt env ?ghp (llmes ! i) (the_lle llmes i (unat (ghp_sapi ?ghp))) ?pdu = Some (Inr (with_fcs ?f))"
    using assms(2,8) lp x c by (simp add: llc_decrypt_def Let_def)
  have "length (drop (length msg) ks) = Suc (Suc (Suc 0))" using assms(9) by simp
  then obtain k0 k1 k2 where kl: "drop (length msg) ks = [k0, k1, k2]" unfolding length_Suc_conv length_0_conv by blast
  obtain f0 f1 f2 where fo: "?fo = [f0, f1, f2]" by (simp add: fcs_octets_def)
  have "xor_octets ?body ks = xor_octets msg (take (length msg) ks) @ [f0 XOR k0, f1 XOR k1, f2 XOR k2]"
    unfolding body fo
    using assms(9) xor_octets_append [of msg "take (length msg) ks" "[f0, f1, f2]" "drop (length msg) ks", unfolded append_take_drop_id]
    by (simp add: kl)
  moreover have "read_fcs (?f @ [f0, f1, f2]) = gprs_llc_fcs ?f"
    using with_fcs_simps(3) [of ?f] by (simp only: with_fcs_def fo)
  moreover have "[f0 XOR k0, f1 XOR k1, f2 XOR k2] \<noteq> [f0, f1, f2]"
    using assms(10) unfolding kl by (auto dest!: arg_cong [of _ f0 "(XOR) f0"] arg_cong [of _ f1 "(XOR) f1"] arg_cong [of _ f2 "(XOR) f2"] simp: xor.assoc [symmetric])
  ultimately have "read_fcs ?pdu \<noteq> gprs_llc_fcs ?f"
    using read_fcs_inj [of "[a, c0, c1] @ xor_octets msg (take (length msg) ks)" _ _ _ ?f f0 f1 f2] by (metis append.assoc)
  moreover have "take (length msg + 3) (with_fcs ?f) = ?f" by (rule take_with_fcs) simp
  ultimately show ?thesis
    unfolding rcvmsg_found [OF p assms(1)] d using n by simp
qed

theorem encrypted_ui_dropped_witness:
  "\<exists>llmes. llme_algo (llmes ! 0) = 1 \<and>
     gprs_llc_rcvmsg sample_llc 0 0xc0000001 1 2
       ([0x03, 0xc0, 0x17] @ xor_octets (drop 3 (with_fcs ([0x03, 0xc0, 0x17] @ [0x42]))) (replicate 4 0x5a)) llmes =
     Some (llmes, [], - EIO)"
proof -
  let ?l = "fst (gprs_llgmm_assign 0 0xc0000001 0xc0000001 1 (replicate 8 7) sample_llmes)"
  have l: "lle_by_tlli_sapi sample_llc 0xc0000001 ?l = Some 0 \<and> llme_algo (?l ! 0) = 1" by code_simp
  have r: "replicate 3 (0x5a :: u8) = [0x5a, 0x5a, 0x5a]" by code_simp
  have "gprs_llc_rcvmsg sample_llc 0 0xc0000001 1 2
       ([0x03, 0xc0, 0x17] @ xor_octets (drop 3 (with_fcs ([0x03, 0xc0, 0x17] @ [0x42]))) (replicate 4 0x5a)) ?l =
     Some (?l, [], - EIO)"
    by (rule encrypted_ui_dropped [where i = 0]) (use l in \<open>simp_all add: reserved_sapi_def sample_llc_def r\<close>)
  with l show ?thesis by blast
qed

text \<open>The parser accepts a UI frame of five octets, whose header overlaps the frame check sequence; with a valid check sequence it reaches SNDCP with the length 65535, far beyond the end of the frame.\<close>

theorem short_ui_length_wraps:
  assumes "lle_by_tlli_sapi env tlli llmes = Some i" "llme_algo (llmes ! i) = GPRS_ALGO_GEA0"
    and "vu_recv (the_lle llmes i 3) \<le> 14"
  shows "\<exists>llmes'. gprs_llc_rcvmsg env up_rc tlli bvci nsei [0x03, 0xc0, 0x38, 0x45, 0x67] llmes =
           Some (llmes', [LL_SNDCP i [0x03, 0xc0, 0x38, 0x45, 0x67] 3 65535], up_rc)"
proof -
  let ?pdu = "[0x03, 0xc0, 0x38, 0x45, 0x67] :: u8 list"
  have "(case gprs_llc_hdr_parse ?pdu of Inl _ \<Rightarrow> False
         | Inr g \<Rightarrow> ghp_cmd g = GPRS_LLC_UI \<and> \<not> ghp_is_encrypted g \<and> ghp_seq_tx g = 14 \<and> ghp_sapi g = 3 \<and>
             ghp_data g = Some 3 \<and> ghp_data_len g = 65535 \<and> ghp_crc_length g = 2 \<and> ghp_fcs g = gprs_llc_fcs (take 2 ?pdu))"
    by code_simp
  then obtain g where g: "gprs_llc_hdr_parse ?pdu = Inr g" "ghp_cmd g = GPRS_LLC_UI" "\<not> ghp_is_encrypted g"
    "ghp_seq_tx g = 14" "ghp_sapi g = 3" "ghp_data g = Some 3" "ghp_data_len g = 65535" "ghp_crc_length g = 2"
    "ghp_fcs g = gprs_llc_fcs (take 2 ?pdu)" by (auto split: sum.splits)
  have v: "\<not> (14 :: u32) < ucast (vu_recv (the_lle llmes i 3))"
    using assms(3) mod_less_eq_dividend [of "unat (vu_recv (the_lle llmes i 3))" "2 ^ 32"]
    by (simp add: word_less_nat_alt word_le_nat_alt unsigned_ucast_eq take_bit_eq_mod)
  show ?thesis
    unfolding rcvmsg_found [OF g(1) assms(1)] hdr_rx_ui [OF g(2)]
    using assms(2) v by (simp add: llc_decrypt_def g llc_deliver_def is_sndcp_sapi_def Let_def)
qed

theorem short_ui_length_wraps_witness:
  "\<exists>llmes'. gprs_llc_rcvmsg sample_llc 0 0xc0000001 1 2 [0x03, 0xc0, 0x38, 0x45, 0x67] sample_llmes =
     Some (llmes', [LL_SNDCP 0 [0x03, 0xc0, 0x38, 0x45, 0x67] 3 65535], 0)"
  by (rule short_ui_length_wraps) (simp_all add: sample_llc_facts)

text \<open>The entity created for a frame with a foreign TLLI is not found for the next frame with that TLLI: it is stored under the foreign TLLI and looked up under the local one, so every such frame creates another entity.\<close>

theorem foreign_tlli_not_found:
  assumes "le_tlli_type env tlli = TLLI_FOREIGN" "\<not> bit tlli 30" "tlli OR 0x40000000 \<noteq> 0xffffffff"
    and "lle_by_tlli_sapi env tlli llmes = None"
    and "gprs_llc_hdr_parse pdu = Inr ghp" "ghp_cmd ghp = GPRS_LLC_UI" "ghp_sapi ghp = 1"
  shows "\<forall>llmes' ev rc. gprs_llc_rcvmsg env up_rc tlli bvci nsei pdu llmes = Some (llmes', ev, rc) \<longrightarrow>
           length llmes' = Suc (length llmes) \<and> lle_by_tlli_sapi env tlli llmes' = None"
proof -
  have "bit (tlli OR 0x40000000) 30" by (simp add: bit_or_iff)
  with assms(2) have "tlli OR 0x40000000 \<noteq> tlli" by auto
  with assms(1,3,4) have n: "lle_by_tlli_sapi env tlli (llme_alloc env tlli llmes) = None"
    by (simp add: lle_by_tlli_sapi_def llme_alloc_def tlli_foreign2local_def Let_def)
  have f: "lle_by_tlli_sapi env tlli (upd_lle 0 k f (upd_nth 0 (\<lambda>m. m\<lparr>llme_bvci := bvci, llme_nsei := nsei\<rparr>)
      (llme_alloc env tlli llmes))) = None" for k f
    unfolding upd_lle_def by (simp add: upd_llme_tlli n)
  have l: "length (upd_lle 0 k f (upd_nth 0 g (llme_alloc env tlli llmes))) = Suc (length llmes)"
    "length (llme_alloc env tlli llmes) = Suc (length llmes)" for k f g
    by (simp_all add: upd_lle_def) (simp_all add: llme_alloc_def)
  show ?thesis
    using assms(4-7) n f l
    by (auto simp: gprs_llc_rcvmsg_def Let_def split: option.splits sum.splits if_splits prod.splits)
qed

theorem foreign_tlli_not_found_witness:
  "\<exists>llmes' ev rc. gprs_llc_rcvmsg sample_llc 0 0x80000001 1 2 (with_fcs [0x01, 0xc0, 0x15, 0x42]) [] = Some (llmes', ev, rc) \<and>
     length llmes' = 1 \<and> lle_by_tlli_sapi sample_llc 0x80000001 llmes' = None"
proof -
  let ?pdu = "with_fcs [0x01, 0xc0, 0x15, 0x42]"
  have "(case gprs_llc_hdr_parse ?pdu of Inl _ \<Rightarrow> False | Inr ghp \<Rightarrow> ghp_cmd ghp = GPRS_LLC_UI \<and> ghp_sapi ghp = 1)"
    by code_simp
  then obtain ghp where g: "gprs_llc_hdr_parse ?pdu = Inr ghp" "ghp_cmd ghp = GPRS_LLC_UI" "ghp_sapi ghp = 1"
    by (auto split: sum.splits)
  have "gprs_llc_rcvmsg sample_llc 0 0x80000001 1 2 ?pdu [] \<noteq> None" by code_simp
  then obtain llmes' ev rc where r: "gprs_llc_rcvmsg sample_llc 0 0x80000001 1 2 ?pdu [] = Some (llmes', ev, rc)" by auto
  have "le_tlli_type sample_llc 0x80000001 = TLLI_FOREIGN" "lle_by_tlli_sapi sample_llc 0x80000001 [] = None"
    by (simp_all add: sample_llc_def lle_by_tlli_sapi_def)
  from foreign_tlli_not_found [OF this(1) _ _ this(2) g, of 0 1 2] r show ?thesis by auto
qed

end
