(* ===== verification/Gprs_Sndcp.thy ===== *)
theory Gprs_Sndcp
  imports Gprs_Llc "HOL-Library.Multiset"
begin

unbundle bit_operations_syntax

text \<open>
  The SNDCP layer of the SGSN (\<^verbatim>\<open>src/gprs/gprs_sndcp.c\<close>): the entities, the fragmentation of an N-PDU
  into SN-UNITDATA PDUs for the LLC layer, and the reassembly of received segments. An LLC entity is
  known by its address, a number; \<open>tlli\<close> is that of its LLME. Bit fields are laid out from the least
  significant bit. The result \<open>None\<close> of an operation is an access outside the message or the abort
  of \<^verbatim>\<open>msgb_put\<close>. What \<^verbatim>\<open>sgsn_rx_sndcp_ud_ind\<close> returns is the argument \<open>up_rc\<close>, the reading of the cell
  identifier by the BSSGP library is the argument \<open>parse\<close>. Memory is never exhausted; talloc refuses
  blocks of \<open>0x10000000\<close> octets and more.
\<close>

section \<open>State\<close>

text \<open>The length of the data of an entry is the length of \<open>dqe_data\<close>.\<close>

record defrag_queue_entry =
  dqe_seg_nr :: u32
  dqe_data :: "u8 list"

record defrag_state =
  df_npdu :: u16
  highest_seg :: u8
  seg_have :: u32
  no_more :: bool
  tot_len :: u32
  frag_list :: "defrag_queue_entry list"

datatype sndcp_rx_state = SNDCP_RX_S_FIRST | SNDCP_RX_S_SUBSEQ | SNDCP_RX_S_DISCARD

record gprs_ra_id =
  ra_mnc :: u16
  ra_mcc :: u16
  ra_lac :: u16
  ra_rac :: u8

record gprs_sndcp_entity =
  sne_ra_id :: gprs_ra_id
  sne_lle :: nat
  sne_nsapi :: u8
  tx_npdu_nr :: u16
  rx_state :: sndcp_rx_state
  sne_defrag :: defrag_state

text \<open>The N-PDU handed to the SGSN core.\<close>

datatype sndcp_event = Sgsn_rx_sndcp_ud_ind gprs_ra_id u32 u8 "u8 list"

section \<open>Headers\<close>

definition sch_nsapi :: "u8 \<Rightarrow> u8" where "sch_nsapi h = h AND 0xf"
definition sch_more :: "u8 \<Rightarrow> bool" where "sch_more h = bit h 4"
definition sch_type :: "u8 \<Rightarrow> bool" where "sch_type h = bit h 5"
definition sch_first :: "u8 \<Rightarrow> bool" where "sch_first h = bit h 6"

definition suh_npdu :: "u8 \<Rightarrow> u8 \<Rightarrow> u16" where
  "suh_npdu o1 o2 = push_bit 8 (ucast (o1 AND 0xf)) OR ucast o2"

definition suh_seg_nr :: "u8 \<Rightarrow> u8" where
  "suh_seg_nr o1 = drop_bit 4 o1"

definition sndcp_common_hdr :: "u8 \<Rightarrow> bool \<Rightarrow> bool \<Rightarrow> u8" where
  "sndcp_common_hdr nsapi mr first =
     (nsapi AND 0xf) OR (if mr then 0x10 else 0) OR 0x20 OR (if first then 0x40 else 0)"

definition sndcp_udata_hdr :: "u16 \<Rightarrow> u8 \<Rightarrow> u8 list" where
  "sndcp_udata_hdr npdu seg =
     [(ucast (drop_bit 8 npdu) AND 0xf) OR push_bit 4 (seg AND 0xf), ucast (npdu AND 0xff)]"

section \<open>Reassembly\<close>

definition talloc_max :: nat where "talloc_max = 0x10000000"

definition defrag_enqueue :: "u8 \<Rightarrow> u8 list \<Rightarrow> u32 \<Rightarrow> defrag_state \<Rightarrow> (int + defrag_state) option" where
  "defrag_enqueue seg_nr data data_len df =
     (if unat data_len \<ge> talloc_max then Some (Inl (- ENOMEM))
      else if unat data_len > length data then None
      else Some (Inr (df\<lparr>frag_list := \<lparr>dqe_seg_nr = ucast seg_nr, dqe_data = take (unat data_len) data\<rparr> # frag_list df,
             highest_seg := (if seg_nr > highest_seg df then seg_nr else highest_seg df),
             seg_have := seg_have df OR push_bit (unat seg_nr) 1,
             tot_len := tot_len df + data_len\<rparr>)))"

definition seg_needed :: "nat \<Rightarrow> u32" where
  "seg_needed n = foldl (\<lambda>m i. m OR push_bit i 1) 0 [0..<n]"

definition defrag_have_all_segments :: "defrag_state \<Rightarrow> bool" where
  "defrag_have_all_segments df \<longleftrightarrow> seg_needed (Suc (unat (highest_seg df))) = seg_have df"

fun defrag_get_seg :: "u32 \<Rightarrow> defrag_queue_entry list \<Rightarrow> (defrag_queue_entry \<times> defrag_queue_entry list) option" where
  "defrag_get_seg seg_nr [] = None"
| "defrag_get_seg seg_nr (dqe # l) =
     (if dqe_seg_nr dqe = seg_nr then Some (dqe, l)
      else map_option (\<lambda>(d, r). (d, dqe # r)) (defrag_get_seg seg_nr l))"

text \<open>
  The loop that appends the segments to a message buffer of \<open>cap\<close> octets after its headroom; the second
  component is \<open>None\<close> when a segment is missing.
\<close>

fun append_segs :: "nat \<Rightarrow> nat list \<Rightarrow> defrag_queue_entry list \<Rightarrow> u8 list \<Rightarrow>
    (defrag_queue_entry list \<times> u8 list option) option" where
  "append_segs cap [] fl npdu = Some (fl, Some npdu)"
| "append_segs cap (s # ss) fl npdu =
     (case defrag_get_seg (of_nat s) fl of
        None \<Rightarrow> Some (fl, None)
      | Some (dqe, fl1) \<Rightarrow>
          if length npdu + length (dqe_data dqe) > cap then None
          else append_segs cap ss fl1 (npdu @ dqe_data dqe))"

text \<open>
  \<^verbatim>\<open>msgb_alloc\<close> takes a 16 bit size and clears the buffer, so octets that were not appended are zero.
  The result is the state, the N-PDU handed over if there is one, and the return code.
\<close>

definition defrag_segments :: "int \<Rightarrow> defrag_state \<Rightarrow> (defrag_state \<times> u8 list option \<times> int) option" where
  "defrag_segments up_rc df =
     (let cap = unat (ucast (tot_len df + 256) :: u16) - 128
      in case append_segs cap [0..<Suc (unat (highest_seg df))] (frag_list df) [] of
           None \<Rightarrow> None
         | Some (fl, None) \<Rightarrow> Some (df\<lparr>frag_list := fl\<rparr>, None, - EIO)
         | Some (fl, Some npdu) \<Rightarrow>
             if unat (tot_len df) > cap then None
             else Some (df\<lparr>frag_list := fl\<rparr>,
                        Some (take (unat (tot_len df)) (npdu @ replicate (unat (tot_len df)) 0)), up_rc))"

definition defrag_input :: "int \<Rightarrow> u8 list \<Rightarrow> u32 \<Rightarrow> defrag_state \<Rightarrow> (defrag_state \<times> u8 list option \<times> int) option" where
  "defrag_input up_rc hdr len df =
     (let h = hdr ! 0; suh = (if sch_first h then 2 else 1); off = suh + 2
      in if length hdr < off then None
         else
           (let npdu_num = suh_npdu (hdr ! suh) (hdr ! (suh + 1));
                df1 = (if sch_first h
                       then df\<lparr>frag_list := [], df_npdu := npdu_num, no_more := False, highest_seg := 0,
                               seg_have := 0, tot_len := 0\<rparr>
                       else df)
            in case defrag_enqueue (suh_seg_nr (hdr ! suh)) (drop off hdr) (len - of_nat off) df1 of
                 None \<Rightarrow> None
               | Some (Inl rc) \<Rightarrow> Some (df1, None, rc)
               | Some (Inr df2) \<Rightarrow>
                   (let df3 = (if sch_more h then df2 else df2\<lparr>no_more := True\<rparr>)
                    in if no_more df3 \<and> defrag_have_all_segments df3 then defrag_segments up_rc df3
                       else Some (df3, None, 0))))"

section \<open>Entities\<close>

definition gprs_sndcp_entity_by_lle :: "nat \<Rightarrow> u8 \<Rightarrow> gprs_sndcp_entity list \<Rightarrow> nat option" where
  "gprs_sndcp_entity_by_lle lle nsapi = find_idx (\<lambda>sne. sne_lle sne = lle \<and> sne_nsapi sne = nsapi)"

definition gprs_sndcp_entity_alloc :: "nat \<Rightarrow> u8 \<Rightarrow> gprs_sndcp_entity list \<Rightarrow> gprs_sndcp_entity list" where
  "gprs_sndcp_entity_alloc lle nsapi ents =
     \<lparr>sne_ra_id = \<lparr>ra_mnc = 0, ra_mcc = 0, ra_lac = 0, ra_rac = 0\<rparr>, sne_lle = lle, sne_nsapi = nsapi,
      tx_npdu_nr = 0, rx_state = SNDCP_RX_S_FIRST,
      sne_defrag = \<lparr>df_npdu = 0, highest_seg = 0, seg_have = 0, no_more = False, tot_len = 0, frag_list = []\<rparr>\<rparr> # ents"

definition sndcp_sm_activate_ind :: "nat \<Rightarrow> u8 \<Rightarrow> gprs_sndcp_entity list \<Rightarrow> gprs_sndcp_entity list \<times> int" where
  "sndcp_sm_activate_ind lle nsapi ents =
     (if gprs_sndcp_entity_by_lle lle nsapi ents \<noteq> None then (ents, - EEXIST)
      else (gprs_sndcp_entity_alloc lle nsapi ents, 0))"

definition sndcp_sm_deactivate_ind :: "nat \<Rightarrow> u8 \<Rightarrow> gprs_sndcp_entity list \<Rightarrow> gprs_sndcp_entity list \<times> int" where
  "sndcp_sm_deactivate_ind lle nsapi ents =
     (case gprs_sndcp_entity_by_lle lle nsapi ents of
        None \<Rightarrow> (ents, - ENOENT)
      | Some i \<Rightarrow> (take i ents @ drop (Suc i) ents, 0))"

section \<open>Sending\<close>

text \<open>
  The fragmenter state is the fragment number and the offset of the next octet. \<open>tx\<close> stands for
  \<^verbatim>\<open>gprs_llc_tx_ui\<close> with the routing identifiers of the original message; \<open>l\<close> is the state of the layers below.
\<close>

definition sndcp_send_ud_frag ::
    "(u8 list \<Rightarrow> u8 \<Rightarrow> 'l \<Rightarrow> 'l \<times> int) \<Rightarrow> gprs_llc_lle \<Rightarrow> u8 list \<Rightarrow> gprs_sndcp_entity \<Rightarrow> u8 \<times> nat \<Rightarrow> 'l \<Rightarrow>
     gprs_sndcp_entity \<times> (u8 \<times> nat) \<times> 'l \<times> int" where
  "sndcp_send_ud_frag tx lle msg sne fs l =
     (let (frag_nr, next_byte) = fs;
          first = (frag_nr = 0);
          len = (of_nat (length msg - next_byte) :: u32);
          max_payload_len = (ucast (n201_u (lle_params lle)) :: u32) - 3;
          max1 = (if first then max_payload_len - 1 else max_payload_len);
          len1 = (if len > max1 then max1 else len);
          data = take (unat len1) (drop next_byte msg);
          next1 = next_byte + unat len1;
          mr = (\<not> length msg \<le> next1);
          fmsg = [sndcp_common_hdr (sne_nsapi sne) mr first] @ (if first then [0] else []) @
                 sndcp_udata_hdr (tx_npdu_nr sne) (frag_nr mod 0xf) @ data;
          (l1, rc) = tx fmsg (ucast (lle_sapi lle)) l
      in if rc < 0 then (sne, (frag_nr + 1, next1), l1, rc)
         else if \<not> mr then (sne\<lparr>tx_npdu_nr := (tx_npdu_nr sne + 1) mod 0xfff\<rparr>, (0, 0), l1, 0)
         else (sne, (frag_nr + 1, next1), l1, 1))"

partial_function (option) sndcp_frag_loop ::
    "(u8 list \<Rightarrow> u8 \<Rightarrow> 'l \<Rightarrow> 'l \<times> int) \<Rightarrow> gprs_llc_lle \<Rightarrow> u8 list \<Rightarrow> gprs_sndcp_entity \<Rightarrow> u8 \<times> nat \<Rightarrow> 'l \<Rightarrow>
     (gprs_sndcp_entity \<times> 'l \<times> int) option" where
  "sndcp_frag_loop tx lle msg sne fs l =
     (case sndcp_send_ud_frag tx lle msg sne fs l of
        (sne1, fs1, l1, rc) \<Rightarrow>
          if rc = 0 then Some (sne1, l1, 0)
          else if rc < 0 then Some (sne1, l1, rc)
          else sndcp_frag_loop tx lle msg sne1 fs1 l1)"

text \<open>
  In the unfragmented case the first octet is written into the headroom of the message, which holds
  \<open>room\<close>; the bits \<^verbatim>\<open>more\<close> and \<^verbatim>\<open>spare\<close> keep their value.
\<close>

definition sndcp_unitdata_req ::
    "(u8 list \<Rightarrow> u8 \<Rightarrow> 'l \<Rightarrow> 'l \<times> int) \<Rightarrow> u8 \<Rightarrow> u8 list \<Rightarrow> nat \<Rightarrow> gprs_llc_lle \<Rightarrow> u8 \<Rightarrow>
     gprs_sndcp_entity list \<Rightarrow> 'l \<Rightarrow> (gprs_sndcp_entity list \<times> 'l \<times> int) option" where
  "sndcp_unitdata_req tx room msg p lle nsapi ents l =
     (case gprs_sndcp_entity_by_lle p nsapi ents of
        None \<Rightarrow> Some (ents, l, - EIO)
      | Some i \<Rightarrow>
          if (of_nat (length msg) :: u64) > ucast (n201_u (lle_params lle)) - 4 then
            map_option (\<lambda>(sne, l1, rc). (ents[i := sne], l1, rc)) (sndcp_frag_loop tx lle msg (ents ! i) (0, 0) l)
          else
            (let sne = ents ! i;
                 pdu = [(room AND 0x90) OR sndcp_common_hdr nsapi False True, 0] @ sndcp_udata_hdr (tx_npdu_nr sne) 0 @ msg;
                 (l1, rc) = tx pdu (ucast (lle_sapi lle)) l
             in Some (ents[i := sne\<lparr>tx_npdu_nr := (tx_npdu_nr sne + 1) mod 0xfff\<rparr>], l1, rc)))"

section \<open>Reception\<close>

text \<open>
  \<open>hdr\<close> are the octets from the SN-PDU header to the end of the message, with the frame check sequence of
  the LLC frame; \<open>len\<close> is the length the LLC layer found.
\<close>

definition sndcp_llunitdata_ind ::
    "(u8 list \<Rightarrow> gprs_ra_id \<Rightarrow> gprs_ra_id) \<Rightarrow> int \<Rightarrow> u8 list \<Rightarrow> nat \<Rightarrow> u32 \<Rightarrow> u8 list \<Rightarrow> u16 \<Rightarrow>
     gprs_sndcp_entity list \<Rightarrow> (gprs_sndcp_entity list \<times> sndcp_event list \<times> int) option" where
  "sndcp_llunitdata_ind parse up_rc bcid lle tlli hdr len ents =
     (if hdr = [] then None
      else if \<not> sch_type (hdr ! 0) then Some (ents, [], - EINVAL)
      else if len < 3 then Some (ents, [], - EIO)
      else
        (case gprs_sndcp_entity_by_lle lle (sch_nsapi (hdr ! 0)) ents of
           None \<Rightarrow> Some (ents, [], - EIO)
         | Some i \<Rightarrow>
             (let sne = (ents ! i)\<lparr>sne_ra_id := parse bcid (sne_ra_id (ents ! i))\<rparr>
              in if \<not> sch_first (hdr ! 0) \<or> sch_more (hdr ! 0) then
                   (case defrag_input up_rc hdr (ucast len) (sne_defrag sne) of
                      None \<Rightarrow> None
                    | Some (df, npdu, rc) \<Rightarrow>
                        Some (ents[i := sne\<lparr>sne_defrag := df\<rparr>],
                              (case npdu of None \<Rightarrow> []
                               | Some d \<Rightarrow> [Sgsn_rx_sndcp_ud_ind (sne_ra_id sne) tlli (sne_nsapi sne) d]), rc))
                 else if length hdr < 2 then None
                 else if hdr ! 1 \<noteq> 0 then Some (ents[i := sne], [], - EIO)
                 else if length hdr \<le> 4 then Some (ents[i := sne], [], - EIO)
                 else Some (ents[i := sne],
                            [Sgsn_rx_sndcp_ud_ind (sne_ra_id sne) tlli (sne_nsapi sne) (drop 4 hdr)], up_rc))))"


section \<open>Fragmentation\<close>

text \<open>
  The reference: the SN-UNITDATA PDUs of an N-PDU for a layer that takes \<open>n\<close> octets. The first one has
  four octets of header, the others three.
\<close>

definition sn_frag :: "u8 \<Rightarrow> u16 \<Rightarrow> u8 \<Rightarrow> bool \<Rightarrow> u8 list \<Rightarrow> u8 list" where
  "sn_frag nsapi npdu k mr d =
     [sndcp_common_hdr nsapi mr (k = 0)] @ (if k = 0 then [0] else []) @ sndcp_udata_hdr npdu (k mod 0xf) @ d"

definition frag_room :: "nat \<Rightarrow> u8 \<Rightarrow> nat" where
  "frag_room n k = (if k = 0 then n - 4 else n - 3)"

function sn_frags :: "nat \<Rightarrow> u8 \<Rightarrow> u16 \<Rightarrow> u8 \<Rightarrow> u8 list \<Rightarrow> u8 list list" where
  "sn_frags n nsapi npdu k d =
     (if n < 4 then []
      else if length d \<le> frag_room n k then [sn_frag nsapi npdu k False d]
      else sn_frag nsapi npdu k True (take (frag_room n k) d) #
           sn_frags n nsapi npdu (k + 1) (drop (frag_room n k) d))"
  by pat_completeness auto

termination
  by (relation "measure (\<lambda>(n, nsapi, npdu, k, d). 2 * length d + (if k = 0 then 1 else 0))")
     (auto simp: frag_room_def)

declare sn_frags.simps [simp del]

lemma length_sn_frag: "length (sn_frag nsapi npdu k mr d) = length d + (if k = 0 then 4 else 3)"
  by (simp add: sn_frag_def sndcp_udata_hdr_def)

lemma sn_frag_fits: "4 \<le> n \<Longrightarrow> length d \<le> frag_room n k \<Longrightarrow> length (sn_frag nsapi npdu k mr d) \<le> n"
  by (auto simp: length_sn_frag frag_room_def split: if_splits)

lemma sn_frags_fit: "f \<in> set (sn_frags n nsapi npdu k d) \<Longrightarrow> length f \<le> n"
proof (induction n nsapi npdu k d rule: sn_frags.induct)
  case (1 n nsapi npdu k d)
  then show ?case
    by (subst (asm) (2) sn_frags.simps) (auto simp: sn_frag_fits split: if_splits)
qed

text \<open>One call of the fragmenter sends the next PDU of the reference.\<close>

lemma payload_room:
  assumes "4 \<le> unat (w :: u16)"
  shows "unat ((ucast w :: u32) - 3) = unat w - 3" "unat ((ucast w :: u32) - 3 - 1) = unat w - 4"
proof -
  have w: "unat (ucast w :: u32) = unat w" using unsigned_less [of w, where 'a = nat] by (simp add: unsigned_ucast_eq take_bit_nat_eq_self)
  show 1: "unat ((ucast w :: u32) - 3) = unat w - 3"
    using assms by (subst unat_sub) (simp_all add: word_le_nat_alt w)
  show "unat ((ucast w :: u32) - 3 - 1) = unat w - 4"
    using assms by (subst unat_sub) (simp_all add: word_le_nat_alt 1)
qed

lemma send_ud_frag_eq:
  assumes "next \<le> length msg" "length msg < 65536" "n = unat (n201_u (lle_params lle))" "4 \<le> n"
  shows "sndcp_send_ud_frag tx lle msg sne (k, next) l =
    (let d = drop next msg; m = frag_room n k;
         (l1, rc) = tx (sn_frag (sne_nsapi sne) (tx_npdu_nr sne) k (m < length d) (take m d)) (ucast (lle_sapi lle)) l
     in if rc < 0 then (sne, (k + 1, next + min m (length d)), l1, rc)
        else if length d \<le> m then (sne\<lparr>tx_npdu_nr := (tx_npdu_nr sne + 1) mod 0xfff\<rparr>, (0, 0), l1, 0)
        else (sne, (k + 1, next + m), l1, 1))"
proof -
  let ?len = "of_nat (length msg - next) :: u32"
  let ?max = "if k = 0 then (ucast (n201_u (lle_params lle)) :: u32) - 3 - 1 else ucast (n201_u (lle_params lle)) - 3"
  have len: "unat ?len = length msg - next" using assms(2) by (simp add: unat_of_nat)
  have max: "unat ?max = frag_room n k"
    using payload_room [of "n201_u (lle_params lle)"] assms(3,4) by (simp add: frag_room_def)
  have l1: "unat (if ?len > ?max then ?max else ?len) = min (frag_room n k) (length msg - next)"
    unfolding word_less_nat_alt max len by (auto simp: max len)
  have t: "take (min (frag_room n k) (length msg - next)) (drop next msg) = take (frag_room n k) (drop next msg)"
    by (simp add: min_def)
  have m: "(length msg \<le> next + min (frag_room n k) (length msg - next)) = (length msg - next \<le> frag_room n k)"
    using assms(1) by (auto simp: min_def)
  have nm: "(frag_room n k < length msg - next) = (\<not> length msg - next \<le> frag_room n k)" by auto
  show ?thesis
    unfolding sndcp_send_ud_frag_def Let_def prod.case l1 t m sn_frag_def length_drop nm not_not
    by (intro prod.case_cong refl) (simp add: min_def)
qed

lemma frag_loop_step:
  assumes "next \<le> length msg" "length msg < 65536" "n = unat (n201_u (lle_params lle))" "4 \<le> n"
    and tx: "tx (sn_frag (sne_nsapi sne) (tx_npdu_nr sne) k (frag_room n k < length (drop next msg))
      (take (frag_room n k) (drop next msg))) (ucast (lle_sapi lle)) l = (l1, rc)"
  shows "sndcp_frag_loop tx lle msg sne (k, next) l =
    (if rc < 0 then Some (sne, l1, rc)
     else if length (drop next msg) \<le> frag_room n k
     then Some (sne\<lparr>tx_npdu_nr := (tx_npdu_nr sne + 1) mod 0xfff\<rparr>, l1, 0)
     else sndcp_frag_loop tx lle msg sne (k + 1, next + frag_room n k) l1)"
  unfolding sndcp_frag_loop.simps [of tx lle msg sne "(k, next)"] send_ud_frag_eq [OF assms(1-4)] Let_def tx prod.case
  by simp

lemma frag_loop_returns:
  assumes "next \<le> length msg" "length msg < 65536" "n = unat (n201_u (lle_params lle))" "4 \<le> n"
  shows "\<exists>r. sndcp_frag_loop tx lle msg sne (k, next) l = Some r"
  using assms
proof (induction "2 * (length msg - next) + (if k = 0 then 1 else 0)" arbitrary: k "next" l rule: less_induct)
  case less
  obtain l1 rc where tx: "tx (sn_frag (sne_nsapi sne) (tx_npdu_nr sne) k (frag_room n k < length (drop next msg))
      (take (frag_room n k) (drop next msg))) (ucast (lle_sapi lle)) l = (l1, rc)" by fastforce
  show ?case
  proof (cases "rc < 0 \<or> length (drop next msg) \<le> frag_room n k")
    case True
    then show ?thesis unfolding frag_loop_step [where tx = tx, OF less.prems tx] by auto
  next
    case False
    then have "\<exists>r. sndcp_frag_loop tx lle msg sne (k + 1, next + frag_room n k) l1 = Some r"
      using less.prems by (intro less.hyps) (auto simp: frag_room_def)
    then show ?thesis using False unfolding frag_loop_step [where tx = tx, OF less.prems tx] by simp
  qed
qed

text \<open>
  What the fragmenter needs of the layer below: while it is \<open>ready\<close> for \<open>n\<close> octets on a SAPI, it takes every
  PDU of at most that length. \<open>sent\<close> are the PDUs it has taken.
\<close>

locale unitdata_service =
  fixes tx :: "u8 list \<Rightarrow> u8 \<Rightarrow> 'l \<Rightarrow> 'l \<times> int"
    and sent :: "'l \<Rightarrow> u8 list list"
    and ready :: "'l \<Rightarrow> u8 \<Rightarrow> nat \<Rightarrow> bool"
  assumes tx_accepts: "ready l sapi n \<Longrightarrow> length f \<le> n \<Longrightarrow>
    \<exists>l1 rc. tx f sapi l = (l1, rc) \<and> 0 \<le> rc \<and> sent l1 = sent l @ [f] \<and> ready l1 sapi n"
begin

lemma frag_loop_sends:
  assumes "ready l (ucast (lle_sapi lle)) n" "next \<le> length msg" "length msg < 65536"
    "n = unat (n201_u (lle_params lle))" "4 \<le> n"
  shows "\<exists>l1. sndcp_frag_loop tx lle msg sne (k, next) l =
      Some (sne\<lparr>tx_npdu_nr := (tx_npdu_nr sne + 1) mod 0xfff\<rparr>, l1, 0) \<and>
    sent l1 = sent l @ sn_frags n (sne_nsapi sne) (tx_npdu_nr sne) k (drop next msg) \<and> ready l1 (ucast (lle_sapi lle)) n"
  using assms
proof (induction "2 * (length msg - next) + (if k = 0 then 1 else 0)" arbitrary: k "next" l rule: less_induct)
  case less
  let ?d = "drop next msg" and ?m = "frag_room n k"
  let ?f = "sn_frag (sne_nsapi sne) (tx_npdu_nr sne) k (?m < length ?d) (take ?m ?d)"
  have "length ?f \<le> n" by (rule sn_frag_fits) (use less.prems in auto)
  then obtain l1 rc where tx: "tx ?f (ucast (lle_sapi lle)) l = (l1, rc)" "0 \<le> rc" "sent l1 = sent l @ [?f]"
    and r: "ready l1 (ucast (lle_sapi lle)) n" using tx_accepts [OF less.prems(1)] by blast
  note step = frag_loop_step [where tx = tx, OF less.prems(2-5) tx(1)]
  show ?case
  proof (cases "length ?d \<le> ?m")
    case True
    then show ?thesis using tx r less.prems(5) by (subst sn_frags.simps) (auto simp: step)
  next
    case False
    have "\<exists>l2. sndcp_frag_loop tx lle msg sne (k + 1, next + ?m) l1 =
        Some (sne\<lparr>tx_npdu_nr := (tx_npdu_nr sne + 1) mod 0xfff\<rparr>, l2, 0) \<and>
      sent l2 = sent l1 @ sn_frags n (sne_nsapi sne) (tx_npdu_nr sne) (k + 1) (drop (next + ?m) msg) \<and>
      ready l2 (ucast (lle_sapi lle)) n"
      using less.prems False by (intro less.hyps r) (auto simp: frag_room_def)
    then show ?thesis using False tx less.prems(5) by (subst sn_frags.simps) (auto simp: step add.commute)
  qed
qed

end

text \<open>The LLC layer as the service: the payloads of the UI frames it handed to BSSGP.\<close>

definition llc_tx :: "llc_env \<Rightarrow> u32 \<Rightarrow> u16 \<Rightarrow> u16 \<Rightarrow> u8 list \<Rightarrow> u8 \<Rightarrow>
    gprs_llc_llme list \<times> llc_event list \<Rightarrow> (gprs_llc_llme list \<times> llc_event list) \<times> int" where
  "llc_tx env tlli bvci nsei f sapi l =
     (let (llmes1, ev, rc) = gprs_llc_tx_ui env tlli bvci nsei f sapi False (fst l)
      in ((llmes1, snd l @ ev), rc))"

fun ui_payload :: "llc_event \<Rightarrow> u8 list list" where
  "ui_payload (BSSGP_tx_dl_ud frame) = [drop 3 (take (length frame - 3) frame)]"
| "ui_payload _ = []"

definition llc_payloads :: "gprs_llc_llme list \<times> llc_event list \<Rightarrow> u8 list list" where
  "llc_payloads l = concat (map ui_payload (snd l))"

definition llc_ready :: "llc_env \<Rightarrow> u32 \<Rightarrow> gprs_llc_llme list \<times> llc_event list \<Rightarrow> u8 \<Rightarrow> nat \<Rightarrow> bool" where
  "llc_ready env tlli l sapi n \<longleftrightarrow> 0 \<le> le_tx_rc env \<and> sapi < 16 \<and> wf_llmes (fst l) \<and>
     (case lle_by_tlli_sapi env tlli (fst l) of
        None \<Rightarrow> False
      | Some i \<Rightarrow> llme_algo (fst l ! i) = GPRS_ALGO_GEA0 \<and> unat (n201_u (lle_params (the_lle (fst l) i (unat sapi)))) = n)"

interpretation llc_service: unitdata_service "llc_tx env tlli bvci nsei" llc_payloads "llc_ready env tlli" for env tlli bvci nsei
proof
  fix l sapi n and f :: "u8 list"
  assume r: "llc_ready env tlli l sapi n" and f: "length f \<le> n"
  obtain llmes evs where l: "l = (llmes, evs)" by fastforce
  from r obtain i where i: "lle_by_tlli_sapi env tlli llmes = Some i" "llme_algo (llmes ! i) = GPRS_ALGO_GEA0"
    "unat (n201_u (lle_params (the_lle llmes i (unat sapi)))) = n"
    and w: "0 \<le> le_tx_rc env" "sapi < 16" "wf_llmes llmes" by (auto simp: llc_ready_def l split: option.splits)
  have b: "i < length llmes" by (rule lle_lookup_bound [OF i(1)])
  have k: "unat sapi < 16" using w(2) by (simp add: word_less_nat_alt)
  have len: "length (llme_lle (llmes ! i)) = 16" using w(3) b by (simp add: wf_llmes_def list_all_length wf_llme_def)
  obtain llmes1 frame where tx: "gprs_llc_tx_ui env tlli bvci nsei f sapi False llmes = (llmes1, [BSSGP_tx_dl_ud (with_fcs frame)], le_tx_rc env)"
    and fr: "drop 3 frame = f"
    and k1: "lle_by_tlli_sapi env tlli llmes1 = Some i" "llme_algo (llmes1 ! i) = GPRS_ALGO_GEA0"
      "lle_params (the_lle llmes1 i (unat sapi)) = lle_params (the_lle llmes i (unat sapi))"
    using i b f k len by (auto simp: gprs_llc_tx_ui_def Let_def upd_lle_def the_lle_def upd_llme_tlli)
  have "drop 3 (take (length (with_fcs frame) - 3) (with_fcs frame)) = f" using fr by simp
  moreover have "wf_llmes llmes1" by (rule tx_ui_wf [OF w(3,2) tx])
  ultimately show "\<exists>l1 rc. llc_tx env tlli bvci nsei f sapi l = (l1, rc) \<and> 0 \<le> rc \<and>
      llc_payloads l1 = llc_payloads l @ [f] \<and> llc_ready env tlli l1 sapi n"
    using w k1 i(3) by (simp add: llc_tx_def l tx llc_payloads_def llc_ready_def)
qed

section \<open>Reassembly of all segments\<close>

lemma nib_mask: "bit (0xf :: nat) k \<longleftrightarrow> k < 4" "bit (0xf :: int) k \<longleftrightarrow> k < 4"
  using bit_mask_iff [of 4 k, where 'a = nat] bit_mask_iff [of 4 k, where 'a = int] by (auto simp: mask_numeral)

lemma u8_nibble: "x < 16 \<Longrightarrow> bit (x :: u8) j \<Longrightarrow> j < 4"
proof -
  assume "x < 16" "bit x j"
  then have "x AND mask 4 = x" by (intro less_mask_eq) simp
  with \<open>bit x j\<close> show "j < 4" by (metis bit_and_iff bit_mask_iff)
qed

lemma common_hdr_fields [simp]:
  "ns < 16 \<Longrightarrow> sch_nsapi (sndcp_common_hdr ns mr first) = ns"
  "sch_more (sndcp_common_hdr ns mr first) = mr" "sch_type (sndcp_common_hdr ns mr first)"
  "sch_first (sndcp_common_hdr ns mr first) = first"
proof -
  show "sch_more (sndcp_common_hdr ns mr first) = mr" "sch_type (sndcp_common_hdr ns mr first)"
    "sch_first (sndcp_common_hdr ns mr first) = first"
    by (auto simp: sch_more_def sch_type_def sch_first_def sndcp_common_hdr_def bit_or_iff bit_and_iff)
  assume ns: "ns < 16"
  have b: "\<not> bit ns 4" "\<not> bit ns 5" "\<not> bit ns 6" "\<not> bit ns 7" using u8_nibble [OF ns] by force+
  show "sch_nsapi (sndcp_common_hdr ns mr first) = ns"
    by (rule u8_eqI, erule less8_cases) (use b in \<open>simp_all add: sch_nsapi_def sndcp_common_hdr_def bit_or_iff bit_and_iff\<close>)
qed

lemma udata_seg_nr [simp]:
  assumes "seg < 16"
  shows "suh_seg_nr (sndcp_udata_hdr npdu seg ! 0) = seg"
  using u8_nibble [OF assms, of 4] u8_nibble [OF assms, of 5] u8_nibble [OF assms, of 6] u8_nibble [OF assms, of 7]
  by (intro u8_eqI, elim less8_cases)
     (auto simp: suh_seg_nr_def sndcp_udata_hdr_def bit_or_iff bit_and_iff bit_drop_bit_eq bit_push_bit_iff)

lemma bit_seg_needed: "n \<le> 32 \<Longrightarrow> bit (seg_needed n) i \<longleftrightarrow> i < n"
proof (induction n)
  case (Suc n)
  then show ?case by (auto simp: seg_needed_def bit_or_iff bit_exp_iff)
qed (simp add: seg_needed_def)

text \<open>The queue holds exactly the segments of \<open>S\<close>, once each, with their data \<open>D\<close>.\<close>

definition seg_of :: "defrag_queue_entry \<Rightarrow> nat" where "seg_of e = unat (dqe_seg_nr e)"

definition holds :: "(nat \<Rightarrow> u8 list) \<Rightarrow> nat set \<Rightarrow> defrag_queue_entry list \<Rightarrow> bool" where
  "holds D S fl \<longleftrightarrow> distinct (map seg_of fl) \<and> seg_of ` set fl = S \<and> (\<forall>e \<in> set fl. dqe_data e = D (seg_of e))"

lemma holds_Cons:
  "holds D S (a # fl) \<longleftrightarrow> seg_of a \<in> S \<and> dqe_data a = D (seg_of a) \<and> holds D (S - {seg_of a}) fl"
proof -
  have "x \<notin> A \<and> insert x A = S \<longleftrightarrow> x \<in> S \<and> A = S - {x}" for x :: nat and A by blast
  from this [of "seg_of a" "seg_of ` set fl"] show ?thesis
    unfolding holds_def list.map distinct.simps list.set image_insert set_map ball_simps by metis
qed

lemma holds_get_seg:
  "holds D S fl \<Longrightarrow> s \<in> S \<Longrightarrow> s < 2 ^ 32 \<Longrightarrow>
   \<exists>e fl1. defrag_get_seg (of_nat s) fl = Some (e, fl1) \<and> dqe_data e = D s \<and> holds D (S - {s}) fl1"
proof (induction fl arbitrary: S)
  case (Cons a fl)
  have eq: "dqe_seg_nr a = of_nat s \<longleftrightarrow> seg_of a = s"
    using Cons.prems(3) by (auto simp: seg_of_def unat_of_nat)
  have h: "holds D (S - {seg_of a}) fl" "dqe_data a = D (seg_of a)" "seg_of a \<in> S"
    using Cons.prems(1) by (simp_all add: holds_Cons)
  show ?case
  proof (cases "seg_of a = s")
    case True
    then show ?thesis using h eq by auto
  next
    case False
    then obtain e fl1 where e: "defrag_get_seg (of_nat s) fl = Some (e, fl1)" "dqe_data e = D s"
      "holds D (S - {seg_of a} - {s}) fl1" using Cons.IH [OF h(1)] Cons.prems by auto
    then have "holds D (S - {s}) (a # fl1)"
      using h(2,3) False by (simp add: holds_Cons Diff_insert [symmetric] insert_commute)
    then show ?thesis using e False eq by auto
  qed
qed (simp add: holds_def)

lemma append_segs_all:
  "holds D (set ss) fl \<Longrightarrow> distinct ss \<Longrightarrow> (\<forall>s \<in> set ss. s < 2 ^ 32) \<Longrightarrow>
   length npdu + length (concat (map D ss)) \<le> cap \<Longrightarrow>
   append_segs cap ss fl npdu = Some ([], Some (npdu @ concat (map D ss)))"
proof (induction ss arbitrary: fl npdu)
  case (Cons s ss)
  obtain e fl1 where e: "defrag_get_seg (of_nat s) fl = Some (e, fl1)" "dqe_data e = D s" "holds D (set (s # ss) - {s}) fl1"
    using holds_get_seg [OF Cons.prems(1), of s] Cons.prems(3) by auto
  have "set (s # ss) - {s} = set ss" using Cons.prems(2) by auto
  then have "append_segs cap ss fl1 (npdu @ D s) = Some ([], Some ((npdu @ D s) @ concat (map D ss)))"
    using Cons.prems e(3) by (intro Cons.IH) simp_all
  then show ?case using e Cons.prems(4) by simp
qed (simp add: holds_def)

text \<open>The reassembly state after the segments of \<open>S\<close> have arrived.\<close>

definition collected :: "(nat \<Rightarrow> u8 list) \<Rightarrow> nat set \<Rightarrow> defrag_state \<Rightarrow> bool" where
  "collected D S df \<longleftrightarrow> finite S \<and> holds D S (frag_list df) \<and> unat (highest_seg df) = Max (insert 0 S) \<and>
     (\<forall>i. bit (seg_have df) i \<longleftrightarrow> i \<in> S) \<and> unat (tot_len df) = (\<Sum>i \<in> S. length (D i))"

lemma enqueue_collected:
  assumes c: "collected D S df" and s: "s \<notin> S" "s < 16" and len: "(\<Sum>i \<in> insert s S. length (D i)) \<le> 65000"
  shows "\<exists>df1. defrag_enqueue (of_nat s) (D s @ post) (of_nat (length (D s))) df = Some (Inr df1) \<and>
    collected D (insert s S) df1 \<and> no_more df1 = no_more df"
proof -
  have fin: "finite S" using c by (simp add: collected_def)
  have sum: "(\<Sum>i \<in> insert s S. length (D i)) = length (D s) + (\<Sum>i \<in> S. length (D i))" using fin s by simp
  have l: "unat (of_nat (length (D s)) :: u32) = length (D s)" using len sum by (simp add: unat_of_nat)
  have k: "unat (of_nat s :: u8) = s" "unat (ucast (of_nat s :: u8) :: u32) = s"
    using s(2) by (simp_all add: unat_of_nat unsigned_ucast_eq take_bit_nat_eq_self)
  have t: "unat (tot_len df + of_nat (length (D s))) = (\<Sum>i \<in> insert s S. length (D i))"
    using c len sum l by (simp add: collected_def unat_word_ariths)
  have "Max (insert 0 (insert s S)) = max s (Max (insert 0 S))"
    unfolding insert_commute [of 0 s] using fin by (subst Max_insert) auto
  then have mx: "max s (unat (highest_seg df)) = Max (insert 0 (insert s S))" using c by (simp only: collected_def)
  have h: "unat (if of_nat s > highest_seg df then of_nat s else highest_seg df) = Max (insert 0 (insert s S))"
    unfolding mx [symmetric] word_less_nat_alt using k(1) by auto
  have b: "bit (seg_have df OR push_bit s 1) i \<longleftrightarrow> i \<in> insert s S" for i
  proof -
    have "bit (push_bit s 1 :: u32) i \<longleftrightarrow> i = s" using s(2) by (auto simp: bit_exp_iff)
    moreover have "bit (seg_have df) i \<longleftrightarrow> i \<in> S" using c by (simp only: collected_def)
    ultimately show ?thesis by (simp only: bit_or_iff insert_iff disj_commute)
  qed
  have "holds D (insert s S) (\<lparr>dqe_seg_nr = ucast (of_nat s :: u8), dqe_data = D s\<rparr> # frag_list df)"
    using c s(1) k(2) by (simp add: holds_Cons collected_def seg_of_def)
  then have "collected D (insert s S) (df\<lparr>frag_list := \<lparr>dqe_seg_nr = ucast (of_nat s :: u8), dqe_data = D s\<rparr> # frag_list df,
      highest_seg := (if of_nat s > highest_seg df then of_nat s else highest_seg df),
      seg_have := seg_have df OR push_bit s 1, tot_len := tot_len df + of_nat (length (D s))\<rparr>)"
    using fin h t b by (cases df) (simp only: collected_def defrag_state.select_convs defrag_state.update_convs finite_insert simp_thms)
  moreover have "length (D s) < talloc_max" using len sum by (simp add: talloc_max_def)
  ultimately show ?thesis by (simp add: defrag_enqueue_def l k(1) not_le)
qed


text \<open>With the last segment among them, the segments are complete when none is missing.\<close>

lemma complete_collected:
  assumes c: "collected D S df" and S: "S \<subseteq> {..<N}" "N \<le> 16" and m: "no_more df \<longleftrightarrow> N - 1 \<in> S" and N: "0 < N"
  shows "no_more df \<and> defrag_have_all_segments df \<longleftrightarrow> S = {..<N}"
proof (cases "N - 1 \<in> S")
  case True
  have fin: "finite S" using c by (simp add: collected_def)
  have "Max (insert 0 S) = N - 1" using fin True S(1) by (intro Max_eqI) auto
  then have h: "Suc (unat (highest_seg df)) = N" using c N by (simp add: collected_def)
  have n: "bit (seg_needed N) i \<longleftrightarrow> i < N" for i using S(2) by (simp add: bit_seg_needed)
  have s: "bit (seg_have df) i \<longleftrightarrow> i \<in> S" for i using c by (simp only: collected_def)
  have "seg_needed N = seg_have df \<longleftrightarrow> (\<forall>i. i < N \<longleftrightarrow> i \<in> S)"
    unfolding n [symmetric] s [symmetric] by (metis bit_word_eqI)
  then show ?thesis using True m h by (auto simp: defrag_have_all_segments_def)
next
  case False
  then show ?thesis using m N by auto
qed

lemma segments_collected:
  assumes c: "collected D {..<N} df" and N: "0 < N" "N \<le> 16" and len: "(\<Sum>i < N. length (D i)) \<le> 65000"
  shows "\<exists>df1. defrag_segments up_rc df = Some (df1, Some (concat (map D [0..<N])), up_rc)"
proof -
  have sum: "length (concat (map D [0..<N])) = (\<Sum>i < N. length (D i))"
    by (simp add: length_concat comp_def interv_sum_list_conv_sum_set_nat lessThan_atLeast0)
  have t: "unat (tot_len df) = (\<Sum>i < N. length (D i))" using c by (simp only: collected_def)
  have "tot_len df + 256 = of_nat (unat (tot_len df) + 256)" by simp
  then have "unat (tot_len df + 256) = unat (tot_len df) + 256" using t len by (simp only: unat_of_nat) simp
  then have cap: "unat (ucast (tot_len df + 256) :: u16) - 128 = unat (tot_len df) + 128"
    using t len by (simp add: unsigned_ucast_eq take_bit_eq_mod)
  have "Max (insert 0 {..<N}) = N - 1" using N by (intro Max_eqI) auto
  then have h: "Suc (unat (highest_seg df)) = N" using c N by (simp add: collected_def)
  have "holds D (set [0..<N]) (frag_list df)" using c by (simp add: collected_def lessThan_atLeast0)
  then have "append_segs (unat (tot_len df) + 128) [0..<N] (frag_list df) [] = Some ([], Some ([] @ concat (map D [0..<N])))"
    using N(2) t by (intro append_segs_all) (simp_all add: sum del: length_concat)
  then show ?thesis using t sum by (simp add: defrag_segments_def cap h del: length_concat)
qed


lemma small_seg:
  assumes "s < 15"
  shows "(of_nat s :: u8) mod 0xf = of_nat s" "(of_nat s :: u8) < 16" "(of_nat s :: u8) = 0 \<longleftrightarrow> s = 0"
proof -
  have u: "unat (of_nat s :: u8) = s" using assms by (simp add: unat_of_nat)
  show "(of_nat s :: u8) mod 0xf = of_nat s" using assms by (simp add: word_unat_eq_iff unat_mod u)
  show "(of_nat s :: u8) < 16" using assms by (simp add: word_less_nat_alt u)
  show "(of_nat s :: u8) = 0 \<longleftrightarrow> s = 0" unfolding word_unat_eq_iff u unat_0 by (rule refl)
qed

definition df_reset :: "u16 \<Rightarrow> defrag_state \<Rightarrow> defrag_state" where
  "df_reset npdu df = df\<lparr>frag_list := [], df_npdu := npdu, no_more := False, highest_seg := 0, seg_have := 0, tot_len := 0\<rparr>"

lemma defrag_input_frag:
  assumes "s < 15" and f_def: "f = sn_frag ns np (of_nat s) mr d"
  shows "defrag_input up_rc (f @ post) (of_nat (length f)) df =
    (case defrag_enqueue (of_nat s) (d @ post) (of_nat (length d))
            (if s = 0 then df_reset (suh_npdu (sndcp_udata_hdr np 0 ! 0) (sndcp_udata_hdr np 0 ! 1)) df else df) of
       None \<Rightarrow> None
     | Some (Inl rc) \<Rightarrow>
         Some (if s = 0 then df_reset (suh_npdu (sndcp_udata_hdr np 0 ! 0) (sndcp_udata_hdr np 0 ! 1)) df else df, None, rc)
     | Some (Inr df2) \<Rightarrow>
         (let df3 = (if mr then df2 else df2\<lparr>no_more := True\<rparr>)
          in if no_more df3 \<and> defrag_have_all_segments df3 then defrag_segments up_rc df3 else Some (df3, None, 0)))"
proof -
  note k = small_seg [OF assms(1)]
  have seg: "suh_seg_nr (sndcp_udata_hdr np (of_nat s) ! 0) = of_nat s" by (rule udata_seg_nr [OF k(2)])
  show ?thesis
  proof (cases "s = 0")
    case True
    then show ?thesis using seg
      by (simp add: f_def defrag_input_def sn_frag_def df_reset_def sndcp_udata_hdr_def Let_def split: option.splits sum.splits)
  next
    case False
    then show ?thesis using seg k
      by (simp add: f_def defrag_input_def sn_frag_def sndcp_udata_hdr_def Let_def split: option.splits sum.splits)
  qed
qed

lemma first_segment:
  assumes "length (D 0) \<le> 65000" "1 < N"
  shows "\<exists>df1. defrag_input up_rc (sn_frag ns np 0 True (D 0) @ post) (of_nat (length (sn_frag ns np 0 True (D 0)))) df =
      Some (df1, None, 0) \<and> collected D {0} df1 \<and> \<not> no_more df1"
proof -
  let ?r = "df_reset (suh_npdu (sndcp_udata_hdr np 0 ! 0) (sndcp_udata_hdr np 0 ! 1)) df"
  have "collected D {} ?r" by (simp add: collected_def df_reset_def holds_def)
  then obtain df1 where "defrag_enqueue (of_nat 0) (D 0 @ post) (of_nat (length (D 0))) ?r = Some (Inr df1)"
    "collected D {0} df1" "no_more df1 = no_more ?r" using enqueue_collected [of D "{}" ?r 0 post] assms by auto
  then show ?thesis using defrag_input_frag [of 0 _ ns np True "D 0" up_rc post df] by (simp add: df_reset_def)
qed

lemma next_segment:
  assumes c: "collected D S df" and S: "S \<subseteq> {..<N}" "N \<le> 15" and m: "no_more df \<longleftrightarrow> N - 1 \<in> S"
    and s: "0 < s" "s < N" "s \<notin> S" and len: "(\<Sum>i < N. length (D i)) \<le> 65000"
    and f_def: "f = sn_frag ns np (of_nat s) (Suc s < N) (D s)"
  shows "\<exists>df1. defrag_input up_rc (f @ post) (of_nat (length f)) df =
      (if insert s S = {..<N} then Some (df1, Some (concat (map D [0..<N])), up_rc) else Some (df1, None, 0)) \<and>
    (insert s S \<noteq> {..<N} \<longrightarrow> collected D (insert s S) df1 \<and> (no_more df1 \<longleftrightarrow> N - 1 \<in> insert s S))"
proof -
  have sub: "insert s S \<subseteq> {..<N}" using S s by auto
  have "(\<Sum>i \<in> insert s S. length (D i)) \<le> (\<Sum>i < N. length (D i))" by (rule sum_mono2 [OF _ sub]) auto
  then obtain df2 where e: "defrag_enqueue (of_nat s) (D s @ post) (of_nat (length (D s))) df = Some (Inr df2)"
    and c2: "collected D (insert s S) df2" and m2: "no_more df2 = no_more df"
    using enqueue_collected [OF c s(3), of post] S s len by auto
  let ?df3 = "if Suc s < N then df2 else df2\<lparr>no_more := True\<rparr>"
  have c3: "collected D (insert s S) ?df3" using c2 by (simp add: collected_def)
  have m3: "no_more ?df3 \<longleftrightarrow> N - 1 \<in> insert s S" using m m2 s by auto
  have "no_more ?df3 \<and> defrag_have_all_segments ?df3 \<longleftrightarrow> insert s S = {..<N}"
    by (rule complete_collected [OF c3 sub _ m3]) (use S s in auto)
  then have "defrag_input up_rc (f @ post) (of_nat (length f)) df =
      (if insert s S = {..<N} then defrag_segments up_rc ?df3 else Some (?df3, None, 0))"
    using s S(2) by (subst defrag_input_frag [OF _ f_def]) (simp_all add: e Let_def)
  moreover have "insert s S = {..<N} \<Longrightarrow> \<exists>df1. defrag_segments up_rc ?df3 = Some (df1, Some (concat (map D [0..<N])), up_rc)"
    using segments_collected [of D N ?df3 up_rc] c3 len S s by simp
  ultimately show ?thesis using c3 m3 by (cases "insert s S = {..<N}") auto
qed

section \<open>Reception at the entity\<close>

lemma entity_kept:
  assumes "gprs_sndcp_entity_by_lle lle ns ents = Some i" "sne_lle sne = sne_lle (ents ! i)" "sne_nsapi sne = sne_nsapi (ents ! i)"
  shows "gprs_sndcp_entity_by_lle lle ns (ents[i := sne]) = Some i"
  using assms unfolding gprs_sndcp_entity_by_lle_def find_idx_Some_iff by (auto simp: nth_list_update)

lemma entity_key:
  assumes "gprs_sndcp_entity_by_lle lle ns ents = Some i"
  shows "i < length ents" "sne_lle (ents ! i) = lle" "sne_nsapi (ents ! i) = ns"
  using assms by (auto simp: gprs_sndcp_entity_by_lle_def find_idx_Some_iff)

lemma len_u16:
  assumes "n < 65536"
  shows "unat (of_nat n :: u16) = n" "ucast (of_nat n :: u16) = (of_nat n :: u32)"
proof -
  show n: "unat (of_nat n :: u16) = n" using assms by (simp add: unat_of_nat)
  show "ucast (of_nat n :: u16) = (of_nat n :: u32)" using assms by (simp add: unsigned_of_nat take_bit_nat_eq_self)
qed

lemma ind_segment:
  assumes e: "gprs_sndcp_entity_by_lle lle ns ents = Some i" and ns: "ns < 16"
    and f: "f = sn_frag ns np k mr d" "k \<noteq> 0 \<or> mr" "length f < 65536"
    and d: "defrag_input up_rc (f @ post) (of_nat (length f)) (sne_defrag (ents ! i)) = Some (df1, npdu, rc)"
  shows "\<exists>ents1. sndcp_llunitdata_ind parse up_rc bcid lle tlli (f @ post) (of_nat (length f)) ents =
      Some (ents1, (case npdu of None \<Rightarrow> []
                    | Some x \<Rightarrow> [Sgsn_rx_sndcp_ud_ind (parse bcid (sne_ra_id (ents ! i))) tlli ns x]), rc) \<and>
    gprs_sndcp_entity_by_lle lle ns ents1 = Some i \<and> sne_defrag (ents1 ! i) = df1 \<and>
    sne_ra_id (ents1 ! i) = parse bcid (sne_ra_id (ents ! i))"
proof -
  have h: "(f @ post) ! 0 = sndcp_common_hdr ns mr (k = 0)" "f \<noteq> []" by (simp_all add: f(1) sn_frag_def)
  have "3 \<le> length f" using length_sn_frag [of ns np k mr d] f(1) by (auto split: if_splits)
  then have l: "\<not> (of_nat (length f) :: u16) < 3" by (simp add: word_less_nat_alt len_u16(1) [OF f(3)])
  note l2 = len_u16(2) [OF f(3)]
  let ?sne = "(ents ! i)\<lparr>sne_ra_id := parse bcid (sne_ra_id (ents ! i)), sne_defrag := df1\<rparr>"
  have "gprs_sndcp_entity_by_lle lle ns (ents[i := ?sne]) = Some i" by (rule entity_kept [OF e]) simp_all
  then show ?thesis using entity_key [OF e] f(2) ns
    by (auto simp: sndcp_llunitdata_ind_def h l l2 e d Let_def split: option.splits)
qed


text \<open>
  Several SN-PDUs one after the other; \<open>fcs\<close> gives the octets that follow each of them in its message.
\<close>

primrec sndcp_rx_all ::
    "(u8 list \<Rightarrow> gprs_ra_id \<Rightarrow> gprs_ra_id) \<Rightarrow> int \<Rightarrow> u8 list \<Rightarrow> nat \<Rightarrow> u32 \<Rightarrow> (u8 list \<Rightarrow> u8 list) \<Rightarrow> u8 list list \<Rightarrow>
     gprs_sndcp_entity list \<Rightarrow> (gprs_sndcp_entity list \<times> sndcp_event list) option" where
  "sndcp_rx_all parse up_rc bcid lle tlli fcs [] ents = Some (ents, [])"
| "sndcp_rx_all parse up_rc bcid lle tlli fcs (p # ps) ents =
     (case sndcp_llunitdata_ind parse up_rc bcid lle tlli (p @ fcs p) (of_nat (length p)) ents of
        None \<Rightarrow> None
      | Some (ents1, ev, rc) \<Rightarrow>
          map_option (\<lambda>(e, evs). (e, ev @ evs)) (sndcp_rx_all parse up_rc bcid lle tlli fcs ps ents1))"

lemma seg_short:
  fixes D :: "nat \<Rightarrow> u8 list"
  assumes "(\<Sum>i < N. length (D i)) \<le> 65000" "s < N"
  shows "length (D s) \<le> 65000" "length (sn_frag ns np k mr (D s)) < 65536"
proof -
  have "length (D s) \<le> (\<Sum>i < N. length (D i))" using assms(2) by (intro member_le_sum [of s "{..<N}" "\<lambda>i. length (D i)"]) auto
  then show "length (D s) \<le> 65000" using assms(1) by simp
  then show "length (sn_frag ns np k mr (D s)) < 65536" by (simp add: length_sn_frag)
qed

lemma rx_rest:
  assumes "gprs_sndcp_entity_by_lle lle ns ents = Some i" "ns < 16" "collected D S (sne_defrag (ents ! i))"
    and "no_more (sne_defrag (ents ! i)) \<longleftrightarrow> N - 1 \<in> S" "0 \<in> S" "S \<subset> {..<N}" "N \<le> 15"
    and "(\<Sum>i < N. length (D i)) \<le> 65000" "distinct ss" "set ss = {..<N} - S"
  shows "\<exists>ents1 ra. sndcp_rx_all parse up_rc bcid lle tlli fcs
      (map (\<lambda>s. sn_frag ns np (of_nat s) (Suc s < N) (D s)) ss) ents =
    Some (ents1, [Sgsn_rx_sndcp_ud_ind ra tlli ns (concat (map D [0..<N]))])"
  using assms
proof (induction ss arbitrary: S ents)
  case (Cons s ss)
  let ?f = "sn_frag ns np (of_nat s) (Suc s < N) (D s)"
  have s: "0 < s" "s < N" "s \<notin> S" using Cons.prems(5,10) by (auto intro: gr0I)
  obtain df1 where d: "defrag_input up_rc (?f @ fcs ?f) (of_nat (length ?f)) (sne_defrag (ents ! i)) =
      (if insert s S = {..<N} then Some (df1, Some (concat (map D [0..<N])), up_rc) else Some (df1, None, 0))"
    and c: "insert s S \<noteq> {..<N} \<longrightarrow> collected D (insert s S) df1 \<and> (no_more df1 \<longleftrightarrow> N - 1 \<in> insert s S)"
    using next_segment [where D = D, OF Cons.prems(3) psubset_imp_subset [OF Cons.prems(6)] Cons.prems(7,4) s Cons.prems(8) refl] by blast
  have k: "(of_nat s :: u8) \<noteq> 0 \<or> Suc s < N" using small_seg(3) [of s] s Cons.prems(7) by auto
  note ind = ind_segment [OF Cons.prems(1,2) refl k seg_short(2) [OF Cons.prems(8) s(2)],
      where parse = parse and bcid = bcid and tlli = tlli and up_rc = up_rc and post = "fcs ?f"]
  show ?case
  proof (cases "insert s S = {..<N}")
    case True
    then have "set (s # ss) \<subseteq> {s}" unfolding Cons.prems(10) by blast
    then have "ss = []" using Cons.prems(9) by (cases ss) auto
    then show ?thesis using ind [where np = np and rc = up_rc and npdu = "Some (concat (map D [0..<N]))" and ?df1.0 = df1] d True by auto
  next
    case False
    then obtain ents1 where e1: "sndcp_llunitdata_ind parse up_rc bcid lle tlli (?f @ fcs ?f) (of_nat (length ?f)) ents = Some (ents1, [], 0)"
      "gprs_sndcp_entity_by_lle lle ns ents1 = Some i" "sne_defrag (ents1 ! i) = df1"
      using ind [where np = np and rc = 0 and npdu = None and ?df1.0 = df1] d by auto
    have "\<exists>ents2 ra. sndcp_rx_all parse up_rc bcid lle tlli fcs
        (map (\<lambda>s. sn_frag ns np (of_nat s) (Suc s < N) (D s)) ss) ents1 =
      Some (ents2, [Sgsn_rx_sndcp_ud_ind ra tlli ns (concat (map D [0..<N]))])"
      by (rule Cons.IH [OF e1(2) Cons.prems(2), where S = "insert s S", OF _ _ _ _ Cons.prems(7,8)])
         (use e1(3) c False Cons.prems(5,6,9,10) s in auto)
    then show ?thesis using e1(1) by auto
  qed
qed auto

lemma rx_frags:
  assumes "gprs_sndcp_entity_by_lle lle ns ents = Some i" "ns < 16" "1 < N" "N \<le> 15"
    and "(\<Sum>i < N. length (D i)) \<le> 65000" "mset ss = mset [1..<N]"
  shows "\<exists>ents1 ra. sndcp_rx_all parse up_rc bcid lle tlli fcs
      (map (\<lambda>s. sn_frag ns np (of_nat s) (Suc s < N) (D s)) (0 # ss)) ents =
    Some (ents1, [Sgsn_rx_sndcp_ud_ind ra tlli ns (concat (map D [0..<N]))])"
proof -
  let ?f = "sn_frag ns np 0 True (D 0)"
  have short: "length (D 0) \<le> 65000" "length ?f < 65536" using seg_short [OF assms(5), of 0] assms(3) by auto
  obtain df1 where d: "defrag_input up_rc (?f @ fcs ?f) (of_nat (length ?f)) (sne_defrag (ents ! i)) = Some (df1, None, 0)"
    and c: "collected D {0} df1" "\<not> no_more df1" using first_segment [where D = D, OF short(1) assms(3)] by blast
  obtain ents1 where e1: "sndcp_llunitdata_ind parse up_rc bcid lle tlli (?f @ fcs ?f) (of_nat (length ?f)) ents = Some (ents1, [], 0)"
    "gprs_sndcp_entity_by_lle lle ns ents1 = Some i" "sne_defrag (ents1 ! i) = df1"
    using ind_segment [OF assms(1,2) refl _ short(2) d, where parse = parse and bcid = bcid and tlli = tlli] by auto
  have ss: "distinct ss" "set ss = {..<N} - {0}"
    using mset_eq_imp_distinct_iff [OF assms(6)] mset_eq_setD [OF assms(6)] by auto
  have "\<exists>ents2 ra. sndcp_rx_all parse up_rc bcid lle tlli fcs
      (map (\<lambda>s. sn_frag ns np (of_nat s) (Suc s < N) (D s)) ss) ents1 =
    Some (ents2, [Sgsn_rx_sndcp_ud_ind ra tlli ns (concat (map D [0..<N]))])"
    by (rule rx_rest [OF e1(2) assms(2), where S = "{0}", OF _ _ _ _ assms(4,5) ss]) (use e1(3) c assms(3) in auto)
  then show ?thesis using e1(1) assms(3) by auto
qed

section \<open>The fragments of a message\<close>

lemma sn_frags_chunks:
  "4 \<le> n \<Longrightarrow> \<exists>ds. sn_frags n ns np k d =
       map (\<lambda>s. sn_frag ns np (k + of_nat s) (Suc s < length ds) (ds ! s)) [0..<length ds] \<and> concat ds = d \<and> ds \<noteq> []"
proof (induction n ns np k d rule: sn_frags.induct)
  case (1 n ns np k d)
  show ?case
  proof (cases "length d \<le> frag_room n k")
    case True
    then show ?thesis using 1(2) by (intro exI [of _ "[d]"]) (simp add: sn_frags.simps)
  next
    case False
    then obtain ds where ds: "sn_frags n ns np (k + 1) (drop (frag_room n k) d) =
        map (\<lambda>s. sn_frag ns np (k + 1 + of_nat s) (Suc s < length ds) (ds ! s)) [0..<length ds]"
      "concat ds = drop (frag_room n k) d" "ds \<noteq> []" using 1 by auto
    then show ?thesis using False 1(2)
      by (intro exI [of _ "take (frag_room n k) d # ds"])
         (subst sn_frags.simps, simp add: map_upt_Suc ac_simps del: upt_Suc)
  qed
qed

lemma sn_frags_number:
  "4 \<le> n \<Longrightarrow> unat k + j < 256 \<Longrightarrow> length d \<le> frag_room n k + j * (n - 3) \<Longrightarrow> length (sn_frags n ns np k d) \<le> Suc j"
proof (induction n ns np k d arbitrary: j rule: sn_frags.induct)
  case (1 n ns np k d)
  show ?case
  proof (cases "length d \<le> frag_room n k")
    case True
    then show ?thesis using 1(2) by (simp add: sn_frags.simps)
  next
    case False
    then obtain j' where j: "j = Suc j'" using 1(4) by (cases j) auto
    then have k: "unat (k + 1) = unat k + 1" using 1(3) by (simp add: unat_word_ariths)
    then have "frag_room n (k + 1) = n - 3" unfolding frag_room_def word_unat_eq_iff by simp
    then have "length (sn_frags n ns np (k + 1) (drop (frag_room n k) d)) \<le> Suc j'"
      using 1(1) [of j'] 1(2-4) False k j by simp
    then show ?thesis using False 1(2) j by (subst sn_frags.simps) simp
  qed
qed

lemma mset_map_ex: "mset ys = mset (map f xs) \<Longrightarrow> \<exists>zs. ys = map f zs \<and> mset zs = mset xs"
proof (induction ys arbitrary: xs)
  case (Cons y ys)
  then have "y \<in> set (map f xs)" by (metis list.set_intros(1) mset_eq_setD)
  then obtain x where x: "x \<in> set xs" "y = f x" by auto
  then have m: "mset xs = add_mset x (mset (remove1 x xs))" by simp
  have "add_mset y (mset ys) = image_mset f (add_mset x (mset (remove1 x xs)))"
    using Cons.prems by (simp only: m [symmetric] mset_map mset.simps)
  then have "mset ys = mset (map f (remove1 x xs))" by (simp only: x image_mset_add_mset add_mset_add_mset_same_iff mset_map)
  then obtain zs where "ys = map f zs" "mset zs = mset (remove1 x xs)" using Cons.IH by blast
  then show ?case using x m by (intro exI [of _ "x # zs"]) (simp only: list.map mset.simps simp_thms)
qed simp

lemma fragmenting_iff:
  assumes "length msg < 65536"
  shows "(of_nat (length msg) :: u64) > ucast (w :: u16) - 4 \<longleftrightarrow> 4 \<le> unat w \<and> unat w - 4 < length msg"
proof -
  have l: "unat (of_nat (length msg) :: u64) = length msg" using assms by (simp add: unat_of_nat)
  have u: "unat (ucast w :: u64) = unat w" "unat w < 65536"
    using unsigned_less [of w, where 'a = nat] by (simp_all add: unsigned_ucast_eq take_bit_nat_eq_self)
  show ?thesis
  proof (cases "4 \<le> unat w")
    case True
    then have "unat ((ucast w :: u64) - 4) = unat w - 4" by (subst unat_sub) (simp_all add: word_le_nat_alt u)
    then show ?thesis using True by (simp add: word_less_nat_alt l)
  next
    case False
    then have "unat w \<in> {0, 1, 2, 3}" by auto
    then have "w \<in> {0, 1, 2, 3}" by (auto simp: word_unat_eq_iff)
    then have "(ucast w :: u64) - 4 \<in> {-4, -3, -2, -1}" by auto
    then have "2 ^ 32 \<le> unat ((ucast w :: u64) - 4)" by (auto simp: unsigned_minus_1_eq_mask mask_eq_exp_minus_1)
    then show ?thesis using False assms by (simp add: word_less_nat_alt l)
  qed
qed


section \<open>A sample connection\<close>

definition sample_ents :: "gprs_sndcp_entity list" where
  "sample_ents = fst (sndcp_sm_activate_ind 0x1000 5 [])"

lemma sample_ents_found: "gprs_sndcp_entity_by_lle 0x1000 5 sample_ents = Some 0"
  by code_simp

lemma sample_ready: "llc_ready sample_llc 0xc0000001 (sample_llmes, []) 3 500"
  using llc_reachable_wf_llmes [OF sample_llmes_reachable] sample_llc_facts
  by (simp add: llc_ready_def) (simp add: sample_llc_def)

lemma sample_lle: "n201_u (lle_params (the_lle sample_llmes 0 3)) = 500" "lle_sapi (the_lle sample_llmes 0 3) = 3"
  by code_simp+

section \<open>Properties\<close>

text \<open>C36: The request to send an N-PDU returns for every message, every maximum length of the layer below and every behaviour of that layer: the loop over the fragments ends, although the fragment number wraps around and the first fragment may carry no data at all.\<close>

theorem sndcp_unitdata_req_returns:
  assumes "length msg < 65536"
  shows "\<exists>ents1 l1 rc. sndcp_unitdata_req tx room msg p lle nsapi ents l = Some (ents1, l1, rc)"
proof (cases "gprs_sndcp_entity_by_lle p nsapi ents")
  case (Some i)
  show ?thesis
  proof (cases "(of_nat (length msg) :: u64) > ucast (n201_u (lle_params lle)) - 4")
    case True
    then have "4 \<le> unat (n201_u (lle_params lle))" using fragmenting_iff [OF assms] by blast
    from frag_loop_returns [OF le0 assms refl this, of tx "ents ! i" 0 l]
    obtain r where "sndcp_frag_loop tx lle msg (ents ! i) (0, 0) l = Some r" ..
    then show ?thesis using True Some by (cases r) (simp add: sndcp_unitdata_req_def)
  next
    case False
    then show ?thesis using Some by (simp add: sndcp_unitdata_req_def Let_def split: prod.splits)
  qed
qed (simp add: sndcp_unitdata_req_def)

theorem sndcp_unitdata_req_returns_witness:
  "\<exists>ents1 l1 rc. sndcp_unitdata_req (llc_tx sample_llc 0xc0000001 1 2) 0 (replicate 1500 7) 0x1000
     (the_lle sample_llmes 0 3) 5 sample_ents (sample_llmes, []) = Some (ents1, l1, rc)"
  by (rule sndcp_unitdata_req_returns) simp

text \<open>C32: An N-PDU that needs two to fifteen SN-PDUs is sent completely over the LLC layer, none of them longer than the layer takes. A receiver in any state that gets the first of them and then the others in any order, each with its frame check sequence behind it, hands over exactly one N-PDU, the one that was sent.\<close>

theorem sndcp_fragment_roundtrip:
  assumes "gprs_sndcp_entity_by_lle p nsapi ents = Some i" "nsapi < 16"
    and "llc_ready env tlli l (ucast (lle_sapi lle)) n" "n = unat (n201_u (lle_params lle))" "4 \<le> n"
    and "n - 4 < length msg" "length msg \<le> (n - 4) + 14 * (n - 3)" "length msg \<le> 65000"
    and "gprs_sndcp_entity_by_lle p' nsapi ents' = Some i'"
  shows "\<exists>ents1 l1 frags.
    sndcp_unitdata_req (llc_tx env tlli bvci nsei) room msg p lle nsapi ents l = Some (ents1, l1, 0) \<and>
    llc_payloads l1 = llc_payloads l @ frags \<and> (\<forall>f \<in> set frags. length f \<le> n) \<and>
    (\<forall>rest. mset rest = mset (tl frags) \<longrightarrow>
       (\<exists>ents2 ra. sndcp_rx_all parse up_rc bcid p' tlli' fcs (hd frags # rest) ents' =
          Some (ents2, [Sgsn_rx_sndcp_ud_ind ra tlli' nsapi msg])))"
proof -
  let ?np = "tx_npdu_nr (ents ! i)"
  let ?frags = "sn_frags n nsapi ?np 0 msg"
  have msg: "length msg < 65536" using assms(8) by simp
  have big: "(of_nat (length msg) :: u64) > ucast (n201_u (lle_params lle)) - 4"
    using fragmenting_iff [OF msg] assms(4-6) by blast
  obtain l1 where l1: "sndcp_frag_loop (llc_tx env tlli bvci nsei) lle msg (ents ! i) (0, 0) l =
      Some ((ents ! i)\<lparr>tx_npdu_nr := (?np + 1) mod 0xfff\<rparr>, l1, 0)" "llc_payloads l1 = llc_payloads l @ ?frags"
    using llc_service.frag_loop_sends [OF assms(3) le0 msg assms(4,5)] entity_key(3) [OF assms(1)] by fastforce
  obtain ds where ds: "?frags = map (\<lambda>s. sn_frag nsapi ?np (0 + of_nat s) (Suc s < length ds) (ds ! s)) [0..<length ds]"
    "concat ds = msg" using sn_frags_chunks [OF assms(5)] by blast
  let ?N = "length ds" and ?F = "\<lambda>s. sn_frag nsapi ?np (of_nat s) (Suc s < length ds) (ds ! s)"
  have N: "?N \<le> 15" using sn_frags_number [OF assms(5), of 0 14 msg nsapi ?np] assms(7) ds(1) by (simp add: frag_room_def)
  have "length ?frags > 1" using assms(5,6) by (subst sn_frags.simps, subst sn_frags.simps) (simp add: frag_room_def)
  then have N1: "1 < ?N" using ds(1) by simp
  have upt: "[0..<?N] = 0 # [1..<?N]" using N1 by (auto simp: upt_rec)
  have D: "concat (map ((!) ds) [0..<?N]) = msg" by (simp add: map_nth ds(2))
  have "(\<Sum>i < ?N. length (ds ! i)) = length (concat ds)"
    by (simp add: length_concat sum_list_sum_nth lessThan_atLeast0)
  then have len: "(\<Sum>i < ?N. length (ds ! i)) \<le> 65000" using assms(8) ds(2) by simp
  have "\<exists>ents2 ra. sndcp_rx_all parse up_rc bcid p' tlli' fcs (hd ?frags # rest) ents' =
      Some (ents2, [Sgsn_rx_sndcp_ud_ind ra tlli' nsapi msg])" if r: "mset rest = mset (tl ?frags)" for rest
  proof -
    have "mset rest = mset (map ?F [1..<?N])" using r unfolding ds(1) upt by simp
    then obtain ss where ss: "rest = map ?F ss" "mset ss = mset [1..<?N]" using mset_map_ex by blast
    have "hd ?frags # rest = map ?F (0 # ss)" unfolding ds(1) upt ss(1) by simp
    then show ?thesis using rx_frags [OF assms(9,2) N1 N len ss(2)] unfolding D by simp
  qed
  then show ?thesis using l1 big assms(1) sn_frags_fit
    by (intro exI [of _ "ents[i := (ents ! i)\<lparr>tx_npdu_nr := (?np + 1) mod 0xfff\<rparr>]"] exI [of _ l1] exI [of _ ?frags])
       (auto simp: sndcp_unitdata_req_def)
qed

theorem sndcp_fragment_roundtrip_witness:
  "\<exists>ents1 l1 frags. sndcp_unitdata_req (llc_tx sample_llc 0xc0000001 1 2) 0 (replicate 1500 7) 0x1000
       (the_lle sample_llmes 0 3) 5 sample_ents (sample_llmes, []) = Some (ents1, l1, 0) \<and>
     (\<exists>ents2 ra. sndcp_rx_all (\<lambda>_ ra. ra) 0 [] 0x1000 0xc0000001 (\<lambda>_. [1, 2, 3]) frags sample_ents =
        Some (ents2, [Sgsn_rx_sndcp_ud_ind ra 0xc0000001 5 (replicate 1500 7)]))"
proof -
  have "llc_ready sample_llc 0xc0000001 (sample_llmes, []) (ucast (lle_sapi (the_lle sample_llmes 0 3))) 500"
    using sample_ready sample_lle by simp
  from sndcp_fragment_roundtrip [OF sample_ents_found _ this _ _ _ _ _ sample_ents_found, where msg = "replicate 1500 7" and
      bvci = 1 and nsei = 2 and room = 0 and parse = "\<lambda>_ ra. ra" and up_rc = 0 and bcid = "[]" and tlli' = "0xc0000001" and
      fcs = "\<lambda>_. [1, 2, 3]"]
  obtain ents1 l1 frags where f: "sndcp_unitdata_req (llc_tx sample_llc 0xc0000001 1 2) 0 (replicate 1500 7) 0x1000
       (the_lle sample_llmes 0 3) 5 sample_ents (sample_llmes, []) = Some (ents1, l1, 0)"
    "\<forall>rest. mset rest = mset (tl frags) \<longrightarrow>
       (\<exists>ents2 ra. sndcp_rx_all (\<lambda>_ ra. ra) 0 [] 0x1000 0xc0000001 (\<lambda>_. [1, 2, 3]) (hd frags # rest) sample_ents =
          Some (ents2, [Sgsn_rx_sndcp_ud_ind ra 0xc0000001 5 (replicate 1500 7)]))"
    by (auto simp: sample_lle)
  from f(2) [rule_format, OF refl] f(1) show ?thesis by blast
qed

text \<open>An N-PDU that arrives in a single SN-PDU is handed over with the three octets of the LLC frame check sequence behind it, because its length is taken from the end of the message and not from the length the LLC layer found.\<close>

theorem unsegmented_npdu_carries_fcs:
  assumes "gprs_sndcp_entity_by_lle lle nsapi ents = Some i" "nsapi < 16" "length msg \<le> 65000"
    and pdu_def: "pdu = sn_frag nsapi npdu 0 False msg"
  shows "\<exists>ents1 ra. sndcp_llunitdata_ind parse up_rc bcid lle tlli (drop 3 (with_fcs ([addr, ctrl0, ctrl1] @ pdu)))
      (of_nat (length pdu)) ents =
    Some (ents1, [Sgsn_rx_sndcp_ud_ind ra tlli nsapi (msg @ fcs_octets (gprs_llc_fcs ([addr, ctrl0, ctrl1] @ pdu)))], up_rc)"
proof -
  let ?fcs = "fcs_octets (gprs_llc_fcs ([addr, ctrl0, ctrl1] @ pdu))"
  have h: "drop 3 (with_fcs ([addr, ctrl0, ctrl1] @ pdu)) =
      [sndcp_common_hdr nsapi False True, 0] @ sndcp_udata_hdr npdu 0 @ msg @ ?fcs"
    by (simp add: with_fcs_def pdu_def sn_frag_def)
  have "length pdu < 65536" "4 \<le> length pdu" using assms(3) by (simp_all add: pdu_def length_sn_frag)
  then have l: "\<not> (of_nat (length pdu) :: u16) < 3" by (simp add: word_less_nat_alt len_u16(1))
  have f: "length ?fcs = 3" by (simp add: fcs_octets_def)
  show ?thesis unfolding h using l assms(2) entity_key(3) [OF assms(1)] f
    by (simp add: sndcp_llunitdata_ind_def assms(1) Let_def sndcp_udata_hdr_def)
qed

theorem unsegmented_npdu_carries_fcs_witness:
  "\<exists>ents1 ra fcs. sndcp_llunitdata_ind (\<lambda>_ ra. ra) 0 [] 0x1000 0xc0000001
      (drop 3 (with_fcs ([0x43, 0xc0, 0x01] @ sn_frag 5 0 0 False [1, 2]))) 6 sample_ents =
    Some (ents1, [Sgsn_rx_sndcp_ud_ind ra 0xc0000001 5 ([1, 2] @ fcs)], 0) \<and> length fcs = 3"
  using unsegmented_npdu_carries_fcs [OF sample_ents_found _ _ refl, where msg = "[1, 2]" and npdu = 0 and parse = "\<lambda>_ ra. ra" and
      up_rc = 0 and bcid = "[]" and tlli = "0xc0000001" and addr = "0x43" and ?ctrl0.0 = "0xc0" and ?ctrl1.0 = "0x01"]
  by (auto simp: length_sn_frag fcs_octets_def)

end
