(* ===== verification/Paging.thy ===== *)
theory Paging
  imports Gsm_04_08_Utils Chan_Alloc
begin

text \<open>
  The paging of subscribers by the BSC (\<^verbatim>\<open>src/libbsc/paging.c\<close>) with \<^verbatim>\<open>gsm_bts_by_lac\<close> of
  \<^verbatim>\<open>src/libcommon/gsm_data.c\<close>. Each BTS has a queue of requests, a work timer that sends one paging
  command at a time, a number of slots the BTS reported to be free, and a credit timer that refills
  them when no report comes. Subscribers, callbacks and their parameters are addresses, numbers. A
  timer is the fact that it is running; the timer T3113 of a request runs as long as the request is in
  the queue. Paging commands and calls of callbacks are events; a callback does not call back into
  this code. The encoding of identities and the paging group are library functions and fields of
  \<open>pag_env\<close>. \<open>None\<close> is a channel load with a time slot of unknown configuration.
\<close>

section \<open>State\<close>

record gsm_paging_request =
  pr_subscr :: nat
  pr_chan_type :: int
  pr_attempts :: int
  pr_cbfn :: "nat option"
  pr_cbfn_param :: nat

record gsm_bts_paging_state =
  pg_bts_set :: bool
  pending_requests :: "gsm_paging_request list"
  work_timer :: bool
  credit_timer :: bool
  available_slots :: u16

text \<open>A BTS with its location area and its paging state; \<open>bts_paging_free_chans_need\<close> is a field of \<open>gsm_bts\<close>.\<close>

record pag_bts =
  pb_bts :: gsm_bts
  pb_lac :: u16
  pb_paging :: gsm_bts_paging_state

record pag_subscr =
  ps_imsi :: string
  ps_tmsi :: u32
  ps_lac :: u16

datatype gsm_paging_event = GSM_PAGING_SUCCEEDED | GSM_PAGING_EXPIRED | GSM_PAGING_OOM | GSM_PAGING_BUSY

text \<open>\<open>Gsm0808_page\<close> has the position of the BTS, the paging group, the identity and the channel type.\<close>

datatype pag_event =
    Gsm0808_page nat nat "u8 list" int
  | Paging_cbfn nat gsm_paging_event "nat option" nat

record pag_env =
  pe_subscr :: "nat \<Rightarrow> pag_subscr"
  pe_mid_from_imsi :: "string \<Rightarrow> u8 list"
  pe_mid_from_tmsi :: "u32 \<Rightarrow> u8 list"
  pe_paging_group :: "nat \<Rightarrow> string \<Rightarrow> nat"
  pe_net :: gsm_network

abbreviation (input) GSM_RESERVED_TMSI :: u32 where "GSM_RESERVED_TMSI \<equiv> 0xffffffff"
abbreviation (input) GSM_LAC_RESERVED_ALL_BTS :: u16 where "GSM_LAC_RESERVED_ALL_BTS \<equiv> 0xfffe"
abbreviation (input) RSL_CHANNEED_SDCCH :: int where "RSL_CHANNEED_SDCCH \<equiv> 1"
abbreviation (input) RSL_CHANNEED_TCH_F :: int where "RSL_CHANNEED_TCH_F \<equiv> 2"
abbreviation (input) RSL_CHANNEED_TCH_ForH :: int where "RSL_CHANNEED_TCH_ForH \<equiv> 3"

definition upd_paging :: "(gsm_bts_paging_state \<Rightarrow> gsm_bts_paging_state) \<Rightarrow> pag_bts \<Rightarrow> pag_bts" where
  "upd_paging f b = b\<lparr>pb_paging := f (pb_paging b)\<rparr>"

section \<open>Sending\<close>

text \<open>Removes the request at a position of the queue.\<close>

definition paging_remove_request :: "nat \<Rightarrow> gsm_bts_paging_state \<Rightarrow> gsm_bts_paging_state" where
  "paging_remove_request j pg =
     pg\<lparr>pending_requests := take j (pending_requests pg) @ drop (Suc j) (pending_requests pg)\<rparr>"

definition page_ms :: "pag_env \<Rightarrow> nat \<Rightarrow> gsm_paging_request \<Rightarrow> pag_event" where
  "page_ms env i request =
     (let subscr = pe_subscr env (pr_subscr request);
          mi = (if ps_tmsi subscr = GSM_RESERVED_TMSI then pe_mid_from_imsi env (ps_imsi subscr)
                else pe_mid_from_tmsi env (ps_tmsi subscr))
      in Gsm0808_page i (pe_paging_group env i (ps_imsi subscr)) mi (pr_chan_type request))"

definition paging_schedule_if_needed :: "gsm_bts_paging_state \<Rightarrow> gsm_bts_paging_state" where
  "paging_schedule_if_needed pg = (if pending_requests pg = [] then pg else pg\<lparr>work_timer := True\<rparr>)"

definition load_free :: "pchan_load \<Rightarrow> gsm_phys_chan_config \<Rightarrow> int" where
  "load_free pl pchan = int (total (pl pchan)) - int (used (pl pchan))"

text \<open>The result is true when a request must wait for free channels.\<close>

definition can_send_pag_req :: "gsm_network \<Rightarrow> gsm_bts \<Rightarrow> int \<Rightarrow> bool option" where
  "can_send_pag_req net bts rsl_type =
     (case bts_chan_load (\<lambda>_. \<lparr>total = 0, used = 0\<rparr>) bts of
        None \<Rightarrow> None
      | Some pl \<Rightarrow>
          (let tch = (if rsl_type = RSL_CHANNEED_TCH_F \<or> rsl_type = RSL_CHANNEED_TCH_ForH then True
                      else if rsl_type = RSL_CHANNEED_SDCCH then False
                      else net_pag_any_tch net \<noteq> 0);
               count = (if tch then load_free pl GSM_PCHAN_TCH_F +
                                    (if net_neci net \<noteq> 0 then load_free pl GSM_PCHAN_TCH_H else 0)
                        else load_free pl GSM_PCHAN_SDCCH8_SACCH8C + load_free pl GSM_PCHAN_CCCH_SDCCH4)
           in Some (bts_paging_free_chans_need bts > count)))"

definition paging_handle_pending_requests :: "pag_env \<Rightarrow> nat \<Rightarrow> pag_bts \<Rightarrow> (pag_bts \<times> pag_event list) option" where
  "paging_handle_pending_requests env i b =
     (let pg = pb_paging b
      in case pending_requests pg of
           [] \<Rightarrow> Some (b, [])
         | request # rest \<Rightarrow>
             if available_slots pg = 0 then Some (upd_paging (\<lambda>p. p\<lparr>credit_timer := True\<rparr>) b, [])
             else
               (case (if bts_paging_free_chans_need (pb_bts b) \<noteq> -1
                      then can_send_pag_req (pe_net env) (pb_bts b) (pr_chan_type request) else Some False) of
                  None \<Rightarrow> None
                | Some True \<Rightarrow> Some (upd_paging (\<lambda>p. p\<lparr>work_timer := True\<rparr>) b, [])
                | Some False \<Rightarrow>
                    Some (upd_paging (\<lambda>p. p\<lparr>available_slots := available_slots p - 1,
                            pending_requests := rest @ [request\<lparr>pr_attempts := pr_attempts request + 1\<rparr>],
                            work_timer := True\<rparr>) b,
                          [page_ms env i request])))"

text \<open>The timers: the timer that fires is not running when its callback is called.\<close>

definition paging_worker :: "pag_env \<Rightarrow> nat \<Rightarrow> pag_bts \<Rightarrow> (pag_bts \<times> pag_event list) option" where
  "paging_worker env i b = paging_handle_pending_requests env i (upd_paging (\<lambda>p. p\<lparr>work_timer := False\<rparr>) b)"

definition paging_give_credit :: "pag_env \<Rightarrow> nat \<Rightarrow> pag_bts \<Rightarrow> (pag_bts \<times> pag_event list) option" where
  "paging_give_credit env i b =
     paging_handle_pending_requests env i (upd_paging (\<lambda>p. p\<lparr>credit_timer := False, available_slots := 20\<rparr>) b)"

section \<open>Requests\<close>

definition paging_init_if_needed :: "pag_bts \<Rightarrow> pag_bts" where
  "paging_init_if_needed b =
     (if pg_bts_set (pb_paging b) then b
      else upd_paging (\<lambda>p. p\<lparr>pg_bts_set := True, pending_requests := [], available_slots := 20\<rparr>) b)"

definition paging_pending_request :: "gsm_bts_paging_state \<Rightarrow> nat \<Rightarrow> bool" where
  "paging_pending_request pg subscr \<longleftrightarrow> list_ex (\<lambda>req. pr_subscr req = subscr) (pending_requests pg)"

definition paging_T3113_expired :: "nat \<Rightarrow> pag_bts \<Rightarrow> pag_bts \<times> pag_event list" where
  "paging_T3113_expired j b =
     (let req = pending_requests (pb_paging b) ! j;
          msg = (if pr_attempts req > 0 then GSM_PAGING_EXPIRED else GSM_PAGING_BUSY)
      in (upd_paging (paging_remove_request j) b,
          case pr_cbfn req of None \<Rightarrow> [] | Some cb \<Rightarrow> [Paging_cbfn cb msg None (pr_cbfn_param req)]))"

definition paging_request1 :: "nat \<Rightarrow> int \<Rightarrow> nat option \<Rightarrow> nat \<Rightarrow> pag_bts \<Rightarrow> pag_bts \<times> int" where
  "paging_request1 subscr ty cbfn data b =
     (if paging_pending_request (pb_paging b) subscr then (b, - EEXIST)
      else (upd_paging (\<lambda>p. paging_schedule_if_needed (p\<lparr>pending_requests := pending_requests p @
              [\<lparr>pr_subscr = subscr, pr_chan_type = ty, pr_attempts = 0, pr_cbfn = cbfn, pr_cbfn_param = data\<rparr>]\<rparr>)) b, 0))"

definition gsm_bts_by_lac :: "pag_bts list \<Rightarrow> u16 \<Rightarrow> nat option \<Rightarrow> nat option" where
  "gsm_bts_by_lac btss lac start =
     find (\<lambda>i. lac = GSM_LAC_RESERVED_ALL_BTS \<or> pb_lac (btss ! i) = lac)
       [(case start of None \<Rightarrow> 0 | Some s \<Rightarrow> Suc s)..<length btss]"

text \<open>Where the loops over the BTS of a location area stand.\<close>

definition lac_measure :: "pag_bts list \<Rightarrow> nat option \<Rightarrow> nat" where
  "lac_measure btss start = length btss - (case start of None \<Rightarrow> 0 | Some s \<Rightarrow> Suc s)"

lemma by_lac_SomeD:
  assumes "gsm_bts_by_lac btss lac start = Some i"
  shows "i < length btss" "lac = GSM_LAC_RESERVED_ALL_BTS \<or> pb_lac (btss ! i) = lac"
    "(case start of None \<Rightarrow> 0 | Some s \<Rightarrow> Suc s) \<le> i"
  using assms unfolding gsm_bts_by_lac_def find_Some_iff by (auto simp: nth_upt split: option.splits)

lemma lac_measure_less:
  assumes "gsm_bts_by_lac btss lac start = Some i"
  shows "length btss - Suc i < lac_measure btss start"
  using by_lac_SomeD [OF assms] by (auto simp: lac_measure_def split: option.splits)

text \<open>The loop of \<^verbatim>\<open>paging_request\<close>: the BTS, the number of pages and the error that ends it early.\<close>

function paging_request_loop ::
    "nat \<Rightarrow> u16 \<Rightarrow> int \<Rightarrow> nat option \<Rightarrow> nat \<Rightarrow> nat option \<Rightarrow> int \<Rightarrow> pag_bts list \<Rightarrow> pag_bts list \<times> int" where
  "paging_request_loop subscr lac ty cbfn data start num_pages btss =
     (case gsm_bts_by_lac btss lac start of
        None \<Rightarrow> (btss, num_pages)
      | Some i \<Rightarrow>
          if \<not> trx_is_usable (pb_bts (btss ! i)) (the_trx (pb_bts (btss ! i)) (bts_c0 (pb_bts (btss ! i))))
          then paging_request_loop subscr lac ty cbfn data (Some i) num_pages btss
          else
            (case paging_request1 subscr ty cbfn data (paging_init_if_needed (btss ! i)) of
               (b, rc) \<Rightarrow>
                 if rc < 0 then (btss[i := b], rc)
                 else paging_request_loop subscr lac ty cbfn data (Some i) (num_pages + 1) (btss[i := b])))"
  by pat_completeness auto

termination
proof (relation "measure (\<lambda>(subscr, lac, ty, cbfn, data, start, n, btss). lac_measure btss start)", goal_cases)
  case (2 subscr lac ty cbfn data start num btss i)
  then show ?case using lac_measure_less by (simp add: lac_measure_def)
next
  case (3 subscr lac ty cbfn data start num btss i b rc)
  then show ?case using lac_measure_less by (simp add: lac_measure_def)
qed simp

declare paging_request_loop.simps [simp del]

definition paging_request :: "pag_env \<Rightarrow> nat \<Rightarrow> int \<Rightarrow> nat option \<Rightarrow> nat \<Rightarrow> pag_bts list \<Rightarrow> pag_bts list \<times> int" where
  "paging_request env subscr ty cbfn data btss =
     paging_request_loop subscr (ps_lac (pe_subscr env subscr)) ty cbfn data None 0 btss"

section \<open>Stopping\<close>

definition paging_request_stop1 :: "nat \<Rightarrow> nat option \<Rightarrow> pag_bts \<Rightarrow> pag_bts \<times> pag_event list" where
  "paging_request_stop1 subscr conn b =
     (let b1 = paging_init_if_needed b
      in case find_idx (\<lambda>req. pr_subscr req = subscr) (pending_requests (pb_paging b1)) of
           None \<Rightarrow> (b1, [])
         | Some j \<Rightarrow>
             (let req = pending_requests (pb_paging b1) ! j
              in (upd_paging (paging_remove_request j) b1,
                  case (conn, pr_cbfn req) of
                    (Some c, Some cb) \<Rightarrow> [Paging_cbfn cb GSM_PAGING_SUCCEEDED (Some c) (pr_cbfn_param req)]
                  | _ \<Rightarrow> [])))"

function paging_stop_loop :: "nat \<Rightarrow> u16 \<Rightarrow> nat option \<Rightarrow> nat option \<Rightarrow> pag_bts list \<Rightarrow> pag_bts list" where
  "paging_stop_loop subscr lac skip start btss =
     (case gsm_bts_by_lac btss lac start of
        None \<Rightarrow> btss
      | Some i \<Rightarrow>
          paging_stop_loop subscr lac skip (Some i)
            (if skip = Some i then btss else btss[i := fst (paging_request_stop1 subscr None (btss ! i))]))"
  by pat_completeness auto

termination
proof (relation "measure (\<lambda>(subscr, lac, skip, start, btss). lac_measure btss start)", goal_cases)
  case (2 subscr lac skip start btss i)
  then show ?case using lac_measure_less by (simp add: lac_measure_def)
qed simp

declare paging_stop_loop.simps [simp del]

definition paging_request_stop ::
    "pag_env \<Rightarrow> nat option \<Rightarrow> nat \<Rightarrow> nat option \<Rightarrow> pag_bts list \<Rightarrow> pag_bts list \<times> pag_event list" where
  "paging_request_stop env bts subscr conn btss =
     (let (btss1, ev) = (case bts of
                           None \<Rightarrow> (btss, [])
                         | Some i \<Rightarrow> (case paging_request_stop1 subscr conn (btss ! i) of (b, ev) \<Rightarrow> (btss[i := b], ev)))
      in (paging_stop_loop subscr (ps_lac (pe_subscr env subscr)) bts None btss1, ev))"

definition paging_update_buffer_space :: "u16 \<Rightarrow> pag_bts \<Rightarrow> pag_bts" where
  "paging_update_buffer_space free_slots b =
     upd_paging (\<lambda>p. paging_schedule_if_needed (p\<lparr>credit_timer := False, available_slots := free_slots\<rparr>))
       (paging_init_if_needed b)"

definition paging_pending_requests_nr :: "pag_bts \<Rightarrow> pag_bts \<times> nat" where
  "paging_pending_requests_nr b =
     (let b1 = paging_init_if_needed b in (b1, length (pending_requests (pb_paging b1))))"

text \<open>The list is walked without the initialisation; \<open>None\<close> is the access through its null pointer.\<close>

definition paging_get_data :: "nat \<Rightarrow> pag_bts \<Rightarrow> nat option option" where
  "paging_get_data subscr b =
     (if \<not> pg_bts_set (pb_paging b) then None
      else Some (map_option pr_cbfn_param (find (\<lambda>req. pr_subscr req = subscr) (pending_requests (pb_paging b)))))"


section \<open>The invariant\<close>

text \<open>
  No subscriber waits twice at a BTS, and a BTS with waiting requests has a timer running that goes on
  with them.
\<close>

definition paging_ok :: "pag_bts \<Rightarrow> bool" where
  "paging_ok b \<longleftrightarrow>
     (let pg = pb_paging b
      in distinct (map pr_subscr (pending_requests pg)) \<and>
         (pending_requests pg \<noteq> [] \<longrightarrow> pg_bts_set pg \<and> (work_timer pg \<or> credit_timer pg)))"

inductive pag_step :: "pag_bts list \<Rightarrow> pag_bts list \<Rightarrow> bool" where
  request: "paging_request env subscr ty cbfn data btss = (btss', rc) \<Longrightarrow> pag_step btss btss'"
| stop: "(case bts of None \<Rightarrow> True | Some i \<Rightarrow> i < length btss) \<Longrightarrow>
    paging_request_stop env bts subscr conn btss = (btss', ev) \<Longrightarrow> pag_step btss btss'"
| load: "i < length btss \<Longrightarrow> pag_step btss (btss[i := paging_update_buffer_space n (btss ! i)])"
| count: "i < length btss \<Longrightarrow> pag_step btss (btss[i := fst (paging_pending_requests_nr (btss ! i))])"
| t3113: "i < length btss \<Longrightarrow> j < length (pending_requests (pb_paging (btss ! i))) \<Longrightarrow>
    pag_step btss (btss[i := fst (paging_T3113_expired j (btss ! i))])"
| work: "i < length btss \<Longrightarrow> work_timer (pb_paging (btss ! i)) \<Longrightarrow> paging_worker env i (btss ! i) = Some (b, ev) \<Longrightarrow>
    pag_step btss (btss[i := b])"
| credit: "i < length btss \<Longrightarrow> credit_timer (pb_paging (btss ! i)) \<Longrightarrow>
    paging_give_credit env i (btss ! i) = Some (b, ev) \<Longrightarrow> pag_step btss (btss[i := b])"
| reconfigure: "i < length btss \<Longrightarrow> pag_step btss (btss[i := (btss ! i)\<lparr>pb_bts := bts, pb_lac := lac\<rparr>])"

definition zero_paging :: gsm_bts_paging_state where
  "zero_paging = \<lparr>pg_bts_set = False, pending_requests = [], work_timer = False, credit_timer = False, available_slots = 0\<rparr>"

inductive pag_reachable :: "pag_bts list \<Rightarrow> bool" where
  init: "\<forall>b \<in> set btss. pb_paging b = zero_paging \<Longrightarrow> pag_reachable btss"
| step: "pag_reachable btss \<Longrightarrow> pag_step btss btss' \<Longrightarrow> pag_reachable btss'"

lemma pb_paging_upd [simp]: "pb_paging (upd_paging f b) = f (pb_paging b)" "pb_bts (upd_paging f b) = pb_bts b"
  by (simp_all add: upd_paging_def)

lemma init_ok: "paging_ok b \<Longrightarrow> paging_ok (paging_init_if_needed b)"
  by (simp add: paging_ok_def paging_init_if_needed_def Let_def)

lemma init_set [simp]: "pg_bts_set (pb_paging (paging_init_if_needed b))"
  by (simp add: paging_init_if_needed_def)

lemma remove_subscrs:
  "map pr_subscr (pending_requests (paging_remove_request j pg)) =
     take j (map pr_subscr (pending_requests pg)) @ drop (Suc j) (map pr_subscr (pending_requests pg))"
  by (simp add: paging_remove_request_def take_map drop_map)

lemma distinct_take_drop: "distinct xs \<Longrightarrow> distinct (take j xs @ drop (Suc j) xs)"
  by (auto simp: distinct_append set_take_disj_set_drop_if_distinct)

lemma remove_ok: "paging_ok b \<Longrightarrow> paging_ok (upd_paging (paging_remove_request j) b)"
  using remove_subscrs [of j "pb_paging b"] distinct_take_drop [of "map pr_subscr (pending_requests (pb_paging b))" j]
  by (auto simp: paging_ok_def Let_def) (auto simp: paging_remove_request_def)

lemma request1_ok:
  assumes "paging_ok b" "paging_request1 subscr ty cbfn data (paging_init_if_needed b) = (b', rc)"
  shows "paging_ok b'"
  using init_ok [OF assms(1)] assms(2)
  by (auto simp: paging_request1_def paging_ok_def Let_def paging_schedule_if_needed_def paging_pending_request_def
      list_ex_iff split: if_splits)

lemma handle_ok:
  assumes "distinct (map pr_subscr (pending_requests (pb_paging b)))"
    and "pending_requests (pb_paging b) \<noteq> [] \<longrightarrow> pg_bts_set (pb_paging b)"
    and "paging_handle_pending_requests env i b = Some (b', ev)"
  shows "paging_ok b'"
  using assms
  by (cases "pending_requests (pb_paging b)")
     (auto simp: paging_handle_pending_requests_def paging_ok_def Let_def split: if_splits option.splits bool.splits)

lemma worker_ok: "paging_ok b \<Longrightarrow> paging_worker env i b = Some (b', ev) \<Longrightarrow> paging_ok b'"
  unfolding paging_worker_def by (erule handle_ok [rotated 2]) (auto simp: paging_ok_def Let_def)

lemma credit_ok: "paging_ok b \<Longrightarrow> paging_give_credit env i b = Some (b', ev) \<Longrightarrow> paging_ok b'"
  unfolding paging_give_credit_def by (erule handle_ok [rotated 2]) (auto simp: paging_ok_def Let_def)

lemma stop1_ok: "paging_ok b \<Longrightarrow> paging_ok (fst (paging_request_stop1 subscr conn b))"
  by (auto simp: paging_request_stop1_def Let_def init_ok remove_ok split: option.splits)

lemma update_ok:
  assumes "paging_ok b"
  shows "paging_ok (paging_update_buffer_space n b)"
  using init_ok [OF assms]
  by (auto simp: paging_update_buffer_space_def paging_schedule_if_needed_def paging_ok_def Let_def)

lemma list_all_update: "list_all P xs \<Longrightarrow> P x \<Longrightarrow> list_all P (xs[i := x])"
  by (auto simp: list_all_iff dest: set_update_subset_insert [THEN subsetD])

lemma request_loop_ok:
  "list_all paging_ok btss \<Longrightarrow>
   list_all paging_ok (fst (paging_request_loop subscr lac ty cbfn data start num btss))"
proof (induction subscr lac ty cbfn data start num btss rule: paging_request_loop.induct)
  case (1 subscr lac ty cbfn data start num btss)
  show ?case
  proof (cases "gsm_bts_by_lac btss lac start")
    case None
    then show ?thesis using 1(3) by (simp add: paging_request_loop.simps)
  next
    case (Some i)
    obtain b rc where r: "paging_request1 subscr ty cbfn data (paging_init_if_needed (btss ! i)) = (b, rc)" by fastforce
    have "paging_ok b"
      by (rule request1_ok [OF _ r]) (use 1(3) by_lac_SomeD(1) [OF Some] in \<open>simp add: list_all_length\<close>)
    then have l: "list_all paging_ok (btss[i := b])" using 1(3) by (simp add: list_all_update)
    show ?thesis using 1(1) [OF Some _ 1(3)] 1(2) [OF Some _ r [symmetric] _ l] l
      by (subst paging_request_loop.simps) (simp add: Some r)
  qed
qed

lemma stop_loop_ok:
  "list_all paging_ok btss \<Longrightarrow> list_all paging_ok (paging_stop_loop subscr lac skip start btss)"
proof (induction subscr lac skip start btss rule: paging_stop_loop.induct)
  case (1 subscr lac skip start btss)
  show ?case
  proof (cases "gsm_bts_by_lac btss lac start")
    case (Some i)
    have "paging_ok (btss ! i)" using 1(2) by_lac_SomeD(1) [OF Some] by (simp add: list_all_length)
    then show ?thesis using 1(1) [OF Some] 1(2)
      by (subst paging_stop_loop.simps) (simp add: Some stop1_ok list_all_update)
  qed (use 1 in \<open>simp add: paging_stop_loop.simps\<close>)
qed

lemma pag_step_ok: "pag_step btss btss' \<Longrightarrow> list_all paging_ok btss \<Longrightarrow> list_all paging_ok btss'"
proof (induction rule: pag_step.induct)
  case (request env subscr ty cbfn data btss btss' rc)
  then show ?case using request_loop_ok by (metis paging_request_def fst_conv)
next
  case (stop bts btss env subscr conn btss' ev)
  have "list_all paging_ok (btss[i := fst (paging_request_stop1 subscr conn (btss ! i))])" if "bts = Some i" for i
    using stop that by (intro list_all_update stop1_ok) (auto simp: list_all_length)
  then show ?case using stop
    by (auto simp: paging_request_stop_def Let_def split_beta intro!: stop_loop_ok split: option.splits)
next
  case (t3113 i btss j)
  then have "paging_ok (btss ! i)" by (simp add: list_all_length)
  from remove_ok [OF this, of j] show ?case using t3113(3) by (simp add: list_all_update paging_T3113_expired_def Let_def)
next
  case (work i btss env b ev)
  then show ?case by (intro list_all_update) (auto intro: worker_ok simp: list_all_length)
next
  case (credit i btss env b ev)
  then show ?case by (intro list_all_update) (auto intro: credit_ok simp: list_all_length)
next
  case (reconfigure i btss lac bts)
  then have "paging_ok (btss ! i)" by (simp add: list_all_length)
  then have "paging_ok ((btss ! i)\<lparr>pb_bts := bts, pb_lac := lac\<rparr>)" by (simp add: paging_ok_def)
  then show ?case using reconfigure by (simp add: list_all_update)
qed (auto intro!: list_all_update update_ok simp: list_all_nth init_ok paging_pending_requests_nr_def Let_def)

lemma pag_reachable_ok: "pag_reachable btss \<Longrightarrow> list_all paging_ok btss"
proof (induction rule: pag_reachable.induct)
  case (init btss)
  then show ?case by (simp add: list_all_iff paging_ok_def zero_paging_def)
qed (rule pag_step_ok)

section \<open>One round of the work timer\<close>

primrec paging_workers :: "pag_env \<Rightarrow> nat \<Rightarrow> nat \<Rightarrow> pag_bts \<Rightarrow> (pag_bts \<times> pag_event list) option" where
  "paging_workers env i 0 b = Some (b, [])"
| "paging_workers env i (Suc n) b =
     (case paging_worker env i b of
        None \<Rightarrow> None
      | Some (b1, ev) \<Rightarrow> map_option (\<lambda>(b2, ev2). (b2, ev @ ev2)) (paging_workers env i n b1))"

text \<open>Channels are free for all waiting requests, or their number does not matter.\<close>

definition chans_free :: "pag_env \<Rightarrow> pag_bts \<Rightarrow> bool" where
  "chans_free env b \<longleftrightarrow> bts_paging_free_chans_need (pb_bts b) = -1 \<or>
     (\<forall>r \<in> set (pending_requests (pb_paging b)). can_send_pag_req (pe_net env) (pb_bts b) (pr_chan_type r) = Some False)"

definition paged :: "gsm_paging_request \<Rightarrow> gsm_paging_request" where
  "paged r = r\<lparr>pr_attempts := pr_attempts r + 1\<rparr>"

lemma workers_page:
  assumes "pending_requests (pb_paging b) = xs @ ys" "length xs \<le> unat (available_slots (pb_paging b))" "chans_free env b"
  shows "\<exists>b1. paging_workers env i (length xs) b = Some (b1, map (page_ms env i) xs) \<and>
    pending_requests (pb_paging b1) = ys @ map paged xs \<and>
    unat (available_slots (pb_paging b1)) = unat (available_slots (pb_paging b)) - length xs \<and>
    pb_bts b1 = pb_bts b"
  using assms
proof (induction xs arbitrary: b ys)
  case (Cons x xs)
  let ?b = "upd_paging (\<lambda>p. p\<lparr>available_slots := available_slots p - 1, pending_requests := xs @ ys @ [paged x], work_timer := True\<rparr>) b"
  have slots: "available_slots (pb_paging b) \<noteq> 0" using Cons.prems(2) by auto
  then have dec: "unat (available_slots (pb_paging b) - 1) = unat (available_slots (pb_paging b)) - 1"
    by (simp add: unat_minus_one)
  have w: "paging_worker env i b = Some (?b, [page_ms env i x])"
    using Cons.prems slots
    by (cases b) (auto simp: paging_worker_def paging_handle_pending_requests_def Let_def upd_paging_def chans_free_def paged_def)
  have le: "length xs \<le> unat (available_slots (pb_paging ?b))" using Cons.prems(2) dec by simp
  have "chans_free env ?b" using Cons.prems(1,3) by (auto simp: chans_free_def paged_def)
  then obtain b1 where "paging_workers env i (length xs) ?b = Some (b1, map (page_ms env i) xs)"
    "pending_requests (pb_paging b1) = (ys @ [paged x]) @ map paged xs"
    "unat (available_slots (pb_paging b1)) = unat (available_slots (pb_paging ?b)) - length xs" "pb_bts b1 = pb_bts ?b"
    using Cons.IH [OF _ le, of "ys @ [paged x]"] by auto
  then show ?case by (simp add: w dec)
qed simp

section \<open>Stopping everywhere\<close>

abbreviation lac_bound :: "nat option \<Rightarrow> nat" where
  "lac_bound start \<equiv> (case start of None \<Rightarrow> 0 | Some s \<Rightarrow> Suc s)"

definition in_lac :: "u16 \<Rightarrow> pag_bts \<Rightarrow> bool" where
  "in_lac lac b \<longleftrightarrow> lac = GSM_LAC_RESERVED_ALL_BTS \<or> pb_lac b = lac"

lemma by_lac_None: "gsm_bts_by_lac btss lac start = None \<Longrightarrow> lac_bound start \<le> k \<Longrightarrow> k < length btss \<Longrightarrow> \<not> in_lac lac (btss ! k)"
  by (auto simp: gsm_bts_by_lac_def find_None_iff in_lac_def)

lemma by_lac_first:
  assumes "gsm_bts_by_lac btss lac start = Some i" "lac_bound start \<le> k" "k < i"
  shows "\<not> in_lac lac (btss ! k)"
proof -
  let ?xs = "[lac_bound start..<length btss]"
  from assms(1) obtain m where m: "m < length ?xs" "?xs ! m = i"
    "\<forall>j<m. \<not> (lac = GSM_LAC_RESERVED_ALL_BTS \<or> pb_lac (btss ! (?xs ! j)) = lac)"
    unfolding gsm_bts_by_lac_def find_Some_iff by auto
  then have "k - lac_bound start < m" "?xs ! (k - lac_bound start) = k" using assms(2,3) by auto
  then show ?thesis using m(3) by (metis in_lac_def)
qed

lemma stop1_lac [simp]: "pb_lac (fst (paging_request_stop1 subscr conn b)) = pb_lac b"
  by (auto simp: paging_request_stop1_def paging_init_if_needed_def Let_def upd_paging_def split: option.splits)

lemma stop_loop_nth:
  "length (paging_stop_loop subscr lac skip start btss) = length btss \<and>
   (\<forall>k < length btss. paging_stop_loop subscr lac skip start btss ! k =
     (if lac_bound start \<le> k \<and> in_lac lac (btss ! k) \<and> skip \<noteq> Some k
      then fst (paging_request_stop1 subscr None (btss ! k)) else btss ! k))"
proof (induction subscr lac skip start btss rule: paging_stop_loop.induct)
  case (1 subscr lac skip start btss)
  show ?case
  proof (cases "gsm_bts_by_lac btss lac start")
    case None
    then show ?thesis using by_lac_None by (subst (1 2) paging_stop_loop.simps) auto
  next
    case (Some i)
    note i = by_lac_SomeD [OF Some]
    let ?b = "if skip = Some i then btss else btss[i := fst (paging_request_stop1 subscr None (btss ! i))]"
    have len: "length ?b = length btss" by simp
    have lac: "in_lac lac (?b ! k) = in_lac lac (btss ! k)" if "k < length btss" for k
      using that by (cases "i = k") (simp_all add: in_lac_def)
    have other: "k \<noteq> i \<Longrightarrow> ?b ! k = btss ! k" for k by simp
    have at: "?b ! i = (if skip \<noteq> Some i then fst (paging_request_stop1 subscr None (btss ! i)) else btss ! i)" using i(1) by simp
    have eq: "paging_stop_loop subscr lac skip start btss = paging_stop_loop subscr lac skip (Some i) ?b"
      by (subst paging_stop_loop.simps) (simp only: Some option.case)
    have "paging_stop_loop subscr lac skip (Some i) ?b ! k =
        (if lac_bound start \<le> k \<and> in_lac lac (btss ! k) \<and> skip \<noteq> Some k
         then fst (paging_request_stop1 subscr None (btss ! k)) else btss ! k)" if k: "k < length btss" for k
    proof -
      have ih: "paging_stop_loop subscr lac skip (Some i) ?b ! k =
          (if Suc i \<le> k \<and> in_lac lac (btss ! k) \<and> skip \<noteq> Some k
           then fst (paging_request_stop1 subscr None (?b ! k)) else ?b ! k)"
        using conjunct2 [OF 1 [OF Some]] k len lac [OF k] by simp
      consider "k < i" | "k = i" | "i < k" by linarith
      then show ?thesis
      proof cases
        case 1
        then show ?thesis using ih other [of k] by_lac_first [OF Some] by auto
      next
        case 2
        then show ?thesis using ih at i by (simp add: in_lac_def)
      next
        case 3
        then show ?thesis using ih other [of k] i by auto
      qed
    qed
    moreover have "length (paging_stop_loop subscr lac skip (Some i) ?b) = length btss"
      using conjunct1 [OF 1 [OF Some]] len by simp
    ultimately show ?thesis unfolding eq by simp
  qed
qed

lemma removed_gone:
  assumes "distinct (map f xs)" "j < length xs"
  shows "f (xs ! j) \<notin> f ` set (take j xs @ drop (Suc j) xs)"
proof -
  have "distinct (map f (take j xs @ xs ! j # drop (Suc j) xs))"
    using assms by (simp only: id_take_nth_drop [symmetric])
  then have "f (xs ! j) \<notin> set (map f (take j xs)) \<union> set (map f (drop (Suc j) xs))"
    by (simp only: map_append list.map distinct_append distinct.simps list.set) blast
  then show ?thesis by (simp only: set_map set_append image_Un) blast
qed

lemma stop1_gone:
  assumes "paging_ok b"
  shows "\<not> paging_pending_request (pb_paging (fst (paging_request_stop1 subscr conn b))) subscr"
proof -
  let ?b = "paging_init_if_needed b"
  let ?xs = "pending_requests (pb_paging ?b)"
  have d: "distinct (map pr_subscr ?xs)" using init_ok [OF assms] by (simp add: paging_ok_def Let_def)
  show ?thesis
  proof (cases "find_idx (\<lambda>req. pr_subscr req = subscr) ?xs")
    case None
    then have "fst (paging_request_stop1 subscr conn b) = ?b" by (simp add: paging_request_stop1_def Let_def)
    then show ?thesis using None by (auto simp: paging_pending_request_def list_ex_iff find_idx_None_iff)
  next
    case (Some j)
    note j = find_idx_SomeD [OF Some]
    have "subscr \<notin> pr_subscr ` set (take j ?xs @ drop (Suc j) ?xs)" using removed_gone [OF d j(1)] j(2) by simp
    moreover have "fst (paging_request_stop1 subscr conn b) = upd_paging (paging_remove_request j) ?b"
      by (simp add: paging_request_stop1_def Let_def Some)
    ultimately show ?thesis by (auto simp: paging_pending_request_def list_ex_iff paging_remove_request_def)
  qed
qed


section \<open>A sample network\<close>

text \<open>One BTS; subscribers 1 and 2 are being paged.\<close>

definition sample_pag :: pag_env where
  "sample_pag = \<lparr>pe_subscr = (\<lambda>s. \<lparr>ps_imsi = ''00101'', ps_tmsi = of_nat s, ps_lac = 1\<rparr>),
     pe_mid_from_imsi = (\<lambda>_. []), pe_mid_from_tmsi = (\<lambda>t. [ucast t]), pe_paging_group = (\<lambda>_ _. 0), pe_net = sample_net\<rparr>"

definition sample_pag0 :: "pag_bts list" where
  "sample_pag0 = [\<lparr>pb_bts = fresh_bts, pb_lac = 1, pb_paging = zero_paging\<rparr>]"

definition sample_pag2 :: "pag_bts list" where
  "sample_pag2 = fst (paging_request sample_pag 2 0 (Some 9) 8 (fst (paging_request sample_pag 1 0 (Some 9) 7 sample_pag0)))"

lemma request_step: "pag_reachable btss \<Longrightarrow> pag_reachable (fst (paging_request env subscr ty cbfn data btss))"
  by (erule pag_reachable.step, rule pag_step.request) (rule prod.collapse [symmetric])

lemma sample_pag2_reachable: "pag_reachable sample_pag2"
proof -
  have "pag_reachable sample_pag0" by (rule pag_reachable.init) (simp add: sample_pag0_def)
  then show ?thesis unfolding sample_pag2_def by (intro request_step)
qed

lemma sample_pag2_values:
  "(length sample_pag2, map pr_subscr (pending_requests (pb_paging (sample_pag2 ! 0))),
    available_slots (pb_paging (sample_pag2 ! 0)), pb_lac (sample_pag2 ! 0), bts_paging_free_chans_need (pb_bts (sample_pag2 ! 0)),
    map pr_cbfn_param (pending_requests (pb_paging (sample_pag2 ! 0))),
    map pr_cbfn (pending_requests (pb_paging (sample_pag2 ! 0)))) = (1, [1, 2], 20, 1, -1, [7, 8], [Some 9, Some 9])"
  by code_simp

lemma sample_pag2_eval:
  "length sample_pag2 = 1" "map pr_subscr (pending_requests (pb_paging (sample_pag2 ! 0))) = [1, 2]"
  "available_slots (pb_paging (sample_pag2 ! 0)) = 20" "pb_lac (sample_pag2 ! 0) = 1"
  "bts_paging_free_chans_need (pb_bts (sample_pag2 ! 0)) = -1"
  "map pr_cbfn_param (pending_requests (pb_paging (sample_pag2 ! 0))) = [7, 8]"
  "map pr_cbfn (pending_requests (pb_paging (sample_pag2 ! 0))) = [Some 9, Some 9]"
  using sample_pag2_values by (simp_all only: prod.inject)

section \<open>Properties\<close>

text \<open>C33: Whatever requests, answers, load reports, time-outs and changes of the configuration come in whatever order, no subscriber waits twice at a BTS, and a BTS with waiting requests always has its work timer or its credit timer running, so that paging never stalls.\<close>

theorem paging_never_stalls:
  assumes "pag_reachable btss" "b \<in> set btss"
  shows "distinct (map pr_subscr (pending_requests (pb_paging b))) \<and>
    (pending_requests (pb_paging b) \<noteq> [] \<longrightarrow> work_timer (pb_paging b) \<or> credit_timer (pb_paging b))"
  using pag_reachable_ok [OF assms(1)] assms(2) by (auto simp: list_all_iff paging_ok_def Let_def)

theorem paging_never_stalls_witness:
  "work_timer (pb_paging (sample_pag2 ! 0)) \<or> credit_timer (pb_paging (sample_pag2 ! 0))"
proof -
  have "sample_pag2 ! 0 \<in> set sample_pag2" using sample_pag2_eval(1) by simp
  moreover have "pending_requests (pb_paging (sample_pag2 ! 0)) \<noteq> []" using sample_pag2_eval(2) by auto
  ultimately show ?thesis using paging_never_stalls [OF sample_pag2_reachable] by blast
qed

text \<open>Paging is fair: while the BTS has slots and channels are free, \<open>n\<close> runs of the work timer send one paging command for each of the first \<open>n\<close> waiting requests, in the order of the queue, count the attempt, use one slot each and move these requests behind the others.\<close>

theorem paging_round_robin:
  assumes "n \<le> length (pending_requests (pb_paging b))" "n \<le> unat (available_slots (pb_paging b))" "chans_free env b"
  shows "\<exists>b1. paging_workers env i n b = Some (b1, map (page_ms env i) (take n (pending_requests (pb_paging b)))) \<and>
    pending_requests (pb_paging b1) =
      drop n (pending_requests (pb_paging b)) @ map paged (take n (pending_requests (pb_paging b))) \<and>
    unat (available_slots (pb_paging b1)) = unat (available_slots (pb_paging b)) - n"
  using workers_page [OF append_take_drop_id [symmetric, of _ n], of b env i] assms by auto

theorem paging_round_robin_witness:
  "\<exists>b1 ev. paging_workers sample_pag 0 2 (sample_pag2 ! 0) = Some (b1, ev) \<and> length ev = 2 \<and>
     map pr_subscr (pending_requests (pb_paging b1)) = [1, 2]"
proof -
  have l: "length (pending_requests (pb_paging (sample_pag2 ! 0))) = 2"
    using arg_cong [OF sample_pag2_eval(2), of length] by simp
  have "chans_free sample_pag (sample_pag2 ! 0)" using sample_pag2_eval(5) by (simp add: chans_free_def)
  with paging_round_robin [of 2 "sample_pag2 ! 0" sample_pag 0] l sample_pag2_eval(2,3) show ?thesis
    by (auto simp: paged_def comp_def)
qed

text \<open>The answer of a subscriber at a BTS ends its paging there and at all BTS of its location area: no request for it is left at them, no other BTS is touched, and exactly the callback of the request at the BTS that got the answer is called, with success and the connection.\<close>

theorem paging_answer_stops_all:
  assumes "pag_reachable btss" "i < length btss" "paging_request_stop env (Some i) subscr (Some conn) btss = (btss1, ev)"
    and "req \<in> set (pending_requests (pb_paging (btss ! i)))" "pr_subscr req = subscr" "pr_cbfn req = Some cb"
  shows "ev = [Paging_cbfn cb GSM_PAGING_SUCCEEDED (Some conn) (pr_cbfn_param req)] \<and> length btss1 = length btss \<and>
    (\<forall>k < length btss. if k = i \<or> in_lac (ps_lac (pe_subscr env subscr)) (btss ! k)
       then \<not> paging_pending_request (pb_paging (btss1 ! k)) subscr else btss1 ! k = btss ! k)"
proof -
  let ?lac = "ps_lac (pe_subscr env subscr)" and ?xs = "pending_requests (pb_paging (btss ! i))"
  let ?b = "btss[i := fst (paging_request_stop1 subscr (Some conn) (btss ! i))]"
  have ok: "paging_ok (btss ! k)" if "k < length btss" for k
    using pag_reachable_ok [OF assms(1)] that by (simp add: list_all_length)
  have d: "distinct (map pr_subscr ?xs)" and init: "paging_init_if_needed (btss ! i) = btss ! i"
    using ok [OF assms(2)] assms(4) by (auto simp: paging_ok_def Let_def paging_init_if_needed_def)
  obtain j where j: "find_idx (\<lambda>r. pr_subscr r = subscr) ?xs = Some j" 
    using find_idx_exists [where P = "\<lambda>r. pr_subscr r = subscr", OF assms(4,5)] by blast
  have "?xs ! j = req" using find_idx_SomeD(1,2) [OF j] assms(4,5) d
    by (metis distinct_map inj_onD nth_mem)
  then have ev: "snd (paging_request_stop1 subscr (Some conn) (btss ! i)) =
      [Paging_cbfn cb GSM_PAGING_SUCCEEDED (Some conn) (pr_cbfn_param req)]"
    by (simp add: paging_request_stop1_def Let_def init j assms(6))
  have r: "btss1 = paging_stop_loop subscr ?lac (Some i) None ?b" "ev = snd (paging_request_stop1 subscr (Some conn) (btss ! i))"
    using assms(3) by (auto simp: paging_request_stop_def split_beta)
  have nth: "length btss1 = length btss" "k < length btss \<Longrightarrow> btss1 ! k =
      (if in_lac ?lac (?b ! k) \<and> i \<noteq> k then fst (paging_request_stop1 subscr None (?b ! k)) else ?b ! k)" for k
    using stop_loop_nth [of subscr ?lac "Some i" None ?b] by (simp_all add: r(1))
  have "if k = i \<or> in_lac ?lac (btss ! k) then \<not> paging_pending_request (pb_paging (btss1 ! k)) subscr
      else btss1 ! k = btss ! k" if k: "k < length btss" for k
    using nth(2) [OF k] k stop1_gone [OF ok [OF k]] by (cases "k = i") auto
  then show ?thesis using ev r(2) nth(1) by simp
qed

theorem paging_answer_stops_all_witness:
  "snd (paging_request_stop sample_pag (Some 0) 1 (Some 5) sample_pag2) = [Paging_cbfn 9 GSM_PAGING_SUCCEEDED (Some 5) 7]"
proof -
  let ?xs = "pending_requests (pb_paging (sample_pag2 ! 0))"
  obtain r s where xs: "?xs = [r, s]" using sample_pag2_eval(2) by auto
  obtain btss1 ev where e: "paging_request_stop sample_pag (Some 0) 1 (Some 5) sample_pag2 = (btss1, ev)" by fastforce
  have "pr_subscr r = 1" "pr_cbfn r = Some 9" "pr_cbfn_param r = 7" using sample_pag2_eval xs by simp_all
  then show ?thesis
    using paging_answer_stops_all [OF sample_pag2_reachable _ e, of r 9] sample_pag2_eval(1) xs e by simp
qed

end
