(* ===== verification/Bsc_Rll.thy ===== *)
theory Bsc_Rll
  imports Gsm_Data "HOL-Library.Multiset"
begin

unbundle bit_operations_syntax

text \<open>
  The requests for radio link establishment (\<^verbatim>\<open>src/libbsc/bsc_rll.c\<close>). A request waits in a list,
  newest first, until the RSL layer reports about its link, its timer of ten seconds fires or its
  channel is freed; then its callback is called and the request is gone. Channels, callbacks and their
  data are addresses, numbers; the timer of a request runs as long as it is in the list. Calls of
  callbacks are events and do not call back into this code.
\<close>

section \<open>Model\<close>

record bsc_rll_req =
  rllr_lchan :: nat
  rllr_link_id :: u8
  rllr_cb :: nat
  rllr_data :: nat

datatype bsc_rllr_ind = BSC_RLLR_IND_EST_CONF | BSC_RLLR_IND_REL_IND | BSC_RLLR_IND_ERR_IND | BSC_RLLR_IND_TIMEOUT

datatype rll_event =
    Rllr_cb bsc_rll_req bsc_rllr_ind
  | Rsl_establish_request nat u8

abbreviation (input) LINKID_MASK :: u8 where "LINKID_MASK \<equiv> 0xC7"

text \<open>Completes the request at a position of the list.\<close>

definition complete_rllr :: "nat \<Rightarrow> bsc_rllr_ind \<Rightarrow> bsc_rll_req list \<Rightarrow> bsc_rll_req list \<times> rll_event list" where
  "complete_rllr j ty reqs = (take j reqs @ drop (Suc j) reqs, [Rllr_cb (reqs ! j) ty])"

definition timer_cb :: "nat \<Rightarrow> bsc_rll_req list \<Rightarrow> bsc_rll_req list \<times> rll_event list" where
  "timer_cb j reqs = complete_rllr j BSC_RLLR_IND_TIMEOUT reqs"

definition rll_link_id :: "gsm_chan_t \<Rightarrow> u8 \<Rightarrow> u8" where
  "rll_link_id ty sapi =
     (if (ty = GSM_LCHAN_TCH_F \<or> ty = GSM_LCHAN_TCH_H) \<and> sapi \<noteq> 0 then sapi OR 0x40 else sapi)"

definition rll_establish ::
    "nat \<Rightarrow> gsm_chan_t \<Rightarrow> u8 \<Rightarrow> nat \<Rightarrow> nat \<Rightarrow> bsc_rll_req list \<Rightarrow> bsc_rll_req list \<times> rll_event list" where
  "rll_establish lchan ty sapi cb data reqs =
     (\<lparr>rllr_lchan = lchan, rllr_link_id = rll_link_id ty sapi, rllr_cb = cb, rllr_data = data\<rparr> # reqs,
      [Rsl_establish_request lchan (rll_link_id ty sapi)])"

definition rll_matches :: "nat \<Rightarrow> u8 \<Rightarrow> bsc_rll_req \<Rightarrow> bool" where
  "rll_matches lchan link_id rllr \<longleftrightarrow>
     rllr_lchan rllr = lchan \<and> rllr_link_id rllr AND LINKID_MASK = link_id AND LINKID_MASK"

definition rll_indication :: "nat \<Rightarrow> u8 \<Rightarrow> bsc_rllr_ind \<Rightarrow> bsc_rll_req list \<Rightarrow> bsc_rll_req list \<times> rll_event list" where
  "rll_indication lchan link_id ty reqs =
     (case find_idx (rll_matches lchan link_id) reqs of
        None \<Rightarrow> (reqs, [])
      | Some j \<Rightarrow> complete_rllr j ty reqs)"

text \<open>The loop over the list when a channel was freed.\<close>

fun rll_lchan_signal :: "nat \<Rightarrow> bsc_rll_req list \<Rightarrow> bsc_rll_req list \<times> rll_event list" where
  "rll_lchan_signal lchan [] = ([], [])"
| "rll_lchan_signal lchan (rllr # reqs) =
     (let (rest, ev) = rll_lchan_signal lchan reqs
      in if rllr_lchan rllr = lchan then (rest, Rllr_cb rllr BSC_RLLR_IND_ERR_IND # ev) else (rllr # rest, ev))"

section \<open>Runs\<close>

text \<open>A run starts with no request; \<open>req\<close> are the requests made and \<open>ev\<close> the events so far.\<close>

inductive rll_run :: "bsc_rll_req list \<Rightarrow> bsc_rll_req list \<Rightarrow> rll_event list \<Rightarrow> bool" where
  init: "rll_run [] [] []"
| establish: "rll_run reqs made ev \<Longrightarrow> rll_establish lchan ty sapi cb data reqs = (reqs', ev') \<Longrightarrow>
    rll_run reqs' (hd reqs' # made) (ev @ ev')"
| indication: "rll_run reqs made ev \<Longrightarrow> rll_indication lchan link_id ty reqs = (reqs', ev') \<Longrightarrow> rll_run reqs' made (ev @ ev')"
| timeout: "rll_run reqs made ev \<Longrightarrow> j < length reqs \<Longrightarrow> timer_cb j reqs = (reqs', ev') \<Longrightarrow> rll_run reqs' made (ev @ ev')"
| freed: "rll_run reqs made ev \<Longrightarrow> rll_lchan_signal lchan reqs = (reqs', ev') \<Longrightarrow> rll_run reqs' made (ev @ ev')"

fun answered :: "rll_event \<Rightarrow> bsc_rll_req list" where
  "answered (Rllr_cb r _) = [r]"
| "answered (Rsl_establish_request _ _) = []"

definition answers :: "rll_event list \<Rightarrow> bsc_rll_req multiset" where
  "answers ev = mset (concat (map answered ev))"

lemma answers_simps [simp]:
  "answers [] = {#}" "answers (a # ev) = mset (answered a) + answers ev" "answers (ev @ ev') = answers ev + answers ev'"
  by (simp_all add: answers_def)

lemma complete_keeps:
  assumes "j < length reqs" "complete_rllr j ty reqs = (reqs', ev)"
  shows "mset reqs = mset reqs' + answers ev"
proof -
  have "mset reqs = mset (take j reqs @ reqs ! j # drop (Suc j) reqs)"
    using assms(1) by (simp only: id_take_nth_drop [symmetric])
  then show ?thesis using assms(2) by (auto simp: complete_rllr_def)
qed

lemma indication_keeps: "rll_indication lchan link_id ty reqs = (reqs', ev) \<Longrightarrow> mset reqs = mset reqs' + answers ev"
  by (auto simp: rll_indication_def split: option.splits intro: complete_keeps dest: find_idx_SomeD(1))

lemma signal_keeps: "rll_lchan_signal lchan reqs = (reqs', ev) \<Longrightarrow> mset reqs = mset reqs' + answers ev"
  by (induction lchan reqs arbitrary: reqs' ev rule: rll_lchan_signal.induct) (auto simp: Let_def split: prod.splits if_splits)

lemma rll_run_answers: "rll_run reqs made ev \<Longrightarrow> mset made = mset reqs + answers ev"
proof (induction rule: rll_run.induct)
  case (establish reqs made ev lchan ty sapi cb data reqs' ev')
  then show ?case by (auto simp: rll_establish_def)
next
  case (indication reqs made ev lchan link_id ty reqs' ev')
  then show ?case using indication_keeps [OF indication(2)] by (simp add: ac_simps)
next
  case (timeout reqs made ev j reqs' ev')
  then show ?case using complete_keeps [OF timeout(2) timeout(3) [unfolded timer_cb_def]] by (simp add: ac_simps)
next
  case (freed reqs made ev lchan reqs' ev')
  then show ?case using signal_keeps [OF freed(2)] by (simp add: ac_simps)
qed simp

lemma signal_clears:
  "fst (rll_lchan_signal lchan reqs) = filter (\<lambda>r. rllr_lchan r \<noteq> lchan) reqs"
  by (induction lchan reqs rule: rll_lchan_signal.induct) (auto simp: Let_def split: prod.splits)

text \<open>The requests for two links, one confirmed.\<close>

definition sample_rll :: "bsc_rll_req list" where
  "sample_rll = fst (rll_establish 5 GSM_LCHAN_SDCCH 3 7 8 [])"

section \<open>Properties\<close>

text \<open>Every request for a link is answered exactly once or still waits: the requests made are, with multiplicity, those that wait and those whose callback was called. When the channel is freed, all requests for it have been answered and none waits any longer.\<close>

theorem rll_answered_once:
  assumes "rll_run reqs made ev"
  shows "mset made = mset reqs + answers ev \<and>
    (\<forall>reqs' ev'. rll_lchan_signal lchan reqs = (reqs', ev') \<longrightarrow>
       (\<forall>r \<in> set made. rllr_lchan r = lchan \<longrightarrow> r \<notin> set reqs' \<and> r \<in># answers (ev @ ev')))"
proof -
  have m: "mset made = mset reqs + answers ev" by (rule rll_run_answers [OF assms])
  have "r \<notin> set reqs' \<and> r \<in># answers (ev @ ev')"
    if s: "rll_lchan_signal lchan reqs = (reqs', ev')" and r: "r \<in> set made" "rllr_lchan r = lchan" for reqs' ev' r
  proof -
    have "reqs' = filter (\<lambda>r. rllr_lchan r \<noteq> lchan) reqs" using signal_clears [of lchan reqs] s by simp
    then have "r \<notin> set reqs'" using r(2) by auto
    moreover have "mset made = mset reqs' + answers (ev @ ev')" using m signal_keeps [OF s] by (simp add: ac_simps)
    ultimately show ?thesis using r(1) by (metis in_multiset_in_set union_iff)
  qed
  with m show ?thesis by blast
qed

theorem rll_answered_once_witness:
  "mset sample_rll = mset sample_rll + answers [Rsl_establish_request 5 3] \<and>
   \<lparr>rllr_lchan = 5, rllr_link_id = 3, rllr_cb = 7, rllr_data = 8\<rparr> \<in># answers (snd (rll_lchan_signal 5 sample_rll))"
proof -
  have run: "rll_run sample_rll [hd sample_rll] [Rsl_establish_request 5 3]"
    using rll_run.establish [OF rll_run.init, of 5 GSM_LCHAN_SDCCH 3 7 8]
    by (simp add: sample_rll_def rll_establish_def rll_link_id_def)
  have hd: "sample_rll = [\<lparr>rllr_lchan = 5, rllr_link_id = 3, rllr_cb = 7, rllr_data = 8\<rparr>]"
    by (simp add: sample_rll_def rll_establish_def rll_link_id_def)
  obtain reqs' ev' where s: "rll_lchan_signal 5 sample_rll = (reqs', ev')" by fastforce
  show ?thesis using rll_answered_once [OF run, of 5] s by (auto simp: hd)
qed

end
