(* ===== verification/Mncc.thy ===== *)
theory Mncc
  imports Gsm_Data
begin

unbundle bit_operations_syntax

text \<open>
  The messages between the call control of the MSC and its MNCC application
  (\<^verbatim>\<open>include/openbsc/mncc.h\<close>, \<^verbatim>\<open>src/libmsc/mncc.c\<close>). The decoded information elements whose structure the
  call control does not look at are octets indexed by \<open>mncc_ie\<close>.
\<close>

abbreviation (input) MNCC_SETUP_REQ :: u32 where "MNCC_SETUP_REQ \<equiv> 0x0101"
abbreviation (input) MNCC_SETUP_IND :: u32 where "MNCC_SETUP_IND \<equiv> 0x0102"
abbreviation (input) MNCC_SETUP_RSP :: u32 where "MNCC_SETUP_RSP \<equiv> 0x0103"
abbreviation (input) MNCC_SETUP_CNF :: u32 where "MNCC_SETUP_CNF \<equiv> 0x0104"
abbreviation (input) MNCC_SETUP_COMPL_REQ :: u32 where "MNCC_SETUP_COMPL_REQ \<equiv> 0x0105"
abbreviation (input) MNCC_SETUP_COMPL_IND :: u32 where "MNCC_SETUP_COMPL_IND \<equiv> 0x0106"
abbreviation (input) MNCC_CALL_CONF_IND :: u32 where "MNCC_CALL_CONF_IND \<equiv> 0x0107"
abbreviation (input) MNCC_CALL_PROC_REQ :: u32 where "MNCC_CALL_PROC_REQ \<equiv> 0x0108"
abbreviation (input) MNCC_PROGRESS_REQ :: u32 where "MNCC_PROGRESS_REQ \<equiv> 0x0109"
abbreviation (input) MNCC_ALERT_REQ :: u32 where "MNCC_ALERT_REQ \<equiv> 0x010a"
abbreviation (input) MNCC_ALERT_IND :: u32 where "MNCC_ALERT_IND \<equiv> 0x010b"
abbreviation (input) MNCC_NOTIFY_REQ :: u32 where "MNCC_NOTIFY_REQ \<equiv> 0x010c"
abbreviation (input) MNCC_NOTIFY_IND :: u32 where "MNCC_NOTIFY_IND \<equiv> 0x010d"
abbreviation (input) MNCC_DISC_REQ :: u32 where "MNCC_DISC_REQ \<equiv> 0x010e"
abbreviation (input) MNCC_DISC_IND :: u32 where "MNCC_DISC_IND \<equiv> 0x010f"
abbreviation (input) MNCC_REL_REQ :: u32 where "MNCC_REL_REQ \<equiv> 0x0110"
abbreviation (input) MNCC_REL_IND :: u32 where "MNCC_REL_IND \<equiv> 0x0111"
abbreviation (input) MNCC_REL_CNF :: u32 where "MNCC_REL_CNF \<equiv> 0x0112"
abbreviation (input) MNCC_FACILITY_REQ :: u32 where "MNCC_FACILITY_REQ \<equiv> 0x0113"
abbreviation (input) MNCC_FACILITY_IND :: u32 where "MNCC_FACILITY_IND \<equiv> 0x0114"
abbreviation (input) MNCC_START_DTMF_IND :: u32 where "MNCC_START_DTMF_IND \<equiv> 0x0115"
abbreviation (input) MNCC_START_DTMF_RSP :: u32 where "MNCC_START_DTMF_RSP \<equiv> 0x0116"
abbreviation (input) MNCC_START_DTMF_REJ :: u32 where "MNCC_START_DTMF_REJ \<equiv> 0x0117"
abbreviation (input) MNCC_STOP_DTMF_IND :: u32 where "MNCC_STOP_DTMF_IND \<equiv> 0x0118"
abbreviation (input) MNCC_STOP_DTMF_RSP :: u32 where "MNCC_STOP_DTMF_RSP \<equiv> 0x0119"
abbreviation (input) MNCC_MODIFY_REQ :: u32 where "MNCC_MODIFY_REQ \<equiv> 0x011a"
abbreviation (input) MNCC_MODIFY_IND :: u32 where "MNCC_MODIFY_IND \<equiv> 0x011b"
abbreviation (input) MNCC_MODIFY_RSP :: u32 where "MNCC_MODIFY_RSP \<equiv> 0x011c"
abbreviation (input) MNCC_MODIFY_CNF :: u32 where "MNCC_MODIFY_CNF \<equiv> 0x011d"
abbreviation (input) MNCC_MODIFY_REJ :: u32 where "MNCC_MODIFY_REJ \<equiv> 0x011e"
abbreviation (input) MNCC_HOLD_IND :: u32 where "MNCC_HOLD_IND \<equiv> 0x011f"
abbreviation (input) MNCC_HOLD_CNF :: u32 where "MNCC_HOLD_CNF \<equiv> 0x0120"
abbreviation (input) MNCC_HOLD_REJ :: u32 where "MNCC_HOLD_REJ \<equiv> 0x0121"
abbreviation (input) MNCC_RETRIEVE_IND :: u32 where "MNCC_RETRIEVE_IND \<equiv> 0x0122"
abbreviation (input) MNCC_RETRIEVE_CNF :: u32 where "MNCC_RETRIEVE_CNF \<equiv> 0x0123"
abbreviation (input) MNCC_RETRIEVE_REJ :: u32 where "MNCC_RETRIEVE_REJ \<equiv> 0x0124"
abbreviation (input) MNCC_USERINFO_REQ :: u32 where "MNCC_USERINFO_REQ \<equiv> 0x0125"
abbreviation (input) MNCC_USERINFO_IND :: u32 where "MNCC_USERINFO_IND \<equiv> 0x0126"
abbreviation (input) MNCC_REJ_REQ :: u32 where "MNCC_REJ_REQ \<equiv> 0x0127"
abbreviation (input) MNCC_REJ_IND :: u32 where "MNCC_REJ_IND \<equiv> 0x0128"
abbreviation (input) MNCC_BRIDGE :: u32 where "MNCC_BRIDGE \<equiv> 0x0200"
abbreviation (input) MNCC_FRAME_RECV :: u32 where "MNCC_FRAME_RECV \<equiv> 0x0201"
abbreviation (input) MNCC_FRAME_DROP :: u32 where "MNCC_FRAME_DROP \<equiv> 0x0202"
abbreviation (input) MNCC_LCHAN_MODIFY :: u32 where "MNCC_LCHAN_MODIFY \<equiv> 0x0203"
abbreviation (input) GSM_TCHF_FRAME :: u32 where "GSM_TCHF_FRAME \<equiv> 0x0300"

abbreviation (input) MNCC_F_BEARER_CAP :: u32 where "MNCC_F_BEARER_CAP \<equiv> 0x0001"
abbreviation (input) MNCC_F_CALLED :: u32 where "MNCC_F_CALLED \<equiv> 0x0002"
abbreviation (input) MNCC_F_CALLING :: u32 where "MNCC_F_CALLING \<equiv> 0x0004"
abbreviation (input) MNCC_F_REDIRECTING :: u32 where "MNCC_F_REDIRECTING \<equiv> 0x0008"
abbreviation (input) MNCC_F_CONNECTED :: u32 where "MNCC_F_CONNECTED \<equiv> 0x0010"
abbreviation (input) MNCC_F_CAUSE :: u32 where "MNCC_F_CAUSE \<equiv> 0x0020"
abbreviation (input) MNCC_F_USERUSER :: u32 where "MNCC_F_USERUSER \<equiv> 0x0040"
abbreviation (input) MNCC_F_PROGRESS :: u32 where "MNCC_F_PROGRESS \<equiv> 0x0080"
abbreviation (input) MNCC_F_FACILITY :: u32 where "MNCC_F_FACILITY \<equiv> 0x0200"
abbreviation (input) MNCC_F_SSVERSION :: u32 where "MNCC_F_SSVERSION \<equiv> 0x0400"
abbreviation (input) MNCC_F_CCCAP :: u32 where "MNCC_F_CCCAP \<equiv> 0x0800"
abbreviation (input) MNCC_F_KEYPAD :: u32 where "MNCC_F_KEYPAD \<equiv> 0x1000"
abbreviation (input) MNCC_F_SIGNAL :: u32 where "MNCC_F_SIGNAL \<equiv> 0x2000"

datatype mncc_ie = IE_BEARER_CAP | IE_FACILITY | IE_PROGRESS | IE_USERUSER | IE_SSVERSION | IE_CCCAP

record gsm_mncc_number =
  mnn_number :: string
  mnn_plan :: "u8 list"

record gsm_mncc_cause =
  mnc_location :: int
  mnc_coding :: int
  mnc_rec :: int
  mnc_rec_val :: int
  mnc_value :: int
  mnc_diag :: "u8 list"

record gsm_mncc =
  mn_msg_type :: u32
  mn_callref :: u32
  mn_fields :: u32
  mn_ie :: "mncc_ie \<Rightarrow> u8 list"
  mn_called :: gsm_mncc_number
  mn_calling :: gsm_mncc_number
  mn_redirecting :: gsm_mncc_number
  mn_connected :: gsm_mncc_number
  mn_cause :: gsm_mncc_cause
  mn_clir_sup :: int
  mn_clir_inv :: int
  mn_signal :: int
  mn_keypad :: int
  mn_more :: int
  mn_notify :: int
  mn_emergency :: int
  mn_imsi :: string
  mn_lchan_type :: gsm_chan_t
  mn_lchan_mode :: u8

definition zero_number :: gsm_mncc_number where
  "zero_number = \<lparr>mnn_number = [], mnn_plan = []\<rparr>"

definition zero_cause :: gsm_mncc_cause where
  "zero_cause = \<lparr>mnc_location = 0, mnc_coding = 0, mnc_rec = 0, mnc_rec_val = 0, mnc_value = 0, mnc_diag = []\<rparr>"

text \<open>A message cleared by \<^verbatim>\<open>memset\<close>.\<close>

definition zero_mncc :: gsm_mncc where
  "zero_mncc = \<lparr>mn_msg_type = 0, mn_callref = 0, mn_fields = 0, mn_ie = (\<lambda>_. []), mn_called = zero_number,
     mn_calling = zero_number, mn_redirecting = zero_number, mn_connected = zero_number, mn_cause = zero_cause,
     mn_clir_sup = 0, mn_clir_inv = 0, mn_signal = 0, mn_keypad = 0, mn_more = 0, mn_notify = 0, mn_emergency = 0,
     mn_imsi = [], mn_lchan_type = GSM_LCHAN_NONE, mn_lchan_mode = 0\<rparr>"

definition mncc_set_cause :: "int \<Rightarrow> int \<Rightarrow> gsm_mncc \<Rightarrow> gsm_mncc" where
  "mncc_set_cause loc val m =
     m\<lparr>mn_fields := mn_fields m OR MNCC_F_CAUSE, mn_cause := (mn_cause m)\<lparr>mnc_location := loc, mnc_value := val\<rparr>\<rparr>"

lemma mncc_set_cause_simps [simp]:
  "mn_callref (mncc_set_cause loc val m) = mn_callref m" "mn_msg_type (mncc_set_cause loc val m) = mn_msg_type m"
  by (simp_all add: mncc_set_cause_def)

lemma zero_mncc_simps [simp]: "mn_callref zero_mncc = 0" "mn_msg_type zero_mncc = 0"
  by (simp_all add: zero_mncc_def)

end
