(* ===== verification/Mncc_Builtin.thy ===== *)
theory Mncc_Builtin
  imports Mncc
begin

unbundle bit_operations_syntax

text \<open>
  The built-in MNCC application of the network in the box (\<^verbatim>\<open>src/libmsc/mncc_builtin.c\<close>): it joins the
  call of a mobile station with a second call to the called subscriber and forwards the messages of one to
  the other. The messages it sends back to the call control are listed in their order. Voice frames are not modelled.
\<close>

section \<open>Model\<close>

record gsm_call =
  gc_callref :: u32
  gc_remote_ref :: u32

record mncc_state =
  ms_call_list :: "gsm_call list"
  ms_new_callref :: u32

text \<open>The coding mode and the transfer capability of a bearer capability; the mode of the network's RTP and handover.\<close>

record mncc_cfg =
  mb_mode :: "u8 list \<Rightarrow> int"
  mb_transfer :: "u8 list \<Rightarrow> int"
  mb_rtp_direct :: bool
  mb_handover_active :: bool

datatype mncc_send =
    Tx_to_cc u32 gsm_mncc
  | Tx_bridge u32 u32

abbreviation (input) GSM_MNCC_BCAP_SPEECH :: int where "GSM_MNCC_BCAP_SPEECH \<equiv> 0"
abbreviation (input) GSM48_CMODE_SPEECH_V1 :: u8 where "GSM48_CMODE_SPEECH_V1 \<equiv> 0x01"
abbreviation (input) GSM48_CMODE_SPEECH_EFR :: u8 where "GSM48_CMODE_SPEECH_EFR \<equiv> 0x21"
abbreviation (input) LOC_PRN_S_LU :: int where "LOC_PRN_S_LU \<equiv> 1"
abbreviation (input) CAUSE_BEARER_CA_UNAVAIL :: int where "CAUSE_BEARER_CA_UNAVAIL \<equiv> 58"
abbreviation (input) CAUSE_SERV_OPT_UNIMPL :: int where "CAUSE_SERV_OPT_UNIMPL \<equiv> 79"

definition get_call_ref :: "u32 \<Rightarrow> gsm_call list \<Rightarrow> nat option" where
  "get_call_ref callref = find_idx (\<lambda>c. gc_callref c = callref)"

definition free_call :: "nat \<Rightarrow> mncc_state \<Rightarrow> mncc_state" where
  "free_call i st = st\<lparr>ms_call_list := take i (ms_call_list st) @ drop (Suc i) (ms_call_list st)\<rparr>"

definition determine_lchan_mode :: "gsm_mncc \<Rightarrow> u8" where
  "determine_lchan_mode setup =
     (if mn_lchan_type setup = GSM_LCHAN_TCH_F then GSM48_CMODE_SPEECH_EFR else GSM48_CMODE_SPEECH_V1)"

definition mncc_setup_ind :: "mncc_cfg \<Rightarrow> nat \<Rightarrow> gsm_mncc \<Rightarrow> mncc_state \<Rightarrow> mncc_state \<times> mncc_send list" where
  "mncc_setup_ind cfg i setup st =
     (let call = ms_call_list st ! i;
          blank = zero_mncc\<lparr>mn_callref := gc_callref call\<rparr>
      in if gc_remote_ref call \<noteq> 0 then (st, [])
         else if mb_mode cfg (mn_ie setup IE_BEARER_CAP) \<noteq> 0 \<or>
                 mb_transfer cfg (mn_ie setup IE_BEARER_CAP) \<noteq> GSM_MNCC_BCAP_SPEECH
         then (free_call i st, [Tx_to_cc MNCC_REJ_REQ (mncc_set_cause LOC_PRN_S_LU CAUSE_BEARER_CA_UNAVAIL blank)])
         else (let remote = \<lparr>gc_callref = ms_new_callref st, gc_remote_ref = gc_callref call\<rparr>
               in (st\<lparr>ms_call_list := (ms_call_list st)[i := call\<lparr>gc_remote_ref := gc_callref remote\<rparr>] @ [remote],
                      ms_new_callref := ms_new_callref st + 1\<rparr>,
                   [Tx_to_cc MNCC_LCHAN_MODIFY (blank\<lparr>mn_lchan_mode := determine_lchan_mode setup\<rparr>),
                    Tx_to_cc MNCC_CALL_PROC_REQ blank,
                    Tx_to_cc MNCC_SETUP_REQ (setup\<lparr>mn_callref := gc_callref remote\<rparr>)])))"

text \<open>A message forwarded to the other call of the pair, when it still exists.\<close>

definition forward :: "u32 \<Rightarrow> nat \<Rightarrow> gsm_mncc \<Rightarrow> mncc_state \<Rightarrow> mncc_send list" where
  "forward msg_type i m st =
     (case get_call_ref (gc_remote_ref (ms_call_list st ! i)) (ms_call_list st) of
        None \<Rightarrow> []
      | Some j \<Rightarrow> [Tx_to_cc msg_type (m\<lparr>mn_callref := gc_callref (ms_call_list st ! j)\<rparr>)])"

definition mncc_alert_ind :: "nat \<Rightarrow> gsm_mncc \<Rightarrow> mncc_state \<Rightarrow> mncc_state \<times> mncc_send list" where
  "mncc_alert_ind i alert st = (st, forward MNCC_ALERT_REQ i alert st)"

definition mncc_notify_ind :: "nat \<Rightarrow> gsm_mncc \<Rightarrow> mncc_state \<Rightarrow> mncc_state \<times> mncc_send list" where
  "mncc_notify_ind i notify st = (st, forward MNCC_NOTIFY_REQ i notify st)"

definition mncc_setup_cnf :: "mncc_cfg \<Rightarrow> nat \<Rightarrow> gsm_mncc \<Rightarrow> mncc_state \<Rightarrow> mncc_state \<times> mncc_send list" where
  "mncc_setup_cnf cfg i connect st =
     (let call = ms_call_list st ! i;
          ack = Tx_to_cc MNCC_SETUP_COMPL_REQ (zero_mncc\<lparr>mn_callref := gc_callref call\<rparr>)
      in case get_call_ref (gc_remote_ref call) (ms_call_list st) of
           None \<Rightarrow> (st, [ack])
         | Some j \<Rightarrow>
             (st, [ack, Tx_to_cc MNCC_SETUP_RSP (connect\<lparr>mn_callref := gc_callref (ms_call_list st ! j)\<rparr>)] @
                  (if mb_rtp_direct cfg \<or> \<not> mb_handover_active cfg
                   then [Tx_bridge (gc_callref call) (gc_remote_ref call)]
                   else [Tx_to_cc MNCC_FRAME_RECV (zero_mncc\<lparr>mn_callref := gc_callref call\<rparr>),
                         Tx_to_cc MNCC_FRAME_RECV (zero_mncc\<lparr>mn_callref := gc_remote_ref call\<rparr>)])))"

definition mncc_disc_ind :: "nat \<Rightarrow> gsm_mncc \<Rightarrow> mncc_state \<Rightarrow> mncc_state \<times> mncc_send list" where
  "mncc_disc_ind i disc st = (st, Tx_to_cc MNCC_REL_REQ disc # forward MNCC_DISC_REQ i disc st)"

definition mncc_rel_ind :: "nat \<Rightarrow> gsm_mncc \<Rightarrow> mncc_state \<Rightarrow> mncc_state \<times> mncc_send list" where
  "mncc_rel_ind i rel st = (free_call i st, forward MNCC_REL_REQ i rel st)"

definition mncc_rel_cnf :: "nat \<Rightarrow> gsm_mncc \<Rightarrow> mncc_state \<Rightarrow> mncc_state \<times> mncc_send list" where
  "mncc_rel_cnf i rel st = (free_call i st, [])"

definition mncc_reject :: "u32 \<Rightarrow> gsm_mncc \<Rightarrow> mncc_state \<Rightarrow> mncc_state \<times> mncc_send list" where
  "mncc_reject msg_type m st = (st, [Tx_to_cc msg_type (mncc_set_cause LOC_PRN_S_LU CAUSE_SERV_OPT_UNIMPL m)])"

text \<open>The dispatch of a message that belongs to a known call.\<close>

definition mncc_dispatch :: "mncc_cfg \<Rightarrow> nat \<Rightarrow> gsm_mncc \<Rightarrow> mncc_state \<Rightarrow> mncc_state \<times> mncc_send list" where
  "mncc_dispatch cfg i m st =
     (let ty = mn_msg_type m
      in if ty = MNCC_SETUP_IND then mncc_setup_ind cfg i m st
         else if ty = MNCC_SETUP_CNF then mncc_setup_cnf cfg i m st
         else if ty = MNCC_CALL_CONF_IND
         then (st, [Tx_to_cc MNCC_LCHAN_MODIFY (m\<lparr>mn_lchan_mode := determine_lchan_mode m\<rparr>)])
         else if ty = MNCC_ALERT_IND then mncc_alert_ind i m st
         else if ty = MNCC_NOTIFY_IND then mncc_notify_ind i m st
         else if ty = MNCC_DISC_IND then mncc_disc_ind i m st
         else if ty = MNCC_REL_IND \<or> ty = MNCC_REJ_IND then mncc_rel_ind i m st
         else if ty = MNCC_REL_CNF then mncc_rel_cnf i m st
         else if ty = MNCC_MODIFY_IND then mncc_reject MNCC_MODIFY_REJ m st
         else if ty = MNCC_HOLD_IND then mncc_reject MNCC_HOLD_REJ m st
         else if ty = MNCC_RETRIEVE_IND then mncc_reject MNCC_RETRIEVE_REJ m st
         else (st, []))"

definition int_mncc_recv :: "mncc_cfg \<Rightarrow> gsm_mncc \<Rightarrow> mncc_state \<Rightarrow> mncc_state \<times> mncc_send list" where
  "int_mncc_recv cfg m st =
     (case get_call_ref (mn_callref m) (ms_call_list st) of
        Some i \<Rightarrow> mncc_dispatch cfg i m st
      | None \<Rightarrow>
          (if mn_msg_type m \<noteq> MNCC_SETUP_IND then (st, [])
           else mncc_dispatch cfg (length (ms_call_list st)) m
                  (st\<lparr>ms_call_list := ms_call_list st @ [\<lparr>gc_callref = mn_callref m, gc_remote_ref = 0\<rparr>]\<rparr>)))"

section \<open>Invariant\<close>

text \<open>The references of the calls started here stay below those of the calls started by mobile stations.\<close>

definition own_ref :: "u32 \<Rightarrow> bool" where
  "own_ref r \<longleftrightarrow> r < 0x80000000"

text \<open>Call references are unique and not 0; when both calls of a pair exist each names the other; the references
  given out so far are below the next one.\<close>

definition calls_linked :: "gsm_call list \<Rightarrow> bool" where
  "calls_linked cs \<longleftrightarrow> (\<forall>c \<in> set cs. \<forall>d \<in> set cs. gc_remote_ref c = gc_callref d \<longrightarrow> gc_remote_ref d = gc_callref c)"

definition mncc_ok :: "mncc_state \<Rightarrow> bool" where
  "mncc_ok st \<longleftrightarrow>
     distinct (map gc_callref (ms_call_list st)) \<and> calls_linked (ms_call_list st) \<and>
     0 < ms_new_callref st \<and>
     (\<forall>c \<in> set (ms_call_list st). gc_callref c \<noteq> 0 \<and> (own_ref (gc_callref c) \<longrightarrow> gc_callref c < ms_new_callref st) \<and>
        (own_ref (gc_remote_ref c) \<longrightarrow> gc_remote_ref c < ms_new_callref st))"

text \<open>A message of the call control: a new call has a reference of the mobile stations' range, and this side has
  references left.\<close>

definition mncc_msg_ok :: "gsm_mncc \<Rightarrow> mncc_state \<Rightarrow> bool" where
  "mncc_msg_ok m st \<longleftrightarrow> own_ref (ms_new_callref st) \<and>
     (get_call_ref (mn_callref m) (ms_call_list st) = None \<longrightarrow>
      \<not> own_ref (mn_callref m) \<and> (\<forall>c \<in> set (ms_call_list st). gc_remote_ref c \<noteq> mn_callref m))"

lemma calls_linked_mono: "calls_linked cs \<Longrightarrow> set ds \<subseteq> set cs \<Longrightarrow> calls_linked ds"
  unfolding calls_linked_def by (meson subsetD)

lemma mncc_ok_split:
  assumes "ms_call_list st = xs @ c # ys" "mncc_ok st"
  shows "mncc_ok (st\<lparr>ms_call_list := xs @ ys\<rparr>)"
proof -
  have "calls_linked (xs @ ys)" using calls_linked_mono [of "xs @ c # ys" "xs @ ys"] assms by (auto simp: mncc_ok_def)
  then show ?thesis using assms by (auto simp: mncc_ok_def)
qed

lemma free_call_ok:
  assumes "mncc_ok st" "i < length (ms_call_list st)"
  shows "mncc_ok (free_call i st)"
proof -
  obtain xs c ys where s: "ms_call_list st = xs @ c # ys" "length xs = i" using split_nth [OF assms(2)] by metis
  have "free_call i st = st\<lparr>ms_call_list := xs @ ys\<rparr>" by (simp add: free_call_def s(1) s(2) [symmetric])
  then show ?thesis using mncc_ok_split [OF s(1) assms(1)] by simp
qed

lemma own_ref_next:
  assumes "own_ref n"
  shows "r \<le> n \<Longrightarrow> r < n + 1" "0 < n + 1"
proof -
  have u: "unat n < unat (0x80000000 :: u32)" using assms by (simp add: own_ref_def word_less_nat_alt)
  have "unat (n + 1) = unat n + 1" using u by (simp add: unat_word_ariths)
  then show "r \<le> n \<Longrightarrow> r < n + 1" "0 < n + 1" by (simp_all add: word_less_nat_alt word_le_nat_alt)
qed

lemma pair_ok:
  assumes "mncc_ok st" "ms_call_list st = xs @ c # ys" "gc_remote_ref c = 0" "own_ref (ms_new_callref st)"
  shows "mncc_ok (st\<lparr>ms_call_list := xs @ c\<lparr>gc_remote_ref := ms_new_callref st\<rparr> # ys @
           [\<lparr>gc_callref = ms_new_callref st, gc_remote_ref = gc_callref c\<rparr>],
         ms_new_callref := ms_new_callref st + 1\<rparr>)"
proof -
  let ?n = "ms_new_callref st"
  let ?o = "set xs \<union> set ys"
  have d: "distinct (map gc_callref (xs @ c # ys))" and l: "calls_linked (xs @ c # ys)"
    and b: "\<And>x. x \<in> insert c ?o \<Longrightarrow> gc_callref x \<noteq> 0 \<and> (own_ref (gc_callref x) \<longrightarrow> gc_callref x < ?n) \<and>
        (own_ref (gc_remote_ref x) \<longrightarrow> gc_remote_ref x < ?n)"
    using assms(1) unfolding mncc_ok_def assms(2) by auto
  have fresh: "gc_callref x \<noteq> ?n" "gc_remote_ref x \<noteq> ?n" if "x \<in> insert c ?o" for x
    using b [OF that] assms(4) by auto
  have alone: "gc_remote_ref x \<noteq> gc_callref c" if "x \<in> ?o" for x
  proof
    assume "gc_remote_ref x = gc_callref c"
    moreover have "x \<in> set (xs @ c # ys)" "c \<in> set (xs @ c # ys)" using that by auto
    ultimately have "gc_remote_ref c = gc_callref x" using l unfolding calls_linked_def by blast
    then show False using b [of x] that assms(3) by auto
  qed
  have uniq: "gc_callref x \<noteq> gc_callref c" if "x \<in> ?o" for x using d that by (auto simp: image_iff)
  have nz: "gc_callref c \<noteq> 0" "gc_callref c \<noteq> ?n" using b [of c] fresh(1) [of c] by simp_all
  have lo: "gc_remote_ref x = gc_callref y \<longrightarrow> gc_remote_ref y = gc_callref x" if "x \<in> ?o" "y \<in> ?o" for x y
  proof -
    have "x \<in> set (xs @ c # ys)" "y \<in> set (xs @ c # ys)" using that by auto
    then show ?thesis using l unfolding calls_linked_def by blast
  qed
  have "calls_linked (xs @ c\<lparr>gc_remote_ref := ?n\<rparr> # ys @ [\<lparr>gc_callref = ?n, gc_remote_ref = gc_callref c\<rparr>])"
  proof (unfold calls_linked_def, intro ballI impI)
    fix x y
    assume x: "x \<in> set (xs @ c\<lparr>gc_remote_ref := ?n\<rparr> # ys @ [\<lparr>gc_callref = ?n, gc_remote_ref = gc_callref c\<rparr>])"
      and y: "y \<in> set (xs @ c\<lparr>gc_remote_ref := ?n\<rparr> # ys @ [\<lparr>gc_callref = ?n, gc_remote_ref = gc_callref c\<rparr>])"
      and e: "gc_remote_ref x = gc_callref y"
    show "gc_remote_ref y = gc_callref x"
    proof (cases "x \<in> ?o \<and> y \<in> ?o")
      case True
      then show ?thesis using lo e by blast
    next
      case False
      then show ?thesis using x y e fresh [of x] fresh [of y] alone [of x] uniq [of y] nz by auto
    qed
  qed
  moreover have "distinct (map gc_callref (xs @ c\<lparr>gc_remote_ref := ?n\<rparr> # ys @ [\<lparr>gc_callref = ?n, gc_remote_ref = gc_callref c\<rparr>]))"
  proof -
    have "?n \<notin> gc_callref ` set xs" "?n \<notin> gc_callref ` set ys" using fresh(1) by fastforce+
    then show ?thesis using d nz(2) by simp
  qed
  moreover have "own_ref r \<longrightarrow> r < ?n + 1" if "own_ref r \<longrightarrow> r < ?n" for r
    using that own_ref_next(1) [OF assms(4), of r] by auto
  moreover have "0 < ?n" using assms(1) by (simp add: mncc_ok_def)
  ultimately show ?thesis using b own_ref_next [OF assms(4)] nz fresh
    unfolding mncc_ok_def by auto
qed

section \<open>Properties\<close>

lemma found_call:
  assumes "get_call_ref r cs = Some i"
  shows "i < length cs" "gc_callref (cs ! i) = r"
  using find_idx_SomeD [OF assms [unfolded get_call_ref_def]] by simp_all

lemma new_call_ok:
  assumes "mncc_ok st" "mncc_msg_ok m st" "get_call_ref (mn_callref m) (ms_call_list st) = None"
  shows "mncc_ok (st\<lparr>ms_call_list := ms_call_list st @ [\<lparr>gc_callref = mn_callref m, gc_remote_ref = 0\<rparr>]\<rparr>)"
proof -
  let ?c = "\<lparr>gc_callref = mn_callref m, gc_remote_ref = 0\<rparr>"
  have n: "\<not> own_ref (mn_callref m)" "\<And>c. c \<in> set (ms_call_list st) \<Longrightarrow> gc_remote_ref c \<noteq> mn_callref m"
      "\<And>c. c \<in> set (ms_call_list st) \<Longrightarrow> gc_callref c \<noteq> mn_callref m"
    using assms(2,3) by (auto simp: mncc_msg_ok_def get_call_ref_def find_idx_None_iff)
  have nz: "mn_callref m \<noteq> 0" using n(1) by (auto simp: own_ref_def)
  have z: "\<And>c. c \<in> set (ms_call_list st) \<Longrightarrow> gc_callref c \<noteq> 0" and l: "calls_linked (ms_call_list st)"
    using assms(1) by (auto simp: mncc_ok_def)
  have "calls_linked (ms_call_list st @ [?c])"
  proof (unfold calls_linked_def, intro ballI impI)
    fix x y
    assume xy: "x \<in> set (ms_call_list st @ [?c])" "y \<in> set (ms_call_list st @ [?c])" "gc_remote_ref x = gc_callref y"
    then have "x \<in> set (ms_call_list st) \<and> y \<in> set (ms_call_list st)" using n z nz by auto
    then show "gc_remote_ref y = gc_callref x" using l xy(3) unfolding calls_linked_def by blast
  qed
  then show ?thesis using assms(1) n nz by (fastforce simp: mncc_ok_def)
qed

lemma setup_ind_ok:
  assumes "mncc_ok st" "i < length (ms_call_list st)" "own_ref (ms_new_callref st)"
  shows "mncc_ok (fst (mncc_setup_ind cfg i setup st))"
proof -
  obtain xs ys where s: "ms_call_list st = xs @ ms_call_list st ! i # ys" "length xs = i" using split_nth [OF assms(2)] by blast
  define c where "c = ms_call_list st ! i"
  note s = s [folded c_def]
  have u: "(ms_call_list st)[i := x] = xs @ x # ys" for x by (simp add: s(1) s(2) [symmetric])
  show ?thesis using pair_ok [OF assms(1) s(1) _ assms(3)] free_call_ok [OF assms(1,2)] assms(1)
    unfolding mncc_setup_ind_def Let_def c_def [symmetric] u by simp
qed

lemma dispatch_ok:
  assumes "mncc_ok st" "i < length (ms_call_list st)" "own_ref (ms_new_callref st)"
  shows "mncc_ok (fst (mncc_dispatch cfg i m st))"
  using setup_ind_ok [OF assms] free_call_ok [OF assms(1,2)] assms(1)
  by (simp add: mncc_dispatch_def Let_def mncc_setup_cnf_def mncc_alert_ind_def mncc_notify_ind_def mncc_disc_ind_def
      mncc_rel_ind_def mncc_rel_cnf_def mncc_reject_def split: option.split)

text \<open>A pair of calls.\<close>

definition sample_mncc :: mncc_state where
  "sample_mncc = \<lparr>ms_call_list = [\<lparr>gc_callref = 0x80000001, gc_remote_ref = 1\<rparr>, \<lparr>gc_callref = 1, gc_remote_ref = 0x80000001\<rparr>],
     ms_new_callref = 2\<rparr>"

definition sample_cfg :: mncc_cfg where
  "sample_cfg = \<lparr>mb_mode = (\<lambda>_. 0), mb_transfer = (\<lambda>_. 0), mb_rtp_direct = False, mb_handover_active = False\<rparr>"

lemma sample_mncc_ok: "mncc_ok sample_mncc"
  by (simp add: mncc_ok_def sample_mncc_def calls_linked_def own_ref_def)

text \<open>C34: Every message keeps the calls of the built-in application properly paired: call references are unique, two calls that are joined name each other, and a new pair gets a reference that no call uses.\<close>

theorem mncc_pairs_kept:
  assumes "mncc_ok st" "mncc_msg_ok m st"
  shows "mncc_ok (fst (int_mncc_recv cfg m st))"
proof (cases "get_call_ref (mn_callref m) (ms_call_list st)")
  case None
  then show ?thesis
    using assms dispatch_ok [OF new_call_ok [OF assms None], of "length (ms_call_list st)" cfg m]
    by (simp add: int_mncc_recv_def mncc_msg_ok_def)
next
  case (Some i)
  then show ?thesis using dispatch_ok [OF assms(1) found_call(1) [OF Some]] assms(2)
    by (simp add: int_mncc_recv_def mncc_msg_ok_def)
qed

theorem mncc_pairs_kept_witness:
  "mncc_ok (fst (int_mncc_recv sample_cfg (zero_mncc\<lparr>mn_msg_type := MNCC_SETUP_IND, mn_callref := 0x80000002\<rparr>) sample_mncc)) \<and>
   length (ms_call_list (fst (int_mncc_recv sample_cfg (zero_mncc\<lparr>mn_msg_type := MNCC_SETUP_IND, mn_callref := 0x80000002\<rparr>) sample_mncc))) = 4"
proof -
  let ?m = "zero_mncc\<lparr>mn_msg_type := MNCC_SETUP_IND, mn_callref := 0x80000002\<rparr>"
  have "mncc_msg_ok ?m sample_mncc"
    by (simp add: mncc_msg_ok_def own_ref_def sample_mncc_def get_call_ref_def)
  moreover have "length (ms_call_list (fst (int_mncc_recv sample_cfg ?m sample_mncc))) = 4"
    by (simp add: int_mncc_recv_def get_call_ref_def sample_mncc_def mncc_dispatch_def mncc_setup_ind_def sample_cfg_def
        Let_def)
  ultimately show ?thesis using mncc_pairs_kept [OF sample_mncc_ok] by blast
qed

text \<open>The end of one call of a pair ends the other: a release or reject indication removes the call it is for, and if the peer still exists the call control gets exactly one release request, for the peer, with the indication's cause; the next release indication for either finds no peer to release again.\<close>

theorem mncc_release_forwarded:
  assumes "mncc_ok st" "c \<in> set (ms_call_list st)" "d \<in> set (ms_call_list st)" "gc_remote_ref c = gc_callref d"
    "mn_callref m = gc_callref c" "mn_msg_type m = MNCC_REL_IND \<or> mn_msg_type m = MNCC_REJ_IND"
  shows "\<exists>st'. int_mncc_recv cfg m st = (st', [Tx_to_cc MNCC_REL_REQ (m\<lparr>mn_callref := gc_callref d\<rparr>)]) \<and>
     get_call_ref (gc_callref c) (ms_call_list st') = None \<and> set (ms_call_list st') = set (ms_call_list st) - {c} \<and>
     (c \<noteq> d \<longrightarrow> (\<forall>m'. mn_callref m' = gc_callref d \<longrightarrow> mn_msg_type m' = mn_msg_type m \<longrightarrow>
        snd (int_mncc_recv cfg m' st') = []))"
proof -
  have dist: "distinct (map gc_callref (ms_call_list st))" using assms(1) by (simp add: mncc_ok_def)
  have inj: "gc_callref x = gc_callref y \<Longrightarrow> x \<in> set (ms_call_list st) \<Longrightarrow> y \<in> set (ms_call_list st) \<Longrightarrow> x = y" for x y
    using dist by (meson distinct_map inj_onD)
  have fnd: "\<exists>k. get_call_ref (gc_callref x) cs = Some k \<and> k < length cs \<and> gc_callref (cs ! k) = gc_callref x"
    if "x \<in> set cs" for x cs
    using find_idx_exists [OF that, of "\<lambda>c. gc_callref c = gc_callref x"] found_call by (auto simp: get_call_ref_def)
  obtain i where i: "get_call_ref (gc_callref c) (ms_call_list st) = Some i" "i < length (ms_call_list st)"
      "ms_call_list st ! i = c" using fnd [OF assms(2)] inj [OF _ _ assms(2)] by (metis nth_mem)
  obtain j where j: "get_call_ref (gc_callref d) (ms_call_list st) = Some j" "j < length (ms_call_list st)"
      "ms_call_list st ! j = d" using fnd [OF assms(3)] inj [OF _ _ assms(3)] by (metis nth_mem)
  obtain xs ys where s: "ms_call_list st = xs @ c # ys" "length xs = i" using split_nth [OF i(2)] i(3) by metis
  let ?st = "free_call i st"
  have l: "ms_call_list ?st = xs @ ys" by (simp add: free_call_def s(1) s(2) [symmetric])
  have r: "int_mncc_recv cfg m st = (?st, [Tx_to_cc MNCC_REL_REQ (m\<lparr>mn_callref := gc_callref d\<rparr>)])"
    using assms(4-6) i j by (auto simp: int_mncc_recv_def mncc_dispatch_def mncc_rel_ind_def forward_def)
  have c: "gc_callref x \<noteq> gc_callref c" if "x \<in> set (xs @ ys)" for x
  proof -
    have "gc_callref x \<in> gc_callref ` set (xs @ ys)" using that by (rule imageI)
    moreover have "gc_callref c \<notin> gc_callref ` set (xs @ ys)" using dist by (simp add: s(1) image_Un)
    ultimately show ?thesis by metis
  qed
  have gone: "get_call_ref (gc_callref c) (ms_call_list ?st) = None"
    using c by (auto simp: l get_call_ref_def find_idx_None_iff)
  have sets: "set (ms_call_list ?st) = set (ms_call_list st) - {c}" using c by (auto simp: l s(1))
  have "snd (int_mncc_recv cfg m' ?st) = []"
    if m': "mn_callref m' = gc_callref d" "mn_msg_type m' = mn_msg_type m" "c \<noteq> d" for m'
  proof -
    have "d \<in> set (ms_call_list ?st)" using sets assms(3) m'(3) by auto
    then obtain k where k: "get_call_ref (gc_callref d) (ms_call_list ?st) = Some k" "k < length (ms_call_list ?st)"
        "gc_callref (ms_call_list ?st ! k) = gc_callref d" using fnd by blast
    have "ms_call_list ?st ! k \<in> set (ms_call_list st)" using nth_mem [OF k(2)] unfolding sets by blast
    then have kd: "ms_call_list ?st ! k = d" using inj [OF k(3) _ assms(3)] by blast
    have "gc_remote_ref d = gc_callref c" using assms(1-4) unfolding mncc_ok_def calls_linked_def by blast
    then show ?thesis using k kd m' assms(6) gone
      by (auto simp: int_mncc_recv_def mncc_dispatch_def mncc_rel_ind_def forward_def)
  qed
  then show ?thesis using r gone sets by blast
qed

theorem mncc_release_forwarded_witness:
  "snd (int_mncc_recv sample_cfg (zero_mncc\<lparr>mn_msg_type := MNCC_REL_IND, mn_callref := 1\<rparr>) sample_mncc) =
     [Tx_to_cc MNCC_REL_REQ (zero_mncc\<lparr>mn_msg_type := MNCC_REL_IND, mn_callref := 0x80000001\<rparr>)]"
  using mncc_release_forwarded [OF sample_mncc_ok, of "\<lparr>gc_callref = 1, gc_remote_ref = 0x80000001\<rparr>"
      "\<lparr>gc_callref = 0x80000001, gc_remote_ref = 1\<rparr>" "zero_mncc\<lparr>mn_msg_type := MNCC_REL_IND, mn_callref := 1\<rparr>" sample_cfg]
  by (auto simp: sample_mncc_def)

end
