(* ===== verification/Subscriber.thy ===== *)
theory Subscriber
  imports Paging
begin

text \<open>
  The subscribers in memory (\<^verbatim>\<open>src/libbsc/gsm_subscriber_base.c\<close>) and the queue of channel requests of a
  subscriber (\<^verbatim>\<open>src/libmsc/gsm_subscriber.c\<close>). The queue uses the paging of the BSC, a state of
  type \<open>'p\<close> with the operations \<open>page\<close> and \<open>stop\<close>; the interpretation at the end takes those of the theory Paging.
  Callbacks are events and do not call back into this code. \<open>None\<close> is the use of a subscriber that has been freed.
\<close>

section \<open>State\<close>

datatype req_state =
    REQ_STATE_INITIAL | REQ_STATE_QUEUED | REQ_STATE_PAGED | REQ_STATE_FAILED_START | REQ_STATE_DISPATCHED

record subscr_request =
  sr_channel_type :: int
  sr_state :: req_state
  sr_cbfn :: nat
  sr_param :: nat

record gsm_subscriber =
  sb_addr :: nat
  sb_id :: nat
  sb_imsi :: string
  sb_tmsi :: u32
  sb_lac :: u16
  sb_name :: string
  sb_extension :: string
  sb_use_count :: int
  sb_in_callback :: bool
  sb_requests :: "subscr_request list"

datatype sub_event =
    Paging_signal nat bool
  | Subscr_cbfn nat gsm_paging_event "nat option" nat
  | Secure_channel nat u8 nat
  | Db_sync nat
  | Subscr_signal nat bool

abbreviation (input) GSM_LAC_RESERVED_DETACHED :: u16 where "GSM_LAC_RESERVED_DETACHED \<equiv> 0x0000"

section \<open>Subscribers in memory\<close>

definition subscr_name :: "gsm_subscriber \<Rightarrow> string" where
  "subscr_name s = (if sb_name s \<noteq> [] then sb_name s else sb_imsi s)"

definition subscr_alloc :: "nat \<Rightarrow> gsm_subscriber list \<Rightarrow> gsm_subscriber list" where
  "subscr_alloc addr act =
     act @ [\<lparr>sb_addr = addr, sb_id = 0, sb_imsi = [], sb_tmsi = GSM_RESERVED_TMSI, sb_lac = 0, sb_name = [], sb_extension = [],
             sb_use_count = 1, sb_in_callback = False, sb_requests = []\<rparr>]"

definition subscr_get :: "gsm_subscriber \<Rightarrow> gsm_subscriber" where
  "subscr_get s = s\<lparr>sb_use_count := sb_use_count s + 1\<rparr>"

text \<open>Dropping a reference; \<open>None\<close> when the subscriber is freed.\<close>

definition subscr_put :: "bool \<Rightarrow> gsm_subscriber \<Rightarrow> gsm_subscriber option" where
  "subscr_put keep s =
     (let s1 = s\<lparr>sb_use_count := sb_use_count s - 1\<rparr> in if sb_use_count s1 \<le> 0 \<and> \<not> keep then None else Some s1)"

text \<open>The lookups take a reference of the subscriber they find.\<close>

definition find_get :: "(gsm_subscriber \<Rightarrow> bool) \<Rightarrow> gsm_subscriber list \<Rightarrow> gsm_subscriber list \<times> nat option" where
  "find_get P act =
     (case find_idx P act of None \<Rightarrow> (act, None) | Some i \<Rightarrow> (act[i := subscr_get (act ! i)], Some i))"

definition subscr_active_by_tmsi :: "u32 \<Rightarrow> gsm_subscriber list \<Rightarrow> gsm_subscriber list \<times> nat option" where
  "subscr_active_by_tmsi tmsi = find_get (\<lambda>s. sb_tmsi s = tmsi)"

definition subscr_active_by_imsi :: "string \<Rightarrow> gsm_subscriber list \<Rightarrow> gsm_subscriber list \<times> nat option" where
  "subscr_active_by_imsi imsi = find_get (\<lambda>s. sb_imsi s = imsi)"

definition subscr_get_or_create :: "nat \<Rightarrow> string \<Rightarrow> gsm_subscriber list \<Rightarrow> gsm_subscriber list \<times> nat" where
  "subscr_get_or_create addr imsi act =
     (case find_get (\<lambda>s. sb_imsi s = imsi) act of
        (act', Some i) \<Rightarrow> (act', i)
      | (_, None) \<Rightarrow>
          (let n = length act; act1 = subscr_alloc addr act in (act1[n := (act1 ! n)\<lparr>sb_imsi := imsi\<rparr>], n)))"

definition subscr_purge_inactive :: "gsm_subscriber list \<Rightarrow> gsm_subscriber list \<times> nat" where
  "subscr_purge_inactive act =
     (filter (\<lambda>s. \<not> sb_use_count s \<le> 0) act, length (filter (\<lambda>s. sb_use_count s \<le> 0) act))"

text \<open>The lookups that fall back to the data base, a parameter that may add a subscriber to those in memory.\<close>

definition or_db :: "(gsm_subscriber list \<Rightarrow> gsm_subscriber list \<times> nat option) \<Rightarrow>
    gsm_subscriber list \<times> nat option \<Rightarrow> gsm_subscriber list \<times> nat option" where
  "or_db db r = (case r of (act, Some i) \<Rightarrow> (act, Some i) | (act, None) \<Rightarrow> db act)"

definition subscr_get_by_tmsi where
  "subscr_get_by_tmsi db tmsi act = or_db (db tmsi) (find_get (\<lambda>s. tmsi = sb_tmsi s) act)"

definition subscr_get_by_imsi where
  "subscr_get_by_imsi db imsi act = or_db (db imsi) (find_get (\<lambda>s. sb_imsi s = imsi) act)"

definition subscr_get_by_extension where
  "subscr_get_by_extension db ext act = or_db (db ext) (find_get (\<lambda>s. sb_extension s = ext) act)"

definition subscr_get_by_id where
  "subscr_get_by_id db i act = or_db (db i) (find_get (\<lambda>s. sb_id s = i) act)"

datatype gsm_subscriber_update_reason =
    GSM_SUBSCRIBER_UPDATE_ATTACHED | GSM_SUBSCRIBER_UPDATE_DETACHED | GSM_SUBSCRIBER_UPDATE_EQUIPMENT

definition subscr_update :: "u16 \<Rightarrow> gsm_subscriber_update_reason \<Rightarrow> gsm_subscriber \<Rightarrow> gsm_subscriber \<times> sub_event list" where
  "subscr_update bts_lac reason s =
     (case reason of
        GSM_SUBSCRIBER_UPDATE_ATTACHED \<Rightarrow>
          (s\<lparr>sb_lac := bts_lac\<rparr>, [Db_sync (sb_addr s), Subscr_signal (sb_addr s) True])
      | GSM_SUBSCRIBER_UPDATE_DETACHED \<Rightarrow>
          (if bts_lac = sb_lac s then s\<lparr>sb_lac := GSM_LAC_RESERVED_DETACHED\<rparr> else s, [Db_sync (sb_addr s), Subscr_signal (sb_addr s) False])
      | _ \<Rightarrow> (s, [Db_sync (sb_addr s)]))"

section \<open>Channel requests\<close>

type_synonym 'p sub_result = "(gsm_subscriber option \<times> 'p \<times> sub_event list) option"

definition set_head_state :: "req_state \<Rightarrow> gsm_subscriber \<Rightarrow> gsm_subscriber" where
  "set_head_state st s =
     (case sb_requests s of [] \<Rightarrow> s | r # rs \<Rightarrow> s\<lparr>sb_requests := r\<lparr>sr_state := st\<rparr> # rs\<rparr>)"

lemma set_head_state_simps [simp]:
  "length (sb_requests (set_head_state st s)) = length (sb_requests s)"
  "sb_use_count (set_head_state st s) = sb_use_count s"
  "sb_addr (set_head_state st s) = sb_addr s"
  "map sr_param (sb_requests (set_head_state st s)) = map sr_param (sb_requests s)"
  by (simp_all add: set_head_state_def split: list.splits)

text \<open>The answer to a page goes to the callback of the first request; a failed page stops the pages that are left and goes
  on with the next request, which may fail at once.\<close>

function (sequential) subscr_paging_dispatch ::
    "(nat \<Rightarrow> int \<Rightarrow> 'p \<Rightarrow> 'p \<times> int) \<Rightarrow> (nat \<Rightarrow> 'p \<Rightarrow> 'p) \<Rightarrow> bool \<Rightarrow> gsm_paging_event \<Rightarrow> nat option \<Rightarrow>
      gsm_subscriber \<Rightarrow> 'p \<Rightarrow> 'p sub_result"
and subscr_put_channel ::
    "(nat \<Rightarrow> int \<Rightarrow> 'p \<Rightarrow> 'p \<times> int) \<Rightarrow> (nat \<Rightarrow> 'p \<Rightarrow> 'p) \<Rightarrow> bool \<Rightarrow> gsm_subscriber \<Rightarrow> 'p \<Rightarrow> 'p sub_result"
where
  "subscr_paging_dispatch page stop keep event conn s p =
     (case sb_requests s of
        [] \<Rightarrow> Some (Some s, p, [])
      | r # rs \<Rightarrow>
          (let ev = [Paging_signal (sb_addr s) (event = GSM_PAGING_SUCCEEDED), Subscr_cbfn (sr_cbfn r) event conn (sr_param r)];
               s1 = s\<lparr>sb_requests := rs, sb_in_callback := False\<rparr>
           in if event = GSM_PAGING_SUCCEEDED then Some (subscr_put keep s1, p, ev)
              else (case subscr_put_channel page stop keep s1 (stop (sb_addr s) p) of
                      Some (Some s2, p2, ev2) \<Rightarrow> Some (subscr_put keep s2, p2, ev @ ev2)
                    | _ \<Rightarrow> None)))"
| "subscr_put_channel page stop keep s p =
     (if sb_requests s = [] then Some (Some s, p, [])
      else (let s1 = set_head_state REQ_STATE_PAGED s;
                (p1, rc) = page (sb_addr s) (sr_channel_type (hd (sb_requests s))) p
            in if rc \<le> 0
               then subscr_paging_dispatch page stop keep GSM_PAGING_BUSY None (set_head_state REQ_STATE_FAILED_START s1) p1
               else Some (Some s1, p1, [])))"
  by pat_completeness auto

termination
  by (relation "measure (\<lambda>x. case x of Inl (page, stop, keep, event, conn, s, p) \<Rightarrow> 2 * length (sb_requests s)
        | Inr (page, stop, keep, s, p) \<Rightarrow> Suc (2 * length (sb_requests s)))") auto

declare subscr_paging_dispatch.simps [simp del] subscr_put_channel.simps [simp del]

text \<open>\<^verbatim>\<open>subscr_send_paging_request\<close> is the part of \<open>subscr_put_channel\<close> for a queue that is not empty.\<close>

definition subscr_get_channel ::
  "(nat \<Rightarrow> int \<Rightarrow> 'p \<Rightarrow> 'p \<times> int) \<Rightarrow> (nat \<Rightarrow> 'p \<Rightarrow> 'p) \<Rightarrow> bool \<Rightarrow> int \<Rightarrow> nat \<Rightarrow> nat \<Rightarrow>
    gsm_subscriber \<Rightarrow> 'p \<Rightarrow> 'p sub_result" where
  "subscr_get_channel page stop keep ty cbfn param s p =
     (let req = \<lparr>sr_channel_type = ty, sr_state = REQ_STATE_INITIAL, sr_cbfn = cbfn, sr_param = param\<rparr>;
          s1 = subscr_get s
      in if \<not> sb_in_callback s \<and> sb_requests s = []
         then subscr_put_channel page stop keep (s1\<lparr>sb_requests := [req]\<rparr>) p
         else Some (Some (s1\<lparr>sb_requests := sb_requests s1 @ [req\<lparr>sr_state := REQ_STATE_QUEUED\<rparr>]\<rparr>), p, []))"

datatype gsm_security_event =
    GSM_SECURITY_NOAVAIL | GSM_SECURITY_AUTH_FAILED | GSM_SECURITY_SUCCEEDED

text \<open>The answer of the BSC, and that of the authentication which follows a successful one.\<close>

definition subscr_paging_cb where
  "subscr_paging_cb page stop keep event conn key_seq s p =
     (if event \<noteq> GSM_PAGING_SUCCEEDED then subscr_paging_dispatch page stop keep event conn s p
      else (case conn of None \<Rightarrow> None | Some c \<Rightarrow> Some (Some s, p, [Secure_channel c key_seq (sb_addr s)])))"

definition subscr_paging_sec_cb where
  "subscr_paging_sec_cb page stop keep event conn s p =
     (case event of
        GSM_SECURITY_AUTH_FAILED \<Rightarrow> subscr_paging_dispatch page stop keep GSM_PAGING_EXPIRED conn s p
      | _ \<Rightarrow> subscr_paging_dispatch page stop keep GSM_PAGING_SUCCEEDED conn s p)"

definition subscr_pending_requests :: "gsm_subscriber \<Rightarrow> nat" where
  "subscr_pending_requests s = length (sb_requests s)"

text \<open>Clearing the queue drops the references of the requests; \<open>None\<close> is a subscriber freed before the last of them.\<close>

fun pending_clear_loop :: "bool \<Rightarrow> nat \<Rightarrow> gsm_subscriber \<Rightarrow> gsm_subscriber option option" where
  "pending_clear_loop keep 0 s = Some (Some s)"
| "pending_clear_loop keep (Suc n) s =
     (case subscr_put keep s of
        None \<Rightarrow> None
      | Some s1 \<Rightarrow> pending_clear_loop keep n (s1\<lparr>sb_requests := tl (sb_requests s1)\<rparr>))"

definition subscr_pending_clear :: "bool \<Rightarrow> gsm_subscriber \<Rightarrow> (gsm_subscriber option \<times> nat) option" where
  "subscr_pending_clear keep s =
     map_option (\<lambda>r. (r, length (sb_requests s))) (pending_clear_loop keep (length (sb_requests s)) s)"

definition subscr_pending_kick where
  "subscr_pending_kick page stop keep s p = subscr_put_channel page stop keep s p"

section \<open>The paging as a service\<close>

text \<open>The parameters of the callbacks that were called.\<close>

fun cb_param :: "sub_event \<Rightarrow> nat list" where
  "cb_param (Subscr_cbfn cb event conn param) = [param]"
| "cb_param _ = []"

definition cb_params :: "sub_event list \<Rightarrow> nat list" where
  "cb_params ev = concat (map cb_param ev)"

lemma cb_params_simps [simp]:
  "cb_params [] = []" "cb_params (e # ev) = cb_param e @ cb_params ev" "cb_params (ev @ ev') = cb_params ev @ cb_params ev'"
  by (simp_all add: cb_params_def)

text \<open>The first request of the queue, if there is one, is being paged for.\<close>

definition paged_ok :: "(nat \<Rightarrow> 'p \<Rightarrow> bool) \<Rightarrow> gsm_subscriber \<Rightarrow> 'p \<Rightarrow> bool" where
  "paged_ok pending s p \<longleftrightarrow>
     sb_requests s = [] \<or> sr_state (hd (sb_requests s)) = REQ_STATE_PAGED \<and> pending (sb_addr s) p"

text \<open>What the operations on the queue keep: the order of the requests and the references they hold.\<close>

definition served :: "gsm_subscriber \<Rightarrow> gsm_subscriber \<Rightarrow> sub_event list \<Rightarrow> bool" where
  "served s s' ev \<longleftrightarrow> map sr_param (sb_requests s) = cb_params ev @ map sr_param (sb_requests s') \<and> sb_addr s' = sb_addr s \<and>
     sb_use_count s' - int (length (sb_requests s')) = sb_use_count s - int (length (sb_requests s))"

locale paging_service =
  fixes page :: "nat \<Rightarrow> int \<Rightarrow> 'p \<Rightarrow> 'p \<times> int"
    and stop :: "nat \<Rightarrow> 'p \<Rightarrow> 'p"
    and pending :: "nat \<Rightarrow> 'p \<Rightarrow> bool"
  assumes page_started: "page s ty p = (p', rc) \<Longrightarrow> 0 < rc \<Longrightarrow> pending s p'"
begin

lemma dispatch_after_put:
  assumes put: "\<And>p. \<exists>s' p' ev. subscr_put_channel page stop keep (s\<lparr>sb_requests := tl (sb_requests s), sb_in_callback := False\<rparr>) p =
      Some (Some s', p', ev) \<and> served (s\<lparr>sb_requests := tl (sb_requests s), sb_in_callback := False\<rparr>) s' ev \<and> paged_ok pending s' p'"
    and use: "int (length (sb_requests s)) < sb_use_count s"
  shows "\<exists>s' p' ev. subscr_paging_dispatch page stop keep event conn s p = Some (Some s', p', ev) \<and> served s s' ev \<and>
     (event \<noteq> GSM_PAGING_SUCCEEDED \<longrightarrow> paged_ok pending s' p')"
proof (cases "sb_requests s")
  case Nil
  then show ?thesis by (simp add: subscr_paging_dispatch.simps served_def paged_ok_def)
next
  case (Cons r rs)
  show ?thesis
  proof (cases "event = GSM_PAGING_SUCCEEDED")
    case True
    then show ?thesis using Cons use by (simp add: subscr_paging_dispatch.simps served_def subscr_put_def)
  next
    case False
    let ?s1 = "s\<lparr>sb_requests := rs, sb_in_callback := False\<rparr>"
    obtain s' p' ev where r: "subscr_put_channel page stop keep ?s1 (stop (sb_addr s) p) = Some (Some s', p', ev)"
        "served ?s1 s' ev" "paged_ok pending s' p'"
      using put [of "stop (sb_addr s) p"] Cons by auto
    have "1 < sb_use_count s'" using r(2) use Cons by (simp add: served_def)
    then show ?thesis using Cons False r
      by (simp add: subscr_paging_dispatch.simps served_def paged_ok_def subscr_put_def)
  qed
qed

lemma put_channel_serves:
  assumes "int (length (sb_requests s)) < sb_use_count s"
  shows "\<exists>s' p' ev. subscr_put_channel page stop keep s p = Some (Some s', p', ev) \<and> served s s' ev \<and> paged_ok pending s' p'"
  using assms
proof (induction "length (sb_requests s)" arbitrary: s p rule: less_induct)
  case less
  show ?case
  proof (cases "sb_requests s")
    case Nil
    then show ?thesis by (simp add: subscr_put_channel.simps served_def paged_ok_def)
  next
    case (Cons r rs)
    obtain p1 rc where pg: "page (sb_addr s) (sr_channel_type r) p = (p1, rc)" by (cases "page (sb_addr s) (sr_channel_type r) p")
    show ?thesis
    proof (cases "rc \<le> 0")
      case True
      let ?s = "set_head_state REQ_STATE_FAILED_START (set_head_state REQ_STATE_PAGED s)"
      have "length (tl (sb_requests ?s)) < length (sb_requests s)" using Cons by simp
      then obtain s' p' ev where "subscr_paging_dispatch page stop keep GSM_PAGING_BUSY None ?s p1 = Some (Some s', p', ev)"
          "served ?s s' ev" "paged_ok pending s' p'"
        using dispatch_after_put [of keep ?s GSM_PAGING_BUSY None p1] less by auto
      then show ?thesis using Cons pg True by (simp add: subscr_put_channel.simps served_def)
    next
      case False
      then show ?thesis using Cons pg page_started [OF pg]
        by (simp add: subscr_put_channel.simps served_def paged_ok_def set_head_state_def)
    qed
  qed
qed

text \<open>The answer to a page when nobody but the requests holds the subscriber: it may be freed once all are answered.\<close>

lemma dispatch_serves:
  assumes "int (length (sb_requests s)) \<le> sb_use_count s"
  shows "\<exists>r p' ev. subscr_paging_dispatch page stop keep event conn s p = Some (r, p', ev) \<and>
     (case r of
        None \<Rightarrow> map sr_param (sb_requests s) = cb_params ev
      | Some s' \<Rightarrow> served s s' ev \<and> (event \<noteq> GSM_PAGING_SUCCEEDED \<longrightarrow> paged_ok pending s' p'))"
proof (cases "sb_requests s")
  case Nil
  then show ?thesis by (simp add: subscr_paging_dispatch.simps served_def paged_ok_def)
next
  case (Cons r rs)
  let ?s1 = "s\<lparr>sb_requests := rs, sb_in_callback := False\<rparr>"
  show ?thesis
  proof (cases "event = GSM_PAGING_SUCCEEDED")
    case True
    have "sb_use_count s \<le> 1 \<Longrightarrow> rs = []" using Cons assms by (cases rs) auto
    then show ?thesis using True Cons assms by (auto simp: subscr_paging_dispatch.simps served_def subscr_put_def Let_def)
  next
    case False
    obtain s' p' ev where r: "subscr_put_channel page stop keep ?s1 (stop (sb_addr s) p) = Some (Some s', p', ev)"
        "served ?s1 s' ev" "paged_ok pending s' p'"
      using put_channel_serves [of ?s1 keep] Cons assms by fastforce
    have u: "int (length (sb_requests s')) < sb_use_count s'" using r(2) assms Cons by (simp add: served_def)
    then have "sb_use_count s' \<le> 1 \<Longrightarrow> sb_requests s' = []" by (cases "sb_requests s'") auto
    then show ?thesis using Cons False r u
      by (auto simp: subscr_paging_dispatch.simps served_def paged_ok_def subscr_put_def Let_def)
  qed
qed

lemma put_channel_serves_last:
  assumes "int (length (sb_requests s)) \<le> sb_use_count s"
  shows "\<exists>r p' ev. subscr_put_channel page stop keep s p = Some (r, p', ev) \<and>
     (case r of None \<Rightarrow> map sr_param (sb_requests s) = cb_params ev | Some s' \<Rightarrow> served s s' ev \<and> paged_ok pending s' p')"
proof (cases "sb_requests s")
  case Nil
  then show ?thesis by (simp add: subscr_put_channel.simps served_def paged_ok_def)
next
  case (Cons r rs)
  obtain p1 rc where pg: "page (sb_addr s) (sr_channel_type r) p = (p1, rc)" by (cases "page (sb_addr s) (sr_channel_type r) p")
  show ?thesis
  proof (cases "rc \<le> 0")
    case True
    let ?s = "set_head_state REQ_STATE_FAILED_START (set_head_state REQ_STATE_PAGED s)"
    obtain r p' ev where "subscr_paging_dispatch page stop keep GSM_PAGING_BUSY None ?s p1 = Some (r, p', ev)"
        "case r of None \<Rightarrow> map sr_param (sb_requests ?s) = cb_params ev | Some s' \<Rightarrow> served ?s s' ev \<and> paged_ok pending s' p'"
      using dispatch_serves [of ?s keep GSM_PAGING_BUSY None p1] assms by (auto cong: option.case_cong)
    then show ?thesis using Cons pg True by (auto simp: subscr_put_channel.simps served_def split: option.splits)
  next
    case False
    then show ?thesis using Cons pg page_started [OF pg]
      by (simp add: subscr_put_channel.simps served_def paged_ok_def set_head_state_def)
  qed
qed

end

text \<open>The paging of the BSC provides the service: a positive result means that a request of the subscriber is queued.\<close>

definition bsc_page :: "pag_env \<Rightarrow> nat \<Rightarrow> nat \<Rightarrow> int \<Rightarrow> pag_bts list \<Rightarrow> pag_bts list \<times> int" where
  "bsc_page env cb subscr ty = paging_request env subscr ty (Some cb) subscr"

definition bsc_stop :: "pag_env \<Rightarrow> nat \<Rightarrow> pag_bts list \<Rightarrow> pag_bts list" where
  "bsc_stop env subscr btss = fst (paging_request_stop env None subscr None btss)"

definition bsc_pending :: "nat \<Rightarrow> pag_bts list \<Rightarrow> bool" where
  "bsc_pending subscr btss \<longleftrightarrow> (\<exists>b \<in> set btss. paging_pending_request (pb_paging b) subscr)"

lemma request1_pending:
  "paging_request1 subscr ty cbfn data b = (b', rc) \<Longrightarrow> \<not> rc < 0 \<Longrightarrow> paging_pending_request (pb_paging b') subscr"
  by (auto simp: paging_request1_def paging_pending_request_def upd_paging_def paging_schedule_if_needed_def split: if_splits)

lemma request_loop_pending:
  assumes "0 < num \<longrightarrow> bsc_pending subscr btss"
    "0 < snd (paging_request_loop subscr lac ty cbfn data start num btss)"
  shows "bsc_pending subscr (fst (paging_request_loop subscr lac ty cbfn data start num btss))"
  using assms
proof (induction subscr lac ty cbfn data start num btss rule: paging_request_loop.induct)
  case (1 subscr lac ty cbfn data start num btss)
  show ?case
  proof (cases "gsm_bts_by_lac btss lac start")
    case None
    then show ?thesis using 1(3,4) by (simp add: paging_request_loop.simps [of _ _ _ _ _ start])
  next
    case (Some i)
    let ?b = "pb_bts (btss ! i)"
    show ?thesis
    proof (cases "trx_is_usable ?b (the_trx ?b (bts_c0 ?b))")
      case False
      then show ?thesis using 1(1) [OF Some] 1(3,4) Some by (simp add: paging_request_loop.simps [of _ _ _ _ _ start])
    next
      case True
      obtain b' rc where r: "paging_request1 subscr ty cbfn data (paging_init_if_needed (btss ! i)) = (b', rc)"
        by (cases "paging_request1 subscr ty cbfn data (paging_init_if_needed (btss ! i))")
      show ?thesis
      proof (cases "rc < 0")
        case neg: True
        then show ?thesis using 1(4) Some True r by (simp add: paging_request_loop.simps [of _ _ _ _ _ start])
      next
        case False
        have "bsc_pending subscr (btss[i := b'])"
          using request1_pending [OF r False] by_lac_SomeD(1) [OF Some] by (auto simp: bsc_pending_def set_update_memI)
        then show ?thesis using 1(2) [OF Some _ r [symmetric] False] 1(4) Some True r False
          by (simp add: paging_request_loop.simps [of _ _ _ _ _ start])
      qed
    qed
  qed
qed

interpretation bsc: paging_service "bsc_page env cb" "bsc_stop env" bsc_pending for env cb
proof
  fix s ty p p' rc
  assume "bsc_page env cb s ty p = (p', rc)" "0 < rc"
  then show "bsc_pending s p'"
    using request_loop_pending [of 0 s p "ps_lac (pe_subscr env s)" ty "Some cb" s None]
    by (simp add: bsc_page_def paging_request_def)
qed

section \<open>Properties\<close>

text \<open>The operations that change the queue, and what is left of it.\<close>

datatype sub_op = Get_channel int nat nat | Put_channel | Answer gsm_paging_event "nat option"

fun run_sub_op :: "pag_env \<Rightarrow> nat \<Rightarrow> bool \<Rightarrow> sub_op \<Rightarrow> gsm_subscriber \<Rightarrow> pag_bts list \<Rightarrow> pag_bts list sub_result" where
  "run_sub_op env cb keep (Get_channel ty cbfn param) s p =
     subscr_get_channel (bsc_page env cb) (bsc_stop env) keep ty cbfn param s p"
| "run_sub_op env cb keep Put_channel s p = subscr_put_channel (bsc_page env cb) (bsc_stop env) keep s p"
| "run_sub_op env cb keep (Answer event conn) s p =
     subscr_paging_dispatch (bsc_page env cb) (bsc_stop env) keep event conn s p"

fun op_params :: "sub_op \<Rightarrow> nat list" where
  "op_params (Get_channel ty cbfn param) = [param]"
| "op_params _ = []"

definition left_params :: "gsm_subscriber option \<Rightarrow> nat list" where
  "left_params r = (case r of None \<Rightarrow> [] | Some s \<Rightarrow> map sr_param (sb_requests s))"

text \<open>What every operation does.\<close>

definition op_serves :: "gsm_subscriber \<Rightarrow> sub_op \<Rightarrow> gsm_subscriber option \<Rightarrow> sub_event list \<Rightarrow> bool" where
  "op_serves s op r ev \<longleftrightarrow>
     map sr_param (sb_requests s) @ op_params op = cb_params ev @ left_params r \<and>
     (case r of None \<Rightarrow> True | Some s' \<Rightarrow> sb_addr s' = sb_addr s \<and> int (length (sb_requests s')) \<le> sb_use_count s')"

lemma get_channel_serves:
  assumes "int (length (sb_requests s)) \<le> sb_use_count s"
  shows "\<exists>r p' ev. run_sub_op env cb keep (Get_channel ty cbfn param) s p = Some (r, p', ev) \<and>
     op_serves s (Get_channel ty cbfn param) r ev \<and>
     (\<not> sb_in_callback s \<longrightarrow> paged_ok bsc_pending s p \<longrightarrow> (\<forall>s'. r = Some s' \<longrightarrow> paged_ok bsc_pending s' p'))"
proof (cases "\<not> sb_in_callback s \<and> sb_requests s = []")
  case True
  let ?s = "(subscr_get s)\<lparr>sb_requests := [\<lparr>sr_channel_type = ty, sr_state = REQ_STATE_INITIAL, sr_cbfn = cbfn, sr_param = param\<rparr>]\<rparr>"
  have u: "int (length (sb_requests ?s)) \<le> sb_use_count ?s" using assms True by (simp add: subscr_get_def)
  obtain r p' ev where "subscr_put_channel (bsc_page env cb) (bsc_stop env) keep ?s p = Some (r, p', ev)"
      "case r of None \<Rightarrow> map sr_param (sb_requests ?s) = cb_params ev | Some s' \<Rightarrow> served ?s s' ev \<and> paged_ok bsc_pending s' p'"
    using bsc.put_channel_serves_last [OF u] by blast
  then show ?thesis using True assms
    by (auto simp: subscr_get_channel_def Let_def served_def subscr_get_def op_serves_def left_params_def split: option.splits)
next
  case False
  then show ?thesis using assms
    by (auto simp: subscr_get_channel_def Let_def subscr_get_def paged_ok_def op_serves_def left_params_def)
qed

lemma put_channel_op:
  assumes "int (length (sb_requests s)) \<le> sb_use_count s"
  shows "\<exists>r p' ev. run_sub_op env cb keep Put_channel s p = Some (r, p', ev) \<and> op_serves s Put_channel r ev \<and>
     (\<forall>s'. r = Some s' \<longrightarrow> paged_ok bsc_pending s' p')"
proof -
  obtain r p' ev where "subscr_put_channel (bsc_page env cb) (bsc_stop env) keep s p = Some (r, p', ev)"
      "case r of None \<Rightarrow> map sr_param (sb_requests s) = cb_params ev | Some s' \<Rightarrow> served s s' ev \<and> paged_ok bsc_pending s' p'"
    using bsc.put_channel_serves_last [OF assms] by blast
  then show ?thesis using assms by (auto simp: op_serves_def left_params_def served_def split: option.splits)
qed

lemma answer_op:
  assumes "int (length (sb_requests s)) \<le> sb_use_count s"
  shows "\<exists>r p' ev. run_sub_op env cb keep (Answer event conn) s p = Some (r, p', ev) \<and> op_serves s (Answer event conn) r ev \<and>
     (event \<noteq> GSM_PAGING_SUCCEEDED \<longrightarrow> (\<forall>s'. r = Some s' \<longrightarrow> paged_ok bsc_pending s' p'))"
proof -
  obtain r p' ev where "subscr_paging_dispatch (bsc_page env cb) (bsc_stop env) keep event conn s p = Some (r, p', ev)"
      "case r of None \<Rightarrow> map sr_param (sb_requests s) = cb_params ev
       | Some s' \<Rightarrow> served s s' ev \<and> (event \<noteq> GSM_PAGING_SUCCEEDED \<longrightarrow> paged_ok bsc_pending s' p')"
    using bsc.dispatch_serves [OF assms] by blast
  then show ?thesis using assms by (auto simp: op_serves_def left_params_def served_def split: option.splits)
qed

text \<open>A subscriber held by a call with one request queued behind the current one.\<close>

definition sample_subscr :: gsm_subscriber where
  "sample_subscr = \<lparr>sb_addr = 1, sb_id = 5, sb_imsi = ''901700000000001'', sb_tmsi = 7, sb_lac = 1, sb_name = [], sb_extension = ''2000'',
     sb_use_count = 3, sb_in_callback = False,
     sb_requests = [\<lparr>sr_channel_type = 1, sr_state = REQ_STATE_PAGED, sr_cbfn = 9, sr_param = 11\<rparr>,
                    \<lparr>sr_channel_type = 2, sr_state = REQ_STATE_QUEUED, sr_cbfn = 9, sr_param = 12\<rparr>]\<rparr>"

text \<open>C30: The requests for a channel to a subscriber are answered in the order they were made and each exactly once: whatever a request, the release of a channel or the answer to a page does, the parameters given to callbacks followed by those still queued are the queued ones followed by the new one. The subscriber is not used after it is freed, it is freed only when no request is left, and a queue that is not empty keeps its references.\<close>

theorem subscr_requests_fifo:
  assumes "int (length (sb_requests s)) \<le> sb_use_count s"
  shows "\<exists>r p' ev. run_sub_op env cb keep op s p = Some (r, p', ev) \<and>
     map sr_param (sb_requests s) @ op_params op = cb_params ev @ left_params r \<and>
     (case r of None \<Rightarrow> True | Some s' \<Rightarrow> sb_addr s' = sb_addr s \<and> int (length (sb_requests s')) \<le> sb_use_count s')"
proof (cases op)
  case (Get_channel ty cbfn param)
  then show ?thesis using get_channel_serves [OF assms, of env cb keep ty cbfn param p] by (auto simp: op_serves_def)
next
  case Put_channel
  then show ?thesis using put_channel_op [OF assms, of env cb keep p] by (auto simp: op_serves_def)
next
  case (Answer event conn)
  then show ?thesis using answer_op [OF assms, of env cb keep event conn p] by (auto simp: op_serves_def)
qed

theorem subscr_requests_fifo_witness:
  "\<exists>r p' ev. run_sub_op sample_pag 9 False (Answer GSM_PAGING_EXPIRED None) sample_subscr [] = Some (r, p', ev) \<and>
     [11, 12] = cb_params ev @ left_params r"
  using subscr_requests_fifo [of sample_subscr sample_pag 9 False "Answer GSM_PAGING_EXPIRED None" "[]"]
  by (auto simp: sample_subscr_def)



end
