(* ===== verification/Sms_Tpdu.thy ===== *)
theory Sms_Tpdu
  imports Osmo_Prelude "HOL-Library.Monad_Syntax"
begin

unbundle bit_operations_syntax

text \<open>
  The short message and its transfer protocol data unit of GSM 03.40 (the first half of
  \<^verbatim>\<open>src/libmsc/gsm_04_11.c\<close>): time stamps, validity periods, coding schemes, the TPDU sent to a mobile
  station and the parsing of a received one. A received TPDU is the list of octets from its start to the end of
  the message buffer; \<open>None\<close> is a read past the buffer. The BCD and 7 bit codecs, the clock and the calendar
  are library functions, fields of \<open>sms_lib\<close>.
\<close>

section \<open>Model\<close>

record gsm_sms =
  sms_id :: nat
  sms_sender :: "nat option"
  sms_receiver :: "nat option"
  sms_validity_minutes :: u64
  sms_reply_path_req :: u8
  sms_status_rep_req :: u8
  sms_ud_hdr_ind :: u8
  sms_protocol_id :: u8
  sms_data_coding_scheme :: u8
  sms_msg_ref :: u8
  sms_dest_addr :: string
  sms_user_data_len :: u8
  sms_user_data :: "u8 list"
  sms_text :: string

definition sms_alloc :: gsm_sms where
  "sms_alloc = \<lparr>sms_id = 0, sms_sender = None, sms_receiver = None, sms_validity_minutes = 0, sms_reply_path_req = 0,
     sms_status_rep_req = 0, sms_ud_hdr_ind = 0, sms_protocol_id = 0, sms_data_coding_scheme = 0, sms_msg_ref = 0,
     sms_dest_addr = [], sms_user_data_len = 0, sms_user_data = [], sms_text = []\<rparr>"

record c_tm =
  tm_year :: int
  tm_mon :: int
  tm_mday :: int
  tm_hour :: int
  tm_min :: int
  tm_sec :: int
  tm_gmtoff :: int

text \<open>\<open>lib_encode_bcd\<close> gives the semi-octets of a number without length and type, \<open>lib_decode_bcd\<close> reads a number
  with its length in octets and its type in front.\<close>

record sms_lib =
  lib_encode_bcd :: "string \<Rightarrow> u8 list"
  lib_decode_bcd :: "u8 list \<Rightarrow> string"
  lib_7bit_decode :: "u8 list \<Rightarrow> u8 \<Rightarrow> string"
  lib_7bit_encode :: "string \<Rightarrow> u8 list \<times> u8"
  lib_localtime :: c_tm
  lib_mktime :: "c_tm \<Rightarrow> int"
  lib_time :: int

definition bcdify :: "u8 \<Rightarrow> u8" where
  "bcdify v = (v div 10) OR push_bit 4 (v mod 10)"

definition unbcdify :: "u8 \<Rightarrow> u8" where
  "unbcdify v = (v AND 0x0f) * 10 + drop_bit 4 v"

definition gsm340_gen_scts :: "c_tm \<Rightarrow> u8 list" where
  "gsm340_gen_scts tm =
     [bcdify (of_int (c_mod (tm_year tm) 100)), bcdify (of_int (tm_mon tm + 1)), bcdify (of_int (tm_mday tm)),
      bcdify (of_int (tm_hour tm)), bcdify (of_int (tm_min tm)), bcdify (of_int (tm_sec tm)),
      bcdify (of_int (c_div (tm_gmtoff tm) (60 * 15)))]"

text \<open>The fields of a time stamp of seven octets; \<^verbatim>\<open>gsm340_scts\<close> gives them to \<^verbatim>\<open>mktime\<close>.\<close>

definition scts_tm :: "u8 list \<Rightarrow> c_tm" where
  "scts_tm scts =
     (let yr = unbcdify (scts ! 0)
      in \<lparr>tm_year = (if yr \<le> 80 then 100 + uint yr else uint yr), tm_mon = uint (unbcdify (scts ! 1)) - 1,
          tm_mday = uint (unbcdify (scts ! 2)), tm_hour = uint (unbcdify (scts ! 3)), tm_min = uint (unbcdify (scts ! 4)),
          tm_sec = uint (unbcdify (scts ! 5)), tm_gmtoff = uint (unbcdify (scts ! 6)) * 15 * 60\<rparr>)"

definition gsm340_scts :: "sms_lib \<Rightarrow> u8 list \<Rightarrow> int option" where
  "gsm340_scts lib buf = (if length buf < 7 then None else Some (lib_mktime lib (scts_tm buf)))"

definition gsm340_vp_default :: u64 where
  "gsm340_vp_default = 24 * 60 * 2"

text \<open>The arithmetic is that of C: the product binds before the sum and the difference, the negative result is converted to
  an unsigned long.\<close>

definition gsm340_vp_relative :: "u8 \<Rightarrow> u64" where
  "gsm340_vp_relative vp =
     (if vp \<le> 143 then of_int (uint vp + 1 * 5)
      else if vp \<le> 167 then of_int (12 * 60 + (uint vp - 143) * 30)
      else if vp \<le> 196 then of_int (uint vp - 166 * 60 * 24)
      else of_int (uint vp - 192 * 60 * 24 * 7))"

definition gsm340_vp_absolute :: "sms_lib \<Rightarrow> u8 list \<Rightarrow> u64 option" where
  "gsm340_vp_absolute lib buf =
     (case gsm340_scts lib buf of
        None \<Rightarrow> None
      | Some expires \<Rightarrow> Some (if expires \<le> lib_time lib then 0 else of_int ((expires - lib_time lib) div 60)))"

definition gsm340_vp_relative_integer :: "u8 \<Rightarrow> u64" where
  "gsm340_vp_relative_integer vp = (if vp = 0 then gsm340_vp_default else of_int (uint vp div 60))"

definition gsm340_vp_relative_semioctet :: "u8 \<Rightarrow> u8 \<Rightarrow> u8 \<Rightarrow> u64" where
  "gsm340_vp_relative_semioctet h m s =
     of_int (uint (unbcdify h) * 60) + of_int (uint (unbcdify m)) + of_int (uint (unbcdify s) div 60)"

abbreviation (input) GSM340_TP_VPF_NONE :: u8 where "GSM340_TP_VPF_NONE \<equiv> 0"
abbreviation (input) GSM340_TP_VPF_ENHANCED :: u8 where "GSM340_TP_VPF_ENHANCED \<equiv> 1"
abbreviation (input) GSM340_TP_VPF_RELATIVE :: u8 where "GSM340_TP_VPF_RELATIVE \<equiv> 2"
abbreviation (input) GSM340_TP_VPF_ABSOLUTE :: u8 where "GSM340_TP_VPF_ABSOLUTE \<equiv> 3"

definition gsm340_validity_period :: "sms_lib \<Rightarrow> u8 \<Rightarrow> u8 list \<Rightarrow> u64 option" where
  "gsm340_validity_period lib vpf vp =
     (if vpf = GSM340_TP_VPF_RELATIVE then map_option gsm340_vp_relative (rd vp 0)
      else if vpf = GSM340_TP_VPF_ABSOLUTE then gsm340_vp_absolute lib vp
      else if vpf = GSM340_TP_VPF_ENHANCED
      then do {
        fi \<leftarrow> rd vp 0;
        let p = (if bit fi 7 then 2 else 1);
        if fi AND 0x7 = 0 then Some gsm340_vp_default
        else if fi AND 0x7 = 1 then map_option gsm340_vp_relative (rd vp p)
        else if fi AND 0x7 = 2 then map_option gsm340_vp_relative_integer (rd vp p)
        else if fi AND 0x7 = 3
        then do { h \<leftarrow> rd vp p; m \<leftarrow> rd vp (p + 1); s \<leftarrow> rd vp (p + 2); Some (gsm340_vp_relative_semioctet h m s) }
        else Some gsm340_vp_default }
      else Some gsm340_vp_default)"

datatype sms_alphabet = DCS_NONE | DCS_7BIT_DEFAULT | DCS_UCS2 | DCS_8BIT_DATA

text \<open>\<open>None\<close> is the value \<^verbatim>\<open>0xffffffff\<close> returned for compressed messages.\<close>

definition gsm338_get_sms_alphabet :: "u8 \<Rightarrow> sms_alphabet option" where
  "gsm338_get_sms_alphabet dcs =
     (let cgbits = drop_bit 4 dcs
      in if cgbits AND 0xc = 0
         then (if cgbits AND 2 \<noteq> 0 then None
               else let a = drop_bit 2 dcs AND 0x03
                    in Some (if a = 0 then DCS_7BIT_DEFAULT else if a = 1 then DCS_8BIT_DATA
                             else if a = 2 then DCS_UCS2 else DCS_NONE))
         else if cgbits = 0xc \<or> cgbits = 0xd then Some DCS_7BIT_DEFAULT
         else if cgbits = 0xe then Some DCS_UCS2
         else if cgbits = 0xf then Some (if dcs AND 4 \<noteq> 0 then DCS_8BIT_DATA else DCS_7BIT_DEFAULT)
         else Some DCS_NONE)"

definition gsm340_gen_oa :: "sms_lib \<Rightarrow> string \<Rightarrow> u8 list" where
  "gsm340_gen_oa lib extension = of_nat (length extension) # 0xb9 # lib_encode_bcd lib extension"

text \<open>The octets of a number of septets.\<close>

definition octet_len :: "u8 \<Rightarrow> nat" where
  "octet_len n = unat n * 7 div 8 + (if unat n * 7 mod 8 \<noteq> 0 then 1 else 0)"

definition gsm340_gen_tpdu :: "sms_lib \<Rightarrow> string \<Rightarrow> gsm_sms \<Rightarrow> u8 list" where
  "gsm340_gen_tpdu lib extension sms =
     [(0x00 OR (if sms_status_rep_req sms \<noteq> 0 then 0x20 else 0)) OR (if sms_ud_hdr_ind sms \<noteq> 0 then 0x40 else 0)] @
     gsm340_gen_oa lib extension @
     [sms_protocol_id sms, sms_data_coding_scheme sms] @
     gsm340_gen_scts (lib_localtime lib) @
     [sms_user_data_len sms] @
     (case gsm338_get_sms_alphabet (sms_data_coding_scheme sms) of
        Some DCS_7BIT_DEFAULT \<Rightarrow> take (octet_len (sms_user_data_len sms)) (sms_user_data sms)
      | Some DCS_UCS2 \<Rightarrow> take (unat (sms_user_data_len sms)) (sms_user_data sms)
      | Some DCS_8BIT_DATA \<Rightarrow> take (unat (sms_user_data_len sms)) (sms_user_data sms)
      | _ \<Rightarrow> [])"

abbreviation (input) GSM411_RP_CAUSE_MO_NET_OUT_OF_ORDER :: int where "GSM411_RP_CAUSE_MO_NET_OUT_OF_ORDER \<equiv> 38"
abbreviation (input) GSM411_RP_CAUSE_SEMANT_INC_MSG :: int where "GSM411_RP_CAUSE_SEMANT_INC_MSG \<equiv> 95"

text \<open>The result of reading a TPDU: the cause of its refusal, or its type and the message.\<close>

datatype tpdu = Tpdu_refused int | Tpdu u8 gsm_sms

text \<open>The octets of the validity period at a position, up to where the user data follows.\<close>

definition vp_octets :: "u8 \<Rightarrow> u8 list \<Rightarrow> nat \<Rightarrow> nat option" where
  "vp_octets vpf buf p =
     (if vpf = GSM340_TP_VPF_RELATIVE then Some 1
      else if vpf = GSM340_TP_VPF_ABSOLUTE then Some 7
      else if vpf = GSM340_TP_VPF_ENHANCED then map_option (\<lambda>fi. if bit fi 7 then 8 else 7) (rd buf p)
      else Some 0)"

definition gsm340_parse_tpdu :: "sms_lib \<Rightarrow> nat \<Rightarrow> u8 list \<Rightarrow> tpdu option" where
  "gsm340_parse_tpdu lib sender buf = do {
     b0 \<leftarrow> rd buf 0;
     let sms_mti = b0 AND 0x03;
     let sms_vpf = drop_bit 3 (b0 AND 0x18);
     msg_ref \<leftarrow> rd buf 1;
     digits \<leftarrow> rd buf 2;
     let da_len_bytes = 2 + unat digits div 2 + unat digits mod 2;
     if da_len_bytes > 12 then Some (Tpdu_refused GSM411_RP_CAUSE_SEMANT_INC_MSG)
     else do {
       address_lv \<leftarrow> rds buf 2 da_len_bytes;
       let p = 2 + da_len_bytes;
       protocol_id \<leftarrow> rd buf p;
       dcs \<leftarrow> rd buf (p + 1);
       case gsm338_get_sms_alphabet dcs of
         None \<Rightarrow> Some (Tpdu_refused GSM411_RP_CAUSE_MO_NET_OUT_OF_ORDER)
       | Some alphabet \<Rightarrow> do {
           vpl \<leftarrow> vp_octets sms_vpf buf (p + 2);
           let q = p + 2 + vpl;
           udl \<leftarrow> rd buf q;
           ud \<leftarrow> rds buf (q + 1) (unat udl);
           validity \<leftarrow> gsm340_validity_period lib sms_vpf (drop (p + 2) buf);
           Some (Tpdu sms_mti
             (sms_alloc\<lparr>sms_status_rep_req := b0 AND 0x20, sms_ud_hdr_ind := b0 AND 0x40, sms_msg_ref := msg_ref,
                sms_dest_addr := lib_decode_bcd lib (of_nat (da_len_bytes - 1) # tl address_lv),
                sms_protocol_id := protocol_id, sms_data_coding_scheme := dcs, sms_user_data_len := udl,
                sms_user_data := ud,
                sms_text := (if udl \<noteq> 0 \<and> alphabet = DCS_7BIT_DEFAULT then lib_7bit_decode lib (drop (q + 1) buf) udl else []),
                sms_sender := Some sender, sms_validity_minutes := validity\<rparr>)) } } }"

definition sms_from_text :: "sms_lib \<Rightarrow> nat option \<Rightarrow> nat \<Rightarrow> string \<Rightarrow> u8 \<Rightarrow> string \<Rightarrow> gsm_sms" where
  "sms_from_text lib sender receiver extension dcs text =
     (let txt = take 255 text; ud = lib_7bit_encode lib txt
      in sms_alloc\<lparr>sms_receiver := Some receiver, sms_text := txt, sms_sender := sender, sms_data_coding_scheme := dcs,
           sms_dest_addr := take 20 extension, sms_user_data := fst ud, sms_user_data_len := snd ud\<rparr>)"

section \<open>Properties\<close>

lemma bcd_roundtrip: "v < 100 \<Longrightarrow> unbcdify (bcdify v) = v"
proof -
  assume "v < 100"
  then have "unat v \<in> set [0..<100]" by (simp add: word_less_nat_alt)
  moreover have "\<forall>n \<in> set [0..<100]. unbcdify (bcdify (word_of_nat n)) = word_of_nat n" by code_simp
  ultimately have "unbcdify (bcdify (word_of_nat (unat v))) = word_of_nat (unat v)" by blast
  then show ?thesis by simp
qed

lemma uint_bcd: "0 \<le> k \<Longrightarrow> k < 100 \<Longrightarrow> uint (unbcdify (bcdify (of_int k))) = k"
proof -
  assume k: "0 \<le> k" "k < 100"
  then have u: "uint (of_int k :: u8) = k" by (simp add: unsigned_of_int take_bit_int_eq_self)
  then have "(of_int k :: u8) < 100" using k by (simp add: word_less_def)
  then show "uint (unbcdify (bcdify (of_int k))) = k" using bcd_roundtrip u by simp
qed

definition tm_ok :: "c_tm \<Rightarrow> bool" where
  "tm_ok tm \<longleftrightarrow> 81 \<le> tm_year tm \<and> tm_year tm \<le> 180 \<and> 0 \<le> tm_mon tm \<and> tm_mon tm < 12 \<and> 1 \<le> tm_mday tm \<and> tm_mday tm \<le> 31 \<and>
     0 \<le> tm_hour tm \<and> tm_hour tm < 24 \<and> 0 \<le> tm_min tm \<and> tm_min tm < 60 \<and> 0 \<le> tm_sec tm \<and> tm_sec tm \<le> 60 \<and>
     0 \<le> tm_gmtoff tm \<and> tm_gmtoff tm < 100 * 900 \<and> tm_gmtoff tm mod 900 = 0"

definition sample_tm :: c_tm where
  "sample_tm = \<lparr>tm_year = 112, tm_mon = 1, tm_mday = 29, tm_hour = 23, tm_min = 59, tm_sec = 60, tm_gmtoff = 3600\<rparr>"

text \<open>A time stamp written into a short message is read back as the same calendar time, for the years 1981 to 2080 and time zones east of Greenwich in quarters of an hour.\<close>

theorem scts_roundtrip:
  assumes "tm_ok tm"
  shows "length (gsm340_gen_scts tm) = 7 \<and> scts_tm (gsm340_gen_scts tm) = tm"
proof -
  let ?y = "tm_year tm mod 100"
  have y: "uint (unbcdify (bcdify (of_int (c_mod (tm_year tm) 100)))) = ?y"
    using assms by (simp add: tm_ok_def uint_bcd)
  have "unbcdify (bcdify (of_int (c_mod (tm_year tm) 100))) \<le> 80 \<longleftrightarrow> ?y \<le> 80" using y by (simp add: word_le_def)
  moreover have "(if ?y \<le> 80 then 100 + ?y else ?y) = tm_year tm"
  proof (cases "tm_year tm < 100")
    case True
    then show ?thesis using assms by (simp add: tm_ok_def)
  next
    case False
    then have "(tm_year tm - 100) mod 100 = tm_year tm - 100"
      using assms by (intro mod_pos_pos_trivial) (auto simp: tm_ok_def)
    then have "?y = tm_year tm - 100" by (simp only: minus_mod_self2)
    then show ?thesis using assms by (simp add: tm_ok_def)
  qed
  moreover have "c_div (tm_gmtoff tm) (60 * 15) = tm_gmtoff tm div 900" "0 \<le> tm_gmtoff tm div 900" "tm_gmtoff tm div 900 < 100"
      "tm_gmtoff tm div 900 * 15 * 60 = tm_gmtoff tm"
    using assms by (auto simp: tm_ok_def)
  moreover have "uint (unbcdify (bcdify (word_of_int (tm_mon tm) + 1))) = tm_mon tm + 1"
    using uint_bcd [of "tm_mon tm + 1"] assms by (simp add: tm_ok_def)
  ultimately show ?thesis using assms y
    by (auto simp: scts_tm_def gsm340_gen_scts_def Let_def uint_bcd tm_ok_def)
qed

theorem scts_roundtrip_witness: "scts_tm (gsm340_gen_scts sample_tm) = sample_tm"
proof -
  have "tm_ok sample_tm" by (simp add: tm_ok_def sample_tm_def)
  then show ?thesis using scts_roundtrip by blast
qed

text \<open>A TPDU as GSM 03.40, 9.2.2.2 lays it out: type and flags, message reference, address with its number of digits and
  its type, protocol, coding scheme, validity period and user data.\<close>

record submit =
  su_mti :: u8
  su_vpf :: u8
  su_srr :: bool
  su_udhi :: bool
  su_mr :: u8
  su_digits :: nat
  su_ton :: u8
  su_number :: "u8 list"
  su_pid :: u8
  su_dcs :: u8
  su_vp :: "u8 list"
  su_udl :: u8
  su_ud :: "u8 list"

definition submit_flags :: "submit \<Rightarrow> u8" where
  "submit_flags su = su_mti su OR push_bit 3 (su_vpf su) OR (if su_srr su then 0x20 else 0) OR (if su_udhi su then 0x40 else 0)"

definition submit_octets :: "submit \<Rightarrow> u8 list" where
  "submit_octets su =
     [submit_flags su, su_mr su, of_nat (su_digits su), su_ton su] @ su_number su @ [su_pid su, su_dcs su] @ su_vp su @
     [su_udl su] @ su_ud su"

definition submit_ok :: "submit \<Rightarrow> bool" where
  "submit_ok su \<longleftrightarrow> su_mti su < 4 \<and> su_vpf su < 4 \<and> su_digits su \<le> 20 \<and> length (su_number su) = (su_digits su + 1) div 2 \<and>
     length (su_vp su) = (if su_vpf su = GSM340_TP_VPF_RELATIVE then 1 else if su_vpf su = GSM340_TP_VPF_ABSOLUTE then 7
       else if su_vpf su = GSM340_TP_VPF_ENHANCED then (if su_vp su \<noteq> [] \<and> bit (hd (su_vp su)) 7 then 8 else 7) else 0) \<and>
     unat (su_udl su) \<le> length (su_ud su)"

lemma u8_less4: "(x :: u8) < 4 \<Longrightarrow> x = 0 \<or> x = 1 \<or> x = 2 \<or> x = 3"
proof -
  assume "x < 4"
  then have "unat x < 4" by (simp add: word_less_nat_alt)
  then have "unat x = unat (0 :: u8) \<or> unat x = unat (1 :: u8) \<or> unat x = unat (2 :: u8) \<or> unat x = unat (3 :: u8)" by auto
  then show ?thesis by (simp only: word_unat_eq_iff)
qed

lemma flags_fields:
  assumes "submit_ok su"
  shows "submit_flags su AND 0x03 = su_mti su" "drop_bit 3 (submit_flags su AND 0x18) = su_vpf su"
    "submit_flags su AND 0x20 = (if su_srr su then 0x20 else 0)" "submit_flags su AND 0x40 = (if su_udhi su then 0x40 else 0)"
  using u8_less4 [of "su_mti su"] u8_less4 [of "su_vpf su"] assms
  by (auto simp: submit_ok_def submit_flags_def)

lemma half_up: "Suc d div 2 = d div 2 + d mod 2"
  by presburger

lemma submit_reads:
  fixes su
  assumes "submit_ok su"
  defines "d \<equiv> 2 + su_digits su div 2 + su_digits su mod 2"
  shows "rd (submit_octets su) 0 = Some (submit_flags su)" "rd (submit_octets su) 1 = Some (su_mr su)"
    "rd (submit_octets su) 2 = Some (of_nat (su_digits su))" "unat (of_nat (su_digits su) :: u8) = su_digits su"
    "rds (submit_octets su) 2 d = Some (of_nat (su_digits su) # su_ton su # su_number su)"
    "drop (2 + d) (submit_octets su) = [su_pid su, su_dcs su] @ su_vp su @ [su_udl su] @ su_ud su"
    "length (submit_octets su) = 2 + d + 2 + length (su_vp su) + 1 + length (su_ud su)"
proof -
  have n: "length (su_number su) + 2 = d" "su_digits su \<le> 20"
    using assms(1) half_up [of "su_digits su"] by (auto simp: submit_ok_def d_def)
  have o: "submit_octets su = [submit_flags su, su_mr su] @ (of_nat (su_digits su) # su_ton su # su_number su) @
      [su_pid su, su_dcs su] @ su_vp su @ [su_udl su] @ su_ud su" by (simp add: submit_octets_def)
  show "rd (submit_octets su) 0 = Some (submit_flags su)" "rd (submit_octets su) 1 = Some (su_mr su)"
    "rd (submit_octets su) 2 = Some (of_nat (su_digits su))" by (simp_all add: submit_octets_def rd_def)
  show "unat (of_nat (su_digits su) :: u8) = su_digits su" using n(2) by (simp add: unsigned_of_nat take_bit_nat_eq_self)
  show "rds (submit_octets su) 2 d = Some (of_nat (su_digits su) # su_ton su # su_number su)"
    using n(1) by (auto simp: rds_def o)
  show "drop (2 + d) (submit_octets su) = [su_pid su, su_dcs su] @ su_vp su @ [su_udl su] @ su_ud su"
    using n(1) by (auto simp: o)
  show "length (submit_octets su) = 2 + d + 2 + length (su_vp su) + 1 + length (su_ud su)" using n(1) by (simp add: o)
qed

lemma submit_after:
  assumes "submit_ok su" "p = 2 + (2 + su_digits su div 2 + su_digits su mod 2)"
  shows "rd (submit_octets su) p = Some (su_pid su)" "rd (submit_octets su) (p + 1) = Some (su_dcs su)"
    "vp_octets (su_vpf su) (submit_octets su) (p + 2) = Some (length (su_vp su))"
    "rd (submit_octets su) (p + 2 + length (su_vp su)) = Some (su_udl su)"
    "rds (submit_octets su) (p + 2 + length (su_vp su) + 1) (unat (su_udl su)) = Some (take (unat (su_udl su)) (su_ud su))"
    "drop (p + 2) (submit_octets su) = su_vp su @ [su_udl su] @ su_ud su"
    "drop (p + 2 + length (su_vp su) + 1) (submit_octets su) = su_ud su"
proof -
  let ?o = "submit_octets su"
  have d: "drop p ?o = [su_pid su, su_dcs su] @ su_vp su @ [su_udl su] @ su_ud su"
    and len: "length ?o = p + 2 + length (su_vp su) + 1 + length (su_ud su)"
    unfolding assms(2) by (rule submit_reads(6,7) [OF assms(1)])+
  have at: "?o ! (p + k) = (drop p ?o) ! k" if "p + k < length ?o" for k using that by (simp add: nth_drop)
  have r: "rd ?o (p + k) = Some (([su_pid su, su_dcs su] @ su_vp su @ [su_udl su] @ su_ud su) ! k)"
    if "k < 3 + length (su_vp su)" for k using that at [of k] by (simp add: rd_def len d)
  show "rd ?o p = Some (su_pid su)" using r [of 0] by simp
  show "rd ?o (p + 1) = Some (su_dcs su)" using r [of 1] by simp
  show l: "rd ?o (p + 2 + length (su_vp su)) = Some (su_udl su)"
    using r [of "2 + length (su_vp su)"] by (simp add: add.assoc nth_append)
  show v: "drop (p + 2) ?o = su_vp su @ [su_udl su] @ su_ud su"
    using arg_cong [OF d, of "drop 2"] by (simp add: add.commute)
  show w: "drop (p + 2 + length (su_vp su) + 1) ?o = su_ud su"
    using arg_cong [OF v, of "drop (length (su_vp su) + 1)"] by (simp add: add.commute add.left_commute)
  show "rds ?o (p + 2 + length (su_vp su) + 1) (unat (su_udl su)) = Some (take (unat (su_udl su)) (su_ud su))"
    using assms(1) by (simp only: rds_def w len) (simp add: submit_ok_def)
  have "su_vpf su = 1 \<Longrightarrow> su_vp su \<noteq> []" using assms(1) by (auto simp: submit_ok_def split: if_splits)
  moreover have "su_vp su \<noteq> [] \<Longrightarrow> rd ?o (p + 2) = Some (hd (su_vp su))"
    using r [of 2] by (cases "su_vp su") simp_all
  ultimately show "vp_octets (su_vpf su) ?o (p + 2) = Some (length (su_vp su))"
    using assms(1) by (auto simp: vp_octets_def submit_ok_def)
qed

definition sample_submit :: submit where
  "sample_submit = \<lparr>su_mti = 1, su_vpf = 2, su_srr = True, su_udhi = False, su_mr = 9, su_digits = 3, su_ton = 0x91,
     su_number = [0x21, 0xf3], su_pid = 0, su_dcs = 0xf4, su_vp = [143], su_udl = 2, su_ud = [0xaa, 0xbb]\<rparr>"

definition sample_lib :: sms_lib where
  "sample_lib = \<lparr>lib_encode_bcd = (\<lambda>_. []), lib_decode_bcd = (\<lambda>v. map (\<lambda>_. CHR ''1'') v), lib_7bit_decode = (\<lambda>_ _. []),
     lib_7bit_encode = (\<lambda>_. ([], 0)), lib_localtime = sample_tm, lib_mktime = (\<lambda>_. 0), lib_time = 0\<rparr>"

text \<open>A TPDU laid out as GSM 03.40 says is taken apart into exactly its fields, for every combination of flags, number length, validity period format and user data: the type, the flags, the reference, the destination, the protocol, the coding scheme, the user data and the validity. One with a compressed text is refused with the cause network out of order.\<close>

theorem sms_submit_parsed:
  assumes "submit_ok su" "gsm340_validity_period lib (su_vpf su) (su_vp su @ [su_udl su] @ su_ud su) = Some validity"
  shows "gsm340_parse_tpdu lib sender (submit_octets su) = Some
     (case gsm338_get_sms_alphabet (su_dcs su) of
        None \<Rightarrow> Tpdu_refused GSM411_RP_CAUSE_MO_NET_OUT_OF_ORDER
      | Some alphabet \<Rightarrow>
          Tpdu (su_mti su)
            (sms_alloc\<lparr>sms_status_rep_req := (if su_srr su then 0x20 else 0), sms_ud_hdr_ind := (if su_udhi su then 0x40 else 0),
               sms_msg_ref := su_mr su,
               sms_dest_addr := lib_decode_bcd lib (of_nat (1 + length (su_number su)) # su_ton su # su_number su),
               sms_protocol_id := su_pid su, sms_data_coding_scheme := su_dcs su, sms_user_data_len := su_udl su,
               sms_user_data := take (unat (su_udl su)) (su_ud su),
               sms_text := (if su_udl su \<noteq> 0 \<and> alphabet = DCS_7BIT_DEFAULT then lib_7bit_decode lib (su_ud su) (su_udl su) else []),
               sms_sender := Some sender, sms_validity_minutes := validity\<rparr>))"
proof -
  let ?d = "2 + su_digits su div 2 + su_digits su mod 2"
  have l: "\<not> ?d > 12" "length (su_number su) + 2 = ?d"
    using assms(1) half_up [of "su_digits su"] by (auto simp: submit_ok_def)
  note r = submit_reads [OF assms(1)] and f = flags_fields [OF assms(1)]
  define p where "p = 2 + ?d"
  note a = submit_after [OF assms(1) p_def]
  have n: "?d - 1 = 1 + length (su_number su)" using l(2) by simp
  show ?thesis unfolding gsm340_parse_tpdu_def Let_def r(1-3) bind.bind_lunit r(4) r(5) p_def [symmetric] a f n assms(2)
    using l(1) by (simp split: option.split)
qed

theorem sms_submit_parsed_witness:
  "gsm340_parse_tpdu sample_lib 4 (submit_octets sample_submit) \<noteq> None \<and> submit_ok sample_submit"
proof -
  have ok: "submit_ok sample_submit" by (simp add: submit_ok_def sample_submit_def)
  have "gsm340_validity_period sample_lib (su_vpf sample_submit)
      (su_vp sample_submit @ [su_udl sample_submit] @ su_ud sample_submit) = Some (gsm340_vp_relative 143)"
    by (simp add: gsm340_validity_period_def sample_submit_def rd_def)
  from sms_submit_parsed [OF ok this, of 4] ok show ?thesis by simp
qed

text \<open>The relative validity period of GSM 03.40, 9.2.3.12.1 in minutes, and where the code agrees with it.\<close>

definition vp_relative_spec :: "u8 \<Rightarrow> nat" where
  "vp_relative_spec vp =
     (let v = unat vp
      in if v \<le> 143 then (v + 1) * 5 else if v \<le> 167 then 12 * 60 + (v - 143) * 30
         else if v \<le> 196 then (v - 166) * 60 * 24 else (v - 192) * 60 * 24 * 7)"

lemma unat_u64: "unat (word_of_int k :: u64) = nat (k mod 2 ^ 64)"
  by (simp add: unsigned_of_int take_bit_eq_mod)

lemma unat_u64_neg: "- (2 ^ 63) \<le> k \<Longrightarrow> k < 0 \<Longrightarrow> unat (word_of_int k :: u64) = nat (2 ^ 64 + k)"
proof -
  assume k: "- (2 ^ 63) \<le> k" "k < 0"
  have "(k + 2 ^ 64) mod 2 ^ 64 = k + 2 ^ 64" using k by (intro mod_pos_pos_trivial) auto
  then have "k mod 2 ^ 64 = k + 2 ^ 64" by (simp only: mod_add_self2)
  then show ?thesis by (simp add: unat_u64 add.commute)
qed

lemma vp_relative_cases:
  assumes "unat vp = n"
  shows "n \<le> 143 \<Longrightarrow> unat (gsm340_vp_relative vp) = n + 5"
    "144 \<le> n \<Longrightarrow> n \<le> 167 \<Longrightarrow> unat (gsm340_vp_relative vp) = 720 + (n - 143) * 30"
    "168 \<le> n \<Longrightarrow> 2 ^ 63 \<le> unat (gsm340_vp_relative vp)"
proof -
  have "unat vp < 2 ^ LENGTH(8)" by (rule unsigned_less)
  then have b: "n < 256" using assms by simp
  have u: "uint vp = int n" using assms by (metis uint_nat)
  have l: "vp \<le> 143 \<longleftrightarrow> n \<le> 143" "vp \<le> 167 \<longleftrightarrow> n \<le> 167" "vp \<le> 196 \<longleftrightarrow> n \<le> 196"
    using assms by (simp_all add: word_le_nat_alt)
  note no_cast = of_int_add of_int_of_nat_eq of_int_mult of_int_diff
  show "n \<le> 143 \<Longrightarrow> unat (gsm340_vp_relative vp) = n + 5"
    unfolding gsm340_vp_relative_def l u by (simp add: unat_u64 del: no_cast)
  show "144 \<le> n \<Longrightarrow> n \<le> 167 \<Longrightarrow> unat (gsm340_vp_relative vp) = 720 + (n - 143) * 30"
    unfolding gsm340_vp_relative_def l u by (simp add: unat_u64 del: no_cast)
  show "168 \<le> n \<Longrightarrow> 2 ^ 63 \<le> unat (gsm340_vp_relative vp)"
    unfolding gsm340_vp_relative_def l u using b by (simp add: unat_u64_neg le_nat_iff del: no_cast)
qed

text \<open>C40: Only the middle range of relative validity periods is decoded as GSM 03.40 says. Below it the code adds one to five and not to the value, so that the period is five minutes and the value instead of five minutes times its successor; above it the product is subtracted from the value and the result wraps around to more than 2 to the 63 minutes.\<close>

theorem vp_relative_only_middle:
  "(unat (gsm340_vp_relative vp) = vp_relative_spec vp \<longleftrightarrow> unat vp = 0 \<or> 144 \<le> unat vp \<and> unat vp \<le> 167) \<and>
   (168 \<le> unat vp \<longrightarrow> 2 ^ 63 \<le> unat (gsm340_vp_relative vp))"
proof -
  have b: "unat vp < 2 ^ LENGTH(8)" by (rule unsigned_less)
  consider "unat vp \<le> 143" | "144 \<le> unat vp" "unat vp \<le> 167" | "168 \<le> unat vp" by linarith
  then show ?thesis
  proof cases
    case 1
    then show ?thesis by (simp add: vp_relative_cases(1) [OF refl] vp_relative_spec_def Let_def)
  next
    case 2
    then show ?thesis by (simp add: vp_relative_cases(2) [OF refl] vp_relative_spec_def Let_def)
  next
    case 3
    have "vp_relative_spec vp < 2 ^ 63" using 3 b by (auto simp: vp_relative_spec_def Let_def)
    then show ?thesis using 3 vp_relative_cases(3) [OF refl 3] by simp
  qed
qed

theorem vp_relative_only_middle_witness: "2 ^ 63 \<le> unat (gsm340_vp_relative 200)"
  using vp_relative_only_middle [of 200] by simp

end
