(* ===== verification/Transaction.thy ===== *)
theory Transaction
  imports Mncc Sms_Tpdu
begin

unbundle bit_operations_syntax

text \<open>
  The transactions of the MSC (\<^verbatim>\<open>src/libmsc/transaction.c\<close>): the list of all transactions of the network
  in the order of their allocation, the lookups, and the choice of a free transaction identifier.
  Subscribers and connections are addresses, numbers. What freeing a transaction does in the other
  components is recorded as events. \<open>None\<close> is a shift by the width of the bit mask or more.
\<close>

section \<open>Model\<close>

text \<open>The states of a call of GSM 04.08, 5.1.1, as far as the call control uses them.\<close>

datatype cc_cstate =
    GSM_CSTATE_NULL | GSM_CSTATE_INITIATED | GSM_CSTATE_MO_CALL_PROC | GSM_CSTATE_CALL_DELIVERED
  | GSM_CSTATE_CALL_PRESENT | GSM_CSTATE_CALL_RECEIVED | GSM_CSTATE_CONNECT_REQUEST | GSM_CSTATE_MO_TERM_CALL_CONF
  | GSM_CSTATE_ACTIVE | GSM_CSTATE_DISCONNECT_REQ | GSM_CSTATE_DISCONNECT_IND | GSM_CSTATE_RELEASE_REQ
  | GSM_CSTATE_MO_ORIG_MODIFY | GSM_CSTATE_MO_TERM_MODIFY | GSM_CSTATE_CONNECT_IND

text \<open>The part of a transaction that belongs to the call control; \<open>cc_timer\<close> is whether the timer runs.\<close>

record trans_cc =
  cc_state :: cc_cstate
  cc_Tcurrent :: int
  cc_T308_second :: bool
  cc_timer :: bool
  cc_msg :: gsm_mncc

text \<open>The part that belongs to the short message service; the two parts share a union, only that of the transaction's
  protocol has a meaning.\<close>

datatype gsm411_cp_state = GSM411_CPS_IDLE | GSM411_CPS_WAIT_CP_ACK | GSM411_CPS_MM_ESTABLISHED

datatype gsm411_rp_state = GSM411_RPS_IDLE | GSM411_RPS_WAIT_TO_TX_RP_ACK

record trans_sms =
  ts_link_id :: u8
  ts_is_mt :: bool
  ts_cp_state :: gsm411_cp_state
  ts_cp_timer :: bool
  ts_rp_state :: gsm411_rp_state
  ts_sms :: "gsm_sms option"

record gsm_trans =
  tr_protocol :: u8
  tr_transaction_id :: u8
  tr_subscr :: nat
  tr_conn :: "nat option"
  tr_callref :: u32
  tr_tch_recv :: bool
  tr_paging_request :: "nat option"
  tr_cc :: trans_cc
  tr_sms :: trans_sms

definition zero_sms :: trans_sms where
  "zero_sms = \<lparr>ts_link_id = 0, ts_is_mt = False, ts_cp_state = GSM411_CPS_IDLE, ts_cp_timer = False,
     ts_rp_state = GSM411_RPS_IDLE, ts_sms = None\<rparr>"

definition zero_cc :: trans_cc where
  "zero_cc = \<lparr>cc_state = GSM_CSTATE_NULL, cc_Tcurrent = 0, cc_T308_second = False, cc_timer = False, cc_msg = zero_mncc\<rparr>"

datatype trans_event =
    Gsm48_cc_trans_free gsm_trans
  | Gsm411_sms_trans_free gsm_trans
  | Subscr_put nat
  | Msc_release_connection nat

abbreviation (input) GSM48_PDISC_CC :: u8 where "GSM48_PDISC_CC \<equiv> 0x03"
abbreviation (input) GSM48_PDISC_SMS :: u8 where "GSM48_PDISC_SMS \<equiv> 0x09"

definition trans_find_by_id :: "nat \<Rightarrow> u8 \<Rightarrow> u8 \<Rightarrow> gsm_trans list \<Rightarrow> nat option" where
  "trans_find_by_id subscr proto trans_id =
     find_idx (\<lambda>t. tr_subscr t = subscr \<and> tr_protocol t = proto \<and> tr_transaction_id t = trans_id)"

definition trans_find_by_callref :: "u32 \<Rightarrow> gsm_trans list \<Rightarrow> nat option" where
  "trans_find_by_callref callref = find_idx (\<lambda>t. tr_callref t = callref)"

definition trans_alloc :: "nat \<Rightarrow> u8 \<Rightarrow> u8 \<Rightarrow> u32 \<Rightarrow> gsm_trans list \<Rightarrow> gsm_trans list" where
  "trans_alloc subscr protocol trans_id callref ts =
     ts @ [\<lparr>tr_protocol = protocol, tr_transaction_id = trans_id, tr_subscr = subscr, tr_conn = None,
            tr_callref = callref, tr_tch_recv = False, tr_paging_request = None, tr_cc = zero_cc, tr_sms = zero_sms\<rparr>]"

definition trans_free :: "nat \<Rightarrow> gsm_trans list \<Rightarrow> gsm_trans list \<times> trans_event list" where
  "trans_free i ts =
     (let t = ts ! i
      in (take i ts @ drop (Suc i) ts,
          (if tr_protocol t = GSM48_PDISC_CC then [Gsm48_cc_trans_free t]
           else if tr_protocol t = GSM48_PDISC_SMS then [Gsm411_sms_trans_free t] else []) @
          [Subscr_put (tr_subscr t)] @
          (case tr_conn t of None \<Rightarrow> [] | Some c \<Rightarrow> [Msc_release_connection c])))"

text \<open>The bit mask of the identifiers in use.\<close>

fun used_tids :: "nat \<Rightarrow> u8 \<Rightarrow> gsm_trans list \<Rightarrow> u32 \<Rightarrow> u32 option" where
  "used_tids subscr protocol [] m = Some m"
| "used_tids subscr protocol (t # ts) m =
     (if tr_subscr t \<noteq> subscr \<or> tr_protocol t \<noteq> protocol \<or> tr_transaction_id t = 0xff
      then used_tids subscr protocol ts m
      else if unat (tr_transaction_id t) \<ge> 32 then None
      else used_tids subscr protocol ts (m OR push_bit (unat (tr_transaction_id t)) 1))"

definition highest_tid :: "u32 \<Rightarrow> nat \<Rightarrow> nat" where
  "highest_tid m flag = (case find (\<lambda>h. bit m (h OR flag)) [6, 5, 4, 3, 2, 1] of None \<Rightarrow> 0 | Some h \<Rightarrow> h)"

definition trans_assign_trans_id :: "nat \<Rightarrow> u8 \<Rightarrow> u8 \<Rightarrow> gsm_trans list \<Rightarrow> int option" where
  "trans_assign_trans_id subscr protocol ti_flag ts =
     (let flag = (if ti_flag \<noteq> 0 then 8 else 0)
      in case used_tids subscr protocol ts 0 of
           None \<Rightarrow> None
         | Some m \<Rightarrow>
             (let h = highest_tid m flag
              in case find (\<lambda>i. \<not> bit m (((h + i) mod 7) OR flag)) [0..<7] of
                   Some i \<Rightarrow> Some (int (((h + i) mod 7) OR flag))
                 | None \<Rightarrow> Some (- 1)))"

section \<open>Lemmas\<close>

text \<open>Identifiers are those of a message, four bits, or not assigned yet.\<close>

definition tids_ok :: "gsm_trans list \<Rightarrow> bool" where
  "tids_ok ts \<longleftrightarrow> (\<forall>t \<in> set ts. tr_transaction_id t < 16 \<or> tr_transaction_id t = 0xff)"

lemma used_tids_bits:
  "tids_ok ts \<Longrightarrow> \<exists>m'. used_tids subscr protocol ts m = Some m' \<and>
     (\<forall>j. bit m' j \<longleftrightarrow> bit m j \<or> (\<exists>t \<in> set ts. tr_subscr t = subscr \<and> tr_protocol t = protocol \<and>
        tr_transaction_id t \<noteq> 0xff \<and> unat (tr_transaction_id t) = j))"
proof (induction subscr protocol ts m rule: used_tids.induct)
  case (2 subscr protocol t ts m)
  then have ok: "tids_ok ts" by (simp add: tids_ok_def)
  show ?case
  proof (cases "tr_subscr t \<noteq> subscr \<or> tr_protocol t \<noteq> protocol \<or> tr_transaction_id t = 0xff")
    case True
    then show ?thesis using 2(1) [OF True ok] by auto
  next
    case False
    then have l: "unat (tr_transaction_id t) < 16" using 2(3) by (auto simp: tids_ok_def word_less_nat_alt)
    have b: "bit (2 ^ unat (tr_transaction_id t) :: u32) j \<longleftrightarrow> j = unat (tr_transaction_id t)" for j
      using l by (auto simp: bit_exp_iff)
    show ?thesis using 2(2) [OF False _ ok] l False by (auto simp: bit_or_iff b)
  qed
qed simp

lemma tid_or_flag: "k < 7 \<Longrightarrow> k OR 8 = k + (8 :: nat)"
proof -
  assume "k < 7"
  then have "k \<in> {0, 1, 2, 3, 4, 5, 6}" by auto
  then show "k OR 8 = k + (8 :: nat)" by auto
qed

lemma mod7_onto:
  assumes "k < (7 :: nat)"
  shows "\<exists>i < 7. (h + i) mod 7 = k"
proof -
  let ?i = "(k + (7 - h mod 7)) mod 7"
  have "h mod 7 + (k + (7 - h mod 7)) = k + 7" by (simp add: less_imp_le)
  moreover have "(h + ?i) mod 7 = (h mod 7 + (k + (7 - h mod 7))) mod 7" by (simp only: mod_simps)
  ultimately have "(h + ?i) mod 7 = k" using assms by (simp only:) simp
  then show ?thesis by (intro exI [of _ ?i]) simp
qed

definition tid :: "nat \<Rightarrow> u8 \<Rightarrow> u8" where
  "tid k ti_flag = of_nat (k + (if ti_flag \<noteq> 0 then 8 else 0))"

lemma unat_tid: "k < 7 \<Longrightarrow> unat (tid k f) = k + (if f \<noteq> 0 then 8 else 0)"
  unfolding tid_def unat_of_nat by simp

lemma used_iff_found:
  assumes "tids_ok ts" "k < 7" "used_tids subscr protocol ts 0 = Some m"
  shows "bit m (k OR (if f \<noteq> 0 then 8 else 0)) \<longleftrightarrow> trans_find_by_id subscr protocol (tid k f) ts \<noteq> None"
proof -
  have k: "k OR (if f \<noteq> 0 then 8 else 0) = unat (tid k f)" using assms(2) by (simp add: unat_tid tid_or_flag)
  have ff: "unat (tid k f) \<noteq> 255" using assms(2) by (simp add: unat_tid)
  have "bit m (unat (tid k f)) \<longleftrightarrow> (\<exists>t \<in> set ts. tr_subscr t = subscr \<and> tr_protocol t = protocol \<and>
      tr_transaction_id t \<noteq> 0xff \<and> unat (tr_transaction_id t) = unat (tid k f))"
    using used_tids_bits [OF assms(1), of subscr protocol 0] assms(3) by auto
  also have "\<dots> \<longleftrightarrow> (\<exists>t \<in> set ts. tr_subscr t = subscr \<and> tr_protocol t = protocol \<and> tr_transaction_id t = tid k f)"
    using ff by (auto simp: word_unat_eq_iff)
  finally show ?thesis unfolding k trans_find_by_id_def by (auto simp: find_idx_None_iff)
qed

lemma trans_assign_cases:
  assumes "tids_ok ts"
  shows "(\<exists>k < 7. trans_assign_trans_id subscr protocol ti_flag ts = Some (int (unat (tid k ti_flag))) \<and>
            trans_find_by_id subscr protocol (tid k ti_flag) ts = None) \<or>
         trans_assign_trans_id subscr protocol ti_flag ts = Some (- 1) \<and>
         (\<forall>k < 7. trans_find_by_id subscr protocol (tid k ti_flag) ts \<noteq> None)"
proof -
  let ?flag = "if ti_flag \<noteq> 0 then 8 else 0 :: nat"
  obtain m where m: "used_tids subscr protocol ts 0 = Some m" using used_tids_bits [OF assms] by blast
  note used = used_iff_found [OF assms _ m, of _ ti_flag]
  let ?h = "highest_tid m ?flag"
  show ?thesis
  proof (cases "find (\<lambda>i. \<not> bit m (((?h + i) mod 7) OR ?flag)) [0..<7]")
    case None
    then have "bit m (k OR ?flag)" if "k < 7" for k
      using mod7_onto [OF that, of ?h] by (auto simp: find_None_iff)
    then show ?thesis using used None m by (simp add: trans_assign_trans_id_def Let_def)
  next
    case (Some i)
    let ?k = "(?h + i) mod 7"
    have k: "?k < 7" by simp
    have "\<not> bit m (?k OR ?flag)" using Some by (auto simp: find_Some_iff)
    then have n: "trans_find_by_id subscr protocol (tid ?k ti_flag) ts = None" using used [OF k] by simp
    moreover have "trans_assign_trans_id subscr protocol ti_flag ts = Some (int (unat (tid ?k ti_flag)))"
      using Some m k by (simp add: trans_assign_trans_id_def Let_def unat_tid tid_or_flag)
    ultimately show ?thesis using k by blast
  qed
qed

lemma trans_alloc_found:
  assumes "trans_find_by_id subscr protocol trans_id ts = None"
  shows "trans_find_by_id subscr protocol trans_id (trans_alloc subscr protocol trans_id callref ts) = Some (length ts)"
  using assms unfolding trans_find_by_id_def find_idx_Some_iff find_idx_None_iff
  by (auto simp: trans_alloc_def nth_append)

text \<open>A subscriber with two calls.\<close>

definition sample_trans :: "gsm_trans list" where
  "sample_trans = trans_alloc 1 3 8 100 (trans_alloc 1 3 0xff 101 [])"

section \<open>Properties\<close>

text \<open>The identifier chosen for a new transaction is free: no transaction of the subscriber in that protocol has it, it is one of the seven of the requested direction, and a transaction allocated with it is the one found under it. The code gives up exactly when all seven are in use.\<close>

theorem trans_assign_fresh:
  assumes "tids_ok ts"
  shows "(\<exists>k < 7. trans_assign_trans_id subscr protocol ti_flag ts = Some (int (unat (tid k ti_flag))) \<and>
            trans_find_by_id subscr protocol (tid k ti_flag) ts = None \<and>
            trans_find_by_id subscr protocol (tid k ti_flag)
              (trans_alloc subscr protocol (tid k ti_flag) callref ts) = Some (length ts)) \<or>
         trans_assign_trans_id subscr protocol ti_flag ts = Some (- 1) \<and>
         (\<forall>k < 7. trans_find_by_id subscr protocol (tid k ti_flag) ts \<noteq> None)"
  using trans_assign_cases [OF assms, of subscr protocol ti_flag] trans_alloc_found by blast

theorem trans_assign_fresh_witness:
  "trans_assign_trans_id 1 3 1 sample_trans \<noteq> None \<and> trans_assign_trans_id 1 3 1 sample_trans \<noteq> Some 8"
proof -
  have "tids_ok sample_trans" by (simp add: tids_ok_def sample_trans_def trans_alloc_def)
  from trans_assign_fresh [OF this, of 1 3 1 0] show ?thesis
  proof (elim disjE exE conjE)
    fix k
    assume k: "k < 7" "trans_assign_trans_id 1 3 1 sample_trans = Some (int (unat (tid k 1)))"
      "trans_find_by_id 1 3 (tid k 1) sample_trans = None"
    have "trans_find_by_id 1 3 8 sample_trans \<noteq> None" by code_simp
    then have "tid k 1 \<noteq> 8" using k(3) by auto
    then have "uint (tid k 1) \<noteq> 8" by (simp add: word_uint_eq_iff)
    then show ?thesis using k(2) by simp
  qed simp
qed

end
