(* ===== verification/Call_Control.thy ===== *)
theory Call_Control
  imports Transaction Paging
begin

unbundle bit_operations_syntax

text \<open>
  The call control of the MSC (\<^verbatim>\<open>src/libmsc/gsm_04_08.c\<close>, from \<^verbatim>\<open>new_cc_state\<close> to
  \<^verbatim>\<open>gsm0408_rcv_cc\<close>). A handler works on one transaction and says whether the transaction stays or is
  freed; the list of transactions is updated by \<open>cc_apply\<close>. What a handler does elsewhere is its list of
  events, in the order of the calls; the return codes of those calls, the parsing and the coding of
  information elements (libosmocore) and what the subscriber data base and the channel allocation answer are
  the record \<open>cc_env\<close>. Messages to the MNCC application are queued, as they are for an application
  behind the MNCC socket. \<open>None\<close> is the use of a null pointer or of the wrong member of the transaction's union.
\<close>

section \<open>Environment and events\<close>

datatype cc_event =
    Submit_dtap nat "u8 list"
  | Cc_tx_to_mncc gsm_mncc
  | Gsm0808_assign_req nat u8 int
  | Subscr_get_channel nat nat
  | Set_put_channel nat
  | Trau_mux_unmap "nat option" u32
  | Trau_mux_map_lchan nat nat
  | Trau_recv_lchan nat u32
  | Trau_send_frame nat
  | Rtp_send_frame nat
  | Rtp_mdcx_to_rtpsock nat
  | Rtp_socket_proxy nat nat
  | Rtp_socket_upstream nat u32
  | Rsl_ipacc_mdcx nat nat
  | Trans_event trans_event

record cc_env =
  env_tlv_parse :: "u8 list \<Rightarrow> u8 \<Rightarrow> u8 \<Rightarrow> u8 \<Rightarrow> u8 list option"
  env_decode :: "mncc_ie \<Rightarrow> u8 list \<Rightarrow> u8 list"
  env_decode_called :: "u8 list \<Rightarrow> gsm_mncc_number"
  env_decode_cause :: "u8 list \<Rightarrow> gsm_mncc_cause"
  env_decode_keypad :: "u8 list \<Rightarrow> int"
  env_decode_notify :: "u8 list \<Rightarrow> int"
  env_encode :: "mncc_ie \<Rightarrow> bool \<Rightarrow> u8 list \<Rightarrow> u8 list"
  env_encode_cause :: "bool \<Rightarrow> gsm_mncc_cause \<Rightarrow> u8 list"
  env_encode_calling :: "gsm_mncc_number \<Rightarrow> u8 list"
  env_encode_called :: "gsm_mncc_number \<Rightarrow> u8 list"
  env_encode_redirecting :: "gsm_mncc_number \<Rightarrow> u8 list"
  env_encode_connected :: "gsm_mncc_number \<Rightarrow> u8 list"
  env_encode_signal :: "int \<Rightarrow> u8 list"
  env_encode_keypad :: "int \<Rightarrow> u8 list"
  env_encode_notify :: "int \<Rightarrow> u8 list"
  env_encode_more :: "u8 list"
  env_lchan_type :: "nat \<Rightarrow> gsm_chan_t option"
  env_bts_type :: "nat \<Rightarrow> gsm_bts_type"
  env_rtp_socket :: "nat \<Rightarrow> bool"
  env_ipacc_rtp_direct :: bool
  env_extension :: "nat \<Rightarrow> string"
  env_imsi :: "nat \<Rightarrow> string"
  env_lac :: "nat \<Rightarrow> u16"
  env_by_extension :: "string \<Rightarrow> nat option"
  env_by_imsi :: "string \<Rightarrow> nat option"
  env_connection_for_subscr :: "nat \<Rightarrow> nat option"
  env_rc :: "cc_event \<Rightarrow> int"

datatype cc_result = Keep gsm_trans | Free gsm_trans

type_synonym cc_outcome = "(cc_result \<times> cc_event list \<times> int) option"

abbreviation (input) GSM48_CAUSE_LOC_USER :: int where "GSM48_CAUSE_LOC_USER \<equiv> 0"
abbreviation (input) GSM48_CAUSE_LOC_PRN_S_LU :: int where "GSM48_CAUSE_LOC_PRN_S_LU \<equiv> 1"
abbreviation (input) GSM48_CC_CAUSE_UNASSIGNED_NR :: int where "GSM48_CC_CAUSE_UNASSIGNED_NR \<equiv> 1"
abbreviation (input) GSM48_CC_CAUSE_NORM_CALL_CLEAR :: int where "GSM48_CC_CAUSE_NORM_CALL_CLEAR \<equiv> 16"
abbreviation (input) GSM48_CC_CAUSE_USER_NOTRESPOND :: int where "GSM48_CC_CAUSE_USER_NOTRESPOND \<equiv> 18"
abbreviation (input) GSM48_CC_CAUSE_DEST_OOO :: int where "GSM48_CC_CAUSE_DEST_OOO \<equiv> 27"
abbreviation (input) GSM48_CC_CAUSE_INV_NR_FORMAT :: int where "GSM48_CC_CAUSE_INV_NR_FORMAT \<equiv> 28"
abbreviation (input) GSM48_CC_CAUSE_NORMAL_UNSPEC :: int where "GSM48_CC_CAUSE_NORMAL_UNSPEC \<equiv> 31"
abbreviation (input) GSM48_CC_CAUSE_RESOURCE_UNAVAIL :: int where "GSM48_CC_CAUSE_RESOURCE_UNAVAIL \<equiv> 47"
abbreviation (input) GSM48_CC_CAUSE_INVAL_TRANS_ID :: int where "GSM48_CC_CAUSE_INVAL_TRANS_ID \<equiv> 81"
abbreviation (input) GSM48_CC_CAUSE_RECOVERY_TIMER :: int where "GSM48_CC_CAUSE_RECOVERY_TIMER \<equiv> 102"

abbreviation (input) GSM48_IE_BEARER_CAP :: u8 where "GSM48_IE_BEARER_CAP \<equiv> 0x04"
abbreviation (input) GSM48_IE_CAUSE :: u8 where "GSM48_IE_CAUSE \<equiv> 0x08"
abbreviation (input) GSM48_IE_CC_CAP :: u8 where "GSM48_IE_CC_CAP \<equiv> 0x15"
abbreviation (input) GSM48_IE_FACILITY :: u8 where "GSM48_IE_FACILITY \<equiv> 0x1c"
abbreviation (input) GSM48_IE_PROGR_IND :: u8 where "GSM48_IE_PROGR_IND \<equiv> 0x1e"
abbreviation (input) GSM48_IE_KPD_FACILITY :: u8 where "GSM48_IE_KPD_FACILITY \<equiv> 0x2c"
abbreviation (input) GSM48_IE_CALLED_BCD :: u8 where "GSM48_IE_CALLED_BCD \<equiv> 0x5e"
abbreviation (input) GSM48_IE_USER_USER :: u8 where "GSM48_IE_USER_USER \<equiv> 0x7e"
abbreviation (input) GSM48_IE_SS_VERS :: u8 where "GSM48_IE_SS_VERS \<equiv> 0x7f"
abbreviation (input) GSM48_IE_MORE_DATA :: u8 where "GSM48_IE_MORE_DATA \<equiv> 0xa0"
abbreviation (input) GSM48_IE_CLIR_SUPP :: u8 where "GSM48_IE_CLIR_SUPP \<equiv> 0xa1"
abbreviation (input) GSM48_IE_CLIR_INVOC :: u8 where "GSM48_IE_CLIR_INVOC \<equiv> 0xa2"

abbreviation (input) GSM48_MT_CC_ALERTING :: u8 where "GSM48_MT_CC_ALERTING \<equiv> 0x01"
abbreviation (input) GSM48_MT_CC_CALL_PROC :: u8 where "GSM48_MT_CC_CALL_PROC \<equiv> 0x02"
abbreviation (input) GSM48_MT_CC_PROGRESS :: u8 where "GSM48_MT_CC_PROGRESS \<equiv> 0x03"
abbreviation (input) GSM48_MT_CC_SETUP :: u8 where "GSM48_MT_CC_SETUP \<equiv> 0x05"
abbreviation (input) GSM48_MT_CC_CONNECT :: u8 where "GSM48_MT_CC_CONNECT \<equiv> 0x07"
abbreviation (input) GSM48_MT_CC_CALL_CONF :: u8 where "GSM48_MT_CC_CALL_CONF \<equiv> 0x08"
abbreviation (input) GSM48_MT_CC_EMERG_SETUP :: u8 where "GSM48_MT_CC_EMERG_SETUP \<equiv> 0x0e"
abbreviation (input) GSM48_MT_CC_CONNECT_ACK :: u8 where "GSM48_MT_CC_CONNECT_ACK \<equiv> 0x0f"
abbreviation (input) GSM48_MT_CC_USER_INFO :: u8 where "GSM48_MT_CC_USER_INFO \<equiv> 0x10"
abbreviation (input) GSM48_MT_CC_MODIFY_REJECT :: u8 where "GSM48_MT_CC_MODIFY_REJECT \<equiv> 0x13"
abbreviation (input) GSM48_MT_CC_MODIFY :: u8 where "GSM48_MT_CC_MODIFY \<equiv> 0x17"
abbreviation (input) GSM48_MT_CC_HOLD :: u8 where "GSM48_MT_CC_HOLD \<equiv> 0x18"
abbreviation (input) GSM48_MT_CC_HOLD_ACK :: u8 where "GSM48_MT_CC_HOLD_ACK \<equiv> 0x19"
abbreviation (input) GSM48_MT_CC_HOLD_REJ :: u8 where "GSM48_MT_CC_HOLD_REJ \<equiv> 0x1a"
abbreviation (input) GSM48_MT_CC_RETR :: u8 where "GSM48_MT_CC_RETR \<equiv> 0x1c"
abbreviation (input) GSM48_MT_CC_RETR_ACK :: u8 where "GSM48_MT_CC_RETR_ACK \<equiv> 0x1d"
abbreviation (input) GSM48_MT_CC_RETR_REJ :: u8 where "GSM48_MT_CC_RETR_REJ \<equiv> 0x1e"
abbreviation (input) GSM48_MT_CC_MODIFY_COMPL :: u8 where "GSM48_MT_CC_MODIFY_COMPL \<equiv> 0x1f"
abbreviation (input) GSM48_MT_CC_DISCONNECT :: u8 where "GSM48_MT_CC_DISCONNECT \<equiv> 0x25"
abbreviation (input) GSM48_MT_CC_RELEASE_COMPL :: u8 where "GSM48_MT_CC_RELEASE_COMPL \<equiv> 0x2a"
abbreviation (input) GSM48_MT_CC_RELEASE :: u8 where "GSM48_MT_CC_RELEASE \<equiv> 0x2d"
abbreviation (input) GSM48_MT_CC_STOP_DTMF :: u8 where "GSM48_MT_CC_STOP_DTMF \<equiv> 0x31"
abbreviation (input) GSM48_MT_CC_STOP_DTMF_ACK :: u8 where "GSM48_MT_CC_STOP_DTMF_ACK \<equiv> 0x32"
abbreviation (input) GSM48_MT_CC_STATUS_ENQ :: u8 where "GSM48_MT_CC_STATUS_ENQ \<equiv> 0x34"
abbreviation (input) GSM48_MT_CC_START_DTMF :: u8 where "GSM48_MT_CC_START_DTMF \<equiv> 0x35"
abbreviation (input) GSM48_MT_CC_START_DTMF_ACK :: u8 where "GSM48_MT_CC_START_DTMF_ACK \<equiv> 0x36"
abbreviation (input) GSM48_MT_CC_START_DTMF_REJ :: u8 where "GSM48_MT_CC_START_DTMF_REJ \<equiv> 0x37"
abbreviation (input) GSM48_MT_CC_FACILITY :: u8 where "GSM48_MT_CC_FACILITY \<equiv> 0x3a"
abbreviation (input) GSM48_MT_CC_STATUS :: u8 where "GSM48_MT_CC_STATUS \<equiv> 0x3d"
abbreviation (input) GSM48_MT_CC_NOTIFY :: u8 where "GSM48_MT_CC_NOTIFY \<equiv> 0x3e"

section \<open>Building blocks\<close>

definition new_cc_state :: "cc_cstate \<Rightarrow> gsm_trans \<Rightarrow> gsm_trans" where
  "new_cc_state state t = t\<lparr>tr_cc := (tr_cc t)\<lparr>cc_state := state\<rparr>\<rparr>"

definition gsm48_stop_cc_timer :: "gsm_trans \<Rightarrow> gsm_trans" where
  "gsm48_stop_cc_timer t =
     (if cc_timer (tr_cc t) then t\<lparr>tr_cc := (tr_cc t)\<lparr>cc_timer := False, cc_Tcurrent := 0\<rparr>\<rparr> else t)"

definition gsm48_start_cc_timer :: "int \<Rightarrow> gsm_trans \<Rightarrow> gsm_trans" where
  "gsm48_start_cc_timer current t = t\<lparr>tr_cc := (tr_cc t)\<lparr>cc_timer := True, cc_Tcurrent := current\<rparr>\<rparr>"

definition clear_callref :: "gsm_trans \<Rightarrow> gsm_trans" where
  "clear_callref t = t\<lparr>tr_callref := 0\<rparr>"

text \<open>Sending on the transaction's connection: the protocol discriminator carries the transaction identifier.\<close>

definition gsm48_conn_sendmsg :: "cc_env \<Rightarrow> gsm_trans \<Rightarrow> u8 \<Rightarrow> u8 list \<Rightarrow> (cc_event list \<times> int) option" where
  "gsm48_conn_sendmsg env t msg_type ies =
     (case tr_conn t of
        None \<Rightarrow> None
      | Some conn \<Rightarrow>
          (let ev = Submit_dtap conn ((tr_protocol t OR push_bit 4 (tr_transaction_id t)) # msg_type # ies)
           in Some ([ev], env_rc env ev)))"

definition gsm48_tx_simple :: "cc_env \<Rightarrow> nat option \<Rightarrow> u8 \<Rightarrow> u8 \<Rightarrow> (cc_event list \<times> int) option" where
  "gsm48_tx_simple env conn pdisc msg_type =
     (case conn of
        None \<Rightarrow> None
      | Some conn \<Rightarrow> (let ev = Submit_dtap conn [pdisc, msg_type] in Some ([ev], env_rc env ev)))"

definition mncc_recvmsg :: "u32 \<Rightarrow> gsm_mncc \<Rightarrow> cc_event" where
  "mncc_recvmsg msg_type m = Cc_tx_to_mncc (m\<lparr>mn_msg_type := msg_type\<rparr>)"

definition mncc_release_ind :: "u32 \<Rightarrow> int \<Rightarrow> int \<Rightarrow> cc_event" where
  "mncc_release_ind callref location val =
     mncc_recvmsg MNCC_REL_IND (mncc_set_cause location val (zero_mncc\<lparr>mn_callref := callref\<rparr>))"

text \<open>What \<open>trans_free\<close> does for a transaction of the call control; \<open>None\<close> is a connection without a logical channel.\<close>

definition gsm48_cc_trans_free :: "cc_env \<Rightarrow> gsm_trans \<Rightarrow> (gsm_trans \<times> cc_event list) option" where
  "gsm48_cc_trans_free env t =
     (let t1 = gsm48_stop_cc_timer t;
          ev = (if tr_callref t1 \<noteq> 0
                then [mncc_release_ind (tr_callref t1) GSM48_CAUSE_LOC_PRN_S_LU GSM48_CC_CAUSE_RESOURCE_UNAVAIL] else []);
          t2 = (if cc_state (tr_cc t1) \<noteq> GSM_CSTATE_NULL then new_cc_state GSM_CSTATE_NULL t1 else t1)
      in case tr_conn t2 of
           None \<Rightarrow> Some (t2, ev)
         | Some conn \<Rightarrow>
             (if env_lchan_type env conn = None then None
              else Some (t2, ev @ [Trau_mux_unmap (Some conn) (tr_callref t2)])))"

fun cc_trans_event :: "cc_env \<Rightarrow> trans_event \<Rightarrow> cc_event list option" where
  "cc_trans_event env (Gsm48_cc_trans_free t) = map_option snd (gsm48_cc_trans_free env t)"
| "cc_trans_event env ev = Some [Trans_event ev]"

fun cc_trans_events :: "cc_env \<Rightarrow> trans_event list \<Rightarrow> cc_event list option" where
  "cc_trans_events env [] = Some []"
| "cc_trans_events env (e # es) =
     (case (cc_trans_event env e, cc_trans_events env es) of (Some a, Some b) \<Rightarrow> Some (a @ b) | _ \<Rightarrow> None)"

text \<open>Freeing the transaction at a position of the list.\<close>

definition cc_trans_free :: "cc_env \<Rightarrow> nat \<Rightarrow> gsm_trans list \<Rightarrow> (gsm_trans list \<times> cc_event list) option" where
  "cc_trans_free env i ts =
     (let (ts', tev) = trans_free i ts in map_option (\<lambda>ev. (ts', ev)) (cc_trans_events env tev))"

fun cc_apply :: "cc_env \<Rightarrow> nat \<Rightarrow> gsm_trans list \<Rightarrow> cc_result \<times> cc_event list \<times> int \<Rightarrow>
    (gsm_trans list \<times> cc_event list \<times> int) option" where
  "cc_apply env i ts (Keep t, ev, rc) = Some (ts[i := t], ev, rc)"
| "cc_apply env i ts (Free t, ev, rc) =
     map_option (\<lambda>(ts', ev'). (ts', ev @ ev', rc)) (cc_trans_free env i (ts[i := t]))"

text \<open>The information elements of a message to be sent, present when their flag is set.\<close>

definition enc_if :: "gsm_mncc \<Rightarrow> u32 \<Rightarrow> u8 list \<Rightarrow> u8 list" where
  "enc_if m flag ie = (if mn_fields m AND flag \<noteq> 0 then ie else [])"

definition enc_ie :: "cc_env \<Rightarrow> gsm_mncc \<Rightarrow> u32 \<Rightarrow> mncc_ie \<Rightarrow> u8 list" where
  "enc_ie env m flag ie = enc_if m flag (env_encode env ie False (mn_ie m ie))"

text \<open>Sending from a handler, and reporting to the MNCC application.\<close>

definition cc_send :: "cc_env \<Rightarrow> gsm_trans \<Rightarrow> u8 \<Rightarrow> u8 list \<Rightarrow> cc_outcome" where
  "cc_send env t msg_type ies = map_option (\<lambda>(ev, rc). (Keep t, ev, rc)) (gsm48_conn_sendmsg env t msg_type ies)"

definition cc_report :: "gsm_trans \<Rightarrow> u32 \<Rightarrow> gsm_mncc \<Rightarrow> cc_outcome" where
  "cc_report t msg_type m = Some (Keep t, [mncc_recvmsg msg_type m], 0)"

text \<open>A message cleared by \<^verbatim>\<open>memset\<close> with the call reference of the transaction; decoding of received elements.\<close>

definition trans_mncc :: "gsm_trans \<Rightarrow> gsm_mncc" where
  "trans_mncc t = zero_mncc\<lparr>mn_callref := tr_callref t\<rparr>"

definition dec_ie :: "cc_env \<Rightarrow> (u8 \<Rightarrow> u8 list option) \<Rightarrow> u8 \<Rightarrow> u32 \<Rightarrow> mncc_ie \<Rightarrow> gsm_mncc \<Rightarrow> gsm_mncc" where
  "dec_ie env tp tag flag ie m =
     (case tp tag of
        None \<Rightarrow> m
      | Some v \<Rightarrow> m\<lparr>mn_fields := mn_fields m OR flag, mn_ie := (mn_ie m)(ie := env_decode env ie v)\<rparr>)"

definition dec_cause :: "cc_env \<Rightarrow> (u8 \<Rightarrow> u8 list option) \<Rightarrow> gsm_mncc \<Rightarrow> gsm_mncc" where
  "dec_cause env tp m =
     (case tp GSM48_IE_CAUSE of
        None \<Rightarrow> m
      | Some v \<Rightarrow> m\<lparr>mn_fields := mn_fields m OR MNCC_F_CAUSE, mn_cause := env_decode_cause env v\<rparr>)"

definition set_lchan_type :: "cc_env \<Rightarrow> gsm_trans \<Rightarrow> gsm_mncc \<Rightarrow> gsm_mncc" where
  "set_lchan_type env t m =
     (case tr_conn t of
        None \<Rightarrow> m
      | Some conn \<Rightarrow> (case env_lchan_type env conn of None \<Rightarrow> m | Some ty \<Rightarrow> m\<lparr>mn_lchan_type := ty\<rparr>))"

definition default_cause :: gsm_mncc_cause where
  "default_cause = \<lparr>mnc_location = GSM48_CAUSE_LOC_PRN_S_LU, mnc_coding = 0, mnc_rec = 0, mnc_rec_val = 0,
     mnc_value = GSM48_CC_CAUSE_NORMAL_UNSPEC, mnc_diag = []\<rparr>"

text \<open>The mandatory cause of a message, the default when the application gave none.\<close>

definition enc_cause_or_default :: "cc_env \<Rightarrow> gsm_mncc \<Rightarrow> u8 list" where
  "enc_cause_or_default env m =
     env_encode_cause env True (if mn_fields m AND MNCC_F_CAUSE \<noteq> 0 then mn_cause m else default_cause)"

section \<open>Messages from the mobile station\<close>

definition gsm48_cc_tx_status :: "cc_env \<Rightarrow> gsm_trans \<Rightarrow> cc_outcome" where
  "gsm48_cc_tx_status env t =
     cc_send env t GSM48_MT_CC_STATUS [2, 0x60 OR 0x00, 0x80 OR 30, 0xc0 OR 0x00]"

definition gsm48_cc_rx_status_enq :: "cc_env \<Rightarrow> gsm_trans \<Rightarrow> u8 \<Rightarrow> u8 list \<Rightarrow> cc_outcome" where
  "gsm48_cc_rx_status_enq env t msg_type data = gsm48_cc_tx_status env t"

definition gsm48_cc_rx_setup :: "cc_env \<Rightarrow> gsm_trans \<Rightarrow> u8 \<Rightarrow> u8 list \<Rightarrow> cc_outcome" where
  "gsm48_cc_rx_setup env t msg_type data =
     (let tp = env_tlv_parse env data 0 0;
          m = set_lchan_type env t (trans_mncc t);
          m = (if msg_type = GSM48_MT_CC_EMERG_SETUP then m\<lparr>mn_emergency := 1\<rparr> else m);
          m = m\<lparr>mn_fields := mn_fields m OR MNCC_F_CALLING,
                mn_calling := (mn_calling m)\<lparr>mnn_number := take 32 (env_extension env (tr_subscr t))\<rparr>,
                mn_imsi := take 15 (env_imsi env (tr_subscr t))\<rparr>;
          m = dec_ie env tp GSM48_IE_BEARER_CAP MNCC_F_BEARER_CAP IE_BEARER_CAP m;
          m = dec_ie env tp GSM48_IE_FACILITY MNCC_F_FACILITY IE_FACILITY m;
          m = (case tp GSM48_IE_CALLED_BCD of
                 None \<Rightarrow> m
               | Some v \<Rightarrow> m\<lparr>mn_fields := mn_fields m OR MNCC_F_CALLED, mn_called := env_decode_called env v\<rparr>);
          m = dec_ie env tp GSM48_IE_USER_USER MNCC_F_USERUSER IE_USERUSER m;
          m = dec_ie env tp GSM48_IE_SS_VERS MNCC_F_SSVERSION IE_SSVERSION m;
          m = (if tp GSM48_IE_CLIR_SUPP \<noteq> None then m\<lparr>mn_clir_sup := 1\<rparr> else m);
          m = (if tp GSM48_IE_CLIR_INVOC \<noteq> None then m\<lparr>mn_clir_inv := 1\<rparr> else m);
          m = dec_ie env tp GSM48_IE_CC_CAP MNCC_F_CCCAP IE_CCCAP m
      in cc_report (new_cc_state GSM_CSTATE_INITIATED t) MNCC_SETUP_IND m)"

definition gsm48_cc_rx_call_conf :: "cc_env \<Rightarrow> gsm_trans \<Rightarrow> u8 \<Rightarrow> u8 list \<Rightarrow> cc_outcome" where
  "gsm48_cc_rx_call_conf env t msg_type data =
     (let t = gsm48_start_cc_timer 0x310 (gsm48_stop_cc_timer t);
          tp = env_tlv_parse env data 0 0;
          m = set_lchan_type env t (trans_mncc t);
          m = dec_ie env tp GSM48_IE_BEARER_CAP MNCC_F_BEARER_CAP IE_BEARER_CAP m;
          m = dec_cause env tp m;
          m = dec_ie env tp GSM48_IE_CC_CAP MNCC_F_CCCAP IE_CCCAP m
      in cc_report (new_cc_state GSM_CSTATE_MO_TERM_CALL_CONF t) MNCC_CALL_CONF_IND m)"

definition gsm48_cc_rx_alerting :: "cc_env \<Rightarrow> gsm_trans \<Rightarrow> u8 \<Rightarrow> u8 list \<Rightarrow> cc_outcome" where
  "gsm48_cc_rx_alerting env t msg_type data =
     (let t = gsm48_start_cc_timer 0x301 (gsm48_stop_cc_timer t);
          tp = env_tlv_parse env data 0 0;
          m = dec_ie env tp GSM48_IE_FACILITY MNCC_F_FACILITY IE_FACILITY (trans_mncc t);
          m = dec_ie env tp GSM48_IE_PROGR_IND MNCC_F_PROGRESS IE_PROGRESS m;
          m = dec_ie env tp GSM48_IE_SS_VERS MNCC_F_SSVERSION IE_SSVERSION m
      in cc_report (new_cc_state GSM_CSTATE_CALL_RECEIVED t) MNCC_ALERT_IND m)"

definition gsm48_cc_rx_connect :: "cc_env \<Rightarrow> gsm_trans \<Rightarrow> u8 \<Rightarrow> u8 list \<Rightarrow> cc_outcome" where
  "gsm48_cc_rx_connect env t msg_type data =
     (let t = gsm48_stop_cc_timer t;
          tp = env_tlv_parse env data 0 0;
          m = trans_mncc t;
          m = m\<lparr>mn_fields := mn_fields m OR MNCC_F_CONNECTED,
                mn_connected := (mn_connected m)\<lparr>mnn_number := take 32 (env_extension env (tr_subscr t))\<rparr>,
                mn_imsi := take 15 (env_imsi env (tr_subscr t))\<rparr>;
          m = dec_ie env tp GSM48_IE_FACILITY MNCC_F_FACILITY IE_FACILITY m;
          m = dec_ie env tp GSM48_IE_USER_USER MNCC_F_USERUSER IE_USERUSER m;
          m = dec_ie env tp GSM48_IE_SS_VERS MNCC_F_SSVERSION IE_SSVERSION m
      in cc_report (new_cc_state GSM_CSTATE_CONNECT_REQUEST t) MNCC_SETUP_CNF m)"

definition gsm48_cc_rx_connect_ack :: "cc_env \<Rightarrow> gsm_trans \<Rightarrow> u8 \<Rightarrow> u8 list \<Rightarrow> cc_outcome" where
  "gsm48_cc_rx_connect_ack env t msg_type data =
     (let t = new_cc_state GSM_CSTATE_ACTIVE (gsm48_stop_cc_timer t)
      in cc_report t MNCC_SETUP_COMPL_IND (trans_mncc t))"

definition gsm48_cc_rx_disconnect :: "cc_env \<Rightarrow> gsm_trans \<Rightarrow> u8 \<Rightarrow> u8 list \<Rightarrow> cc_outcome" where
  "gsm48_cc_rx_disconnect env t msg_type data =
     (let t = new_cc_state GSM_CSTATE_DISCONNECT_REQ (gsm48_stop_cc_timer t);
          tp = env_tlv_parse env data GSM48_IE_CAUSE 0;
          m = dec_cause env tp (trans_mncc t);
          m = dec_ie env tp GSM48_IE_FACILITY MNCC_F_FACILITY IE_FACILITY m;
          m = dec_ie env tp GSM48_IE_USER_USER MNCC_F_USERUSER IE_USERUSER m;
          m = dec_ie env tp GSM48_IE_SS_VERS MNCC_F_SSVERSION IE_SSVERSION m
      in cc_report t MNCC_DISC_IND m)"

text \<open>The elements of a RELEASE or RELEASE COMPLETE.\<close>

definition dec_release :: "cc_env \<Rightarrow> u8 list \<Rightarrow> gsm_mncc \<Rightarrow> gsm_mncc" where
  "dec_release env data m =
     (let tp = env_tlv_parse env data 0 0;
          m = dec_cause env tp m;
          m = dec_ie env tp GSM48_IE_FACILITY MNCC_F_FACILITY IE_FACILITY m;
          m = dec_ie env tp GSM48_IE_USER_USER MNCC_F_USERUSER IE_USERUSER m
      in dec_ie env tp GSM48_IE_SS_VERS MNCC_F_SSVERSION IE_SSVERSION m)"

definition gsm48_cc_rx_release :: "cc_env \<Rightarrow> gsm_trans \<Rightarrow> u8 \<Rightarrow> u8 list \<Rightarrow> cc_outcome" where
  "gsm48_cc_rx_release env t msg_type data =
     (let t = gsm48_stop_cc_timer t;
          m = dec_release env data (trans_mncc t);
          t' = clear_callref (new_cc_state GSM_CSTATE_NULL t)
      in if cc_state (tr_cc t) = GSM_CSTATE_RELEASE_REQ
         then Some (Free t', [mncc_recvmsg MNCC_REL_CNF m], 0)
         else (case gsm48_tx_simple env (tr_conn t) (GSM48_PDISC_CC OR push_bit 4 (tr_transaction_id t))
                      GSM48_MT_CC_RELEASE_COMPL of
                 None \<Rightarrow> None
               | Some (ev, _) \<Rightarrow> Some (Free t', ev @ [mncc_recvmsg MNCC_REL_IND m], 0)))"

definition gsm48_cc_rx_release_compl :: "cc_env \<Rightarrow> gsm_trans \<Rightarrow> u8 \<Rightarrow> u8 list \<Rightarrow> cc_outcome" where
  "gsm48_cc_rx_release_compl env t msg_type data =
     (let t = gsm48_stop_cc_timer t;
          m = dec_release env data (trans_mncc t);
          ev = (if tr_callref t \<noteq> 0
                then [mncc_recvmsg (case cc_state (tr_cc t) of
                                      GSM_CSTATE_CALL_PRESENT \<Rightarrow> MNCC_REJ_IND
                                    | GSM_CSTATE_RELEASE_REQ \<Rightarrow> MNCC_REL_CNF
                                    | _ \<Rightarrow> MNCC_REL_IND) m]
                else [])
      in Some (Free (clear_callref t), ev, 0))"

definition gsm48_cc_rx_facility :: "cc_env \<Rightarrow> gsm_trans \<Rightarrow> u8 \<Rightarrow> u8 list \<Rightarrow> cc_outcome" where
  "gsm48_cc_rx_facility env t msg_type data =
     (let tp = env_tlv_parse env data GSM48_IE_FACILITY 0;
          m = dec_ie env tp GSM48_IE_FACILITY MNCC_F_FACILITY IE_FACILITY (trans_mncc t);
          m = dec_ie env tp GSM48_IE_SS_VERS MNCC_F_SSVERSION IE_SSVERSION m
      in cc_report t MNCC_FACILITY_IND m)"

definition gsm48_cc_rx_hold :: "cc_env \<Rightarrow> gsm_trans \<Rightarrow> u8 \<Rightarrow> u8 list \<Rightarrow> cc_outcome" where
  "gsm48_cc_rx_hold env t msg_type data = cc_report t MNCC_HOLD_IND (trans_mncc t)"

definition gsm48_cc_rx_retrieve :: "cc_env \<Rightarrow> gsm_trans \<Rightarrow> u8 \<Rightarrow> u8 list \<Rightarrow> cc_outcome" where
  "gsm48_cc_rx_retrieve env t msg_type data = cc_report t MNCC_RETRIEVE_IND (trans_mncc t)"

definition gsm48_cc_rx_start_dtmf :: "cc_env \<Rightarrow> gsm_trans \<Rightarrow> u8 \<Rightarrow> u8 list \<Rightarrow> cc_outcome" where
  "gsm48_cc_rx_start_dtmf env t msg_type data =
     (let tp = env_tlv_parse env data 0 0;
          m = trans_mncc t;
          m = (case tp GSM48_IE_KPD_FACILITY of
                 None \<Rightarrow> m
               | Some v \<Rightarrow> m\<lparr>mn_fields := mn_fields m OR MNCC_F_KEYPAD, mn_keypad := env_decode_keypad env v\<rparr>)
      in cc_report t MNCC_START_DTMF_IND m)"

definition gsm48_cc_rx_stop_dtmf :: "cc_env \<Rightarrow> gsm_trans \<Rightarrow> u8 \<Rightarrow> u8 list \<Rightarrow> cc_outcome" where
  "gsm48_cc_rx_stop_dtmf env t msg_type data = cc_report t MNCC_STOP_DTMF_IND (trans_mncc t)"

definition gsm48_cc_rx_modify :: "cc_env \<Rightarrow> gsm_trans \<Rightarrow> u8 \<Rightarrow> u8 list \<Rightarrow> cc_outcome" where
  "gsm48_cc_rx_modify env t msg_type data =
     (let tp = env_tlv_parse env data GSM48_IE_BEARER_CAP 0;
          m = dec_ie env tp GSM48_IE_BEARER_CAP MNCC_F_BEARER_CAP IE_BEARER_CAP (trans_mncc t)
      in cc_report (new_cc_state GSM_CSTATE_MO_ORIG_MODIFY t) MNCC_MODIFY_IND m)"

definition gsm48_cc_rx_modify_complete :: "cc_env \<Rightarrow> gsm_trans \<Rightarrow> u8 \<Rightarrow> u8 list \<Rightarrow> cc_outcome" where
  "gsm48_cc_rx_modify_complete env t msg_type data =
     (let t = gsm48_stop_cc_timer t;
          tp = env_tlv_parse env data GSM48_IE_BEARER_CAP 0;
          m = dec_ie env tp GSM48_IE_BEARER_CAP MNCC_F_BEARER_CAP IE_BEARER_CAP (trans_mncc t)
      in cc_report (new_cc_state GSM_CSTATE_ACTIVE t) MNCC_MODIFY_CNF m)"

text \<open>As the code has it, the flag set for a received bearer capability is the tag of the element.\<close>

definition gsm48_cc_rx_modify_reject :: "cc_env \<Rightarrow> gsm_trans \<Rightarrow> u8 \<Rightarrow> u8 list \<Rightarrow> cc_outcome" where
  "gsm48_cc_rx_modify_reject env t msg_type data =
     (let t = gsm48_stop_cc_timer t;
          tp = env_tlv_parse env data GSM48_IE_BEARER_CAP GSM48_IE_CAUSE;
          m = dec_ie env tp GSM48_IE_BEARER_CAP (ucast GSM48_IE_BEARER_CAP) IE_BEARER_CAP (trans_mncc t);
          m = dec_cause env tp m
      in cc_report (new_cc_state GSM_CSTATE_ACTIVE t) MNCC_MODIFY_REJ m)"

definition gsm48_cc_rx_notify :: "cc_env \<Rightarrow> gsm_trans \<Rightarrow> u8 \<Rightarrow> u8 list \<Rightarrow> cc_outcome" where
  "gsm48_cc_rx_notify env t msg_type data =
     (let m = trans_mncc t;
          m = (if length data \<ge> 1 then m\<lparr>mn_notify := env_decode_notify env data\<rparr> else m)
      in cc_report t MNCC_NOTIFY_IND m)"

definition gsm48_cc_rx_userinfo :: "cc_env \<Rightarrow> gsm_trans \<Rightarrow> u8 \<Rightarrow> u8 list \<Rightarrow> cc_outcome" where
  "gsm48_cc_rx_userinfo env t msg_type data =
     (let tp = env_tlv_parse env data GSM48_IE_USER_USER 0;
          m = dec_ie env tp GSM48_IE_USER_USER MNCC_F_USERUSER IE_USERUSER (trans_mncc t);
          m = (if tp GSM48_IE_MORE_DATA \<noteq> None then m\<lparr>mn_more := 1\<rparr> else m)
      in cc_report t MNCC_USERINFO_IND m)"

section \<open>Requests of the MNCC application\<close>

definition gsm48_cc_tx_setup :: "cc_env \<Rightarrow> gsm_trans list \<Rightarrow> gsm_trans \<Rightarrow> gsm_mncc \<Rightarrow> cc_outcome" where
  "gsm48_cc_tx_setup env ts t m =
     (let fail = Some (Free (clear_callref t),
            [mncc_release_ind (tr_callref t) GSM48_CAUSE_LOC_PRN_S_LU GSM48_CC_CAUSE_RESOURCE_UNAVAIL], 0)
      in if tr_transaction_id t \<noteq> 0xff then fail
         else case trans_assign_trans_id (tr_subscr t) GSM48_PDISC_CC 0 ts of
                None \<Rightarrow> None
              | Some trans_id \<Rightarrow>
                  (if trans_id < 0 then fail
                   else cc_send env
                          (new_cc_state GSM_CSTATE_CALL_PRESENT
                            (gsm48_start_cc_timer 0x303 (t\<lparr>tr_transaction_id := of_int trans_id\<rparr>)))
                          GSM48_MT_CC_SETUP
                          (enc_ie env m MNCC_F_BEARER_CAP IE_BEARER_CAP @
                           enc_ie env m MNCC_F_FACILITY IE_FACILITY @
                           enc_ie env m MNCC_F_PROGRESS IE_PROGRESS @
                           enc_if m MNCC_F_CALLING (env_encode_calling env (mn_calling m)) @
                           enc_if m MNCC_F_CALLED (env_encode_called env (mn_called m)) @
                           enc_ie env m MNCC_F_USERUSER IE_USERUSER @
                           enc_if m MNCC_F_REDIRECTING (env_encode_redirecting env (mn_redirecting m)) @
                           enc_if m MNCC_F_SIGNAL (env_encode_signal env (mn_signal m)))))"

definition gsm48_cc_tx_call_proc :: "cc_env \<Rightarrow> gsm_trans \<Rightarrow> gsm_mncc \<Rightarrow> cc_outcome" where
  "gsm48_cc_tx_call_proc env t m =
     cc_send env (new_cc_state GSM_CSTATE_MO_CALL_PROC t) GSM48_MT_CC_CALL_PROC
       (enc_ie env m MNCC_F_BEARER_CAP IE_BEARER_CAP @ enc_ie env m MNCC_F_FACILITY IE_FACILITY @
        enc_ie env m MNCC_F_PROGRESS IE_PROGRESS)"

definition gsm48_cc_tx_alerting :: "cc_env \<Rightarrow> gsm_trans \<Rightarrow> gsm_mncc \<Rightarrow> cc_outcome" where
  "gsm48_cc_tx_alerting env t m =
     cc_send env (new_cc_state GSM_CSTATE_CALL_DELIVERED t) GSM48_MT_CC_ALERTING
       (enc_ie env m MNCC_F_FACILITY IE_FACILITY @ enc_ie env m MNCC_F_PROGRESS IE_PROGRESS @
        enc_ie env m MNCC_F_USERUSER IE_USERUSER)"

definition gsm48_cc_tx_progress :: "cc_env \<Rightarrow> gsm_trans \<Rightarrow> gsm_mncc \<Rightarrow> cc_outcome" where
  "gsm48_cc_tx_progress env t m =
     cc_send env t GSM48_MT_CC_PROGRESS
       (env_encode env IE_PROGRESS True (mn_ie m IE_PROGRESS) @ enc_ie env m MNCC_F_USERUSER IE_USERUSER)"

definition gsm48_cc_tx_connect :: "cc_env \<Rightarrow> gsm_trans \<Rightarrow> gsm_mncc \<Rightarrow> cc_outcome" where
  "gsm48_cc_tx_connect env t m =
     cc_send env
       (new_cc_state GSM_CSTATE_CONNECT_IND (gsm48_start_cc_timer 0x313 (gsm48_stop_cc_timer t)))
       GSM48_MT_CC_CONNECT
       (enc_ie env m MNCC_F_FACILITY IE_FACILITY @ enc_ie env m MNCC_F_PROGRESS IE_PROGRESS @
        enc_if m MNCC_F_CONNECTED (env_encode_connected env (mn_connected m)) @
        enc_ie env m MNCC_F_USERUSER IE_USERUSER)"

definition gsm48_cc_tx_connect_ack :: "cc_env \<Rightarrow> gsm_trans \<Rightarrow> gsm_mncc \<Rightarrow> cc_outcome" where
  "gsm48_cc_tx_connect_ack env t m = cc_send env (new_cc_state GSM_CSTATE_ACTIVE t) GSM48_MT_CC_CONNECT_ACK []"

definition gsm48_cc_tx_disconnect :: "cc_env \<Rightarrow> gsm_trans \<Rightarrow> gsm_mncc \<Rightarrow> cc_outcome" where
  "gsm48_cc_tx_disconnect env t m =
     (let t = gsm48_start_cc_timer 0x306 (gsm48_stop_cc_timer t);
          t = new_cc_state GSM_CSTATE_DISCONNECT_IND (t\<lparr>tr_cc := (tr_cc t)\<lparr>cc_msg := m\<rparr>\<rparr>)
      in cc_send env t GSM48_MT_CC_DISCONNECT
           (enc_cause_or_default env m @ enc_ie env m MNCC_F_FACILITY IE_FACILITY @
            enc_ie env m MNCC_F_PROGRESS IE_PROGRESS @ enc_ie env m MNCC_F_USERUSER IE_USERUSER))"

text \<open>The elements of a RELEASE or RELEASE COMPLETE sent to the mobile station.\<close>

definition enc_release :: "cc_env \<Rightarrow> gsm_mncc \<Rightarrow> u8 list" where
  "enc_release env m =
     enc_if m MNCC_F_CAUSE (env_encode_cause env False (mn_cause m)) @
     enc_ie env m MNCC_F_FACILITY IE_FACILITY @ enc_ie env m MNCC_F_USERUSER IE_USERUSER"

definition gsm48_cc_tx_release :: "cc_env \<Rightarrow> gsm_trans \<Rightarrow> gsm_mncc \<Rightarrow> cc_outcome" where
  "gsm48_cc_tx_release env t m =
     (let t = gsm48_start_cc_timer 0x308 (gsm48_stop_cc_timer (clear_callref t));
          t = t\<lparr>tr_cc := (tr_cc t)\<lparr>cc_T308_second := False, cc_msg := m\<rparr>\<rparr>;
          t = (if cc_state (tr_cc t) \<noteq> GSM_CSTATE_RELEASE_REQ then new_cc_state GSM_CSTATE_RELEASE_REQ t else t)
      in cc_send env t GSM48_MT_CC_RELEASE (enc_release env m))"

definition gsm48_cc_tx_release_compl :: "cc_env \<Rightarrow> gsm_trans \<Rightarrow> gsm_mncc \<Rightarrow> cc_outcome" where
  "gsm48_cc_tx_release_compl env t m =
     (let t = gsm48_stop_cc_timer (clear_callref t)
      in map_option (\<lambda>(ev, rc). (Free t, ev, rc))
           (gsm48_conn_sendmsg env t GSM48_MT_CC_RELEASE_COMPL (enc_release env m)))"

definition gsm48_cc_tx_facility :: "cc_env \<Rightarrow> gsm_trans \<Rightarrow> gsm_mncc \<Rightarrow> cc_outcome" where
  "gsm48_cc_tx_facility env t m =
     cc_send env t GSM48_MT_CC_FACILITY (env_encode env IE_FACILITY True (mn_ie m IE_FACILITY))"

definition gsm48_cc_tx_hold_ack :: "cc_env \<Rightarrow> gsm_trans \<Rightarrow> gsm_mncc \<Rightarrow> cc_outcome" where
  "gsm48_cc_tx_hold_ack env t m = cc_send env t GSM48_MT_CC_HOLD_ACK []"

definition gsm48_cc_tx_hold_rej :: "cc_env \<Rightarrow> gsm_trans \<Rightarrow> gsm_mncc \<Rightarrow> cc_outcome" where
  "gsm48_cc_tx_hold_rej env t m = cc_send env t GSM48_MT_CC_HOLD_REJ (enc_cause_or_default env m)"

definition gsm48_cc_tx_retrieve_ack :: "cc_env \<Rightarrow> gsm_trans \<Rightarrow> gsm_mncc \<Rightarrow> cc_outcome" where
  "gsm48_cc_tx_retrieve_ack env t m = cc_send env t GSM48_MT_CC_RETR_ACK []"

definition gsm48_cc_tx_retrieve_rej :: "cc_env \<Rightarrow> gsm_trans \<Rightarrow> gsm_mncc \<Rightarrow> cc_outcome" where
  "gsm48_cc_tx_retrieve_rej env t m = cc_send env t GSM48_MT_CC_RETR_REJ (enc_cause_or_default env m)"

definition gsm48_cc_tx_start_dtmf_ack :: "cc_env \<Rightarrow> gsm_trans \<Rightarrow> gsm_mncc \<Rightarrow> cc_outcome" where
  "gsm48_cc_tx_start_dtmf_ack env t m =
     cc_send env t GSM48_MT_CC_START_DTMF_ACK (enc_if m MNCC_F_KEYPAD (env_encode_keypad env (mn_keypad m)))"

definition gsm48_cc_tx_start_dtmf_rej :: "cc_env \<Rightarrow> gsm_trans \<Rightarrow> gsm_mncc \<Rightarrow> cc_outcome" where
  "gsm48_cc_tx_start_dtmf_rej env t m = cc_send env t GSM48_MT_CC_START_DTMF_REJ (enc_cause_or_default env m)"

definition gsm48_cc_tx_stop_dtmf_ack :: "cc_env \<Rightarrow> gsm_trans \<Rightarrow> gsm_mncc \<Rightarrow> cc_outcome" where
  "gsm48_cc_tx_stop_dtmf_ack env t m = cc_send env t GSM48_MT_CC_STOP_DTMF_ACK []"

definition gsm48_cc_tx_modify :: "cc_env \<Rightarrow> gsm_trans \<Rightarrow> gsm_mncc \<Rightarrow> cc_outcome" where
  "gsm48_cc_tx_modify env t m =
     cc_send env (new_cc_state GSM_CSTATE_MO_TERM_MODIFY (gsm48_start_cc_timer 0x323 t)) GSM48_MT_CC_MODIFY
       (env_encode env IE_BEARER_CAP True (mn_ie m IE_BEARER_CAP))"

definition gsm48_cc_tx_modify_complete :: "cc_env \<Rightarrow> gsm_trans \<Rightarrow> gsm_mncc \<Rightarrow> cc_outcome" where
  "gsm48_cc_tx_modify_complete env t m =
     cc_send env (new_cc_state GSM_CSTATE_ACTIVE t) GSM48_MT_CC_MODIFY_COMPL
       (env_encode env IE_BEARER_CAP True (mn_ie m IE_BEARER_CAP))"

definition gsm48_cc_tx_modify_reject :: "cc_env \<Rightarrow> gsm_trans \<Rightarrow> gsm_mncc \<Rightarrow> cc_outcome" where
  "gsm48_cc_tx_modify_reject env t m =
     cc_send env (new_cc_state GSM_CSTATE_ACTIVE t) GSM48_MT_CC_MODIFY_REJECT
       (env_encode env IE_BEARER_CAP True (mn_ie m IE_BEARER_CAP) @ env_encode_cause env True (mn_cause m))"

definition gsm48_cc_tx_notify :: "cc_env \<Rightarrow> gsm_trans \<Rightarrow> gsm_mncc \<Rightarrow> cc_outcome" where
  "gsm48_cc_tx_notify env t m = cc_send env t GSM48_MT_CC_NOTIFY (env_encode_notify env (mn_notify m))"

definition gsm48_cc_tx_userinfo :: "cc_env \<Rightarrow> gsm_trans \<Rightarrow> gsm_mncc \<Rightarrow> cc_outcome" where
  "gsm48_cc_tx_userinfo env t m =
     cc_send env t GSM48_MT_CC_USER_INFO
       (enc_if m MNCC_F_USERUSER (env_encode env IE_USERUSER True (mn_ie m IE_USERUSER)) @
        (if mn_more m \<noteq> 0 then env_encode_more env else []))"

definition gsm48_lchan_modify :: "cc_env \<Rightarrow> gsm_trans \<Rightarrow> gsm_mncc \<Rightarrow> cc_outcome" where
  "gsm48_lchan_modify env t m =
     (case tr_conn t of
        None \<Rightarrow> None
      | Some conn \<Rightarrow> (let ev = Gsm0808_assign_req conn (mn_lchan_mode m) 1 in Some (Keep t, [ev], env_rc env ev)))"

section \<open>Timers\<close>

text \<open>The reaction to an expired timer other than T308: whether the mobile station gets a DISCONNECT, otherwise a
  RELEASE, with which cause and location, and the cause for the MNCC application.\<close>

definition timeout_action :: "int \<Rightarrow> gsm_mncc \<Rightarrow> bool \<times> int \<times> int \<times> int" where
  "timeout_action T m =
     (if T = 0x303 then (False, GSM48_CC_CAUSE_RECOVERY_TIMER, GSM48_CAUSE_LOC_USER, GSM48_CC_CAUSE_USER_NOTRESPOND)
      else if T = 0x310 then (True, GSM48_CC_CAUSE_RECOVERY_TIMER, GSM48_CAUSE_LOC_USER, GSM48_CC_CAUSE_USER_NOTRESPOND)
      else if T = 0x313 then (True, GSM48_CC_CAUSE_RECOVERY_TIMER, GSM48_CAUSE_LOC_USER, GSM48_CC_CAUSE_NORMAL_UNSPEC)
      else if T = 0x301 then (True, GSM48_CC_CAUSE_RECOVERY_TIMER, GSM48_CAUSE_LOC_USER, GSM48_CC_CAUSE_USER_NOTRESPOND)
      else if T = 0x306 then (False, mnc_value (mn_cause m), mnc_location (mn_cause m), GSM48_CC_CAUSE_NORMAL_UNSPEC)
      else if T = 0x323 then (True, GSM48_CC_CAUSE_RECOVERY_TIMER, GSM48_CAUSE_LOC_USER, GSM48_CC_CAUSE_NORMAL_UNSPEC)
      else (False, GSM48_CC_CAUSE_RECOVERY_TIMER, GSM48_CAUSE_LOC_USER, GSM48_CC_CAUSE_NORMAL_UNSPEC))"

definition timer_diag :: "int \<Rightarrow> u8 list" where
  "timer_diag T = [of_int (drop_bit 8 (T AND 0xf00)) + 0x30, of_int (drop_bit 4 (T AND 0x0f0)) + 0x30,
                   of_int (T AND 0x00f) + 0x30]"

definition cc_prepend :: "cc_event list \<Rightarrow> cc_outcome \<Rightarrow> cc_outcome" where
  "cc_prepend ev = map_option (\<lambda>(r, ev', rc). (r, ev @ ev', rc))"

definition gsm48_cc_timeout :: "cc_env \<Rightarrow> gsm_trans \<Rightarrow> cc_outcome" where
  "gsm48_cc_timeout env t0 =
     (let t = t0\<lparr>tr_cc := (tr_cc t0)\<lparr>cc_timer := False\<rparr>\<rparr>;
          T = cc_Tcurrent (tr_cc t)
      in if T = 0x308
         then (if \<not> cc_T308_second (tr_cc t)
               then (case gsm48_cc_tx_release env t (cc_msg (tr_cc t)) of
                       Some (Keep t', ev, _) \<Rightarrow> Some (Keep (t'\<lparr>tr_cc := (tr_cc t')\<lparr>cc_T308_second := True\<rparr>\<rparr>), ev, 0)
                     | r \<Rightarrow> r)
               else Some (Free t, [], 0))
         else
          (let (disconnect, mo_cause, mo_location, l4_cause) = timeout_action T (cc_msg (tr_cc t));
               mo_rel = mncc_set_cause mo_location mo_cause (trans_mncc t);
               mo_rel = mo_rel\<lparr>mn_cause := (mn_cause mo_rel)\<lparr>mnc_diag := timer_diag T\<rparr>\<rparr>;
               l4_rel = mncc_set_cause GSM48_CAUSE_LOC_PRN_S_LU l4_cause (trans_mncc t)
           in if disconnect
              then cc_prepend (if tr_callref t \<noteq> 0 then [mncc_recvmsg MNCC_DISC_IND l4_rel] else [])
                     (gsm48_cc_tx_disconnect env t mo_rel)
              else if tr_callref t \<noteq> 0
              then cc_prepend [mncc_release_ind (tr_callref t) GSM48_CAUSE_LOC_PRN_S_LU l4_cause]
                     (gsm48_cc_tx_release env (clear_callref t) mo_rel)
              else gsm48_cc_tx_release env t mo_rel))"

section \<open>Traffic channels\<close>

definition has_lchan :: "cc_env \<Rightarrow> nat \<Rightarrow> bool" where
  "has_lchan env conn \<longleftrightarrow> env_lchan_type env conn \<noteq> None"

definition is_e1_bts :: "gsm_bts_type \<Rightarrow> bool" where
  "is_e1_bts ty \<longleftrightarrow> ty \<in> {GSM_BTS_TYPE_BS11, GSM_BTS_TYPE_RBS2000, GSM_BTS_TYPE_NOKIA_SITE}"

definition tch_map :: "cc_env \<Rightarrow> nat \<Rightarrow> nat \<Rightarrow> (cc_event list \<times> int) option" where
  "tch_map env conn remote =
     (if \<not> has_lchan env conn \<or> \<not> has_lchan env remote then None
      else if env_bts_type env conn \<noteq> env_bts_type env remote then Some ([], - EINVAL)
      else if env_bts_type env conn = GSM_BTS_TYPE_NANOBTS
      then (let e1 = (if env_ipacc_rtp_direct env then Rsl_ipacc_mdcx conn remote else Rtp_mdcx_to_rtpsock conn);
                e2 = (if env_ipacc_rtp_direct env then Rsl_ipacc_mdcx remote conn else Rtp_mdcx_to_rtpsock remote)
            in if env_rc env e1 < 0 then Some ([e1], env_rc env e1)
               else if env_ipacc_rtp_direct env then Some ([e1, e2], 0)
               else if env_rc env e2 < 0 then Some ([e1, e2], env_rc env e2)
               else Some ([e1, e2, Rtp_socket_proxy conn remote], 0))
      else if is_e1_bts (env_bts_type env conn) then Some ([Trau_mux_map_lchan conn remote], 0)
      else Some ([], - EINVAL))"

definition tch_bridge :: "cc_env \<Rightarrow> u32 \<Rightarrow> u32 \<Rightarrow> gsm_trans list \<Rightarrow> (cc_event list \<times> int) option" where
  "tch_bridge env ref0 ref1 ts =
     (case (trans_find_by_callref ref0 ts, trans_find_by_callref ref1 ts) of
        (Some i, Some j) \<Rightarrow>
          (case (tr_conn (ts ! i), tr_conn (ts ! j)) of
             (Some c, Some d) \<Rightarrow> tch_map env c d
           | _ \<Rightarrow> Some ([], - EIO))
      | _ \<Rightarrow> Some ([], - EIO))"

definition tch_recv_mncc ::
  "cc_env \<Rightarrow> u32 \<Rightarrow> bool \<Rightarrow> gsm_trans list \<Rightarrow> (gsm_trans list \<times> cc_event list \<times> int) option" where
  "tch_recv_mncc env callref enable ts =
     (case trans_find_by_callref callref ts of
        None \<Rightarrow> Some (ts, [], - EIO)
      | Some i \<Rightarrow>
          (case tr_conn (ts ! i) of
             None \<Rightarrow> Some (ts, [], 0)
           | Some conn \<Rightarrow>
               (if \<not> has_lchan env conn then None
                else if env_bts_type env conn = GSM_BTS_TYPE_NANOBTS
                then (if env_ipacc_rtp_direct env then Some (ts, [], - EINVAL)
                      else if \<not> env_rtp_socket env conn then Some (ts[i := (ts ! i)\<lparr>tr_tch_recv := enable\<rparr>], [], 0)
                      else if enable
                      then (let e = Rtp_mdcx_to_rtpsock conn
                            in if env_rc env e < 0 then Some (ts, [e], env_rc env e)
                               else Some (ts, [e, Rtp_socket_upstream conn callref], 0))
                      else Some (ts, [Rtp_socket_upstream conn 0], 0))
                else if is_e1_bts (env_bts_type env conn)
                then (let e = (if enable then Trau_recv_lchan conn callref else Trau_mux_unmap None callref)
                      in Some (ts, [e], env_rc env e))
                else Some (ts, [], - EINVAL))))"

text \<open>A traffic frame of the MNCC application.\<close>

definition mncc_tch_frame :: "cc_env \<Rightarrow> u32 \<Rightarrow> gsm_trans list \<Rightarrow> (cc_event list \<times> int) option" where
  "mncc_tch_frame env callref ts =
     (case trans_find_by_callref callref ts of
        None \<Rightarrow> Some ([], - EIO)
      | Some i \<Rightarrow>
          (case tr_conn (ts ! i) of
             None \<Rightarrow> Some ([], 0)
           | Some conn \<Rightarrow>
               (case env_lchan_type env conn of
                  None \<Rightarrow> None
                | Some ty \<Rightarrow>
                    (if ty \<noteq> GSM_LCHAN_TCH_F then Some ([], 0)
                     else if env_bts_type env conn = GSM_BTS_TYPE_NANOBTS
                     then (if \<not> env_rtp_socket env conn then Some ([], 0)
                           else (let e = Rtp_send_frame conn in Some ([e], env_rc env e)))
                     else if is_e1_bts (env_bts_type env conn)
                     then (let e = Trau_send_frame conn in Some ([e], env_rc env e))
                     else Some ([], - EINVAL)))))"

section \<open>Dispatch\<close>

record cc_net =
  cn_trans :: "gsm_trans list"
  cn_new_callref :: u32
  cn_next_token :: nat

definition downstatelist ::
  "(cc_cstate set \<times> u32 \<times> (cc_env \<Rightarrow> gsm_trans list \<Rightarrow> gsm_trans \<Rightarrow> gsm_mncc \<Rightarrow> cc_outcome)) list" where
  "downstatelist =
   [({GSM_CSTATE_INITIATED}, MNCC_CALL_PROC_REQ, \<lambda>env ts. gsm48_cc_tx_call_proc env),
    ({GSM_CSTATE_INITIATED, GSM_CSTATE_MO_CALL_PROC}, MNCC_ALERT_REQ, \<lambda>env ts. gsm48_cc_tx_alerting env),
    ({GSM_CSTATE_INITIATED, GSM_CSTATE_MO_CALL_PROC, GSM_CSTATE_CALL_DELIVERED}, MNCC_SETUP_RSP,
     \<lambda>env ts. gsm48_cc_tx_connect env),
    ({GSM_CSTATE_MO_CALL_PROC}, MNCC_PROGRESS_REQ, \<lambda>env ts. gsm48_cc_tx_progress env),
    ({GSM_CSTATE_NULL}, MNCC_SETUP_REQ, gsm48_cc_tx_setup),
    ({GSM_CSTATE_CONNECT_REQUEST}, MNCC_SETUP_COMPL_REQ, \<lambda>env ts. gsm48_cc_tx_connect_ack env),
    ({GSM_CSTATE_ACTIVE}, MNCC_NOTIFY_REQ, \<lambda>env ts. gsm48_cc_tx_notify env),
    (- {GSM_CSTATE_NULL, GSM_CSTATE_RELEASE_REQ}, MNCC_FACILITY_REQ, \<lambda>env ts. gsm48_cc_tx_facility env),
    (UNIV, MNCC_START_DTMF_RSP, \<lambda>env ts. gsm48_cc_tx_start_dtmf_ack env),
    (UNIV, MNCC_START_DTMF_REJ, \<lambda>env ts. gsm48_cc_tx_start_dtmf_rej env),
    (UNIV, MNCC_STOP_DTMF_RSP, \<lambda>env ts. gsm48_cc_tx_stop_dtmf_ack env),
    ({GSM_CSTATE_ACTIVE}, MNCC_HOLD_CNF, \<lambda>env ts. gsm48_cc_tx_hold_ack env),
    ({GSM_CSTATE_ACTIVE}, MNCC_HOLD_REJ, \<lambda>env ts. gsm48_cc_tx_hold_rej env),
    ({GSM_CSTATE_ACTIVE}, MNCC_RETRIEVE_CNF, \<lambda>env ts. gsm48_cc_tx_retrieve_ack env),
    ({GSM_CSTATE_ACTIVE}, MNCC_RETRIEVE_REJ, \<lambda>env ts. gsm48_cc_tx_retrieve_rej env),
    ({GSM_CSTATE_ACTIVE}, MNCC_MODIFY_REQ, \<lambda>env ts. gsm48_cc_tx_modify env),
    ({GSM_CSTATE_MO_ORIG_MODIFY}, MNCC_MODIFY_RSP, \<lambda>env ts. gsm48_cc_tx_modify_complete env),
    ({GSM_CSTATE_MO_ORIG_MODIFY}, MNCC_MODIFY_REJ, \<lambda>env ts. gsm48_cc_tx_modify_reject env),
    ({GSM_CSTATE_ACTIVE}, MNCC_USERINFO_REQ, \<lambda>env ts. gsm48_cc_tx_userinfo env),
    ({GSM_CSTATE_INITIATED}, MNCC_REJ_REQ, \<lambda>env ts. gsm48_cc_tx_release_compl env),
    (- {GSM_CSTATE_NULL, GSM_CSTATE_DISCONNECT_IND, GSM_CSTATE_RELEASE_REQ, GSM_CSTATE_DISCONNECT_REQ}, MNCC_DISC_REQ,
     \<lambda>env ts. gsm48_cc_tx_disconnect env),
    (- {GSM_CSTATE_NULL, GSM_CSTATE_RELEASE_REQ}, MNCC_REL_REQ, \<lambda>env ts. gsm48_cc_tx_release env),
    (UNIV, MNCC_LCHAN_MODIFY, \<lambda>env ts. gsm48_lchan_modify env)]"

definition datastatelist ::
  "(cc_cstate set \<times> u8 \<times> (cc_env \<Rightarrow> gsm_trans \<Rightarrow> u8 \<Rightarrow> u8 list \<Rightarrow> cc_outcome)) list" where
  "datastatelist =
   [({GSM_CSTATE_NULL}, GSM48_MT_CC_SETUP, gsm48_cc_rx_setup),
    ({GSM_CSTATE_NULL}, GSM48_MT_CC_EMERG_SETUP, gsm48_cc_rx_setup),
    ({GSM_CSTATE_CONNECT_IND}, GSM48_MT_CC_CONNECT_ACK, gsm48_cc_rx_connect_ack),
    ({GSM_CSTATE_CALL_PRESENT}, GSM48_MT_CC_CALL_CONF, gsm48_cc_rx_call_conf),
    ({GSM_CSTATE_CALL_PRESENT, GSM_CSTATE_MO_TERM_CALL_CONF}, GSM48_MT_CC_ALERTING, gsm48_cc_rx_alerting),
    ({GSM_CSTATE_CALL_PRESENT, GSM_CSTATE_MO_TERM_CALL_CONF, GSM_CSTATE_CALL_RECEIVED}, GSM48_MT_CC_CONNECT,
     gsm48_cc_rx_connect),
    (- {GSM_CSTATE_NULL}, GSM48_MT_CC_FACILITY, gsm48_cc_rx_facility),
    ({GSM_CSTATE_ACTIVE}, GSM48_MT_CC_NOTIFY, gsm48_cc_rx_notify),
    (UNIV, GSM48_MT_CC_START_DTMF, gsm48_cc_rx_start_dtmf),
    (UNIV, GSM48_MT_CC_STOP_DTMF, gsm48_cc_rx_stop_dtmf),
    (UNIV, GSM48_MT_CC_STATUS_ENQ, gsm48_cc_rx_status_enq),
    ({GSM_CSTATE_ACTIVE}, GSM48_MT_CC_HOLD, gsm48_cc_rx_hold),
    ({GSM_CSTATE_ACTIVE}, GSM48_MT_CC_RETR, gsm48_cc_rx_retrieve),
    ({GSM_CSTATE_ACTIVE}, GSM48_MT_CC_MODIFY, gsm48_cc_rx_modify),
    ({GSM_CSTATE_MO_TERM_MODIFY}, GSM48_MT_CC_MODIFY_COMPL, gsm48_cc_rx_modify_complete),
    ({GSM_CSTATE_MO_TERM_MODIFY}, GSM48_MT_CC_MODIFY_REJECT, gsm48_cc_rx_modify_reject),
    ({GSM_CSTATE_ACTIVE}, GSM48_MT_CC_USER_INFO, gsm48_cc_rx_userinfo),
    (- {GSM_CSTATE_NULL, GSM_CSTATE_RELEASE_REQ}, GSM48_MT_CC_DISCONNECT, gsm48_cc_rx_disconnect),
    (- {GSM_CSTATE_NULL}, GSM48_MT_CC_RELEASE, gsm48_cc_rx_release),
    (UNIV, GSM48_MT_CC_RELEASE_COMPL, gsm48_cc_rx_release_compl)]"

text \<open>The routine for a request in the state of a transaction; a request nobody handles does nothing.\<close>

definition downstate :: "cc_env \<Rightarrow> gsm_trans list \<Rightarrow> gsm_trans \<Rightarrow> u32 \<Rightarrow> gsm_mncc \<Rightarrow> cc_outcome" where
  "downstate env ts t msg_type m =
     (case find (\<lambda>(states, ty, _). msg_type = ty \<and> cc_state (tr_cc t) \<in> states) downstatelist of
        None \<Rightarrow> Some (Keep t, [], 0)
      | Some (_, _, rout) \<Rightarrow> rout env ts t m)"

definition datastate :: "cc_env \<Rightarrow> gsm_trans \<Rightarrow> u8 \<Rightarrow> u8 list \<Rightarrow> cc_outcome" where
  "datastate env t msg_type data =
     (case find (\<lambda>(states, ty, _). msg_type = ty \<and> cc_state (tr_cc t) \<in> states) datastatelist of
        None \<Rightarrow> Some (Keep t, [], 0)
      | Some (_, _, rout) \<Rightarrow> rout env t msg_type data)"

text \<open>Running a routine on the transaction at a position of the list.\<close>

definition cc_run :: "cc_env \<Rightarrow> nat \<Rightarrow> (gsm_trans \<Rightarrow> cc_outcome) \<Rightarrow> cc_net \<Rightarrow> (cc_net \<times> cc_event list \<times> int) option" where
  "cc_run env i rout net =
     (case rout (cn_trans net ! i) of
        None \<Rightarrow> None
      | Some r \<Rightarrow> map_option (\<lambda>(ts, ev, rc). (net\<lparr>cn_trans := ts\<rparr>, ev, rc)) (cc_apply env i (cn_trans net) r))"

text \<open>A request for a transaction that exists: refused while the subscriber is being paged.\<close>

definition request_in_paging :: "gsm_trans \<Rightarrow> u32 \<Rightarrow> gsm_mncc \<Rightarrow> cc_outcome" where
  "request_in_paging t msg_type m =
     (let rel = mncc_set_cause GSM48_CAUSE_LOC_PRN_S_LU GSM48_CC_CAUSE_NORM_CALL_CLEAR
                  (zero_mncc\<lparr>mn_callref := mn_callref m\<rparr>)
      in Some (Free (clear_callref t),
           [mncc_recvmsg (if msg_type = MNCC_REL_REQ then MNCC_REL_CNF else MNCC_REL_IND) rel], 0))"

definition cc_request :: "cc_env \<Rightarrow> nat \<Rightarrow> u32 \<Rightarrow> gsm_mncc \<Rightarrow> cc_net \<Rightarrow> (cc_net \<times> cc_event list \<times> int) option" where
  "cc_request env i msg_type m net =
     cc_run env i (\<lambda>t. case tr_conn t of
                         None \<Rightarrow> request_in_paging t msg_type m
                       | Some conn \<Rightarrow>
                           (if tr_protocol t \<noteq> GSM48_PDISC_CC then None
                            else downstate env (cn_trans net) t msg_type m)) net"

text \<open>A request with an unknown call reference: only a SETUP is accepted, for a subscriber that is attached. Without
  a connection the subscriber is paged, unless it has another transaction.\<close>

definition cc_new_call :: "cc_env \<Rightarrow> u32 \<Rightarrow> gsm_mncc \<Rightarrow> cc_net \<Rightarrow> (cc_net \<times> cc_event list \<times> int) option" where
  "cc_new_call env msg_type m net =
     (let refuse = (\<lambda>val. mncc_release_ind (mn_callref m) GSM48_CAUSE_LOC_PRN_S_LU val)
      in if msg_type \<noteq> MNCC_SETUP_REQ then Some (net, [refuse GSM48_CC_CAUSE_INVAL_TRANS_ID], 0)
         else if mnn_number (mn_called m) = [] \<and> mn_imsi m = [] then Some (net, [refuse GSM48_CC_CAUSE_INV_NR_FORMAT], 0)
         else case (if mnn_number (mn_called m) \<noteq> [] then env_by_extension env (mnn_number (mn_called m))
                    else env_by_imsi env (mn_imsi m)) of
                None \<Rightarrow> Some (net, [refuse GSM48_CC_CAUSE_UNASSIGNED_NR], 0)
              | Some subscr \<Rightarrow>
                  (if env_lac env subscr = 0
                   then Some (net, [Trans_event (Subscr_put subscr), refuse GSM48_CC_CAUSE_DEST_OOO], 0)
                   else
                    (let n = length (cn_trans net);
                         net1 = net\<lparr>cn_trans := trans_alloc subscr GSM48_PDISC_CC 0xff (mn_callref m) (cn_trans net)\<rparr>;
                         t = cn_trans net1 ! n;
                         put = Trans_event (Subscr_put subscr)
                     in case env_connection_for_subscr env subscr of
                          None \<Rightarrow>
                            (if \<exists>tt \<in> set (cn_trans net). tr_subscr tt = subscr
                             then map_option (\<lambda>(ts, ev). (net1\<lparr>cn_trans := ts\<rparr>, put # ev, 0))
                                    (cc_trans_free env n (cn_trans net1))
                             else Some (net1\<lparr>cn_trans := (cn_trans net1)[n :=
                                           t\<lparr>tr_cc := (tr_cc t)\<lparr>cc_msg := m\<rparr>, tr_paging_request := Some (cn_next_token net)\<rparr>],
                                         cn_next_token := Suc (cn_next_token net)\<rparr>,
                                        [Subscr_get_channel subscr (cn_next_token net), put], 0))
                        | Some conn \<Rightarrow>
                            map_option (\<lambda>(net2, ev, rc). (net2, put # ev, rc))
                              (cc_request env n msg_type m
                                 (net1\<lparr>cn_trans := (cn_trans net1)[n := t\<lparr>tr_conn := Some conn\<rparr>]\<rparr>)))))"

definition mncc_tx_to_cc :: "cc_env \<Rightarrow> u32 \<Rightarrow> gsm_mncc \<Rightarrow> cc_net \<Rightarrow> (cc_net \<times> cc_event list \<times> int) option" where
  "mncc_tx_to_cc env msg_type m net =
     (if msg_type = MNCC_BRIDGE
      then map_option (\<lambda>(ev, rc). (net, ev, rc)) (tch_bridge env (mn_msg_type m) (mn_callref m) (cn_trans net))
      else if msg_type = MNCC_FRAME_DROP \<or> msg_type = MNCC_FRAME_RECV
      then map_option (\<lambda>(ts, ev, rc). (net\<lparr>cn_trans := ts\<rparr>, ev, rc))
             (tch_recv_mncc env (mn_callref m) (msg_type = MNCC_FRAME_RECV) (cn_trans net))
      else if msg_type = GSM_TCHF_FRAME
      then map_option (\<lambda>(ev, rc). (net, ev, rc)) (mncc_tch_frame env (mn_callref m) (cn_trans net))
      else case trans_find_by_callref (mn_callref m) (cn_trans net) of
             None \<Rightarrow> cc_new_call env msg_type m net
           | Some i \<Rightarrow> cc_request env i msg_type m net)"

definition gsm0408_rcv_cc ::
  "cc_env \<Rightarrow> nat \<Rightarrow> nat \<Rightarrow> u8 \<Rightarrow> u8 \<Rightarrow> u8 list \<Rightarrow> cc_net \<Rightarrow> (cc_net \<times> cc_event list \<times> int) option" where
  "gsm0408_rcv_cc env conn subscr proto_discr hdr_msg_type data net =
     (let msg_type = hdr_msg_type AND 0xbf;
          transaction_id = drop_bit 4 ((proto_discr AND 0xf0) XOR 0x80)
      in if msg_type AND 0x80 \<noteq> 0 then Some (net, [], - EINVAL)
         else case trans_find_by_id subscr GSM48_PDISC_CC transaction_id (cn_trans net) of
                Some i \<Rightarrow> cc_run env i (\<lambda>t. datastate env t msg_type data) net
              | None \<Rightarrow>
                  (let n = length (cn_trans net);
                       ts = trans_alloc subscr GSM48_PDISC_CC transaction_id (cn_new_callref net) (cn_trans net)
                   in cc_run env n (\<lambda>t. datastate env t msg_type data)
                        (net\<lparr>cn_trans := ts[n := (ts ! n)\<lparr>tr_conn := Some conn\<rparr>],
                             cn_new_callref := cn_new_callref net + 1\<rparr>)))"

section \<open>Paging and release of connections\<close>

text \<open>What the answer to a page does to one of the transactions that wait for it.\<close>

definition paging_evt_trans :: "cc_env \<Rightarrow> gsm_paging_event \<Rightarrow> nat option \<Rightarrow> gsm_trans list \<Rightarrow> gsm_trans \<Rightarrow> cc_outcome" where
  "paging_evt_trans env event conn ts t =
     (case event of
        GSM_PAGING_SUCCEEDED \<Rightarrow>
          (case conn of
             None \<Rightarrow> Some (Keep t, [], 0)
           | Some c \<Rightarrow>
               cc_prepend [Set_put_channel c]
                 (gsm48_cc_tx_setup env ts (t\<lparr>tr_paging_request := None, tr_conn := Some c\<rparr>) (cc_msg (tr_cc t))))
      | GSM_PAGING_OOM \<Rightarrow> Some (Keep t, [], 0)
      | _ \<Rightarrow> Some (Free (t\<lparr>tr_callref := 0, tr_paging_request := None\<rparr>),
                  [mncc_release_ind (tr_callref t) GSM48_CAUSE_LOC_PRN_S_LU GSM48_CC_CAUSE_DEST_OOO], 0))"

definition paging_evt_found :: "gsm_paging_event \<Rightarrow> nat option \<Rightarrow> bool" where
  "paging_evt_found event conn \<longleftrightarrow>
     (case event of GSM_PAGING_SUCCEEDED \<Rightarrow> conn \<noteq> None | GSM_PAGING_OOM \<Rightarrow> False | _ \<Rightarrow> True)"

lemma length_cc_apply:
  "cc_apply env i ts r = Some (ts', ev, rc) \<Longrightarrow> i < length ts \<Longrightarrow>
    length ts' = (case fst r of Keep _ \<Rightarrow> length ts | Free _ \<Rightarrow> length ts - 1)"
  by (cases "(env, i, ts, r)" rule: cc_apply.cases)
     (auto simp: cc_trans_free_def trans_free_def Let_def)

text \<open>The loop over the transactions; the successor is read before the body, so freeing the current one is safe.\<close>

function setup_trig_loop ::
  "cc_env \<Rightarrow> gsm_paging_event \<Rightarrow> nat option \<Rightarrow> nat \<Rightarrow> nat \<Rightarrow> bool \<Rightarrow> gsm_trans list \<Rightarrow>
    (gsm_trans list \<times> cc_event list \<times> bool) option" where
  "setup_trig_loop env event conn token i fnd ts =
     (if i \<ge> length ts then Some (ts, [], fnd)
      else if tr_paging_request (ts ! i) \<noteq> Some token \<or> tr_conn (ts ! i) \<noteq> None
      then setup_trig_loop env event conn token (Suc i) fnd ts
      else case paging_evt_trans env event conn ts (ts ! i) of
             None \<Rightarrow> None
           | Some r \<Rightarrow>
               (case cc_apply env i ts r of
                  None \<Rightarrow> None
                | Some (ts', ev, _) \<Rightarrow>
                    map_option (\<lambda>(ts'', ev', fnd'). (ts'', ev @ ev', fnd'))
                      (setup_trig_loop env event conn token (case fst r of Keep _ \<Rightarrow> Suc i | Free _ \<Rightarrow> i)
                         (fnd \<or> paging_evt_found event conn) ts')))"
  by pat_completeness auto

termination
  by (relation "measure (\<lambda>(env, event, conn, token, i, fnd, ts). length ts - i)")
     (auto dest: length_cc_apply split: cc_result.splits)

declare setup_trig_loop.simps [simp del]

definition setup_trig_pag_evt ::
  "cc_env \<Rightarrow> gsm_paging_event \<Rightarrow> nat option \<Rightarrow> nat \<Rightarrow> cc_net \<Rightarrow> (cc_net \<times> cc_event list \<times> int) option" where
  "setup_trig_pag_evt env event conn token net =
     map_option (\<lambda>(ts, ev, fnd).
         (net\<lparr>cn_trans := ts\<rparr>,
          ev @ (case conn of None \<Rightarrow> [] | Some c \<Rightarrow> if fnd then [] else [Set_put_channel c]), 0))
       (setup_trig_loop env event conn token 0 False (cn_trans net))"

text \<open>Freeing every transaction that satisfies a test, after an update of it.\<close>

fun free_matching ::
  "cc_env \<Rightarrow> (gsm_trans \<Rightarrow> bool) \<Rightarrow> (gsm_trans \<Rightarrow> gsm_trans) \<Rightarrow> gsm_trans list \<Rightarrow>
    (gsm_trans list \<times> cc_event list) option" where
  "free_matching env P f [] = Some ([], [])"
| "free_matching env P f (t # ts) =
     (case free_matching env P f ts of
        None \<Rightarrow> None
      | Some (ts', ev') \<Rightarrow>
          (if P t
           then (case cc_trans_free env 0 [f t] of None \<Rightarrow> None | Some (_, ev) \<Rightarrow> Some (ts', ev @ ev'))
           else Some (t # ts', ev')))"

definition clear_request_trans :: "cc_env \<Rightarrow> nat \<Rightarrow> cc_net \<Rightarrow> (cc_net \<times> cc_event list \<times> int) option" where
  "clear_request_trans env conn net =
     map_option (\<lambda>(ts, ev). (net\<lparr>cn_trans := ts\<rparr>, ev, 0))
       (free_matching env (\<lambda>t. tr_conn t = Some conn) id (cn_trans net))"

definition gsm0408_clear_all_trans :: "cc_env \<Rightarrow> u8 \<Rightarrow> cc_net \<Rightarrow> (cc_net \<times> cc_event list \<times> int) option" where
  "gsm0408_clear_all_trans env protocol net =
     map_option (\<lambda>(ts, ev). (net\<lparr>cn_trans := ts\<rparr>, ev, 0))
       (free_matching env (\<lambda>t. tr_protocol t = protocol) clear_callref (cn_trans net))"

end
