(* ===== verification/Call_Control_Inv.thy ===== *)
theory Call_Control_Inv
  imports Call_Control "HOL-Library.Multiset"
begin

unbundle bit_operations_syntax

text \<open>
  Properties of the call control: the invariant of its transactions under every input, that no input makes it
  use a null pointer, that a call whose timer runs is cleared by the expiry of timers alone, and that the
  MNCC application is told of the end of each call exactly once.
\<close>

section \<open>The invariant of a call\<close>

text \<open>The timer that runs in a state.\<close>

fun state_timer :: "cc_cstate \<Rightarrow> int option" where
  "state_timer GSM_CSTATE_CALL_PRESENT = Some 0x303"
| "state_timer GSM_CSTATE_MO_TERM_CALL_CONF = Some 0x310"
| "state_timer GSM_CSTATE_CALL_RECEIVED = Some 0x301"
| "state_timer GSM_CSTATE_CONNECT_IND = Some 0x313"
| "state_timer GSM_CSTATE_DISCONNECT_IND = Some 0x306"
| "state_timer GSM_CSTATE_RELEASE_REQ = Some 0x308"
| "state_timer GSM_CSTATE_MO_TERM_MODIFY = Some 0x323"
| "state_timer _ = None"

definition timer_ok :: "trans_cc \<Rightarrow> bool" where
  "timer_ok cc \<longleftrightarrow> state_timer (cc_state cc) = (if cc_timer cc then Some (cc_Tcurrent cc) else None)"

definition cc_wf :: "gsm_trans \<Rightarrow> bool" where
  "cc_wf t \<longleftrightarrow>
     timer_ok (tr_cc t) \<and>
     (tr_conn t = None \<longleftrightarrow> tr_transaction_id t = 0xff) \<and>
     (tr_conn t = None \<longleftrightarrow> tr_paging_request t \<noteq> None) \<and>
     (tr_transaction_id t = 0xff \<longrightarrow> cc_state (tr_cc t) = GSM_CSTATE_NULL) \<and>
     (cc_state (tr_cc t) = GSM_CSTATE_RELEASE_REQ \<longrightarrow> tr_callref t = 0)"

text \<open>The call references the MNCC application knows, and those it is told the end of.\<close>

definition refs :: "gsm_trans \<Rightarrow> u32 list" where
  "refs t = (if tr_protocol t = GSM48_PDISC_CC \<and> tr_callref t \<noteq> 0 then [tr_callref t] else [])"

definition live_refs :: "gsm_trans list \<Rightarrow> u32 list" where
  "live_refs ts = concat (map refs ts)"

fun released1 :: "cc_event \<Rightarrow> u32 list" where
  "released1 (Cc_tx_to_mncc m) =
     (if mn_msg_type m \<in> {MNCC_REL_IND, MNCC_REL_CNF, MNCC_REJ_IND} \<and> mn_callref m \<noteq> 0 then [mn_callref m] else [])"
| "released1 _ = []"

definition released :: "cc_event list \<Rightarrow> u32 list" where
  "released ev = concat (map released1 ev)"

fun res_trans :: "cc_result \<Rightarrow> gsm_trans" where
  "res_trans (Keep t) = t"
| "res_trans (Free t) = t"

definition same_owner :: "gsm_trans \<Rightarrow> gsm_trans \<Rightarrow> bool" where
  "same_owner t t' \<longleftrightarrow> tr_protocol t' = tr_protocol t \<and> tr_subscr t' = tr_subscr t \<and>
     tr_transaction_id t' = tr_transaction_id t \<and> tr_conn t' = tr_conn t"

definition cc_good :: "gsm_trans \<Rightarrow> cc_outcome \<Rightarrow> bool" where
  "cc_good t out \<longleftrightarrow>
     (case out of
        None \<Rightarrow> False
      | Some (r, ev, rc) \<Rightarrow> same_owner t (res_trans r) \<and> (case r of Keep t' \<Rightarrow> cc_wf t' | Free t' \<Rightarrow> True))"

definition cc_balanced :: "gsm_trans \<Rightarrow> cc_outcome \<Rightarrow> bool" where
  "cc_balanced t out \<longleftrightarrow>
     (case out of None \<Rightarrow> True | Some (r, ev, rc) \<Rightarrow> refs t = refs (res_trans r) @ released ev)"

lemmas block_defs = new_cc_state_def gsm48_stop_cc_timer_def gsm48_start_cc_timer_def clear_callref_def

lemmas rx_defs = gsm48_cc_tx_status_def gsm48_cc_rx_status_enq_def gsm48_cc_rx_setup_def gsm48_cc_rx_call_conf_def
  gsm48_cc_rx_alerting_def gsm48_cc_rx_connect_def gsm48_cc_rx_connect_ack_def gsm48_cc_rx_disconnect_def
  gsm48_cc_rx_release_def gsm48_cc_rx_release_compl_def gsm48_cc_rx_facility_def gsm48_cc_rx_hold_def
  gsm48_cc_rx_retrieve_def gsm48_cc_rx_start_dtmf_def gsm48_cc_rx_stop_dtmf_def gsm48_cc_rx_modify_def
  gsm48_cc_rx_modify_complete_def gsm48_cc_rx_modify_reject_def gsm48_cc_rx_notify_def gsm48_cc_rx_userinfo_def

lemmas tx_defs = gsm48_cc_tx_call_proc_def gsm48_cc_tx_alerting_def gsm48_cc_tx_progress_def
  gsm48_cc_tx_connect_def gsm48_cc_tx_connect_ack_def gsm48_cc_tx_disconnect_def gsm48_cc_tx_release_def
  gsm48_cc_tx_release_compl_def gsm48_cc_tx_facility_def gsm48_cc_tx_hold_ack_def gsm48_cc_tx_hold_rej_def
  gsm48_cc_tx_retrieve_ack_def gsm48_cc_tx_retrieve_rej_def gsm48_cc_tx_start_dtmf_ack_def
  gsm48_cc_tx_start_dtmf_rej_def gsm48_cc_tx_stop_dtmf_ack_def gsm48_cc_tx_modify_def
  gsm48_cc_tx_modify_complete_def gsm48_cc_tx_modify_reject_def gsm48_cc_tx_notify_def gsm48_cc_tx_userinfo_def
  gsm48_lchan_modify_def

section \<open>Handlers\<close>

lemma mn_callref_dec [simp]:
  "mn_callref (dec_ie env tp tag flag ie m) = mn_callref m"
  "mn_callref (dec_cause env tp m) = mn_callref m"
  "mn_callref (dec_release env data m) = mn_callref m"
  "mn_callref (set_lchan_type env t m) = mn_callref m"
  "mn_callref (trans_mncc t) = tr_callref t"
  by (simp_all add: dec_ie_def dec_cause_def dec_release_def set_lchan_type_def trans_mncc_def Let_def split: option.splits)

lemma released_simps [simp]:
  "released [] = []"
  "released (Submit_dtap c d # ev) = released ev"
  "released (Gsm0808_assign_req c b r # ev) = released ev"
  "released (Set_put_channel c # ev) = released ev"
  "released (Trau_mux_unmap c' r' # ev) = released ev"
  "released (Subscr_get_channel c n # ev) = released ev"
  "released (Trans_event e # ev) = released ev"
  "released (ev @ ev') = released ev @ released ev'"
  by (simp_all add: released_def)

lemma released_recvmsg [simp]:
  "released (mncc_recvmsg ty m # ev) =
     (if ty \<in> {MNCC_REL_IND, MNCC_REL_CNF, MNCC_REJ_IND} \<and> mn_callref m \<noteq> 0 then [mn_callref m] else []) @ released ev"
  by (simp add: released_def mncc_recvmsg_def)

lemma released_release_ind [simp]:
  "released (mncc_release_ind callref loc val # ev) = (if callref \<noteq> 0 then [callref] else []) @ released ev"
  by (simp add: mncc_release_ind_def)

lemma cc_send_conn: "tr_conn t = Some c \<Longrightarrow> \<exists>d rc. cc_send env t mt ies = Some (Keep t, [Submit_dtap c d], rc)"
  by (simp add: cc_send_def gsm48_conn_sendmsg_def Let_def)

lemma cc_good_send [simp]:
  "cc_good t (cc_send env t' mt ies) \<longleftrightarrow> tr_conn t' \<noteq> None \<and> same_owner t t' \<and> cc_wf t'"
  by (cases "tr_conn t'") (auto simp: cc_good_def cc_send_def gsm48_conn_sendmsg_def Let_def)

lemma cc_good_report [simp]: "cc_good t (cc_report t' ty m) \<longleftrightarrow> same_owner t t' \<and> cc_wf t'"
  by (simp add: cc_good_def cc_report_def)

lemma cc_balanced_send [simp]: "cc_balanced t (cc_send env t' mt ies) \<longleftrightarrow> tr_conn t' = None \<or> refs t = refs t'"
  by (cases "tr_conn t'") (auto simp: cc_balanced_def cc_send_def gsm48_conn_sendmsg_def Let_def)

lemma cc_balanced_report [simp]:
  "ty \<notin> {MNCC_REL_IND, MNCC_REL_CNF, MNCC_REJ_IND} \<Longrightarrow> cc_balanced t (cc_report t' ty m) \<longleftrightarrow> refs t = refs t'"
  by (simp add: cc_balanced_def cc_report_def)

text \<open>The building blocks keep the owner and, but for one, the call reference.\<close>

lemma same_owner_blocks [simp]:
  "same_owner t (new_cc_state s t') = same_owner t t'"
  "same_owner t (gsm48_stop_cc_timer t') = same_owner t t'"
  "same_owner t (gsm48_start_cc_timer T t') = same_owner t t'"
  "same_owner t (clear_callref t') = same_owner t t'"
  "same_owner t (t'\<lparr>tr_cc := cc\<rparr>) = same_owner t t'"
  "same_owner t t"
  by (simp_all add: same_owner_def block_defs)

lemma conn_blocks [simp]:
  "tr_conn (new_cc_state s t) = tr_conn t"
  "tr_conn (gsm48_stop_cc_timer t) = tr_conn t"
  "tr_conn (gsm48_start_cc_timer T t) = tr_conn t"
  "tr_conn (clear_callref t) = tr_conn t"
  by (simp_all add: block_defs)

lemma callref_blocks [simp]:
  "tr_callref (new_cc_state s t) = tr_callref t"
  "tr_callref (gsm48_stop_cc_timer t) = tr_callref t"
  "tr_callref (gsm48_start_cc_timer T t) = tr_callref t"
  "tr_callref (clear_callref t) = 0"
  by (simp_all add: block_defs)

lemma refs_blocks [simp]:
  "refs (new_cc_state s t) = refs t"
  "refs (gsm48_stop_cc_timer t) = refs t"
  "refs (gsm48_start_cc_timer T t) = refs t"
  "refs (t\<lparr>tr_cc := cc\<rparr>) = refs t"
  "refs (clear_callref t) = []"
  by (simp_all add: refs_def block_defs)

lemma stopped_state [simp]: "cc_state (tr_cc (gsm48_stop_cc_timer t)) = cc_state (tr_cc t)"
  by (simp add: block_defs)

text \<open>A handler of a message from the mobile station keeps the invariant and reports the end of the call.\<close>

definition rx_ok :: "cc_cstate set \<Rightarrow> (cc_env \<Rightarrow> gsm_trans \<Rightarrow> u8 \<Rightarrow> u8 list \<Rightarrow> cc_outcome) \<Rightarrow> bool" where
  "rx_ok S h \<longleftrightarrow> (\<forall>env t mt data. cc_wf t \<longrightarrow> tr_protocol t = GSM48_PDISC_CC \<longrightarrow> tr_conn t \<noteq> None \<longrightarrow>
     cc_state (tr_cc t) \<in> S \<longrightarrow> cc_good t (h env t mt data) \<and> cc_balanced t (h env t mt data))"

lemma rx_release_ok: "rx_ok (- {GSM_CSTATE_NULL}) gsm48_cc_rx_release"
  by (auto simp: rx_ok_def gsm48_cc_rx_release_def Let_def gsm48_tx_simple_def cc_good_def cc_balanced_def refs_def
      cc_wf_def same_owner_def block_defs)

lemma rx_release_compl_ok: "rx_ok UNIV gsm48_cc_rx_release_compl"
  by (auto simp: rx_ok_def gsm48_cc_rx_release_compl_def Let_def cc_good_def cc_balanced_def refs_def
      same_owner_def block_defs split: cc_cstate.splits)

lemma rx_table_ok: "(S, ty, h) \<in> set datastatelist \<Longrightarrow> rx_ok S h"
  unfolding datastatelist_def
  by (simp, elim disjE conjE; (simp only: rx_release_ok rx_release_compl_ok)?)
     (auto simp: rx_ok_def rx_defs Let_def cc_wf_def timer_ok_def block_defs)

text \<open>A handler of a request keeps the invariant.\<close>

definition tx_ok :: "cc_cstate set \<Rightarrow> (cc_env \<Rightarrow> gsm_trans list \<Rightarrow> gsm_trans \<Rightarrow> gsm_mncc \<Rightarrow> cc_outcome) \<Rightarrow> bool" where
  "tx_ok S h \<longleftrightarrow> (\<forall>env ts t m. cc_wf t \<longrightarrow> tr_protocol t = GSM48_PDISC_CC \<longrightarrow> tr_conn t \<noteq> None \<longrightarrow>
     cc_state (tr_cc t) \<in> S \<longrightarrow> cc_good t (h env ts t m))"

lemma tx_setup_assigned: "tx_ok S gsm48_cc_tx_setup"
  by (auto simp: tx_ok_def gsm48_cc_tx_setup_def Let_def cc_good_def cc_wf_def)

lemma tx_release_compl_ok: "tx_ok S (\<lambda>env ts. gsm48_cc_tx_release_compl env)"
  by (auto simp: tx_ok_def gsm48_cc_tx_release_compl_def Let_def cc_good_def gsm48_conn_sendmsg_def)

lemma lchan_modify_ok: "tx_ok S (\<lambda>env ts. gsm48_lchan_modify env)"
  by (auto simp: tx_ok_def gsm48_lchan_modify_def Let_def cc_good_def)

lemma tx_table_ok: "(S, ty, h) \<in> set downstatelist \<Longrightarrow> tx_ok S h"
  unfolding downstatelist_def
  by (simp, elim disjE conjE; (simp only: tx_setup_assigned tx_release_compl_ok lchan_modify_ok)?)
     (auto simp: tx_ok_def tx_defs Let_def cc_wf_def timer_ok_def block_defs same_owner_def)

lemma downstate_ok:
  assumes "cc_wf t" "tr_protocol t = GSM48_PDISC_CC" "tr_conn t \<noteq> None"
  shows "cc_good t (downstate env ts t msg_type m)"
proof (cases "find (\<lambda>(states, ty, _). msg_type = ty \<and> cc_state (tr_cc t) \<in> states) downstatelist")
  case None
  then show ?thesis using assms(1) by (simp add: downstate_def cc_good_def)
next
  case (Some e)
  obtain S ty h where e: "e = (S, ty, h)" by (cases e)
  have "(S, ty, h) \<in> set downstatelist" "cc_state (tr_cc t) \<in> S"
    using Some by (auto simp: e find_Some_iff in_set_conv_nth)
  then show ?thesis using tx_table_ok [of S ty h] assms Some by (simp add: downstate_def e tx_ok_def)
qed

lemma datastate_ok:
  assumes "cc_wf t" "tr_protocol t = GSM48_PDISC_CC" "tr_conn t \<noteq> None"
  shows "cc_good t (datastate env t msg_type data) \<and> cc_balanced t (datastate env t msg_type data)"
proof (cases "find (\<lambda>(states, ty, _). msg_type = ty \<and> cc_state (tr_cc t) \<in> states) datastatelist")
  case None
  then show ?thesis using assms(1) by (simp add: datastate_def cc_good_def cc_balanced_def)
next
  case (Some e)
  obtain S ty h where e: "e = (S, ty, h)" by (cases e)
  have "(S, ty, h) \<in> set datastatelist" "cc_state (tr_cc t) \<in> S"
    using Some by (auto simp: e find_Some_iff in_set_conv_nth)
  then show ?thesis using rx_table_ok [of S ty h] assms Some by (simp add: datastate_def e rx_ok_def)
qed

text \<open>The identifier chosen for a call to the mobile station.\<close>

lemma tx_setup_new:
  assumes "tids_ok ts" "tr_protocol t = GSM48_PDISC_CC" "tr_transaction_id t = 0xff" "tr_conn t = Some c"
    "tr_paging_request t = None" "cc_state (tr_cc t) = GSM_CSTATE_NULL" "\<not> cc_timer (tr_cc t)"
  shows "\<exists>r ev rc. gsm48_cc_tx_setup env ts t m = Some (r, ev, rc) \<and> refs t = refs (res_trans r) @ released ev \<and>
     tr_protocol (res_trans r) = GSM48_PDISC_CC \<and>
     (\<forall>t'. r = Keep t' \<longrightarrow> cc_wf t' \<and> tr_transaction_id t' < 16 \<and> tr_subscr t' = tr_subscr t \<and> tr_conn t' = tr_conn t \<and>
        trans_find_by_id (tr_subscr t) GSM48_PDISC_CC (tr_transaction_id t') ts = None)"
  using trans_assign_cases [OF assms(1), of "tr_subscr t" GSM48_PDISC_CC 0]
proof (elim disjE exE conjE)
  fix k
  assume k: "k < 7" "trans_assign_trans_id (tr_subscr t) GSM48_PDISC_CC 0 ts = Some (int (unat (tid k 0)))"
    "trans_find_by_id (tr_subscr t) GSM48_PDISC_CC (tid k 0) ts = None"
  have l: "tid k 0 < 16" "tid k 0 \<noteq> 0xff"
    using k(1) unat_tid [OF k(1), of 0] by (auto simp: word_less_nat_alt)
  show ?thesis using assms k(2,3) l
    by (auto simp: gsm48_cc_tx_setup_def Let_def cc_send_def gsm48_conn_sendmsg_def block_defs refs_def cc_wf_def timer_ok_def)
next
  assume "trans_assign_trans_id (tr_subscr t) GSM48_PDISC_CC 0 ts = Some (- 1)"
  then show ?thesis using assms by (simp add: gsm48_cc_tx_setup_def Let_def refs_def block_defs)
qed

text \<open>The expiry of a timer keeps the invariant and reports the end of the call.\<close>

lemma timed_conn: "cc_wf t \<Longrightarrow> cc_timer (tr_cc t) \<Longrightarrow> tr_conn t \<noteq> None"
  by (auto simp: cc_wf_def timer_ok_def)

lemma timeout_ok:
  assumes "cc_wf t" "cc_timer (tr_cc t)" "tr_protocol t = GSM48_PDISC_CC"
  shows "cc_good t (gsm48_cc_timeout env t) \<and> cc_balanced t (gsm48_cc_timeout env t)"
proof -
  obtain c where c: "tr_conn t = Some c" using timed_conn [OF assms(1,2)] by blast
  have T: "state_timer (cc_state (tr_cc t)) = Some (cc_Tcurrent (tr_cc t))"
    using assms(1,2) by (simp add: cc_wf_def timer_ok_def)
  show ?thesis using assms c T
    by (cases "cc_state (tr_cc t)")
       (auto simp: gsm48_cc_timeout_def Let_def timeout_action_def tx_defs cc_prepend_def cc_send_def gsm48_conn_sendmsg_def
         block_defs cc_good_def cc_balanced_def cc_wf_def timer_ok_def same_owner_def refs_def)
qed

section \<open>The list of transactions\<close>

definition clash :: "gsm_trans \<Rightarrow> gsm_trans \<Rightarrow> bool" where
  "clash t u \<longleftrightarrow> tr_protocol t = GSM48_PDISC_CC \<and> tr_protocol u = GSM48_PDISC_CC \<and> tr_subscr t = tr_subscr u \<and>
     tr_transaction_id t = tr_transaction_id u \<and> tr_transaction_id t \<noteq> 0xff"

definition trans_ok :: "gsm_trans \<Rightarrow> bool" where
  "trans_ok t \<longleftrightarrow> (if tr_protocol t = GSM48_PDISC_CC then cc_wf t else tr_paging_request t = None) \<and>
     (tr_transaction_id t < 16 \<or> tr_transaction_id t = 0xff)"

text \<open>Every call is well formed and no two calls of a subscriber have the same transaction identifier.\<close>

definition cc_inv :: "gsm_trans list \<Rightarrow> bool" where
  "cc_inv ts \<longleftrightarrow> list_all trans_ok ts \<and> sorted_wrt (\<lambda>t u. \<not> clash t u) ts"

definition env_ok :: "cc_env \<Rightarrow> bool" where
  "env_ok env \<longleftrightarrow> (\<forall>conn. has_lchan env conn)"

lemma clash_sym: "clash t u \<Longrightarrow> clash u t"
  by (auto simp: clash_def)

lemma cc_inv_tids: "cc_inv ts \<Longrightarrow> tids_ok ts"
  by (auto simp: cc_inv_def tids_ok_def list_all_iff trans_ok_def)

lemma cc_inv_insert:
  "cc_inv (xs @ ys) \<Longrightarrow> trans_ok t \<Longrightarrow> (\<And>u. u \<in> set (xs @ ys) \<Longrightarrow> \<not> clash t u) \<Longrightarrow> cc_inv (xs @ t # ys)"
  using clash_sym by (fastforce simp: cc_inv_def sorted_wrt_append)

lemma cc_inv_delete: "cc_inv (xs @ t # ys) \<Longrightarrow> cc_inv (xs @ ys)"
  by (auto simp: cc_inv_def sorted_wrt_append)

lemma cc_inv_others: "cc_inv (xs @ t # ys) \<Longrightarrow> u \<in> set (xs @ ys) \<Longrightarrow> \<not> clash t u"
  using clash_sym by (fastforce simp: cc_inv_def sorted_wrt_append)

lemma cc_inv_nth: "cc_inv ts \<Longrightarrow> i < length ts \<Longrightarrow> trans_ok (ts ! i)"
  by (simp add: cc_inv_def list_all_length)

lemma live_refs_append [simp]: "live_refs (xs @ ys) = live_refs xs @ live_refs ys"
  by (simp add: live_refs_def)

lemma live_refs_Cons [simp]: "live_refs (t # ts) = refs t @ live_refs ts"
  by (simp add: live_refs_def)

lemma live_refs_Nil [simp]: "live_refs [] = []"
  by (simp add: live_refs_def)

text \<open>Freeing a transaction reports its call reference.\<close>

lemma cc_trans_free_at:
  assumes "env_ok env"
  shows "\<exists>ev. cc_trans_free env (length xs) (xs @ t # ys) = Some (xs @ ys, ev) \<and> released ev = refs t"
proof -
  have l: "env_lchan_type env c \<noteq> None" for c using assms by (simp add: env_ok_def has_lchan_def)
  show ?thesis
    by (auto simp: cc_trans_free_def trans_free_def Let_def gsm48_cc_trans_free_def block_defs refs_def l
        split: option.splits)
qed

lemma cc_apply_at:
  assumes "env_ok env" "refs t = refs (res_trans (fst r)) @ released (fst (snd r))"
  shows "\<exists>ts' ev rc. cc_apply env (length xs) (xs @ t # ys) r = Some (ts', ev, rc) \<and>
     mset (live_refs (xs @ t # ys)) = mset (live_refs ts') + mset (released ev)"
proof -
  obtain res ev rc where r: "r = (res, ev, rc)" by (cases r)
  show ?thesis
  proof (cases res)
    case (Keep t')
    then show ?thesis using assms(2) by (simp add: r)
  next
    case (Free t')
    then show ?thesis using cc_trans_free_at [OF assms(1), of xs t' ys] assms(2) by (auto simp: r)
  qed
qed

lemma cc_apply_inv:
  assumes "env_ok env" "cc_inv (xs @ ys)"
    "\<And>t'. fst r = Keep t' \<Longrightarrow> trans_ok t' \<and> (\<forall>u \<in> set (xs @ ys). \<not> clash t' u)"
  shows "\<exists>ts' ev rc. cc_apply env (length xs) (xs @ t # ys) r = Some (ts', ev, rc) \<and> cc_inv ts'"
proof -
  obtain res ev rc where r: "r = (res, ev, rc)" by (cases r)
  show ?thesis
  proof (cases res)
    case (Keep t')
    then show ?thesis using assms(2,3) by (auto simp: r intro!: cc_inv_insert)
  next
    case (Free t')
    then show ?thesis using cc_trans_free_at [OF assms(1), of xs t' ys] assms(2) by (auto simp: r)
  qed
qed

lemma cc_good_keep:
  assumes "cc_good t (Some r)" "fst r = Keep t'" "trans_ok t" "tr_protocol t = GSM48_PDISC_CC"
  shows "trans_ok t' \<and> (\<forall>u. clash t' u \<longrightarrow> clash t u)"
  using assms by (auto simp: cc_good_def trans_ok_def same_owner_def clash_def split: prod.splits)

text \<open>Running a routine that keeps the invariant of a transaction keeps that of the list.\<close>

lemma cc_run_inv:
  assumes "env_ok env" "cc_inv (cn_trans net)" "i < length (cn_trans net)"
    "tr_protocol (cn_trans net ! i) = GSM48_PDISC_CC" "cc_good (cn_trans net ! i) (rout (cn_trans net ! i))"
  shows "\<exists>net' ev rc. cc_run env i rout net = Some (net', ev, rc) \<and> cc_inv (cn_trans net')"
proof -
  obtain xs ys where s: "cn_trans net = xs @ cn_trans net ! i # ys" "length xs = i" using split_nth [OF assms(3)] by blast
  define t where "t = cn_trans net ! i"
  note s = s [folded t_def]
  obtain r where r: "rout t = Some r" using assms(5) by (cases "rout t") (auto simp: cc_good_def t_def)
  have ok: "trans_ok t" unfolding t_def by (rule cc_inv_nth [OF assms(2,3)])
  have "\<exists>ts' ev rc. cc_apply env (length xs) (xs @ t # ys) r = Some (ts', ev, rc) \<and> cc_inv ts'"
  proof (rule cc_apply_inv [OF assms(1)])
    show "cc_inv (xs @ ys)" using assms(2) s by (metis cc_inv_delete)
    fix t' assume k: "fst r = Keep t'"
    have "trans_ok t' \<and> (\<forall>u. clash t' u \<longrightarrow> clash t u)"
      using cc_good_keep [OF _ k ok] assms(4,5) r by (simp add: t_def)
    then show "trans_ok t' \<and> (\<forall>u \<in> set (xs @ ys). \<not> clash t' u)"
      using cc_inv_others [of xs t ys] assms(2) s by auto
  qed
  then show ?thesis using r s(2) by (auto simp: cc_run_def t_def [symmetric] s(1) [symmetric])
qed

lemma cc_run_balance:
  assumes "env_ok env" "i < length (cn_trans net)" "cc_balanced (cn_trans net ! i) (rout (cn_trans net ! i))"
    "cc_run env i rout net = Some (net', ev, rc)"
  shows "mset (live_refs (cn_trans net)) = mset (live_refs (cn_trans net')) + mset (released ev)"
proof -
  obtain xs ys where s: "cn_trans net = xs @ cn_trans net ! i # ys" "length xs = i" using split_nth [OF assms(2)] by blast
  define t where "t = cn_trans net ! i"
  note s = s [folded t_def]
  obtain r where r: "rout t = Some r" using assms(4) by (auto simp: cc_run_def t_def split: option.splits)
  have b: "refs t = refs (res_trans (fst r)) @ released (fst (snd r))"
    using assms(3) r by (auto simp: cc_balanced_def t_def split: prod.splits)
  show ?thesis using cc_apply_at [OF assms(1) b, of xs ys] r s(2) assms(4)
    by (auto simp: cc_run_def t_def [symmetric] s(1) [symmetric])
qed

section \<open>Inputs\<close>

lemma fresh_no_clash:
  assumes "trans_find_by_id (tr_subscr t) GSM48_PDISC_CC (tr_transaction_id t) ts = None" "u \<in> set ts"
  shows "\<not> clash t u"
  using assms by (auto simp: trans_find_by_id_def find_idx_None_iff clash_def)

lemma setup_placed:
  assumes "cc_inv (xs @ ys)" "tr_protocol t = GSM48_PDISC_CC" "tr_transaction_id t = 0xff" "tr_conn t = Some c"
    "tr_paging_request t = None" "cc_state (tr_cc t) = GSM_CSTATE_NULL" "\<not> cc_timer (tr_cc t)"
    "tids_ok ts" "set (xs @ ys) \<subseteq> set ts"
  shows "\<exists>r. gsm48_cc_tx_setup env ts t m = Some r \<and> refs t = refs (res_trans (fst r)) @ released (fst (snd r)) \<and>
     (\<forall>t'. fst r = Keep t' \<longrightarrow> trans_ok t' \<and> (\<forall>u \<in> set (xs @ ys). \<not> clash t' u))"
proof -
  obtain r ev rc where r: "gsm48_cc_tx_setup env ts t m = Some (r, ev, rc)" "refs t = refs (res_trans r) @ released ev"
      "tr_protocol (res_trans r) = GSM48_PDISC_CC"
      "\<forall>t'. r = Keep t' \<longrightarrow> cc_wf t' \<and> tr_transaction_id t' < 16 \<and> tr_subscr t' = tr_subscr t \<and> tr_conn t' = tr_conn t \<and>
        trans_find_by_id (tr_subscr t) GSM48_PDISC_CC (tr_transaction_id t') ts = None"
    using tx_setup_new [OF assms(8,2-7), of env m] by blast
  have "trans_ok t' \<and> (\<forall>u \<in> set (xs @ ys). \<not> clash t' u)" if k: "r = Keep t'" for t'
  proof -
    have f: "trans_find_by_id (tr_subscr t') GSM48_PDISC_CC (tr_transaction_id t') ts = None" using r(4) k by metis
    have "trans_ok t'" using r(3,4) k by (simp add: trans_ok_def)
    then show ?thesis using fresh_no_clash [OF f] assms(9) by blast
  qed
  then show ?thesis using r(1,2) by auto
qed

lemma paging_evt_ok:
  assumes inv: "cc_inv (xs @ t # ys)" and t: "tr_conn t = None" "tr_paging_request t = Some token"
  shows "\<exists>r. paging_evt_trans env event conn (xs @ t # ys) t = Some r \<and>
     refs t = refs (res_trans (fst r)) @ released (fst (snd r)) \<and>
     (\<forall>t'. fst r = Keep t' \<longrightarrow> trans_ok t' \<and> (\<forall>u \<in> set (xs @ ys). \<not> clash t' u))"
proof -
  have ok: "trans_ok t" using inv by (simp add: cc_inv_def)
  then have cc: "tr_protocol t = GSM48_PDISC_CC" "cc_wf t" using t by (auto simp: trans_ok_def split: if_splits)
  then have wf: "tr_transaction_id t = 0xff" "cc_state (tr_cc t) = GSM_CSTATE_NULL" "\<not> cc_timer (tr_cc t)"
    using t by (auto simp: cc_wf_def timer_ok_def split: if_splits)
  note oth = cc_inv_others [OF inv]
  have succ: ?thesis if "event = GSM_PAGING_SUCCEEDED" "conn = Some c" for c
  proof -
    let ?t = "t\<lparr>tr_paging_request := None, tr_conn := Some c\<rparr>"
    have refs: "refs ?t = refs t" by (simp add: refs_def)
    obtain r where "gsm48_cc_tx_setup env (xs @ t # ys) ?t (cc_msg (tr_cc t)) = Some r"
        "refs t = refs (res_trans (fst r)) @ released (fst (snd r))"
        "\<forall>t'. fst r = Keep t' \<longrightarrow> trans_ok t' \<and> (\<forall>u \<in> set (xs @ ys). \<not> clash t' u)"
      using setup_placed [OF cc_inv_delete [OF inv], of ?t c "xs @ t # ys" env "cc_msg (tr_cc t)", unfolded refs]
        cc wf cc_inv_tids [OF inv] by fastforce
    then show ?thesis using that by (cases r) (simp add: paging_evt_trans_def cc_prepend_def)
  qed
  show ?thesis
  proof (cases event)
    case GSM_PAGING_SUCCEEDED
    then show ?thesis using succ ok oth by (cases conn) (auto simp: paging_evt_trans_def)
  qed (use ok oth cc in \<open>auto simp: paging_evt_trans_def refs_def\<close>)
qed

lemma setup_trig_loop_ok:
  assumes "env_ok env" "cc_inv ts"
  shows "\<exists>ts' ev fnd'. setup_trig_loop env event conn token i fnd ts = Some (ts', ev, fnd') \<and> cc_inv ts' \<and>
     mset (live_refs ts) = mset (live_refs ts') + mset (released ev)"
  using assms
proof (induction env event conn token i fnd ts rule: setup_trig_loop.induct)
  case (1 env event conn token i fnd ts)
  show ?case
  proof (cases "i \<ge> length ts")
    case True
    then show ?thesis using 1(4) by (subst setup_trig_loop.simps) simp
  next
    case i: False
    show ?thesis
    proof (cases "tr_paging_request (ts ! i) \<noteq> Some token \<or> tr_conn (ts ! i) \<noteq> None")
      case True
      from 1(1) [OF i True 1(3,4)] show ?thesis using i True by (subst setup_trig_loop.simps) simp
    next
      case False
      obtain xs ys where s: "ts = xs @ ts ! i # ys" "length xs = i" using split_nth [of i ts] i by auto
      define t where "t = ts ! i"
      note s = s [folded t_def]
      have inv: "cc_inv (xs @ t # ys)" using 1(4) s(1) by simp
      have t: "tr_conn t = None" "tr_paging_request t = Some token" using False by (simp_all add: t_def)
      obtain r where r: "paging_evt_trans env event conn ts t = Some r"
          "refs t = refs (res_trans (fst r)) @ released (fst (snd r))"
          "\<forall>t'. fst r = Keep t' \<longrightarrow> trans_ok t' \<and> (\<forall>u \<in> set (xs @ ys). \<not> clash t' u)"
        using paging_evt_ok [OF inv t, of env event conn] unfolding s(1) [symmetric] by blast
      obtain ts1 ev1 rc1 where a: "cc_apply env i ts r = Some (ts1, ev1, rc1)" "cc_inv ts1"
        using cc_apply_inv [OF 1(3) cc_inv_delete [OF inv], of r t] r(3) unfolding s(1) [symmetric] s(2) by blast
      have b: "mset (live_refs ts) = mset (live_refs ts1) + mset (released ev1)"
        using cc_apply_at [OF 1(3) r(2), of xs ys] a(1) unfolding s(1) [symmetric] s(2) by auto
      have r': "paging_evt_trans env event conn ts (ts ! i) = Some r" using r(1) by (simp add: t_def)
      obtain ts2 ev2 f2 where l: "setup_trig_loop env event conn token (case fst r of Keep _ \<Rightarrow> Suc i | Free _ \<Rightarrow> i)
          (fnd \<or> paging_evt_found event conn) ts1 = Some (ts2, ev2, f2)" "cc_inv ts2"
          "mset (live_refs ts1) = mset (live_refs ts2) + mset (released ev2)"
        using 1(2) [OF i False r' a(1) refl refl 1(3) a(2)] by blast
      then show ?thesis using b i False r' a(1) by (subst setup_trig_loop.simps) simp
    qed
  qed
qed

lemma free_matching_ok:
  assumes "env_ok env" "cc_inv ts"
  shows "\<exists>ts' ev. free_matching env P f ts = Some (ts', ev) \<and> ts' = filter (\<lambda>t. \<not> P t) ts \<and> cc_inv ts' \<and>
     released ev = concat (map (\<lambda>t. refs (f t)) (filter P ts))"
  using assms(2)
proof (induction ts)
  case Nil
  then show ?case by (simp add: cc_inv_def)
next
  case (Cons t ts)
  have inv: "cc_inv ts" "trans_ok t" "\<forall>u \<in> set ts. \<not> clash t u" using Cons(2) by (auto simp: cc_inv_def)
  obtain ts' ev where r: "free_matching env P f ts = Some (ts', ev)" "ts' = filter (\<lambda>t. \<not> P t) ts" "cc_inv ts'"
    "released ev = concat (map (\<lambda>t. refs (f t)) (filter P ts))" using Cons(1) [OF inv(1)] by blast
  obtain ev1 where e: "cc_trans_free env 0 [f t] = Some ([], ev1)" "released ev1 = refs (f t)"
    using cc_trans_free_at [OF assms(1), of "[]" "f t" "[]"] by auto
  have "cc_inv (t # ts')" using cc_inv_insert [of "[]" ts' t] inv r(2,3) by auto
  then show ?case using r e by auto
qed

text \<open>The inputs of the call control: messages of the mobile station and of the MNCC application, an expired
  timer, the answer to a page, the loss of a connection and of the MNCC application.\<close>

datatype cc_input =
    Rx_cc nat nat u8 u8 "u8 list"
  | From_mncc u32 gsm_mncc
  | Timer_expired nat
  | Paging_evt gsm_paging_event "nat option" nat
  | Clear_request nat
  | Clear_all

fun cc_input_step :: "cc_env \<Rightarrow> cc_input \<Rightarrow> cc_net \<Rightarrow> (cc_net \<times> cc_event list \<times> int) option" where
  "cc_input_step env (Rx_cc conn subscr pd mt data) net = gsm0408_rcv_cc env conn subscr pd mt data net"
| "cc_input_step env (From_mncc msg_type m) net = mncc_tx_to_cc env msg_type m net"
| "cc_input_step env (Timer_expired i) net = cc_run env i (gsm48_cc_timeout env) net"
| "cc_input_step env (Paging_evt event conn token) net = setup_trig_pag_evt env event conn token net"
| "cc_input_step env (Clear_request conn) net = clear_request_trans env conn net"
| "cc_input_step env Clear_all net = gsm0408_clear_all_trans env GSM48_PDISC_CC net"

text \<open>Only a running timer expires; the MNCC application uses no call reference of another protocol's transaction.\<close>

fun input_ok :: "cc_input \<Rightarrow> cc_net \<Rightarrow> bool" where
  "input_ok (Timer_expired i) net \<longleftrightarrow>
     i < length (cn_trans net) \<and> tr_protocol (cn_trans net ! i) = GSM48_PDISC_CC \<and> cc_timer (tr_cc (cn_trans net ! i))"
| "input_ok (From_mncc msg_type m) net \<longleftrightarrow>
     (case trans_find_by_callref (mn_callref m) (cn_trans net) of
        None \<Rightarrow> True
      | Some i \<Rightarrow> tr_protocol (cn_trans net ! i) = GSM48_PDISC_CC)"
| "input_ok _ net \<longleftrightarrow> True"

definition cc_init :: cc_net where
  "cc_init = \<lparr>cn_trans = [], cn_new_callref = 0x80000001, cn_next_token = 0\<rparr>"

text \<open>The other protocols allocate and free their transactions in the same list, in between.\<close>

inductive cc_reachable :: "cc_net \<Rightarrow> bool" where
  init: "cc_reachable cc_init"
| input: "cc_reachable net \<Longrightarrow> env_ok env \<Longrightarrow> input_ok inp net \<Longrightarrow>
    cc_input_step env inp net = Some (net', ev, rc) \<Longrightarrow> cc_reachable net'"
| other: "cc_reachable net \<Longrightarrow>
    filter (\<lambda>t. tr_protocol t = GSM48_PDISC_CC) ts = filter (\<lambda>t. tr_protocol t = GSM48_PDISC_CC) (cn_trans net) \<Longrightarrow>
    list_all (\<lambda>t. tr_protocol t \<noteq> GSM48_PDISC_CC \<longrightarrow> trans_ok t) ts \<Longrightarrow> cc_reachable (net\<lparr>cn_trans := ts\<rparr>)"

lemma sorted_wrt_clash_filter:
  "sorted_wrt (\<lambda>t u. \<not> clash t u) ts \<longleftrightarrow>
   sorted_wrt (\<lambda>t u. \<not> clash t u) (filter (\<lambda>t. tr_protocol t = GSM48_PDISC_CC) ts)"
  by (induction ts) (auto simp: clash_def)

lemma cc_inv_other:
  assumes "cc_inv ts0"
    "filter (\<lambda>t. tr_protocol t = GSM48_PDISC_CC) ts = filter (\<lambda>t. tr_protocol t = GSM48_PDISC_CC) ts0"
    "list_all (\<lambda>t. tr_protocol t \<noteq> GSM48_PDISC_CC \<longrightarrow> trans_ok t) ts"
  shows "cc_inv ts"
proof -
  have "trans_ok t" if "t \<in> set ts" for t
  proof (cases "tr_protocol t = GSM48_PDISC_CC")
    case True
    then have "t \<in> set (filter (\<lambda>t. tr_protocol t = GSM48_PDISC_CC) ts)" using that by simp
    then have "t \<in> set ts0" using assms(2) by simp
    then show ?thesis using assms(1) by (simp add: cc_inv_def list_all_iff)
  qed (use that assms(3) in \<open>simp add: list_all_iff\<close>)
  moreover have "sorted_wrt (\<lambda>t u. \<not> clash t u) ts"
    using assms(1,2) sorted_wrt_clash_filter [of ts] sorted_wrt_clash_filter [of ts0] by (simp add: cc_inv_def)
  ultimately show ?thesis by (simp add: cc_inv_def list_all_iff)
qed

text \<open>An input keeps the invariant and does not fail.\<close>

definition keeps_inv :: "(cc_net \<times> cc_event list \<times> int) option \<Rightarrow> bool" where
  "keeps_inv out \<longleftrightarrow> (case out of None \<Rightarrow> False | Some (net', ev, rc) \<Rightarrow> cc_inv (cn_trans net'))"

lemma cc_run_keeps:
  assumes "env_ok env" "cc_inv (cn_trans net)" "i < length (cn_trans net)"
    "tr_protocol (cn_trans net ! i) = GSM48_PDISC_CC" "cc_good (cn_trans net ! i) (rout (cn_trans net ! i))"
  shows "keeps_inv (cc_run env i rout net)"
  using cc_run_inv [of env net i rout] assms by (auto simp: keeps_inv_def)

lemma ti_bound: "drop_bit 4 ((pd AND 0xf0) XOR 0x80) < (16 :: u8)"
proof -
  have "unat (drop_bit 4 x) < unat (16 :: u8)" for x :: u8
  proof -
    have "unat x < 2 ^ LENGTH(8)" by (rule unsigned_less)
    then show ?thesis by (simp add: drop_bit_eq_div unat_div_distrib)
  qed
  then show ?thesis unfolding word_less_nat_alt .
qed

text \<open>The transaction that a message with an unknown identifier creates.\<close>

definition mo_trans :: "nat \<Rightarrow> nat \<Rightarrow> u8 \<Rightarrow> u32 \<Rightarrow> gsm_trans" where
  "mo_trans conn subscr ti callref =
     \<lparr>tr_protocol = GSM48_PDISC_CC, tr_transaction_id = ti, tr_subscr = subscr, tr_conn = Some conn, tr_callref = callref,
      tr_tch_recv = False, tr_paging_request = None, tr_cc = zero_cc, tr_sms = zero_sms\<rparr>"

lemma mo_trans_simps [simp]:
  "tr_protocol (mo_trans conn subscr ti callref) = GSM48_PDISC_CC"
  "tr_transaction_id (mo_trans conn subscr ti callref) = ti"
  "tr_subscr (mo_trans conn subscr ti callref) = subscr"
  "tr_conn (mo_trans conn subscr ti callref) = Some conn"
  "tr_callref (mo_trans conn subscr ti callref) = callref"
  "tr_paging_request (mo_trans conn subscr ti callref) = None"
  "tr_cc (mo_trans conn subscr ti callref) = zero_cc"
  by (simp_all add: mo_trans_def)

lemma zero_cc_simps [simp]: "cc_state zero_cc = GSM_CSTATE_NULL" "\<not> cc_timer zero_cc"
  by (simp_all add: zero_cc_def)

lemma mo_trans_ok: "ti < 16 \<Longrightarrow> trans_ok (mo_trans conn subscr ti callref)"
  by (auto simp: trans_ok_def cc_wf_def timer_ok_def)

lemma rcv_cc_cases:
  assumes "gsm0408_rcv_cc env conn subscr pd mt data net = out"
  obtains "out = Some (net, [], - EINVAL)"
  | i where "i < length (cn_trans net)" "tr_protocol (cn_trans net ! i) = GSM48_PDISC_CC"
      "tr_transaction_id (cn_trans net ! i) < 16"
      "out = cc_run env i (\<lambda>t. datastate env t (mt AND 0xbf) data) net"
  | ti where "ti < 16" "trans_find_by_id subscr GSM48_PDISC_CC ti (cn_trans net) = None"
      "out = cc_run env (length (cn_trans net)) (\<lambda>t. datastate env t (mt AND 0xbf) data)
         (net\<lparr>cn_trans := cn_trans net @ [mo_trans conn subscr ti (cn_new_callref net)],
              cn_new_callref := cn_new_callref net + 1\<rparr>)"
proof -
  let ?ti = "drop_bit 4 ((pd AND 0xf0) XOR 0x80)"
  show ?thesis
  proof (cases "(mt AND 0xbf) AND 0x80 \<noteq> 0")
    case True
    then show ?thesis using that(1) assms by (simp add: gsm0408_rcv_cc_def Let_def)
  next
    case False
    show ?thesis
    proof (cases "trans_find_by_id subscr GSM48_PDISC_CC ?ti (cn_trans net)")
      case None
      then show ?thesis using that(3) [OF ti_bound None] assms False
        by (simp add: gsm0408_rcv_cc_def Let_def trans_alloc_def mo_trans_def)
    next
      case (Some i)
      note f = Some [unfolded trans_find_by_id_def find_idx_Some_iff]
      show ?thesis using that(2) [of i] f Some assms False ti_bound [of pd] by (simp add: gsm0408_rcv_cc_def Let_def)
    qed
  qed
qed

lemma assigned_conn: "trans_ok t \<Longrightarrow> tr_protocol t = GSM48_PDISC_CC \<Longrightarrow> tr_transaction_id t < 16 \<Longrightarrow>
    cc_wf t \<and> tr_conn t \<noteq> None"
  by (auto simp: trans_ok_def cc_wf_def)

lemma rcv_cc_new_inv:
  assumes "cc_inv ts" "ti < 16" "trans_find_by_id subscr GSM48_PDISC_CC ti ts = None"
  shows "cc_inv (ts @ [mo_trans conn subscr ti callref])"
  using cc_inv_insert [of ts "[]" "mo_trans conn subscr ti callref"] assms mo_trans_ok [OF assms(2)]
    fresh_no_clash [of "mo_trans conn subscr ti callref" ts]
  by (simp add: mo_trans_def)

lemma rcv_cc_inv:
  assumes "env_ok env" "cc_inv (cn_trans net)"
  shows "keeps_inv (gsm0408_rcv_cc env conn subscr pd mt data net)"
proof (cases rule: rcv_cc_cases [of env conn subscr pd mt data net, OF refl])
  case 1
  then show ?thesis using assms(2) by (simp add: keeps_inv_def)
next
  case (2 i)
  have w: "cc_wf (cn_trans net ! i) \<and> tr_conn (cn_trans net ! i) \<noteq> None"
    using assigned_conn [OF cc_inv_nth [OF assms(2) 2(1)] 2(2,3)] .
  show ?thesis unfolding 2(4) by (rule cc_run_keeps) (use assms 2(1,2) w datastate_ok in auto)
next
  case (3 ti)
  let ?t = "mo_trans conn subscr ti (cn_new_callref net)"
  let ?net = "net\<lparr>cn_trans := cn_trans net @ [?t], cn_new_callref := cn_new_callref net + 1\<rparr>"
  have inv: "cc_inv (cn_trans ?net)" using rcv_cc_new_inv [OF assms(2) 3(1,2)] by simp
  have w: "cc_wf ?t \<and> tr_conn ?t \<noteq> None" "tr_protocol ?t = GSM48_PDISC_CC"
    using assigned_conn [OF mo_trans_ok [OF 3(1)], of conn subscr] 3(1) by (simp_all add: mo_trans_def)
  show ?thesis unfolding 3(3) by (rule cc_run_keeps) (use assms(1) inv w datastate_ok in auto)
qed

lemma cc_request_inv:
  assumes "env_ok env" "cc_inv (cn_trans net)" "i < length (cn_trans net)"
    "tr_protocol (cn_trans net ! i) = GSM48_PDISC_CC"
  shows "keeps_inv (cc_request env i msg_type m net)"
proof -
  let ?t = "cn_trans net ! i"
  have w: "cc_wf ?t" using cc_inv_nth [OF assms(2,3)] assms(4) by (simp add: trans_ok_def)
  have "cc_good ?t (case tr_conn ?t of None \<Rightarrow> request_in_paging ?t msg_type m
      | Some conn \<Rightarrow> if tr_protocol ?t \<noteq> GSM48_PDISC_CC then None else downstate env (cn_trans net) ?t msg_type m)"
    using downstate_ok [OF w assms(4)] assms(4)
    by (cases "tr_conn ?t") (auto simp: request_in_paging_def cc_good_def Let_def)
  then show ?thesis unfolding cc_request_def by (intro cc_run_keeps [OF assms])
qed

lemma downstate_setup:
  "cc_state (tr_cc t) = GSM_CSTATE_NULL \<Longrightarrow> downstate env ts t MNCC_SETUP_REQ m = gsm48_cc_tx_setup env ts t m"
  by (simp add: downstate_def downstatelist_def)

lemma setup_request_inv:
  assumes "env_ok env" "cc_inv ts" "cn_trans net = ts @ [t]" "t = mo_trans conn subscr 0xff callref"
  shows "keeps_inv (cc_request env (length ts) MNCC_SETUP_REQ m net)"
proof -
  have "tids_ok (cn_trans net)" using cc_inv_tids [OF assms(2)] assms(3,4) by (simp add: tids_ok_def mo_trans_def)
  then obtain r where r: "gsm48_cc_tx_setup env (cn_trans net) t m = Some r"
      "\<forall>t'. fst r = Keep t' \<longrightarrow> trans_ok t' \<and> (\<forall>u \<in> set (ts @ []). \<not> clash t' u)"
    using setup_placed [of ts "[]" t conn "cn_trans net" env m] assms(2-4) by fastforce
  have d: "downstate env (cn_trans net) t MNCC_SETUP_REQ m = Some r"
    using downstate_setup [of t env "cn_trans net" m] r(1) assms(4) by simp
  obtain ts' ev rc where a: "cc_apply env (length ts) (ts @ [t]) r = Some (ts', ev, rc)" "cc_inv ts'"
    using cc_apply_inv [OF assms(1), of ts "[]" r t] assms(2) r(2) by auto
  have "tr_conn t = Some conn" "tr_protocol t = GSM48_PDISC_CC" by (simp_all add: assms(4))
  then show ?thesis using a d assms(3) by (simp add: keeps_inv_def cc_request_def cc_run_def)
qed

lemma new_call_inv:
  assumes "env_ok env" "cc_inv (cn_trans net)"
  shows "keeps_inv (cc_new_call env msg_type m net)"
proof -
  let ?ts = "cn_trans net"
  let ?s = "if mnn_number (mn_called m) \<noteq> [] then env_by_extension env (mnn_number (mn_called m)) else env_by_imsi env (mn_imsi m)"
  have paged: "cc_inv (?ts @ [(mo_trans c s 0xff r)\<lparr>tr_conn := None, tr_cc := zero_cc\<lparr>cc_msg := m\<rparr>, tr_paging_request := Some tok\<rparr>])" for c s r tok
    using cc_inv_insert [of ?ts "[]"] assms(2)
    by (auto simp: mo_trans_def trans_ok_def cc_wf_def timer_ok_def zero_cc_def clash_def)
  show ?thesis
  proof (cases "msg_type = MNCC_SETUP_REQ \<and> (mnn_number (mn_called m) \<noteq> [] \<or> mn_imsi m \<noteq> [])")
    case False
    then show ?thesis using assms(2) by (auto simp: cc_new_call_def Let_def keeps_inv_def)
  next
    case True
    show ?thesis
    proof (cases ?s)
      case None
      then show ?thesis using True assms(2) by (simp add: cc_new_call_def Let_def keeps_inv_def)
    next
      case (Some s)
      show ?thesis
      proof (cases "env_lac env s = 0")
        case True
        then show ?thesis using \<open>msg_type = _ \<and> _\<close> Some assms(2) by (simp add: cc_new_call_def Let_def keeps_inv_def)
      next
        case lac: False
        show ?thesis
        proof (cases "env_connection_for_subscr env s")
          case None
          obtain ev where f: "cc_trans_free env (length ?ts) (trans_alloc s GSM48_PDISC_CC 0xff (mn_callref m) ?ts) = Some (?ts, ev)"
            unfolding trans_alloc_def using cc_trans_free_at [OF assms(1), of ?ts _ "[]"] by fastforce
          show ?thesis using True Some lac None f assms(2) paged [where c = 0 and s = s and r = "mn_callref m" and tok = "cn_next_token net"]
            by (simp add: cc_new_call_def Let_def keeps_inv_def) (simp add: trans_alloc_def mo_trans_def)
        next
          case (Some c)
          let ?net = "net\<lparr>cn_trans := ?ts @ [mo_trans c s 0xff (mn_callref m)]\<rparr>"
          obtain net' ev rc where "cc_request env (length ?ts) MNCC_SETUP_REQ m ?net = Some (net', ev, rc)"
              "cc_inv (cn_trans net')"
            using setup_request_inv [OF assms, of ?net _ c s "mn_callref m" m]
            by (auto simp: keeps_inv_def split: option.splits)
          then show ?thesis using True \<open>?s = Some s\<close> lac Some assms(2)
            by (simp add: cc_new_call_def Let_def keeps_inv_def trans_alloc_def mo_trans_def)
        qed
      qed
    qed
  qed
qed

lemma tch_recv_fields:
  assumes "env_ok env" "cc_inv ts"
  shows "\<exists>ts' ev rc. tch_recv_mncc env callref enable ts = Some (ts', ev, rc) \<and> cc_inv ts'"
proof -
  have l: "has_lchan env c" for c using assms(1) by (simp add: env_ok_def)
  have "cc_inv (ts[i := (ts ! i)\<lparr>tr_tch_recv := enable\<rparr>])" if i: "i < length ts" for i
  proof -
    obtain xs ys where s: "ts = xs @ ts ! i # ys" "length xs = i" using split_nth [OF i] by blast
    define t where "t = ts ! i"
    note s = s [folded t_def]
    have inv: "cc_inv (xs @ t # ys)" using assms(2) s(1) by simp
    have "cc_inv (xs @ t\<lparr>tr_tch_recv := enable\<rparr> # ys)"
    proof (rule cc_inv_insert [OF cc_inv_delete [OF inv]])
      show "trans_ok (t\<lparr>tr_tch_recv := enable\<rparr>)"
        using cc_inv_nth [OF assms(2) i] by (auto simp: t_def trans_ok_def cc_wf_def split: if_splits)
      show "\<not> clash (t\<lparr>tr_tch_recv := enable\<rparr>) u" if "u \<in> set (xs @ ys)" for u
        using cc_inv_others [OF inv that] by (simp add: clash_def)
    qed
    moreover have "ts[i := (ts ! i)\<lparr>tr_tch_recv := enable\<rparr>] = xs @ t\<lparr>tr_tch_recv := enable\<rparr> # ys"
      using s by (metis list_update_length t_def)
    ultimately show ?thesis by simp
  qed
  then show ?thesis using assms(2) l
    by (auto simp: tch_recv_mncc_def Let_def trans_find_by_callref_def dest: find_idx_SomeD split: option.splits)
qed

lemma tch_map_some: "env_ok env \<Longrightarrow> \<exists>ev rc. tch_map env c d = Some (ev, rc)"
  by (auto simp: tch_map_def env_ok_def Let_def)

lemma tch_bridge_some: "env_ok env \<Longrightarrow> \<exists>ev rc. tch_bridge env r0 r1 ts = Some (ev, rc)"
  using tch_map_some by (auto simp: tch_bridge_def split: option.split)

lemma tch_frame_some:
  assumes "env_ok env"
  shows "\<exists>ev rc. mncc_tch_frame env r ts = Some (ev, rc)"
proof -
  have "\<exists>ty. env_lchan_type env c = Some ty" for c using assms by (simp add: env_ok_def has_lchan_def)
  then show ?thesis by (auto simp: mncc_tch_frame_def Let_def split: option.split) (metis option.distinct(1))+
qed

lemma mncc_inv:
  assumes "env_ok env" "cc_inv (cn_trans net)" "input_ok (From_mncc msg_type m) net"
  shows "keeps_inv (mncc_tx_to_cc env msg_type m net)"
proof -
  consider "msg_type = MNCC_BRIDGE" | "msg_type = GSM_TCHF_FRAME"
    | "msg_type = MNCC_FRAME_DROP \<or> msg_type = MNCC_FRAME_RECV"
    | "msg_type \<notin> {MNCC_BRIDGE, GSM_TCHF_FRAME, MNCC_FRAME_DROP, MNCC_FRAME_RECV}" by blast
  then show ?thesis
  proof cases
    case 1
    then show ?thesis using tch_bridge_some [OF assms(1), of "mn_msg_type m" "mn_callref m" "cn_trans net"] assms(2)
      by (auto simp: mncc_tx_to_cc_def keeps_inv_def)
  next
    case 2
    then show ?thesis using tch_frame_some [OF assms(1), of "mn_callref m" "cn_trans net"] assms(2)
      by (auto simp: mncc_tx_to_cc_def keeps_inv_def)
  next
    case 3
    then show ?thesis
      using tch_recv_fields [OF assms(1,2), of "mn_callref m" "msg_type = MNCC_FRAME_RECV"]
      by (auto simp: mncc_tx_to_cc_def keeps_inv_def)
  next
    case 4
    show ?thesis
    proof (cases "trans_find_by_callref (mn_callref m) (cn_trans net)")
      case None
      then show ?thesis using 4 new_call_inv [OF assms(1,2)] by (simp add: mncc_tx_to_cc_def)
    next
      case (Some i)
      have i: "i < length (cn_trans net)" using Some by (auto simp: trans_find_by_callref_def dest: find_idx_SomeD)
      then show ?thesis using 4 Some cc_request_inv [OF assms(1,2) i] assms(3) by (simp add: mncc_tx_to_cc_def)
    qed
  qed
qed

lemma setup_trig_inv:
  assumes "env_ok env" "cc_inv (cn_trans net)"
  shows "keeps_inv (setup_trig_pag_evt env event conn token net)"
  using setup_trig_loop_ok [OF assms, of event conn token 0 False] by (auto simp: keeps_inv_def setup_trig_pag_evt_def)

lemma clear_inv:
  assumes "env_ok env" "cc_inv (cn_trans net)"
  shows "keeps_inv (clear_request_trans env conn net)" "keeps_inv (gsm0408_clear_all_trans env p net)"
  using free_matching_ok [OF assms, of "\<lambda>t. tr_conn t = Some conn" id]
    free_matching_ok [OF assms, of "\<lambda>t. tr_protocol t = p" clear_callref]
  by (auto simp: keeps_inv_def clear_request_trans_def gsm0408_clear_all_trans_def)

lemma timer_inv:
  assumes "env_ok env" "cc_inv (cn_trans net)" "input_ok (Timer_expired i) net"
  shows "keeps_inv (cc_run env i (gsm48_cc_timeout env) net)"
proof -
  have i: "i < length (cn_trans net)" "tr_protocol (cn_trans net ! i) = GSM48_PDISC_CC" "cc_timer (tr_cc (cn_trans net ! i))"
    using assms(3) by simp_all
  have "cc_wf (cn_trans net ! i)" using cc_inv_nth [OF assms(2) i(1)] i(2) by (simp add: trans_ok_def)
  then show ?thesis using timeout_ok i by (intro cc_run_keeps assms(1,2)) simp_all
qed

lemma input_inv:
  assumes "env_ok env" "cc_inv (cn_trans net)" "input_ok inp net"
  shows "keeps_inv (cc_input_step env inp net)"
  using assms
  by (cases inp) (simp_all add: rcv_cc_inv mncc_inv timer_inv setup_trig_inv clear_inv del: input_ok.simps)

lemma cc_reachable_inv: "cc_reachable net \<Longrightarrow> cc_inv (cn_trans net)"
proof (induction rule: cc_reachable.induct)
  case init
  then show ?case by (simp add: cc_init_def cc_inv_def)
next
  case (input net env inp net' ev rc)
  then show ?case using input_inv [of env net inp] by (simp add: keeps_inv_def)
next
  case (other net ts)
  then show ?case using cc_inv_other [of "cn_trans net" ts] by simp
qed

lemma reachable_step:
  assumes "cc_reachable net" "env_ok env" "input_ok inp net"
  shows "cc_reachable (fst (the (cc_input_step env inp net)))"
proof -
  obtain net' ev rc where "cc_input_step env inp net = Some (net', ev, rc)"
    using input_inv [OF assms(2) cc_reachable_inv [OF assms(1)] assms(3)] by (auto simp: keeps_inv_def split: option.splits)
  then show ?thesis using cc_reachable.input [OF assms] by simp
qed

section \<open>The end of calls\<close>

text \<open>The call reference given to a call that the mobile station starts in a step.\<close>

definition new_refs :: "cc_net \<Rightarrow> cc_net \<Rightarrow> u32 multiset" where
  "new_refs net net' =
     (if cn_new_callref net' = cn_new_callref net \<or> cn_new_callref net = 0 then {#} else {#cn_new_callref net#})"

lemma cc_run_new_callref: "cc_run env i rout net = Some (net', ev, rc) \<Longrightarrow> cn_new_callref net' = cn_new_callref net"
  by (auto simp: cc_run_def split: option.splits)

lemma rcv_cc_balance:
  assumes "env_ok env" "cc_inv (cn_trans net)" "gsm0408_rcv_cc env conn subscr pd mt data net = Some (net', ev, rc)"
  shows "mset (live_refs (cn_trans net)) + new_refs net net' = mset (live_refs (cn_trans net')) + mset (released ev)"
proof (cases rule: rcv_cc_cases [OF assms(3)])
  case 1
  then show ?thesis by (simp add: new_refs_def)
next
  case (2 i)
  note out = 2(4) [symmetric]
  have w: "cc_wf (cn_trans net ! i)" "tr_conn (cn_trans net ! i) \<noteq> None"
    using assigned_conn [OF cc_inv_nth [OF assms(2) 2(1)] 2(2,3)] by simp_all
  show ?thesis
    using cc_run_balance [OF assms(1) 2(1) _ out] datastate_ok [OF w(1) 2(2) w(2)] cc_run_new_callref [OF out]
    by (simp add: new_refs_def)
next
  case (3 ti)
  note out = 3(3) [symmetric]
  let ?t = "mo_trans conn subscr ti (cn_new_callref net)"
  have w: "cc_wf ?t" "tr_conn ?t \<noteq> None" using assigned_conn [OF mo_trans_ok [OF 3(1)]] 3(1) by simp_all
  have "mset (live_refs (cn_trans net @ [?t])) = mset (live_refs (cn_trans net')) + mset (released ev)"
    using cc_run_balance [OF assms(1) _ _ out] datastate_ok [OF w(1) _ w(2)] by simp
  moreover have "mset (refs ?t) = new_refs net net'"
    using cc_run_new_callref [OF out] by (simp add: new_refs_def refs_def)
  ultimately show ?thesis by simp
qed

lemma timer_balance:
  assumes "env_ok env" "cc_inv (cn_trans net)" "input_ok (Timer_expired i) net"
    "cc_run env i (gsm48_cc_timeout env) net = Some (net', ev, rc)"
  shows "mset (live_refs (cn_trans net)) = mset (live_refs (cn_trans net')) + mset (released ev)"
proof -
  have i: "i < length (cn_trans net)" "tr_protocol (cn_trans net ! i) = GSM48_PDISC_CC" "cc_timer (tr_cc (cn_trans net ! i))"
    using assms(3) by simp_all
  have "cc_wf (cn_trans net ! i)" using cc_inv_nth [OF assms(2) i(1)] i(2) by (simp add: trans_ok_def)
  then show ?thesis using cc_run_balance [OF assms(1) i(1) _ assms(4)] timeout_ok i by simp
qed

lemma mset_live_refs_filter:
  "mset (live_refs ts) = mset (live_refs (filter (\<lambda>t. \<not> P t) ts)) + mset (concat (map refs (filter P ts)))"
  by (induction ts) (auto simp: ac_simps)

text \<open>How long it takes at most until a call is cleared by its timers.\<close>

definition timer_rank :: "gsm_trans \<Rightarrow> nat" where
  "timer_rank t =
     (case cc_state (tr_cc t) of
        GSM_CSTATE_RELEASE_REQ \<Rightarrow> (if cc_T308_second (tr_cc t) then 1 else 2)
      | GSM_CSTATE_CALL_PRESENT \<Rightarrow> 3
      | GSM_CSTATE_DISCONNECT_IND \<Rightarrow> 3
      | _ \<Rightarrow> 4)"

lemma timeout_rank:
  assumes "cc_wf t" "cc_timer (tr_cc t)" "tr_protocol t = GSM48_PDISC_CC"
  shows "\<exists>r ev rc. gsm48_cc_timeout env t = Some (r, ev, rc) \<and> refs t = refs (res_trans r) @ released ev \<and>
     (case r of Free t' \<Rightarrow> refs t' = []
      | Keep t' \<Rightarrow> cc_wf t' \<and> cc_timer (tr_cc t') \<and> tr_protocol t' = GSM48_PDISC_CC \<and> timer_rank t' < timer_rank t)"
proof -
  obtain c where c: "tr_conn t = Some c" using timed_conn [OF assms(1,2)] by blast
  have T: "state_timer (cc_state (tr_cc t)) = Some (cc_Tcurrent (tr_cc t))"
    using assms(1,2) by (simp add: cc_wf_def timer_ok_def)
  show ?thesis using assms c T
    by (cases "cc_state (tr_cc t)")
       (auto simp: gsm48_cc_timeout_def Let_def timeout_action_def tx_defs cc_prepend_def cc_send_def gsm48_conn_sendmsg_def
         block_defs cc_wf_def timer_ok_def refs_def timer_rank_def)
qed

text \<open>The call when nothing happens but the expiry of its timer, up to a number of times.\<close>

fun cc_expire :: "nat \<Rightarrow> cc_env \<Rightarrow> gsm_trans \<Rightarrow> cc_outcome" where
  "cc_expire 0 env t = Some (Keep t, [], 0)"
| "cc_expire (Suc n) env t =
     (if \<not> cc_timer (tr_cc t) then Some (Keep t, [], 0)
      else case gsm48_cc_timeout env t of
             None \<Rightarrow> None
           | Some (Free t', ev, rc) \<Rightarrow> Some (Free t', ev, rc)
           | Some (Keep t', ev, rc) \<Rightarrow> cc_prepend ev (cc_expire n env t'))"

lemma cc_expire_clears:
  assumes "cc_wf t" "cc_timer (tr_cc t)" "tr_protocol t = GSM48_PDISC_CC" "timer_rank t \<le> n"
  shows "\<exists>t' ev rc. cc_expire n env t = Some (Free t', ev, rc) \<and> released ev = refs t"
  using assms
proof (induction n arbitrary: t)
  case 0
  then show ?case by (auto simp: timer_rank_def split: cc_cstate.splits if_splits)
next
  case (Suc n)
  obtain r ev rc where r: "gsm48_cc_timeout env t = Some (r, ev, rc)" "refs t = refs (res_trans r) @ released ev"
      "case r of Free t' \<Rightarrow> refs t' = []
       | Keep t' \<Rightarrow> cc_wf t' \<and> cc_timer (tr_cc t') \<and> tr_protocol t' = GSM48_PDISC_CC \<and> timer_rank t' < timer_rank t"
    using timeout_rank [OF Suc(2-4)] by blast
  show ?case
  proof (cases r)
    case (Free t')
    then show ?thesis using r Suc(3) by simp
  next
    case (Keep t')
    then obtain t2 ev2 rc2 where "cc_expire n env t' = Some (Free t2, ev2, rc2)" "released ev2 = refs t'"
      using Suc(1) [of t'] r(3) Suc(5) by auto
    moreover have "released ev = [] \<or> refs t' = []" using r(2) Keep by (auto simp: refs_def split: if_splits)
    ultimately show ?thesis using r Keep Suc(3) by (auto simp: cc_prepend_def)
  qed
qed

text \<open>An environment and a call to subscriber 1 on connection 5, answered by nobody yet.\<close>

definition sample_env :: cc_env where
  "sample_env =
     \<lparr>env_tlv_parse = (\<lambda>_ _ _ _. None), env_decode = (\<lambda>_ v. v), env_decode_called = (\<lambda>_. zero_number),
      env_decode_cause = (\<lambda>_. zero_cause), env_decode_keypad = (\<lambda>_. 0), env_decode_notify = (\<lambda>_. 0),
      env_encode = (\<lambda>_ _ v. v), env_encode_cause = (\<lambda>_ _. [2, 0xe0, 0x90]), env_encode_calling = (\<lambda>_. []),
      env_encode_called = (\<lambda>_. []), env_encode_redirecting = (\<lambda>_. []), env_encode_connected = (\<lambda>_. []),
      env_encode_signal = (\<lambda>_. []), env_encode_keypad = (\<lambda>_. []), env_encode_notify = (\<lambda>_. []), env_encode_more = [],
      env_lchan_type = (\<lambda>_. Some GSM_LCHAN_TCH_F), env_bts_type = (\<lambda>_. GSM_BTS_TYPE_NANOBTS),
      env_rtp_socket = (\<lambda>_. True), env_ipacc_rtp_direct = False, env_extension = (\<lambda>_. ''2000''),
      env_imsi = (\<lambda>_. ''901700000000001''), env_lac = (\<lambda>_. 1), env_by_extension = (\<lambda>_. Some 1),
      env_by_imsi = (\<lambda>_. Some 1), env_connection_for_subscr = (\<lambda>_. Some 5), env_rc = (\<lambda>_. 0)\<rparr>"

definition sample_setup :: gsm_mncc where
  "sample_setup = zero_mncc\<lparr>mn_callref := 7, mn_called := zero_number\<lparr>mnn_number := ''2000''\<rparr>\<rparr>"

definition sample_call :: gsm_trans where
  "sample_call = \<lparr>tr_protocol = 3, tr_transaction_id = 0, tr_subscr = 1, tr_conn = Some 5, tr_callref = 7, tr_tch_recv = False,
     tr_paging_request = None, tr_cc = \<lparr>cc_state = GSM_CSTATE_CALL_PRESENT, cc_Tcurrent = 0x303, cc_T308_second = False,
       cc_timer = True, cc_msg = zero_mncc\<rparr>, tr_sms = zero_sms\<rparr>"

definition sample_cc :: cc_net where
  "sample_cc = cc_init\<lparr>cn_trans := [sample_call]\<rparr>"

lemma sample_env_ok: "env_ok sample_env"
  by (simp add: env_ok_def has_lchan_def sample_env_def)

lemma sample_setup_step:
  "cc_input_step sample_env (From_mncc MNCC_SETUP_REQ sample_setup) cc_init =
     Some (sample_cc, [Trans_event (Subscr_put 1), Submit_dtap 5 [0x03, 0x05]], 0)"
  by (simp add: mncc_tx_to_cc_def trans_find_by_callref_def cc_init_def cc_new_call_def sample_setup_def zero_number_def
      zero_mncc_def Let_def sample_env_def trans_alloc_def cc_request_def cc_run_def downstate_setup zero_cc_def
      gsm48_cc_tx_setup_def trans_assign_trans_id_def highest_tid_def cc_send_def gsm48_conn_sendmsg_def block_defs
      enc_ie_def enc_if_def sample_cc_def sample_call_def upt_rec)

lemma sample_reachable: "cc_reachable sample_cc"
  using cc_reachable.input [OF cc_reachable.init sample_env_ok _ sample_setup_step]
  by (simp add: trans_find_by_callref_def cc_init_def)

section \<open>Properties\<close>

text \<open>C3: Whatever the mobile stations, the MNCC application, the timers and the paging do, in every reachable state each call is consistent: its timer runs exactly in the states that have one and is the timer of that state, it has a transaction identifier exactly when it has a connection and waits for paging exactly when it has none, a call being released is no longer known to the MNCC application, and no two calls of a subscriber share a transaction identifier.\<close>

theorem cc_invariant: "cc_reachable net \<Longrightarrow> cc_inv (cn_trans net)"
  by (rule cc_reachable_inv)

theorem cc_invariant_witness: "cc_inv (cn_trans sample_cc) \<and> cn_trans sample_cc \<noteq> []"
  using cc_invariant [OF sample_reachable] by (simp add: sample_cc_def)



text \<open>C6: The end of a call is reported to the MNCC application exactly once: when a mobile station's message, an expired timer, the answer to a page or the loss of a connection ends calls, the call references that are no longer in use are exactly those of the release, release confirmation and reject indications sent, and every other call keeps its reference.\<close>

theorem cc_end_reported_once:
  assumes "cc_reachable net" "env_ok env" "input_ok inp net" "cc_input_step env inp net = Some (net', ev, rc)"
    "\<And>msg_type m. inp \<noteq> From_mncc msg_type m" "inp \<noteq> Clear_all"
  shows "mset (live_refs (cn_trans net)) + new_refs net net' = mset (live_refs (cn_trans net')) + mset (released ev)"
proof -
  have inv: "cc_inv (cn_trans net)" using assms(1) by (rule cc_reachable_inv)
  show ?thesis
  proof (cases inp)
    case (Rx_cc conn subscr pd mt data)
    then show ?thesis using rcv_cc_balance [OF assms(2) inv] assms(4) by simp
  next
    case (Timer_expired i)
    then show ?thesis using timer_balance [OF assms(2) inv] assms(3,4) cc_run_new_callref
      by (fastforce simp: new_refs_def)
  next
    case (Paging_evt event conn token)
    then show ?thesis using setup_trig_loop_ok [OF assms(2) inv, of event conn token 0 False] assms(4)
      by (auto simp: setup_trig_pag_evt_def new_refs_def split: option.splits if_splits)
  next
    case (Clear_request conn)
    then show ?thesis
      using free_matching_ok [OF assms(2) inv, of "\<lambda>t. tr_conn t = Some conn" id] assms(4)
        mset_live_refs_filter [of "cn_trans net" "\<lambda>t. tr_conn t = Some conn"]
      by (auto simp: clear_request_trans_def new_refs_def)
  qed (use assms(5,6) in simp_all)
qed

theorem cc_end_reported_once_witness:
  "\<exists>net' ev rc. cc_input_step sample_env (Clear_request 5) sample_cc = Some (net', ev, rc) \<and>
     mset (live_refs (cn_trans net')) + mset (released ev) = {#7#}"
proof -
  obtain net' ev rc where s: "cc_input_step sample_env (Clear_request 5) sample_cc = Some (net', ev, rc)"
    using input_inv [OF sample_env_ok cc_reachable_inv [OF sample_reachable], of "Clear_request 5"]
    by (auto simp: keeps_inv_def split: option.splits)
  then have "cn_new_callref net' = cn_new_callref sample_cc"
    by (auto simp: clear_request_trans_def)
  then show ?thesis
    using cc_end_reported_once [OF sample_reachable sample_env_ok _ s] s
    by (simp add: new_refs_def sample_cc_def sample_call_def refs_def)
qed

text \<open>C12: A call whose timer runs does not stay for ever when the mobile station is silent: the expiry of at most four timers in a row clears it, and by then the MNCC application has been told the end of the call if it knew it.\<close>

theorem cc_timers_clear_call:
  assumes "cc_reachable net" "i < length (cn_trans net)" "tr_protocol (cn_trans net ! i) = GSM48_PDISC_CC"
    "cc_timer (tr_cc (cn_trans net ! i))"
  shows "\<exists>t' ev rc. cc_expire 4 env (cn_trans net ! i) = Some (Free t', ev, rc) \<and> released ev = refs (cn_trans net ! i)"
proof (rule cc_expire_clears [OF _ assms(4,3)])
  show "cc_wf (cn_trans net ! i)"
    using cc_inv_nth [OF cc_reachable_inv [OF assms(1)] assms(2)] assms(3) by (simp add: trans_ok_def)
  show "timer_rank (cn_trans net ! i) \<le> 4" by (simp add: timer_rank_def split: cc_cstate.split)
qed

theorem cc_timers_clear_call_witness:
  "\<exists>t' ev rc. cc_expire 4 sample_env sample_call = Some (Free t', ev, rc) \<and> released ev = [7]"
proof -
  have "cn_trans sample_cc ! 0 = sample_call" "0 < length (cn_trans sample_cc)" "refs sample_call = [7]"
      "tr_protocol sample_call = GSM48_PDISC_CC" "cc_timer (tr_cc sample_call)"
    by (simp_all add: sample_cc_def refs_def) (simp_all add: sample_call_def)
  then show ?thesis using cc_timers_clear_call [OF sample_reachable, of 0 sample_env] by simp
qed

end
