(* ===== verification/Gsm_04_11.thy ===== *)
theory Gsm_04_11
  imports Call_Control_Inv "HOL-Library.Monad_Syntax"
begin

unbundle bit_operations_syntax

text \<open>
  The short message service of the MSC (the second half of \<^verbatim>\<open>src/libmsc/gsm_04_11.c\<close>): the connection and the
  relay layer of GSM 04.11 on the list of transactions. A handler works on the transaction at a position of the
  list. Messages, signals and data base accesses are events in the order of the calls; the data base and the
  connections answer as \<open>sms_env\<close> says. A received message is the list of octets from its start to the end of the
  buffer. \<open>None\<close> is the use of a null pointer, of the wrong member of the transaction's union, or a read past
  the buffer.
\<close>

section \<open>Environment and events\<close>

datatype sms_signal = S_SMS_SUBMITTED | S_SMS_DELIVERED | S_SMS_SMMA | S_SMS_MEM_EXCEEDED | S_SMS_UNKNOWN_ERROR

datatype sms_event =
    Sms_submit_dtap nat u8 "u8 list"
  | Send_signal sms_signal "gsm_sms option"
  | Db_sms_get_unsent gsm_sms
  | Db_sms_store gsm_sms
  | Db_sms_mark_sent gsm_sms
  | Db_sms_inc_deliver_attempts gsm_sms
  | Sms_put_channel nat
  | Sms_get_channel nat gsm_sms
  | Sms_trans_event trans_event

record sms_env =
  sv_lib :: sms_lib
  sv_extension :: "nat \<Rightarrow> string"
  sv_by_extension :: "string \<Rightarrow> nat option"
  sv_store :: "gsm_sms \<Rightarrow> int"
  sv_unsent :: "nat \<Rightarrow> gsm_sms option"
  sv_connection_for_subscr :: "nat \<Rightarrow> nat option"
  sv_conn_subscr :: "nat \<Rightarrow> nat option"
  sv_rc :: "sms_event \<Rightarrow> int"

record sms_net =
  sn_trans :: "gsm_trans list"
  sn_new_callref :: u32

type_synonym sms_out = "(sms_net \<times> sms_event list \<times> int) option"

abbreviation (input) UM_SAPI_SMS :: u8 where "UM_SAPI_SMS \<equiv> 3"
abbreviation (input) GSM411_MT_CP_DATA :: u8 where "GSM411_MT_CP_DATA \<equiv> 0x01"
abbreviation (input) GSM411_MT_CP_ACK :: u8 where "GSM411_MT_CP_ACK \<equiv> 0x04"
abbreviation (input) GSM411_MT_CP_ERROR :: u8 where "GSM411_MT_CP_ERROR \<equiv> 0x10"
abbreviation (input) GSM411_MT_RP_DATA_MO :: u8 where "GSM411_MT_RP_DATA_MO \<equiv> 0x00"
abbreviation (input) GSM411_MT_RP_DATA_MT :: u8 where "GSM411_MT_RP_DATA_MT \<equiv> 0x01"
abbreviation (input) GSM411_MT_RP_ACK_MO :: u8 where "GSM411_MT_RP_ACK_MO \<equiv> 0x02"
abbreviation (input) GSM411_MT_RP_ACK_MT :: u8 where "GSM411_MT_RP_ACK_MT \<equiv> 0x03"
abbreviation (input) GSM411_MT_RP_ERROR_MO :: u8 where "GSM411_MT_RP_ERROR_MO \<equiv> 0x04"
abbreviation (input) GSM411_MT_RP_ERROR_MT :: u8 where "GSM411_MT_RP_ERROR_MT \<equiv> 0x05"
abbreviation (input) GSM411_MT_RP_SMMA_MO :: u8 where "GSM411_MT_RP_SMMA_MO \<equiv> 0x06"
abbreviation (input) GSM411_RP_CAUSE_MO_NUM_UNASSIGNED :: int where "GSM411_RP_CAUSE_MO_NUM_UNASSIGNED \<equiv> 1"
abbreviation (input) GSM411_RP_CAUSE_MT_MEM_EXCEEDED :: u8 where "GSM411_RP_CAUSE_MT_MEM_EXCEEDED \<equiv> 22"
abbreviation (input) GSM411_RP_CAUSE_INV_MAND_INF :: u8 where "GSM411_RP_CAUSE_INV_MAND_INF \<equiv> 96"
abbreviation (input) GSM411_RP_CAUSE_MSGTYPE_NOTEXIST :: u8 where "GSM411_RP_CAUSE_MSGTYPE_NOTEXIST \<equiv> 97"
abbreviation (input) GSM411_RP_CAUSE_MSG_INCOMP_STATE :: u8 where "GSM411_RP_CAUSE_MSG_INCOMP_STATE \<equiv> 98"
abbreviation (input) GSM411_RP_CAUSE_IE_NOTEXIST :: int where "GSM411_RP_CAUSE_IE_NOTEXIST \<equiv> 99"
abbreviation (input) GSM411_RP_CAUSE_PROTOCOL_ERR :: u8 where "GSM411_RP_CAUSE_PROTOCOL_ERR \<equiv> 111"
abbreviation (input) GSM411_CP_CAUSE_MSGTYPE_NOTEXIST :: u8 where "GSM411_CP_CAUSE_MSGTYPE_NOTEXIST \<equiv> 97"
abbreviation (input) GSM340_SMS_SUBMIT_MS2SC :: u8 where "GSM340_SMS_SUBMIT_MS2SC \<equiv> 1"
abbreviation (input) ETIMEDOUT :: int where "ETIMEDOUT \<equiv> 110"

section \<open>Sending\<close>

definition upd_sms :: "nat \<Rightarrow> (trans_sms \<Rightarrow> trans_sms) \<Rightarrow> sms_net \<Rightarrow> sms_net" where
  "upd_sms i f net = net\<lparr>sn_trans := upd_nth i (\<lambda>t. t\<lparr>tr_sms := f (tr_sms t)\<rparr>) (sn_trans net)\<rparr>"

definition gsm411_cp_sendmsg :: "sms_env \<Rightarrow> nat \<Rightarrow> u8 \<Rightarrow> u8 list \<Rightarrow> sms_net \<Rightarrow> sms_out" where
  "gsm411_cp_sendmsg env i msg_type msg net =
     (let t = sn_trans net ! i;
          net1 = (if msg_type = GSM411_MT_CP_DATA
                  then upd_sms i (\<lambda>s. s\<lparr>ts_cp_state := GSM411_CPS_WAIT_CP_ACK, ts_cp_timer := True\<rparr>) net else net)
      in case tr_conn t of
           None \<Rightarrow> None
         | Some conn \<Rightarrow>
             (let ev = Sms_submit_dtap conn (ts_link_id (tr_sms t))
                         ((tr_protocol t OR push_bit 4 (tr_transaction_id t)) # msg_type # msg)
              in Some (net1, [ev], sv_rc env ev)))"

definition gsm411_rp_sendmsg :: "sms_env \<Rightarrow> nat \<Rightarrow> u8 \<Rightarrow> u8 \<Rightarrow> u8 list \<Rightarrow> sms_net \<Rightarrow> sms_out" where
  "gsm411_rp_sendmsg env i rp_msg_type rp_msg_ref msg net =
     gsm411_cp_sendmsg env i GSM411_MT_CP_DATA ((of_nat (length msg) + 2) # rp_msg_type # rp_msg_ref # msg) net"

definition gsm411_send_rp_ack :: "sms_env \<Rightarrow> nat \<Rightarrow> u8 \<Rightarrow> sms_net \<Rightarrow> sms_out" where
  "gsm411_send_rp_ack env i msg_ref net = gsm411_rp_sendmsg env i GSM411_MT_RP_ACK_MT msg_ref [] net"

definition gsm411_send_rp_error :: "sms_env \<Rightarrow> nat \<Rightarrow> u8 \<Rightarrow> u8 \<Rightarrow> sms_net \<Rightarrow> sms_out" where
  "gsm411_send_rp_error env i msg_ref cause net = gsm411_rp_sendmsg env i GSM411_MT_RP_ERROR_MT msg_ref [1, cause] net"

definition gsm411_tx_cp_ack :: "sms_env \<Rightarrow> nat \<Rightarrow> sms_net \<Rightarrow> sms_out" where
  "gsm411_tx_cp_ack env i net =
     map_option (\<lambda>(net1, ev, rc).
         (if ts_is_mt (tr_sms (sn_trans net1 ! i)) then upd_sms i (\<lambda>s. s\<lparr>ts_cp_state := GSM411_CPS_IDLE\<rparr>) net1 else net1, ev, rc))
       (gsm411_cp_sendmsg env i GSM411_MT_CP_ACK [] net)"

definition gsm411_tx_cp_error :: "sms_env \<Rightarrow> nat \<Rightarrow> u8 \<Rightarrow> sms_net \<Rightarrow> sms_out" where
  "gsm411_tx_cp_error env i cause net = gsm411_cp_sendmsg env i GSM411_MT_CP_ERROR [cause] net"

text \<open>What \<open>trans_free\<close> does for a transaction of the short message service.\<close>

definition gsm411_sms_trans_free :: "gsm_trans \<Rightarrow> sms_event list" where
  "gsm411_sms_trans_free t =
     (case ts_sms (tr_sms t) of None \<Rightarrow> [] | Some sms \<Rightarrow> [Send_signal S_SMS_UNKNOWN_ERROR (Some sms)])"

fun sms_trans_event :: "trans_event \<Rightarrow> sms_event list" where
  "sms_trans_event (Gsm411_sms_trans_free t) = gsm411_sms_trans_free t"
| "sms_trans_event ev = [Sms_trans_event ev]"

definition sms_trans_free :: "nat \<Rightarrow> sms_net \<Rightarrow> sms_net \<times> sms_event list" where
  "sms_trans_free i net =
     (let (ts, tev) = trans_free i (sn_trans net) in (net\<lparr>sn_trans := ts\<rparr>, concat (map sms_trans_event tev)))"

definition cp_timer_expired :: "nat \<Rightarrow> sms_net \<Rightarrow> sms_net \<times> sms_event list" where
  "cp_timer_expired i net = sms_trans_free i (upd_sms i (\<lambda>s. s\<lparr>ts_cp_timer := False\<rparr>) net)"

definition gsm411_release_conn :: "sms_env \<Rightarrow> nat option \<Rightarrow> sms_event list" where
  "gsm411_release_conn env conn =
     (case conn of
        None \<Rightarrow> []
      | Some c \<Rightarrow> (case sv_conn_subscr env c of None \<Rightarrow> [] | Some s \<Rightarrow> [Sms_put_channel s]))"

text \<open>The delivery of a message on a connection: a transaction, the addresses of the service centre and the TPDU.\<close>

definition gsm411_send_sms :: "sms_env \<Rightarrow> nat \<Rightarrow> gsm_sms \<Rightarrow> sms_net \<Rightarrow> sms_out" where
  "gsm411_send_sms env conn sms net = do {
     subscr \<leftarrow> sv_conn_subscr env conn;
     transaction_id \<leftarrow> trans_assign_trans_id subscr GSM48_PDISC_SMS 0 (sn_trans net);
     if transaction_id = - 1
     then Some (net, [Send_signal S_SMS_UNKNOWN_ERROR (Some sms)], - EBUSY)
     else do {
       sender \<leftarrow> sms_sender sms;
       let n = length (sn_trans net);
       let ts = trans_alloc subscr GSM48_PDISC_SMS (of_int transaction_id) (sn_new_callref net) (sn_trans net);
       let ts = ts[n := (ts ! n)\<lparr>tr_conn := Some conn,
                  tr_sms := zero_sms\<lparr>ts_is_mt := True, ts_sms := Some sms, ts_link_id := UM_SAPI_SMS\<rparr>\<rparr>];
       let tpdu = gsm340_gen_tpdu (sv_lib env) (sv_extension env sender) sms;
       (net1, ev, rc) \<leftarrow> gsm411_rp_sendmsg env n GSM411_MT_RP_DATA_MT 42
         ([0x07, 0x91, 0x44, 0x77, 0x58, 0x10, 0x06, 0x50, 0, of_nat (length tpdu)] @ tpdu)
         (net\<lparr>sn_trans := ts, sn_new_callref := sn_new_callref net + 1\<rparr>);
       Some (net1, Db_sms_inc_deliver_attempts sms # ev, rc) } }"

text \<open>Going on with the next message of the subscriber, or giving the channel up.\<close>

definition send_next :: "sms_env \<Rightarrow> gsm_trans \<Rightarrow> sms_net \<Rightarrow> sms_out" where
  "send_next env t net =
     (case sv_unsent env (tr_subscr t) of
        Some sms \<Rightarrow>
          (case tr_conn t of
             None \<Rightarrow> None
           | Some c \<Rightarrow> map_option (\<lambda>(n, ev, rc). (n, Db_sms_get_unsent sms # ev, rc)) (gsm411_send_sms env c sms net))
      | None \<Rightarrow> Some (net, gsm411_release_conn env (tr_conn t), 0))"

section \<open>Receiving\<close>

definition gsm340_rx_sms_submit :: "sms_env \<Rightarrow> gsm_sms \<Rightarrow> sms_event list \<times> int" where
  "gsm340_rx_sms_submit env sms =
     (if sv_store env sms \<noteq> 0 then ([Db_sms_store sms], GSM411_RP_CAUSE_MO_NET_OUT_OF_ORDER)
      else ([Db_sms_store sms, Send_signal S_SMS_SUBMITTED (Some sms)], 0))"

text \<open>The first signal has the number 0, which is that of a submitted message.\<close>

definition gsm340_rx_tpdu :: "sms_env \<Rightarrow> nat \<Rightarrow> u8 list \<Rightarrow> (sms_event list \<times> int) option" where
  "gsm340_rx_tpdu env conn buf = do {
     sender \<leftarrow> sv_conn_subscr env conn;
     tpdu \<leftarrow> gsm340_parse_tpdu (sv_lib env) sender buf;
     case tpdu of
       Tpdu_refused cause \<Rightarrow> Some ([], cause)
     | Tpdu mti sms \<Rightarrow>
         (case sv_by_extension env (sms_dest_addr sms) of
            None \<Rightarrow> Some ([Send_signal S_SMS_SUBMITTED (Some sms)], 1)
          | Some receiver \<Rightarrow>
              (let sms1 = sms\<lparr>sms_receiver := Some receiver\<rparr>;
                   (ev, rc) = (if mti = GSM340_SMS_SUBMIT_MS2SC then gsm340_rx_sms_submit env sms1
                               else ([], GSM411_RP_CAUSE_IE_NOTEXIST))
               in Some (Send_signal S_SMS_SUBMITTED (Some sms) # ev, rc))) }"

definition gsm411_rx_rp_ud :: "sms_env \<Rightarrow> nat \<Rightarrow> u8 \<Rightarrow> u8 \<Rightarrow> u8 \<Rightarrow> u8 list \<Rightarrow> sms_net \<Rightarrow> sms_out" where
  "gsm411_rx_rp_ud env i msg_ref dst_len tpdu_len tpdu net =
     (if dst_len = 0 \<or> tpdu_len = 0
      then map_option (\<lambda>(net1, ev, _). (net1, ev, - EIO)) (gsm411_send_rp_error env i msg_ref GSM411_RP_CAUSE_INV_MAND_INF net)
      else do {
        conn \<leftarrow> tr_conn (sn_trans net ! i);
        (ev, rc) \<leftarrow> gsm340_rx_tpdu env conn tpdu;
        if rc = 0 then map_option (\<lambda>(n, e, r). (n, ev @ e, r)) (gsm411_send_rp_ack env i msg_ref net)
        else if rc > 0 then map_option (\<lambda>(n, e, r). (n, ev @ e, r)) (gsm411_send_rp_error env i msg_ref (of_int rc) net)
        else Some (net, ev, rc) })"

definition gsm411_rx_rp_data :: "sms_env \<Rightarrow> nat \<Rightarrow> u8 \<Rightarrow> u8 list \<Rightarrow> sms_net \<Rightarrow> sms_out" where
  "gsm411_rx_rp_data env i msg_ref data net = do {
     src_len \<leftarrow> rd data 0;
     dst_len \<leftarrow> rd data (1 + unat src_len);
     rpud_len \<leftarrow> rd data (1 + unat src_len + 1 + unat dst_len);
     gsm411_rx_rp_ud env i msg_ref dst_len rpud_len (drop (1 + unat src_len + 1 + unat dst_len + 1) data) net }"

definition gsm411_rx_rp_ack :: "sms_env \<Rightarrow> nat \<Rightarrow> u8 \<Rightarrow> sms_net \<Rightarrow> sms_out" where
  "gsm411_rx_rp_ack env i msg_ref net =
     (let t = sn_trans net ! i
      in if \<not> ts_is_mt (tr_sms t) then gsm411_send_rp_error env i msg_ref GSM411_RP_CAUSE_MSG_INCOMP_STATE net
         else case ts_sms (tr_sms t) of
                None \<Rightarrow> gsm411_send_rp_error env i msg_ref GSM411_RP_CAUSE_PROTOCOL_ERR net
              | Some sms \<Rightarrow> do {
                  (net1, ev, _) \<leftarrow> send_next env t (upd_sms i (\<lambda>s. s\<lparr>ts_sms := None\<rparr>) net);
                  let (net2, ev2) = sms_trans_free i net1;
                  Some (net2, [Db_sms_mark_sent sms, Send_signal S_SMS_DELIVERED (Some sms)] @ ev @ ev2, 0) })"

definition gsm411_rx_rp_error :: "sms_env \<Rightarrow> nat \<Rightarrow> u8 list \<Rightarrow> sms_net \<Rightarrow> sms_out" where
  "gsm411_rx_rp_error env i data net = do {
     conn \<leftarrow> tr_conn (sn_trans net ! i);
     cause_len \<leftarrow> rd data 0;
     cause \<leftarrow> rd data 1;
     case ts_sms (tr_sms (sn_trans net ! i)) of
       None \<Rightarrow> Some (net, [], - EINVAL)
     | Some sms \<Rightarrow>
         Some (upd_sms i (\<lambda>s. s\<lparr>ts_sms := None\<rparr>) net,
           [Send_signal (if cause = GSM411_RP_CAUSE_MT_MEM_EXCEEDED then S_SMS_MEM_EXCEEDED else S_SMS_UNKNOWN_ERROR) (Some sms)], 0) }"

definition gsm411_rx_rp_smma :: "sms_env \<Rightarrow> nat \<Rightarrow> u8 \<Rightarrow> sms_net \<Rightarrow> sms_out" where
  "gsm411_rx_rp_smma env i msg_ref net = do {
     (net1, ev, rc) \<leftarrow> gsm411_send_rp_ack env i msg_ref net;
     let net2 = upd_sms i (\<lambda>s. s\<lparr>ts_rp_state := GSM411_RPS_IDLE\<rparr>) net1;
     (net3, ev3, _) \<leftarrow> send_next env (sn_trans net2 ! i) net2;
     Some (net3, ev @ [Send_signal S_SMS_SMMA None] @ ev3, rc) }"

text \<open>The relay layer message in a CP-DATA: length, type, reference and the rest.\<close>

definition gsm411_rx_cp_data :: "sms_env \<Rightarrow> nat \<Rightarrow> u8 list \<Rightarrow> sms_net \<Rightarrow> sms_out" where
  "gsm411_rx_cp_data env i gh_data net = do {
     rp_type \<leftarrow> rd gh_data 1;
     let msg_type = rp_type AND 0x07;
     let to_tx = upd_sms i (\<lambda>s. s\<lparr>ts_rp_state := GSM411_RPS_WAIT_TO_TX_RP_ACK\<rparr>);
     msg_ref \<leftarrow> rd gh_data 2;
     if msg_type = GSM411_MT_RP_DATA_MO then gsm411_rx_rp_data env i msg_ref (drop 3 gh_data) (to_tx net)
     else if msg_type = GSM411_MT_RP_ACK_MO then gsm411_rx_rp_ack env i msg_ref net
     else if msg_type = GSM411_MT_RP_SMMA_MO then gsm411_rx_rp_smma env i msg_ref (to_tx net)
     else if msg_type = GSM411_MT_RP_ERROR_MO then gsm411_rx_rp_error env i (drop 3 gh_data) net
     else gsm411_send_rp_error env i msg_ref GSM411_RP_CAUSE_MSGTYPE_NOTEXIST net }"

text \<open>A CP-DATA of a new transaction acknowledges those before it: they are freed. The position of the new
  transaction follows the removals.\<close>

fun implicit_cp_acks :: "nat \<Rightarrow> u8 \<Rightarrow> u8 list \<Rightarrow> nat \<Rightarrow> sms_net \<Rightarrow> sms_net \<times> nat \<times> sms_event list" where
  "implicit_cp_acks subscr ti [] i net = (net, i, [])"
| "implicit_cp_acks subscr ti (k # ks) i net =
     (if k = ti then implicit_cp_acks subscr ti ks i net
      else case trans_find_by_id subscr GSM48_PDISC_SMS k (sn_trans net) of
             None \<Rightarrow> implicit_cp_acks subscr ti ks i net
           | Some j \<Rightarrow>
               (let (net1, ev) = sms_trans_free j (upd_sms j (\<lambda>s. s\<lparr>ts_cp_timer := False, ts_cp_state := GSM411_CPS_IDLE\<rparr>) net);
                    (net2, i2, ev2) = implicit_cp_acks subscr ti ks (if j < i then i - 1 else i) net1
                in (net2, i2, ev @ ev2)))"

definition sms_find_trans :: "nat \<Rightarrow> nat \<Rightarrow> u8 \<Rightarrow> sms_net \<Rightarrow> sms_net \<times> nat" where
  "sms_find_trans conn subscr ti net =
     (case trans_find_by_id subscr GSM48_PDISC_SMS ti (sn_trans net) of
        Some i \<Rightarrow> (net, i)
      | None \<Rightarrow>
          (let n = length (sn_trans net); ts = trans_alloc subscr GSM48_PDISC_SMS ti (sn_new_callref net) (sn_trans net)
           in (net\<lparr>sn_trans := ts[n := (ts ! n)\<lparr>tr_conn := Some conn, tr_sms := zero_sms\<lparr>ts_link_id := UM_SAPI_SMS\<rparr>\<rparr>],
                   sn_new_callref := sn_new_callref net + 1\<rparr>, n)))"

definition gsm0411_rcv_sms :: "sms_env \<Rightarrow> nat \<Rightarrow> u8 \<Rightarrow> u8 \<Rightarrow> u8 list \<Rightarrow> sms_net \<Rightarrow> sms_out" where
  "gsm0411_rcv_sms env conn proto_discr msg_type data net =
     (let ti = drop_bit 4 proto_discr XOR 0x8
      in case sv_conn_subscr env conn of
           None \<Rightarrow> Some (net, [], - EIO)
         | Some subscr \<Rightarrow>
             (let (net, i) = sms_find_trans conn subscr ti net;
                  idle = upd_sms i (\<lambda>s. s\<lparr>ts_cp_state := GSM411_CPS_IDLE\<rparr>)
              in if msg_type = GSM411_MT_CP_DATA
                 then (let (net1, i1, ev1) =
                             (if ts_cp_state (tr_sms (sn_trans net ! i)) = GSM411_CPS_IDLE
                              then implicit_cp_acks subscr ti [8, 9, 10, 11, 12, 13, 14] i net else (net, i, []))
                       in do {
                         (net2, ev2, _) \<leftarrow> gsm411_tx_cp_ack env i1
                           (upd_sms i1 (\<lambda>s. s\<lparr>ts_cp_state := GSM411_CPS_MM_ESTABLISHED\<rparr>) net1);
                         (net3, ev3, rc) \<leftarrow> gsm411_rx_cp_data env i1 data net2;
                         Some (net3, ev1 @ ev2 @ ev3, rc) })
                 else if msg_type = GSM411_MT_CP_ACK
                 then (let net1 = upd_sms i (\<lambda>s. s\<lparr>ts_cp_state := GSM411_CPS_MM_ESTABLISHED, ts_cp_timer := False\<rparr>) net
                       in if \<not> ts_is_mt (tr_sms (sn_trans net ! i))
                          then (let (net2, ev) = sms_trans_free i (idle net1) in Some (net2, ev, 0))
                          else Some (net1, [], 0))
                 else if msg_type = GSM411_MT_CP_ERROR
                 then (let (net1, ev) = sms_trans_free i (idle (upd_sms i (\<lambda>s. s\<lparr>ts_cp_timer := False\<rparr>) net))
                       in Some (net1, ev, 0))
                 else do {
                   (net1, ev, rc) \<leftarrow> gsm411_tx_cp_error env i GSM411_CP_CAUSE_MSGTYPE_NOTEXIST net;
                   let (net2, ev2) = sms_trans_free i (idle net1);
                   Some (net2, ev @ ev2, rc) }))"

section \<open>Paging and rejected links\<close>

definition paging_cb_send_sms :: "sms_env \<Rightarrow> gsm_paging_event \<Rightarrow> nat option \<Rightarrow> gsm_sms \<Rightarrow> sms_net \<Rightarrow> sms_out" where
  "paging_cb_send_sms env event conn sms net =
     (if event = GSM_PAGING_SUCCEEDED
      then (case conn of
              None \<Rightarrow> None
            | Some c \<Rightarrow> map_option (\<lambda>(n, ev, _). (n, ev, 0)) (gsm411_send_sms env c sms net))
      else Some (net, [Send_signal S_SMS_UNKNOWN_ERROR (Some sms)], - ETIMEDOUT))"

definition gsm411_send_sms_subscr :: "sms_env \<Rightarrow> nat \<Rightarrow> gsm_sms \<Rightarrow> sms_net \<Rightarrow> sms_out" where
  "gsm411_send_sms_subscr env subscr sms net =
     (case sv_connection_for_subscr env subscr of
        Some conn \<Rightarrow> gsm411_send_sms env conn sms net
      | None \<Rightarrow> Some (net, [Sms_get_channel subscr sms], 0))"

lemma length_sms_trans_free:
  "i < length (sn_trans net) \<Longrightarrow> sms_trans_free i net = (net', ev) \<Longrightarrow> Suc (length (sn_trans net')) = length (sn_trans net)"
  by (auto simp: sms_trans_free_def trans_free_def Let_def)

lemma length_upd_sms [simp]: "length (sn_trans (upd_sms i f net)) = length (sn_trans net)"
  by (simp add: upd_sms_def)

text \<open>A rejected link for SAPI 3: the code reads the message of every transaction of the connection, also of those of
  the call control, whose part of the union holds none.\<close>

function sapi_n_reject_loop :: "nat \<Rightarrow> nat \<Rightarrow> sms_net \<Rightarrow> (sms_net \<times> sms_event list) option" where
  "sapi_n_reject_loop conn i net =
     (if i \<ge> length (sn_trans net) then Some (net, [])
      else (let t = sn_trans net ! i
            in if tr_conn t \<noteq> Some conn then sapi_n_reject_loop conn (Suc i) net
               else if tr_protocol t \<noteq> GSM48_PDISC_SMS then None
               else case ts_sms (tr_sms t) of
                      None \<Rightarrow> sapi_n_reject_loop conn (Suc i) net
                    | Some sms \<Rightarrow>
                        (let (net1, ev) = sms_trans_free i (upd_sms i (\<lambda>s. s\<lparr>ts_sms := None\<rparr>) net)
                         in map_option (\<lambda>(net2, ev2). (net2, Send_signal S_SMS_UNKNOWN_ERROR (Some sms) # ev @ ev2))
                              (sapi_n_reject_loop conn i net1))))"
  by pat_completeness auto

termination
proof (relation "measure (\<lambda>(conn, i, net). length (sn_trans net) - i)", goal_cases)
  case (4 conn i net t sms p net1 ev)
  then show ?case using length_sms_trans_free [of i "upd_sms i (\<lambda>s. s\<lparr>ts_sms := None\<rparr>) net" net1 ev] by simp
qed simp_all

declare sapi_n_reject_loop.simps [simp del]

definition gsm411_sapi_n_reject :: "sms_env \<Rightarrow> nat \<Rightarrow> sms_net \<Rightarrow> sms_out" where
  "gsm411_sapi_n_reject env conn net =
     (case sv_conn_subscr env conn of
        None \<Rightarrow> None
      | Some subscr \<Rightarrow>
          map_option (\<lambda>(net1, ev). (net1, ev @ [Sms_put_channel subscr, Sms_trans_event (Subscr_put subscr)], 0))
            (sapi_n_reject_loop conn 0 net))"

end
