(* ===== verification/Gsm_04_11_Inv.thy ===== *)
theory Gsm_04_11_Inv
  imports Gsm_04_11
begin

unbundle bit_operations_syntax

text \<open>
  Properties of the short message service: every message taken for delivery is, at each moment, either carried by
  one transaction or has been reported once; its transactions are consistent; and it leaves the transactions of the
  call control alone, so that its steps fit between those of the call control.
\<close>

section \<open>Messages on their way\<close>

definition carried :: "gsm_trans \<Rightarrow> gsm_sms multiset" where
  "carried t = (if tr_protocol t = GSM48_PDISC_SMS then (case ts_sms (tr_sms t) of None \<Rightarrow> {#} | Some sms \<Rightarrow> {#sms#}) else {#})"

definition in_flight :: "gsm_trans list \<Rightarrow> gsm_sms multiset" where
  "in_flight ts = sum_list (map carried ts)"

text \<open>What became of a message: a signal, or it waits for the paging of its receiver.\<close>

fun reported1 :: "sms_event \<Rightarrow> gsm_sms multiset" where
  "reported1 (Send_signal s (Some sms)) =
     (if s \<in> {S_SMS_DELIVERED, S_SMS_MEM_EXCEEDED, S_SMS_UNKNOWN_ERROR} then {#sms#} else {#})"
| "reported1 (Sms_get_channel subscr sms) = {#sms#}"
| "reported1 _ = {#}"

definition reported :: "sms_event list \<Rightarrow> gsm_sms multiset" where
  "reported ev = sum_list (map reported1 ev)"

fun fetched1 :: "sms_event \<Rightarrow> gsm_sms multiset" where
  "fetched1 (Db_sms_get_unsent sms) = {#sms#}"
| "fetched1 _ = {#}"

definition fetched :: "sms_event list \<Rightarrow> gsm_sms multiset" where
  "fetched ev = sum_list (map fetched1 ev)"

lemma event_simps [simp]:
  "reported [] = {#}" "reported (e # ev) = reported1 e + reported ev" "reported (ev @ ev') = reported ev + reported ev'"
  "fetched [] = {#}" "fetched (e # ev) = fetched1 e + fetched ev" "fetched (ev @ ev') = fetched ev + fetched ev'"
  by (simp_all add: reported_def fetched_def)

section \<open>Steps\<close>

definition sms_wf :: "gsm_trans \<Rightarrow> bool" where
  "sms_wf t \<longleftrightarrow> (tr_protocol t = GSM48_PDISC_SMS \<longrightarrow>
     tr_conn t \<noteq> None \<and> tr_transaction_id t < 16 \<and> tr_paging_request t = None \<and>
     (ts_cp_state (tr_sms t) = GSM411_CPS_WAIT_CP_ACK \<longrightarrow> ts_cp_timer (tr_sms t)) \<and>
     (ts_sms (tr_sms t) \<noteq> None \<longrightarrow> ts_is_mt (tr_sms t)))"

definition sms_inv :: "sms_net \<Rightarrow> bool" where
  "sms_inv net \<longleftrightarrow> list_all sms_wf (sn_trans net)"

definition others :: "sms_net \<Rightarrow> gsm_trans list" where
  "others net = filter (\<lambda>t. tr_protocol t \<noteq> GSM48_PDISC_SMS) (sn_trans net)"

text \<open>A step that takes the messages \<open>m\<close> over from its caller.\<close>

definition steps_to :: "gsm_sms multiset \<Rightarrow> sms_net \<Rightarrow> sms_net \<Rightarrow> sms_event list \<Rightarrow> bool" where
  "steps_to m net net' ev \<longleftrightarrow>
     in_flight (sn_trans net) + m + fetched ev = in_flight (sn_trans net') + reported ev \<and>
     others net' = others net \<and> (sms_inv net \<longrightarrow> sms_inv net')"

lemma steps_to_trans:
  "steps_to m net net1 ev \<Longrightarrow> steps_to m' net1 net2 ev' \<Longrightarrow> steps_to (m + m') net net2 (ev @ ev')"
  by (simp add: steps_to_def) (metis (no_types, lifting) add.assoc add.commute)

lemma steps_to_trans0:
  "steps_to {#} net net1 ev \<Longrightarrow> steps_to {#} net1 net2 ev' \<Longrightarrow> steps_to {#} net net2 (ev @ ev')"
  using steps_to_trans [of "{#}" net net1 ev "{#}"] by simp

lemma steps_to_refl [simp]: "fetched ev = {#} \<Longrightarrow> reported ev = {#} \<Longrightarrow> steps_to {#} net net ev"
  by (simp add: steps_to_def)

lemma steps_to_Nil [simp]: "steps_to {#} net net []"
  by simp

definition at_sms :: "nat \<Rightarrow> sms_net \<Rightarrow> bool" where
  "at_sms i net \<longleftrightarrow> i < length (sn_trans net) \<and> tr_protocol (sn_trans net ! i) = GSM48_PDISC_SMS"

lemma at_smsD:
  assumes "at_sms i net"
  shows "i < length (sn_trans net)" "tr_protocol (sn_trans net ! i) = GSM48_PDISC_SMS"
  using assms by (simp_all add: at_sms_def)

lemma at_sms_upd [simp]: "at_sms j (upd_sms i f net) \<longleftrightarrow> at_sms j net"
  by (cases "i = j") (auto simp: at_sms_def upd_sms_def)

lemma upd_sms_split:
  assumes "i < length (sn_trans net)"
  obtains xs t ys where "sn_trans net = xs @ t # ys" "sn_trans net ! i = t" "length xs = i"
    "\<forall>f. sn_trans (upd_sms i f net) = xs @ t\<lparr>tr_sms := f (tr_sms t)\<rparr> # ys"
proof -
  obtain xs ys where s: "sn_trans net = xs @ sn_trans net ! i # ys" "length xs = i" using split_nth [OF assms] by blast
  define t where "t = sn_trans net ! i"
  note s' = s(1) [folded t_def]
  have "sn_trans (upd_sms i f net) = xs @ t\<lparr>tr_sms := f (tr_sms t)\<rparr> # ys" for f
    by (simp add: upd_sms_def upd_nth_def s' s(2) [symmetric])
  then show ?thesis using that [OF s' t_def [symmetric] s(2)] by blast
qed

lemma upd_sms_upd_sms [simp]: "upd_sms i f (upd_sms i g net) = upd_sms i (\<lambda>s. f (g s)) net"
  by (cases "i < length (sn_trans net)") (auto simp: upd_sms_def upd_nth_def)

lemma sms_at_upd [simp]:
  "i < length (sn_trans net) \<Longrightarrow> sn_trans (upd_sms i f net) ! i = (sn_trans net ! i)\<lparr>tr_sms := f (tr_sms (sn_trans net ! i))\<rparr>"
  by (simp add: upd_sms_def)

text \<open>Changing the state of a transaction.\<close>

lemma steps_to_upd:
  assumes "at_sms i net" "\<And>s. ts_sms (f s) = ts_sms s" "\<And>s. ts_is_mt (f s) = ts_is_mt s"
    "\<And>s. ts_cp_state (f s) = GSM411_CPS_WAIT_CP_ACK \<Longrightarrow> ts_cp_timer (f s) \<or> ts_cp_state s = GSM411_CPS_WAIT_CP_ACK \<and> ts_cp_timer (f s) = ts_cp_timer s"
  shows "steps_to {#} net (upd_sms i f net) []"
proof -
  obtain xs t ys where s: "sn_trans net = xs @ t # ys" "sn_trans net ! i = t" "length xs = i"
      "\<forall>f. sn_trans (upd_sms i f net) = xs @ t\<lparr>tr_sms := f (tr_sms t)\<rparr> # ys"
    by (rule upd_sms_split [OF at_smsD(1) [OF assms(1)]])
  note s4 = s(4) [rule_format]
  have "tr_protocol t = GSM48_PDISC_SMS" using assms(1) s(2) by (simp add: at_sms_def)
  then show ?thesis using assms(2-4)
    by (auto simp: steps_to_def s(1) s4 in_flight_def others_def sms_inv_def carried_def sms_wf_def split: option.splits)
qed

text \<open>Taking the message out of a transaction, to report it.\<close>

lemma steps_to_take:
  assumes "at_sms i net" "ts_sms (tr_sms (sn_trans net ! i)) = Some sms" "reported ev = {#sms#}" "fetched ev = {#}"
  shows "steps_to {#} net (upd_sms i (\<lambda>s. s\<lparr>ts_sms := None\<rparr>) net) ev"
proof -
  obtain xs t ys where s: "sn_trans net = xs @ t # ys" "sn_trans net ! i = t" "length xs = i"
      "\<forall>f. sn_trans (upd_sms i f net) = xs @ t\<lparr>tr_sms := f (tr_sms t)\<rparr> # ys"
    by (rule upd_sms_split [OF at_smsD(1) [OF assms(1)]])
  note s4 = s(4) [rule_format]
  have "tr_protocol t = GSM48_PDISC_SMS" using assms(1) s(2) by (simp add: at_sms_def)
  then show ?thesis using assms(2-4) s(2)
    by (auto simp: steps_to_def s(1) s4 in_flight_def others_def sms_inv_def carried_def sms_wf_def)
qed

text \<open>Freeing a transaction, also after a change of its state.\<close>

lemma steps_to_free:
  assumes "at_sms i net" "\<And>s. ts_sms (f s) = ts_sms s" "sms_trans_free i (upd_sms i f net) = (net', ev)"
  shows "steps_to {#} net net' ev"
proof -
  obtain xs t ys where s: "sn_trans net = xs @ t # ys" "sn_trans net ! i = t" "length xs = i"
      "\<forall>f. sn_trans (upd_sms i f net) = xs @ t\<lparr>tr_sms := f (tr_sms t)\<rparr> # ys"
    by (rule upd_sms_split [OF at_smsD(1) [OF assms(1)]])
  note s4 = s(4) [rule_format]
  have p: "tr_protocol t = GSM48_PDISC_SMS" using assms(1) s(2) by (simp add: at_sms_def)
  have n: "(xs @ u # ys) ! i = u" "take i (xs @ u # ys) @ drop (Suc i) (xs @ u # ys) = xs @ ys" for u
    using s(3) by auto
  have "net' = net\<lparr>sn_trans := xs @ ys\<rparr>" "reported ev = carried t" "fetched ev = {#}"
    using assms(3) p assms(2) [of "tr_sms t"] unfolding sms_trans_free_def trans_free_def s4 n Let_def
    by (auto simp: upd_sms_def gsm411_sms_trans_free_def carried_def split: option.splits)
  then show ?thesis using p by (auto simp: steps_to_def s(1) in_flight_def others_def sms_inv_def carried_def)
qed

lemma steps_to_free0:
  "at_sms i net \<Longrightarrow> sms_trans_free i net = (net', ev) \<Longrightarrow> steps_to {#} net net' ev"
  using steps_to_free [of i net id] by (simp add: upd_sms_def upd_nth_def)

text \<open>A new transaction at the end of the list.\<close>

lemma steps_to_append:
  assumes "sn_trans net' = sn_trans net @ [t]" "tr_protocol t = GSM48_PDISC_SMS" "sms_wf t"
  shows "steps_to (carried t) net net' []"
  using assms by (auto simp: steps_to_def in_flight_def others_def sms_inv_def)

section \<open>Operations\<close>

text \<open>An operation that frees no transaction keeps the positions.\<close>

definition keeps :: "gsm_sms multiset \<Rightarrow> sms_net \<Rightarrow> sms_net \<Rightarrow> sms_event list \<Rightarrow> bool" where
  "keeps m net net' ev \<longleftrightarrow> steps_to m net net' ev \<and> (\<forall>j. at_sms j net \<longrightarrow> at_sms j net')"

lemma keeps_trans: "keeps m net net1 ev \<Longrightarrow> keeps m' net1 net2 ev' \<Longrightarrow> keeps (m + m') net net2 (ev @ ev')"
  unfolding keeps_def by (blast intro: steps_to_trans)

lemma keeps_trans0: "keeps {#} net net1 ev \<Longrightarrow> keeps {#} net1 net2 ev' \<Longrightarrow> keeps {#} net net2 (ev @ ev')"
  using keeps_trans [of "{#}" net net1 ev "{#}"] by simp

lemma keeps_steps: "keeps m net net' ev \<Longrightarrow> steps_to m net net' ev"
  by (simp add: keeps_def)

lemma keeps_event:
  "keeps m net net' ev \<Longrightarrow> fetched1 e = {#} \<Longrightarrow> reported1 e = {#} \<Longrightarrow> keeps m net net' (e # ev)"
  by (simp add: keeps_def steps_to_def)

lemma keeps_refl [simp]: "fetched ev = {#} \<Longrightarrow> reported ev = {#} \<Longrightarrow> keeps {#} net net ev"
  by (simp add: keeps_def)

lemma keeps_cp_sendmsg:
  assumes "at_sms i net" "gsm411_cp_sendmsg env i msg_type msg net = Some (net', ev, rc)"
  shows "keeps {#} net net' ev"
proof -
  obtain e where e: "ev = [e]" "fetched1 e = {#}" "reported1 e = {#}"
    using assms(2) by (auto simp: gsm411_cp_sendmsg_def Let_def split: option.splits)
  have "net' = net \<or> net' = upd_sms i (\<lambda>s. s\<lparr>ts_cp_state := GSM411_CPS_WAIT_CP_ACK, ts_cp_timer := True\<rparr>) net"
    using assms(2) by (auto simp: gsm411_cp_sendmsg_def Let_def split: option.splits if_splits)
  then have "keeps {#} net net' []" using steps_to_upd [OF assms(1)] by (auto simp: keeps_def)
  then show ?thesis unfolding e(1) by (rule keeps_event [OF _ e(2,3)])
qed

lemma keeps_rp_sendmsg:
  "at_sms i net \<Longrightarrow> gsm411_rp_sendmsg env i ty ref msg net = Some (net', ev, rc) \<Longrightarrow> keeps {#} net net' ev"
  unfolding gsm411_rp_sendmsg_def by (rule keeps_cp_sendmsg)

lemma keeps_send_rp_ack:
  "at_sms i net \<Longrightarrow> gsm411_send_rp_ack env i ref net = Some (net', ev, rc) \<Longrightarrow> keeps {#} net net' ev"
  unfolding gsm411_send_rp_ack_def by (rule keeps_rp_sendmsg)

lemma keeps_send_rp_error:
  "at_sms i net \<Longrightarrow> gsm411_send_rp_error env i ref cause net = Some (net', ev, rc) \<Longrightarrow> keeps {#} net net' ev"
  unfolding gsm411_send_rp_error_def by (rule keeps_rp_sendmsg)

lemma keeps_tx_cp_ack:
  assumes "at_sms i net" "gsm411_tx_cp_ack env i net = Some (net', ev, rc)"
  shows "keeps {#} net net' ev"
proof -
  obtain net1 where s: "gsm411_cp_sendmsg env i GSM411_MT_CP_ACK [] net = Some (net1, ev, rc)"
      and n: "net' = net1 \<or> net' = upd_sms i (\<lambda>s. s\<lparr>ts_cp_state := GSM411_CPS_IDLE\<rparr>) net1"
    using assms(2) by (auto simp: gsm411_tx_cp_ack_def split: if_splits)
  have k: "keeps {#} net net1 ev" using assms(1) s by (rule keeps_cp_sendmsg)
  then have "at_sms i net1" using assms(1) by (simp add: keeps_def)
  from steps_to_upd [OF this, of "\<lambda>s. s\<lparr>ts_cp_state := GSM411_CPS_IDLE\<rparr>"]
  have "keeps {#} net1 net' []" using n by (auto simp: keeps_def)
  then show ?thesis using keeps_trans0 [OF k] by fastforce
qed

lemma keeps_upd:
  assumes "at_sms i net" "\<And>s. ts_sms (f s) = ts_sms s" "\<And>s. ts_is_mt (f s) = ts_is_mt s"
    "\<And>s. ts_cp_state (f s) = GSM411_CPS_WAIT_CP_ACK \<Longrightarrow> ts_cp_timer (f s) \<or> ts_cp_state s = GSM411_CPS_WAIT_CP_ACK \<and> ts_cp_timer (f s) = ts_cp_timer s"
  shows "keeps {#} net (upd_sms i f net) []"
  using steps_to_upd [OF assms] by (simp add: keeps_def)

text \<open>The delivery of a message takes it over: it is carried by the new transaction or reported.\<close>

lemma keeps_append:
  assumes "sn_trans net' = sn_trans net @ [t]" "tr_protocol t = GSM48_PDISC_SMS" "sms_wf t"
  shows "keeps (carried t) net net' []"
  using steps_to_append [OF assms] assms(1) by (auto simp: keeps_def at_sms_def nth_append)

lemma assigned_less16:
  assumes "trans_assign_trans_id subscr protocol 0 ts = Some k" "k \<noteq> - 1"
  shows "(of_int k :: u8) < 16"
proof -
  obtain n where "k = int (n mod 7)"
    using assms by (auto simp: trans_assign_trans_id_def Let_def split: option.splits)
  moreover have "n mod 7 < 16" using mod_less_divisor [of 7 n] by linarith
  ultimately show ?thesis by (simp add: word_less_nat_alt unat_of_nat)
qed

lemma keeps_send_sms:
  assumes "gsm411_send_sms env conn sms net = Some (net', ev, rc)"
  shows "keeps {#sms#} net net' ev"
proof -
  obtain subscr k where a: "sv_conn_subscr env conn = Some subscr"
      "trans_assign_trans_id subscr GSM48_PDISC_SMS 0 (sn_trans net) = Some k"
    using assms by (auto simp: gsm411_send_sms_def bind_eq_Some_conv)
  show ?thesis
  proof (cases "k = - 1")
    case True
    then have "net' = net" "ev = [Send_signal S_SMS_UNKNOWN_ERROR (Some sms)]"
      using assms a by (auto simp: gsm411_send_sms_def)
    then show ?thesis by (simp add: keeps_def steps_to_def)
  next
    case False
    define t where "t = \<lparr>tr_protocol = GSM48_PDISC_SMS, tr_transaction_id = of_int k, tr_subscr = subscr, tr_conn = Some conn,
      tr_callref = sn_new_callref net, tr_tch_recv = False, tr_paging_request = None, tr_cc = zero_cc,
      tr_sms = zero_sms\<lparr>ts_is_mt := True, ts_sms := Some sms, ts_link_id := UM_SAPI_SMS\<rparr>\<rparr>"
    define net1 where "net1 = net\<lparr>sn_trans := sn_trans net @ [t], sn_new_callref := sn_new_callref net + 1\<rparr>"
    obtain msg ev1 where s: "gsm411_rp_sendmsg env (length (sn_trans net)) GSM411_MT_RP_DATA_MT 42 msg net1 = Some (net', ev1, rc)"
        "ev = Db_sms_inc_deliver_attempts sms # ev1"
      using assms a False
      by (auto simp: gsm411_send_sms_def bind_eq_Some_conv Let_def trans_alloc_def nth_append net1_def t_def)
    have t: "tr_protocol t = GSM48_PDISC_SMS" "sms_wf t" "carried t = {#sms#}"
      using assigned_less16 [OF a(2) False] by (simp_all add: t_def sms_wf_def carried_def zero_sms_def)
    have k1: "keeps {#sms#} net net1 []" using keeps_append [of net1 net t] t by (simp add: net1_def)
    have "at_sms (length (sn_trans net)) net1" using t(1) by (simp add: at_sms_def net1_def nth_append)
    then have "keeps {#} net1 net' ev1" using s(1) by (rule keeps_rp_sendmsg)
    from keeps_event [OF keeps_trans [OF k1 this]] show ?thesis by (simp add: s(2))
  qed
qed

lemma keeps_send_next:
  assumes "send_next env t net = Some (net', ev, rc)"
  shows "keeps {#} net net' ev"
proof (cases "sv_unsent env (tr_subscr t)")
  case None
  then show ?thesis using assms
    by (auto simp: send_next_def gsm411_release_conn_def split: option.splits)
next
  case (Some sms)
  then obtain c ev1 where s: "gsm411_send_sms env c sms net = Some (net', ev1, rc)" "ev = Db_sms_get_unsent sms # ev1"
    using assms by (auto simp: send_next_def split: option.splits)
  show ?thesis using keeps_send_sms [OF s(1)] s(2) by (simp add: keeps_def steps_to_def)
qed

lemma rx_tpdu_events:
  assumes "gsm340_rx_tpdu env conn buf = Some (ev, rc)"
  shows "fetched ev = {#} \<and> reported ev = {#}"
proof -
  obtain sender p where p: "sv_conn_subscr env conn = Some sender" "gsm340_parse_tpdu (sv_lib env) sender buf = Some p"
    using assms by (auto simp: gsm340_rx_tpdu_def bind_eq_Some_conv)
  then show ?thesis using assms
    by (cases p) (auto simp: gsm340_rx_tpdu_def gsm340_rx_sms_submit_def Let_def split: option.splits if_splits)
qed

lemma keeps_rx_rp_ud:
  assumes "at_sms i net" "gsm411_rx_rp_ud env i ref dst_len tpdu_len tpdu net = Some (net', ev, rc)"
  shows "keeps {#} net net' ev"
proof (cases "dst_len = 0 \<or> tpdu_len = 0")
  case True
  then show ?thesis using assms keeps_send_rp_error [OF assms(1)] by (auto simp: gsm411_rx_rp_ud_def)
next
  case False
  then obtain conn ev1 rc1 where u: "gsm340_rx_tpdu env conn tpdu = Some (ev1, rc1)"
      and r: "(if rc1 = 0 then map_option (\<lambda>(n, e, r). (n, ev1 @ e, r)) (gsm411_send_rp_ack env i ref net)
               else if rc1 > 0 then map_option (\<lambda>(n, e, r). (n, ev1 @ e, r)) (gsm411_send_rp_error env i ref (of_int rc1) net)
               else Some (net, ev1, rc1)) = Some (net', ev, rc)"
    using assms(2) by (auto simp: gsm411_rx_rp_ud_def bind_eq_Some_conv)
  have e: "keeps {#} net net ev1" using rx_tpdu_events [OF u] by simp
  show ?thesis using r e keeps_trans0 [OF e keeps_send_rp_ack [OF assms(1)]]
      keeps_trans0 [OF e keeps_send_rp_error [OF assms(1)]] by (auto split: if_splits)
qed

lemma keeps_rx_rp_data:
  assumes "at_sms i net" "gsm411_rx_rp_data env i ref data net = Some (net', ev, rc)"
  shows "keeps {#} net net' ev"
  using assms(2) keeps_rx_rp_ud [OF assms(1)] by (auto simp: gsm411_rx_rp_data_def bind_eq_Some_conv)

lemma steps_to_rx_rp_ack:
  assumes "at_sms i net" "gsm411_rx_rp_ack env i ref net = Some (net', ev, rc)"
  shows "steps_to {#} net net' ev"
proof (cases "ts_is_mt (tr_sms (sn_trans net ! i)) \<and> ts_sms (tr_sms (sn_trans net ! i)) \<noteq> None")
  case False
  then show ?thesis using assms(2) keeps_steps [OF keeps_send_rp_error [OF assms(1)]]
    by (auto simp: gsm411_rx_rp_ack_def Let_def split: option.splits if_splits)
next
  case True
  then obtain sms where sms: "ts_sms (tr_sms (sn_trans net ! i)) = Some sms" by blast
  let ?n = "upd_sms i (\<lambda>s. s\<lparr>ts_sms := None\<rparr>) net"
  let ?e = "[Db_sms_mark_sent sms, Send_signal S_SMS_DELIVERED (Some sms)]"
  obtain net1 ev1 rc1 ev2 where s: "send_next env (sn_trans net ! i) ?n = Some (net1, ev1, rc1)"
      "sms_trans_free i net1 = (net', ev2)" "ev = ?e @ ev1 @ ev2"
    using assms(2) True sms
    by (cases "sms_trans_free i (fst (the (send_next env (sn_trans net ! i) ?n)))")
       (auto simp: gsm411_rx_rp_ack_def Let_def bind_eq_Some_conv)
  have t: "steps_to {#} net ?n ?e" using assms(1) sms by (rule steps_to_take) simp_all
  have k: "keeps {#} ?n net1 ev1" using s(1) by (rule keeps_send_next)
  then have "at_sms i net1" using assms(1) by (simp add: keeps_def)
  then have "steps_to {#} net1 net' ev2" using s(2) by (rule steps_to_free0)
  then show ?thesis unfolding s(3) by (rule steps_to_trans0 [OF t steps_to_trans0 [OF keeps_steps [OF k]]])
qed

lemma steps_to_rx_rp_error:
  assumes "at_sms i net" "gsm411_rx_rp_error env i data net = Some (net', ev, rc)"
  shows "steps_to {#} net net' ev"
proof (cases "ts_sms (tr_sms (sn_trans net ! i))")
  case None
  then show ?thesis using assms(2) by (auto simp: gsm411_rx_rp_error_def bind_eq_Some_conv)
next
  case (Some sms)
  then obtain sig where "net' = upd_sms i (\<lambda>s. s\<lparr>ts_sms := None\<rparr>) net" "ev = [Send_signal sig (Some sms)]"
      "sig \<in> {S_SMS_MEM_EXCEEDED, S_SMS_UNKNOWN_ERROR}"
    using assms(2) by (auto simp: gsm411_rx_rp_error_def bind_eq_Some_conv split: if_splits)
  then show ?thesis using steps_to_take [OF assms(1) Some, of ev] by auto
qed

lemma keeps_rx_rp_smma:
  assumes "at_sms i net" "gsm411_rx_rp_smma env i ref net = Some (net', ev, rc)"
  shows "keeps {#} net net' ev"
proof -
  let ?n = "upd_sms i (\<lambda>s. s\<lparr>ts_rp_state := GSM411_RPS_IDLE\<rparr>)"
  obtain net1 ev1 rc3 ev3 where s: "gsm411_send_rp_ack env i ref net = Some (net1, ev1, rc)"
      "send_next env (sn_trans (?n net1) ! i) (?n net1) = Some (net', ev3, rc3)"
      "ev = ev1 @ [Send_signal S_SMS_SMMA None] @ ev3"
    using assms(2) by (auto simp: gsm411_rx_rp_smma_def bind_eq_Some_conv Let_def)
  have k1: "keeps {#} net net1 ev1" using assms(1) s(1) by (rule keeps_send_rp_ack)
  then have "at_sms i net1" using assms(1) by (simp add: keeps_def)
  then have k2: "keeps {#} net1 (?n net1) []" by (rule keeps_upd) auto
  have "keeps {#} (?n net1) net' ev3" using s(2) by (rule keeps_send_next)
  then have "keeps {#} (?n net1) net' (Send_signal S_SMS_SMMA None # ev3)" by (rule keeps_event) simp_all
  then show ?thesis using keeps_trans0 [OF keeps_trans0 [OF k1 k2]] unfolding s(3) by simp
qed

lemma steps_to_rx_cp_data:
  assumes "at_sms i net" "gsm411_rx_cp_data env i data net = Some (net', ev, rc)"
  shows "steps_to {#} net net' ev"
proof -
  let ?n = "upd_sms i (\<lambda>s. s\<lparr>ts_rp_state := GSM411_RPS_WAIT_TO_TX_RP_ACK\<rparr>) net"
  have u: "steps_to {#} net ?n []" using assms(1) by (rule steps_to_upd) auto
  have a: "at_sms i ?n" using assms(1) by simp
  obtain ref where c: "gsm411_rx_rp_data env i ref (drop 3 data) ?n = Some (net', ev, rc) \<or>
      gsm411_rx_rp_ack env i ref net = Some (net', ev, rc) \<or> gsm411_rx_rp_smma env i ref ?n = Some (net', ev, rc) \<or>
      gsm411_rx_rp_error env i (drop 3 data) net = Some (net', ev, rc) \<or>
      gsm411_send_rp_error env i ref GSM411_RP_CAUSE_MSGTYPE_NOTEXIST net = Some (net', ev, rc)"
    using assms(2) by (auto simp: gsm411_rx_cp_data_def bind_eq_Some_conv Let_def split: if_splits)
  then show ?thesis
  proof (elim disjE)
    assume "gsm411_rx_rp_data env i ref (drop 3 data) ?n = Some (net', ev, rc)"
    then show ?thesis using steps_to_trans0 [OF u keeps_steps [OF keeps_rx_rp_data [OF a]]] by simp
  next
    assume "gsm411_rx_rp_smma env i ref ?n = Some (net', ev, rc)"
    then show ?thesis using steps_to_trans0 [OF u keeps_steps [OF keeps_rx_rp_smma [OF a]]] by simp
  qed (use steps_to_rx_rp_ack [OF assms(1)] steps_to_rx_rp_error [OF assms(1)] keeps_steps [OF keeps_send_rp_error [OF assms(1)]] in blast)+
qed

section \<open>The list of transactions\<close>

definition at_id :: "nat \<Rightarrow> u8 \<Rightarrow> sms_net \<Rightarrow> bool" where
  "at_id i ti net \<longleftrightarrow> at_sms i net \<and> tr_transaction_id (sn_trans net ! i) = ti"

lemma found_at_id: "trans_find_by_id subscr GSM48_PDISC_SMS ti (sn_trans net) = Some i \<Longrightarrow> at_id i ti net"
  unfolding trans_find_by_id_def by (auto simp: at_id_def at_sms_def dest: find_idx_SomeD)

lemma at_id_free:
  assumes "at_id i ti net" "j < length (sn_trans net)" "j \<noteq> i" "sms_trans_free j (upd_sms j f net) = (net', ev)"
  shows "at_id (if j < i then i - 1 else i) ti net'"
proof -
  have n: "sn_trans net' = take j (sn_trans (upd_sms j f net)) @ drop (Suc j) (sn_trans (upd_sms j f net))"
    using assms(4) by (auto simp: sms_trans_free_def trans_free_def Let_def)
  have "sn_trans net' ! (if j < i then i - 1 else i) = sn_trans (upd_sms j f net) ! i"
    using assms(1-3) by (auto simp: n nth_append at_id_def at_sms_def min_def)
  also have "\<dots> = sn_trans net ! i" using assms(3) by (simp add: upd_sms_def)
  moreover have "(if j < i then i - 1 else i) < length (sn_trans net')"
    using assms(1-3) by (auto simp: n at_id_def at_sms_def)
  ultimately show ?thesis using assms(1) unfolding at_id_def at_sms_def by metis
qed

lemma implicit_cp_acks_steps:
  "at_id i ti net \<Longrightarrow> implicit_cp_acks subscr ti ks i net = (net', i', ev) \<Longrightarrow> steps_to {#} net net' ev \<and> at_id i' ti net'"
proof (induction subscr ti ks i net arbitrary: net' i' ev rule: implicit_cp_acks.induct)
  case (2 subscr ti k ks i net)
  show ?case
  proof (cases "k = ti \<or> trans_find_by_id subscr GSM48_PDISC_SMS k (sn_trans net) = None")
    case True
    then have "implicit_cp_acks subscr ti ks i net = (net', i', ev)" using 2(5) by (auto split: if_splits)
    then show ?thesis using True 2(1) [OF _ 2(4)] 2(2) [OF _ _ 2(4)] by (cases "k = ti") simp_all
  next
    case False
    then obtain j where j: "k \<noteq> ti" "trans_find_by_id subscr GSM48_PDISC_SMS k (sn_trans net) = Some j" by auto
    let ?f = "\<lambda>s. s\<lparr>ts_cp_timer := False, ts_cp_state := GSM411_CPS_IDLE\<rparr>"
    obtain net1 ev1 where f: "sms_trans_free j (upd_sms j ?f net) = (net1, ev1)" by fastforce
    obtain ev2 where r: "implicit_cp_acks subscr ti ks (if j < i then i - 1 else i) net1 = (net', i', ev2)" "ev = ev1 @ ev2"
      using 2(5) j f by (auto simp: Let_def split: prod.splits)
    have a: "at_sms j net" "j \<noteq> i" using found_at_id [OF j(2)] j(1) 2(4) by (auto simp: at_id_def)
    have s: "steps_to {#} net net1 ev1" by (rule steps_to_free [OF a(1) _ f]) simp
    have "at_id (if j < i then i - 1 else i) ti net1" using at_id_free [OF 2(4) _ a(2) f] a(1) by (simp add: at_sms_def)
    from 2(3) [OF j(1,2) f [symmetric] refl this r(1)] show ?thesis using steps_to_trans0 [OF s] r(2) by blast
  qed
qed auto

lemma sms_find_trans_steps:
  assumes "sms_find_trans conn subscr ti net = (net', i)" "ti < 16"
  shows "steps_to {#} net net' [] \<and> at_id i ti net'"
proof (cases "trans_find_by_id subscr GSM48_PDISC_SMS ti (sn_trans net)")
  case None
  then obtain t where t: "sn_trans net' = sn_trans net @ [t]" "i = length (sn_trans net)" "tr_transaction_id t = ti"
      "tr_protocol t = GSM48_PDISC_SMS" "sms_wf t" "carried t = {#}"
    using assms by (auto simp: sms_find_trans_def trans_alloc_def Let_def nth_append sms_wf_def carried_def zero_sms_def)
  then show ?thesis using steps_to_append [OF t(1,4,5)] by (simp add: at_id_def at_sms_def nth_append)
next
  case (Some j)
  then show ?thesis using assms found_at_id by (auto simp: sms_find_trans_def)
qed

lemma ti_less_16: "drop_bit 4 (pd :: u8) XOR 8 < 16"
proof -
  have "drop_bit 4 pd XOR 8 = drop_bit 4 ((pd AND 0xf0) XOR 0x80)"
    by (rule u8_eqI) (auto simp: bit_simps elim!: less8_cases)
  then show ?thesis using ti_bound by simp
qed

lemma previous_acked:
  assumes "at_id i ti net" "(if P then implicit_cp_acks subscr ti ks i net else (net, i, [])) = (net1, i1, ev1)"
  shows "steps_to {#} net net1 ev1 \<and> at_id i1 ti net1"
  using assms implicit_cp_acks_steps [OF assms(1)] by (auto split: if_splits)

lemma rcv_cp_data_steps:
  assumes "at_id i ti net"
    "(if ts_cp_state (tr_sms (sn_trans net ! i)) = GSM411_CPS_IDLE
      then implicit_cp_acks subscr ti ks i net else (net, i, [])) = (net1, i1, ev1)"
    "gsm411_tx_cp_ack env i1 (upd_sms i1 (\<lambda>s. s\<lparr>ts_cp_state := GSM411_CPS_MM_ESTABLISHED\<rparr>) net1) = Some (net2, ev2, rc2)"
    "gsm411_rx_cp_data env i1 data net2 = Some (net3, ev3, rc3)"
  shows "steps_to {#} net net3 (ev1 @ ev2 @ ev3)"
proof -
  have 1: "steps_to {#} net net1 ev1 \<and> at_id i1 ti net1"
    by (rule previous_acked [OF assms(1,2)])
  then have a: "at_sms i1 net1" by (simp add: at_id_def)
  let ?n = "upd_sms i1 (\<lambda>s. s\<lparr>ts_cp_state := GSM411_CPS_MM_ESTABLISHED\<rparr>) net1"
  have 2: "steps_to {#} net1 ?n []" using a by (rule steps_to_upd) auto
  have 3: "keeps {#} ?n net2 ev2" using keeps_tx_cp_ack [OF _ assms(3)] a by simp
  then have "at_sms i1 net2" using a by (simp add: keeps_def)
  then have 4: "steps_to {#} net2 net3 ev3" using assms(4) by (rule steps_to_rx_cp_data)
  show ?thesis
    using steps_to_trans0 [OF conjunct1 [OF 1] steps_to_trans0 [OF steps_to_trans0 [OF 2 keeps_steps [OF 3]] 4]] by simp
qed

lemma rcv_sms_steps:
  assumes "gsm0411_rcv_sms env conn pd msg_type data net = Some (net', ev, rc)"
  shows "steps_to {#} net net' ev"
proof (cases "sv_conn_subscr env conn")
  case None
  then show ?thesis using assms by (simp add: gsm0411_rcv_sms_def)
next
  case (Some subscr)
  define ti where "ti = drop_bit 4 pd XOR 8"
  obtain net0 i where f: "sms_find_trans conn subscr ti net = (net0, i)" by fastforce
  have 0: "steps_to {#} net net0 []" "at_id i ti net0" using sms_find_trans_steps [OF f] ti_less_16 by (simp_all add: ti_def)
  then have a: "at_sms i net0" by (simp add: at_id_def)
  note d = assms [unfolded gsm0411_rcv_sms_def Let_def Some option.case ti_def [symmetric] f prod.case]
  have "steps_to {#} net0 net' ev"
  proof (cases "msg_type = GSM411_MT_CP_DATA")
    case True
    let ?r = "if ts_cp_state (tr_sms (sn_trans net0 ! i)) = GSM411_CPS_IDLE
      then implicit_cp_acks subscr ti [8, 9, 10, 11, 12, 13, 14] i net0 else (net0, i, [])"
    obtain net1 i1 ev1 where r: "?r = (net1, i1, ev1)" by (cases ?r)
    obtain net2 ev2 rc2 ev3
      where s: "gsm411_tx_cp_ack env i1 (upd_sms i1 (\<lambda>s. s\<lparr>ts_cp_state := GSM411_CPS_MM_ESTABLISHED\<rparr>) net1) = Some (net2, ev2, rc2)"
        "gsm411_rx_cp_data env i1 data net2 = Some (net', ev3, rc)" "ev = ev1 @ ev2 @ ev3"
      using d unfolding True r by (auto simp: bind_eq_Some_conv)
    show ?thesis unfolding s(3) by (rule rcv_cp_data_steps [OF 0(2) r s(1,2)])
  next
    case False
    let ?err = "gsm411_tx_cp_error env i GSM411_CP_CAUSE_MSGTYPE_NOTEXIST net0"
    consider "msg_type = GSM411_MT_CP_ACK" | "msg_type = GSM411_MT_CP_ERROR"
      | "msg_type \<notin> {GSM411_MT_CP_DATA, GSM411_MT_CP_ACK, GSM411_MT_CP_ERROR}" using False by auto
    then show ?thesis
    proof cases
      case 1
      let ?f = "\<lambda>s. s\<lparr>ts_cp_state := GSM411_CPS_MM_ESTABLISHED, ts_cp_timer := False\<rparr>"
      have "steps_to {#} net0 (upd_sms i ?f net0) []" using a by (rule steps_to_upd) auto
      then show ?thesis using d 1 steps_to_free [OF a, of "\<lambda>s. (?f s)\<lparr>ts_cp_state := GSM411_CPS_IDLE\<rparr>" net' ev]
        by (auto split: if_splits prod.splits)
    next
      case 2
      then show ?thesis
        using d steps_to_free [OF a, of "\<lambda>s. s\<lparr>ts_cp_timer := False, ts_cp_state := GSM411_CPS_IDLE\<rparr>" net' ev]
        by (auto split: prod.splits)
    next
      case 3
      then obtain net1 ev1 rc1 where e: "?err = Some (net1, ev1, rc1)" using d by (cases ?err) auto
      obtain n ev2 where f: "sms_trans_free i (upd_sms i (\<lambda>s. s\<lparr>ts_cp_state := GSM411_CPS_IDLE\<rparr>) net1) = (n, ev2)"
        by fastforce
      have s: "?err = Some (net1, ev1, rc)" "sms_trans_free i (upd_sms i (\<lambda>s. s\<lparr>ts_cp_state := GSM411_CPS_IDLE\<rparr>) net1) = (net', ev2)"
          "ev = ev1 @ ev2" using d 3 e f by simp_all
      have k: "keeps {#} net0 net1 ev1" using keeps_cp_sendmsg [OF a] s(1) by (simp add: gsm411_tx_cp_error_def)
      then have "at_sms i net1" using a by (simp add: keeps_def)
      from steps_to_free [OF this _ s(2)] have "steps_to {#} net1 net' ev2" by simp
      then show ?thesis unfolding s(3) by (rule steps_to_trans0 [OF keeps_steps [OF k]])
    qed
  qed
  then show ?thesis using steps_to_trans0 [OF 0(1)] by simp
qed

lemma sapi_n_reject_loop_steps:
  "sapi_n_reject_loop conn i net = Some (net', ev) \<Longrightarrow> steps_to {#} net net' ev"
proof (induction conn i net arbitrary: net' ev rule: sapi_n_reject_loop.induct)
  case (1 conn i net)
  note d = 1(4) [unfolded sapi_n_reject_loop.simps [of conn i net] Let_def]
  show ?case
  proof (cases "i < length (sn_trans net) \<and> tr_conn (sn_trans net ! i) = Some conn \<and>
      ts_sms (tr_sms (sn_trans net ! i)) \<noteq> None")
    case False
    then have "net' = net \<and> ev = [] \<or> i < length (sn_trans net) \<and> sapi_n_reject_loop conn (Suc i) net = Some (net', ev)"
      using d by (auto split: if_splits option.splits)
    then show ?thesis using 1(1,2) False d by (auto split: if_splits)
  next
    case True
    then obtain sms where sms: "ts_sms (tr_sms (sn_trans net ! i)) = Some sms" by blast
    let ?n = "upd_sms i (\<lambda>s. s\<lparr>ts_sms := None\<rparr>) net"
    obtain net1 ev1 where f: "sms_trans_free i ?n = (net1, ev1)" by fastforce
    have a: "at_sms i net" using d True by (auto simp: at_sms_def split: if_splits)
    obtain ev2 where r: "sapi_n_reject_loop conn i net1 = Some (net', ev2)"
        "ev = [Send_signal S_SMS_UNKNOWN_ERROR (Some sms)] @ ev1 @ ev2"
      using d True sms f a by (auto simp: at_sms_def)
    have "steps_to {#} net ?n [Send_signal S_SMS_UNKNOWN_ERROR (Some sms)]" using a sms by (rule steps_to_take) simp_all
    moreover have "steps_to {#} ?n net1 ev1" using f by (intro steps_to_free0 [of i]) (simp_all add: a)
    moreover have "steps_to {#} net1 net' ev2"
      using 1(3) [OF _ refl _ _ sms f [symmetric] refl r(1)] True a by (simp add: at_sms_def)
    ultimately show ?thesis unfolding r(2) by (blast intro: steps_to_trans0)
  qed
qed

section \<open>Inputs\<close>

datatype sms_input =
    Rcv_sms nat u8 u8 "u8 list"
  | Cp_timer_expired nat
  | Paging_cb gsm_paging_event "nat option" gsm_sms
  | Send_sms nat gsm_sms
  | Sapi_n_reject nat

fun sms_input_step :: "sms_env \<Rightarrow> sms_input \<Rightarrow> sms_net \<Rightarrow> sms_out" where
  "sms_input_step env (Rcv_sms conn pd msg_type data) net = gsm0411_rcv_sms env conn pd msg_type data net"
| "sms_input_step env (Cp_timer_expired i) net = (let (net', ev) = cp_timer_expired i net in Some (net', ev, 0))"
| "sms_input_step env (Paging_cb event conn sms) net = paging_cb_send_sms env event conn sms net"
| "sms_input_step env (Send_sms subscr sms) net = gsm411_send_sms_subscr env subscr sms net"
| "sms_input_step env (Sapi_n_reject conn) net = gsm411_sapi_n_reject env conn net"

text \<open>The message an input hands over.\<close>

fun handed :: "sms_input \<Rightarrow> gsm_sms multiset" where
  "handed (Paging_cb event conn sms) = {#sms#}"
| "handed (Send_sms subscr sms) = {#sms#}"
| "handed _ = {#}"

fun timer_runs :: "sms_input \<Rightarrow> sms_net \<Rightarrow> bool" where
  "timer_runs (Cp_timer_expired i) net \<longleftrightarrow> at_sms i net \<and> ts_cp_timer (tr_sms (sn_trans net ! i))"
| "timer_runs _ net \<longleftrightarrow> True"

lemma sms_input_steps:
  assumes "timer_runs inp net" "sms_input_step env inp net = Some (net', ev, rc)"
  shows "steps_to (handed inp) net net' ev"
proof (cases inp)
  case (Rcv_sms conn pd msg_type data)
  then show ?thesis using assms(2) rcv_sms_steps by simp
next
  case (Cp_timer_expired i)
  then have "sms_trans_free i (upd_sms i (\<lambda>s. s\<lparr>ts_cp_timer := False\<rparr>) net) = (net', ev)"
    using assms(2) by (auto simp: cp_timer_expired_def split: prod.splits)
  from steps_to_free [OF _ _ this] show ?thesis using assms(1) Cp_timer_expired by simp
next
  case (Paging_cb event conn sms)
  then show ?thesis using assms(2) keeps_steps [OF keeps_send_sms]
    by (fastforce simp: paging_cb_send_sms_def steps_to_def split: if_splits option.splits)
next
  case (Send_sms subscr sms)
  then show ?thesis using assms(2) keeps_steps [OF keeps_send_sms]
    by (auto simp: gsm411_send_sms_subscr_def steps_to_def split: option.splits)
next
  case (Sapi_n_reject conn)
  then obtain ev1 subscr where s: "sapi_n_reject_loop conn 0 net = Some (net', ev1)"
      "ev = ev1 @ [Sms_put_channel subscr, Sms_trans_event (Subscr_put subscr)]"
    using assms(2) by (auto simp: gsm411_sapi_n_reject_def split: option.splits)
  from sapi_n_reject_loop_steps [OF s(1)] show ?thesis using Sapi_n_reject by (simp add: steps_to_def s(2))
qed

definition sms_init :: sms_net where
  "sms_init = \<lparr>sn_trans = [], sn_new_callref = 0x40000001\<rparr>"

text \<open>Between the inputs the other protocols change the list; they may also free transactions of the short message
  service, with their connection.\<close>

inductive sms_reachable :: "sms_net \<Rightarrow> bool" where
  init: "sms_reachable sms_init"
| input: "sms_reachable net \<Longrightarrow> timer_runs inp net \<Longrightarrow> sms_input_step env inp net = Some (net', ev, rc) \<Longrightarrow> sms_reachable net'"
| other: "sms_reachable net \<Longrightarrow>
    list_all (\<lambda>t. tr_protocol t = GSM48_PDISC_SMS \<longrightarrow> t \<in> set (sn_trans net)) ts \<Longrightarrow> sms_reachable (net\<lparr>sn_trans := ts\<rparr>)"

lemma sms_reachable_inv: "sms_reachable net \<Longrightarrow> sms_inv net"
proof (induction rule: sms_reachable.induct)
  case init
  show ?case by (simp add: sms_inv_def sms_init_def)
next
  case (input net inp env net' ev rc)
  then show ?case using sms_input_steps [OF input(2,3)] by (simp add: steps_to_def)
next
  case (other net ts)
  then show ?case by (auto simp: sms_inv_def list_all_iff sms_wf_def)
qed

section \<open>Every input is processed\<close>

definition sms_ok :: "sms_net \<Rightarrow> bool" where
  "sms_ok net \<longleftrightarrow> sms_inv net \<and> tids_ok (others net)"

lemma sms_ok_steps: "steps_to m net net' ev \<Longrightarrow> sms_ok net \<Longrightarrow> sms_ok net'"
  by (simp add: sms_ok_def steps_to_def)

lemma sms_ok_tids: "sms_ok net \<Longrightarrow> tids_ok (sn_trans net)"
  by (auto simp: sms_ok_def sms_inv_def list_all_iff sms_wf_def tids_ok_def others_def)

lemma sms_ok_conn: "sms_ok net \<Longrightarrow> at_sms i net \<Longrightarrow> \<exists>c. tr_conn (sn_trans net ! i) = Some c"
  by (auto simp: sms_ok_def sms_inv_def at_sms_def sms_wf_def dest: list_all_nth)

definition sms_env_ok :: "sms_env \<Rightarrow> bool" where
  "sms_env_ok env \<longleftrightarrow> (\<forall>conn. sv_conn_subscr env conn \<noteq> None) \<and>
     (\<forall>s sms. sv_unsent env s = Some sms \<longrightarrow> sms_sender sms \<noteq> None)"

lemma sms_env_okD: "sms_env_ok env \<Longrightarrow> \<exists>s. sv_conn_subscr env conn = Some s"
  by (simp add: sms_env_ok_def)

lemma returns_cp_sendmsg: "sms_ok net \<Longrightarrow> at_sms i net \<Longrightarrow> \<exists>net' ev rc. gsm411_cp_sendmsg env i ty msg net = Some (net', ev, rc)"
  using sms_ok_conn by (fastforce simp: gsm411_cp_sendmsg_def Let_def)

lemmas send_defs = gsm411_send_rp_ack_def gsm411_send_rp_error_def gsm411_rp_sendmsg_def gsm411_tx_cp_error_def

lemma returns_send:
  assumes "sms_ok net" "at_sms i net"
  shows "\<exists>net' ev rc. gsm411_rp_sendmsg env i ty ref msg net = Some (net', ev, rc)"
    "\<exists>net' ev rc. gsm411_send_rp_ack env i ref net = Some (net', ev, rc)"
    "\<exists>net' ev rc. gsm411_send_rp_error env i ref cause net = Some (net', ev, rc)"
    "\<exists>net' ev rc. gsm411_tx_cp_ack env i net = Some (net', ev, rc)"
    "\<exists>net' ev rc. gsm411_tx_cp_error env i cause net = Some (net', ev, rc)"
  using returns_cp_sendmsg [OF assms] by (fastforce simp: send_defs gsm411_tx_cp_ack_def)+

lemma returns_send_sms:
  assumes "sms_ok net" "sms_env_ok env" "sms_sender sms \<noteq> None"
  shows "\<exists>net' ev rc. gsm411_send_sms env conn sms net = Some (net', ev, rc)"
proof -
  obtain subscr where s: "sv_conn_subscr env conn = Some subscr" using sms_env_okD [OF assms(2)] by blast
  obtain sender where d: "sms_sender sms = Some sender" using assms(3) by blast
  obtain k where k: "trans_assign_trans_id subscr GSM48_PDISC_SMS 0 (sn_trans net) = Some k"
    using trans_assign_cases [OF sms_ok_tids [OF assms(1)]] by blast
  show ?thesis
    by (cases "k = - 1") (simp_all add: gsm411_send_sms_def s d k Let_def trans_alloc_def nth_append
        gsm411_rp_sendmsg_def gsm411_cp_sendmsg_def)
qed

lemma returns_send_next:
  assumes "sms_ok net" "sms_env_ok env" "tr_conn t = Some c"
  shows "\<exists>net' ev rc. send_next env t net = Some (net', ev, rc)"
proof (cases "sv_unsent env (tr_subscr t)")
  case None
  then show ?thesis by (simp add: send_next_def)
next
  case (Some sms)
  then have "sms_sender sms \<noteq> None" using assms(2) by (auto simp: sms_env_ok_def)
  from returns_send_sms [OF assms(1,2) this, of c] show ?thesis using Some assms(3) by (auto simp: send_next_def)
qed

text \<open>Whether a message is complete: the octets that the code reads without looking at the length are there.\<close>

definition tpdu_complete :: "sms_env \<Rightarrow> u8 list \<Rightarrow> bool" where
  "tpdu_complete env buf \<longleftrightarrow> gsm340_parse_tpdu (sv_lib env) 0 buf \<noteq> None"

definition rp_data_complete :: "sms_env \<Rightarrow> u8 list \<Rightarrow> bool" where
  "rp_data_complete env data \<longleftrightarrow>
     do { src_len \<leftarrow> rd data 0; dst_len \<leftarrow> rd data (1 + unat src_len);
          rpud_len \<leftarrow> rd data (1 + unat src_len + 1 + unat dst_len);
          Some (dst_len = 0 \<or> rpud_len = 0 \<or> tpdu_complete env (drop (1 + unat src_len + 1 + unat dst_len + 1) data)) } = Some True"

fun sms_complete :: "sms_env \<Rightarrow> u8 \<Rightarrow> u8 list \<Rightarrow> bool" where
  "sms_complete env msg_type data \<longleftrightarrow> (msg_type = GSM411_MT_CP_DATA \<longrightarrow>
     3 \<le> length data \<and>
     (data ! 1 AND 0x07 = GSM411_MT_RP_DATA_MO \<longrightarrow> rp_data_complete env (drop 3 data)) \<and>
     (data ! 1 AND 0x07 = GSM411_MT_RP_ERROR_MO \<longrightarrow> 5 \<le> length data))"

lemma bind_None_cong:
  "(\<And>x. a = Some x \<Longrightarrow> f x = None \<longleftrightarrow> g x = None) \<Longrightarrow> Option.bind a f = None \<longleftrightarrow> Option.bind a g = None"
  by (cases a) auto

lemma parse_tpdu_sender: "gsm340_parse_tpdu lib s buf = None \<longleftrightarrow> gsm340_parse_tpdu lib s' buf = None"
  unfolding gsm340_parse_tpdu_def Let_def
  by ((rule bind_None_cong)+, simp split: if_splits, (intro conjI impI)?, (rule bind_None_cong)+) 
     (simp split: option.splits, intro conjI allI impI, (rule bind_None_cong)+, simp)

lemma returns_rx_rp_data:
  assumes "sms_ok net" "at_sms i net" "sms_env_ok env" "rp_data_complete env data"
  shows "\<exists>net' ev rc. gsm411_rx_rp_data env i ref data net = Some (net', ev, rc)"
proof -
  obtain a b c where r: "rd data 0 = Some a" "rd data (1 + unat a) = Some b" "rd data (1 + unat a + 1 + unat b) = Some c"
      "b = 0 \<or> c = 0 \<or> tpdu_complete env (drop (1 + unat a + 1 + unat b + 1) data)"
    using assms(4) by (auto simp: rp_data_complete_def bind_eq_Some_conv)
  define buf where "buf = drop (1 + unat a + 1 + unat b + 1) data"
  obtain conn where conn: "tr_conn (sn_trans net ! i) = Some conn" using sms_ok_conn [OF assms(1,2)] by blast
  obtain sender where sender: "sv_conn_subscr env conn = Some sender" using sms_env_okD [OF assms(3)] by blast
  have "\<exists>net' ev rc. gsm411_rx_rp_ud env i ref b c buf net = Some (net', ev, rc)"
  proof (cases "b = 0 \<or> c = 0")
    case True
    then show ?thesis using returns_send(3) [OF assms(1,2)] by (fastforce simp: gsm411_rx_rp_ud_def)
  next
    case False
    then have "gsm340_parse_tpdu (sv_lib env) sender buf \<noteq> None"
      using r(4) parse_tpdu_sender [of "sv_lib env" 0 buf sender] unfolding tpdu_complete_def buf_def by metis
    then obtain p where "gsm340_parse_tpdu (sv_lib env) sender buf = Some p" by blast
    then have "gsm340_rx_tpdu env conn buf \<noteq> None" using sender
      by (cases p) (simp_all add: gsm340_rx_tpdu_def Let_def split: option.splits prod.splits)
    then obtain ev1 rc1 where "gsm340_rx_tpdu env conn buf = Some (ev1, rc1)" by fastforce
    then show ?thesis
      using False conn returns_send(2) [OF assms(1,2), of env ref] returns_send(3) [OF assms(1,2), of env ref "of_int rc1"]
      by (auto simp: gsm411_rx_rp_ud_def)
  qed
  then show ?thesis using r by (simp add: gsm411_rx_rp_data_def buf_def)
qed

lemma returns_rx_rp_ack:
  assumes "sms_ok net" "at_sms i net" "sms_env_ok env"
  shows "\<exists>net' ev rc. gsm411_rx_rp_ack env i ref net = Some (net', ev, rc)"
proof (cases "ts_sms (tr_sms (sn_trans net ! i))")
  case None
  then show ?thesis using returns_send(3) [OF assms(1,2)] by (simp add: gsm411_rx_rp_ack_def Let_def)
next
  case (Some sms)
  obtain c where c: "tr_conn (sn_trans net ! i) = Some c" using sms_ok_conn [OF assms(1,2)] by blast
  have "sms_ok (upd_sms i (\<lambda>s. s\<lparr>ts_sms := None\<rparr>) net)"
    by (rule sms_ok_steps [OF steps_to_take [OF assms(2) Some, of "[Send_signal S_SMS_DELIVERED (Some sms)]"] assms(1)]) simp_all
  from returns_send_next [OF this assms(3) c] show ?thesis using Some returns_send(3) [OF assms(1,2), of env ref]
    by (auto simp: gsm411_rx_rp_ack_def Let_def split: prod.splits)
qed

lemma returns_rx_rp_smma:
  assumes "sms_ok net" "at_sms i net" "sms_env_ok env"
  shows "\<exists>net' ev rc. gsm411_rx_rp_smma env i ref net = Some (net', ev, rc)"
proof -
  obtain net1 ev rc where s: "gsm411_send_rp_ack env i ref net = Some (net1, ev, rc)" using returns_send(2) [OF assms(1,2)] by blast
  let ?n = "upd_sms i (\<lambda>s. s\<lparr>ts_rp_state := GSM411_RPS_IDLE\<rparr>) net1"
  have k: "keeps {#} net net1 ev" using assms(2) s by (rule keeps_send_rp_ack)
  then have a: "at_sms i net1" using assms(2) by (simp add: keeps_def)
  have "steps_to {#} net1 ?n []" using a by (rule steps_to_upd) auto
  then have ok: "sms_ok ?n" using sms_ok_steps [OF keeps_steps [OF k] assms(1)] by (rule sms_ok_steps)
  obtain c where "tr_conn (sn_trans ?n ! i) = Some c" using sms_ok_conn [OF ok, of i] a by auto
  from returns_send_next [OF ok assms(3) this] show ?thesis using s by (auto simp: gsm411_rx_rp_smma_def)
qed

lemma returns_rx_cp_data:
  assumes "sms_ok net" "at_sms i net" "sms_env_ok env" "sms_complete env GSM411_MT_CP_DATA data"
  shows "\<exists>net' ev rc. gsm411_rx_cp_data env i data net = Some (net', ev, rc)"
proof -
  let ?n = "upd_sms i (\<lambda>s. s\<lparr>ts_rp_state := GSM411_RPS_WAIT_TO_TX_RP_ACK\<rparr>) net"
  have "steps_to {#} net ?n []" using assms(2) by (rule steps_to_upd) auto
  then have ok: "sms_ok ?n" "at_sms i ?n" using assms(1,2) by (auto intro: sms_ok_steps)
  obtain c where c: "tr_conn (sn_trans net ! i) = Some c" using sms_ok_conn [OF assms(1,2)] by blast
  have r: "rd data (Suc 0) = Some (data ! Suc 0)" "rd data 2 = Some (data ! 2)" using assms(4) by (auto simp: rd_def)
  have e: "data ! 1 AND 7 = 4 \<Longrightarrow> \<exists>net' ev rc. gsm411_rx_rp_error env i (drop 3 data) net = Some (net', ev, rc)"
    using assms(4) c by (auto simp: gsm411_rx_rp_error_def rd_def split: option.splits)
  have u: "data ! 1 AND 7 = 0 \<Longrightarrow> \<exists>net' ev rc. gsm411_rx_rp_data env i (data ! 2) (drop 3 data) ?n = Some (net', ev, rc)"
    using returns_rx_rp_data [OF ok assms(3), of "drop 3 data"] assms(4) by simp
  show ?thesis
    using u e returns_rx_rp_smma [OF ok assms(3), of "data ! 2"] returns_rx_rp_ack [OF assms(1-3), of "data ! 2"]
      returns_send(3) [OF assms(1,2), of env "data ! 2" GSM411_RP_CAUSE_MSGTYPE_NOTEXIST]
    by (simp add: gsm411_rx_cp_data_def r Let_def)
qed

lemma returns_rcv_sms:
  assumes "sms_ok net" "sms_env_ok env" "sms_complete env msg_type data"
  shows "\<exists>net' ev rc. gsm0411_rcv_sms env conn pd msg_type data net = Some (net', ev, rc)"
proof -
  obtain subscr where s: "sv_conn_subscr env conn = Some subscr" using sms_env_okD [OF assms(2)] by blast
  define ti where "ti = drop_bit 4 pd XOR 8"
  obtain net0 i where f: "sms_find_trans conn subscr ti net = (net0, i)" by fastforce
  have 0: "steps_to {#} net net0 []" "at_id i ti net0" using sms_find_trans_steps [OF f] ti_less_16 by (simp_all add: ti_def)
  then have a: "at_sms i net0" "sms_ok net0" using sms_ok_steps [OF _ assms(1)] by (simp_all add: at_id_def)
  note d = gsm0411_rcv_sms_def [of env conn pd msg_type data net, unfolded Let_def s option.case ti_def [symmetric] f prod.case]
  show ?thesis
  proof (cases "msg_type = GSM411_MT_CP_DATA")
    case False
    have "\<exists>net' ev rc. gsm411_tx_cp_error env i GSM411_CP_CAUSE_MSGTYPE_NOTEXIST net0 = Some (net', ev, rc)"
      by (rule returns_send(5) [OF a(2,1)])
    then show ?thesis using False unfolding d by (auto split: prod.splits)
  next
    case True
    let ?r = "if ts_cp_state (tr_sms (sn_trans net0 ! i)) = GSM411_CPS_IDLE
      then implicit_cp_acks subscr ti [8, 9, 10, 11, 12, 13, 14] i net0 else (net0, i, [])"
    obtain net1 i1 ev1 where r: "?r = (net1, i1, ev1)" by (cases ?r)
    have "steps_to {#} net0 net1 ev1 \<and> at_id i1 ti net1"
      by (rule previous_acked [OF 0(2) r])
    then have 1: "at_sms i1 net1" "sms_ok net1" using sms_ok_steps [OF _ a(2)] by (auto simp: at_id_def)
    let ?n = "upd_sms i1 (\<lambda>s. s\<lparr>ts_cp_state := GSM411_CPS_MM_ESTABLISHED\<rparr>) net1"
    have "steps_to {#} net1 ?n []" using 1(1) by (rule steps_to_upd) auto
    then have 2: "at_sms i1 ?n" "sms_ok ?n" using 1 by (auto intro: sms_ok_steps)
    obtain net2 ev2 rc2 where c: "gsm411_tx_cp_ack env i1 ?n = Some (net2, ev2, rc2)" using returns_send(4) [OF 2(2,1)] by blast
    from keeps_tx_cp_ack [OF 2(1) this] have 3: "at_sms i1 net2" "sms_ok net2"
      using 2 by (auto simp: keeps_def intro: sms_ok_steps)
    obtain net3 ev3 rc3 where "gsm411_rx_cp_data env i1 data net2 = Some (net3, ev3, rc3)"
      using returns_rx_cp_data [OF 3(2,1) assms(2), of data] assms(3) True by blast
    then show ?thesis unfolding d r prod.case by (simp add: True c)
  qed
qed

lemma returns_reject_loop:
  "list_all (\<lambda>t. tr_conn t = Some conn \<longrightarrow> tr_protocol t = GSM48_PDISC_SMS) (sn_trans net) \<Longrightarrow>
   \<exists>net' ev. sapi_n_reject_loop conn i net = Some (net', ev)"
proof (induction conn i net rule: sapi_n_reject_loop.induct)
  case (1 conn i net)
  note d = sapi_n_reject_loop.simps [of conn i net]
  show ?case
  proof (cases "i < length (sn_trans net) \<and> tr_conn (sn_trans net ! i) = Some conn \<and> ts_sms (tr_sms (sn_trans net ! i)) \<noteq> None")
    case False
    show ?thesis
    proof (cases "i < length (sn_trans net)")
      case True
      then have p: "tr_conn (sn_trans net ! i) = Some conn \<Longrightarrow> tr_protocol (sn_trans net ! i) = GSM48_PDISC_SMS"
        using list_all_nth [OF 1(4) True] by simp
      have "\<exists>net' ev. sapi_n_reject_loop conn (Suc i) net = Some (net', ev)"
        using 1(1,2) 1(4) False True p by (cases "tr_conn (sn_trans net ! i) = Some conn") auto
      then show ?thesis using True False p by (auto simp: d Let_def split: option.splits)
    qed (simp add: d)
  next
    case True
    then obtain sms where sms: "ts_sms (tr_sms (sn_trans net ! i)) = Some sms" by blast
    have p: "tr_protocol (sn_trans net ! i) = GSM48_PDISC_SMS" using list_all_nth [OF 1(4)] True by blast
    let ?n = "upd_sms i (\<lambda>s. s\<lparr>ts_sms := None\<rparr>) net"
    obtain net1 ev1 where f: "sms_trans_free i ?n = (net1, ev1)" by fastforce
    have "list_all (\<lambda>t. tr_conn t = Some conn \<longrightarrow> tr_protocol t = GSM48_PDISC_SMS) (sn_trans ?n)"
      using 1(4) unfolding upd_sms_def by (auto intro!: list_all_upd_nth)
    moreover have "set (sn_trans net1) \<subseteq> set (sn_trans ?n)"
      using f by (auto simp: sms_trans_free_def trans_free_def Let_def dest: in_set_takeD in_set_dropD)
    ultimately have "\<exists>net' ev. sapi_n_reject_loop conn i net1 = Some (net', ev)"
      using 1(3) [OF _ refl _ _ sms f [symmetric] refl] True p by (auto simp: list_all_iff)
    then show ?thesis using True sms p f by (auto simp: d)
  qed
qed

text \<open>The hypotheses on an input: messages are complete, only running timers expire, a page that succeeds has a connection,
  messages have a sender, and a rejected link for short messages is not that of a call.\<close>

fun sms_input_ok :: "sms_env \<Rightarrow> sms_input \<Rightarrow> sms_net \<Rightarrow> bool" where
  "sms_input_ok env (Rcv_sms conn pd msg_type data) net \<longleftrightarrow> sms_complete env msg_type data"
| "sms_input_ok env (Cp_timer_expired i) net \<longleftrightarrow> timer_runs (Cp_timer_expired i) net"
| "sms_input_ok env (Paging_cb event conn sms) net \<longleftrightarrow> (event = GSM_PAGING_SUCCEEDED \<longrightarrow> conn \<noteq> None) \<and> sms_sender sms \<noteq> None"
| "sms_input_ok env (Send_sms subscr sms) net \<longleftrightarrow> sms_sender sms \<noteq> None"
| "sms_input_ok env (Sapi_n_reject conn) net \<longleftrightarrow>
     list_all (\<lambda>t. tr_conn t = Some conn \<longrightarrow> tr_protocol t = GSM48_PDISC_SMS) (sn_trans net)"

section \<open>Properties\<close>

definition msc_net :: "cc_net \<Rightarrow> sms_net \<Rightarrow> cc_net" where
  "msc_net cc net = cc\<lparr>cn_trans := sn_trans net\<rparr>"

lemma sms_step_other:
  assumes "cc_reachable (msc_net cc net)" "sms_inv net" "steps_to m net net' ev"
  shows "cc_reachable (msc_net cc net')"
proof -
  have inv: "cc_inv (sn_trans net)" using cc_reachable_inv [OF assms(1)] by (simp add: msc_net_def)
  have o: "others net' = others net" and i: "sms_inv net'" using assms(2,3) by (simp_all add: steps_to_def)
  have "filter (\<lambda>t. tr_protocol t = GSM48_PDISC_CC) (others n) = filter (\<lambda>t. tr_protocol t = GSM48_PDISC_CC) (sn_trans n)" for n
    unfolding others_def filter_filter by (rule filter_cong) auto
  then have f: "filter (\<lambda>t. tr_protocol t = GSM48_PDISC_CC) (sn_trans net') = filter (\<lambda>t. tr_protocol t = GSM48_PDISC_CC) (sn_trans net)"
    using o by metis
  have "trans_ok t" if t: "t \<in> set (sn_trans net')" "tr_protocol t \<noteq> GSM48_PDISC_CC" for t
  proof (cases "tr_protocol t = GSM48_PDISC_SMS")
    case True
    then show ?thesis using i t by (auto simp: sms_inv_def list_all_iff sms_wf_def trans_ok_def)
  next
    case False
    then have "t \<in> set (others net')" using t(1) by (simp add: others_def)
    then have "t \<in> set (others net)" unfolding o .
    then show ?thesis using inv by (auto simp: others_def cc_inv_def list_all_iff)
  qed
  then have "list_all (\<lambda>t. tr_protocol t \<noteq> GSM48_PDISC_CC \<longrightarrow> trans_ok t) (sn_trans net')" by (simp add: list_all_iff)
  from cc_reachable.other [OF assms(1) _ this] f show ?thesis by (simp add: msc_net_def)
qed

text \<open>A message being delivered to subscriber 7 on connection 5.\<close>

definition sample_sms :: gsm_sms where
  "sample_sms = sms_alloc\<lparr>sms_id := 17, sms_sender := Some 2, sms_receiver := Some 7\<rparr>"

definition sample_sms_env :: sms_env where
  "sample_sms_env = \<lparr>sv_lib = sample_lib, sv_extension = \<lambda>_. ''4711'', sv_by_extension = \<lambda>_. Some 7, sv_store = \<lambda>_. 0,
     sv_unsent = \<lambda>_. None, sv_connection_for_subscr = \<lambda>_. Some 5, sv_conn_subscr = \<lambda>_. Some 7, sv_rc = \<lambda>_. 0\<rparr>"

definition sample_sms_net :: sms_net where
  "sample_sms_net = fst (the (sms_input_step sample_sms_env (Send_sms 7 sample_sms) sms_init))"

lemma sample_sms_env_ok: "sms_env_ok sample_sms_env"
  by (simp add: sms_env_ok_def sample_sms_env_def)

lemma sample_send: "\<exists>ev rc. sms_input_step sample_sms_env (Send_sms 7 sample_sms) sms_init = Some (sample_sms_net, ev, rc)"
proof -
  have "sms_ok sms_init" by (simp add: sms_ok_def sms_inv_def others_def sms_init_def tids_ok_def)
  from returns_send_sms [OF this sample_sms_env_ok, of sample_sms 5] show ?thesis
    unfolding sample_sms_net_def
    by (auto simp: gsm411_send_sms_subscr_def sample_sms_def) (auto simp: sample_sms_env_def)
qed

lemma sample_sms_reachable: "sms_reachable sample_sms_net"
  using sample_send sms_reachable.input [OF sms_reachable.init, of "Send_sms 7 sample_sms"] by auto

text \<open>The mobile station's RP-ACK for it.\<close>

definition sample_rp_ack :: sms_input where
  "sample_rp_ack = Rcv_sms 5 0x89 GSM411_MT_CP_DATA [2, GSM411_MT_RP_ACK_MO, 42]"

lemma sample_rp_ack_ok: "sms_input_ok sample_sms_env sample_rp_ack sample_sms_net"
  by (simp add: sample_rp_ack_def)

lemma sample_in_flight: "in_flight (sn_trans sample_sms_net) = {#sample_sms#}" "others sample_sms_net = []"
proof -
  obtain ev rc where s: "sms_input_step sample_sms_env (Send_sms 7 sample_sms) sms_init = Some (sample_sms_net, ev, rc)"
    using sample_send by blast
  have "trans_assign_trans_id 7 GSM48_PDISC_SMS 0 [] = Some 0" by code_simp
  then have e: "reported ev = {#}" "fetched ev = {#}" using s
    by (auto simp: gsm411_send_sms_subscr_def gsm411_send_sms_def sample_sms_env_def sample_sms_def sms_init_def
        trans_alloc_def gsm411_rp_sendmsg_def gsm411_cp_sendmsg_def Let_def)
  have "steps_to {#sample_sms#} sms_init sample_sms_net ev" using sms_input_steps [OF _ s] by simp
  then show "in_flight (sn_trans sample_sms_net) = {#sample_sms#}" "others sample_sms_net = []"
    by (simp_all add: steps_to_def e others_def) (simp_all add: sms_init_def in_flight_def)
qed

text \<open>C13: No short message is lost or reported twice: whatever is received, whichever timer expires, whatever becomes of a page and whichever link is rejected, the messages carried by transactions before, together with the one handed over and those fetched from the data base, are those carried by transactions afterwards and those reported as delivered, as not fitting, as failed or as waiting for the paging of their receiver, each exactly once.\<close>

theorem sms_accounted:
  assumes "timer_runs inp net" "sms_input_step env inp net = Some (net', ev, rc)"
  shows "in_flight (sn_trans net) + handed inp + fetched ev = in_flight (sn_trans net') + reported ev"
  using sms_input_steps [OF assms] by (simp add: steps_to_def)

theorem sms_accounted_witness:
  "\<exists>net' ev rc. sms_input_step sample_sms_env sample_rp_ack sample_sms_net = Some (net', ev, rc) \<and>
     {#sample_sms#} + fetched ev = in_flight (sn_trans net') + reported ev"
proof -
  have t: "timer_runs sample_rp_ack sample_sms_net" "handed sample_rp_ack = {#}" by (simp_all add: sample_rp_ack_def)
  have "sms_ok sample_sms_net"
    using sms_reachable_inv [OF sample_sms_reachable] sample_in_flight(2) by (simp add: sms_ok_def tids_ok_def)
  from returns_rcv_sms [OF this sample_sms_env_ok, of GSM411_MT_CP_DATA "[2, GSM411_MT_RP_ACK_MO, 42]" 5 "0x89"]
  obtain net' ev rc where s: "sms_input_step sample_sms_env sample_rp_ack sample_sms_net = Some (net', ev, rc)"
    by (auto simp: sample_rp_ack_def)
  from sms_accounted [OF t(1) s] show ?thesis using s t(2) sample_in_flight(1) by auto
qed



text \<open>The short message service and the call control share the list of transactions without disturbing each other: a step of the short message service leaves every transaction of another protocol as it is, in the same order, and the state of the call control after it is one the call control can be in.\<close>

theorem sms_keeps_calls:
  assumes "cc_reachable (msc_net cc net)" "sms_reachable net" "timer_runs inp net"
    "sms_input_step env inp net = Some (net', ev, rc)"
  shows "others net' = others net \<and> cc_reachable (msc_net cc net')"
proof
  have s: "steps_to (handed inp) net net' ev" by (rule sms_input_steps [OF assms(3,4)])
  then show "others net' = others net" by (simp add: steps_to_def)
  show "cc_reachable (msc_net cc net')" by (rule sms_step_other [OF assms(1) sms_reachable_inv [OF assms(2)] s])
qed

theorem sms_keeps_calls_witness: "cc_reachable (msc_net cc_init sample_sms_net)"
proof -
  have "cc_reachable (msc_net cc_init sms_init)" using cc_reachable.init by (simp add: msc_net_def sms_init_def cc_init_def)
  then show ?thesis using sample_send sms_keeps_calls [OF _ sms_reachable.init, of cc_init "Send_sms 7 sample_sms"] by auto
qed

end
