(* ===== verification/Mobility.thy ===== *)
theory Mobility
  imports Subscriber Transaction
begin

unbundle bit_operations_syntax

text \<open>
  The mobility management of the MSC (\<^verbatim>\<open>src/libmsc/gsm_04_08.c\<close> up to the call control,
  \<^verbatim>\<open>src/libmsc/osmo_msc.c\<close>, \<^verbatim>\<open>src/libmsc/auth.c\<close>, \<^verbatim>\<open>src/libmsc/ussd.c\<close>, \<^verbatim>\<open>src/libmsc/silent_call.c\<close>) on one
  subscriber connection. Subscribers are addresses; what the data base, the library and the radio channel answer
  is \<open>mm_env\<close>. The list of octets of a message starts after its header. A result has the connection, or none when
  it was freed; \<open>None\<close> as a whole is the use of a null pointer, of a freed connection, a read past the message or
  a write past an array.
\<close>

section \<open>Model\<close>

record gsm_loc_updating_operation =
  lo_waiting_for_imsi :: bool
  lo_waiting_for_imei :: bool
  lo_key_seq :: u8
  lo_updating_timer :: bool

record gsm_auth_tuple =
  at_use_count :: int
  at_key_seq :: int
  at_rand :: "u8 list"
  at_sres :: "u8 list"
  at_kc :: "u8 list"

datatype gsm_auth_algo = AUTH_ALGO_NONE | AUTH_ALGO_XOR | AUTH_ALGO_COMP128v1 | AUTH_ALGO_other

record gsm_auth_info =
  ai_auth_algo :: gsm_auth_algo
  ai_ki_len :: nat
  ai_ki :: "u8 list"

text \<open>The callbacks that wait for the channel to be secured; the last is \<^verbatim>\<open>subscr_paging_sec_cb\<close> for a subscriber.\<close>

datatype sec_cb = Authorize_sec_cb | Serv_req_sec_cb | Paging_sec_cb nat

record gsm_security_operation =
  so_atuple :: gsm_auth_tuple
  so_cb :: sec_cb

record mm_conn =
  mc_subscr :: "nat option"
  mc_loc_operation :: "gsm_loc_updating_operation option"
  mc_sec_operation :: "gsm_security_operation option"
  mc_anch_operation :: bool
  mc_silent_call :: bool
  mc_put_channel :: bool
  mc_in_release :: bool

datatype mm_event =
    Mm_submit_dtap "u8 list"
  | Mm_cipher_mode u8 "u8 list"
  | Mm_identity_signal "u8 list"
  | Mm_create_subscriber string
  | Mm_assoc_imei nat string
  | Mm_alloc_tmsi nat
  | Mm_subscr_update nat gsm_subscriber_update_reason
  | Mm_sync_equipment nat "u8 list"
  | Mm_classmark1 nat u8
  | Mm_classmark3 nat "u8 list"
  | Mm_sync_tuple nat gsm_auth_tuple
  | Mm_subscr_put nat
  | Mm_paging_stop nat
  | Mm_paging_sec_cb nat gsm_security_event
  | Mm_siemens_mrpci "u8 list"
  | Mm_apdu_store nat u8 u8 "u8 list"
  | Mm_meas_rep "u8 list"
  | Mm_ho_signal bool
  | Mm_rcv_cc u8 "u8 list"
  | Mm_rcv_sms u8 "u8 list"
  | Mm_gsm0808_clear
  | Mm_put_channel nat
  | Mm_con_free

datatype gsm_auth_policy = GSM_AUTH_POLICY_CLOSED | GSM_AUTH_POLICY_ACCEPT_ALL | GSM_AUTH_POLICY_TOKEN

record mm_env =
  me_auth_policy :: gsm_auth_policy
  me_authorized :: "nat \<Rightarrow> bool"
  me_first_contact :: "nat \<Rightarrow> bool"
  me_a5_encryption :: u8
  me_alg_id :: u8
  me_a5n_support :: "nat \<Rightarrow> bool"
  me_authinfo :: "nat \<Rightarrow> int + gsm_auth_info"
  me_lastauthtuple :: "nat \<Rightarrow> int \<times> gsm_auth_tuple"
  me_random :: "nat \<Rightarrow> u8"
  me_comp128 :: "u8 list \<Rightarrow> u8 list \<Rightarrow> u8 list \<times> u8 list"
  me_by_imsi :: "string \<Rightarrow> nat option"
  me_by_tmsi :: "string \<Rightarrow> nat option"
  me_create :: "string \<Rightarrow> nat option"
  me_mi_to_string :: "u8 list \<Rightarrow> u8 \<Rightarrow> string"
  me_paging_mi :: "u8 list \<Rightarrow> u8 \<times> string"
  me_tmsi_mid :: "nat \<Rightarrow> u8 list"
  me_lai :: "u8 list"
  me_names :: "string option \<times> string option"
  me_7bit :: "string \<Rightarrow> u8 list"
  me_send_mm_info :: bool
  me_reject_cause :: u8
  me_siemens :: bool
  me_data_len :: nat
  me_has_trans :: bool
  me_ussd :: "u8 list \<Rightarrow> string \<times> u8 \<times> u8"
  me_ussd_response :: "u8 \<times> u8 \<Rightarrow> nat option \<Rightarrow> u8 list"
  me_rc :: "mm_event \<Rightarrow> int"

type_synonym mm_out = "(mm_conn option \<times> mm_event list \<times> int) option"

text \<open>Going on with the connection after a call: not possible when the call freed it.\<close>

definition mm_pre :: "mm_event list \<Rightarrow> mm_out \<Rightarrow> mm_out" where
  "mm_pre ev = map_option (\<lambda>(c', ev', rc'). (c', ev @ ev', rc'))"

definition mm_then :: "mm_out \<Rightarrow> (mm_conn \<Rightarrow> int \<Rightarrow> mm_out) \<Rightarrow> mm_out" where
  "mm_then r k =
     (case r of
        Some (Some c, ev, rc) \<Rightarrow> mm_pre ev (k c rc)
      | _ \<Rightarrow> None)"

definition mm_ret :: "mm_conn \<Rightarrow> mm_event list \<Rightarrow> int \<Rightarrow> mm_out" where
  "mm_ret c ev rc = Some (Some c, ev, rc)"

definition mm_rc :: "int \<Rightarrow> mm_out \<Rightarrow> mm_out" where
  "mm_rc rc = map_option (\<lambda>(c, ev, _). (c, ev, rc))"

abbreviation (input) GSM48_PDISC_MM :: u8 where "GSM48_PDISC_MM \<equiv> 0x05"
abbreviation (input) GSM48_PDISC_RR :: u8 where "GSM48_PDISC_RR \<equiv> 0x06"
abbreviation (input) GSM48_PDISC_MM_GPRS :: u8 where "GSM48_PDISC_MM_GPRS \<equiv> 0x08"
abbreviation (input) GSM48_PDISC_SM_GPRS :: u8 where "GSM48_PDISC_SM_GPRS \<equiv> 0x0a"
abbreviation (input) GSM48_PDISC_NC_SS :: u8 where "GSM48_PDISC_NC_SS \<equiv> 0x0b"
abbreviation (input) GSM48_MT_MM_IMSI_DETACH_IND :: u8 where "GSM48_MT_MM_IMSI_DETACH_IND \<equiv> 0x01"
abbreviation (input) GSM48_MT_MM_LOC_UPD_ACCEPT :: u8 where "GSM48_MT_MM_LOC_UPD_ACCEPT \<equiv> 0x02"
abbreviation (input) GSM48_MT_MM_LOC_UPD_REJECT :: u8 where "GSM48_MT_MM_LOC_UPD_REJECT \<equiv> 0x04"
abbreviation (input) GSM48_MT_MM_LOC_UPD_REQUEST :: u8 where "GSM48_MT_MM_LOC_UPD_REQUEST \<equiv> 0x08"
abbreviation (input) GSM48_MT_MM_AUTH_REJ :: u8 where "GSM48_MT_MM_AUTH_REJ \<equiv> 0x11"
abbreviation (input) GSM48_MT_MM_AUTH_REQ :: u8 where "GSM48_MT_MM_AUTH_REQ \<equiv> 0x12"
abbreviation (input) GSM48_MT_MM_AUTH_RESP :: u8 where "GSM48_MT_MM_AUTH_RESP \<equiv> 0x14"
abbreviation (input) GSM48_MT_MM_ID_REQ :: u8 where "GSM48_MT_MM_ID_REQ \<equiv> 0x18"
abbreviation (input) GSM48_MT_MM_ID_RESP :: u8 where "GSM48_MT_MM_ID_RESP \<equiv> 0x19"
abbreviation (input) GSM48_MT_MM_TMSI_REALL_COMPL :: u8 where "GSM48_MT_MM_TMSI_REALL_COMPL \<equiv> 0x1b"
abbreviation (input) GSM48_MT_MM_CM_SERV_ACC :: u8 where "GSM48_MT_MM_CM_SERV_ACC \<equiv> 0x21"
abbreviation (input) GSM48_MT_MM_CM_SERV_REJ :: u8 where "GSM48_MT_MM_CM_SERV_REJ \<equiv> 0x22"
abbreviation (input) GSM48_MT_MM_CM_SERV_REQ :: u8 where "GSM48_MT_MM_CM_SERV_REQ \<equiv> 0x24"
abbreviation (input) GSM48_MT_MM_INFO :: u8 where "GSM48_MT_MM_INFO \<equiv> 0x32"
abbreviation (input) GSM48_MT_RR_CLSM_CHG :: u8 where "GSM48_MT_RR_CLSM_CHG \<equiv> 0x16"
abbreviation (input) GSM48_MT_RR_MEAS_REP :: u8 where "GSM48_MT_RR_MEAS_REP \<equiv> 0x15"
abbreviation (input) GSM48_MT_RR_PAG_RESP :: u8 where "GSM48_MT_RR_PAG_RESP \<equiv> 0x27"
abbreviation (input) GSM48_MT_RR_HANDO_FAIL :: u8 where "GSM48_MT_RR_HANDO_FAIL \<equiv> 0x28"
abbreviation (input) GSM48_MT_RR_HANDO_COMPL :: u8 where "GSM48_MT_RR_HANDO_COMPL \<equiv> 0x2c"
abbreviation (input) GSM48_MT_RR_CIPH_M_COMPL :: u8 where "GSM48_MT_RR_CIPH_M_COMPL \<equiv> 0x32"
abbreviation (input) GSM48_MT_RR_APP_INFO :: u8 where "GSM48_MT_RR_APP_INFO \<equiv> 0x38"
abbreviation (input) GSM48_IE_NAME_LONG :: u8 where "GSM48_IE_NAME_LONG \<equiv> 0x43"
abbreviation (input) GSM48_IE_NAME_SHORT :: u8 where "GSM48_IE_NAME_SHORT \<equiv> 0x45"
abbreviation (input) GSM_MI_TYPE_MASK :: u8 where "GSM_MI_TYPE_MASK \<equiv> 0x07"
abbreviation (input) GSM_MI_TYPE_IMSI :: u8 where "GSM_MI_TYPE_IMSI \<equiv> 0x01"
abbreviation (input) GSM_MI_TYPE_IMEI :: u8 where "GSM_MI_TYPE_IMEI \<equiv> 0x02"
abbreviation (input) GSM_MI_TYPE_IMEISV :: u8 where "GSM_MI_TYPE_IMEISV \<equiv> 0x03"
abbreviation (input) GSM_MI_TYPE_TMSI :: u8 where "GSM_MI_TYPE_TMSI \<equiv> 0x04"
abbreviation (input) GSM48_REJECT_IMSI_UNKNOWN_IN_HLR :: u8 where "GSM48_REJECT_IMSI_UNKNOWN_IN_HLR \<equiv> 2"
abbreviation (input) GSM48_REJECT_INCORRECT_MESSAGE :: u8 where "GSM48_REJECT_INCORRECT_MESSAGE \<equiv> 95"
abbreviation (input) GSM48_REJECT_PROTOCOL_ERROR :: u8 where "GSM48_REJECT_PROTOCOL_ERROR \<equiv> 111"
abbreviation (input) GSM_KEY_SEQ_INVAL :: u8 where "GSM_KEY_SEQ_INVAL \<equiv> 7"
abbreviation (input) AUTH_NOT_AVAIL :: int where "AUTH_NOT_AVAIL \<equiv> 0"
abbreviation (input) AUTH_DO_AUTH_THAN_CIPH :: int where "AUTH_DO_AUTH_THAN_CIPH \<equiv> 1"
abbreviation (input) AUTH_DO_CIPH :: int where "AUTH_DO_CIPH \<equiv> 2"

section \<open>Releasing a connection\<close>

text \<open>\<^verbatim>\<open>msc_release_connection\<close>: nothing as long as an operation, a transaction or a silent call needs the connection.\<close>

definition msc_release_connection :: "mm_env \<Rightarrow> mm_conn \<Rightarrow> mm_out" where
  "msc_release_connection env c =
     (if mc_in_release c \<or> mc_silent_call c \<or> mc_loc_operation c \<noteq> None \<or> mc_sec_operation c \<noteq> None \<or>
         mc_anch_operation c \<or> me_has_trans env
      then mm_ret c [] 0
      else if \<not> mc_put_channel c then Some (None, [Mm_gsm0808_clear, Mm_con_free], 0)
      else case mc_subscr c of
             None \<Rightarrow> None
           | Some s \<Rightarrow> Some (None, [Mm_gsm0808_clear, Mm_put_channel s, Mm_con_free], 0))"

definition release_anchor :: "mm_conn \<Rightarrow> mm_conn" where
  "release_anchor c = c\<lparr>mc_anch_operation := False\<rparr>"

definition release_security_operation :: "mm_env \<Rightarrow> mm_conn \<Rightarrow> mm_out" where
  "release_security_operation env c =
     (if mc_sec_operation c = None then mm_ret c [] 0
      else msc_release_connection env (c\<lparr>mc_sec_operation := None\<rparr>))"

definition release_loc_updating_req :: "mm_env \<Rightarrow> mm_conn \<Rightarrow> mm_out" where
  "release_loc_updating_req env c =
     (if mc_loc_operation c = None then mm_ret c [] 0
      else msc_release_connection env ((release_anchor c)\<lparr>mc_loc_operation := None\<rparr>))"

definition allocate_loc_updating_req :: "mm_env \<Rightarrow> mm_conn \<Rightarrow> mm_out" where
  "allocate_loc_updating_req env c =
     mm_then (release_loc_updating_req env c) (\<lambda>c rc.
       mm_ret (c\<lparr>mc_loc_operation := Some \<lparr>lo_waiting_for_imsi = False, lo_waiting_for_imei = False, lo_key_seq = 0,
                                          lo_updating_timer = False\<rparr>\<rparr>) [] 0)"

section \<open>Messages to the mobile station\<close>

definition mm_send :: "mm_env \<Rightarrow> u8 list \<Rightarrow> mm_conn \<Rightarrow> mm_out" where
  "mm_send env msg c = mm_ret c [Mm_submit_dtap msg] (me_rc env (Mm_submit_dtap msg))"

definition gsm0408_loc_upd_rej :: "mm_env \<Rightarrow> u8 \<Rightarrow> mm_conn \<Rightarrow> mm_out" where
  "gsm0408_loc_upd_rej env cause = mm_send env [GSM48_PDISC_MM, GSM48_MT_MM_LOC_UPD_REJECT, cause]"

definition gsm0408_loc_upd_acc :: "mm_env \<Rightarrow> nat \<Rightarrow> mm_conn \<Rightarrow> mm_out" where
  "gsm0408_loc_upd_acc env subscr =
     mm_send env ([GSM48_PDISC_MM, GSM48_MT_MM_LOC_UPD_ACCEPT] @ me_lai env @ me_tmsi_mid env subscr)"

definition mm_tx_identity_req :: "mm_env \<Rightarrow> u8 \<Rightarrow> mm_conn \<Rightarrow> mm_out" where
  "mm_tx_identity_req env id_type = mm_send env [GSM48_PDISC_MM, GSM48_MT_MM_ID_REQ, id_type]"

text \<open>The length of a name of \<open>n\<close> characters and its spare bits; the difference is one of unsigned 64 bit numbers.\<close>

definition name_len_pad :: "nat \<Rightarrow> nat \<times> nat" where
  "name_len_pad n =
     (let name_len = n * 7 div 8; name_pad = unat ((8 - of_nat n * 7 :: u64) mod 8)
      in (if name_pad > 0 then Suc name_len else name_len, name_pad))"

definition mm_info_name :: "mm_env \<Rightarrow> u8 \<Rightarrow> string option \<Rightarrow> u8 list" where
  "mm_info_name env tag name =
     (case name of
        None \<Rightarrow> []
      | Some s \<Rightarrow>
          (let (len, pad) = name_len_pad (length s)
           in [tag, of_nat len + 1, 0x80 OR of_nat pad] @ take len (me_7bit env s)))"

definition gsm48_tx_mm_info :: "mm_env \<Rightarrow> mm_conn \<Rightarrow> mm_out" where
  "gsm48_tx_mm_info env =
     mm_send env ([GSM48_PDISC_MM, GSM48_MT_MM_INFO] @ mm_info_name env GSM48_IE_NAME_LONG (fst (me_names env)) @
       mm_info_name env GSM48_IE_NAME_SHORT (snd (me_names env)))"

definition gsm48_tx_mm_auth_req :: "mm_env \<Rightarrow> u8 list \<Rightarrow> int \<Rightarrow> mm_conn \<Rightarrow> mm_out" where
  "gsm48_tx_mm_auth_req env rand key_seq =
     mm_send env ([GSM48_PDISC_MM, GSM48_MT_MM_AUTH_REQ, of_int key_seq AND 0x0f] @ rand)"

definition gsm48_tx_mm_auth_rej :: "mm_env \<Rightarrow> mm_conn \<Rightarrow> mm_out" where
  "gsm48_tx_mm_auth_rej env = mm_send env [GSM48_PDISC_MM, GSM48_MT_MM_AUTH_REJ]"

definition gsm48_tx_mm_serv_ack :: "mm_env \<Rightarrow> mm_conn \<Rightarrow> mm_out" where
  "gsm48_tx_mm_serv_ack env = mm_send env [GSM48_PDISC_MM, GSM48_MT_MM_CM_SERV_ACC]"

definition gsm48_tx_mm_serv_rej :: "mm_env \<Rightarrow> u8 \<Rightarrow> mm_conn \<Rightarrow> mm_out" where
  "gsm48_tx_mm_serv_rej env cause = mm_send env [GSM48_PDISC_MM, GSM48_MT_MM_CM_SERV_REJ, cause]"

definition mm_cipher :: "mm_env \<Rightarrow> gsm_auth_tuple \<Rightarrow> mm_conn \<Rightarrow> mm_out" where
  "mm_cipher env atuple c =
     (let ev = Mm_cipher_mode (me_a5_encryption env) (at_kc atuple) in mm_ret c [ev] (me_rc env ev))"

section \<open>Authentication\<close>

abbreviation (input) A38_XOR_MIN_KEY_LEN :: nat where "A38_XOR_MIN_KEY_LEN \<equiv> 12"
abbreviation (input) A38_XOR_MAX_KEY_LEN :: nat where "A38_XOR_MAX_KEY_LEN \<equiv> 16"
abbreviation (input) A38_COMP128_KEY_LEN :: nat where "A38_COMP128_KEY_LEN \<equiv> 16"

definition use_xor :: "gsm_auth_info \<Rightarrow> gsm_auth_tuple \<Rightarrow> gsm_auth_tuple option" where
  "use_xor ainfo atuple =
     (if ai_ki_len ainfo > A38_XOR_MAX_KEY_LEN \<or> ai_ki_len ainfo < A38_XOR_MIN_KEY_LEN then None
      else Some (atuple\<lparr>at_sres := map (\<lambda>i. at_rand atuple ! i XOR ai_ki ainfo ! i) [0..<4],
                        at_kc := map (\<lambda>i. at_rand atuple ! i XOR ai_ki ainfo ! i) [4..<12]\<rparr>))"

definition use_comp128_v1 :: "mm_env \<Rightarrow> gsm_auth_info \<Rightarrow> gsm_auth_tuple \<Rightarrow> gsm_auth_tuple option" where
  "use_comp128_v1 env ainfo atuple =
     (if ai_ki_len ainfo \<noteq> A38_COMP128_KEY_LEN then None
      else (let (sres, kc) = me_comp128 env (ai_ki ainfo) (at_rand atuple) in Some (atuple\<lparr>at_sres := sres, at_kc := kc\<rparr>)))"

definition auth_get_tuple_for_subscr :: "mm_env \<Rightarrow> nat \<Rightarrow> u8 \<Rightarrow> gsm_auth_tuple \<times> mm_event list \<times> int" where
  "auth_get_tuple_for_subscr env subscr key_seq =
     (let (rc, last) = me_lastauthtuple env subscr
      in case me_authinfo env subscr of
           Inl err \<Rightarrow> (last, [], if err = - ENOENT then AUTH_NOT_AVAIL else - 1)
         | Inr ainfo \<Rightarrow>
             (if rc = 0 \<and> key_seq \<noteq> GSM_KEY_SEQ_INVAL \<and> at_use_count last < 3
              then (let t = last\<lparr>at_use_count := at_use_count last + 1\<rparr> in (t, [Mm_sync_tuple subscr t], AUTH_DO_CIPH))
              else
                (let t = last\<lparr>at_use_count := 1, at_key_seq := c_mod (at_key_seq last + 1) 7, at_rand := map (me_random env) [0..<16]\<rparr>;
                     r = (case ai_auth_algo ainfo of
                            AUTH_ALGO_XOR \<Rightarrow> use_xor ainfo t
                          | AUTH_ALGO_COMP128v1 \<Rightarrow> use_comp128_v1 env ainfo t
                          | _ \<Rightarrow> None)
                 in case r of
                      None \<Rightarrow> (t, [], 0)
                    | Some t' \<Rightarrow> (t', [Mm_sync_tuple subscr t'], AUTH_DO_AUTH_THAN_CIPH))))"

section \<open>Securing the channel\<close>

definition authorize_subscriber :: "mm_env \<Rightarrow> gsm_loc_updating_operation option \<Rightarrow> nat option \<Rightarrow> bool" where
  "authorize_subscriber env loc subscriber =
     (case subscriber of
        None \<Rightarrow> False
      | Some s \<Rightarrow>
          (case loc of Some lo \<Rightarrow> \<not> (lo_waiting_for_imsi lo \<or> lo_waiting_for_imei lo) | None \<Rightarrow> True) \<and>
          (case me_auth_policy env of
             GSM_AUTH_POLICY_CLOSED \<Rightarrow> me_authorized env s
           | GSM_AUTH_POLICY_TOKEN \<Rightarrow> me_authorized env s \<or> me_first_contact env s
           | GSM_AUTH_POLICY_ACCEPT_ALL \<Rightarrow> True))"

definition gsm0408_authorize_sec_cb :: "mm_env \<Rightarrow> gsm_security_event \<Rightarrow> mm_conn \<Rightarrow> mm_out" where
  "gsm0408_authorize_sec_cb env event c =
     (if event = GSM_SECURITY_AUTH_FAILED then mm_rc 0 (release_loc_updating_req env c)
      else case mc_subscr c of
             None \<Rightarrow> None
           | Some s \<Rightarrow>
               mm_then (mm_ret c [Mm_alloc_tmsi s] 0) (\<lambda>c _.
               mm_then (gsm0408_loc_upd_acc env s c) (\<lambda>c rc.
               mm_then (if me_send_mm_info env then gsm48_tx_mm_info env c else mm_ret c [] rc) (\<lambda>c rc.
               mm_ret c [Mm_subscr_update s GSM_SUBSCRIBER_UPDATE_ATTACHED] rc))))"

definition gsm48_rx_mm_serv_req_sec_cb :: "mm_env \<Rightarrow> gsm_security_event \<Rightarrow> mm_conn \<Rightarrow> mm_out" where
  "gsm48_rx_mm_serv_req_sec_cb env event c =
     (if event = GSM_SECURITY_NOAVAIL then gsm48_tx_mm_serv_ack env c else mm_ret c [] 0)"

definition call_sec_cb :: "mm_env \<Rightarrow> sec_cb \<Rightarrow> gsm_security_event \<Rightarrow> mm_conn \<Rightarrow> mm_out" where
  "call_sec_cb env cb event c =
     (case cb of
        Authorize_sec_cb \<Rightarrow> gsm0408_authorize_sec_cb env event c
      | Serv_req_sec_cb \<Rightarrow> gsm48_rx_mm_serv_req_sec_cb env event c
      | Paging_sec_cb s \<Rightarrow> (let ev = Mm_paging_sec_cb s event in mm_ret c [ev] (me_rc env ev)))"

definition gsm48_secure_channel :: "mm_env \<Rightarrow> u8 \<Rightarrow> sec_cb \<Rightarrow> mm_conn \<Rightarrow> mm_out" where
  "gsm48_secure_channel env key_seq cb c =
     (if me_a5_encryption env = 0 then call_sec_cb env cb GSM_SECURITY_NOAVAIL c
      else if me_alg_id env > 1 then call_sec_cb env cb GSM_SECURITY_SUCCEEDED c
      else case mc_subscr c of
             None \<Rightarrow> None
           | Some s \<Rightarrow>
               (if \<not> me_a5n_support env s then call_sec_cb env cb GSM_SECURITY_NOAVAIL c
                else (let (atuple, ev, rc) = auth_get_tuple_for_subscr env s key_seq
                      in mm_then (mm_ret c ev 0) (\<lambda>c _.
                           if rc \<le> 0 then call_sec_cb env cb GSM_SECURITY_NOAVAIL c
                           else if mc_sec_operation c \<noteq> None then mm_ret c [] (- EBUSY)
                           else (let c = c\<lparr>mc_sec_operation := Some \<lparr>so_atuple = atuple, so_cb = cb\<rparr>\<rparr>
                                 in if rc = AUTH_DO_AUTH_THAN_CIPH
                                    then gsm48_tx_mm_auth_req env (at_rand atuple) (at_key_seq atuple) c
                                    else if rc = AUTH_DO_CIPH then mm_cipher env atuple c
                                    else mm_ret c [] (- EINVAL))))))"

definition gsm0408_authorize :: "mm_env \<Rightarrow> mm_conn \<Rightarrow> mm_out" where
  "gsm0408_authorize env c =
     (if authorize_subscriber env (mc_loc_operation c) (mc_subscr c)
      then (case mc_loc_operation c of
              None \<Rightarrow> None
            | Some lo \<Rightarrow> gsm48_secure_channel env (lo_key_seq lo) Authorize_sec_cb c)
      else mm_ret c [] 0)"

section \<open>Mobility management messages\<close>

definition upd_loc :: "(gsm_loc_updating_operation \<Rightarrow> gsm_loc_updating_operation) \<Rightarrow> mm_conn \<Rightarrow> mm_conn" where
  "upd_loc f c = c\<lparr>mc_loc_operation := map_option f (mc_loc_operation c)\<rparr>"

text \<open>The subscriber with an identity, created when the data base has none.\<close>

definition get_or_create_imsi :: "mm_env \<Rightarrow> string \<Rightarrow> nat option \<times> mm_event list" where
  "get_or_create_imsi env imsi =
     (case me_by_imsi env imsi of
        Some s \<Rightarrow> (Some s, [])
      | None \<Rightarrow> (me_create env imsi, [Mm_create_subscriber imsi]))"

definition mm_rx_id_resp :: "mm_env \<Rightarrow> u8 list \<Rightarrow> mm_conn \<Rightarrow> mm_out" where
  "mm_rx_id_resp env data c =
     (case (rd data 0, rd data 1) of
        (Some mi_len, Some mi0) \<Rightarrow>
          (let mi_type = mi0 AND GSM_MI_TYPE_MASK;
               mi_string = me_mi_to_string env (drop 1 data) mi_len
           in mm_then (mm_ret c [Mm_identity_signal data] 0) (\<lambda>c _.
              mm_then
                (if mi_type = GSM_MI_TYPE_IMSI
                 then (let (subscr, ev) = (if mc_subscr c = None then get_or_create_imsi env mi_string else (mc_subscr c, []))
                       in mm_ret (upd_loc (\<lambda>lo. lo\<lparr>lo_waiting_for_imsi := False\<rparr>) (c\<lparr>mc_subscr := subscr\<rparr>)) ev 0)
                 else if mi_type = GSM_MI_TYPE_IMEI \<or> mi_type = GSM_MI_TYPE_IMEISV
                 then mm_ret (upd_loc (\<lambda>lo. lo\<lparr>lo_waiting_for_imei := False\<rparr>) c)
                        (case mc_subscr c of None \<Rightarrow> [] | Some s \<Rightarrow> [Mm_assoc_imei s mi_string, Mm_sync_equipment s []]) 0
                 else mm_ret c [] 0)
                (\<lambda>c _. gsm0408_authorize env c)))
      | _ \<Rightarrow> None)"

definition loc_upd_rej_cb :: "mm_env \<Rightarrow> mm_conn \<Rightarrow> mm_out" where
  "loc_upd_rej_cb env c = mm_then (gsm0408_loc_upd_rej env (me_reject_cause env) c) (\<lambda>c _. release_loc_updating_req env c)"

definition schedule_reject :: "mm_conn \<Rightarrow> mm_conn" where
  "schedule_reject = upd_loc (\<lambda>lo. lo\<lparr>lo_updating_timer := True\<rparr>)"

text \<open>The branch on the type of identity in the request: the subscriber that was found, and the identities asked for.\<close>

definition want_identity :: "mm_env \<Rightarrow> u8 \<Rightarrow> (gsm_loc_updating_operation \<Rightarrow> gsm_loc_updating_operation) \<Rightarrow> mm_conn \<Rightarrow> mm_out" where
  "want_identity env id_type f c = mm_then (mm_tx_identity_req env id_type c) (\<lambda>c _. mm_ret (upd_loc f c) [] 0)"

definition loc_upd_identity :: "mm_env \<Rightarrow> u8 \<Rightarrow> string \<Rightarrow> mm_conn \<Rightarrow> nat option \<times> mm_out" where
  "loc_upd_identity env mi_type mi_string c =
     (let want_imei = want_identity env GSM_MI_TYPE_IMEI (\<lambda>lo. lo\<lparr>lo_waiting_for_imei := True\<rparr>)
      in if mi_type = GSM_MI_TYPE_IMSI
         then (let (subscr, ev) = get_or_create_imsi env mi_string
               in (subscr, mm_then (want_imei c) (\<lambda>c _. mm_ret c ev 0)))
         else if mi_type = GSM_MI_TYPE_TMSI
         then (let subscr = me_by_tmsi env mi_string
               in (subscr,
                   mm_then (if subscr = None then want_identity env GSM_MI_TYPE_IMSI (\<lambda>lo. lo\<lparr>lo_waiting_for_imsi := True\<rparr>) c
                            else mm_ret c [] 0) (\<lambda>c _. want_imei c)))
         else (None, mm_ret c [] 0))"

text \<open>The request has the type and the key sequence number in its first octet, then five octets of the location area,
  the classmark, and the identity with its length.\<close>

definition mm_rx_loc_upd_req :: "mm_env \<Rightarrow> u8 list \<Rightarrow> mm_conn \<Rightarrow> mm_out" where
  "mm_rx_loc_upd_req env data c =
     (case (rd data 0, rd data 6, rd data 7, rd data 8) of
        (Some b0, Some classmark1, Some mi_len, Some mi0) \<Rightarrow>
          (let mi_type = mi0 AND GSM_MI_TYPE_MASK;
               mi_string = me_mi_to_string env (drop 8 data) mi_len
           in mm_then (mm_ret c [Mm_identity_signal (drop 7 data)] 0) (\<lambda>c _.
              if mc_loc_operation c \<noteq> None then mm_rc 0 (gsm0408_loc_upd_rej env GSM48_REJECT_PROTOCOL_ERROR c)
              else
                mm_then (allocate_loc_updating_req env c) (\<lambda>c _.
                let (subscr, identity) = loc_upd_identity env mi_type mi_string (upd_loc (\<lambda>lo. lo\<lparr>lo_key_seq := drop_bit 4 b0\<rparr>) c)
                in mm_then identity (\<lambda>c _.
                     case subscr of
                       None \<Rightarrow> mm_ret (schedule_reject c) [] (- EINVAL)
                     | Some s \<Rightarrow>
                         mm_then (mm_ret ((schedule_reject c)\<lparr>mc_subscr := Some s\<rparr>) [Mm_classmark1 s classmark1] 0) (\<lambda>c _.
                         gsm0408_authorize env c)))))
      | _ \<Rightarrow> None)"

text \<open>The classmark has room for three octets.\<close>

definition set_classmark2 :: "nat \<Rightarrow> u8 \<Rightarrow> u8 list \<Rightarrow> mm_conn \<Rightarrow> mm_out" where
  "set_classmark2 s len cm c =
     (if unat len > 3 \<or> unat len > length cm then None
      else mm_ret c [Mm_sync_equipment s (take (unat len) cm)] 0)"

text \<open>The lengths are compared with the size of the message buffer, and for the length of the identity the octet of a
  classmark of three octets is read.\<close>

definition gsm48_rx_mm_serv_req :: "mm_env \<Rightarrow> u8 list \<Rightarrow> mm_conn \<Rightarrow> mm_out" where
  "gsm48_rx_mm_serv_req env data c =
     (case rd data 1 of
        None \<Rightarrow> None
      | Some cm_len \<Rightarrow>
          (let n = unat cm_len
           in case (rd data 0, rd data (2 + n), rd data 5) of
                (Some b0, Some mi_len, Some req_mi_len) \<Rightarrow>
                  (if me_data_len env < 8 \<or> me_data_len env < unat req_mi_len + 6
                   then gsm48_tx_mm_serv_rej env GSM48_REJECT_INCORRECT_MESSAGE c
                   else case rd data (3 + n) of
                          None \<Rightarrow> None
                        | Some mi0 \<Rightarrow>
                            (if mi0 AND GSM_MI_TYPE_MASK \<noteq> GSM_MI_TYPE_TMSI
                             then gsm48_tx_mm_serv_rej env GSM48_REJECT_INCORRECT_MESSAGE c
                             else
                               (let mi_string = me_mi_to_string env (drop (3 + n) data) mi_len
                                in mm_then (mm_ret c ([Mm_identity_signal (drop (2 + n) data)] @
                                     (if me_siemens env then [Mm_siemens_mrpci (drop 1 data)] else [])) 0) (\<lambda>c _.
                                   case me_by_tmsi env mi_string of
                                     None \<Rightarrow> gsm48_tx_mm_serv_rej env GSM48_REJECT_IMSI_UNKNOWN_IN_HLR c
                                   | Some s \<Rightarrow>
                                       mm_then (case mc_subscr c of
                                                  None \<Rightarrow> mm_ret (c\<lparr>mc_subscr := Some s\<rparr>) [] 0
                                                | Some _ \<Rightarrow> mm_ret c [Mm_subscr_put s] 0) (\<lambda>c _.
                                       mm_then (set_classmark2 s cm_len (drop 2 data) c) (\<lambda>c _.
                                       gsm48_secure_channel env (drop_bit 4 b0) Serv_req_sec_cb c))))))
              | _ \<Rightarrow> None))"

definition gsm48_rx_mm_imsi_detach_ind :: "mm_env \<Rightarrow> u8 list \<Rightarrow> mm_conn \<Rightarrow> mm_out" where
  "gsm48_rx_mm_imsi_detach_ind env data c =
     (case (rd data 0, rd data 1, rd data 2) of
        (Some classmark1, Some mi_len, Some mi0) \<Rightarrow>
          (let mi_type = mi0 AND GSM_MI_TYPE_MASK;
               mi_string = me_mi_to_string env (drop 2 data) mi_len;
               subscr = (if mi_type = GSM_MI_TYPE_TMSI then me_by_tmsi env mi_string
                         else if mi_type = GSM_MI_TYPE_IMSI then me_by_imsi env mi_string else None)
           in mm_ret c (case subscr of
                          None \<Rightarrow> []
                        | Some s \<Rightarrow> [Mm_subscr_update s GSM_SUBSCRIBER_UPDATE_DETACHED, Mm_classmark1 s classmark1,
                                       Mm_sync_equipment s [], Mm_subscr_put s]) 0)
      | _ \<Rightarrow> None)"

definition gsm48_rx_mm_auth_resp :: "mm_env \<Rightarrow> u8 list \<Rightarrow> mm_conn \<Rightarrow> mm_out" where
  "gsm48_rx_mm_auth_resp env data c =
     (if length data < 4 then None
      else case mc_sec_operation c of
             None \<Rightarrow> mm_ret c [] (- EIO)
           | Some op \<Rightarrow>
               (if at_sres (so_atuple op) \<noteq> take 4 data
                then mm_then (call_sec_cb env (so_cb op) GSM_SECURITY_AUTH_FAILED c) (\<lambda>c _.
                     mm_then (gsm48_tx_mm_auth_rej env c) (\<lambda>c rc.
                     mm_rc rc (release_security_operation env c)))
                else mm_cipher env (so_atuple op) c))"

definition gsm0408_rcv_mm :: "mm_env \<Rightarrow> u8 \<Rightarrow> u8 list \<Rightarrow> mm_conn \<Rightarrow> mm_out" where
  "gsm0408_rcv_mm env msg_type data c =
     (let mt = msg_type AND 0xbf
      in if mt = GSM48_MT_MM_LOC_UPD_REQUEST then mm_rx_loc_upd_req env data c
         else if mt = GSM48_MT_MM_ID_RESP then mm_rx_id_resp env data c
         else if mt = GSM48_MT_MM_CM_SERV_REQ then gsm48_rx_mm_serv_req env data c
         else if mt = GSM48_MT_MM_TMSI_REALL_COMPL then mm_rc 0 (release_loc_updating_req env c)
         else if mt = GSM48_MT_MM_IMSI_DETACH_IND then gsm48_rx_mm_imsi_detach_ind env data c
         else if mt = GSM48_MT_MM_AUTH_RESP then gsm48_rx_mm_auth_resp env data c
         else mm_ret c [] 0)"

section \<open>Radio resource messages\<close>

definition gsm48_handle_paging_resp :: "mm_env \<Rightarrow> u8 list \<Rightarrow> nat \<Rightarrow> mm_conn \<Rightarrow> mm_out" where
  "gsm48_handle_paging_resp env data subscr c =
     mm_then (mm_ret c (if me_siemens env then [Mm_siemens_mrpci (drop 1 data)] else []) 0) (\<lambda>c _.
       case mc_subscr c of
         None \<Rightarrow> mm_ret (c\<lparr>mc_subscr := Some subscr\<rparr>) [Mm_paging_stop subscr] 0
       | Some s \<Rightarrow>
           (if s \<noteq> subscr then mm_ret c [Mm_subscr_put subscr] (- EINVAL)
            else mm_ret c [Mm_subscr_put subscr, Mm_paging_stop s] 0))"

definition gsm48_rx_rr_pag_resp :: "mm_env \<Rightarrow> u8 list \<Rightarrow> mm_conn \<Rightarrow> mm_out" where
  "gsm48_rx_rr_pag_resp env data c =
     (let (mi_type, mi_string) = me_paging_mi env data;
          subscr = (if mi_type = GSM_MI_TYPE_TMSI then me_by_tmsi env mi_string
                    else if mi_type = GSM_MI_TYPE_IMSI then me_by_imsi env mi_string else None)
      in case subscr of
           None \<Rightarrow> mm_ret c [] (- EINVAL)
         | Some s \<Rightarrow>
             (case rd data 1 of
                None \<Rightarrow> None
              | Some cm_len \<Rightarrow> mm_then (set_classmark2 s cm_len (drop 2 data) c) (\<lambda>c _. gsm48_handle_paging_resp env data s c)))"

text \<open>The length of classmark 2 is tested only when classmark 3 follows.\<close>

definition gsm48_rx_rr_classmark :: "mm_env \<Rightarrow> u8 list \<Rightarrow> mm_conn \<Rightarrow> mm_out" where
  "gsm48_rx_rr_classmark env data c =
     (case rd data 0 of
        None \<Rightarrow> None
      | Some cm2_len \<Rightarrow>
          (let n = unat cm2_len;
               store = (case mc_subscr c of None \<Rightarrow> mm_ret c [] 0 | Some s \<Rightarrow> mm_rc 0 (set_classmark2 s cm2_len (drop 1 data) c))
           in if length data > n + 1
              then (if data ! (n + 1) \<noteq> 0x20 \<or> n > 3 then mm_ret c [] (- EINVAL)
                    else case rd data (n + 2) of
                           None \<Rightarrow> None
                         | Some cm3_len \<Rightarrow>
                             (if unat cm3_len > 14 then mm_ret c [] (- EINVAL)
                              else case mc_subscr c of
                                     None \<Rightarrow> mm_ret c [] 0
                                   | Some s \<Rightarrow>
                                       (if length data < n + 3 + unat cm3_len then None
                                        else mm_then (mm_ret c [Mm_classmark3 s (take (unat cm3_len) (drop (n + 3) data))] 0) (\<lambda>c _. store))))
              else store))"

definition gsm48_rx_rr_app_info :: "mm_env \<Rightarrow> u8 list \<Rightarrow> mm_conn \<Rightarrow> mm_out" where
  "gsm48_rx_rr_app_info env data c =
     (case (rd data 0, rd data 1, mc_subscr c) of
        (Some apdu_id_flags, Some apdu_len, Some s) \<Rightarrow>
          (let ev = Mm_apdu_store s apdu_id_flags apdu_len (drop 2 data) in mm_ret c [ev] (me_rc env ev))
      | _ \<Rightarrow> None)"

definition gsm48_rx_rr_ciph_m_compl :: "mm_env \<Rightarrow> mm_conn \<Rightarrow> mm_out" where
  "gsm48_rx_rr_ciph_m_compl env c =
     (case mc_sec_operation c of
        None \<Rightarrow> mm_ret c [] (- EIO)
      | Some op \<Rightarrow>
          mm_then (call_sec_cb env (so_cb op) GSM_SECURITY_SUCCEEDED c) (\<lambda>c rc. mm_rc rc (release_security_operation env c)))"

definition gsm0408_rcv_rr :: "mm_env \<Rightarrow> u8 \<Rightarrow> u8 list \<Rightarrow> mm_conn \<Rightarrow> mm_out" where
  "gsm0408_rcv_rr env msg_type data c =
     (if msg_type = GSM48_MT_RR_CLSM_CHG then gsm48_rx_rr_classmark env data c
      else if msg_type = GSM48_MT_RR_PAG_RESP then gsm48_rx_rr_pag_resp env data c
      else if msg_type = GSM48_MT_RR_MEAS_REP then mm_ret c [Mm_meas_rep data] 0
      else if msg_type = GSM48_MT_RR_APP_INFO then gsm48_rx_rr_app_info env data c
      else if msg_type = GSM48_MT_RR_CIPH_M_COMPL then gsm48_rx_rr_ciph_m_compl env c
      else if msg_type = GSM48_MT_RR_HANDO_COMPL then mm_ret c [Mm_ho_signal True] 0
      else if msg_type = GSM48_MT_RR_HANDO_FAIL then mm_ret c [Mm_ho_signal False] 0
      else mm_ret c [] 0)"

definition gsm48_send_rr_app_info :: "mm_env \<Rightarrow> u8 \<Rightarrow> u8 list \<Rightarrow> mm_conn \<Rightarrow> mm_out" where
  "gsm48_send_rr_app_info env apdu_id apdu = mm_send env ([GSM48_PDISC_RR, GSM48_MT_RR_APP_INFO, apdu_id, of_nat (length apdu)] @ apdu)"

section \<open>Supplementary services and silent calls\<close>

text \<open>The text of a request is looked for in the constant, and not the constant in the text.\<close>

fun is_infix :: "'a list \<Rightarrow> 'a list \<Rightarrow> bool" where
  "is_infix xs [] \<longleftrightarrow> xs = []"
| "is_infix xs (y # ys) \<longleftrightarrow> take (length xs) (y # ys) = xs \<or> is_infix xs ys"

definition handle_rcv_ussd :: "mm_env \<Rightarrow> u8 list \<Rightarrow> mm_conn \<Rightarrow> mm_out" where
  "handle_rcv_ussd env data c =
     (let (text, ids) = me_ussd env data
      in if text \<noteq> [] \<and> hd text = CHR 0xFF then mm_ret c [] 0
         else mm_then
           (if is_infix text ''*#100#''
            then (case mc_subscr c of None \<Rightarrow> None | Some s \<Rightarrow> mm_send env (me_ussd_response env ids (Some s)) c)
            else mm_send env (me_ussd_response env ids None) c)
           (\<lambda>c rc. mm_rc rc (msc_release_connection env c)))"

definition silent_call_accept :: "(u8 \<times> u8) list" where
  "silent_call_accept = [(GSM48_PDISC_MM, GSM48_MT_MM_LOC_UPD_REQUEST), (GSM48_PDISC_MM, GSM48_MT_MM_CM_SERV_REQ)]"

definition silent_call_reroute :: "u8 \<Rightarrow> u8 \<Rightarrow> mm_conn \<Rightarrow> bool" where
  "silent_call_reroute pdisc msg_type c \<longleftrightarrow> mc_silent_call c \<and> (pdisc, msg_type) \<notin> set silent_call_accept"

definition paging_cb_silent :: "gsm_paging_event \<Rightarrow> mm_conn \<Rightarrow> mm_out" where
  "paging_cb_silent event c = mm_ret (if event = GSM_PAGING_SUCCEEDED then c\<lparr>mc_silent_call := True\<rparr> else c) [] 0"

definition gsm_silent_call_stop :: "mm_env \<Rightarrow> mm_conn \<Rightarrow> mm_out" where
  "gsm_silent_call_stop env c =
     (if \<not> mc_silent_call c then mm_ret c [] (- EINVAL)
      else mm_rc 0 (msc_release_connection env (c\<lparr>mc_silent_call := False\<rparr>)))"

section \<open>Dispatch\<close>

definition anchor_timeout :: "mm_env \<Rightarrow> mm_conn \<Rightarrow> mm_out" where
  "anchor_timeout env c = msc_release_connection env (release_anchor c)"

definition gsm0408_new_conn :: "mm_conn \<Rightarrow> mm_conn" where
  "gsm0408_new_conn c = c\<lparr>mc_anch_operation := True\<rparr>"

definition gsm0408_dispatch :: "mm_env \<Rightarrow> u8 \<Rightarrow> u8 \<Rightarrow> u8 list \<Rightarrow> mm_conn \<Rightarrow> mm_out" where
  "gsm0408_dispatch env proto_discr msg_type data c =
     (let pdisc = proto_discr AND 0x0f
      in if silent_call_reroute pdisc msg_type c then mm_ret c [] 0
         else if pdisc = GSM48_PDISC_CC then mm_ret (release_anchor c) [Mm_rcv_cc msg_type data] 0
         else if pdisc = GSM48_PDISC_MM then gsm0408_rcv_mm env msg_type data c
         else if pdisc = GSM48_PDISC_RR then gsm0408_rcv_rr env msg_type data c
         else if pdisc = GSM48_PDISC_SMS then mm_ret (release_anchor c) [Mm_rcv_sms msg_type data] 0
         else if pdisc = GSM48_PDISC_NC_SS then handle_rcv_ussd env data (release_anchor c)
         else mm_ret c [] 0)"

definition msc_compl_l3 :: "mm_env \<Rightarrow> u8 \<Rightarrow> u8 \<Rightarrow> u8 list \<Rightarrow> mm_conn \<Rightarrow> mm_out" where
  "msc_compl_l3 env proto_discr msg_type data c = gsm0408_dispatch env proto_discr msg_type data (gsm0408_new_conn c)"

text \<open>The BSC lost the channel: the operations are ended with the connection marked, so that none of them frees it. The
  transactions of the connection are cleared next (\<open>clear_request_trans\<close>).\<close>

definition gsm0408_clear_request :: "mm_env \<Rightarrow> mm_conn \<Rightarrow> mm_out" where
  "gsm0408_clear_request env c =
     mm_then (release_loc_updating_req env (c\<lparr>mc_in_release := True\<rparr>)) (\<lambda>c _.
     mm_then (case mc_sec_operation c of None \<Rightarrow> mm_ret c [] 0 | Some op \<Rightarrow> call_sec_cb env (so_cb op) GSM_SECURITY_AUTH_FAILED c) (\<lambda>c _.
     mm_then (release_security_operation env c) (\<lambda>c _.
     mm_ret (release_anchor c) [] 0)))"

definition msc_clear_request :: "mm_env \<Rightarrow> mm_conn \<Rightarrow> mm_out" where
  "msc_clear_request env c =
     mm_then (gsm0408_clear_request env c) (\<lambda>c _.
       if mc_put_channel c
       then (case mc_subscr c of None \<Rightarrow> None | Some s \<Rightarrow> mm_ret (c\<lparr>mc_put_channel := False\<rparr>) [Mm_put_channel s] 1)
       else mm_ret c [] 1)"

end
