(* ===== verification/Mobility_Inv.thy ===== *)
theory Mobility_Inv
  imports Mobility
begin

unbundle bit_operations_syntax

text \<open>
  Properties of the mobility management: a connection stays consistent and is not used after it is freed, who is let
  into the network, and that connections end.
\<close>

section \<open>Results of the operations\<close>

text \<open>What holds of a result; \<open>b\<close> says whether failing is allowed.\<close>

definition wp :: "bool \<Rightarrow> (mm_conn option \<Rightarrow> mm_event list \<Rightarrow> bool) \<Rightarrow> mm_out \<Rightarrow> bool" where
  "wp b Q out = (case out of None \<Rightarrow> b | Some (c, ev, rc) \<Rightarrow> Q c ev)"

lemma wp_simps [simp]:
  "wp b Q None = b"
  "wp b Q (Some (c, ev, rc)) = Q c ev"
  "wp b Q (mm_ret d ev rc) = Q (Some d) ev"
  "wp b Q (mm_send env msg d) = Q (Some d) [Mm_submit_dtap msg]"
  "wp b Q (mm_rc rc out) = wp b Q out"
  by (auto simp: wp_def mm_ret_def mm_send_def mm_rc_def split: option.splits)

lemma pre_simps [simp]:
  "mm_pre [] r = r"
  "mm_pre ev (mm_ret c ev' rc) = mm_ret c (ev @ ev') rc"
  "mm_pre ev (mm_pre ev' r) = mm_pre (ev @ ev') r"
  "wp b Q (mm_pre ev r) \<longleftrightarrow> wp b (\<lambda>c' ev'. Q c' (ev @ ev')) r"
  by (cases r; auto simp: mm_pre_def mm_ret_def wp_def)+

lemma then_simps [simp]:
  "mm_then (mm_ret c ev rc) k = mm_pre ev (k c rc)"
  "mm_then (mm_send env msg c) k = mm_pre [Mm_submit_dtap msg] (k c (me_rc env (Mm_submit_dtap msg)))"
  by (simp_all add: mm_then_def mm_ret_def mm_send_def)

lemma wp_then_I:
  "wp b (\<lambda>c ev. case c of None \<Rightarrow> b | Some c \<Rightarrow> \<forall>rc. wp b (\<lambda>c' ev'. Q c' (ev @ ev')) (k c rc)) r \<Longrightarrow> wp b Q (mm_then r k)"
proof (cases r)
  case (Some t)
  obtain d ev rc where "t = (d, ev, rc)" by (cases t)
  then show "wp b (\<lambda>c ev. case c of None \<Rightarrow> b | Some c \<Rightarrow> \<forall>rc. wp b (\<lambda>c' ev'. Q c' (ev @ ev')) (k c rc)) r \<Longrightarrow> wp b Q (mm_then r k)"
    using Some by (cases d) (auto simp: mm_then_def)
qed (simp add: mm_then_def)

lemma wp_mono: "wp b Q r \<Longrightarrow> (\<And>c ev. Q c ev \<Longrightarrow> Q' c ev) \<Longrightarrow> wp b Q' r"
  by (auto simp: wp_def split: option.splits)

lemmas tx_msg_defs = gsm0408_loc_upd_rej_def gsm0408_loc_upd_acc_def mm_tx_identity_req_def gsm48_tx_mm_info_def
  gsm48_tx_mm_auth_req_def gsm48_tx_mm_auth_rej_def gsm48_tx_mm_serv_ack_def gsm48_tx_mm_serv_rej_def

lemma wp_cipher [simp]: "wp b Q (mm_cipher env t c) \<longleftrightarrow> Q (Some c) [Mm_cipher_mode (me_a5_encryption env) (at_kc t)]"
  by (simp add: mm_cipher_def Let_def)

section \<open>The invariant\<close>

definition mm_inv :: "mm_conn \<Rightarrow> bool" where
  "mm_inv c \<longleftrightarrow>
     (\<forall>lo. mc_loc_operation c = Some lo \<longrightarrow> lo_updating_timer lo) \<and>
     (mc_put_channel c \<longrightarrow> mc_subscr c \<noteq> None) \<and>
     (\<forall>op. mc_sec_operation c = Some op \<longrightarrow> so_cb op = Authorize_sec_cb \<longrightarrow> mc_subscr c \<noteq> None)"

text \<open>A connection that is consistent and not freed, or freed once after its channel was cleared.\<close>

definition kept :: "mm_conn option \<Rightarrow> mm_event list \<Rightarrow> bool" where
  "kept r ev \<longleftrightarrow>
     (case r of
        None \<Rightarrow> count_list ev Mm_con_free = 1 \<and> Mm_gsm0808_clear \<in> set ev
      | Some c \<Rightarrow> Mm_con_free \<notin> set ev \<and> mm_inv c \<and> \<not> mc_in_release c)"

lemma kept_simps [simp]:
  "kept None ev \<longleftrightarrow> count_list ev Mm_con_free = 1 \<and> Mm_gsm0808_clear \<in> set ev"
  "kept (Some c) ev \<longleftrightarrow> Mm_con_free \<notin> set ev \<and> mm_inv c \<and> \<not> mc_in_release c"
  by (simp_all add: kept_def)

text \<open>Events other than the release leave it at that.\<close>

definition quiet :: "mm_event list \<Rightarrow> bool" where
  "quiet ev \<longleftrightarrow> Mm_con_free \<notin> set ev \<and> Mm_gsm0808_clear \<notin> set ev"

lemma kept_prefix [simp]:
  "quiet ev \<Longrightarrow> kept r (ev @ ev') = kept r ev'"
  "e \<noteq> Mm_con_free \<Longrightarrow> e \<noteq> Mm_gsm0808_clear \<Longrightarrow> kept r (e # ev') = kept r ev'"
  by (auto simp: kept_def quiet_def count_list_0_iff split: option.splits)

lemma quiet_simps [simp]: "quiet []" "quiet (e # ev) \<longleftrightarrow> e \<noteq> Mm_con_free \<and> e \<noteq> Mm_gsm0808_clear \<and> quiet ev"
  by (auto simp: quiet_def)

lemma release_connection_kept:
  "mm_inv c \<Longrightarrow> \<not> mc_in_release c \<Longrightarrow> wp False kept (msc_release_connection env c)"
  by (auto simp: msc_release_connection_def mm_inv_def split: option.splits)

lemma release_loc_kept:
  "mm_inv c \<Longrightarrow> \<not> mc_in_release c \<Longrightarrow> wp False kept (release_loc_updating_req env c)"
  unfolding release_loc_updating_req_def
  by (auto intro!: release_connection_kept simp: mm_inv_def release_anchor_def)

lemma release_sec_kept:
  "mm_inv c \<Longrightarrow> \<not> mc_in_release c \<Longrightarrow> wp False kept (release_security_operation env c)"
  unfolding release_security_operation_def
  by (auto intro!: release_connection_kept simp: mm_inv_def)

lemma call_sec_cb_kept:
  "mm_inv c \<Longrightarrow> \<not> mc_in_release c \<Longrightarrow> (cb = Authorize_sec_cb \<longrightarrow> mc_subscr c \<noteq> None) \<Longrightarrow>
    wp False kept (call_sec_cb env cb event c)"
  unfolding call_sec_cb_def gsm0408_authorize_sec_cb_def gsm48_rx_mm_serv_req_sec_cb_def
  by (auto simp: tx_msg_defs Let_def split: sec_cb.split option.split intro: release_loc_kept)

text \<open>A security operation keeps the connection while its callback runs.\<close>

lemma call_sec_cb_pending:
  "mm_inv c \<Longrightarrow> mc_sec_operation c \<noteq> None \<Longrightarrow> (cb = Authorize_sec_cb \<longrightarrow> mc_subscr c \<noteq> None) \<Longrightarrow>
    wp False (\<lambda>r ev. \<exists>d. r = Some d \<and> mm_inv d \<and> mc_in_release d = mc_in_release c \<and> quiet ev) (call_sec_cb env cb event c)"
  unfolding call_sec_cb_def gsm0408_authorize_sec_cb_def gsm48_rx_mm_serv_req_sec_cb_def
  by (auto simp: tx_msg_defs Let_def release_loc_updating_req_def msc_release_connection_def release_anchor_def mm_inv_def
    split: sec_cb.split option.split)

lemma get_tuple_quiet: "auth_get_tuple_for_subscr env s k = (t, ev, rc) \<Longrightarrow> quiet ev"
  by (auto simp: auth_get_tuple_for_subscr_def Let_def split: prod.splits sum.splits if_splits option.splits)

lemma secure_channel_kept:
  assumes "mm_inv c" "\<not> mc_in_release c" "mc_subscr c \<noteq> None"
  shows "wp False kept (gsm48_secure_channel env key_seq cb c)"
proof -
  obtain s where s: "mc_subscr c = Some s" using assms(3) by auto
  obtain t ev rc where t: "auth_get_tuple_for_subscr env s key_seq = (t, ev, rc)" by (metis prod_cases3)
  have cb: "wp False kept (call_sec_cb env cb e c)" for e using call_sec_cb_kept assms by simp
  then show ?thesis
    using assms s t get_tuple_quiet [OF t] unfolding gsm48_secure_channel_def
    by (auto simp: tx_msg_defs Let_def mm_inv_def )
qed

lemma authorize_kept:
  assumes "mm_inv c" "\<not> mc_in_release c" "mc_loc_operation c \<noteq> None"
  shows "wp False kept (gsm0408_authorize env c)"
  using assms secure_channel_kept [OF assms(1,2)] unfolding gsm0408_authorize_def
  by (auto simp: authorize_subscriber_def split: option.splits)

text \<open>The rule for a call that does not free the connection, followed by the rest.\<close>

lemma kept_then:
  assumes "wp False (\<lambda>r ev. \<exists>d. r = Some d \<and> P d \<and> quiet ev) r" "\<And>d rc. P d \<Longrightarrow> wp False kept (k d rc)"
  shows "wp False kept (mm_then r k)"
  by (rule wp_then_I, rule wp_mono [OF assms(1)]) (auto intro!: assms(2))

definition mm_ready :: "mm_conn \<Rightarrow> bool" where
  "mm_ready c \<longleftrightarrow> mm_inv c \<and> \<not> mc_in_release c \<and> mc_loc_operation c \<noteq> None"

lemma id_resp_kept:
  assumes "mm_ready c" "length data \<ge> 2"
  shows "wp False kept (mm_rx_id_resp env data c)"
proof -
  have r: "rd data 0 = Some (data ! 0)" "rd data 1 = Some (data ! 1)" using assms(2) by (auto simp: rd_def)
  show ?thesis
    unfolding mm_rx_id_resp_def Let_def option.case prod.case r
    by (intro kept_then [where P = mm_ready] authorize_kept)
      (use assms(1) in \<open>auto simp: upd_loc_def mm_inv_def mm_ready_def get_or_create_imsi_def split: option.splits prod.splits\<close>)
qed

lemma loc_rej_kept: "mm_inv c \<Longrightarrow> \<not> mc_in_release c \<Longrightarrow> wp False kept (loc_upd_rej_cb env c)"
  by (auto simp: loc_upd_rej_cb_def tx_msg_defs intro: release_loc_kept)

text \<open>Up to the start of the timer of a request.\<close>

definition mm_started :: "mm_conn \<Rightarrow> bool" where
  "mm_started c \<longleftrightarrow> mm_inv (schedule_reject c) \<and> \<not> mc_in_release c \<and> mc_loc_operation c \<noteq> None"

lemma started_upd [simp]: "mm_started c \<Longrightarrow> mm_started (upd_loc f c)"
  by (auto simp: mm_started_def schedule_reject_def upd_loc_def mm_inv_def)

lemma started_ready: "mm_started c \<Longrightarrow> mm_ready (schedule_reject c)" "mm_started c \<Longrightarrow> mm_ready ((schedule_reject c)\<lparr>mc_subscr := Some s\<rparr>)"
  by (auto simp: mm_started_def mm_ready_def schedule_reject_def upd_loc_def mm_inv_def)

lemma want_identity_started: "mm_started c \<Longrightarrow> wp False (\<lambda>r ev. \<exists>d. r = Some d \<and> mm_started d \<and> quiet ev) (want_identity env t f c)"
  by (auto simp: want_identity_def tx_msg_defs)

lemma loc_upd_identity_started:
  "loc_upd_identity env t mi c = (subscr, r) \<Longrightarrow> mm_started c \<Longrightarrow>
    wp False (\<lambda>r ev. \<exists>d. r = Some d \<and> mm_started d \<and> quiet ev) r"
  by (auto simp: loc_upd_identity_def want_identity_def tx_msg_defs get_or_create_imsi_def Let_def split: if_splits prod.splits option.splits)

lemma loc_upd_req_kept:
  assumes "mm_inv c" "\<not> mc_in_release c" "length data \<ge> 9"
  shows "wp False kept (mm_rx_loc_upd_req env data c)"
proof (cases "mc_loc_operation c = None")
  case True
  have r: "rd data 0 = Some (data ! 0)" "rd data 6 = Some (data ! 6)" "rd data 7 = Some (data ! 7)" "rd data 8 = Some (data ! 8)"
    using assms(3) by (auto simp: rd_def)
  let ?c = "c\<lparr>mc_loc_operation := Some \<lparr>lo_waiting_for_imsi = False, lo_waiting_for_imei = False, lo_key_seq = 0, lo_updating_timer = False\<rparr>\<rparr>"
  have a: "allocate_loc_updating_req env c = mm_ret ?c [] 0"
    using True by (simp add: allocate_loc_updating_req_def release_loc_updating_req_def)
  have s: "mm_started ?c" using assms(1,2) by (auto simp: mm_started_def mm_inv_def schedule_reject_def upd_loc_def)
  have f: "wp False kept (case subscr of None \<Rightarrow> mm_ret (schedule_reject d) [] (- EINVAL)
      | Some s \<Rightarrow> mm_then (mm_ret ((schedule_reject d)\<lparr>mc_subscr := Some s\<rparr>) [Mm_classmark1 s (data ! 6)] 0) (\<lambda>c _. gsm0408_authorize env c))"
    if "mm_started d" for d subscr
    using started_ready [OF that] by (auto simp: mm_ready_def intro!: authorize_kept split: option.split)
  show ?thesis
    using True s unfolding mm_rx_loc_upd_req_def Let_def option.case prod.case r
    by (simp add: a del: append_Cons append_Nil split: prod.split)
      (auto intro!: kept_then [where P = mm_started] f elim: loc_upd_identity_started)
qed (use assms in \<open>auto simp: mm_rx_loc_upd_req_def rd_def tx_msg_defs Let_def\<close>)

lemma classmark2_kept:
  "mm_inv c \<Longrightarrow> \<not> mc_in_release c \<Longrightarrow> unat len \<le> 3 \<Longrightarrow> unat len \<le> length cm \<Longrightarrow>
    wp False (\<lambda>r ev. r = Some c \<and> quiet ev) (set_classmark2 s len cm c)"
  by (simp add: set_classmark2_def)

lemma serv_req_kept:
  assumes "mm_inv c" "\<not> mc_in_release c" "length data \<ge> 7" "unat (data ! 1) \<le> 3"
  shows "wp False kept (gsm48_rx_mm_serv_req env data c)"
proof -
  have r: "rd data 1 = Some (data ! 1)" "rd data 0 = Some (data ! 0)" "rd data 5 = Some (data ! 5)"
      "rd data (2 + unat (data ! 1)) = Some (data ! (2 + unat (data ! 1)))" "rd data (3 + unat (data ! 1)) = Some (data ! (3 + unat (data ! 1)))"
    using assms(3,4) by (auto simp: rd_def)
  have s: "set_classmark2 s (data ! Suc 0) (drop 2 data) d = mm_ret d [Mm_sync_equipment s (take (unat (data ! 1)) (drop 2 data))] 0" for s d
    using assms(3,4) by (auto simp: set_classmark2_def)
  have n: "wp False kept (gsm48_secure_channel env k cb (c\<lparr>mc_subscr := Some s\<rparr>))" for k cb s
    using assms(1,2) by (intro secure_channel_kept) (auto simp: mm_inv_def)
  have o: "wp False kept (gsm48_secure_channel env k cb c)" if "mc_subscr c = Some s" for k cb s
    using assms(1,2) that by (intro secure_channel_kept) auto
  show ?thesis
    using assms(1,2) unfolding gsm48_rx_mm_serv_req_def Let_def r option.case prod.case
    by (auto simp: tx_msg_defs s intro!: n o split: option.split)
qed

lemma detach_kept:
  "mm_inv c \<Longrightarrow> \<not> mc_in_release c \<Longrightarrow> length data \<ge> 3 \<Longrightarrow> wp False kept (gsm48_rx_mm_imsi_detach_ind env data c)"
  by (auto simp: gsm48_rx_mm_imsi_detach_ind_def rd_def Let_def split: option.splits)

lemma sec_done_kept:
  assumes "mm_inv c" "\<not> mc_in_release c" "mc_sec_operation c = Some op"
    and "\<And>d rc. mm_inv d \<Longrightarrow> \<not> mc_in_release d \<Longrightarrow> wp False kept (k d rc)"
  shows "wp False kept (mm_then (call_sec_cb env (so_cb op) event c) k)"
  using call_sec_cb_pending [of c "so_cb op" env event] assms
  by (intro kept_then [where P = "\<lambda>d. mm_inv d \<and> \<not> mc_in_release d"]) (auto elim!: wp_mono simp: mm_inv_def)

lemma auth_resp_kept:
  "mm_inv c \<Longrightarrow> \<not> mc_in_release c \<Longrightarrow> length data \<ge> 4 \<Longrightarrow> wp False kept (gsm48_rx_mm_auth_resp env data c)"
  by (auto simp: gsm48_rx_mm_auth_resp_def tx_msg_defs split: option.split intro!: sec_done_kept release_sec_kept)

lemma ciph_compl_kept:
  "mm_inv c \<Longrightarrow> \<not> mc_in_release c \<Longrightarrow> wp False kept (gsm48_rx_rr_ciph_m_compl env c)"
  by (auto simp: gsm48_rx_rr_ciph_m_compl_def split: option.split intro!: sec_done_kept release_sec_kept)

lemma pag_resp_kept:
  assumes "mm_inv c" "\<not> mc_in_release c" "length data \<ge> 5" "unat (data ! 1) \<le> 3"
  shows "wp False kept (gsm48_rx_rr_pag_resp env data c)"
proof -
  have "rd data 1 = Some (data ! 1)" using assms(3) by (auto simp: rd_def)
  moreover have "wp False kept (gsm48_handle_paging_resp env data s c)" for s
    using assms(1,2) by (auto simp: gsm48_handle_paging_resp_def mm_inv_def split: option.split)
  ultimately show ?thesis
    using assms by (auto simp: gsm48_rx_rr_pag_resp_def set_classmark2_def Let_def split: prod.split option.split)
qed

definition classmark_ok :: "u8 list \<Rightarrow> bool" where
  "classmark_ok data \<longleftrightarrow>
     (let n = unat (data ! 0)
      in length data \<ge> n + 1 \<and> n \<le> 3 \<and> (length data > n + 1 \<longrightarrow> length data \<ge> n + 3 \<and> length data \<ge> n + 3 + unat (data ! (n + 2))))"

lemma classmark_kept:
  assumes "mm_inv c" "\<not> mc_in_release c" "classmark_ok data"
  shows "wp False kept (gsm48_rx_rr_classmark env data c)"
proof -
  have "rd data 0 = Some (data ! 0)" using assms(3) by (cases data) (auto simp: rd_def classmark_ok_def Let_def)
  then show ?thesis
    using assms by (auto simp: gsm48_rx_rr_classmark_def classmark_ok_def set_classmark2_def rd_def Let_def split: option.split)
qed

lemma ussd_kept:
  "mm_inv c \<Longrightarrow> \<not> mc_in_release c \<Longrightarrow> mc_subscr c \<noteq> None \<Longrightarrow> wp False kept (handle_rcv_ussd env data c)"
  by (auto simp: handle_rcv_ussd_def split: prod.split intro!: release_connection_kept)

section \<open>Inputs\<close>

text \<open>What can happen to a connection: a message, the expiry of a timer, the securing of the channel for a paged
  subscriber, the end of a transaction, the begin and the end of a silent call, the request to tell the subscriber's
  queue when the channel goes, and the loss of the channel.\<close>

datatype mm_input =
    In_dispatch u8 u8 "u8 list"
  | In_loc_timer
  | In_anchor_timer
  | In_secure_paging u8
  | In_trans_freed
  | In_silent_call gsm_paging_event
  | In_silent_call_stop
  | In_put_channel

definition mm_step :: "mm_env \<Rightarrow> mm_input \<Rightarrow> mm_conn \<Rightarrow> mm_out" where
  "mm_step env i c =
     (case i of
        In_dispatch pd mt data \<Rightarrow> gsm0408_dispatch env pd mt data c
      | In_loc_timer \<Rightarrow> loc_upd_rej_cb env c
      | In_anchor_timer \<Rightarrow> anchor_timeout env c
      | In_secure_paging key_seq \<Rightarrow>
          (case mc_subscr c of None \<Rightarrow> None | Some s \<Rightarrow> gsm48_secure_channel env key_seq (Paging_sec_cb s) c)
      | In_trans_freed \<Rightarrow> msc_release_connection env c
      | In_silent_call event \<Rightarrow> paging_cb_silent event c
      | In_silent_call_stop \<Rightarrow> gsm_silent_call_stop env c
      | In_put_channel \<Rightarrow> mm_ret (c\<lparr>mc_put_channel := True\<rparr>) [] 0)"

text \<open>The messages whose fields lie in the message, with the state of the connection that their handlers rely on.\<close>

definition mm_message_ok :: "u8 \<Rightarrow> u8 \<Rightarrow> u8 list \<Rightarrow> mm_conn \<Rightarrow> bool" where
  "mm_message_ok pd mt data c \<longleftrightarrow>
     (if pd = GSM48_PDISC_MM
      then (let mt = mt AND 0xbf
            in if mt = GSM48_MT_MM_LOC_UPD_REQUEST then length data \<ge> 9
               else if mt = GSM48_MT_MM_ID_RESP then length data \<ge> 2 \<and> mc_loc_operation c \<noteq> None
               else if mt = GSM48_MT_MM_CM_SERV_REQ then length data \<ge> 7 \<and> unat (data ! 1) \<le> 3
               else if mt = GSM48_MT_MM_IMSI_DETACH_IND then length data \<ge> 3
               else if mt = GSM48_MT_MM_AUTH_RESP then length data \<ge> 4
               else True)
      else if pd = GSM48_PDISC_RR
      then (if mt = GSM48_MT_RR_CLSM_CHG then classmark_ok data
            else if mt = GSM48_MT_RR_PAG_RESP then length data \<ge> 5 \<and> unat (data ! 1) \<le> 3
            else if mt = GSM48_MT_RR_APP_INFO then length data \<ge> 2 \<and> mc_subscr c \<noteq> None
            else True)
      else pd = GSM48_PDISC_NC_SS \<longrightarrow> mc_subscr c \<noteq> None)"

lemma dispatch_kept:
  assumes "mm_inv c" "\<not> mc_in_release c" "mm_message_ok (pd AND 0x0f) mt data c"
  shows "wp False kept (gsm0408_dispatch env pd mt data c)"
proof -
  have a: "mm_inv (release_anchor c)" "\<not> mc_in_release (release_anchor c)" "mc_subscr (release_anchor c) = mc_subscr c"
    using assms(1,2) by (auto simp: mm_inv_def release_anchor_def)
  have mm: "wp False kept (gsm0408_rcv_mm env mt data c)" if "mm_message_ok GSM48_PDISC_MM mt data c"
    using that assms(1,2) unfolding gsm0408_rcv_mm_def
    by (auto simp: mm_message_ok_def mm_ready_def Let_def split: if_splits
      intro: loc_upd_req_kept id_resp_kept serv_req_kept release_loc_kept detach_kept auth_resp_kept)
  have rr: "wp False kept (gsm0408_rcv_rr env mt data c)" if "mm_message_ok GSM48_PDISC_RR mt data c"
    using that assms(1,2) unfolding gsm0408_rcv_rr_def
    by (auto simp: mm_message_ok_def gsm48_rx_rr_app_info_def rd_def Let_def split: if_splits intro: classmark_kept pag_resp_kept ciph_compl_kept)
  show ?thesis
    using assms a mm rr ussd_kept [OF a(1,2)] unfolding gsm0408_dispatch_def Let_def
    by (auto simp: mm_message_ok_def [where pd = "0x0b"])
qed

definition mm_input_ok :: "mm_input \<Rightarrow> mm_conn \<Rightarrow> bool" where
  "mm_input_ok i c \<longleftrightarrow>
     (case i of
        In_dispatch pd mt data \<Rightarrow> mm_message_ok (pd AND 0x0f) mt data c
      | In_loc_timer \<Rightarrow> (case mc_loc_operation c of None \<Rightarrow> False | Some lo \<Rightarrow> lo_updating_timer lo)
      | In_anchor_timer \<Rightarrow> mc_anch_operation c
      | In_secure_paging key_seq \<Rightarrow> mc_subscr c \<noteq> None
      | In_put_channel \<Rightarrow> mc_subscr c \<noteq> None
      | _ \<Rightarrow> True)"

lemma step_kept:
  assumes "mm_inv c" "\<not> mc_in_release c" "mm_input_ok i c"
  shows "wp False kept (mm_step env i c)"
proof (cases i)
  case In_anchor_timer
  then show ?thesis using assms by (auto simp: mm_step_def anchor_timeout_def release_anchor_def mm_inv_def intro!: release_connection_kept)
next
  case In_silent_call_stop
  then show ?thesis using assms by (auto simp: mm_step_def gsm_silent_call_stop_def mm_inv_def intro!: release_connection_kept)
next
  case (In_silent_call event)
  then show ?thesis using assms by (auto simp: mm_step_def paging_cb_silent_def mm_inv_def)
next
  case (In_secure_paging k)
  then show ?thesis using assms secure_channel_kept [OF assms(1,2)] by (auto simp: mm_step_def mm_input_ok_def)
next
  case In_put_channel
  then show ?thesis using assms by (auto simp: mm_step_def mm_input_ok_def mm_inv_def)
qed (use assms in \<open>auto simp: mm_step_def mm_input_ok_def intro: dispatch_kept loc_rej_kept release_connection_kept\<close>)

text \<open>The states of a connection that the BSC handed to the MSC with its first message.\<close>

definition mm_fresh :: mm_conn where
  "mm_fresh = \<lparr>mc_subscr = None, mc_loc_operation = None, mc_sec_operation = None, mc_anch_operation = False,
     mc_silent_call = False, mc_put_channel = False, mc_in_release = False\<rparr>"

inductive mm_reachable :: "mm_conn \<Rightarrow> bool" where
  new: "mm_reachable (gsm0408_new_conn mm_fresh)"
| step: "mm_reachable c \<Longrightarrow> mm_input_ok i c \<Longrightarrow> mm_step env i c = Some (Some d, ev, rc) \<Longrightarrow> mm_reachable d"

lemma mm_reachable_inv: "mm_reachable c \<Longrightarrow> mm_inv c \<and> \<not> mc_in_release c"
proof (induction rule: mm_reachable.induct)
  case (step c i env d ev rc)
  then show ?case using step_kept [of c i env] by simp
qed (simp add: gsm0408_new_conn_def mm_fresh_def mm_inv_def)

section \<open>Who is let into the network\<close>

definition attached :: "mm_event list \<Rightarrow> nat \<Rightarrow> bool" where
  "attached ev s \<longleftrightarrow> Mm_subscr_update s GSM_SUBSCRIBER_UPDATE_ATTACHED \<in> set ev"

lemma attached_simps [simp]:
  "\<not> attached [] s"
  "attached (e # ev) s \<longleftrightarrow> e = Mm_subscr_update s GSM_SUBSCRIBER_UPDATE_ATTACHED \<or> attached ev s"
  "attached (ev @ ev') s \<longleftrightarrow> attached ev s \<or> attached ev' s"
  by (auto simp: attached_def)

text \<open>The subscriber of the connection satisfies the policy, and no identity is awaited.\<close>

definition lets_in :: "mm_env \<Rightarrow> mm_conn option \<Rightarrow> nat \<Rightarrow> bool" where
  "lets_in env r s \<longleftrightarrow>
     (case r of
        None \<Rightarrow> False
      | Some d \<Rightarrow> mc_subscr d = Some s \<and> mc_loc_operation d \<noteq> None \<and> authorize_subscriber env (mc_loc_operation d) (Some s))"

text \<open>From the security operation \<open>so\<close> before a step: whoever is attached is let in by the policy, and so is whoever a new
  security operation will attach.\<close>

definition granted :: "mm_env \<Rightarrow> gsm_security_operation option \<Rightarrow> mm_conn option \<Rightarrow> mm_event list \<Rightarrow> bool" where
  "granted env so r ev \<longleftrightarrow>
     (\<forall>s. attached ev s \<longrightarrow> lets_in env r s) \<and>
     (\<forall>d op. r = Some d \<longrightarrow> mc_sec_operation d = Some op \<longrightarrow> so_cb op = Authorize_sec_cb \<longrightarrow> so = Some op \<or> (\<exists>s. lets_in env r s))"

lemma granted_prefix [simp]:
  "(\<And>s. \<not> attached ev s) \<Longrightarrow> granted env so r (ev @ ev') = granted env so r ev'"
  "(\<And>s. e \<noteq> Mm_subscr_update s GSM_SUBSCRIBER_UPDATE_ATTACHED) \<Longrightarrow> granted env so r (e # ev') = granted env so r ev'"
  by (auto simp: granted_def)

lemma granted_nil [simp]:
  "granted env so None []"
  "mc_sec_operation d = so \<or> mc_sec_operation d = None \<Longrightarrow> granted env so (Some d) []"
  by (auto simp: granted_def)

lemma granted_then:
  assumes "wp True (\<lambda>r ev. (\<forall>s. \<not> attached ev s) \<and> (\<forall>d. r = Some d \<longrightarrow> P d)) r" "\<And>d rc. P d \<Longrightarrow> wp True (granted env so) (k d rc)"
  shows "wp True (granted env so) (mm_then r k)"
  by (rule wp_then_I, rule wp_mono [OF assms(1)]) (auto intro!: assms(2) split: option.split)

lemma release_connection_granted:
  "mc_sec_operation c = so \<or> mc_sec_operation c = None \<Longrightarrow> wp True (granted env so) (msc_release_connection env c)"
  by (auto simp: msc_release_connection_def split: option.splits)

lemma release_loc_granted:
  "mc_sec_operation c = so \<or> mc_sec_operation c = None \<Longrightarrow> wp True (granted env so) (release_loc_updating_req env c)"
  by (auto simp: release_loc_updating_req_def release_anchor_def intro!: release_connection_granted)

lemma release_sec_granted: "wp True (granted env so) (release_security_operation env c)"
  by (auto simp: release_security_operation_def intro!: release_connection_granted)

lemma call_sec_cb_granted:
  assumes "mc_sec_operation c = so" "cb = Authorize_sec_cb \<longrightarrow> event = GSM_SECURITY_AUTH_FAILED \<or> (\<exists>s. lets_in env (Some c) s)"
  shows "wp True (granted env so) (call_sec_cb env cb event c)"
  using assms unfolding call_sec_cb_def gsm0408_authorize_sec_cb_def gsm48_rx_mm_serv_req_sec_cb_def
  by (auto simp: tx_msg_defs Let_def granted_def lets_in_def split: sec_cb.split option.split intro!: release_loc_granted)

lemma get_tuple_silent: "auth_get_tuple_for_subscr env s k = (t, ev, rc) \<Longrightarrow> \<not> attached ev x"
  by (auto simp: auth_get_tuple_for_subscr_def Let_def split: prod.splits sum.splits if_splits option.splits)

lemma secure_channel_granted:
  assumes "mc_sec_operation c = so" "cb = Authorize_sec_cb \<longrightarrow> (\<exists>s. lets_in env (Some c) s)"
  shows "wp True (granted env so) (gsm48_secure_channel env key_seq cb c)"
proof (cases "mc_subscr c")
  case (Some s)
  obtain t ev rc where t: "auth_get_tuple_for_subscr env s key_seq = (t, ev, rc)" by (metis prod_cases3)
  have cb: "wp True (granted env so) (call_sec_cb env cb e c)" for e using call_sec_cb_granted assms by simp
  have n: "granted env so (Some (c\<lparr>mc_sec_operation := Some \<lparr>so_atuple = t, so_cb = cb\<rparr>\<rparr>)) []"
    using assms(2) by (auto simp: granted_def lets_in_def)
  show ?thesis
    using cb n assms Some t get_tuple_silent [OF t] unfolding gsm48_secure_channel_def
    by (auto simp: tx_msg_defs Let_def)
qed (use call_sec_cb_granted [OF assms(1)] assms(2) in \<open>auto simp: gsm48_secure_channel_def\<close>)

lemma authorize_granted: "mc_sec_operation c = so \<Longrightarrow> wp True (granted env so) (gsm0408_authorize env c)"
  unfolding gsm0408_authorize_def
  by (auto simp: lets_in_def authorize_subscriber_def split: option.split intro!: secure_channel_granted)

lemma id_resp_granted: "mc_sec_operation c = so \<Longrightarrow> wp True (granted env so) (mm_rx_id_resp env data c)"
  unfolding mm_rx_id_resp_def Let_def
  by (auto simp: upd_loc_def get_or_create_imsi_def split: option.split prod.split intro!: authorize_granted)

lemma loc_upd_identity_granted:
  "loc_upd_identity env t mi c = (subscr, r) \<Longrightarrow>
    wp True (\<lambda>r ev. (\<forall>s. \<not> attached ev s) \<and> (\<forall>d. r = Some d \<longrightarrow> mc_sec_operation d = mc_sec_operation c)) r"
  by (auto simp: loc_upd_identity_def want_identity_def tx_msg_defs get_or_create_imsi_def upd_loc_def Let_def split: if_splits prod.splits option.splits)

lemma loc_upd_req_granted:
  "wp True (granted env (mc_sec_operation c)) (mm_rx_loc_upd_req env data c)"
proof -
  have f: "wp True (granted env (mc_sec_operation c)) (case subscr of None \<Rightarrow> mm_ret (schedule_reject d) [] (- EINVAL)
      | Some s \<Rightarrow> mm_then (mm_ret ((schedule_reject d)\<lparr>mc_subscr := Some s\<rparr>) [Mm_classmark1 s cm] 0) (\<lambda>c _. gsm0408_authorize env c))"
    if "mc_sec_operation d = mc_sec_operation c" for d subscr cm
    using that by (auto simp: schedule_reject_def upd_loc_def intro!: authorize_granted split: option.split)
  have a: "wp True (\<lambda>r ev. (\<forall>s. \<not> attached ev s) \<and> (\<forall>d. r = Some d \<longrightarrow> mc_sec_operation d = mc_sec_operation c)) (allocate_loc_updating_req env c)"
    if "mc_loc_operation c = None"
    using that by (simp add: allocate_loc_updating_req_def release_loc_updating_req_def)
  have i: "wp True (granted env (mc_sec_operation c)) (case loc_upd_identity env t mi (upd_loc g d) of (subscr, r) \<Rightarrow> mm_then r (\<lambda>c _. case subscr of
        None \<Rightarrow> mm_ret (schedule_reject c) [] (- EINVAL)
      | Some s \<Rightarrow> mm_then (mm_ret ((schedule_reject c)\<lparr>mc_subscr := Some s\<rparr>) [Mm_classmark1 s cm] 0) (\<lambda>c _. gsm0408_authorize env c)))"
    if "mc_sec_operation d = mc_sec_operation c" for t mi g d cm
  proof (cases "loc_upd_identity env t mi (upd_loc g d)")
    case (Pair subscr r)
    show ?thesis
      unfolding Pair prod.case
      by (rule granted_then [where P = "\<lambda>d. mc_sec_operation d = mc_sec_operation c", OF _ f])
        (use loc_upd_identity_granted [OF Pair] that in \<open>auto simp: upd_loc_def\<close>)
  qed
  show ?thesis
    unfolding mm_rx_loc_upd_req_def Let_def
    by (auto simp: tx_msg_defs split: option.split intro!: granted_then [where P = "\<lambda>d. mc_sec_operation d = mc_sec_operation c"] a i)
qed

lemma serv_req_granted: "mc_sec_operation c = so \<Longrightarrow> wp True (granted env so) (gsm48_rx_mm_serv_req env data c)"
  unfolding gsm48_rx_mm_serv_req_def Let_def set_classmark2_def
  by (auto simp: tx_msg_defs mm_then_def [of None] split: option.split intro!: secure_channel_granted)

lemma auth_resp_granted: "mc_sec_operation c = so \<Longrightarrow> wp True (granted env so) (gsm48_rx_mm_auth_resp env data c)"
proof (cases so)
  case (Some op)
  assume so: "mc_sec_operation c = so"
  have "wp True (\<lambda>r ev. \<forall>s. \<not> attached ev s) (call_sec_cb env (so_cb op) GSM_SECURITY_AUTH_FAILED c)"
    by (auto simp: call_sec_cb_def gsm0408_authorize_sec_cb_def gsm48_rx_mm_serv_req_sec_cb_def release_loc_updating_req_def
      msc_release_connection_def Let_def split: sec_cb.split option.split)
  then show ?thesis
    using so Some unfolding gsm48_rx_mm_auth_resp_def
    by (auto simp: tx_msg_defs intro!: granted_then [where P = "\<lambda>d. True"] release_sec_granted)
qed (auto simp: gsm48_rx_mm_auth_resp_def)

lemma rcv_mm_granted: "mc_sec_operation c = so \<Longrightarrow> wp True (granted env so) (gsm0408_rcv_mm env mt data c)"
  unfolding gsm0408_rcv_mm_def
  by (auto simp: Let_def gsm48_rx_mm_imsi_detach_ind_def split: option.split
    intro!: loc_upd_req_granted id_resp_granted serv_req_granted auth_resp_granted release_loc_granted)

lemma rcv_rr_granted:
  "mc_sec_operation c = so \<Longrightarrow> mt \<noteq> GSM48_MT_RR_CIPH_M_COMPL \<Longrightarrow> wp True (granted env so) (gsm0408_rcv_rr env mt data c)"
  unfolding gsm0408_rcv_rr_def
  by (auto simp: Let_def gsm48_rx_rr_classmark_def set_classmark2_def gsm48_rx_rr_pag_resp_def gsm48_handle_paging_resp_def
    gsm48_rx_rr_app_info_def mm_then_def [of None] split: option.split prod.split)

lemma ussd_granted: "mc_sec_operation c = so \<Longrightarrow> wp True (granted env so) (handle_rcv_ussd env data c)"
  by (auto simp: handle_rcv_ussd_def mm_then_def [of None] split: prod.split option.split intro!: release_connection_granted)

lemma dispatch_granted:
  assumes "\<not> (pd AND 0x0f = GSM48_PDISC_RR \<and> mt = GSM48_MT_RR_CIPH_M_COMPL)"
  shows "wp True (granted env (mc_sec_operation c)) (gsm0408_dispatch env pd mt data c)"
proof -
  have "mc_sec_operation (release_anchor c) = mc_sec_operation c" by (simp add: release_anchor_def)
  then show ?thesis
    using assms unfolding gsm0408_dispatch_def Let_def
    by (auto intro!: rcv_mm_granted rcv_rr_granted ussd_granted)
qed

text \<open>Ciphering ends the pending operation, and attaches the subscriber that the connection has by then.\<close>

definition authorize_pending :: "mm_conn \<Rightarrow> nat \<Rightarrow> bool" where
  "authorize_pending c s \<longleftrightarrow>
     (case mc_sec_operation c of None \<Rightarrow> False | Some op \<Rightarrow> so_cb op = Authorize_sec_cb) \<and> mc_subscr c = Some s"

lemma release_sec_done:
  "wp True (\<lambda>r ev. (\<forall>s. \<not> attached ev s) \<and> (\<forall>d. r = Some d \<longrightarrow> mc_sec_operation d = None)) (release_security_operation env c)"
  by (auto simp: release_security_operation_def msc_release_connection_def split: option.split)

lemma ciph_compl_attaches:
  "wp True (\<lambda>r ev. (\<forall>s. attached ev s \<longleftrightarrow> authorize_pending c s) \<and> (\<forall>d. r = Some d \<longrightarrow> mc_sec_operation d = None)) (gsm48_rx_rr_ciph_m_compl env c)"
  unfolding gsm48_rx_rr_ciph_m_compl_def call_sec_cb_def gsm0408_authorize_sec_cb_def gsm48_rx_mm_serv_req_sec_cb_def authorize_pending_def
  by (auto simp: tx_msg_defs Let_def mm_then_def [of None] split: option.split sec_cb.split intro!: wp_mono [OF release_sec_done])

section \<open>Properties\<close>


text \<open>C8: Nobody is let into the network without the consent of the policy: a message attaches a subscriber only if it is the
  subscriber of the connection, a location update is pending that waits for no identity, and the authorization policy of the
  network allows the subscriber, or if it is the completion of ciphering while a security operation for a location update is
  pending; and such a security operation is started only under the same conditions.\<close>

theorem mm_attach_authorized:
  assumes "gsm0408_dispatch env pd mt data c = Some (r, ev, rc)"
  shows "(\<forall>s. Mm_subscr_update s GSM_SUBSCRIBER_UPDATE_ATTACHED \<in> set ev \<longrightarrow>
             lets_in env r s \<or> (pd AND 0x0f = GSM48_PDISC_RR \<and> mt = GSM48_MT_RR_CIPH_M_COMPL \<and> authorize_pending c s)) \<and>
    (\<forall>d s. r = Some d \<longrightarrow> authorize_pending d s \<longrightarrow> mc_sec_operation d \<noteq> mc_sec_operation c \<longrightarrow> lets_in env r s)"
proof (cases "pd AND 0x0f = GSM48_PDISC_RR \<and> mt = GSM48_MT_RR_CIPH_M_COMPL")
  case True
  then show ?thesis
    using assms ciph_compl_attaches [of c env]
    by (auto simp: gsm0408_dispatch_def gsm0408_rcv_rr_def Let_def attached_def authorize_pending_def mm_ret_def split: if_splits)
next
  case False
  then have "granted env (mc_sec_operation c) r ev" using dispatch_granted [OF False, of env c data] assms by simp
  then show ?thesis
    by (auto simp: granted_def attached_def authorize_pending_def lets_in_def split: option.splits)
qed

text \<open>C14: A connection that only its timers keep ends: when no security operation, silent call or transaction uses it, the
  expiry of the timer of its location update, or of its anchor, clears the channel and frees the connection.\<close>

theorem mm_timers_release:
  assumes "mm_reachable c" "mc_sec_operation c = None" "\<not> mc_silent_call c" "\<not> me_has_trans env"
    and "mc_loc_operation c \<noteq> None \<or> mc_anch_operation c"
  shows "\<exists>i \<in> {In_loc_timer, In_anchor_timer}. mm_input_ok i c \<and>
    (\<exists>ev rc. mm_step env i c = Some (None, ev, rc) \<and> Mm_gsm0808_clear \<in> set ev \<and> Mm_con_free \<in> set ev)"
proof -
  have inv: "mm_inv c" "\<not> mc_in_release c" using mm_reachable_inv [OF assms(1)] by auto
  show ?thesis
  proof (cases "mc_loc_operation c")
    case None
    then have "mm_input_ok In_anchor_timer c \<and> (\<exists>ev rc. mm_step env In_anchor_timer c = Some (None, ev, rc) \<and> Mm_gsm0808_clear \<in> set ev \<and> Mm_con_free \<in> set ev)"
      using assms inv by (auto simp: mm_input_ok_def mm_step_def anchor_timeout_def msc_release_connection_def release_anchor_def mm_inv_def)
    then show ?thesis by blast
  next
    case (Some lo)
    then have "mm_input_ok In_loc_timer c \<and> (\<exists>ev rc. mm_step env In_loc_timer c = Some (None, ev, rc) \<and> Mm_gsm0808_clear \<in> set ev \<and> Mm_con_free \<in> set ev)"
      using assms inv by (auto simp: mm_input_ok_def mm_step_def loc_upd_rej_cb_def tx_msg_defs release_loc_updating_req_def
        msc_release_connection_def release_anchor_def mm_inv_def mm_pre_def)
    then show ?thesis by blast
  qed
qed

text \<open>C24: When the BSC loses the channel, the connection is prepared for being freed by the BSC: the location update, the
  security operation and the anchor are gone, whoever waits for the channel to be secured is told that it failed, the
  queue of the subscriber gets its channel back, and the MSC itself does not free the connection.\<close>

theorem mm_clear_request_ends_all:
  assumes "mm_reachable c"
  shows "\<exists>d ev. msc_clear_request env c = Some (Some d, ev, 1) \<and>
    mc_loc_operation d = None \<and> mc_sec_operation d = None \<and> \<not> mc_anch_operation d \<and> \<not> mc_put_channel d \<and>
    Mm_con_free \<notin> set ev \<and> Mm_gsm0808_clear \<notin> set ev \<and>
    (\<forall>op s. mc_sec_operation c = Some op \<longrightarrow> so_cb op = Paging_sec_cb s \<longrightarrow> Mm_paging_sec_cb s GSM_SECURITY_AUTH_FAILED \<in> set ev) \<and>
    (\<forall>s. mc_put_channel c \<longrightarrow> mc_subscr c = Some s \<longrightarrow> Mm_put_channel s \<in> set ev)"
proof -
  have rel: "msc_release_connection env d = mm_ret d [] 0" if "mc_in_release d" for d using that by (simp add: msc_release_connection_def)
  have loc: "release_loc_updating_req env (c\<lparr>mc_in_release := True\<rparr>) =
      mm_ret (if mc_loc_operation c = None then c\<lparr>mc_in_release := True\<rparr>
        else c\<lparr>mc_in_release := True, mc_anch_operation := False, mc_loc_operation := None\<rparr>) [] 0"
    by (simp add: release_loc_updating_req_def release_anchor_def rel)
  have "mc_put_channel c \<longrightarrow> mc_subscr c \<noteq> None" using mm_reachable_inv [OF assms] by (simp add: mm_inv_def)
  then show ?thesis
    by (auto simp: msc_clear_request_def gsm0408_clear_request_def loc call_sec_cb_def gsm0408_authorize_sec_cb_def
      gsm48_rx_mm_serv_req_sec_cb_def release_loc_updating_req_def release_security_operation_def release_anchor_def rel Let_def
      mm_then_def [of "Some _"] mm_ret_def mm_pre_def mm_rc_def split: option.split sec_cb.split)
qed

section \<open>Runs\<close>

primrec mm_run :: "mm_env \<Rightarrow> mm_input list \<Rightarrow> mm_conn \<Rightarrow> mm_out" where
  "mm_run env [] c = mm_ret c [] 0"
| "mm_run env (i # is) c = mm_then (mm_step env i c) (\<lambda>c _. mm_run env is c)"

text \<open>A network with subscriber 1, authorized, and subscriber 2, not authorized; the third octet of an identity is the
  subscriber.\<close>

definition sample_mm_env :: mm_env where
  "sample_mm_env =
     \<lparr>me_auth_policy = GSM_AUTH_POLICY_CLOSED, me_authorized = (\<lambda>s. s = 1), me_first_contact = (\<lambda>s. False), me_a5_encryption = 2,
      me_alg_id = 0, me_a5n_support = (\<lambda>s. True),
      me_authinfo = (\<lambda>s. Inr \<lparr>ai_auth_algo = AUTH_ALGO_XOR, ai_ki_len = 16, ai_ki = replicate 16 0x5a\<rparr>),
      me_lastauthtuple = (\<lambda>s. (-1, \<lparr>at_use_count = 0, at_key_seq = 0, at_rand = [], at_sres = [], at_kc = []\<rparr>)),
      me_random = (\<lambda>i. of_nat i), me_comp128 = (\<lambda>ki r. ([], [])),
      me_by_imsi = (\<lambda>mi. if mi = ''1'' then Some 1 else if mi = ''2'' then Some 2 else None),
      me_by_tmsi = (\<lambda>mi. None), me_create = (\<lambda>mi. None), me_mi_to_string = (\<lambda>mi len. if mi ! 0 = 0x19 then ''1'' else ''2''),
      me_paging_mi = (\<lambda>d. (0, [])), me_tmsi_mid = (\<lambda>s. []), me_lai = [], me_names = (None, None), me_7bit = (\<lambda>s. []),
      me_send_mm_info = False, me_reject_cause = 3, me_siemens = False, me_data_len = 100, me_has_trans = False,
      me_ussd = (\<lambda>d. ([], 0, 0)), me_ussd_response = (\<lambda>i s. []), me_rc = (\<lambda>e. 0)\<rparr>"

lemma lu_imsi_step:
  assumes "mc_loc_operation c = None" "length lu \<ge> 9" "lu ! 8 AND GSM_MI_TYPE_MASK = GSM_MI_TYPE_IMSI"
    and "me_by_imsi env (me_mi_to_string env (drop 8 lu) (lu ! 7)) = Some s"
  shows "\<exists>ev. mm_step env (In_dispatch GSM48_PDISC_MM GSM48_MT_MM_LOC_UPD_REQUEST lu) c =
    mm_ret (c\<lparr>mc_loc_operation := Some \<lparr>lo_waiting_for_imsi = False, lo_waiting_for_imei = True, lo_key_seq = drop_bit 4 (lu ! 0),
      lo_updating_timer = True\<rparr>, mc_subscr := Some s\<rparr>) ev 0"
  using assms
  by (auto simp: mm_step_def gsm0408_dispatch_def silent_call_reroute_def silent_call_accept_def gsm0408_rcv_mm_def
    mm_rx_loc_upd_req_def rd_def Let_def allocate_loc_updating_req_def release_loc_updating_req_def loc_upd_identity_def
    want_identity_def get_or_create_imsi_def schedule_reject_def upd_loc_def tx_msg_defs gsm0408_authorize_def authorize_subscriber_def)

lemma imei_step:
  assumes "\<not> mc_silent_call c" "mc_loc_operation c = Some lo" "\<not> lo_waiting_for_imsi lo" "mc_subscr c = Some s" "mc_sec_operation c = None"
    and "length imei \<ge> 2" "imei ! 1 AND GSM_MI_TYPE_MASK = GSM_MI_TYPE_IMEI"
    and "authorize_subscriber env None (Some s)" "me_a5_encryption env \<noteq> 0" "me_alg_id env \<le> 1" "me_a5n_support env s"
    and "auth_get_tuple_for_subscr env s (lo_key_seq lo) = (t, tev, AUTH_DO_AUTH_THAN_CIPH)"
  shows "\<exists>ev rc. mm_step env (In_dispatch GSM48_PDISC_MM GSM48_MT_MM_ID_RESP imei) c =
    mm_ret (c\<lparr>mc_loc_operation := Some (lo\<lparr>lo_waiting_for_imei := False\<rparr>),
      mc_sec_operation := Some \<lparr>so_atuple = t, so_cb = Authorize_sec_cb\<rparr>\<rparr>) ev rc"
  using assms
  by (auto simp: mm_step_def gsm0408_dispatch_def silent_call_reroute_def gsm0408_rcv_mm_def mm_rx_id_resp_def rd_def Let_def
    upd_loc_def tx_msg_defs gsm0408_authorize_def authorize_subscriber_def gsm48_secure_channel_def mm_send_def)

lemma ciph_step:
  assumes "\<not> mc_silent_call c" "mc_sec_operation c = Some op" "so_cb op = Authorize_sec_cb" "mc_subscr c = Some s" "mc_loc_operation c \<noteq> None"
  shows "wp False (\<lambda>r ev. r \<noteq> None \<and> attached ev s) (mm_step env (In_dispatch GSM48_PDISC_RR GSM48_MT_RR_CIPH_M_COMPL data) c)"
  using assms
  by (auto simp: mm_step_def gsm0408_dispatch_def silent_call_reroute_def gsm0408_rcv_rr_def gsm48_rx_rr_ciph_m_compl_def
    call_sec_cb_def gsm0408_authorize_sec_cb_def tx_msg_defs release_security_operation_def msc_release_connection_def)

lemma rej_step:
  assumes "mc_loc_operation c \<noteq> None" "mc_sec_operation c \<noteq> None"
  shows "\<exists>ev rc. mm_step env In_loc_timer c = mm_ret (c\<lparr>mc_anch_operation := False, mc_loc_operation := None\<rparr>) ev rc"
  using assms
  by (auto simp: mm_step_def loc_upd_rej_cb_def tx_msg_defs release_loc_updating_req_def msc_release_connection_def release_anchor_def)

lemma wp_exists: "wp False Q r \<Longrightarrow> \<exists>c ev rc. r = Some (c, ev, rc) \<and> Q c ev"
  by (auto simp: wp_def split: option.splits)

lemma wp_alive: "wp False (\<lambda>r ev. r \<noteq> None \<and> Q ev) out \<Longrightarrow> \<exists>d ev rc. out = mm_ret d ev rc \<and> Q ev"
  by (auto simp: wp_def mm_ret_def split: option.splits)

text \<open>An identity that the network allows is asked to authenticate itself.\<close>

definition auth_pending :: "nat \<Rightarrow> u8 \<Rightarrow> gsm_auth_tuple \<Rightarrow> mm_conn" where
  "auth_pending s key_seq t =
     \<lparr>mc_subscr = Some s,
      mc_loc_operation = Some \<lparr>lo_waiting_for_imsi = False, lo_waiting_for_imei = False, lo_key_seq = key_seq, lo_updating_timer = True\<rparr>,
      mc_sec_operation = Some \<lparr>so_atuple = t, so_cb = Authorize_sec_cb\<rparr>, mc_anch_operation = True,
      mc_silent_call = False, mc_put_channel = False, mc_in_release = False\<rparr>"

lemma auth_requested:
  assumes "length lu \<ge> 9" "lu ! 8 AND GSM_MI_TYPE_MASK = GSM_MI_TYPE_IMSI"
    and "me_by_imsi env (me_mi_to_string env (drop 8 lu) (lu ! 7)) = Some s"
    and "length imei \<ge> 2" "imei ! 1 AND GSM_MI_TYPE_MASK = GSM_MI_TYPE_IMEI"
    and "authorize_subscriber env None (Some s)" "me_a5_encryption env \<noteq> 0" "me_alg_id env \<le> 1" "me_a5n_support env s"
    and "auth_get_tuple_for_subscr env s (drop_bit 4 (lu ! 0)) = (t, tev, AUTH_DO_AUTH_THAN_CIPH)"
  shows "\<exists>ev. \<forall>is.
    mm_run env
      (In_dispatch GSM48_PDISC_MM GSM48_MT_MM_LOC_UPD_REQUEST lu # In_dispatch GSM48_PDISC_MM GSM48_MT_MM_ID_RESP imei # is)
      (gsm0408_new_conn mm_fresh) = mm_pre ev (mm_run env is (auth_pending s (drop_bit 4 (lu ! 0)) t))"
proof -
  let ?c = "gsm0408_new_conn mm_fresh"
  let ?lo = "\<lparr>lo_waiting_for_imsi = False, lo_waiting_for_imei = True, lo_key_seq = drop_bit 4 (lu ! 0), lo_updating_timer = True\<rparr>"
  let ?c1 = "?c\<lparr>mc_loc_operation := Some ?lo, mc_subscr := Some s\<rparr>"
  have f: "mc_loc_operation ?c = None" "\<not> mc_silent_call ?c1" "mc_sec_operation ?c1 = None" by (simp_all add: gsm0408_new_conn_def mm_fresh_def)
  obtain e1 where 1: "mm_step env (In_dispatch GSM48_PDISC_MM GSM48_MT_MM_LOC_UPD_REQUEST lu) ?c = mm_ret ?c1 e1 0"
    using lu_imsi_step [OF f(1) assms(1-3)] by blast
  obtain e2 rc2 where 2: "mm_step env (In_dispatch GSM48_PDISC_MM GSM48_MT_MM_ID_RESP imei) ?c1 = mm_ret (?c1\<lparr>mc_loc_operation :=
      Some (?lo\<lparr>lo_waiting_for_imei := False\<rparr>), mc_sec_operation := Some \<lparr>so_atuple = t, so_cb = Authorize_sec_cb\<rparr>\<rparr>) e2 rc2"
    using imei_step [of ?c1 ?lo s imei env t tev] f assms(4-) by auto
  have "?c1\<lparr>mc_loc_operation := Some (?lo\<lparr>lo_waiting_for_imei := False\<rparr>),
      mc_sec_operation := Some \<lparr>so_atuple = t, so_cb = Authorize_sec_cb\<rparr>\<rparr> = auth_pending s (drop_bit 4 (lu ! 0)) t"
    by (simp add: auth_pending_def gsm0408_new_conn_def mm_fresh_def)
  then show ?thesis using 1 2 by (intro exI [of _ "e1 @ e2"]) simp
qed

text \<open>C16: The code does not check, at the completion of ciphering, that the authentication it asked for was answered: a mobile station
  that answers the AUTHENTICATION REQUEST with CIPHERING MODE COMPLETE is attached as the subscriber whose IMSI it sent.\<close>

theorem mm_authentication_skipped:
  assumes "length lu \<ge> 9" "lu ! 8 AND GSM_MI_TYPE_MASK = GSM_MI_TYPE_IMSI"
    and "me_by_imsi env (me_mi_to_string env (drop 8 lu) (lu ! 7)) = Some s"
    and "length imei \<ge> 2" "imei ! 1 AND GSM_MI_TYPE_MASK = GSM_MI_TYPE_IMEI"
    and "authorize_subscriber env None (Some s)" "me_a5_encryption env \<noteq> 0" "me_alg_id env \<le> 1" "me_a5n_support env s"
    and "auth_get_tuple_for_subscr env s (drop_bit 4 (lu ! 0)) = (t, tev, AUTH_DO_AUTH_THAN_CIPH)"
  shows "\<exists>r ev rc.
    mm_run env
      [In_dispatch GSM48_PDISC_MM GSM48_MT_MM_LOC_UPD_REQUEST lu,
       In_dispatch GSM48_PDISC_MM GSM48_MT_MM_ID_RESP imei,
       In_dispatch GSM48_PDISC_RR GSM48_MT_RR_CIPH_M_COMPL []] (gsm0408_new_conn mm_fresh) = Some (r, ev, rc) \<and>
    Mm_subscr_update s GSM_SUBSCRIBER_UPDATE_ATTACHED \<in> set ev"
proof -
  obtain d ev rc where "mm_step env (In_dispatch GSM48_PDISC_RR GSM48_MT_RR_CIPH_M_COMPL []) (auth_pending s (drop_bit 4 (lu ! 0)) t) = mm_ret d ev rc" "attached ev s"
    using wp_alive [OF ciph_step [of "auth_pending s (drop_bit 4 (lu ! 0)) t" "\<lparr>so_atuple = t, so_cb = Authorize_sec_cb\<rparr>" s env "[]"]]
    by (auto simp: auth_pending_def)
  moreover obtain ev where "\<forall>is. mm_run env
      (In_dispatch GSM48_PDISC_MM GSM48_MT_MM_LOC_UPD_REQUEST lu # In_dispatch GSM48_PDISC_MM GSM48_MT_MM_ID_RESP imei # is)
      (gsm0408_new_conn mm_fresh) = mm_pre ev (mm_run env is (auth_pending s (drop_bit 4 (lu ! 0)) t))"
    using auth_requested [OF assms] by blast
  ultimately show ?thesis by (intro wp_exists) (simp add: attached_def del: mm_run.simps(2), simp add: attached_def)
qed

text \<open>C17: The security operation of a rejected location update survives it, and a second request replaces the subscriber of the
  connection: when ciphering completes, the code attaches the subscriber of the second request, whom no policy was
  asked about.\<close>

theorem mm_second_identity_unchecked:
  assumes "length lu \<ge> 9" "lu ! 8 AND GSM_MI_TYPE_MASK = GSM_MI_TYPE_IMSI"
    and "me_by_imsi env (me_mi_to_string env (drop 8 lu) (lu ! 7)) = Some s"
    and "length imei \<ge> 2" "imei ! 1 AND GSM_MI_TYPE_MASK = GSM_MI_TYPE_IMEI"
    and "authorize_subscriber env None (Some s)" "me_a5_encryption env \<noteq> 0" "me_alg_id env \<le> 1" "me_a5n_support env s"
    and "auth_get_tuple_for_subscr env s (drop_bit 4 (lu ! 0)) = (t, tev, AUTH_DO_AUTH_THAN_CIPH)"
    and "length lu' \<ge> 9" "lu' ! 8 AND GSM_MI_TYPE_MASK = GSM_MI_TYPE_IMSI"
    and "me_by_imsi env (me_mi_to_string env (drop 8 lu') (lu' ! 7)) = Some s'" "\<not> authorize_subscriber env None (Some s')"
  shows "\<exists>r ev rc.
    mm_run env
      [In_dispatch GSM48_PDISC_MM GSM48_MT_MM_LOC_UPD_REQUEST lu,
       In_dispatch GSM48_PDISC_MM GSM48_MT_MM_ID_RESP imei, In_loc_timer,
       In_dispatch GSM48_PDISC_MM GSM48_MT_MM_LOC_UPD_REQUEST lu',
       In_dispatch GSM48_PDISC_RR GSM48_MT_RR_CIPH_M_COMPL []] (gsm0408_new_conn mm_fresh) = Some (r, ev, rc) \<and>
    Mm_subscr_update s' GSM_SUBSCRIBER_UPDATE_ATTACHED \<in> set ev"
proof -
  let ?p = "auth_pending s (drop_bit 4 (lu ! 0)) t"
  let ?q = "?p\<lparr>mc_anch_operation := False, mc_loc_operation := None\<rparr>"
  let ?r = "?q\<lparr>mc_loc_operation := Some \<lparr>lo_waiting_for_imsi = False, lo_waiting_for_imei = True, lo_key_seq = drop_bit 4 (lu' ! 0),
      lo_updating_timer = True\<rparr>, mc_subscr := Some s'\<rparr>"
  obtain e1 where 1: "\<forall>is. mm_run env
      (In_dispatch GSM48_PDISC_MM GSM48_MT_MM_LOC_UPD_REQUEST lu # In_dispatch GSM48_PDISC_MM GSM48_MT_MM_ID_RESP imei # is)
      (gsm0408_new_conn mm_fresh) = mm_pre e1 (mm_run env is ?p)"
    using auth_requested [OF assms(1-10)] by blast
  obtain e2 rc2 where 2: "mm_step env In_loc_timer ?p = mm_ret ?q e2 rc2" using rej_step [of ?p env] by (auto simp: auth_pending_def)
  obtain e3 where 3: "mm_step env (In_dispatch GSM48_PDISC_MM GSM48_MT_MM_LOC_UPD_REQUEST lu') ?q = mm_ret ?r e3 0"
    using lu_imsi_step [of ?q, OF _ assms(11-13)] by auto
  obtain d e4 rc4 where 4: "mm_step env (In_dispatch GSM48_PDISC_RR GSM48_MT_RR_CIPH_M_COMPL []) ?r = mm_ret d e4 rc4" "attached e4 s'"
    using wp_alive [OF ciph_step [of ?r "\<lparr>so_atuple = t, so_cb = Authorize_sec_cb\<rparr>" s' env "[]"]] by (auto simp: auth_pending_def)
  show ?thesis
    unfolding 1 [rule_format] by (intro wp_exists) (use 2 3 4 in \<open>simp add: attached_def\<close>)
qed

text \<open>An IDENTITY RESPONSE that nobody asked for ends the program: on a connection without a location update, the response with
  the IMSI of a subscriber that the policy allows makes the code read the key sequence number of the missing operation.\<close>

theorem mm_unasked_identity_crashes:
  assumes "mc_loc_operation c = None" "\<not> mc_silent_call c" "length data \<ge> 2" "data ! 1 AND GSM_MI_TYPE_MASK = GSM_MI_TYPE_IMSI"
    and "(if mc_subscr c = None then me_by_imsi env (me_mi_to_string env (drop 1 data) (data ! 0)) else mc_subscr c) = Some s"
    and "authorize_subscriber env None (Some s)"
  shows "gsm0408_dispatch env GSM48_PDISC_MM GSM48_MT_MM_ID_RESP data c = None"
  using assms
  by (auto simp: gsm0408_dispatch_def silent_call_reroute_def gsm0408_rcv_mm_def mm_rx_id_resp_def rd_def Let_def get_or_create_imsi_def
    upd_loc_def gsm0408_authorize_def mm_pre_def split: if_splits)

section \<open>Witnesses\<close>

lemmas sample_mm_defs = sample_mm_env_def mm_fresh_def gsm0408_new_conn_def

lemma sample_tuple:
  "\<exists>t tev. auth_get_tuple_for_subscr sample_mm_env 1 7 = (t, tev, AUTH_DO_AUTH_THAN_CIPH)"
  by (simp add: auth_get_tuple_for_subscr_def sample_mm_env_def use_xor_def Let_def)


lemma mm_timers_release_witness:
  "\<exists>i \<in> {In_loc_timer, In_anchor_timer}. mm_input_ok i (gsm0408_new_conn mm_fresh) \<and>
    (\<exists>ev rc. mm_step sample_mm_env i (gsm0408_new_conn mm_fresh) = Some (None, ev, rc) \<and> Mm_gsm0808_clear \<in> set ev \<and> Mm_con_free \<in> set ev)"
  by (rule mm_timers_release [OF mm_reachable.new]) (simp_all add: sample_mm_defs)

lemma mm_clear_request_ends_all_witness:
  "\<exists>d ev. msc_clear_request sample_mm_env (gsm0408_new_conn mm_fresh) = Some (Some d, ev, 1) \<and> \<not> mc_anch_operation d"
  using mm_clear_request_ends_all [OF mm_reachable.new, of sample_mm_env] by blast

text \<open>Subscriber 1 without encryption: the answer with the IMEI attaches.\<close>

lemma mm_attach_authorized_witness:
  "\<exists>r ev rc. gsm0408_dispatch (sample_mm_env\<lparr>me_a5_encryption := 0\<rparr>) GSM48_PDISC_MM GSM48_MT_MM_ID_RESP [1, 2]
      ((auth_pending 1 7 (snd (me_lastauthtuple sample_mm_env 1)))\<lparr>mc_sec_operation := None\<rparr>) = Some (r, ev, rc) \<and>
    attached ev 1 \<and> lets_in (sample_mm_env\<lparr>me_a5_encryption := 0\<rparr>) r 1"
proof -
  let ?env = "sample_mm_env\<lparr>me_a5_encryption := 0\<rparr>"
  let ?c = "(auth_pending 1 7 (snd (me_lastauthtuple sample_mm_env 1)))\<lparr>mc_sec_operation := None\<rparr>"
  have "wp False (\<lambda>r ev. attached ev 1) (gsm0408_dispatch ?env GSM48_PDISC_MM GSM48_MT_MM_ID_RESP [1, 2] ?c)"
    by (simp add: gsm0408_dispatch_def silent_call_reroute_def gsm0408_rcv_mm_def mm_rx_id_resp_def rd_def Let_def upd_loc_def tx_msg_defs
      gsm0408_authorize_def authorize_subscriber_def gsm48_secure_channel_def call_sec_cb_def gsm0408_authorize_sec_cb_def
      auth_pending_def sample_mm_env_def)
  then obtain r ev rc where d: "gsm0408_dispatch ?env GSM48_PDISC_MM GSM48_MT_MM_ID_RESP [1, 2] ?c = Some (r, ev, rc)" "attached ev 1"
    using wp_exists by blast
  then show ?thesis using mm_attach_authorized [OF d(1)] by (auto simp: attached_def)
qed

lemma mm_authentication_skipped_witness:
  "\<exists>r ev rc. mm_run sample_mm_env
      [In_dispatch GSM48_PDISC_MM GSM48_MT_MM_LOC_UPD_REQUEST [0x70, 0, 0xf1, 0x10, 0, 1, 0, 1, 0x19],
       In_dispatch GSM48_PDISC_MM GSM48_MT_MM_ID_RESP [1, 2],
       In_dispatch GSM48_PDISC_RR GSM48_MT_RR_CIPH_M_COMPL []] (gsm0408_new_conn mm_fresh) = Some (r, ev, rc) \<and>
    Mm_subscr_update 1 GSM_SUBSCRIBER_UPDATE_ATTACHED \<in> set ev"
proof -
  obtain t tev where "auth_get_tuple_for_subscr sample_mm_env 1 7 = (t, tev, AUTH_DO_AUTH_THAN_CIPH)" using sample_tuple by blast
  then show ?thesis
    by (intro mm_authentication_skipped [of _ sample_mm_env 1 _ t tev]) (simp_all add: sample_mm_env_def authorize_subscriber_def)
qed

lemma mm_second_identity_unchecked_witness:
  "\<exists>r ev rc. mm_run sample_mm_env
      [In_dispatch GSM48_PDISC_MM GSM48_MT_MM_LOC_UPD_REQUEST [0x70, 0, 0xf1, 0x10, 0, 1, 0, 1, 0x19],
       In_dispatch GSM48_PDISC_MM GSM48_MT_MM_ID_RESP [1, 2], In_loc_timer,
       In_dispatch GSM48_PDISC_MM GSM48_MT_MM_LOC_UPD_REQUEST [0x70, 0, 0xf1, 0x10, 0, 1, 0, 1, 0x29],
       In_dispatch GSM48_PDISC_RR GSM48_MT_RR_CIPH_M_COMPL []] (gsm0408_new_conn mm_fresh) = Some (r, ev, rc) \<and>
    Mm_subscr_update 2 GSM_SUBSCRIBER_UPDATE_ATTACHED \<in> set ev"
proof -
  obtain t tev where "auth_get_tuple_for_subscr sample_mm_env 1 7 = (t, tev, AUTH_DO_AUTH_THAN_CIPH)" using sample_tuple by blast
  then show ?thesis
    by (intro mm_second_identity_unchecked [of _ sample_mm_env 1 _ t tev]) (simp_all add: sample_mm_env_def authorize_subscriber_def)
qed

lemma mm_unasked_identity_crashes_witness:
  "gsm0408_dispatch sample_mm_env GSM48_PDISC_MM GSM48_MT_MM_ID_RESP [1, 0x19] (gsm0408_new_conn mm_fresh) = None"
  by (rule mm_unasked_identity_crashes [where s = 1]) (simp_all add: sample_mm_defs authorize_subscriber_def)

end
