(* ===== verification/Gprs_Sgsn.thy ===== *)
theory Gprs_Sgsn
  imports Gprs_Llc "HOL-Library.Monad_Syntax"
begin

unbundle bit_operations_syntax

text \<open>
  The contexts of the SGSN (\<^verbatim>\<open>src/gprs/gprs_sgsn.c\<close>): mobility management contexts of the mobile stations, their packet
  data contexts, and the gateways. Contexts have addresses, given out by a counter, because the library for the
  tunnels and the timers keep pointers to them. The list \<open>sg_stale\<close> has the addresses of freed contexts whose
  timer still runs. The random numbers are a stream that \<open>sg_rnd\<close> reads.
\<close>

section \<open>Contexts\<close>

record gprs_ra_id =
  ra_mcc :: u16
  ra_mnc :: u16
  ra_lac :: u16
  ra_rac :: u8

datatype gprs_mm_state =
  GMM_DEREGISTERED | GMM_COMMON_PROC_INIT | GMM_REGISTERED_NORMAL | GMM_REGISTERED_SUSPENDED | GMM_DEREGISTERED_INIT

datatype gprs_t3350_mode = GMM_T3350_MODE_ATT | GMM_T3350_MODE_RAU | GMM_T3350_MODE_PTMSI_REALL

datatype pdp_ctx_state = PDP_STATE_NONE | PDP_STATE_CR_REQ | PDP_STATE_CR_CONF | PDP_STATE_INACT_PEND

text \<open>What the SGSN uses of the context of the library.\<close>

record gtp_pdp =
  gp_version :: int
  gp_eua :: "u8 list"
  gp_pco_req :: "u8 list"

record sgsn_pdp_ctx =
  pdp_id :: nat
  pdp_ggsn :: "u32 option"
  pdp_lib :: "gtp_pdp option"
  pdp_state :: pdp_ctx_state
  pdp_nsapi :: u16
  pdp_sapi :: u16
  pdp_ti :: u8
  pdp_timer :: bool
  pdp_T :: nat
  pdp_num_T_exp :: nat

record sgsn_mm_ctx =
  mm_id :: nat
  mm_imsi :: string
  mm_imei :: string
  mm_state :: gprs_mm_state
  mm_p_tmsi :: u32
  mm_p_tmsi_old :: u32
  mm_ra :: gprs_ra_id
  mm_cell_id :: u16
  mm_radio_capa :: "u8 list"
  mm_net_capa :: "u8 list"
  mm_drx_parms :: u16
  mm_pdp_list :: "sgsn_pdp_ctx list"
  mm_llme :: nat
  mm_tlli :: u32
  mm_tlli_new :: u32
  mm_nsei :: u16
  mm_bvci :: u16
  mm_timer :: bool
  mm_T :: nat
  mm_num_T_exp :: nat
  mm_t3350_mode :: gprs_t3350_mode
  mm_t3370_id_type :: u8

record sgsn_ggsn_ctx =
  gg_id :: u32
  gg_gtp_version :: int
  gg_remote_addr :: u32
  gg_remote_restart_ctr :: int

record sgsn =
  sg_mm_ctxts :: "sgsn_mm_ctx list"
  sg_ggsn_ctxts :: "sgsn_ggsn_ctx list"
  sg_next :: nat
  sg_stale :: "nat list"
  sg_rnd :: nat

abbreviation mm_by_id :: "nat \<Rightarrow> sgsn \<Rightarrow> sgsn_mm_ctx option" where
  "mm_by_id i sg \<equiv> find (\<lambda>m. mm_id m = i) (sg_mm_ctxts sg)"

definition upd_mm :: "nat \<Rightarrow> (sgsn_mm_ctx \<Rightarrow> sgsn_mm_ctx) \<Rightarrow> sgsn \<Rightarrow> sgsn" where
  "upd_mm i f sg = sg\<lparr>sg_mm_ctxts := map (\<lambda>m. if mm_id m = i then f m else m) (sg_mm_ctxts sg)\<rparr>"

definition upd_pdp :: "nat \<Rightarrow> (sgsn_pdp_ctx \<Rightarrow> sgsn_pdp_ctx) \<Rightarrow> sgsn \<Rightarrow> sgsn" where
  "upd_pdp i f sg =
     sg\<lparr>sg_mm_ctxts := map (\<lambda>m. m\<lparr>mm_pdp_list := map (\<lambda>p. if pdp_id p = i then f p else p) (mm_pdp_list m)\<rparr>) (sg_mm_ctxts sg)\<rparr>"

text \<open>A packet data context with the mobility context it points back to.\<close>

definition pdp_by_id :: "nat \<Rightarrow> sgsn \<Rightarrow> (sgsn_mm_ctx \<times> sgsn_pdp_ctx) option" where
  "pdp_by_id i sg =
     (case find (\<lambda>m. list_ex (\<lambda>p. pdp_id p = i) (mm_pdp_list m)) (sg_mm_ctxts sg) of
        None \<Rightarrow> None
      | Some m \<Rightarrow> map_option (Pair m) (find (\<lambda>p. pdp_id p = i) (mm_pdp_list m)))"

section \<open>Looking up and allocating\<close>

definition ra_id_equals :: "gprs_ra_id \<Rightarrow> gprs_ra_id \<Rightarrow> bool" where
  "ra_id_equals id1 id2 \<longleftrightarrow> ra_mcc id1 = ra_mcc id2 \<and> ra_mnc id1 = ra_mnc id2 \<and> ra_lac id1 = ra_lac id2 \<and> ra_rac id1 = ra_rac id2"

definition tlli_foreign :: "u32 \<Rightarrow> u32" where
  "tlli_foreign tlli = (tlli OR 0x80000000) AND NOT 0x40000000"

text \<open>A local TLLI that is found by the P-TMSI becomes the TLLI of its context.\<close>

definition sgsn_mm_ctx_by_tlli :: "(u32 \<Rightarrow> tlli_type) \<Rightarrow> u32 \<Rightarrow> gprs_ra_id \<Rightarrow> sgsn \<Rightarrow> sgsn_mm_ctx option \<times> sgsn" where
  "sgsn_mm_ctx_by_tlli tlli_type tlli raid sg =
     (case find (\<lambda>c. tlli = mm_tlli c \<and> ra_id_equals raid (mm_ra c)) (sg_mm_ctxts sg) of
        Some c \<Rightarrow> (Some c, sg)
      | None \<Rightarrow>
          (if tlli_type tlli = TLLI_LOCAL
           then (case find (\<lambda>c. mm_p_tmsi c OR 0xC0000000 = tlli \<or>
                              (mm_p_tmsi_old c \<noteq> 0 \<and> mm_p_tmsi_old c OR 0xC0000000 = tlli)) (sg_mm_ctxts sg) of
                   Some c \<Rightarrow> (Some (c\<lparr>mm_tlli := tlli\<rparr>), upd_mm (mm_id c) (\<lambda>c. c\<lparr>mm_tlli := tlli\<rparr>) sg)
                 | None \<Rightarrow> (None, sg))
           else if tlli_type tlli = TLLI_FOREIGN
           then (find (\<lambda>c. tlli = tlli_foreign (mm_tlli c) \<and> ra_id_equals raid (mm_ra c)) (sg_mm_ctxts sg), sg)
           else (None, sg)))"

definition sgsn_mm_ctx_by_ptmsi :: "u32 \<Rightarrow> sgsn \<Rightarrow> sgsn_mm_ctx option" where
  "sgsn_mm_ctx_by_ptmsi p_tmsi sg =
     find (\<lambda>c. p_tmsi = mm_p_tmsi c \<or> (mm_p_tmsi_old c \<noteq> 0 \<and> mm_p_tmsi_old c = p_tmsi)) (sg_mm_ctxts sg)"

definition sgsn_mm_ctx_by_imsi :: "string \<Rightarrow> sgsn \<Rightarrow> sgsn_mm_ctx option" where
  "sgsn_mm_ctx_by_imsi imsi sg = find (\<lambda>c. imsi = mm_imsi c) (sg_mm_ctxts sg)"

definition sgsn_mm_ctx_alloc :: "u32 \<Rightarrow> gprs_ra_id \<Rightarrow> sgsn \<Rightarrow> sgsn_mm_ctx \<times> sgsn" where
  "sgsn_mm_ctx_alloc tlli raid sg =
     (let ctx = \<lparr>mm_id = sg_next sg, mm_imsi = [], mm_imei = [], mm_state = GMM_DEREGISTERED, mm_p_tmsi = 0, mm_p_tmsi_old = 0,
                 mm_ra = raid, mm_cell_id = 0, mm_radio_capa = [], mm_net_capa = [], mm_drx_parms = 0, mm_pdp_list = [], mm_llme = 0,
                 mm_tlli = tlli, mm_tlli_new = 0, mm_nsei = 0, mm_bvci = 0, mm_timer = False, mm_T = 0, mm_num_T_exp = 0,
                 mm_t3350_mode = GMM_T3350_MODE_ATT, mm_t3370_id_type = 0\<rparr>
      in (ctx, sg\<lparr>sg_mm_ctxts := ctx # sg_mm_ctxts sg, sg_next := Suc (sg_next sg)\<rparr>))"

text \<open>The timers of the context and of its packet data contexts are not stopped.\<close>

definition sgsn_mm_ctx_free :: "nat \<Rightarrow> sgsn \<Rightarrow> sgsn" where
  "sgsn_mm_ctx_free i sg =
     (let gone = filter (\<lambda>m. mm_id m = i) (sg_mm_ctxts sg)
      in sg\<lparr>sg_mm_ctxts := filter (\<lambda>m. mm_id m \<noteq> i) (sg_mm_ctxts sg),
            sg_stale := concat (map (\<lambda>m. (if mm_timer m then [mm_id m] else []) @ map pdp_id (filter pdp_timer (mm_pdp_list m))) gone) @
              sg_stale sg\<rparr>)"

definition sgsn_pdp_ctx_by_nsapi :: "sgsn_mm_ctx \<Rightarrow> u16 \<Rightarrow> sgsn_pdp_ctx option" where
  "sgsn_pdp_ctx_by_nsapi mm nsapi = find (\<lambda>p. pdp_nsapi p = nsapi) (mm_pdp_list mm)"

definition sgsn_pdp_ctx_by_tid :: "sgsn_mm_ctx \<Rightarrow> u8 \<Rightarrow> sgsn_pdp_ctx option" where
  "sgsn_pdp_ctx_by_tid mm tid = find (\<lambda>p. pdp_ti p = tid) (mm_pdp_list mm)"

definition sgsn_pdp_ctx_alloc :: "sgsn_mm_ctx \<Rightarrow> u16 \<Rightarrow> sgsn \<Rightarrow> (sgsn_pdp_ctx \<times> sgsn) option" where
  "sgsn_pdp_ctx_alloc mm nsapi sg =
     (if sgsn_pdp_ctx_by_nsapi mm nsapi \<noteq> None then None
      else (let pdp = \<lparr>pdp_id = sg_next sg, pdp_ggsn = None, pdp_lib = None, pdp_state = PDP_STATE_NONE, pdp_nsapi = nsapi, pdp_sapi = 0,
                       pdp_ti = 0, pdp_timer = False, pdp_T = 0, pdp_num_T_exp = 0\<rparr>
            in Some (pdp, (upd_mm (mm_id mm) (\<lambda>m. m\<lparr>mm_pdp_list := pdp # mm_pdp_list m\<rparr>) sg)\<lparr>sg_next := Suc (sg_next sg)\<rparr>)))"

definition sgsn_pdp_ctx_free :: "nat \<Rightarrow> sgsn \<Rightarrow> sgsn" where
  "sgsn_pdp_ctx_free i sg =
     sg\<lparr>sg_mm_ctxts := map (\<lambda>m. m\<lparr>mm_pdp_list := filter (\<lambda>p. pdp_id p \<noteq> i) (mm_pdp_list m)\<rparr>) (sg_mm_ctxts sg),
        sg_stale := concat (map (\<lambda>m. map pdp_id (filter (\<lambda>p. pdp_id p = i \<and> pdp_timer p) (mm_pdp_list m))) (sg_mm_ctxts sg)) @ sg_stale sg\<rparr>"

definition sgsn_ggsn_ctx_by_id :: "u32 \<Rightarrow> sgsn \<Rightarrow> sgsn_ggsn_ctx option" where
  "sgsn_ggsn_ctx_by_id i sg = find (\<lambda>g. i = gg_id g) (sg_ggsn_ctxts sg)"

definition sgsn_ggsn_ctx_by_addr :: "u32 \<Rightarrow> sgsn \<Rightarrow> sgsn_ggsn_ctx option" where
  "sgsn_ggsn_ctx_by_addr addr sg = find (\<lambda>g. addr = gg_remote_addr g) (sg_ggsn_ctxts sg)"

definition sgsn_ggsn_ctx_alloc :: "u32 \<Rightarrow> sgsn \<Rightarrow> sgsn_ggsn_ctx \<times> sgsn" where
  "sgsn_ggsn_ctx_alloc i sg =
     (let g = \<lparr>gg_id = i, gg_gtp_version = 1, gg_remote_addr = 0, gg_remote_restart_ctr = - 1\<rparr>
      in (g, sg\<lparr>sg_ggsn_ctxts := g # sg_ggsn_ctxts sg\<rparr>))"

definition sgsn_ggsn_ctx_find_alloc :: "u32 \<Rightarrow> sgsn \<Rightarrow> sgsn_ggsn_ctx \<times> sgsn" where
  "sgsn_ggsn_ctx_find_alloc i sg = (case sgsn_ggsn_ctx_by_id i sg of Some g \<Rightarrow> (g, sg) | None \<Rightarrow> sgsn_ggsn_ctx_alloc i sg)"

text \<open>Numbers are drawn until one is not in use; \<open>None\<close> is a search without end.\<close>

partial_function (option) ptmsi_loop :: "(nat \<Rightarrow> u32) \<Rightarrow> nat \<Rightarrow> sgsn_mm_ctx list \<Rightarrow> (u32 \<times> nat) option" where
  "ptmsi_loop rnd k ctxts =
     (if list_ex (\<lambda>m. mm_p_tmsi m = rnd k) ctxts then ptmsi_loop rnd (Suc k) ctxts else Some (rnd k, Suc k))"

declare ptmsi_loop.simps [code]

definition sgsn_alloc_ptmsi :: "(nat \<Rightarrow> u32) \<Rightarrow> sgsn \<Rightarrow> (u32 \<times> sgsn) option" where
  "sgsn_alloc_ptmsi rnd sg = do {
     (p, k) \<leftarrow> ptmsi_loop rnd (sg_rnd sg) (sg_mm_ctxts sg);
     Some (p, sg\<lparr>sg_rnd := k\<rparr>) }"

section \<open>Lemmas\<close>

lemma ptmsi_loop_fresh: "ptmsi_loop rnd k ctxts = Some r \<Longrightarrow> fst r \<notin> mm_p_tmsi ` set ctxts"
  by (rule ptmsi_loop.raw_induct [where P = "\<lambda>rnd k ctxts r. fst r \<notin> mm_p_tmsi ` set ctxts"])
    (auto simp: list_ex_iff split: if_splits)

text \<open>The search ends when some later number is free.\<close>

lemma ptmsi_loop_returns:
  "rnd (k + n) \<notin> mm_p_tmsi ` set ctxts \<Longrightarrow> \<exists>p k'. ptmsi_loop rnd k ctxts = Some (p, k')"
proof (induction n arbitrary: k)
  case 0
  then show ?case by (subst ptmsi_loop.simps) (auto simp: list_ex_iff image_iff)
next
  case (Suc n)
  then show ?case using Suc.IH [of "Suc k"] by (subst ptmsi_loop.simps) auto
qed

text \<open>The search for a P-TMSI ends when a random number that comes later is not in use, and the P-TMSI it finds is in no context.\<close>

theorem ptmsi_search_ends:
  assumes "rnd (sg_rnd sg + n) \<notin> mm_p_tmsi ` set (sg_mm_ctxts sg)"
  shows "\<exists>p k. sgsn_alloc_ptmsi rnd sg = Some (p, sg\<lparr>sg_rnd := k\<rparr>) \<and> p \<notin> mm_p_tmsi ` set (sg_mm_ctxts sg)"
proof -
  obtain p k where "ptmsi_loop rnd (sg_rnd sg) (sg_mm_ctxts sg) = Some (p, k)" using ptmsi_loop_returns [of rnd "sg_rnd sg" n "sg_mm_ctxts sg"] assms by blast
  then show ?thesis using ptmsi_loop_fresh by (fastforce simp: sgsn_alloc_ptmsi_def)
qed

text \<open>The first number is in use, the second is not.\<close>

lemma ptmsi_search_ends_witness:
  "\<exists>p k. sgsn_alloc_ptmsi of_nat (snd (sgsn_mm_ctx_alloc 7 \<lparr>ra_mcc = 262, ra_mnc = 1, ra_lac = 1, ra_rac = 1\<rparr>
      \<lparr>sg_mm_ctxts = [], sg_ggsn_ctxts = [], sg_next = 0, sg_stale = [], sg_rnd = 0\<rparr>)) =
    Some (p, (snd (sgsn_mm_ctx_alloc 7 \<lparr>ra_mcc = 262, ra_mnc = 1, ra_lac = 1, ra_rac = 1\<rparr>
      \<lparr>sg_mm_ctxts = [], sg_ggsn_ctxts = [], sg_next = 0, sg_stale = [], sg_rnd = 0\<rparr>))\<lparr>sg_rnd := k\<rparr>) \<and> p \<noteq> 0"
  using ptmsi_search_ends [of of_nat "snd (sgsn_mm_ctx_alloc 7 \<lparr>ra_mcc = 262, ra_mnc = 1, ra_lac = 1, ra_rac = 1\<rparr>
      \<lparr>sg_mm_ctxts = [], sg_ggsn_ctxts = [], sg_next = 0, sg_stale = [], sg_rnd = 0\<rparr>)" 1]
  by (simp add: sgsn_mm_ctx_alloc_def Let_def)

end
