(* ===== verification/Gprs_Gmm.thy ===== *)
theory Gprs_Gmm
  imports Gprs_Sgsn
begin

unbundle bit_operations_syntax

text \<open>
  The mobility and session management of the SGSN (\<^verbatim>\<open>src/gprs/gprs_gmm.c\<close>) and its use of the tunnel library
  (\<^verbatim>\<open>src/gprs/sgsn_libgtp.c\<close>), on the contexts of \<open>Gprs_Sgsn\<close>, with the options that \<^verbatim>\<open>configure.ac\<close> sets. The octets of a
  message start after its header. Messages, assignments of the link layer and requests to the tunnel library are
  events; the library answers later, by \<open>cb_conf\<close>. The result \<open>None\<close> is the use of a null pointer or of freed memory,
  an access past a message or an array, or a search for a P-TMSI without end.
\<close>

section \<open>Messages\<close>

record gmm_msg =
  gm_tlli :: u32
  gm_bvci :: u16
  gm_nsei :: u16
  gm_ra :: gprs_ra_id
  gm_cid :: u16
  gm_proto_discr :: u8
  gm_msg_type :: u8
  gm_data :: "u8 list"

datatype gmm_event =
    Llc_tx_ui u32 u16 u16 bool "u8 list"
  | Llgmm_assign nat u32 u32
  | Llgmm_reset nat
  | Fc_ms_init nat u16 u16
  | Gtp_create_req nat u64 u16 "u8 list" "u8 list" "u8 list" "u8 list"
  | Gtp_resend_req nat
  | Gtp_delete_req nat
  | Gtp_freepdp nat
  | Gtp_data_req nat "u8 list"
  | Sndcp_activate nat nat u16
  | Sndcp_deactivate nat nat u16
  | Sndcp_unitdata nat nat u16 u32 u16 u16 "u8 list"
  | Bssgp_paging u16 u16 string u32 u16

text \<open>Library functions and what calls of other layers return. The four sizes are those of the buffers of the tunnel library.\<close>

record gmm_env =
  ge_tlli_type :: "u32 \<Rightarrow> tlli_type"
  ge_rand :: "nat \<Rightarrow> u32"
  ge_mi_to_string :: "u8 list \<Rightarrow> u8 \<Rightarrow> string"
  ge_parse_ra :: "u8 list \<Rightarrow> gprs_ra_id"
  ge_construct_ra :: "gprs_ra_id \<Rightarrow> u8 list"
  ge_mid_from_tmsi :: "u32 \<Rightarrow> u8 list"
  ge_gmm_tlv :: "u8 list \<Rightarrow> u8 \<Rightarrow> u8 list option"
  ge_sm_tlv :: "u8 list \<Rightarrow> u8 \<Rightarrow> u8 list option"
  ge_default_qos :: "u8 list"
  ge_radio_pri :: u8
  ge_newpdp_rc :: "u64 \<Rightarrow> u16 \<Rightarrow> int"
  ge_eua_size :: nat
  ge_apn_size :: nat
  ge_pco_size :: nat
  ge_qos_size :: nat
  ge_uninit :: int
  ge_rc :: "gmm_event \<Rightarrow> int"

type_synonym sg_out = "(sgsn \<times> gmm_event list \<times> int) option"

abbreviation (input) GSM48_PDISC_MM_GPRS :: u8 where "GSM48_PDISC_MM_GPRS \<equiv> 0x08"
abbreviation (input) GSM48_PDISC_SM_GPRS :: u8 where "GSM48_PDISC_SM_GPRS \<equiv> 0x0a"
abbreviation (input) GSM48_MT_GMM_ATTACH_REQ :: u8 where "GSM48_MT_GMM_ATTACH_REQ \<equiv> 0x01"
abbreviation (input) GSM48_MT_GMM_ATTACH_ACK :: u8 where "GSM48_MT_GMM_ATTACH_ACK \<equiv> 0x02"
abbreviation (input) GSM48_MT_GMM_ATTACH_COMPL :: u8 where "GSM48_MT_GMM_ATTACH_COMPL \<equiv> 0x03"
abbreviation (input) GSM48_MT_GMM_ATTACH_REJ :: u8 where "GSM48_MT_GMM_ATTACH_REJ \<equiv> 0x04"
abbreviation (input) GSM48_MT_GMM_DETACH_REQ :: u8 where "GSM48_MT_GMM_DETACH_REQ \<equiv> 0x05"
abbreviation (input) GSM48_MT_GMM_DETACH_ACK :: u8 where "GSM48_MT_GMM_DETACH_ACK \<equiv> 0x06"
abbreviation (input) GSM48_MT_GMM_RA_UPD_REQ :: u8 where "GSM48_MT_GMM_RA_UPD_REQ \<equiv> 0x08"
abbreviation (input) GSM48_MT_GMM_RA_UPD_ACK :: u8 where "GSM48_MT_GMM_RA_UPD_ACK \<equiv> 0x09"
abbreviation (input) GSM48_MT_GMM_RA_UPD_COMPL :: u8 where "GSM48_MT_GMM_RA_UPD_COMPL \<equiv> 0x0a"
abbreviation (input) GSM48_MT_GMM_RA_UPD_REJ :: u8 where "GSM48_MT_GMM_RA_UPD_REJ \<equiv> 0x0b"
abbreviation (input) GSM48_MT_GMM_PTMSI_REALL_COMPL :: u8 where "GSM48_MT_GMM_PTMSI_REALL_COMPL \<equiv> 0x11"
abbreviation (input) GSM48_MT_GMM_AUTH_CIPH_REQ :: u8 where "GSM48_MT_GMM_AUTH_CIPH_REQ \<equiv> 0x12"
abbreviation (input) GSM48_MT_GMM_AUTH_CIPH_RESP :: u8 where "GSM48_MT_GMM_AUTH_CIPH_RESP \<equiv> 0x13"
abbreviation (input) GSM48_MT_GMM_AUTH_CIPH_REJ :: u8 where "GSM48_MT_GMM_AUTH_CIPH_REJ \<equiv> 0x14"
abbreviation (input) GSM48_MT_GMM_ID_REQ :: u8 where "GSM48_MT_GMM_ID_REQ \<equiv> 0x15"
abbreviation (input) GSM48_MT_GMM_ID_RESP :: u8 where "GSM48_MT_GMM_ID_RESP \<equiv> 0x16"
abbreviation (input) GSM48_MT_GMM_STATUS :: u8 where "GSM48_MT_GMM_STATUS \<equiv> 0x20"
abbreviation (input) GSM48_MT_GSM_ACT_PDP_REQ :: u8 where "GSM48_MT_GSM_ACT_PDP_REQ \<equiv> 0x41"
abbreviation (input) GSM48_MT_GSM_ACT_PDP_ACK :: u8 where "GSM48_MT_GSM_ACT_PDP_ACK \<equiv> 0x42"
abbreviation (input) GSM48_MT_GSM_ACT_PDP_REJ :: u8 where "GSM48_MT_GSM_ACT_PDP_REJ \<equiv> 0x43"
abbreviation (input) GSM48_MT_GSM_DEACT_PDP_REQ :: u8 where "GSM48_MT_GSM_DEACT_PDP_REQ \<equiv> 0x46"
abbreviation (input) GSM48_MT_GSM_DEACT_PDP_ACK :: u8 where "GSM48_MT_GSM_DEACT_PDP_ACK \<equiv> 0x47"
abbreviation (input) GSM48_MT_GSM_STATUS :: u8 where "GSM48_MT_GSM_STATUS \<equiv> 0x55"
abbreviation (input) GMM_CAUSE_GPRS_NOTALLOWED :: u8 where "GMM_CAUSE_GPRS_NOTALLOWED \<equiv> 0x07"
abbreviation (input) GMM_CAUSE_MS_ID_NOT_DERIVED :: u8 where "GMM_CAUSE_MS_ID_NOT_DERIVED \<equiv> 0x09"
abbreviation (input) GMM_CAUSE_IMPL_DETACHED :: u8 where "GMM_CAUSE_IMPL_DETACHED \<equiv> 0x0a"
abbreviation (input) GMM_CAUSE_SEM_INCORR_MSG :: u8 where "GMM_CAUSE_SEM_INCORR_MSG \<equiv> 0x5f"
abbreviation (input) GMM_CAUSE_MSGT_NOTEXIST_NOTIMPL :: u8 where "GMM_CAUSE_MSGT_NOTEXIST_NOTIMPL \<equiv> 0x61"
abbreviation (input) GMM_CAUSE_PROTO_ERR_UNSPEC :: u8 where "GMM_CAUSE_PROTO_ERR_UNSPEC \<equiv> 0x6f"
abbreviation (input) GSM_CAUSE_INSUFF_RSRC :: u8 where "GSM_CAUSE_INSUFF_RSRC \<equiv> 0x1a"
abbreviation (input) GSM_CAUSE_ACT_REJ_GGSN :: u8 where "GSM_CAUSE_ACT_REJ_GGSN \<equiv> 0x1e"
abbreviation (input) GSM_CAUSE_NSAPI_IN_USE :: u8 where "GSM_CAUSE_NSAPI_IN_USE \<equiv> 0x23"
abbreviation (input) GSM_CAUSE_NET_FAIL :: u8 where "GSM_CAUSE_NET_FAIL \<equiv> 0x26"
abbreviation (input) GSM_CAUSE_INV_MAND_INFO :: u8 where "GSM_CAUSE_INV_MAND_INFO \<equiv> 0x60"
abbreviation (input) GSM_CAUSE_MSGT_NOTEXIST_NOTIMPL :: u8 where "GSM_CAUSE_MSGT_NOTEXIST_NOTIMPL \<equiv> 0x61"
abbreviation (input) GSM_CAUSE_PROTO_ERR_UNSPEC :: u8 where "GSM_CAUSE_PROTO_ERR_UNSPEC \<equiv> 0x6f"
abbreviation (input) GSM48_IE_GMM_CIPH_CKSN :: u8 where "GSM48_IE_GMM_CIPH_CKSN \<equiv> 0x08"
abbreviation (input) GSM48_IE_GMM_ALLOC_PTMSI :: u8 where "GSM48_IE_GMM_ALLOC_PTMSI \<equiv> 0x18"
abbreviation (input) GSM48_IE_GMM_AUTH_RAND :: u8 where "GSM48_IE_GMM_AUTH_RAND \<equiv> 0x21"
abbreviation (input) GSM48_IE_GMM_PDP_CTX_STATUS :: u8 where "GSM48_IE_GMM_PDP_CTX_STATUS \<equiv> 0x32"
abbreviation (input) GSM48_IE_GSM_PROTO_CONF_OPT :: u8 where "GSM48_IE_GSM_PROTO_CONF_OPT \<equiv> 0x27"
abbreviation (input) GSM48_IE_GSM_APN :: u8 where "GSM48_IE_GSM_APN \<equiv> 0x28"
abbreviation (input) GSM48_IE_GSM_PDP_ADDR :: u8 where "GSM48_IE_GSM_PDP_ADDR \<equiv> 0x2b"
abbreviation (input) MI_TYPE_MASK :: u8 where "MI_TYPE_MASK \<equiv> 0x07"
abbreviation (input) MI_TYPE_IMSI :: u8 where "MI_TYPE_IMSI \<equiv> 0x01"
abbreviation (input) MI_TYPE_IMEI :: u8 where "MI_TYPE_IMEI \<equiv> 0x02"
abbreviation (input) MI_TYPE_TMSI :: u8 where "MI_TYPE_TMSI \<equiv> 0x04"

definition mmctx_timer_start :: "nat \<Rightarrow> sgsn_mm_ctx \<Rightarrow> sgsn_mm_ctx" where
  "mmctx_timer_start T mm = mm\<lparr>mm_T := T, mm_num_T_exp := 0, mm_timer := True\<rparr>"

text \<open>Whichever timer runs is stopped; another one than the named one is only logged.\<close>

definition mmctx_timer_stop :: "nat \<Rightarrow> sgsn_mm_ctx \<Rightarrow> sgsn_mm_ctx" where
  "mmctx_timer_stop T mm = mm\<lparr>mm_timer := False\<rparr>"

definition gsm48_gmm_sendmsg :: "gmm_env \<Rightarrow> u32 \<times> u16 \<times> u16 \<Rightarrow> bool \<Rightarrow> u8 list \<Rightarrow> gmm_event list \<times> int" where
  "gsm48_gmm_sendmsg env ids command octets =
     (let (tlli, bvci, nsei) = ids; ev = Llc_tx_ui tlli bvci nsei command octets in ([ev], ge_rc env ev))"

definition gmm_copy_id :: "gmm_msg \<Rightarrow> u32 \<times> u16 \<times> u16" where
  "gmm_copy_id old = (gm_tlli old, gm_bvci old, gm_nsei old)"

definition msgid2mmctx :: "gmm_msg \<Rightarrow> sgsn_mm_ctx \<Rightarrow> sgsn_mm_ctx" where
  "msgid2mmctx msg mm = mm\<lparr>mm_bvci := gm_bvci msg, mm_nsei := gm_nsei msg\<rparr>"

definition mmctx2msgid :: "sgsn_mm_ctx \<Rightarrow> u32 \<times> u16 \<times> u16" where
  "mmctx2msgid mm = (mm_tlli mm, mm_bvci mm, mm_nsei mm)"

definition tx_status :: "gmm_env \<Rightarrow> u32 \<times> u16 \<times> u16 \<Rightarrow> u8 \<Rightarrow> bool \<Rightarrow> gmm_event list \<times> int" where
  "tx_status env ids cause sm =
     gsm48_gmm_sendmsg env ids False
       ((if sm then [GSM48_PDISC_SM_GPRS, GSM48_MT_GSM_STATUS] else [GSM48_PDISC_MM_GPRS, GSM48_MT_GMM_STATUS]) @ [cause])"

definition gsm48_tx_gmm_status :: "gmm_env \<Rightarrow> sgsn_mm_ctx \<Rightarrow> u8 \<Rightarrow> gmm_event list \<times> int" where
  "gsm48_tx_gmm_status env mmctx cause = tx_status env (mmctx2msgid mmctx) cause False"

definition gsm48_tx_gmm_status_oldmsg :: "gmm_env \<Rightarrow> gmm_msg \<Rightarrow> u8 \<Rightarrow> gmm_event list \<times> int" where
  "gsm48_tx_gmm_status_oldmsg env oldmsg cause = tx_status env (gmm_copy_id oldmsg) cause False"

definition gsm48_tx_sm_status :: "gmm_env \<Rightarrow> sgsn_mm_ctx \<Rightarrow> u8 \<Rightarrow> gmm_event list \<times> int" where
  "gsm48_tx_sm_status env mmctx cause = tx_status env (mmctx2msgid mmctx) cause True"

definition gsm48_tx_sm_status_oldmsg :: "gmm_env \<Rightarrow> gmm_msg \<Rightarrow> u8 \<Rightarrow> gmm_event list \<times> int" where
  "gsm48_tx_sm_status_oldmsg env oldmsg cause = tx_status env (gmm_copy_id oldmsg) cause True"

definition alloc_ptmsi_ie :: "gmm_env \<Rightarrow> u32 \<Rightarrow> u8 list" where
  "alloc_ptmsi_ie env p_tmsi = GSM48_IE_GMM_ALLOC_PTMSI # tl (ge_mid_from_tmsi env p_tmsi)"

text \<open>The result of the attach and no order to stand by, ten minutes for the next update, the lowest priority.\<close>

definition gsm48_tx_gmm_att_ack :: "gmm_env \<Rightarrow> sgsn_mm_ctx \<Rightarrow> gmm_event list \<times> int" where
  "gsm48_tx_gmm_att_ack env mm =
     gsm48_gmm_sendmsg env (mmctx2msgid mm) False
       ([GSM48_PDISC_MM_GPRS, GSM48_MT_GMM_ATTACH_ACK, 0x01, 0x2a, 0x04] @ ge_construct_ra env (mm_ra mm) @ alloc_ptmsi_ie env (mm_p_tmsi mm))"

definition tx_gmm_att_rej :: "gmm_env \<Rightarrow> u32 \<times> u16 \<times> u16 \<Rightarrow> u8 \<Rightarrow> gmm_event list \<times> int" where
  "tx_gmm_att_rej env ids gmm_cause = gsm48_gmm_sendmsg env ids False [GSM48_PDISC_MM_GPRS, GSM48_MT_GMM_ATTACH_REJ, gmm_cause]"

definition gsm48_tx_gmm_att_rej_oldmsg :: "gmm_env \<Rightarrow> gmm_msg \<Rightarrow> u8 \<Rightarrow> gmm_event list \<times> int" where
  "gsm48_tx_gmm_att_rej_oldmsg env old_msg = tx_gmm_att_rej env (gmm_copy_id old_msg)"

definition gsm48_tx_gmm_att_rej :: "gmm_env \<Rightarrow> sgsn_mm_ctx \<Rightarrow> u8 \<Rightarrow> gmm_event list \<times> int" where
  "gsm48_tx_gmm_att_rej env mm = tx_gmm_att_rej env (mmctx2msgid mm)"

definition gsm48_tx_gmm_det_ack :: "gmm_env \<Rightarrow> sgsn_mm_ctx \<Rightarrow> u8 \<Rightarrow> gmm_event list \<times> int" where
  "gsm48_tx_gmm_det_ack env mm force_stby =
     gsm48_gmm_sendmsg env (mmctx2msgid mm) False [GSM48_PDISC_MM_GPRS, GSM48_MT_GMM_DETACH_ACK, force_stby]"

definition gsm48_tx_gmm_id_req :: "gmm_env \<Rightarrow> sgsn_mm_ctx \<Rightarrow> u8 \<Rightarrow> gmm_event list \<times> int" where
  "gsm48_tx_gmm_id_req env mm id_type =
     gsm48_gmm_sendmsg env (mmctx2msgid mm) True [GSM48_PDISC_MM_GPRS, GSM48_MT_GMM_ID_REQ, id_type AND 0xf]"

definition gsm48_tx_gmm_auth_ciph_req ::
    "gmm_env \<Rightarrow> u8 list option \<Rightarrow> u8 \<Rightarrow> u8 \<Rightarrow> sgsn_mm_ctx \<Rightarrow> sgsn_mm_ctx \<times> gmm_event list \<times> int" where
  "gsm48_tx_gmm_auth_ciph_req env rand key_seq algo mm =
     (mmctx_timer_start 3360 mm,
      gsm48_gmm_sendmsg env (mmctx2msgid mm) True
        ([GSM48_PDISC_MM_GPRS, GSM48_MT_GMM_AUTH_CIPH_REQ, 0x10 OR (algo AND 0xf), 0] @
         (case rand of None \<Rightarrow> [] | Some r \<Rightarrow> [GSM48_IE_GMM_AUTH_RAND] @ take 16 r @ [GSM48_IE_GMM_CIPH_CKSN, key_seq])))"

definition gsm48_tx_gmm_auth_ciph_rej :: "gmm_env \<Rightarrow> sgsn_mm_ctx \<Rightarrow> gmm_event list \<times> int" where
  "gsm48_tx_gmm_auth_ciph_rej env mm =
     gsm48_gmm_sendmsg env (mmctx2msgid mm) False [GSM48_PDISC_MM_GPRS, GSM48_MT_GMM_AUTH_CIPH_REJ]"

definition gsm48_tx_gmm_ra_upd_ack :: "gmm_env \<Rightarrow> sgsn_mm_ctx \<Rightarrow> gmm_event list \<times> int" where
  "gsm48_tx_gmm_ra_upd_ack env mm =
     gsm48_gmm_sendmsg env (mmctx2msgid mm) False
       ([GSM48_PDISC_MM_GPRS, GSM48_MT_GMM_RA_UPD_ACK, 0, 0x2a] @ ge_construct_ra env (mm_ra mm) @ alloc_ptmsi_ie env (mm_p_tmsi mm))"

definition gsm48_tx_gmm_ra_upd_rej :: "gmm_env \<Rightarrow> gmm_msg \<Rightarrow> u8 \<Rightarrow> gmm_event list \<times> int" where
  "gsm48_tx_gmm_ra_upd_rej env old_msg cause =
     gsm48_gmm_sendmsg env (gmm_copy_id old_msg) False [GSM48_PDISC_MM_GPRS, GSM48_MT_GMM_RA_UPD_REJ, cause, 0]"

text \<open>A message is sent and nothing else changes; a context changes and sends a message.\<close>

definition tx :: "gmm_event list \<times> int \<Rightarrow> sgsn \<Rightarrow> sg_out" where
  "tx r sg = Some (sg, r)"

definition on_mm :: "nat \<Rightarrow> (sgsn_mm_ctx \<Rightarrow> sgsn_mm_ctx \<times> gmm_event list \<times> int) \<Rightarrow> sgsn \<Rightarrow> sg_out" where
  "on_mm i f sg = map_option (\<lambda>m. (upd_mm i (\<lambda>c. fst (f c)) sg, snd (f m))) (mm_by_id i sg)"

definition ev_then :: "gmm_event list \<Rightarrow> sg_out \<Rightarrow> sg_out" where
  "ev_then ev = map_option (\<lambda>(sg, ev', rc). (sg, ev @ ev', rc))"

section \<open>Mobility management\<close>

text \<open>The answer to an authentication request is parsed and nothing is compared.\<close>

definition gsm48_rx_gmm_auth_ciph_resp :: "sgsn_mm_ctx \<Rightarrow> gmm_msg \<Rightarrow> sgsn \<Rightarrow> sg_out" where
  "gsm48_rx_gmm_auth_ciph_resp ctx msg sg = tx ([], 0) sg"

definition gsm48_gmm_authorize :: "gmm_env \<Rightarrow> gprs_t3350_mode \<Rightarrow> sgsn_mm_ctx \<Rightarrow> sgsn_mm_ctx \<times> gmm_event list \<times> int" where
  "gsm48_gmm_authorize env t3350_mode ctx =
     (if mm_imei ctx \<noteq> [] \<and> mm_imsi ctx \<noteq> []
      then (let ctx = (mmctx_timer_start 3350 (ctx\<lparr>mm_t3350_mode := t3350_mode\<rparr>))\<lparr>mm_state := GMM_REGISTERED_NORMAL\<rparr>
            in (ctx, gsm48_tx_gmm_att_ack env ctx))
      else if mm_imei ctx = []
      then (let ctx = mmctx_timer_start 3370 (ctx\<lparr>mm_state := GMM_COMMON_PROC_INIT, mm_t3370_id_type := MI_TYPE_IMEI\<rparr>)
            in (ctx, gsm48_tx_gmm_id_req env ctx MI_TYPE_IMEI))
      else if mm_imsi ctx = []
      then (let ctx = mmctx_timer_start 3370 (ctx\<lparr>mm_state := GMM_COMMON_PROC_INIT, mm_t3370_id_type := MI_TYPE_IMSI\<rparr>)
            in (ctx, gsm48_tx_gmm_id_req env ctx MI_TYPE_IMSI))
      else (ctx, [], 0))"

text \<open>An older context of the same IMSI is freed. When the IMSI is empty it may be the context itself, which is used after that.
  Identities have room for 17 characters with the final zero; a longer one is stored without it, and read on past its field.\<close>

definition id_resp_identity :: "u8 \<Rightarrow> string \<Rightarrow> sgsn_mm_ctx \<Rightarrow> sgsn \<Rightarrow> (sgsn \<times> gmm_event list) option" where
  "id_resp_identity mi_type mi_string ctx sg =
     (let i = mm_id ctx
      in if length mi_string \<ge> 17 \<and> (mi_type = MI_TYPE_IMSI \<or> mi_type = MI_TYPE_IMEI) then None
         else if mi_type = MI_TYPE_IMSI
         then (case (if mm_imsi ctx = [] then sgsn_mm_ctx_by_imsi mi_string sg else None) of
                 None \<Rightarrow> Some (upd_mm i (\<lambda>c. c\<lparr>mm_imsi := mi_string\<rparr>) sg, [])
               | Some ictx \<Rightarrow>
                   (if mm_id ictx = i then None
                    else Some (upd_mm i (\<lambda>c. c\<lparr>mm_imsi := mi_string\<rparr>) (sgsn_mm_ctx_free (mm_id ictx) sg),
                               [Llgmm_assign (mm_llme ictx) (mm_tlli ictx) 0xffffffff])))
         else if mi_type = MI_TYPE_IMEI then Some (upd_mm i (\<lambda>c. c\<lparr>mm_imei := mi_string\<rparr>) sg, [])
         else Some (sg, []))"

definition gsm48_rx_gmm_id_resp :: "gmm_env \<Rightarrow> sgsn_mm_ctx \<Rightarrow> gmm_msg \<Rightarrow> sgsn \<Rightarrow> sg_out" where
  "gsm48_rx_gmm_id_resp env ctx msg sg = do {
     len \<leftarrow> rd (gm_data msg) 0;
     mi0 \<leftarrow> rd (gm_data msg) 1;
     let mi_type = mi0 AND MI_TYPE_MASK;
     let stop = (if mi_type = mm_t3370_id_type ctx then mmctx_timer_stop 3370 else id);
     (sg, ev) \<leftarrow> id_resp_identity mi_type (ge_mi_to_string env (drop 1 (gm_data msg)) len) ctx (upd_mm (mm_id ctx) stop sg);
     ev_then ev (on_mm (mm_id ctx) (gsm48_gmm_authorize env (mm_t3350_mode ctx)) sg) }"

text \<open>The fields of an attach request; \<open>Inl\<close> is a length that is refused.\<close>

record att_req =
  ar_msnc :: "u8 list"
  ar_drx_par :: u16
  ar_mi_type :: u8
  ar_mi_len :: u8
  ar_mi :: "u8 list"
  ar_ms_ra_acc_cap :: "u8 list"

definition parse_att_req :: "u8 list \<Rightarrow> (unit + att_req) option" where
  "parse_att_req d = do {
     msnc_len \<leftarrow> rd d 0;
     if msnc_len > 8 then Some (Inl ())
     else do {
       let p = 1 + unat msnc_len;
       att_type \<leftarrow> rd d p;
       drx_hi \<leftarrow> rd d (p + 1);
       drx_lo \<leftarrow> rd d (p + 2);
       mi_len \<leftarrow> rd d (p + 3);
       if mi_len > 8 then Some (Inl ())
       else do {
         mi0 \<leftarrow> rd d (p + 4);
         let q = p + 4 + unat mi_len + 6;
         cap_len \<leftarrow> rd d q;
         if cap_len > 52 then Some (Inl ())
         else do {
           msnc \<leftarrow> rds d 1 (unat msnc_len);
           cap \<leftarrow> rds d (q + 1) (unat cap_len);
           Some (Inr \<lparr>ar_msnc = msnc, ar_drx_par = be16 drx_hi drx_lo, ar_mi_type = mi0 AND MI_TYPE_MASK, ar_mi_len = mi_len,
                      ar_mi = drop (p + 4) d, ar_ms_ra_acc_cap = cap\<rparr>) } } } }"

definition be32 :: "u8 list \<Rightarrow> u32" where
  "be32 os = foldl (\<lambda>a o'. push_bit 8 a OR ucast o') 0 os"

text \<open>The context for the identity: the one of the TLLI, one with the identity, or a new one.\<close>

definition att_req_ctx :: "gmm_env \<Rightarrow> gmm_msg \<Rightarrow> att_req \<Rightarrow> sgsn_mm_ctx option \<Rightarrow> sgsn \<Rightarrow> ((sgsn_mm_ctx \<times> sgsn \<times> gmm_event list) option) option" where
  "att_req_ctx env msg ar ctx sg =
     (if ar_mi_type ar = MI_TYPE_IMSI
      then (let mi_string = ge_mi_to_string env (ar_mi ar) (ar_mi_len ar)
            in case (if ctx = None then sgsn_mm_ctx_by_imsi mi_string sg else ctx) of
                 Some c \<Rightarrow> Some (Some (c, sg, []))
               | None \<Rightarrow>
                   (let (c, sg) = sgsn_mm_ctx_alloc 0 (gm_ra msg) sg
                    in Some (Some (c\<lparr>mm_imsi := mi_string\<rparr>, upd_mm (mm_id c) (\<lambda>c. c\<lparr>mm_imsi := mi_string\<rparr>) sg,
                                   [Fc_ms_init (mm_id c) (gm_bvci msg) (gm_nsei msg)]))))
      else if ar_mi_type ar = MI_TYPE_TMSI
      then (case rds (ar_mi ar) 1 4 of
              None \<Rightarrow> None
            | Some os \<Rightarrow>
                (let tmsi = be32 os
                 in case (if ctx = None then sgsn_mm_ctx_by_ptmsi tmsi sg else ctx) of
                      Some c \<Rightarrow> Some (Some (c, sg, []))
                    | None \<Rightarrow>
                        (let (c, sg) = sgsn_mm_ctx_alloc (gm_tlli msg) (gm_ra msg) sg
                         in Some (Some (c\<lparr>mm_p_tmsi := tmsi\<rparr>, upd_mm (mm_id c) (\<lambda>c. c\<lparr>mm_p_tmsi := tmsi\<rparr>) sg,
                                        [Fc_ms_init (mm_id c) (gm_bvci msg) (gm_nsei msg)])))))
      else Some None)"

text \<open>The TLLI that belongs to a P-TMSI (a library function): the two highest bits are set.\<close>

definition tmsi2tlli_local :: "u32 \<Rightarrow> u32" where
  "tmsi2tlli_local p_tmsi = p_tmsi OR 0xC0000000"

text \<open>The network capabilities have room for four octets, and the length may be eight.\<close>

definition gsm48_rx_gmm_att_req :: "gmm_env \<Rightarrow> sgsn_mm_ctx option \<Rightarrow> gmm_msg \<Rightarrow> nat \<Rightarrow> sgsn \<Rightarrow> sg_out" where
  "gsm48_rx_gmm_att_req env ctx msg llme sg = do {
     parsed \<leftarrow> parse_att_req (gm_data msg);
     case parsed of
       Inl _ \<Rightarrow> tx (gsm48_tx_gmm_att_rej_oldmsg env msg GMM_CAUSE_SEM_INCORR_MSG) sg
     | Inr ar \<Rightarrow> do {
         found \<leftarrow> att_req_ctx env msg ar ctx sg;
         case found of
           None \<Rightarrow> tx (gsm48_tx_gmm_att_rej_oldmsg env msg GMM_CAUSE_MS_ID_NOT_DERIVED) sg
         | Some (c, sg, ev) \<Rightarrow>
             if length (ar_msnc ar) > 4 then None
             else do {
               (p, sg) \<leftarrow> sgsn_alloc_ptmsi (ge_rand env)
                 (upd_mm (mm_id c) (\<lambda>c. (msgid2mmctx msg c)\<lparr>mm_tlli := gm_tlli msg, mm_llme := llme, mm_ra := gm_ra msg, mm_cell_id := gm_cid msg,
                    mm_drx_parms := ar_drx_par ar, mm_radio_capa := ar_ms_ra_acc_cap ar, mm_net_capa := ar_msnc ar\<rparr>) sg);
               ev_then (ev @ [Llgmm_assign llme (gm_tlli msg) (tmsi2tlli_local p)])
                 (on_mm (mm_id c) (\<lambda>c. gsm48_gmm_authorize env GMM_T3350_MODE_ATT
                    (c\<lparr>mm_p_tmsi_old := mm_p_tmsi c, mm_p_tmsi := p, mm_tlli_new := tmsi2tlli_local p\<rparr>)) sg) } } }"

text \<open>A context that has no gateway yet has none to ask.\<close>

definition sgsn_delete_pdp_ctx :: "sgsn_pdp_ctx \<Rightarrow> gmm_event option" where
  "sgsn_delete_pdp_ctx pctx = (if pdp_ggsn pctx = None \<or> pdp_lib pctx = None then None else Some (Gtp_delete_req (pdp_id pctx)))"

primrec delete_pdps :: "sgsn_pdp_ctx list \<Rightarrow> gmm_event list option" where
  "delete_pdps [] = Some []"
| "delete_pdps (p # ps) = do { e \<leftarrow> sgsn_delete_pdp_ctx p; es \<leftarrow> delete_pdps ps; Some (e # es) }"

definition gsm48_rx_gmm_det_req :: "gmm_env \<Rightarrow> sgsn_mm_ctx \<Rightarrow> gmm_msg \<Rightarrow> sgsn \<Rightarrow> sg_out" where
  "gsm48_rx_gmm_det_req env ctx msg sg = do {
     detach_type \<leftarrow> rd (gm_data msg) 0;
     let sg = upd_mm (mm_id ctx) (\<lambda>c. c\<lparr>mm_state := GMM_DEREGISTERED\<rparr>) sg;
     ev \<leftarrow> delete_pdps (mm_pdp_list ctx);
     let (ack, rc) = gsm48_tx_gmm_det_ack env ctx 0;
     Some (sg, ev @ ack @ [Llgmm_assign (mm_llme ctx) (mm_tlli ctx) 0xffffffff], rc) }"

text \<open>Contexts that the mobile station regards as inactive are deleted; the status has two octets.\<close>

definition ms_pdp_inactive :: "u8 \<Rightarrow> u8 \<Rightarrow> sgsn_pdp_ctx \<Rightarrow> bool" where
  "ms_pdp_inactive s0 s1 pdp \<longleftrightarrow>
     (if pdp_nsapi pdp < 8 then \<not> bit s0 (unat (pdp_nsapi pdp)) else \<not> bit s1 (unat (pdp_nsapi pdp) - 8))"

definition process_ms_ctx_status :: "sgsn_mm_ctx \<Rightarrow> u8 list \<Rightarrow> gmm_event list option" where
  "process_ms_ctx_status mmctx pdp_status =
     (if mm_pdp_list mmctx = [] then Some []
      else do {
        s0 \<leftarrow> rd pdp_status 0;
        s1 \<leftarrow> rd pdp_status 1;
        delete_pdps (filter (ms_pdp_inactive s0 s1) (mm_pdp_list mmctx)) })"

definition gsm48_rx_gmm_ra_upd_req :: "gmm_env \<Rightarrow> gmm_msg \<Rightarrow> sgsn \<Rightarrow> sg_out" where
  "gsm48_rx_gmm_ra_upd_req env msg sg = do {
     let d = gm_data msg;
     b0 \<leftarrow> rd d 0;
     ra \<leftarrow> rds d 1 6;
     cap_len \<leftarrow> rd d 7;
     if cap_len > 52 then tx (gsm48_tx_gmm_ra_upd_rej env msg GMM_CAUSE_PROTO_ERR_UNSPEC) sg
     else do {
       let upd_type = b0 AND 0x0f;
       let tp = ge_gmm_tlv env (drop (8 + unat cap_len) d);
       if upd_type = 1 \<or> upd_type = 2 then tx (gsm48_tx_gmm_ra_upd_rej env msg GMM_CAUSE_PROTO_ERR_UNSPEC) sg
       else do {
         let (found, sg) = sgsn_mm_ctx_by_tlli (ge_tlli_type env) (gm_tlli msg) (ge_parse_ra env ra) sg;
         case (case found of None \<Rightarrow> None | Some c \<Rightarrow> if mm_state c = GMM_DEREGISTERED then None else Some c) of
           None \<Rightarrow> tx (gsm48_tx_gmm_ra_upd_rej env msg GMM_CAUSE_MS_ID_NOT_DERIVED) sg
         | Some c \<Rightarrow> do {
             (p, sg) \<leftarrow> sgsn_alloc_ptmsi (ge_rand env)
               (upd_mm (mm_id c) (\<lambda>c. (msgid2mmctx msg c)\<lparr>mm_ra := gm_ra msg, mm_tlli := gm_tlli msg\<rparr>) sg);
             ev \<leftarrow> (case tp GSM48_IE_GMM_PDP_CTX_STATUS of None \<Rightarrow> Some [] | Some st \<Rightarrow> process_ms_ctx_status c st);
             ev_then (Llgmm_assign (mm_llme c) (gm_tlli msg) (tmsi2tlli_local p) # ev)
               (on_mm (mm_id c) (\<lambda>c.
                  let c = (mmctx_timer_start 3350 (c\<lparr>mm_p_tmsi_old := mm_p_tmsi c, mm_p_tmsi := p, mm_t3350_mode := GMM_T3350_MODE_RAU\<rparr>))
                            \<lparr>mm_tlli_new := tmsi2tlli_local p\<rparr>
                  in (c, gsm48_tx_gmm_ra_upd_ack env c)) sg) } } } }"

text \<open>The completion of an attach or update: the new TLLI is in use, and the link layer may be told.\<close>

definition ptmsi_complete :: "gmm_env \<Rightarrow> bool \<Rightarrow> sgsn_mm_ctx \<Rightarrow> sgsn_mm_ctx \<times> gmm_event list \<times> int" where
  "ptmsi_complete env assign mm =
     ((mmctx_timer_stop 3350 mm)\<lparr>mm_p_tmsi_old := 0, mm_tlli := mm_tlli_new mm\<rparr>,
      if assign then [Llgmm_assign (mm_llme mm) 0xffffffff (mm_tlli_new mm)] else [], ge_uninit env)"

definition gsm0408_rcv_gmm :: "gmm_env \<Rightarrow> sgsn_mm_ctx option \<Rightarrow> gmm_msg \<Rightarrow> nat \<Rightarrow> sgsn \<Rightarrow> sg_out" where
  "gsm0408_rcv_gmm env mmctx msg llme sg =
     (let mt = gm_msg_type msg
      in if mt = GSM48_MT_GMM_ATTACH_REQ then gsm48_rx_gmm_att_req env mmctx msg llme sg
         else if mt = GSM48_MT_GMM_RA_UPD_REQ then gsm48_rx_gmm_ra_upd_req env msg sg
         else case mmctx of
                None \<Rightarrow> tx (gsm48_tx_gmm_status_oldmsg env msg GMM_CAUSE_MS_ID_NOT_DERIVED) sg
              | Some mm \<Rightarrow>
                  (if mt = GSM48_MT_GMM_ID_RESP then gsm48_rx_gmm_id_resp env mm msg sg
                   else if mt = GSM48_MT_GMM_STATUS then map_option (\<lambda>_. (sg, [], 0)) (rd (gm_data msg) 0)
                   else if mt = GSM48_MT_GMM_DETACH_REQ then gsm48_rx_gmm_det_req env mm msg sg
                   else if mt = GSM48_MT_GMM_ATTACH_COMPL then on_mm (mm_id mm) (ptmsi_complete env True) sg
                   else if mt = GSM48_MT_GMM_RA_UPD_COMPL then on_mm (mm_id mm) (ptmsi_complete env True) sg
                   else if mt = GSM48_MT_GMM_PTMSI_REALL_COMPL then on_mm (mm_id mm) (ptmsi_complete env False) sg
                   else if mt = GSM48_MT_GMM_AUTH_CIPH_RESP then gsm48_rx_gmm_auth_ciph_resp mm msg sg
                   else tx (gsm48_tx_gmm_status env mm GMM_CAUSE_MSGT_NOTEXIST_NOTIMPL) sg))"

definition mmctx_timer_expired :: "gmm_env \<Rightarrow> sgsn_mm_ctx \<Rightarrow> sgsn_mm_ctx \<times> gmm_event list \<times> int" where
  "mmctx_timer_expired env mm =
     (let mm = mm\<lparr>mm_num_T_exp := Suc (mm_num_T_exp mm), mm_timer := False\<rparr>;
          again = mm\<lparr>mm_timer := True\<rparr>; dead = mm\<lparr>mm_state := GMM_DEREGISTERED\<rparr>
      in if mm_T mm = 3350
         then (if mm_num_T_exp mm \<ge> 5 then (dead, [Llgmm_reset (mm_llme mm)], 0)
               else (again, case mm_t3350_mode mm of
                              GMM_T3350_MODE_ATT \<Rightarrow> gsm48_tx_gmm_att_ack env mm
                            | GMM_T3350_MODE_RAU \<Rightarrow> gsm48_tx_gmm_ra_upd_ack env mm
                            | GMM_T3350_MODE_PTMSI_REALL \<Rightarrow> ([], 0)))
         else if mm_T mm = 3360
         then (if mm_num_T_exp mm \<ge> 5 then (dead, [], 0) else (again, [], 0))
         else if mm_T mm = 3370
         then (if mm_num_T_exp mm \<ge> 5 then (dead, gsm48_tx_gmm_att_rej env mm GMM_CAUSE_MS_ID_NOT_DERIVED)
               else (again, gsm48_tx_gmm_id_req env mm (mm_t3370_id_type mm)))
         else (mm, [], 0))"

definition mmctx_timer_cb :: "gmm_env \<Rightarrow> nat \<Rightarrow> sgsn \<Rightarrow> sg_out" where
  "mmctx_timer_cb env i = on_mm i (mmctx_timer_expired env)"

section \<open>Session management\<close>

definition pdpctx_timer_start :: "nat \<Rightarrow> sgsn_pdp_ctx \<Rightarrow> sgsn_pdp_ctx" where
  "pdpctx_timer_start T pdp = pdp\<lparr>pdp_T := T, pdp_num_T_exp := 0, pdp_timer := True\<rparr>"

definition lv_put :: "u8 list \<Rightarrow> u8 list" where
  "lv_put v = of_nat (length v) # v"

text \<open>The first octet of the address has its upper half cleared in the message and set in the context.\<close>

definition sm_hdr :: "u8 \<Rightarrow> u8 \<Rightarrow> u8 list" where
  "sm_hdr tid msg_type = [GSM48_PDISC_SM_GPRS OR push_bit 4 (tid XOR 0x8), msg_type]"

definition gsm48_tx_gsm_act_pdp_acc :: "gmm_env \<Rightarrow> sgsn_mm_ctx \<Rightarrow> sgsn_pdp_ctx \<Rightarrow> (gtp_pdp \<times> gmm_event list \<times> int) option" where
  "gsm48_tx_gsm_act_pdp_acc env mm pdp =
     (case pdp_lib pdp of
        None \<Rightarrow> None
      | Some lib \<Rightarrow>
          (let eua = gp_eua lib;
               sent = (case eua of [] \<Rightarrow> [] | x # xs \<Rightarrow> (x AND 0x0f) # xs);
               kept = (case eua of [] \<Rightarrow> [] | x # xs \<Rightarrow> (x OR 0xf0) # xs)
           in Some (lib\<lparr>gp_eua := kept\<rparr>,
                    gsm48_gmm_sendmsg env (mmctx2msgid mm) False
                      (sm_hdr (pdp_ti pdp) GSM48_MT_GSM_ACT_PDP_ACK @ [ucast (pdp_sapi pdp)] @ lv_put (ge_default_qos env) @
                       [ge_radio_pri env] @ [GSM48_IE_GSM_PDP_ADDR] @ lv_put sent @
                       (if gp_pco_req lib \<noteq> [] then [GSM48_IE_GSM_PROTO_CONF_OPT] @ lv_put (gp_pco_req lib) else [])))))"

definition gsm48_tx_gsm_act_pdp_rej :: "gmm_env \<Rightarrow> sgsn_mm_ctx \<Rightarrow> u8 \<Rightarrow> u8 \<Rightarrow> u8 list \<Rightarrow> gmm_event list \<times> int" where
  "gsm48_tx_gsm_act_pdp_rej env mm tid cause pco =
     gsm48_gmm_sendmsg env (mmctx2msgid mm) False
       (sm_hdr tid GSM48_MT_GSM_ACT_PDP_REJ @ [cause] @ (if pco \<noteq> [] then [GSM48_IE_GSM_PROTO_CONF_OPT] @ lv_put pco else []))"

definition tx_gsm_deact_pdp_req :: "gmm_env \<Rightarrow> sgsn_mm_ctx \<Rightarrow> u8 \<Rightarrow> u8 \<Rightarrow> gmm_event list \<times> int" where
  "tx_gsm_deact_pdp_req env mm tid sm_cause =
     gsm48_gmm_sendmsg env (mmctx2msgid mm) False (sm_hdr tid GSM48_MT_GSM_DEACT_PDP_REQ @ [sm_cause])"

definition gsm48_tx_gsm_deact_pdp_req :: "gmm_env \<Rightarrow> sgsn_mm_ctx \<Rightarrow> u8 \<Rightarrow> sgsn_pdp_ctx \<Rightarrow> sgsn_pdp_ctx \<times> gmm_event list \<times> int" where
  "gsm48_tx_gsm_deact_pdp_req env mm sm_cause pdp = (pdpctx_timer_start 3395 pdp, tx_gsm_deact_pdp_req env mm (pdp_ti pdp) sm_cause)"

definition tx_gsm_deact_pdp_acc :: "gmm_env \<Rightarrow> sgsn_mm_ctx \<Rightarrow> u8 \<Rightarrow> gmm_event list \<times> int" where
  "tx_gsm_deact_pdp_acc env mm tid = gsm48_gmm_sendmsg env (mmctx2msgid mm) False (sm_hdr tid GSM48_MT_GSM_DEACT_PDP_ACK)"

text \<open>Sixteen digits of four bits, the first one lowest; places without a digit are ones.\<close>

definition imsi_str2gtp :: "string \<Rightarrow> u64" where
  "imsi_str2gtp str =
     (if length str > 16 then 0
      else foldl (\<lambda>a n. a OR push_bit (n * 4) (if n < length str then (of_nat (of_char (str ! n)) - 48) AND 0xf else 0xf)) 0 [0..<16])"

definition set_hi :: "u8 list \<Rightarrow> u8 list" where
  "set_hi eua = (case eua of [] \<Rightarrow> [] | x # xs \<Rightarrow> (x OR 0xf0) # xs)"

text \<open>Without a context of the library the new context stays in the list, with no gateway.\<close>

definition sgsn_create_pdp_ctx ::
    "gmm_env \<Rightarrow> sgsn_ggsn_ctx \<Rightarrow> sgsn_mm_ctx \<Rightarrow> u16 \<Rightarrow> u8 list \<Rightarrow> u8 list \<Rightarrow> (u8 \<Rightarrow> u8 list option) \<Rightarrow> sgsn \<Rightarrow>
     nat option \<times> sgsn \<times> gmm_event list" where
  "sgsn_create_pdp_ctx env ggsn mmctx nsapi qos addr tp sg =
     (case sgsn_pdp_ctx_alloc mmctx nsapi sg of
        None \<Rightarrow> (None, sg, [])
      | Some (pctx, sg) \<Rightarrow>
          (let imsi = imsi_str2gtp (mm_imsi mmctx); i = pdp_id pctx
           in if ge_newpdp_rc env imsi nsapi \<noteq> 0 then (None, sg, [])
              else
                (let eua = set_hi (take (ge_eua_size env) addr);
                     opt = (\<lambda>ie n. case tp ie of None \<Rightarrow> [] | Some v \<Rightarrow> take n v);
                     pco = opt GSM48_IE_GSM_PROTO_CONF_OPT (ge_pco_size env)
                 in (Some i,
                     upd_pdp i (\<lambda>p. p\<lparr>pdp_lib := Some \<lparr>gp_version = gg_gtp_version ggsn, gp_eua = eua, gp_pco_req = pco\<rparr>,
                        pdp_ggsn := Some (gg_id ggsn), pdp_state := PDP_STATE_CR_REQ\<rparr>) sg,
                     [Gtp_create_req i imsi nsapi eua (opt GSM48_IE_GSM_APN (ge_apn_size env)) pco (take (ge_qos_size env) qos)]))))"

definition gsm48_rx_gsm_act_pdp_req :: "gmm_env \<Rightarrow> sgsn_mm_ctx \<Rightarrow> gmm_msg \<Rightarrow> sgsn \<Rightarrow> sg_out" where
  "gsm48_rx_gsm_act_pdp_req env mmctx msg sg = do {
     let d = gm_data msg;
     let tid = drop_bit 4 (gm_proto_discr msg);
     nsapi \<leftarrow> rd d 0;
     sapi \<leftarrow> rd d 1;
     qos_len \<leftarrow> rd d 2;
     qos \<leftarrow> rds d 3 (unat qos_len);
     pdpa_len \<leftarrow> rd d (3 + unat qos_len);
     let pdpa = drop (4 + unat qos_len) d;
     pdpa0 \<leftarrow> rd pdpa 0;
     pdpa1 \<leftarrow> rd pdpa 1;
     let tp = (if unat pdpa_len < length pdpa then ge_sm_tlv env (drop (unat pdpa_len) pdpa) else (\<lambda>_. None));
     if nsapi < 5 \<or> nsapi > 15 then tx (gsm48_tx_gsm_act_pdp_rej env mmctx tid GSM_CAUSE_INV_MAND_INFO []) sg
     else case sgsn_pdp_ctx_by_nsapi mmctx (ucast nsapi) of
         Some pdp \<Rightarrow>
           if pdp_sapi pdp = ucast sapi \<and> pdp_ti pdp = tid
           then do { (lib, r) \<leftarrow> gsm48_tx_gsm_act_pdp_acc env mmctx pdp; Some (upd_pdp (pdp_id pdp) (\<lambda>p. p\<lparr>pdp_lib := Some lib\<rparr>) sg, r) }
           else tx (gsm48_tx_gsm_act_pdp_rej env mmctx tid GSM_CAUSE_NSAPI_IN_USE []) sg
       | None \<Rightarrow>
           (case sgsn_ggsn_ctx_by_id 0 sg of
              None \<Rightarrow> tx ([], - EIO) sg
            | Some ggsn \<Rightarrow> do {
                addr \<leftarrow> rds pdpa 0 (min (unat pdpa_len) (ge_eua_size env));
                case sgsn_create_pdp_ctx env ggsn mmctx (ucast nsapi) qos addr tp sg of
                  (None, sg, ev) \<Rightarrow> Some (sg, ev, - 1)
                | (Some i, sg, ev) \<Rightarrow> Some (upd_pdp i (\<lambda>p. p\<lparr>pdp_sapi := ucast sapi, pdp_ti := tid\<rparr>) sg, ev, 0) }) }"

definition gsm48_rx_gsm_deact_pdp_req :: "gmm_env \<Rightarrow> sgsn_mm_ctx \<Rightarrow> gmm_msg \<Rightarrow> sgsn \<Rightarrow> sg_out" where
  "gsm48_rx_gsm_deact_pdp_req env mm msg sg = do {
     cause \<leftarrow> rd (gm_data msg) 0;
     let tid = drop_bit 4 (gm_proto_discr msg);
     case sgsn_pdp_ctx_by_tid mm tid of
       None \<Rightarrow> tx (tx_gsm_deact_pdp_acc env mm tid) sg
     | Some pdp \<Rightarrow> do { e \<leftarrow> sgsn_delete_pdp_ctx pdp; Some (sg, [e], ge_rc env e) } }"

definition gsm48_rx_gsm_deact_pdp_ack :: "gmm_env \<Rightarrow> sgsn_mm_ctx \<Rightarrow> gmm_msg \<Rightarrow> sgsn \<Rightarrow> sg_out" where
  "gsm48_rx_gsm_deact_pdp_ack env mm msg sg =
     (case sgsn_pdp_ctx_by_tid mm (drop_bit 4 (gm_proto_discr msg)) of
        None \<Rightarrow> tx ([], 0) sg
      | Some pdp \<Rightarrow> do { e \<leftarrow> sgsn_delete_pdp_ctx pdp; Some (sg, [e], ge_rc env e) })"

text \<open>Sending the request again starts the timer anew, with the count of its expirations.\<close>

definition pdpctx_timer_cb :: "gmm_env \<Rightarrow> nat \<Rightarrow> sgsn \<Rightarrow> sg_out" where
  "pdpctx_timer_cb env i sg = do {
     (mm, pdp) \<leftarrow> pdp_by_id i sg;
     let sg = upd_pdp i (\<lambda>p. p\<lparr>pdp_num_T_exp := Suc (pdp_num_T_exp p), pdp_timer := False\<rparr>) sg;
     if pdp_T pdp = 3395
     then (if Suc (pdp_num_T_exp pdp) \<ge> 4
           then do {
             e \<leftarrow> sgsn_delete_pdp_ctx pdp;
             Some (upd_pdp i (\<lambda>p. p\<lparr>pdp_state := PDP_STATE_NONE\<rparr>) sg, [e], 0) }
           else Some (upd_pdp i (\<lambda>p. (fst (gsm48_tx_gsm_deact_pdp_req env mm GSM_CAUSE_NET_FAIL p))\<lparr>pdp_timer := True\<rparr>) sg,
                  fst (snd (gsm48_tx_gsm_deact_pdp_req env mm GSM_CAUSE_NET_FAIL pdp)), 0))
     else Some (sg, [], 0) }"

definition gsm0408_rcv_gsm :: "gmm_env \<Rightarrow> sgsn_mm_ctx option \<Rightarrow> gmm_msg \<Rightarrow> sgsn \<Rightarrow> sg_out" where
  "gsm0408_rcv_gsm env mmctx msg sg =
     (case mmctx of
        None \<Rightarrow>
          ev_then (fst (gsm48_tx_gmm_status_oldmsg env msg GMM_CAUSE_IMPL_DETACHED))
            (tx (gsm48_tx_sm_status_oldmsg env msg GSM_CAUSE_PROTO_ERR_UNSPEC) sg)
      | Some mm \<Rightarrow>
          (let mt = gm_msg_type msg
           in if mt = GSM48_MT_GSM_ACT_PDP_REQ then gsm48_rx_gsm_act_pdp_req env mm msg sg
              else if mt = GSM48_MT_GSM_DEACT_PDP_REQ then gsm48_rx_gsm_deact_pdp_req env mm msg sg
              else if mt = GSM48_MT_GSM_DEACT_PDP_ACK then gsm48_rx_gsm_deact_pdp_ack env mm msg sg
              else if mt = GSM48_MT_GSM_STATUS then map_option (\<lambda>_. (sg, [], 0)) (rd (gm_data msg) 0)
              else tx (gsm48_tx_sm_status env mm GSM_CAUSE_MSGT_NOTEXIST_NOTIMPL) sg))"

definition gsm0408_gprs_rcvmsg :: "gmm_env \<Rightarrow> gmm_msg \<Rightarrow> nat \<Rightarrow> sgsn \<Rightarrow> sg_out" where
  "gsm0408_gprs_rcvmsg env msg llme sg =
     (let pdisc = gm_proto_discr msg AND 0x0f;
          (found, sg) = sgsn_mm_ctx_by_tlli (ge_tlli_type env) (gm_tlli msg) (gm_ra msg) sg;
          upd = (\<lambda>c. (msgid2mmctx msg c)\<lparr>mm_llme := llme\<rparr>);
          mmctx = map_option upd found;
          sg = (case found of None \<Rightarrow> sg | Some c \<Rightarrow> upd_mm (mm_id c) upd sg)
      in if pdisc = GSM48_PDISC_MM_GPRS then gsm0408_rcv_gmm env mmctx msg llme sg
         else if pdisc = GSM48_PDISC_SM_GPRS then gsm0408_rcv_gsm env mmctx msg sg
         else tx ([], - EINVAL) sg)"

definition gprs_gmm_rx_suspend :: "gmm_env \<Rightarrow> gprs_ra_id \<Rightarrow> u32 \<Rightarrow> sgsn \<Rightarrow> sg_out" where
  "gprs_gmm_rx_suspend env raid tlli sg =
     (let (found, sg) = sgsn_mm_ctx_by_tlli (ge_tlli_type env) tlli raid sg
      in case found of
           None \<Rightarrow> tx ([], - EINVAL) sg
         | Some c \<Rightarrow>
             (if mm_state c \<noteq> GMM_REGISTERED_NORMAL then tx ([], - EINVAL) sg
              else tx ([], 0) (upd_mm (mm_id c) (\<lambda>c. c\<lparr>mm_state := GMM_REGISTERED_SUSPENDED\<rparr>) sg)))"

definition gprs_gmm_rx_resume :: "gmm_env \<Rightarrow> gprs_ra_id \<Rightarrow> u32 \<Rightarrow> sgsn \<Rightarrow> sg_out" where
  "gprs_gmm_rx_resume env raid tlli sg =
     (let (found, sg) = sgsn_mm_ctx_by_tlli (ge_tlli_type env) tlli raid sg
      in case found of
           None \<Rightarrow> tx ([], - EINVAL) sg
         | Some c \<Rightarrow>
             (if mm_state c \<noteq> GMM_REGISTERED_SUSPENDED then tx ([], - EINVAL) sg
              else tx ([], 0) (upd_mm (mm_id c) (\<lambda>c. c\<lparr>mm_state := GMM_REGISTERED_NORMAL\<rparr>) sg)))"

section \<open>The tunnel library\<close>

definition cause_map :: "(u8 \<times> u8) list \<Rightarrow> u8 \<Rightarrow> u8 \<Rightarrow> u8" where
  "cause_map m i deflt = (case find (\<lambda>(a, b). a = i) (takeWhile (\<lambda>(a, b). a \<noteq> 0 \<and> b \<noteq> 0) m) of None \<Rightarrow> deflt | Some (a, b) \<Rightarrow> b)"

text \<open>The causes of the tunnel protocol as 3GPP TS 29.060 has them.\<close>

definition gtp2sm_cause_map :: "(u8 \<times> u8) list" where
  "gtp2sm_cause_map =
     [(199, 0x1a), (200, 0x20), (201, 0x60), (202, 0x60), (203, 0x6f), (204, 0x26), (205, 0x21), (206, 0x6f), (207, 0x6f), (208, 0x1d),
      (209, 0x1e), (210, 0x6f), (211, 0x1a), (212, 0x1a), (213, 0x6f), (214, 0x6f), (219, 0x1b), (220, 0x1c), (0, 0)]"

abbreviation (input) GTPCAUSE_ACC_REQ :: int where "GTPCAUSE_ACC_REQ \<equiv> 128"

text \<open>The entity of the link layer is one of sixteen; the SAPI of a request is not compared with that.\<close>

definition lle_of :: "sgsn_mm_ctx \<Rightarrow> sgsn_pdp_ctx \<Rightarrow> nat option" where
  "lle_of mm pdp = (if pdp_sapi pdp < 16 then Some (unat (pdp_sapi pdp)) else None)"

definition create_pdp_conf :: "gmm_env \<Rightarrow> bool \<Rightarrow> nat \<Rightarrow> int \<Rightarrow> sgsn \<Rightarrow> sg_out" where
  "create_pdp_conf env has_pdp i cause sg = do {
     (mm, pctx) \<leftarrow> pdp_by_id i sg;
     let reject = (\<lambda>reject_cause. Some
       (sgsn_pdp_ctx_free i (upd_pdp i (\<lambda>p. p\<lparr>pdp_state := PDP_STATE_NONE\<rparr>) sg),
        (if has_pdp then [Gtp_freepdp i] else []) @ fst (gsm48_tx_gsm_act_pdp_rej env mm (pdp_ti pctx) reject_cause []), - 1));
     if cause < 0
     then (case pdp_lib pctx of
             Some lib \<Rightarrow>
               if has_pdp \<and> gp_version lib = 1
               then Some (upd_pdp i (\<lambda>p. p\<lparr>pdp_lib := Some (lib\<lparr>gp_version := 0\<rparr>)\<rparr>) sg, [Gtp_resend_req i], 0)
               else reject GSM_CAUSE_NET_FAIL
           | None \<Rightarrow> reject GSM_CAUSE_NET_FAIL)
     else if cause \<noteq> GTPCAUSE_ACC_REQ then reject (cause_map gtp2sm_cause_map (of_int cause) GSM_CAUSE_ACT_REJ_GGSN)
     else do {
       sapi \<leftarrow> lle_of mm pctx;
       (lib, ev, rc) \<leftarrow> gsm48_tx_gsm_act_pdp_acc env mm pctx;
       Some (upd_pdp i (\<lambda>p. p\<lparr>pdp_lib := Some lib\<rparr>) sg, Sndcp_activate (mm_llme mm) sapi (pdp_nsapi pctx) # ev, rc) } }"

definition delete_pdp_conf :: "gmm_env \<Rightarrow> nat \<Rightarrow> sgsn \<Rightarrow> sg_out" where
  "delete_pdp_conf env i sg = do {
     (mm, pctx) \<leftarrow> pdp_by_id i sg;
     sapi \<leftarrow> lle_of mm pctx;
     let (ev, rc) = tx_gsm_deact_pdp_acc env mm (pdp_ti pctx);
     Some (sgsn_pdp_ctx_free i sg, Sndcp_deactivate (mm_llme mm) sapi (pdp_nsapi pctx) # ev, rc) }"

datatype gtp_conf = GTP_ECHO_REQ | GTP_CREATE_PDP_REQ | GTP_DELETE_PDP_REQ | GTP_OTHER

definition cb_conf :: "gmm_env \<Rightarrow> gtp_conf \<Rightarrow> int \<Rightarrow> bool \<Rightarrow> nat \<Rightarrow> sgsn \<Rightarrow> sg_out" where
  "cb_conf env type cause has_pdp cbp sg =
     (case type of
        GTP_CREATE_PDP_REQ \<Rightarrow> create_pdp_conf env has_pdp cbp cause sg
      | GTP_DELETE_PDP_REQ \<Rightarrow> delete_pdp_conf env cbp sg
      | _ \<Rightarrow> tx ([], 0) sg)"

text \<open>The loop goes on from a context that it freed when the mobile station is not registered.\<close>

definition drop_one_pdp :: "gmm_env \<Rightarrow> sgsn_mm_ctx \<Rightarrow> sgsn_pdp_ctx \<Rightarrow> (sgsn_pdp_ctx \<times> gmm_event list \<times> int) option" where
  "drop_one_pdp env mm pdp =
     (if mm_state mm = GMM_REGISTERED_NORMAL then Some (gsm48_tx_gsm_deact_pdp_req env mm GSM_CAUSE_NET_FAIL pdp) else None)"

primrec drop_pdps :: "gmm_env \<Rightarrow> u32 \<Rightarrow> sgsn_mm_ctx \<Rightarrow> sgsn_pdp_ctx list \<Rightarrow> (sgsn_pdp_ctx list \<times> gmm_event list) option" where
  "drop_pdps env g mm [] = Some ([], [])"
| "drop_pdps env g mm (p # ps) =
     (if pdp_ggsn p = Some g
      then do { (p', ev, rc) \<leftarrow> drop_one_pdp env mm p; (ps', ev') \<leftarrow> drop_pdps env g mm ps; Some (p' # ps', ev @ ev') }
      else do { (ps', ev') \<leftarrow> drop_pdps env g mm ps; Some (p # ps', ev') })"

primrec drop_mms :: "gmm_env \<Rightarrow> u32 \<Rightarrow> sgsn_mm_ctx list \<Rightarrow> (sgsn_mm_ctx list \<times> gmm_event list) option" where
  "drop_mms env g [] = Some ([], [])"
| "drop_mms env g (m # ms) = do {
     (ps, ev) \<leftarrow> drop_pdps env g m (mm_pdp_list m);
     (ms', ev') \<leftarrow> drop_mms env g ms;
     Some (m\<lparr>mm_pdp_list := ps\<rparr> # ms', ev @ ev') }"

definition drop_all_pdp_for_ggsn :: "gmm_env \<Rightarrow> u32 \<Rightarrow> sgsn \<Rightarrow> (sgsn \<times> gmm_event list) option" where
  "drop_all_pdp_for_ggsn env g sg = map_option (\<lambda>(ms, ev). (sg\<lparr>sg_mm_ctxts := ms\<rparr>, ev)) (drop_mms env g (sg_mm_ctxts sg))"

definition cb_recovery :: "gmm_env \<Rightarrow> u32 \<Rightarrow> u8 \<Rightarrow> sgsn \<Rightarrow> sg_out" where
  "cb_recovery env peer recovery sg =
     (case sgsn_ggsn_ctx_by_addr peer sg of
        None \<Rightarrow> tx ([], - EINVAL) sg
      | Some g \<Rightarrow>
          (let noted = sg\<lparr>sg_ggsn_ctxts := map (\<lambda>x. if x = g then x\<lparr>gg_remote_restart_ctr := uint recovery\<rparr> else x) (sg_ggsn_ctxts sg)\<rparr>
           in if gg_remote_restart_ctr g = - 1 then tx ([], 0) noted
              else if gg_remote_restart_ctr g \<noteq> uint recovery
              then map_option (\<lambda>(sg, ev). (sg, ev, 0)) (drop_all_pdp_for_ggsn env (gg_id g) noted)
              else tx ([], 0) sg))"

text \<open>A packet from the gateway; a suspended station is paged as well.\<close>

definition cb_data_ind :: "gmm_env \<Rightarrow> nat option \<Rightarrow> u8 list \<Rightarrow> sgsn \<Rightarrow> sg_out" where
  "cb_data_ind env priv packet sg =
     (case priv of
        None \<Rightarrow> tx ([], - EIO) sg
      | Some i \<Rightarrow> do {
          (mm, pdp) \<leftarrow> pdp_by_id i sg;
          if mm_state mm = GMM_REGISTERED_SUSPENDED \<or> mm_state mm = GMM_REGISTERED_NORMAL
          then do {
            sapi \<leftarrow> lle_of mm pdp;
            let ev = Sndcp_unitdata (mm_llme mm) sapi (pdp_nsapi pdp) (mm_tlli mm) (mm_bvci mm) (mm_nsei mm) packet;
            Some (sg, (if mm_state mm = GMM_REGISTERED_SUSPENDED
                       then [Bssgp_paging (mm_nsei mm) (mm_bvci mm) (mm_imsi mm) (mm_p_tmsi mm) (mm_drx_parms mm)] else []) @ [ev], ge_rc env ev) }
          else tx ([], - 1) sg })"

definition sgsn_rx_sndcp_ud_ind :: "gmm_env \<Rightarrow> gprs_ra_id \<Rightarrow> u32 \<Rightarrow> u8 \<Rightarrow> u8 list \<Rightarrow> sgsn \<Rightarrow> sg_out" where
  "sgsn_rx_sndcp_ud_ind env raid tlli nsapi npdu sg =
     (let (found, sg) = sgsn_mm_ctx_by_tlli (ge_tlli_type env) tlli raid sg
      in case found of
           None \<Rightarrow> tx ([], - EIO) sg
         | Some mm \<Rightarrow>
             (case sgsn_pdp_ctx_by_nsapi mm (ucast nsapi) of
                None \<Rightarrow> tx ([], - EIO) sg
              | Some pdp \<Rightarrow>
                  (if pdp_lib pdp = None then tx ([], - EIO) sg
                   else if pdp_ggsn pdp = None then None
                   else (let ev = Gtp_data_req (pdp_id pdp) npdu in tx ([ev], ge_rc env ev) sg))))"

section \<open>The SGSN\<close>

text \<open>Two commands of the configuration (\<^verbatim>\<open>src/gprs/sgsn_vty.c\<close>).\<close>

definition cfg_ggsn_remote_ip :: "u32 \<Rightarrow> u32 \<Rightarrow> sgsn \<Rightarrow> sgsn" where
  "cfg_ggsn_remote_ip i addr sg =
     (let (g, sg) = sgsn_ggsn_ctx_find_alloc i sg
      in sg\<lparr>sg_ggsn_ctxts := map (\<lambda>x. if gg_id x = i then x\<lparr>gg_remote_addr := addr\<rparr> else x) (sg_ggsn_ctxts sg)\<rparr>)"

definition cfg_ggsn_gtp_version :: "u32 \<Rightarrow> int \<Rightarrow> sgsn \<Rightarrow> sgsn" where
  "cfg_ggsn_gtp_version i v sg =
     (let (g, sg) = sgsn_ggsn_ctx_find_alloc i sg
      in sg\<lparr>sg_ggsn_ctxts := map (\<lambda>x. if gg_id x = i then x\<lparr>gg_gtp_version := (if v \<noteq> 0 then 1 else 0)\<rparr> else x) (sg_ggsn_ctxts sg)\<rparr>)"

text \<open>What the main loop delivers: messages of the link layer, timers, answers and packets of the tunnel library, packets
  of SNDCP, and the commands. A timer expires when it runs, or when its context was freed while it ran.\<close>

datatype sgsn_input =
    In_msg gmm_msg nat
  | In_mm_timer nat
  | In_pdp_timer nat
  | In_suspend gprs_ra_id u32
  | In_resume gprs_ra_id u32
  | In_conf gtp_conf int bool nat
  | In_recovery u32 u8
  | In_data "nat option" "u8 list"
  | In_ud gprs_ra_id u32 u8 "u8 list"
  | In_ggsn_ip u32 u32
  | In_ggsn_version u32 int

primrec sgsn_enabled :: "sgsn_input \<Rightarrow> sgsn \<Rightarrow> bool" where
  "sgsn_enabled (In_msg msg llme) sg \<longleftrightarrow> True"
| "sgsn_enabled (In_mm_timer i) sg \<longleftrightarrow> list_ex (\<lambda>m. mm_id m = i \<and> mm_timer m) (sg_mm_ctxts sg) \<or> i \<in> set (sg_stale sg)"
| "sgsn_enabled (In_pdp_timer i) sg \<longleftrightarrow>
     list_ex (\<lambda>m. list_ex (\<lambda>p. pdp_id p = i \<and> pdp_timer p) (mm_pdp_list m)) (sg_mm_ctxts sg) \<or> i \<in> set (sg_stale sg)"
| "sgsn_enabled (In_suspend raid tlli) sg \<longleftrightarrow> True"
| "sgsn_enabled (In_resume raid tlli) sg \<longleftrightarrow> True"
| "sgsn_enabled (In_conf type cause has_pdp i) sg \<longleftrightarrow> True"
| "sgsn_enabled (In_recovery peer ctr) sg \<longleftrightarrow> True"
| "sgsn_enabled (In_data priv packet) sg \<longleftrightarrow> True"
| "sgsn_enabled (In_ud raid tlli nsapi npdu) sg \<longleftrightarrow> True"
| "sgsn_enabled (In_ggsn_ip i addr) sg \<longleftrightarrow> True"
| "sgsn_enabled (In_ggsn_version i v) sg \<longleftrightarrow> True"

primrec sgsn_handle :: "gmm_env \<Rightarrow> sgsn_input \<Rightarrow> sgsn \<Rightarrow> sg_out" where
  "sgsn_handle env (In_msg msg llme) sg = gsm0408_gprs_rcvmsg env msg llme sg"
| "sgsn_handle env (In_mm_timer i) sg = mmctx_timer_cb env i sg"
| "sgsn_handle env (In_pdp_timer i) sg = pdpctx_timer_cb env i sg"
| "sgsn_handle env (In_suspend raid tlli) sg = gprs_gmm_rx_suspend env raid tlli sg"
| "sgsn_handle env (In_resume raid tlli) sg = gprs_gmm_rx_resume env raid tlli sg"
| "sgsn_handle env (In_conf type cause has_pdp i) sg = cb_conf env type cause has_pdp i sg"
| "sgsn_handle env (In_recovery peer ctr) sg = cb_recovery env peer ctr sg"
| "sgsn_handle env (In_data priv packet) sg = cb_data_ind env priv packet sg"
| "sgsn_handle env (In_ud raid tlli nsapi npdu) sg = sgsn_rx_sndcp_ud_ind env raid tlli nsapi npdu sg"
| "sgsn_handle env (In_ggsn_ip i addr) sg = tx ([], 0) (cfg_ggsn_remote_ip i addr sg)"
| "sgsn_handle env (In_ggsn_version i v) sg = tx ([], 0) (cfg_ggsn_gtp_version i v sg)"

definition sgsn_init :: sgsn where
  "sgsn_init = \<lparr>sg_mm_ctxts = [], sg_ggsn_ctxts = [], sg_next = 0, sg_stale = [], sg_rnd = 0\<rparr>"

inductive sgsn_reach :: "gmm_env \<Rightarrow> sgsn \<Rightarrow> bool" for env where
  reach_init: "sgsn_reach env sgsn_init"
| reach_step: "sgsn_reach env sg \<Longrightarrow> sgsn_enabled i sg \<Longrightarrow> sgsn_handle env i sg = Some (sg', ev, rc) \<Longrightarrow> sgsn_reach env sg'"

text \<open>A timer that expires \<open>n\<close> times while nothing else happens.\<close>

primrec mm_timer_expirations :: "gmm_env \<Rightarrow> nat \<Rightarrow> nat \<Rightarrow> sgsn \<Rightarrow> (sgsn \<times> gmm_event list) option" where
  "mm_timer_expirations env i 0 sg = Some (sg, [])"
| "mm_timer_expirations env i (Suc n) sg =
     (if sgsn_enabled (In_mm_timer i) sg
      then do { (sg, ev, rc) \<leftarrow> mmctx_timer_cb env i sg; (sg, ev') \<leftarrow> mm_timer_expirations env i n sg; Some (sg, ev @ ev') }
      else None)"

primrec pdp_timer_expirations :: "gmm_env \<Rightarrow> nat \<Rightarrow> nat \<Rightarrow> sgsn \<Rightarrow> (sgsn \<times> gmm_event list) option" where
  "pdp_timer_expirations env i 0 sg = Some (sg, [])"
| "pdp_timer_expirations env i (Suc n) sg =
     (if sgsn_enabled (In_pdp_timer i) sg
      then do { (sg, ev, rc) \<leftarrow> pdpctx_timer_cb env i sg; (sg, ev') \<leftarrow> pdp_timer_expirations env i n sg; Some (sg, ev @ ev') }
      else None)"

text \<open>A run of the main loop over given inputs.\<close>

primrec sgsn_run :: "gmm_env \<Rightarrow> sgsn_input list \<Rightarrow> sgsn \<Rightarrow> sgsn option" where
  "sgsn_run env [] sg = Some sg"
| "sgsn_run env (i # is) sg = (if sgsn_enabled i sg then do { (sg, ev, rc) \<leftarrow> sgsn_handle env i sg; sgsn_run env is sg } else None)"

end
