(* ===== verification/Gprs_Gmm_Inv.thy ===== *)
theory Gprs_Gmm_Inv
  imports Gprs_Gmm
begin

unbundle bit_operations_syntax

text \<open>
  Properties of the mobility and session management of the SGSN: the contexts stay consistent in every state that
  messages, timers and the tunnel library can bring about, timers end the registration of a silent station, packets
  take the tunnel of their context; and what happens to identities, timers and sessions where the code does not look.
\<close>

section \<open>The invariant\<close>

definition pdp_ok :: "sgsn_pdp_ctx \<Rightarrow> bool" where
  "pdp_ok p \<longleftrightarrow> 5 \<le> pdp_nsapi p \<and> pdp_nsapi p \<le> 15 \<and> (pdp_timer p \<longrightarrow> pdp_T p = 3395 \<and> pdp_num_T_exp p = 0)"

definition mm_registered :: "sgsn_mm_ctx \<Rightarrow> bool" where
  "mm_registered m \<longleftrightarrow> mm_state m = GMM_REGISTERED_NORMAL \<or> mm_state m = GMM_REGISTERED_SUSPENDED"

definition pdps_ok :: "sgsn_pdp_ctx list \<Rightarrow> bool" where
  "pdps_ok ps \<longleftrightarrow> list_all pdp_ok ps \<and> distinct (map pdp_nsapi ps) \<and> distinct (map pdp_id ps)"

definition mm_ok :: "sgsn_mm_ctx \<Rightarrow> bool" where
  "mm_ok m \<longleftrightarrow>
     pdps_ok (mm_pdp_list m) \<and>
     (mm_registered m \<longrightarrow> mm_imsi m \<noteq> [] \<and> mm_imei m \<noteq> []) \<and>
     (mm_timer m \<longrightarrow> mm_T m \<in> {3350, 3360, 3370} \<and> mm_num_T_exp m < 5)"

text \<open>What two contexts have in common only when they are the same; the contexts \<open>x\<close> are exempt from the uniqueness of
  P-TMSIs while they are being set up.\<close>

definition mm_apart :: "nat set \<Rightarrow> sgsn_mm_ctx \<Rightarrow> sgsn_mm_ctx \<Rightarrow> bool" where
  "mm_apart x m m' \<longleftrightarrow>
     (mm_p_tmsi m = mm_p_tmsi m' \<and> mm_id m \<notin> x \<and> mm_id m' \<notin> x \<or>
      pdp_id ` set (mm_pdp_list m) \<inter> pdp_id ` set (mm_pdp_list m') \<noteq> {} \<longrightarrow> mm_id m = mm_id m')"

definition sg_inv :: "nat set \<Rightarrow> sgsn \<Rightarrow> bool" where
  "sg_inv x sg \<longleftrightarrow>
     distinct (map mm_id (sg_mm_ctxts sg)) \<and>
     (\<forall>m \<in> set (sg_mm_ctxts sg). mm_id m < sg_next sg \<and> pdp_id ` set (mm_pdp_list m) \<subseteq> {..<sg_next sg} \<and> mm_ok m) \<and>
     (\<forall>m \<in> set (sg_mm_ctxts sg). \<forall>m' \<in> set (sg_mm_ctxts sg). mm_apart x m m')"

lemma mm_ok_pdps: "mm_ok m \<Longrightarrow> pdps_ok ps \<Longrightarrow> mm_ok (m\<lparr>mm_pdp_list := ps\<rparr>)"
  by (simp add: mm_ok_def mm_registered_def)

lemma sg_inv_frame [simp]:
  "sg_inv x (sg\<lparr>sg_rnd := k\<rparr>) = sg_inv x sg"
  "sg_inv x (sg\<lparr>sg_ggsn_ctxts := gs\<rparr>) = sg_inv x sg"
  "sg_inv x (sg\<lparr>sg_stale := st\<rparr>) = sg_inv x sg"
  by (simp_all add: sg_inv_def)

lemma sg_inv_mono: "sg_inv x sg \<Longrightarrow> x \<subseteq> y \<Longrightarrow> sg_inv y sg"
  unfolding sg_inv_def mm_apart_def by blast

lemma sg_inv_unique:
  assumes "sg_inv x sg" "m \<in> set (sg_mm_ctxts sg)" "m' \<in> set (sg_mm_ctxts sg)" "mm_id m = mm_id m'"
  shows "m = m'"
  using assms by (auto simp: sg_inv_def distinct_map dest: inj_onD)

lemma map_upd_mm [simp]: "(\<And>m. mm_id m = i \<Longrightarrow> g (f m) = g m) \<Longrightarrow> map g (sg_mm_ctxts (upd_mm i f sg)) = map g (sg_mm_ctxts sg)"
  by (simp add: upd_mm_def)

lemma set_upd_mm: "set (sg_mm_ctxts (upd_mm i f sg)) = (\<lambda>m. if mm_id m = i then f m else m) ` set (sg_mm_ctxts sg)"
  by (simp add: upd_mm_def)

lemma upd_mm_next [simp]: "sg_next (upd_mm i f sg) = sg_next sg" "sg_rnd (upd_mm i f sg) = sg_rnd sg" "sg_stale (upd_mm i f sg) = sg_stale sg"
  "sg_ggsn_ctxts (upd_mm i f sg) = sg_ggsn_ctxts sg"
  by (simp_all add: upd_mm_def)

text \<open>Changing each context, with the two conditions of the invariant left over.\<close>

lemma map_ctxts_inv:
  assumes "sg_inv x sg" "sg_mm_ctxts sg' = map g (sg_mm_ctxts sg)" "sg_next sg \<le> sg_next sg'" "\<And>m. mm_id (g m) = mm_id m"
    and "\<And>m. m \<in> set (sg_mm_ctxts sg) \<Longrightarrow> mm_ok m \<Longrightarrow> pdp_id ` set (mm_pdp_list (g m)) \<subseteq> {..<sg_next sg'} \<and> mm_ok (g m)"
    and "\<And>m m'. m \<in> set (sg_mm_ctxts sg) \<Longrightarrow> m' \<in> set (sg_mm_ctxts sg) \<Longrightarrow> mm_apart x m m' \<Longrightarrow> mm_apart y (g m) (g m')"
  shows "sg_inv y sg'"
proof -
  have "mm_id \<circ> g = mm_id" using assms(4) by auto
  then show ?thesis
    using assms unfolding sg_inv_def by (auto dest: order.strict_trans2)
qed

lemma upd_mm_inv:
  assumes "sg_inv x sg" "\<And>m. mm_id (f m) = mm_id m" "\<And>m. mm_pdp_list (f m) = mm_pdp_list m"
    and "\<And>m. m \<in> set (sg_mm_ctxts sg) \<Longrightarrow> mm_id m = i \<Longrightarrow> mm_ok m \<Longrightarrow> mm_ok (f m)"
    and "\<And>m. i \<notin> x \<Longrightarrow> mm_p_tmsi (f m) = mm_p_tmsi m"
  shows "sg_inv x (upd_mm i f sg)"
proof (rule map_ctxts_inv [OF assms(1)])
  show "sg_mm_ctxts (upd_mm i f sg) = map (\<lambda>m. if mm_id m = i then f m else m) (sg_mm_ctxts sg)" by (simp add: upd_mm_def)
next
  fix m assume "m \<in> set (sg_mm_ctxts sg)" "mm_ok m"
  then show "pdp_id ` set (mm_pdp_list (if mm_id m = i then f m else m)) \<subseteq> {..<sg_next (upd_mm i f sg)} \<and> mm_ok (if mm_id m = i then f m else m)"
    using assms by (auto simp: sg_inv_def)
next
  fix m m' assume "mm_apart x m m'"
  then show "mm_apart x (if mm_id m = i then f m else m) (if mm_id m' = i then f m' else m')"
    using assms(2,3,5) by (cases "i \<in> x") (auto simp: mm_apart_def)
qed (use assms(2) in auto)

lemma upd_mm_upd_mm: "(\<And>m. mm_id (g m) = mm_id m) \<Longrightarrow> upd_mm i f (upd_mm i g sg) = upd_mm i (\<lambda>m. f (g m)) sg"
  by (auto simp: upd_mm_def)

lemma upd_mm_id [simp]: "upd_mm i id sg = sg" "upd_mm i (\<lambda>m. m) sg = sg"
proof -
  have *: "(\<lambda>m. if mm_id m = i then id m else m) = id" by auto
  show "upd_mm i id sg = sg" unfolding upd_mm_def * by simp
qed (simp add: upd_mm_def)

text \<open>A fresh P-TMSI ends the exemption of its context.\<close>

lemma new_ptmsi_inv:
  assumes "sg_inv {i} sg" "\<And>m. mm_id (f m) = mm_id m" "\<And>m. mm_pdp_list (f m) = mm_pdp_list m"
    and "\<And>m. pdps_ok (mm_pdp_list m) \<Longrightarrow> mm_ok (f m)" "\<And>m. mm_p_tmsi (f m) = p"
    and "\<And>m. m \<in> set (sg_mm_ctxts sg) \<Longrightarrow> mm_id m \<noteq> i \<Longrightarrow> mm_p_tmsi m \<noteq> p"
  shows "sg_inv {} (upd_mm i f sg)"
proof (rule map_ctxts_inv [OF assms(1)])
  show "sg_mm_ctxts (upd_mm i f sg) = map (\<lambda>m. if mm_id m = i then f m else m) (sg_mm_ctxts sg)" by (simp add: upd_mm_def)
next
  fix m assume "m \<in> set (sg_mm_ctxts sg)" "mm_ok m"
  then show "pdp_id ` set (mm_pdp_list (if mm_id m = i then f m else m)) \<subseteq> {..<sg_next (upd_mm i f sg)} \<and> mm_ok (if mm_id m = i then f m else m)"
    using assms(1,3,4) by (auto simp: sg_inv_def mm_ok_def)
next
  fix m m' assume "m \<in> set (sg_mm_ctxts sg)" "m' \<in> set (sg_mm_ctxts sg)" "mm_apart {i} m m'"
  then show "mm_apart {} (if mm_id m = i then f m else m) (if mm_id m' = i then f m' else m')"
    using assms(2,3,5,6) by (auto simp: mm_apart_def)
qed (use assms(2) in auto)

lemma mm_free_inv: "sg_inv x sg \<Longrightarrow> sg_inv x (sgsn_mm_ctx_free i sg)"
  unfolding sg_inv_def sgsn_mm_ctx_free_def Let_def by (simp add: distinct_map_filter)

lemma new_mm_ctx:
  "fst (sgsn_mm_ctx_alloc tlli ra sg) = c \<Longrightarrow> mm_id c = sg_next sg \<and> mm_pdp_list c = [] \<and> mm_ok c"
  by (auto simp: sgsn_mm_ctx_alloc_def Let_def mm_ok_def pdps_ok_def mm_registered_def)

lemma mm_alloc_inv:
  assumes "sg_inv {} sg" "sgsn_mm_ctx_alloc tlli ra sg = (c, sg')"
  shows "sg_inv {sg_next sg} sg'"
proof -
  have c: "mm_id c = sg_next sg" "mm_pdp_list c = []" "mm_ok c" using new_mm_ctx assms(2) by (metis fst_conv)+
  have sg': "sg_mm_ctxts sg' = c # sg_mm_ctxts sg" "sg_next sg' = Suc (sg_next sg)"
    using assms(2) by (auto simp: sgsn_mm_ctx_alloc_def Let_def)
  have old: "mm_id m < sg_next sg \<and> pdp_id ` set (mm_pdp_list m) \<subseteq> {..<sg_next sg} \<and> mm_ok m" if "m \<in> set (sg_mm_ctxts sg)" for m
    using assms(1) that by (simp add: sg_inv_def)
  then have "sg_next sg \<notin> mm_id ` set (sg_mm_ctxts sg)" by (metis imageE less_irrefl)
  moreover have "pdp_id ` set (mm_pdp_list m) \<subseteq> {..<Suc (sg_next sg)}" if "m \<in> set (sg_mm_ctxts sg)" for m
    using old [OF that] by (meson lessThan_subset_iff less_imp_le_nat lessI order_trans)
  moreover have "mm_apart {sg_next sg} m m'" if "m \<in> set (c # sg_mm_ctxts sg)" "m' \<in> set (c # sg_mm_ctxts sg)" for m m'
  proof -
    have "mm_apart {sg_next sg} c m''" "mm_apart {sg_next sg} m'' c" for m'' using c by (simp_all add: mm_apart_def)
    moreover have "mm_apart {sg_next sg} m m'" if "m \<in> set (sg_mm_ctxts sg)" "m' \<in> set (sg_mm_ctxts sg)"
      using sg_inv_mono [OF assms(1), of "{sg_next sg}"] that by (simp add: sg_inv_def)
    ultimately show ?thesis using that by (cases "m = c"; cases "m' = c") auto
  qed
  moreover have "distinct (map mm_id (sg_mm_ctxts sg))" using assms(1) by (simp add: sg_inv_def)
  moreover have "mm_id m < Suc (sg_next sg)" if "m \<in> set (sg_mm_ctxts sg)" for m using old [OF that] by simp
  ultimately show ?thesis
    unfolding sg_inv_def sg' using c old by simp
qed

lemma upd_pdp_inv:
  assumes "sg_inv x sg" "\<And>p. pdp_id (f p) = pdp_id p" "\<And>p. pdp_nsapi (f p) = pdp_nsapi p"
    and "\<And>p. pdp_id p = i \<Longrightarrow> pdp_ok p \<Longrightarrow> pdp_ok (f p)"
  shows "sg_inv x (upd_pdp i f sg)"
proof (rule map_ctxts_inv [OF assms(1)])
  let ?g = "\<lambda>p. if pdp_id p = i then f p else p"
  have ids: "pdp_id \<circ> ?g = pdp_id" "pdp_nsapi \<circ> ?g = pdp_nsapi" using assms(2,3) by auto
  have "map pdp_id (map ?g ps) = map pdp_id ps" for ps by (simp only: map_map ids)
  then have set_ids: "pdp_id ` set (map ?g ps) = pdp_id ` set ps" for ps by (metis set_map)
  have ok: "pdps_ok ps \<Longrightarrow> pdps_ok (map ?g ps)" for ps using ids assms(4) by (auto simp: pdps_ok_def list_all_iff)
  show "sg_mm_ctxts (upd_pdp i f sg) = map (\<lambda>m. m\<lparr>mm_pdp_list := map ?g (mm_pdp_list m)\<rparr>) (sg_mm_ctxts sg)" by (simp add: upd_pdp_def)
  show "pdp_id ` set (mm_pdp_list (m\<lparr>mm_pdp_list := map ?g (mm_pdp_list m)\<rparr>)) \<subseteq> {..<sg_next (upd_pdp i f sg)} \<and>
      mm_ok (m\<lparr>mm_pdp_list := map ?g (mm_pdp_list m)\<rparr>)" if m: "m \<in> set (sg_mm_ctxts sg)" "mm_ok m" for m
  proof -
    have "pdps_ok (mm_pdp_list m)" using m(2) by (simp add: mm_ok_def)
    then show ?thesis
      using assms(1) m set_ids mm_ok_pdps ok by (auto simp: sg_inv_def upd_pdp_def simp del: set_map)
  qed
  show "mm_apart x (m\<lparr>mm_pdp_list := map ?g (mm_pdp_list m)\<rparr>) (m'\<lparr>mm_pdp_list := map ?g (mm_pdp_list m')\<rparr>)" if "mm_apart x m m'" for m m'
    using that set_ids by (simp add: mm_apart_def del: set_map)
qed (simp_all add: upd_pdp_def)

lemma pdp_free_inv: "sg_inv x sg \<Longrightarrow> sg_inv x (sgsn_pdp_ctx_free i sg)"
proof (rule map_ctxts_inv)
  let ?g = "\<lambda>m. m\<lparr>mm_pdp_list := filter (\<lambda>p. pdp_id p \<noteq> i) (mm_pdp_list m)\<rparr>"
  show "sg_mm_ctxts (sgsn_pdp_ctx_free i sg) = map ?g (sg_mm_ctxts sg)" by (simp add: sgsn_pdp_ctx_free_def)
  show "pdp_id ` set (mm_pdp_list (?g m)) \<subseteq> {..<sg_next (sgsn_pdp_ctx_free i sg)} \<and> mm_ok (?g m)"
    if "sg_inv x sg" "m \<in> set (sg_mm_ctxts sg)" "mm_ok m" for m
  proof -
    have "pdps_ok (filter (\<lambda>p. pdp_id p \<noteq> i) (mm_pdp_list m))" using that(3) by (auto simp: mm_ok_def pdps_ok_def list_all_iff distinct_map_filter)
    then have "mm_ok (?g m)" using that(3) mm_ok_pdps by blast
    moreover have "pdp_id ` set (mm_pdp_list m) \<subseteq> {..<sg_next sg}" using that(1,2) by (simp add: sg_inv_def)
    ultimately show ?thesis by (auto simp: sgsn_pdp_ctx_free_def)
  qed
  show "mm_apart x (?g m) (?g m')" if "mm_apart x m m'" for m m' using that by (auto simp: mm_apart_def)
qed (simp_all add: sgsn_pdp_ctx_free_def)

lemma pdp_alloc_inv:
  assumes "sg_inv {} sg" "m \<in> set (sg_mm_ctxts sg)" "5 \<le> nsapi" "nsapi \<le> 15" "sgsn_pdp_ctx_alloc m nsapi sg = Some (p, sg')"
  shows "sg_inv {} sg'"
proof -
  let ?g = "\<lambda>m'. if mm_id m' = mm_id m then m'\<lparr>mm_pdp_list := p # mm_pdp_list m'\<rparr> else m'"
  have p: "pdp_id p = sg_next sg" "pdp_nsapi p = nsapi" "\<not> pdp_timer p" "nsapi \<notin> pdp_nsapi ` set (mm_pdp_list m)"
    using assms(5) by (auto simp: sgsn_pdp_ctx_alloc_def sgsn_pdp_ctx_by_nsapi_def Let_def find_None_iff split: if_splits)
  have sg': "sg_mm_ctxts sg' = map ?g (sg_mm_ctxts sg)" "sg_next sg' = Suc (sg_next sg)"
    using assms(5) by (auto simp: sgsn_pdp_ctx_alloc_def Let_def upd_mm_def split: if_splits)
  have ids: "pdp_id ` set (mm_pdp_list m') \<subseteq> {..<sg_next sg}" if "m' \<in> set (sg_mm_ctxts sg)" for m'
    using assms(1) that by (simp add: sg_inv_def)
  then have new: "sg_next sg \<notin> pdp_id ` set (mm_pdp_list m')" if "m' \<in> set (sg_mm_ctxts sg)" for m' using that by blast
  show ?thesis
  proof (rule map_ctxts_inv [OF assms(1) sg'(1)])
    fix m' assume m': "m' \<in> set (sg_mm_ctxts sg)" "mm_ok m'"
    have "pdps_ok (p # mm_pdp_list m')" if "mm_id m' = mm_id m"
      using sg_inv_unique [OF assms(1) m'(1) assms(2) that] m' p assms(3,4) new [OF m'(1)]
      by (auto simp: mm_ok_def pdps_ok_def pdp_ok_def)
    then have "mm_ok (?g m')" using m'(2) mm_ok_pdps by simp
    then show "pdp_id ` set (mm_pdp_list (?g m')) \<subseteq> {..<sg_next sg'} \<and> mm_ok (?g m')" using ids [OF m'(1)] p(1) sg'(2) by (auto simp: less_Suc_eq)
  next
    fix m' m'' assume m': "m' \<in> set (sg_mm_ctxts sg)" and m'': "m'' \<in> set (sg_mm_ctxts sg)" "mm_apart {} m' m''"
    then show "mm_apart {} (?g m') (?g m'')"
      using new [OF m'] new [OF m''(1)] p(1) unfolding mm_apart_def by auto
  qed (auto simp: sg'(2))
qed

lemma find_in: "find P xs = Some x \<Longrightarrow> x \<in> set xs \<and> P x"
  by (auto simp: find_Some_iff)

lemma upd_mm_in: "c \<in> set (sg_mm_ctxts sg) \<Longrightarrow> f c \<in> set (sg_mm_ctxts (upd_mm (mm_id c) f sg))"
  by (force simp: set_upd_mm image_iff)

lemma by_tlli_inv:
  assumes "sg_inv x sg" "sgsn_mm_ctx_by_tlli tt tlli ra sg = (found, sg')"
  shows "sg_inv x sg'" "found = Some c \<Longrightarrow> c \<in> set (sg_mm_ctxts sg')"
proof -
  have "sg_inv x (upd_mm i (\<lambda>c. c\<lparr>mm_tlli := tlli\<rparr>) sg)" for i
    using assms(1) by (rule upd_mm_inv) (auto simp: mm_ok_def mm_registered_def)
  then show "sg_inv x sg'"
    using assms by (auto simp: sgsn_mm_ctx_by_tlli_def split: option.splits if_splits)
  show "found = Some c \<Longrightarrow> c \<in> set (sg_mm_ctxts sg')"
    using assms(2) by (auto simp: sgsn_mm_ctx_by_tlli_def dest!: find_in intro: upd_mm_in split: option.splits if_splits)
qed

lemma on_mm_inv:
  assumes "sg_inv x sg" "on_mm i f sg = Some (sg', r)" "\<And>m. mm_id (fst (f m)) = mm_id m" "\<And>m. mm_pdp_list (fst (f m)) = mm_pdp_list m"
    and "\<And>m. mm_ok m \<Longrightarrow> mm_ok (fst (f m))" "\<And>m. mm_p_tmsi (fst (f m)) = mm_p_tmsi m"
  shows "sg_inv x sg'"
  using assms upd_mm_inv [OF assms(1), of "\<lambda>m. fst (f m)" i] by (auto simp: on_mm_def)

lemma authorize_ok:
  "mm_id (fst (gsm48_gmm_authorize env md m)) = mm_id m" "mm_pdp_list (fst (gsm48_gmm_authorize env md m)) = mm_pdp_list m"
  "mm_p_tmsi (fst (gsm48_gmm_authorize env md m)) = mm_p_tmsi m" "mm_imsi (fst (gsm48_gmm_authorize env md m)) = mm_imsi m"
  "pdps_ok (mm_pdp_list m) \<Longrightarrow> mm_ok (fst (gsm48_gmm_authorize env md m))"
  by (auto simp: gsm48_gmm_authorize_def mmctx_timer_start_def mm_ok_def mm_registered_def Let_def)

lemma alloc_ptmsi_fresh:
  "sgsn_alloc_ptmsi rnd sg = Some (p, sg') \<Longrightarrow> p \<notin> mm_p_tmsi ` set (sg_mm_ctxts sg) \<and> (\<exists>k. sg' = sg\<lparr>sg_rnd := k\<rparr>)"
  using ptmsi_loop_fresh by (fastforce simp: sgsn_alloc_ptmsi_def bind_eq_Some_conv split: prod.splits)

section \<open>The handlers keep it\<close>

lemmas mm_frame_ok = mm_ok_def mm_registered_def mmctx_timer_start_def mmctx_timer_stop_def msgid2mmctx_def

lemma mm_ok_pdpsD: "mm_ok m \<Longrightarrow> pdps_ok (mm_pdp_list m)"
  by (simp add: mm_ok_def)

definition keeps_lists :: "(sgsn_mm_ctx \<Rightarrow> sgsn_mm_ctx) \<Rightarrow> bool" where
  "keeps_lists g \<longleftrightarrow> (\<forall>m. mm_id (g m) = mm_id m \<and> mm_pdp_list (g m) = mm_pdp_list m \<and> mm_p_tmsi (g m) = mm_p_tmsi m)"

text \<open>Whatever identities a context has, the authorization leaves it consistent.\<close>

lemma authorized_inv:
  assumes "sg_inv {} sg" "keeps_lists g" "ev_then e (on_mm i (gsm48_gmm_authorize env md) (upd_mm i g sg)) = Some (sg', ev, rc)"
  shows "sg_inv {} sg'"
proof -
  have g: "mm_id (g m) = mm_id m" "mm_pdp_list (g m) = mm_pdp_list m" "mm_p_tmsi (g m) = mm_p_tmsi m" for m
    using assms(2) by (auto simp: keeps_lists_def)
  then have "upd_mm i (\<lambda>c. fst (gsm48_gmm_authorize env md c)) (upd_mm i g sg) = upd_mm i (\<lambda>c. fst (gsm48_gmm_authorize env md (g c))) sg"
    by (auto simp: upd_mm_def)
  moreover have "sg_inv {} (upd_mm i (\<lambda>c. fst (gsm48_gmm_authorize env md (g c))) sg)"
    using assms(1) by (rule upd_mm_inv) (auto simp: authorize_ok g mm_ok_pdpsD)
  ultimately show ?thesis using assms(3) by (auto simp: ev_then_def on_mm_def)
qed

lemma id_resp_identity_inv:
  assumes "sg_inv {} sg" "id_resp_identity t mi ctx sg = Some (sg1, ev)"
  shows "\<exists>g sg0. sg1 = upd_mm (mm_id ctx) g sg0 \<and> sg_inv {} sg0 \<and> keeps_lists g"
proof -
  have "\<exists>g sg0. sg = upd_mm (mm_id ctx) g sg0 \<and> sg_inv {} sg0 \<and> keeps_lists g"
    using assms(1) by (intro exI [of _ id] exI [of _ sg]) (simp add: keeps_lists_def)
  moreover have "keeps_lists (\<lambda>c. c\<lparr>mm_imsi := mi\<rparr>)" "keeps_lists (\<lambda>c. c\<lparr>mm_imei := mi\<rparr>)" by (simp_all add: keeps_lists_def)
  ultimately show ?thesis
    using assms mm_free_inv [OF assms(1)] unfolding id_resp_identity_def Let_def
    by (fastforce split: option.splits if_splits)
qed

lemma id_resp_inv:
  assumes "sg_inv {} sg" "gsm48_rx_gmm_id_resp env ctx msg sg = Some (sg', ev, rc)"
  shows "sg_inv {} sg'"
proof -
  have stop: "sg_inv {} (upd_mm i (if b then mmctx_timer_stop 3370 else id) sg)" for i b
    using assms(1) by (rule upd_mm_inv) (auto simp: mm_frame_ok)
  obtain t b mi sg1 e where *: "id_resp_identity t mi ctx (upd_mm (mm_id ctx) (if b then mmctx_timer_stop 3370 else id) sg) = Some (sg1, e)"
      "ev_then e (on_mm (mm_id ctx) (gsm48_gmm_authorize env (mm_t3350_mode ctx)) sg1) = Some (sg', ev, rc)"
    using assms(2) unfolding gsm48_rx_gmm_id_resp_def Let_def by (auto simp: bind_eq_Some_conv)
  then show ?thesis using id_resp_identity_inv [OF stop *(1)] authorized_inv by blast
qed

lemma att_req_ctx_inv:
  assumes "sg_inv {} sg" "att_req_ctx env msg ar ctx sg = Some (Some (c, sg', ev))"
  shows "\<exists>g sg0. sg' = upd_mm (mm_id c) g sg0 \<and> sg_inv {mm_id c} sg0 \<and> (\<forall>m. mm_id (g m) = mm_id m \<and> mm_pdp_list (g m) = mm_pdp_list m)"
proof -
  have old: "\<exists>g sg0. sg = upd_mm i g sg0 \<and> sg_inv {i} sg0 \<and> (\<forall>m. mm_id (g m) = mm_id m \<and> mm_pdp_list (g m) = mm_pdp_list m)" for i
    using sg_inv_mono [OF assms(1), of "{i}"] by (intro exI [of _ id] exI [of _ sg]) simp
  have new: "sg_inv {mm_id c} sg1 \<and> mm_id c = sg_next sg" if "sgsn_mm_ctx_alloc tlli ra sg = (c, sg1)" for tlli ra sg1 c
    using new_mm_ctx [of tlli ra sg c] mm_alloc_inv [OF assms(1) that] that by simp
  consider "sg' = sg"
    | tlli ra sg1 c' g where "sgsn_mm_ctx_alloc tlli ra sg = (c', sg1)" "mm_id c = mm_id c'" "sg' = upd_mm (mm_id c') g sg1"
        "\<forall>m. mm_id (g m) = mm_id m \<and> mm_pdp_list (g m) = mm_pdp_list m"
    using assms(2) unfolding att_req_ctx_def Let_def by (fastforce split: if_splits option.splits prod.splits)
  then show ?thesis
  proof cases
    case 1
    then show ?thesis using old by simp
  next
    case 2
    then show ?thesis using new [OF 2(1)] by (metis 2(2))
  qed
qed

lemma att_req_inv:
  assumes "sg_inv {} sg" "gsm48_rx_gmm_att_req env ctx msg llme sg = Some (sg', ev, rc)"
  shows "sg_inv {} sg'"
proof -
  have "sg_inv {} sg'" if f: "att_req_ctx env msg ar ctx sg = Some (Some (c, sg1, e))"
      and a: "sgsn_alloc_ptmsi (ge_rand env) (upd_mm (mm_id c) h sg1) = Some (p, sg2)"
      and o: "ev_then e' (on_mm (mm_id c) (\<lambda>c. gsm48_gmm_authorize env md (k c)) sg2) = Some (sg', ev, rc)"
      and h: "\<And>m. mm_id (h m) = mm_id m" "\<And>m. mm_pdp_list (h m) = mm_pdp_list m"
      and k: "\<And>m. mm_id (k m) = mm_id m" "\<And>m. mm_pdp_list (k m) = mm_pdp_list m" "\<And>m. mm_p_tmsi (k m) = p"
    for ar c sg1 e h p sg2 e' md k
  proof -
    obtain g sg0 where g: "sg1 = upd_mm (mm_id c) g sg0" "sg_inv {mm_id c} sg0" "\<And>m. mm_id (g m) = mm_id m" "\<And>m. mm_pdp_list (g m) = mm_pdp_list m"
      using att_req_ctx_inv [OF assms(1) f] by blast
    obtain n where sg2: "sg2 = (upd_mm (mm_id c) h sg1)\<lparr>sg_rnd := n\<rparr>" and p: "p \<notin> mm_p_tmsi ` set (sg_mm_ctxts (upd_mm (mm_id c) h sg1))"
      using alloc_ptmsi_fresh [OF a] by blast
    let ?f = "\<lambda>m. fst (gsm48_gmm_authorize env md (k (h (g m))))"
    have "sg_inv {} (upd_mm (mm_id c) ?f sg0)"
      using g(2)
    proof (rule new_ptmsi_inv)
      show "\<And>m. m \<in> set (sg_mm_ctxts sg0) \<Longrightarrow> mm_id m \<noteq> mm_id c \<Longrightarrow> mm_p_tmsi m \<noteq> p"
        using p g(3) by (auto simp: g(1) upd_mm_upd_mm set_upd_mm)
    qed (simp_all add: authorize_ok g h k)
    moreover have "sg' = (upd_mm (mm_id c) ?f sg0)\<lparr>sg_rnd := n\<rparr>"
      using o g(3) h(1) by (auto simp: ev_then_def on_mm_def sg2 g(1) upd_mm_def)
    ultimately show ?thesis by simp
  qed
  note accepted = this
  obtain parsed where parsed: "parse_att_req (gm_data msg) = Some parsed"
    using assms(2) by (auto simp: gsm48_rx_gmm_att_req_def bind_eq_Some_conv)
  show ?thesis
  proof (cases parsed)
    case (Inl u)
    then show ?thesis using assms parsed by (simp add: gsm48_rx_gmm_att_req_def tx_def)
  next
    case (Inr ar)
    then obtain found where found: "att_req_ctx env msg ar ctx sg = Some found"
      using assms(2) parsed by (auto simp: gsm48_rx_gmm_att_req_def bind_eq_Some_conv)
    show ?thesis
    proof (cases found)
      case None
      then show ?thesis using assms parsed Inr found by (simp add: gsm48_rx_gmm_att_req_def tx_def)
    next
      case (Some t)
      then obtain c sg1 e where "found = Some (c, sg1, e)" by (cases t) auto
      with found show ?thesis
        using assms(2) parsed Inr accepted unfolding gsm48_rx_gmm_att_req_def
        by (auto simp: bind_eq_Some_conv msgid2mmctx_def split: if_splits prod.splits)
    qed
  qed
qed

text \<open>A context that is found gets a P-TMSI that no context has, the timer of the update, and nothing else that matters.\<close>

lemma ra_updated_inv:
  assumes "sg_inv {} sg1" "keeps_lists h" "\<And>m. mm_ok m \<Longrightarrow> mm_ok (h m)"
    and a: "sgsn_alloc_ptmsi rnd (upd_mm i h sg1) = Some (p, sg2)"
    and k: "\<And>m. mm_id (k m) = mm_id m" "\<And>m. mm_pdp_list (k m) = mm_pdp_list m" "\<And>m. mm_p_tmsi (k m) = p" "\<And>m. mm_ok m \<Longrightarrow> mm_ok (k m)"
    and o: "ev_then e (on_mm i (\<lambda>c. (k c, r (k c))) sg2) = Some (sg', ev, rc)"
  shows "sg_inv {} sg'"
proof -
  have h: "mm_id (h m) = mm_id m" "mm_pdp_list (h m) = mm_pdp_list m" "mm_p_tmsi (h m) = mm_p_tmsi m" for m
    using assms(2) by (auto simp: keeps_lists_def)
  obtain n where sg2: "sg2 = (upd_mm i h sg1)\<lparr>sg_rnd := n\<rparr>" and p: "p \<notin> mm_p_tmsi ` set (sg_mm_ctxts (upd_mm i h sg1))"
    using alloc_ptmsi_fresh [OF a] by blast
  let ?f = "\<lambda>m. k (h m)"
  have "sg_inv {} (upd_mm i ?f sg1)"
  proof (rule map_ctxts_inv [OF assms(1)])
    show "sg_mm_ctxts (upd_mm i ?f sg1) = map (\<lambda>m. if mm_id m = i then ?f m else m) (sg_mm_ctxts sg1)" by (simp add: upd_mm_def)
  next
    fix m assume "m \<in> set (sg_mm_ctxts sg1)" "mm_ok m"
    then show "pdp_id ` set (mm_pdp_list (if mm_id m = i then ?f m else m)) \<subseteq> {..<sg_next (upd_mm i ?f sg1)} \<and>
        mm_ok (if mm_id m = i then ?f m else m)"
      using assms(1,3) h k by (auto simp: sg_inv_def)
  next
    fix m m' assume "m \<in> set (sg_mm_ctxts sg1)" "m' \<in> set (sg_mm_ctxts sg1)" "mm_apart {} m m'"
    moreover have "mm_p_tmsi m'' \<noteq> p" if "m'' \<in> set (sg_mm_ctxts sg1)" for m''
    proof -
      have "(if mm_id m'' = i then h m'' else m'') \<in> set (sg_mm_ctxts (upd_mm i h sg1))" using that by (simp add: set_upd_mm)
      then show ?thesis using p h(3) [of m''] by (metis imageI)
    qed
    ultimately show "mm_apart {} (if mm_id m = i then ?f m else m) (if mm_id m' = i then ?f m' else m')"
      using h k by (auto simp: mm_apart_def)
  qed (use h k in auto)
  moreover have "sg' = (upd_mm i ?f sg1)\<lparr>sg_rnd := n\<rparr>"
    using o h by (auto simp: ev_then_def on_mm_def sg2 upd_mm_def)
  ultimately show ?thesis by simp
qed

lemma rau_inv:
  assumes "sg_inv {} sg" "gsm48_rx_gmm_ra_upd_req env msg sg = Some (sg', ev, rc)"
  shows "sg_inv {} sg'"
proof -
  obtain b0 ra cap_len where b0: "rd (gm_data msg) 0 = Some b0" and ra: "rds (gm_data msg) 1 6 = Some ra"
      and cap_len: "rd (gm_data msg) 7 = Some cap_len"
    using assms(2) unfolding gsm48_rx_gmm_ra_upd_req_def Let_def
    by (cases "rd (gm_data msg) 0"; cases "rds (gm_data msg) 1 6"; cases "rd (gm_data msg) 7") simp_all
  obtain found sg1 where by_tlli: "sgsn_mm_ctx_by_tlli (ge_tlli_type env) (gm_tlli msg) (ge_parse_ra env ra) sg = (found, sg1)"
    by fastforce
  have inv1: "sg_inv {} sg1" using by_tlli_inv(1) [OF assms(1) by_tlli] .
  let ?h = "\<lambda>c. (msgid2mmctx msg c)\<lparr>mm_ra := gm_ra msg, mm_tlli := gm_tlli msg\<rparr>"
  have h: "keeps_lists ?h" "mm_ok m \<Longrightarrow> mm_ok (?h m)" for m by (auto simp: keeps_lists_def mm_frame_ok)
  show ?thesis
  proof (cases "cap_len > 52 \<or> b0 AND 0x0f = 1 \<or> b0 AND 0x0f = 2")
    case True
    then show ?thesis using assms b0 ra cap_len by (auto simp: gsm48_rx_gmm_ra_upd_req_def Let_def tx_def split: if_splits)
  next
    case False
    note eq = assms(2) [unfolded gsm48_rx_gmm_ra_upd_req_def Let_def b0 ra cap_len by_tlli]
    show ?thesis
    proof (cases "case found of None \<Rightarrow> None | Some c \<Rightarrow> if mm_state c = GMM_DEREGISTERED then None else Some c")
      case None
      then show ?thesis using eq False inv1 by (simp add: by_tlli tx_def)
    next
      case (Some c)
      with eq False obtain p sg2 where a: "sgsn_alloc_ptmsi (ge_rand env) (upd_mm (mm_id c) ?h sg1) = Some (p, sg2)"
        by (auto simp: by_tlli bind_eq_Some_conv)
      let ?k = "\<lambda>c. (mmctx_timer_start 3350 (c\<lparr>mm_p_tmsi_old := mm_p_tmsi c, mm_p_tmsi := p, mm_t3350_mode := GMM_T3350_MODE_RAU\<rparr>))
        \<lparr>mm_tlli_new := tmsi2tlli_local p\<rparr>"
      obtain e where "ev_then e (on_mm (mm_id c) (\<lambda>c. (?k c, gsm48_tx_gmm_ra_upd_ack env (?k c))) sg2) = Some (sg', ev, rc)"
        using eq False Some a by (auto simp: by_tlli bind_eq_Some_conv)
      with inv1 h a show ?thesis
        by (elim ra_updated_inv) (auto simp: mm_frame_ok)
    qed
  qed
qed

lemma det_req_inv:
  assumes "sg_inv {} sg" "gsm48_rx_gmm_det_req env ctx msg sg = Some (sg', ev, rc)"
  shows "sg_inv {} sg'"
proof -
  have "sg_inv {} (upd_mm (mm_id ctx) (\<lambda>c. c\<lparr>mm_state := GMM_DEREGISTERED\<rparr>) sg)"
    using assms(1) by (rule upd_mm_inv) (auto simp: mm_frame_ok)
  then show ?thesis using assms(2)
    by (cases "gsm48_tx_gmm_det_ack env ctx 0") (auto simp: gsm48_rx_gmm_det_req_def bind_eq_Some_conv Let_def)
qed

lemma complete_inv:
  assumes "sg_inv {} sg" "on_mm i (ptmsi_complete env a) sg = Some (sg', r)"
  shows "sg_inv {} sg'"
  by (rule on_mm_inv [OF assms]) (auto simp: ptmsi_complete_def mm_frame_ok)

lemma rcv_gmm_inv:
  assumes "sg_inv {} sg" "gsm0408_rcv_gmm env mmctx msg llme sg = Some (sg', ev, rc)"
  shows "sg_inv {} sg'"
  using assms unfolding gsm0408_rcv_gmm_def Let_def
  by (auto simp: tx_def gsm48_rx_gmm_auth_ciph_resp_def split: if_splits option.splits
    intro: att_req_inv rau_inv id_resp_inv det_req_inv complete_inv)

lemma timer_expired_frame:
  "mm_id (fst (mmctx_timer_expired env m)) = mm_id m" "mm_pdp_list (fst (mmctx_timer_expired env m)) = mm_pdp_list m"
  "mm_p_tmsi (fst (mmctx_timer_expired env m)) = mm_p_tmsi m"
  by (simp_all add: mmctx_timer_expired_def Let_def)

lemma timer_expired_ok: "mm_ok m \<Longrightarrow> mm_ok (fst (mmctx_timer_expired env m))"
  by (auto simp: mmctx_timer_expired_def mm_frame_ok Let_def)

lemma mm_timer_inv:
  assumes "sg_inv {} sg" "mmctx_timer_cb env i sg = Some (sg', r)"
  shows "sg_inv {} sg'"
  using assms(2) unfolding mmctx_timer_cb_def by (rule on_mm_inv [OF assms(1)]) (auto simp: timer_expired_frame timer_expired_ok)

text \<open>Sessions: a context that is new has a free NSAPI between 5 and 15; the other handlers change no NSAPI.\<close>

lemma pdp_frame_ok:
  "pdp_ok p \<Longrightarrow> pdp_ok (p\<lparr>pdp_lib := l\<rparr>)" "pdp_ok p \<Longrightarrow> pdp_ok (p\<lparr>pdp_state := st\<rparr>)"
  "pdp_ok p \<Longrightarrow> pdp_ok (p\<lparr>pdp_sapi := a, pdp_ti := t\<rparr>)" "pdp_ok p \<Longrightarrow> pdp_ok (p\<lparr>pdp_lib := l, pdp_ggsn := g, pdp_state := st\<rparr>)"
  "5 \<le> pdp_nsapi p \<Longrightarrow> pdp_nsapi p \<le> 15 \<Longrightarrow> pdp_ok (p\<lparr>pdp_num_T_exp := n, pdp_timer := False\<rparr>)"
  "pdp_ok p \<Longrightarrow> pdp_ok (pdpctx_timer_start 3395 p)"
  by (auto simp: pdp_ok_def pdpctx_timer_start_def)

lemma upd_pdp_lib_inv: "sg_inv x sg \<Longrightarrow> sg_inv x (upd_pdp i (\<lambda>p. p\<lparr>pdp_lib := l\<rparr>) sg)"
  by (rule upd_pdp_inv) (auto simp: pdp_frame_ok)

lemma upd_pdp_state_inv: "sg_inv x sg \<Longrightarrow> sg_inv x (upd_pdp i (\<lambda>p. p\<lparr>pdp_state := st\<rparr>) sg)"
  by (rule upd_pdp_inv) (auto simp: pdp_frame_ok)

lemma upd_pdp_sapi_inv: "sg_inv x sg \<Longrightarrow> sg_inv x (upd_pdp i (\<lambda>p. p\<lparr>pdp_sapi := a, pdp_ti := t\<rparr>) sg)"
  by (rule upd_pdp_inv) (auto simp: pdp_frame_ok)

lemma create_pdp_inv:
  assumes "sg_inv {} sg" "m \<in> set (sg_mm_ctxts sg)" "5 \<le> nsapi" "nsapi \<le> 15"
    and "sgsn_create_pdp_ctx env ggsn m nsapi qos addr tp sg = (r, sg', ev)"
  shows "sg_inv {} sg'"
proof (cases "sgsn_pdp_ctx_alloc m nsapi sg")
  case None
  then show ?thesis using assms(1,5) by (simp add: sgsn_create_pdp_ctx_def)
next
  case (Some q)
  then obtain p sg1 where al: "sgsn_pdp_ctx_alloc m nsapi sg = Some (p, sg1)" by (cases q) auto
  have "sg_inv {} sg1" using pdp_alloc_inv [OF assms(1-4) al] .
  moreover from this have "sg_inv {} (upd_pdp i (\<lambda>p. p\<lparr>pdp_lib := l, pdp_ggsn := g, pdp_state := st\<rparr>) sg1)" for i l g st
    by (rule upd_pdp_inv) (auto simp: pdp_frame_ok)
  ultimately show ?thesis using assms(5) by (auto simp: sgsn_create_pdp_ctx_def al Let_def split: if_splits)
qed

lemma ucast_nsapi: "\<not> (n < 5 \<or> n > (15 :: u8)) \<Longrightarrow> 5 \<le> (ucast n :: u16) \<and> (ucast n :: u16) \<le> 15"
  by (simp add: word_le_nat_alt word_less_nat_alt not_less unsigned_ucast_eq take_bit_nat_eq_self)

lemma act_pdp_req_inv:
  assumes "sg_inv {} sg" "m \<in> set (sg_mm_ctxts sg)" "gsm48_rx_gsm_act_pdp_req env m msg sg = Some (sg', ev, rc)"
  shows "sg_inv {} sg'"
proof -
  have new: "sg_inv {} sg'" if n: "\<not> (n < 5 \<or> n > 15)"
      and r: "(case sgsn_create_pdp_ctx env ggsn m (ucast n) qos addr tp sg of
           (None, sg, ev) \<Rightarrow> Some (sg, ev, - 1)
         | (Some i, sg, ev) \<Rightarrow> Some (upd_pdp i (\<lambda>p. p\<lparr>pdp_sapi := a, pdp_ti := t\<rparr>) sg, ev, 0)) = Some (sg', ev, rc)"
    for n :: u8 and ggsn qos addr tp a t
  proof -
    obtain r' sg1 e where c: "sgsn_create_pdp_ctx env ggsn m (ucast n) qos addr tp sg = (r', sg1, e)" by (metis prod_cases3)
    then have "sg_inv {} sg1" using create_pdp_inv [OF assms(1,2) _ _ c] ucast_nsapi [OF n] by blast
    then show ?thesis using r by (auto simp: c intro: upd_pdp_sapi_inv split: option.splits)
  qed
  show ?thesis
    using assms(3) assms(1) new unfolding gsm48_rx_gsm_act_pdp_req_def Let_def bind_eq_Some_conv
    by (auto simp: tx_def bind_eq_Some_conv intro: upd_pdp_lib_inv split: if_splits option.splits)
qed

lemma rcv_gsm_inv:
  assumes "sg_inv {} sg" "case mmctx of None \<Rightarrow> True | Some m \<Rightarrow> m \<in> set (sg_mm_ctxts sg)" "gsm0408_rcv_gsm env mmctx msg sg = Some (sg', ev, rc)"
  shows "sg_inv {} sg'"
proof (cases mmctx)
  case None
  then show ?thesis using assms by (auto simp: gsm0408_rcv_gsm_def ev_then_def tx_def split_beta)
next
  case (Some m)
  then show ?thesis
    using assms act_pdp_req_inv [OF assms(1), of m] unfolding gsm0408_rcv_gsm_def Let_def
    by (auto simp: tx_def gsm48_rx_gsm_deact_pdp_req_def gsm48_rx_gsm_deact_pdp_ack_def bind_eq_Some_conv Let_def split: if_splits option.splits)
qed

lemma by_tlli_upd_inv:
  assumes "sg_inv {} sg" "sgsn_mm_ctx_by_tlli tt tlli ra sg = (Some c, sg1)" "keeps_lists f" "\<And>m. mm_ok m \<Longrightarrow> mm_state m = mm_state c \<Longrightarrow> mm_ok (f m)"
  shows "sg_inv {} (upd_mm (mm_id c) f sg1)"
proof -
  have f: "mm_id (f m) = mm_id m" "mm_pdp_list (f m) = mm_pdp_list m" "mm_p_tmsi (f m) = mm_p_tmsi m" for m
    using assms(3) by (auto simp: keeps_lists_def)
  have inv: "sg_inv {} sg1" and c: "c \<in> set (sg_mm_ctxts sg1)" using by_tlli_inv [OF assms(1,2)] by auto
  show ?thesis
    using inv by (rule upd_mm_inv) (use f assms(4) in \<open>auto dest: sg_inv_unique [OF inv _ c]\<close>)
qed

lemma rcvmsg_inv:
  assumes "sg_inv {} sg" "gsm0408_gprs_rcvmsg env msg llme sg = Some (sg', ev, rc)"
  shows "sg_inv {} sg'"
proof -
  obtain found sg1 where b: "sgsn_mm_ctx_by_tlli (ge_tlli_type env) (gm_tlli msg) (gm_ra msg) sg = (found, sg1)" by fastforce
  let ?u = "\<lambda>c. (msgid2mmctx msg c)\<lparr>mm_llme := llme\<rparr>"
  let ?sg2 = "case found of None \<Rightarrow> sg1 | Some c \<Rightarrow> upd_mm (mm_id c) ?u sg1"
  have inv2: "sg_inv {} ?sg2"
  proof (cases found)
    case None
    then show ?thesis using by_tlli_inv(1) [OF assms(1) b] by simp
  next
    case (Some c)
    then show ?thesis using by_tlli_upd_inv [OF assms(1), of _ _ _ c sg1 ?u] b by (auto simp: keeps_lists_def mm_frame_ok)
  qed
  have in2: "case map_option ?u found of None \<Rightarrow> True | Some m \<Rightarrow> m \<in> set (sg_mm_ctxts ?sg2)"
    using by_tlli_inv(2) [OF assms(1) b] upd_mm_in [of _ sg1 ?u] by (auto split: option.splits)
  show ?thesis
    using assms(2) inv2 rcv_gmm_inv [OF inv2] rcv_gsm_inv [OF inv2 in2] by (auto simp: gsm0408_gprs_rcvmsg_def b Let_def tx_def split: if_splits)
qed

lemma suspend_inv:
  assumes "sg_inv {} sg" "gprs_gmm_rx_suspend env raid tlli sg = Some (sg', ev, rc)"
  shows "sg_inv {} sg'"
proof -
  obtain found sg1 where b: "sgsn_mm_ctx_by_tlli (ge_tlli_type env) tlli raid sg = (found, sg1)" by fastforce
  have "sg_inv {} (upd_mm (mm_id c) (\<lambda>c. c\<lparr>mm_state := GMM_REGISTERED_SUSPENDED\<rparr>) sg1)" if "found = Some c" "mm_state c = GMM_REGISTERED_NORMAL" for c
    using by_tlli_upd_inv [OF assms(1), of _ _ _ c sg1] b that by (auto simp: keeps_lists_def mm_frame_ok)
  then show ?thesis
    using assms(2) by_tlli_inv(1) [OF assms(1) b] by (auto simp: gprs_gmm_rx_suspend_def b tx_def split: option.splits if_splits)
qed

lemma resume_inv:
  assumes "sg_inv {} sg" "gprs_gmm_rx_resume env raid tlli sg = Some (sg', ev, rc)"
  shows "sg_inv {} sg'"
proof -
  obtain found sg1 where b: "sgsn_mm_ctx_by_tlli (ge_tlli_type env) tlli raid sg = (found, sg1)" by fastforce
  have "sg_inv {} (upd_mm (mm_id c) (\<lambda>c. c\<lparr>mm_state := GMM_REGISTERED_NORMAL\<rparr>) sg1)" if "found = Some c" "mm_state c = GMM_REGISTERED_SUSPENDED" for c
    using by_tlli_upd_inv [OF assms(1), of _ _ _ c sg1] b that by (auto simp: keeps_lists_def mm_frame_ok)
  then show ?thesis
    using assms(2) by_tlli_inv(1) [OF assms(1) b] by (auto simp: gprs_gmm_rx_resume_def b tx_def split: option.splits if_splits)
qed

lemma pdp_timer_inv:
  assumes "sg_inv {} sg" "pdpctx_timer_cb env i sg = Some (sg', ev, rc)"
  shows "sg_inv {} sg'"
proof -
  have off: "sg_inv {} (upd_pdp i (\<lambda>p. p\<lparr>pdp_num_T_exp := Suc (pdp_num_T_exp p), pdp_timer := False\<rparr>) sg)"
    using assms(1) by (rule upd_pdp_inv) (auto simp: pdp_ok_def)
  then have "sg_inv {} (upd_pdp i (\<lambda>p. (fst (gsm48_tx_gsm_deact_pdp_req env mm cause p))\<lparr>pdp_timer := True\<rparr>)
      (upd_pdp i (\<lambda>p. p\<lparr>pdp_num_T_exp := Suc (pdp_num_T_exp p), pdp_timer := False\<rparr>) sg))" for mm cause
    by (rule upd_pdp_inv) (auto simp: gsm48_tx_gsm_deact_pdp_req_def pdpctx_timer_start_def pdp_ok_def)
  then show ?thesis
    using assms(2) off unfolding pdpctx_timer_cb_def Let_def by (auto simp: bind_eq_Some_conv intro: upd_pdp_state_inv split: if_splits)
qed

lemma conf_inv:
  assumes "sg_inv {} sg" "cb_conf env type cause has_pdp i sg = Some (sg', ev, rc)"
  shows "sg_inv {} sg'"
proof -
  have "sg_inv {} (sgsn_pdp_ctx_free i (upd_pdp i (\<lambda>p. p\<lparr>pdp_state := PDP_STATE_NONE\<rparr>) sg))"
    using assms(1) by (intro pdp_free_inv upd_pdp_state_inv)
  then show ?thesis
    using assms pdp_free_inv [OF assms(1), of i] upd_pdp_lib_inv [OF assms(1), of i]
    by (cases type)
      (auto simp: cb_conf_def create_pdp_conf_def delete_pdp_conf_def tx_def bind_eq_Some_conv Let_def split_beta split: if_splits option.splits)
qed

lemma drop_pdps_ok:
  "drop_pdps env g mm ps = Some (ps', ev) \<Longrightarrow>
     map pdp_id ps' = map pdp_id ps \<and> map pdp_nsapi ps' = map pdp_nsapi ps \<and> (list_all pdp_ok ps \<longrightarrow> list_all pdp_ok ps')"
  by (induction ps arbitrary: ps' ev)
    (auto simp: bind_eq_Some_conv drop_one_pdp_def gsm48_tx_gsm_deact_pdp_req_def pdp_ok_def pdpctx_timer_start_def split: if_splits)

lemma drop_mms_map:
  "drop_mms env g ms = Some (ms', ev) \<Longrightarrow>
     ms' = map (\<lambda>m. m\<lparr>mm_pdp_list := fst (the (drop_pdps env g m (mm_pdp_list m)))\<rparr>) ms \<and> (\<forall>m \<in> set ms. drop_pdps env g m (mm_pdp_list m) \<noteq> None)"
  by (induction ms arbitrary: ms' ev) (auto simp: bind_eq_Some_conv)

lemma drop_all_inv:
  assumes "sg_inv {} sg" "drop_all_pdp_for_ggsn env g sg = Some (sg', ev)"
  shows "sg_inv {} sg'"
proof -
  let ?g = "\<lambda>m. m\<lparr>mm_pdp_list := fst (the (drop_pdps env g m (mm_pdp_list m)))\<rparr>"
  obtain ms ev' where ms: "drop_mms env g (sg_mm_ctxts sg) = Some (ms, ev')" and sg': "sg' = sg\<lparr>sg_mm_ctxts := ms\<rparr>"
    using assms(2) by (auto simp: drop_all_pdp_for_ggsn_def)
  have same: "map pdp_id (mm_pdp_list (?g m)) = map pdp_id (mm_pdp_list m)" "pdps_ok (mm_pdp_list m) \<Longrightarrow> pdps_ok (mm_pdp_list (?g m))"
    if "m \<in> set (sg_mm_ctxts sg)" for m
    using drop_mms_map [OF ms] drop_pdps_ok [of env g m "mm_pdp_list m"] that by (auto simp: pdps_ok_def)
  then have ids: "pdp_id ` set (mm_pdp_list (?g m)) = pdp_id ` set (mm_pdp_list m)" if "m \<in> set (sg_mm_ctxts sg)" for m
    using that by (metis set_map)
  show ?thesis
  proof (rule map_ctxts_inv [OF assms(1)])
    show "sg_mm_ctxts sg' = map ?g (sg_mm_ctxts sg)" using drop_mms_map [OF ms] sg' by simp
    show "pdp_id ` set (mm_pdp_list (?g m)) \<subseteq> {..<sg_next sg'} \<and> mm_ok (?g m)" if "m \<in> set (sg_mm_ctxts sg)" "mm_ok m" for m
      using assms(1) that ids [OF that(1)] same(2) [OF that(1)] by (auto simp: sg_inv_def sg' mm_ok_def mm_registered_def)
    show "mm_apart {} (?g m) (?g m')" if "m \<in> set (sg_mm_ctxts sg)" "m' \<in> set (sg_mm_ctxts sg)" "mm_apart {} m m'" for m m'
      using that(3) ids [OF that(1)] ids [OF that(2)] by (simp add: mm_apart_def)
  qed (simp_all add: sg')
qed

lemma recovery_inv:
  assumes "sg_inv {} sg" "cb_recovery env peer recovery sg = Some (sg', ev, rc)"
  shows "sg_inv {} sg'"
proof -
  have noted: "sg_inv {} (sg\<lparr>sg_ggsn_ctxts := gs\<rparr>)" for gs using assms(1) by simp
  show ?thesis
    using assms drop_all_inv [OF noted] by (auto simp: cb_recovery_def tx_def Let_def split: option.splits if_splits)
qed

lemma data_inv: "sg_inv {} sg \<Longrightarrow> cb_data_ind env priv packet sg = Some (sg', ev, rc) \<Longrightarrow> sg_inv {} sg'"
  by (auto simp: cb_data_ind_def tx_def bind_eq_Some_conv Let_def split: option.splits if_splits)

lemma ud_inv:
  assumes "sg_inv {} sg" "sgsn_rx_sndcp_ud_ind env raid tlli nsapi npdu sg = Some (sg', ev, rc)"
  shows "sg_inv {} sg'"
proof -
  obtain found sg1 where b: "sgsn_mm_ctx_by_tlli (ge_tlli_type env) tlli raid sg = (found, sg1)" by fastforce
  show ?thesis
    using assms(2) by_tlli_inv(1) [OF assms(1) b]
    by (auto simp: sgsn_rx_sndcp_ud_ind_def b tx_def Let_def split: option.splits if_splits)
qed

section \<open>Reachable states\<close>

lemma cfg_inv:
  "sg_inv x sg \<Longrightarrow> sg_inv x (cfg_ggsn_remote_ip i addr sg)" "sg_inv x sg \<Longrightarrow> sg_inv x (cfg_ggsn_gtp_version i v sg)"
  by (auto simp: cfg_ggsn_remote_ip_def cfg_ggsn_gtp_version_def sgsn_ggsn_ctx_find_alloc_def sgsn_ggsn_ctx_alloc_def Let_def split: option.splits)

lemma handle_inv:
  assumes "sg_inv {} sg" "sgsn_handle env i sg = Some (sg', ev, rc)"
  shows "sg_inv {} sg'"
  using assms
  by (cases i) (auto simp: tx_def cfg_inv dest: rcvmsg_inv mm_timer_inv pdp_timer_inv suspend_inv resume_inv conf_inv recovery_inv data_inv ud_inv)

lemma sgsn_reach_inv: "sgsn_reach env sg \<Longrightarrow> sg_inv {} sg"
proof (induction rule: sgsn_reach.induct)
  case reach_init
  then show ?case by (simp add: sg_inv_def sgsn_init_def)
next
  case (reach_step sg i sg' ev rc)
  then show ?case using handle_inv by blast
qed

lemma sg_inv_apart: "sg_inv x sg \<Longrightarrow> m \<in> set (sg_mm_ctxts sg) \<Longrightarrow> m' \<in> set (sg_mm_ctxts sg) \<Longrightarrow> mm_apart x m m'"
  by (simp add: sg_inv_def)

lemma sg_inv_ok: "sg_inv x sg \<Longrightarrow> m \<in> set (sg_mm_ctxts sg) \<Longrightarrow> mm_ok m"
  by (simp add: sg_inv_def)

lemma by_id_inv:
  assumes "sg_inv x sg" "m \<in> set (sg_mm_ctxts sg)"
  shows "mm_by_id (mm_id m) sg = Some m"
proof -
  obtain m' where m': "mm_by_id (mm_id m) sg = Some m'" using assms(2) by (cases "mm_by_id (mm_id m) sg") (auto simp: find_None_iff)
  then have "m' = m" using find_in [OF m'] sg_inv_unique [OF assms(1) _ assms(2)] by simp
  then show ?thesis using m' by simp
qed

lemma pdp_by_id_inv:
  assumes "sg_inv x sg" "m \<in> set (sg_mm_ctxts sg)" "p \<in> set (mm_pdp_list m)"
  shows "pdp_by_id (pdp_id p) sg = Some (m, p)"
proof -
  obtain m' where m': "find (\<lambda>m. list_ex (\<lambda>q. pdp_id q = pdp_id p) (mm_pdp_list m)) (sg_mm_ctxts sg) = Some m'"
    using assms(2,3) by (cases "find (\<lambda>m. list_ex (\<lambda>q. pdp_id q = pdp_id p) (mm_pdp_list m)) (sg_mm_ctxts sg)") (auto simp: find_None_iff list_ex_iff)
  then have in': "m' \<in> set (sg_mm_ctxts sg)" and "\<exists>q \<in> set (mm_pdp_list m'). pdp_id q = pdp_id p"
    using find_in [OF m'] by (auto simp: list_ex_iff)
  then have "pdp_id p \<in> pdp_id ` set (mm_pdp_list m') \<inter> pdp_id ` set (mm_pdp_list m)" using assms(3) by (metis IntI imageI)
  then have "mm_id m' = mm_id m" using sg_inv_apart [OF assms(1) in' assms(2)] unfolding mm_apart_def by blast
  then have eq: "m' = m" using sg_inv_unique [OF assms(1) in' assms(2)] by simp
  obtain q where q: "find (\<lambda>q. pdp_id q = pdp_id p) (mm_pdp_list m) = Some q"
    using assms(3) by (cases "find (\<lambda>q. pdp_id q = pdp_id p) (mm_pdp_list m)") (auto simp: find_None_iff)
  have "distinct (map pdp_id (mm_pdp_list m))" using sg_inv_ok [OF assms(1,2)] by (simp add: mm_ok_def pdps_ok_def)
  then have "q = p" using find_in [OF q] assms(3) by (auto simp: distinct_map dest: inj_onD)
  then show ?thesis using m' q eq by (simp add: pdp_by_id_def)
qed

lemma by_nsapi_inv:
  assumes "sg_inv x sg" "m \<in> set (sg_mm_ctxts sg)" "p \<in> set (mm_pdp_list m)"
  shows "sgsn_pdp_ctx_by_nsapi m (pdp_nsapi p) = Some p"
proof -
  obtain q where q: "find (\<lambda>q. pdp_nsapi q = pdp_nsapi p) (mm_pdp_list m) = Some q"
    using assms(3) by (cases "find (\<lambda>q. pdp_nsapi q = pdp_nsapi p) (mm_pdp_list m)") (auto simp: find_None_iff)
  have "distinct (map pdp_nsapi (mm_pdp_list m))" using sg_inv_ok [OF assms(1,2)] by (simp add: mm_ok_def pdps_ok_def)
  then have "q = p" using find_in [OF q] assms(3) by (auto simp: distinct_map dest: inj_onD)
  then show ?thesis using q by (simp add: sgsn_pdp_ctx_by_nsapi_def)
qed

lemma distinct_ptmsi:
  assumes "sg_inv {} sg"
  shows "distinct (map mm_p_tmsi (sg_mm_ctxts sg))"
proof -
  have "inj_on mm_p_tmsi (set (sg_mm_ctxts sg))"
  proof (rule inj_onI)
    fix m m' assume m: "m \<in> set (sg_mm_ctxts sg)" "m' \<in> set (sg_mm_ctxts sg)" "mm_p_tmsi m = mm_p_tmsi m'"
    then have "mm_id m = mm_id m'" using sg_inv_apart [OF assms m(1,2)] by (simp add: mm_apart_def)
    then show "m = m'" using sg_inv_unique [OF assms m(1,2)] by simp
  qed
  moreover have "distinct (sg_mm_ctxts sg)" using assms by (simp add: sg_inv_def distinct_map)
  ultimately show ?thesis by (simp add: distinct_map)
qed

end
