(* ===== verification/Gprs_Gmm_Props.thy ===== *)
theory Gprs_Gmm_Props
  imports Gprs_Gmm_Inv
begin

unbundle bit_operations_syntax

text \<open>
  The properties of the SGSN: consistent contexts in every reachable state, timers that end the registration of a silent
  station, packets that take the tunnel of their context both ways; and what happens to identities, timers and sessions
  where the code does not look.
\<close>

section \<open>Lemmas\<close>

lemma ucast_ucast_small:
  assumes "unat (n :: u16) \<le> 15"
  shows "ucast (ucast n :: u8) = n"
proof -
  have "take_bit 8 (unat n) = unat n" using assms by (simp add: take_bit_nat_eq_self)
  then have "take_bit 8 n = n" by (metis unsigned_take_bit_eq word_unat_eq_iff)
  then show ?thesis by (simp add: unsigned_ucast_eq)
qed

lemma by_id_upd:
  assumes "\<And>c. mm_id (f c) = mm_id c"
  shows "mm_by_id i (upd_mm i f sg) = map_option f (mm_by_id i sg)"
proof -
  have "find (\<lambda>m. mm_id m = i) (map (\<lambda>m. if mm_id m = i then f m else m) ms) = map_option f (find (\<lambda>m. mm_id m = i) ms)" for ms
    using assms by (induction ms) auto
  then show ?thesis by (simp add: upd_mm_def)
qed

lemma on_mm_by_id:
  assumes "mm_by_id i sg = Some m" "\<And>c. mm_id (fst (f c)) = mm_id c"
  shows "\<exists>sg'. on_mm i f sg = Some (sg', snd (f m)) \<and> sg' = upd_mm i (\<lambda>c. fst (f c)) sg \<and> mm_by_id i sg' = Some (fst (f m))"
  using assms by_id_upd [of "\<lambda>c. fst (f c)" i sg] by (simp add: on_mm_def)

lemma upd_other: "m \<in> set (sg_mm_ctxts sg) \<Longrightarrow> mm_id m \<noteq> i \<Longrightarrow> m \<in> set (sg_mm_ctxts (upd_mm i f sg))"
  by (force simp: set_upd_mm image_iff)

lemma by_imsi_upd:
  assumes "\<And>c. mm_imsi (f c) = mm_imsi c" "sgsn_mm_ctx_by_imsi s sg = Some m" "mm_id m \<noteq> i"
  shows "sgsn_mm_ctx_by_imsi s (upd_mm i f sg) = Some m"
proof -
  have "find (\<lambda>c. s = mm_imsi c) (map (\<lambda>m. if mm_id m = i then f m else m) ms) =
      map_option (\<lambda>m. if mm_id m = i then f m else m) (find (\<lambda>c. s = mm_imsi c) ms)" for ms
    using assms(1) by (induction ms) auto
  then show ?thesis using assms(2,3) by (simp add: sgsn_mm_ctx_by_imsi_def upd_mm_def)
qed

lemma by_id_free: "i \<noteq> j \<Longrightarrow> mm_by_id i (sgsn_mm_ctx_free j sg) = mm_by_id i sg"
proof -
  assume "i \<noteq> j"
  then have "find (\<lambda>m. mm_id m = i) (filter (\<lambda>m. mm_id m \<noteq> j) ms) = find (\<lambda>m. mm_id m = i) ms" for ms by (induction ms) auto
  then show ?thesis by (simp add: sgsn_mm_ctx_free_def Let_def)
qed

lemma id_resp_steps:
  assumes "gm_data msg = len # mi0 # mi"
    and "id_resp_identity (mi0 AND MI_TYPE_MASK) (ge_mi_to_string env (mi0 # mi) len) m
      (upd_mm (mm_id m) (if mi0 AND MI_TYPE_MASK = mm_t3370_id_type m then mmctx_timer_stop 3370 else id) sg) = Some (sg2, e)"
    and "mm_by_id (mm_id m) sg2 = Some c"
  shows "\<exists>ev rc. gsm48_rx_gmm_id_resp env m msg sg = Some (upd_mm (mm_id m) (\<lambda>c. fst (gsm48_gmm_authorize env (mm_t3350_mode m) c)) sg2, ev, rc)"
proof -
  obtain ev rc where "snd (gsm48_gmm_authorize env (mm_t3350_mode m) c) = (ev, rc)" by fastforce
  then show ?thesis
    using assms(2,3) unfolding gsm48_rx_gmm_id_resp_def assms(1) Let_def by (simp add: rd_def on_mm_def ev_then_def)
qed

lemma authorize_imsi: "mm_imsi (fst (gsm48_gmm_authorize env md c)) = mm_imsi c"
  by (simp add: gsm48_gmm_authorize_def mmctx_timer_start_def Let_def)

lemma enabled_by_id: "mm_by_id i sg = Some m \<Longrightarrow> mm_timer m \<Longrightarrow> sgsn_enabled (In_mm_timer i) sg"
  using find_in [of "\<lambda>m. mm_id m = i"] by (fastforce simp: list_ex_iff)

lemma others_kept:
  "(\<And>c. mm_id (f c) = mm_id c) \<Longrightarrow> filter (\<lambda>m. mm_id m \<noteq> i) (sg_mm_ctxts (upd_mm i f sg)) = filter (\<lambda>m. mm_id m \<noteq> i) (sg_mm_ctxts sg)"
proof -
  assume f: "\<And>c. mm_id (f c) = mm_id c"
  have "filter (\<lambda>m. mm_id m \<noteq> i) (map (\<lambda>m. if mm_id m = i then f m else m) ms) = filter (\<lambda>m. mm_id m \<noteq> i) ms" for ms
    using f by (induction ms) auto
  then show ?thesis by (simp add: upd_mm_def)
qed

text \<open>One expiration of a timer that runs.\<close>

lemma timer_expired_again:
  assumes "mm_ok m" "mm_timer m" "mm_num_T_exp m < 4"
  shows "mm_timer (fst (mmctx_timer_expired env m)) \<and> mm_num_T_exp (fst (mmctx_timer_expired env m)) = Suc (mm_num_T_exp m) \<and>
    mm_ok (fst (mmctx_timer_expired env m)) \<and> mm_id (fst (mmctx_timer_expired env m)) = mm_id m"
  using assms by (auto simp: mmctx_timer_expired_def mm_ok_def mm_registered_def Let_def)

lemma timer_expired_last:
  assumes "mm_ok m" "mm_timer m" "mm_num_T_exp m = 4"
  shows "\<not> mm_timer (fst (mmctx_timer_expired env m)) \<and> mm_state (fst (mmctx_timer_expired env m)) = GMM_DEREGISTERED"
  using assms by (auto simp: mmctx_timer_expired_def mm_ok_def Let_def)

lemma expirations_end:
  assumes "mm_by_id i sg = Some m" "mm_ok m" "mm_timer m" "mm_num_T_exp m + n = 4"
  shows "\<exists>sg' ev m'. mm_timer_expirations env i (Suc n) sg = Some (sg', ev) \<and> mm_by_id i sg' = Some m' \<and>
    mm_state m' = GMM_DEREGISTERED \<and> \<not> mm_timer m' \<and> filter (\<lambda>m. mm_id m \<noteq> i) (sg_mm_ctxts sg') = filter (\<lambda>m. mm_id m \<noteq> i) (sg_mm_ctxts sg)"
  using assms
proof (induction n arbitrary: sg m)
  case 0
  obtain sg' where sg': "mmctx_timer_cb env i sg = Some (sg', snd (mmctx_timer_expired env m))" "sg' = upd_mm i (\<lambda>c. fst (mmctx_timer_expired env c)) sg"
      "mm_by_id i sg' = Some (fst (mmctx_timer_expired env m))"
    using on_mm_by_id [OF 0(1), of "mmctx_timer_expired env"] by (auto simp: mmctx_timer_cb_def timer_expired_frame)
  then show ?case
    using 0 enabled_by_id [OF 0(1,3)] timer_expired_last [OF 0(2,3), of env] others_kept [OF timer_expired_frame(1)]
    by (cases "snd (mmctx_timer_expired env m)") auto
next
  case (Suc n)
  obtain sg' where sg': "mmctx_timer_cb env i sg = Some (sg', snd (mmctx_timer_expired env m))" "sg' = upd_mm i (\<lambda>c. fst (mmctx_timer_expired env c)) sg"
      "mm_by_id i sg' = Some (fst (mmctx_timer_expired env m))"
    using on_mm_by_id [OF Suc(2), of "mmctx_timer_expired env"] by (auto simp: mmctx_timer_cb_def timer_expired_frame)
  have again: "mm_timer (fst (mmctx_timer_expired env m))" "mm_num_T_exp (fst (mmctx_timer_expired env m)) + n = 4" "mm_ok (fst (mmctx_timer_expired env m))"
    using timer_expired_again [OF Suc(3,4), of env] Suc(5) by auto
  obtain e rc where e: "snd (mmctx_timer_expired env m) = (e, rc)" by fastforce
  obtain sg'' ev m' where rest: "mm_timer_expirations env i (Suc n) sg' = Some (sg'', ev)" "mm_by_id i sg'' = Some m'" "mm_state m' = GMM_DEREGISTERED"
      "\<not> mm_timer m'" "filter (\<lambda>m. mm_id m \<noteq> i) (sg_mm_ctxts sg'') = filter (\<lambda>m. mm_id m \<noteq> i) (sg_mm_ctxts sg')"
    using Suc.IH [OF sg'(3) again(3,1,2)] by blast
  have "mm_timer_expirations env i (Suc (Suc n)) sg = Some (sg'', e @ ev)"
    using sg'(1) e rest(1) enabled_by_id [OF Suc(2,4)] by (subst mm_timer_expirations.simps(2)) (simp del: mm_timer_expirations.simps sgsn_enabled.simps)
  moreover have "filter (\<lambda>m. mm_id m \<noteq> i) (sg_mm_ctxts sg') = filter (\<lambda>m. mm_id m \<noteq> i) (sg_mm_ctxts sg)"
    using others_kept [OF timer_expired_frame(1)] sg'(2) by simp
  ultimately show ?case using rest by metis
qed

text \<open>A packet data context whose timer runs: the request goes out again, and the timer with it.\<close>

lemma upd_pdp_upd_pdp: "(\<And>p. pdp_id (g p) = pdp_id p) \<Longrightarrow> upd_pdp i f (upd_pdp i g sg) = upd_pdp i (\<lambda>p. f (g p)) sg"
  by (auto simp: upd_pdp_def)

lemma upd_pdp_mem:
  assumes "m \<in> set (sg_mm_ctxts sg)" "p \<in> set (mm_pdp_list m)"
  shows "\<exists>m' \<in> set (sg_mm_ctxts (upd_pdp (pdp_id p) f sg)). f p \<in> set (mm_pdp_list m')"
  using assms unfolding upd_pdp_def
  by (intro bexI [of _ "m\<lparr>mm_pdp_list := map (\<lambda>q. if pdp_id q = pdp_id p then f q else q) (mm_pdp_list m)\<rparr>"]) (auto simp: image_iff intro!: bexI [of _ p])

lemma t3395_expired:
  assumes "sg_inv {} sg" "m \<in> set (sg_mm_ctxts sg)" "p \<in> set (mm_pdp_list m)" "pdp_timer p"
  shows "\<exists>sg' ev rc. pdpctx_timer_cb env (pdp_id p) sg = Some (sg', ev, rc) \<and> sg_inv {} sg' \<and> Gtp_delete_req (pdp_id p) \<notin> set ev \<and>
    (\<exists>m' \<in> set (sg_mm_ctxts sg'). \<exists>p' \<in> set (mm_pdp_list m'). pdp_id p' = pdp_id p \<and> pdp_timer p' \<and> pdp_state p' = pdp_state p)"
proof -
  have ok: "pdp_T p = 3395" "pdp_num_T_exp p = 0"
    using sg_inv_ok [OF assms(1,2)] assms(3,4) by (auto simp: mm_ok_def pdps_ok_def list_all_iff pdp_ok_def)
  let ?g = "\<lambda>p. p\<lparr>pdp_num_T_exp := Suc (pdp_num_T_exp p), pdp_timer := False\<rparr>"
  let ?f = "\<lambda>p. (fst (gsm48_tx_gsm_deact_pdp_req env m GSM_CAUSE_NET_FAIL p))\<lparr>pdp_timer := True\<rparr>"
  let ?sg = "upd_pdp (pdp_id p) ?f (upd_pdp (pdp_id p) ?g sg)"
  have cb: "pdpctx_timer_cb env (pdp_id p) sg = Some (?sg, fst (snd (gsm48_tx_gsm_deact_pdp_req env m GSM_CAUSE_NET_FAIL p)), 0)"
    using pdp_by_id_inv [OF assms(1-3)] ok by (simp add: pdpctx_timer_cb_def)
  have f: "pdp_id (?f (?g p)) = pdp_id p" "pdp_timer (?f (?g p))" "pdp_state (?f (?g p)) = pdp_state p"
    by (simp_all add: gsm48_tx_gsm_deact_pdp_req_def pdpctx_timer_start_def)
  have "?sg = upd_pdp (pdp_id p) (\<lambda>p. ?f (?g p)) sg" by (rule upd_pdp_upd_pdp) simp
  then have "\<exists>m' \<in> set (sg_mm_ctxts ?sg). ?f (?g p) \<in> set (mm_pdp_list m')" using upd_pdp_mem [OF assms(2,3), of "\<lambda>p. ?f (?g p)"] by simp
  moreover have "Gtp_delete_req (pdp_id p) \<notin> set (fst (snd (gsm48_tx_gsm_deact_pdp_req env m GSM_CAUSE_NET_FAIL p)))"
    by (simp add: gsm48_tx_gsm_deact_pdp_req_def tx_gsm_deact_pdp_req_def gsm48_gmm_sendmsg_def Let_def split_beta)
  moreover have "sg_inv {} ?sg" using pdp_timer_inv [OF assms(1) cb] .
  ultimately show ?thesis using cb f by blast
qed

lemma t3395_expirations:
  assumes "sg_inv {} sg" "m \<in> set (sg_mm_ctxts sg)" "p \<in> set (mm_pdp_list m)" "pdp_timer p"
  shows "\<exists>sg' ev. pdp_timer_expirations env (pdp_id p) n sg = Some (sg', ev) \<and> Gtp_delete_req (pdp_id p) \<notin> set ev \<and>
    (\<exists>m' \<in> set (sg_mm_ctxts sg'). \<exists>p' \<in> set (mm_pdp_list m'). pdp_id p' = pdp_id p \<and> pdp_timer p' \<and> pdp_state p' = pdp_state p)"
  using assms
proof (induction n arbitrary: sg m p)
  case 0
  then show ?case by auto
next
  case (Suc n)
  obtain sg1 ev rc m' p' where one: "pdpctx_timer_cb env (pdp_id p) sg = Some (sg1, ev, rc)" "sg_inv {} sg1" "Gtp_delete_req (pdp_id p) \<notin> set ev"
      "m' \<in> set (sg_mm_ctxts sg1)" "p' \<in> set (mm_pdp_list m')" "pdp_id p' = pdp_id p" "pdp_timer p'" "pdp_state p' = pdp_state p"
    using t3395_expired [OF Suc.prems] by blast
  have "sgsn_enabled (In_pdp_timer (pdp_id p)) sg" using Suc.prems by (auto simp: list_ex_iff)
  moreover obtain sg' ev' m'' p'' where rest: "pdp_timer_expirations env (pdp_id p) n sg1 = Some (sg', ev')" "Gtp_delete_req (pdp_id p) \<notin> set ev'"
      "m'' \<in> set (sg_mm_ctxts sg')" "p'' \<in> set (mm_pdp_list m'')" "pdp_id p'' = pdp_id p" "pdp_timer p''" "pdp_state p'' = pdp_state p"
    using Suc.IH [OF one(2,4,5,7)] one(6,8) by auto
  ultimately have "pdp_timer_expirations env (pdp_id p) (Suc n) sg = Some (sg', ev @ ev')"
    using one(1) by (simp del: sgsn_enabled.simps)
  moreover have "Gtp_delete_req (pdp_id p) \<notin> set (ev @ ev')" using one(3) rest(2) by simp
  ultimately show ?case using rest(3-7) by blast
qed

section \<open>Properties\<close>

text \<open>C10: In every state of the SGSN that messages, timers, the tunnel library and the configuration bring about, no two mobility
  contexts have the same P-TMSI, a registered context has an IMSI and an IMEI, and the sessions of a context have distinct
  NSAPIs between 5 and 15.\<close>

theorem sgsn_contexts_consistent:
  assumes "sgsn_reach env sg"
  shows "distinct (map mm_p_tmsi (sg_mm_ctxts sg)) \<and>
    (\<forall>m \<in> set (sg_mm_ctxts sg).
       (mm_state m = GMM_REGISTERED_NORMAL \<or> mm_state m = GMM_REGISTERED_SUSPENDED \<longrightarrow> mm_imsi m \<noteq> [] \<and> mm_imei m \<noteq> []) \<and>
       distinct (map pdp_nsapi (mm_pdp_list m)) \<and> (\<forall>p \<in> set (mm_pdp_list m). 5 \<le> pdp_nsapi p \<and> pdp_nsapi p \<le> 15))"
proof -
  have inv: "sg_inv {} sg" using sgsn_reach_inv [OF assms] .
  show ?thesis
    using distinct_ptmsi [OF inv] sg_inv_ok [OF inv] by (auto simp: mm_ok_def pdps_ok_def pdp_ok_def mm_registered_def list_all_iff)
qed

text \<open>C15: A mobility timer that runs and is not stopped expires at most five times: after \<open>5 - n\<close> expirations, where \<open>n\<close> have
  been before, the context is deregistered, no timer of it runs, and the other contexts are as they were.\<close>

theorem gmm_timer_gives_up:
  assumes "sgsn_reach env sg" "m \<in> set (sg_mm_ctxts sg)" "mm_timer m"
  shows "\<exists>sg' ev m'. mm_timer_expirations env (mm_id m) (5 - mm_num_T_exp m) sg = Some (sg', ev) \<and> mm_by_id (mm_id m) sg' = Some m' \<and>
    mm_state m' = GMM_DEREGISTERED \<and> \<not> mm_timer m' \<and>
    filter (\<lambda>c. mm_id c \<noteq> mm_id m) (sg_mm_ctxts sg') = filter (\<lambda>c. mm_id c \<noteq> mm_id m) (sg_mm_ctxts sg)"
proof -
  have inv: "sg_inv {} sg" using sgsn_reach_inv [OF assms(1)] .
  have ok: "mm_ok m" using sg_inv_ok [OF inv assms(2)] .
  then have "mm_num_T_exp m < 5" using assms(3) by (simp add: mm_ok_def)
  then have "Suc (4 - mm_num_T_exp m) = 5 - mm_num_T_exp m" "mm_num_T_exp m + (4 - mm_num_T_exp m) = 4" by auto
  then show ?thesis using expirations_end [OF by_id_inv [OF inv assms(2)] ok assms(3), of "4 - mm_num_T_exp m" env] by simp
qed



text \<open>C20: A context with an IMSI takes any other from an IDENTITY RESPONSE, whether one was asked for or not, and keeps its sessions;
  the context that has that IMSI already stays as it is, so that two contexts have the same IMSI.\<close>

theorem identity_response_takes_imsi:
  assumes "sgsn_reach env sg" "m \<in> set (sg_mm_ctxts sg)" "m2 \<in> set (sg_mm_ctxts sg)" "mm_id m2 \<noteq> mm_id m" "mm_imsi m \<noteq> []"
    and "gm_data msg = len # mi0 # mi" "mi0 AND MI_TYPE_MASK = MI_TYPE_IMSI" "ge_mi_to_string env (mi0 # mi) len = mm_imsi m2"
    and "length (mm_imsi m2) < 17"
  shows "\<exists>sg' ev rc m'. gsm48_rx_gmm_id_resp env m msg sg = Some (sg', ev, rc) \<and> m2 \<in> set (sg_mm_ctxts sg') \<and>
    m' \<in> set (sg_mm_ctxts sg') \<and> mm_id m' = mm_id m \<and> mm_imsi m' = mm_imsi m2 \<and> mm_pdp_list m' = mm_pdp_list m"
proof -
  have inv: "sg_inv {} sg" using sgsn_reach_inv [OF assms(1)] .
  let ?i = "mm_id m" and ?f = "\<lambda>c. c\<lparr>mm_imsi := mm_imsi m2\<rparr>"
  define stop where "stop = (if mi0 AND MI_TYPE_MASK = mm_t3370_id_type m then mmctx_timer_stop 3370 else id)"
  have st: "mm_id (stop c) = mm_id c" "mm_pdp_list (stop c) = mm_pdp_list c" for c by (simp_all add: stop_def mmctx_timer_stop_def)
  let ?sg2 = "upd_mm ?i ?f (upd_mm ?i stop sg)"
  have "mm_by_id ?i ?sg2 = Some (?f (stop m))" using by_id_inv [OF inv assms(2)] by_id_upd [of stop] by_id_upd [of ?f] st by simp
  note found = this
  let ?a = "gsm48_gmm_authorize env (mm_t3350_mode m)"
  let ?sg' = "upd_mm ?i (\<lambda>c. fst (?a c)) ?sg2"
  have "id_resp_identity (mi0 AND MI_TYPE_MASK) (ge_mi_to_string env (mi0 # mi) len) m (upd_mm ?i stop sg) = Some (?sg2, [])"
    using assms(5,7-9) by (simp add: id_resp_identity_def)
  then have "\<exists>ev rc. gsm48_rx_gmm_id_resp env m msg sg = Some (?sg', ev, rc)"
    unfolding stop_def by (rule id_resp_steps [OF assms(6)]) (use found [unfolded stop_def] in blast)
  moreover have "m2 \<in> set (sg_mm_ctxts ?sg')" by (intro upd_other assms)
  moreover have "mm_by_id ?i ?sg' = Some (fst (?a (?f (stop m))))" using by_id_upd [of "\<lambda>c. fst (?a c)" ?i ?sg2] found by (simp add: authorize_ok)
  note find_in [OF this]
  moreover have "mm_imsi (fst (?a (?f (stop m)))) = mm_imsi m2" "mm_pdp_list (fst (?a (?f (stop m)))) = mm_pdp_list m"
    by (simp_all add: authorize_imsi authorize_ok st)
  ultimately show ?thesis by metis
qed


text \<open>C21: When a context without IMSI answers with the IMSI of another context, the other one is freed, but a timer of it that runs is
  not stopped: it expires later on freed memory.\<close>

theorem replaced_context_timer_crashes:
  assumes "sgsn_reach env sg" "m \<in> set (sg_mm_ctxts sg)" "mm_imsi m = []"
    and "gm_data msg = len # mi0 # mi" "mi0 AND MI_TYPE_MASK = MI_TYPE_IMSI" "sgsn_mm_ctx_by_imsi (ge_mi_to_string env (mi0 # mi) len) sg = Some m2"
    and "mm_id m2 \<noteq> mm_id m" "mm_timer m2" "length (ge_mi_to_string env (mi0 # mi) len) < 17"
  shows "\<exists>sg' ev rc. gsm48_rx_gmm_id_resp env m msg sg = Some (sg', ev, rc) \<and> sgsn_enabled (In_mm_timer (mm_id m2)) sg' \<and>
    sgsn_handle env (In_mm_timer (mm_id m2)) sg' = None"
proof -
  have inv: "sg_inv {} sg" using sgsn_reach_inv [OF assms(1)] .
  let ?i = "mm_id m" and ?s = "ge_mi_to_string env (mi0 # mi) len"
  let ?f = "\<lambda>c. c\<lparr>mm_imsi := ?s\<rparr>" and ?a = "gsm48_gmm_authorize env (mm_t3350_mode m)"
  define stop where "stop = (if mi0 AND MI_TYPE_MASK = mm_t3370_id_type m then mmctx_timer_stop 3370 else id)"
  have st: "mm_id (stop c) = mm_id c" "mm_imsi (stop c) = mm_imsi c" for c by (simp_all add: stop_def mmctx_timer_stop_def)
  let ?sg1 = "upd_mm ?i stop sg"
  let ?sg2 = "sgsn_mm_ctx_free (mm_id m2) ?sg1"
  have m2: "sgsn_mm_ctx_by_imsi ?s ?sg1 = Some m2" using by_imsi_upd [OF st(2) assms(6,7)] .
  then have in1: "m2 \<in> set (sg_mm_ctxts ?sg1)" using find_in by (fastforce simp: sgsn_mm_ctx_by_imsi_def)
  have "mm_by_id ?i ?sg2 = mm_by_id ?i ?sg1" using by_id_free assms(7) by metis
  then have "mm_by_id ?i (upd_mm ?i ?f ?sg2) = Some (?f (stop m))"
    using by_id_inv [OF inv assms(2)] by_id_upd [of stop] by_id_upd [of ?f] st by simp
  note found = this
  define sg' where "sg' = upd_mm ?i (\<lambda>c. fst (?a c)) (upd_mm ?i ?f ?sg2)"
  have "\<exists>e. id_resp_identity (mi0 AND MI_TYPE_MASK) ?s m ?sg1 = Some (upd_mm ?i ?f ?sg2, e)"
    using assms(3,5,7,9) m2 by (simp add: id_resp_identity_def Let_def)
  then have "\<exists>ev rc. gsm48_rx_gmm_id_resp env m msg sg = Some (sg', ev, rc)"
    unfolding sg'_def stop_def using id_resp_steps [OF assms(4)] found [unfolded stop_def] by blast
  moreover have "mm_id m2 \<in> set (sg_stale sg')" using in1 assms(8) by (auto simp: sg'_def sgsn_mm_ctx_free_def Let_def)
  moreover have "mm_by_id (mm_id m2) sg' = None"
    using assms(7) by (auto simp: sg'_def find_None_iff set_upd_mm sgsn_mm_ctx_free_def authorize_ok Let_def)
  ultimately show ?thesis by (auto simp: mmctx_timer_cb_def on_mm_def)
qed

section \<open>Witnesses\<close>

text \<open>A network of one cell: two stations attach by IMSI and answer for their IMEI, the first activates a session; the gateway
  restarts. A third station attaches by a P-TMSI that is not known.\<close>

lemma run_reach: "sgsn_run env is sg = Some sg' \<Longrightarrow> sgsn_reach env sg \<Longrightarrow> sgsn_reach env sg'"
proof (induction "is" arbitrary: sg)
  case (Cons i "is")
  then obtain sg1 ev rc where "sgsn_enabled i sg" "sgsn_handle env i sg = Some (sg1, ev, rc)" "sgsn_run env is sg1 = Some sg'"
    by (auto simp: bind_eq_Some_conv split: if_splits)
  then show ?case using Cons reach_step by blast
qed simp

definition ex_env :: gmm_env where
  "ex_env = \<lparr>ge_tlli_type = (\<lambda>t. if bit t 31 then TLLI_LOCAL else TLLI_RANDOM), ge_rand = (\<lambda>n. of_nat (n + 1)),
     ge_mi_to_string = (\<lambda>os len. if hd os AND 7 = 1 then ''26201'' @ [char_of (unat (os ! 1))] else ''35''),
     ge_parse_ra = (\<lambda>os. \<lparr>ra_mcc = 262, ra_mnc = 1, ra_lac = 1, ra_rac = 1\<rparr>), ge_construct_ra = (\<lambda>ra. replicate 6 0),
     ge_mid_from_tmsi = (\<lambda>t. []), ge_gmm_tlv = (\<lambda>os t. None), ge_sm_tlv = (\<lambda>os t. None), ge_default_qos = [], ge_radio_pri = 4,
     ge_newpdp_rc = (\<lambda>i n. 0), ge_eua_size = 18, ge_apn_size = 100, ge_pco_size = 100, ge_qos_size = 15, ge_uninit = 0, ge_rc = (\<lambda>e. 0)\<rparr>"

definition ex_msg :: "u32 \<Rightarrow> u8 \<Rightarrow> u8 \<Rightarrow> u8 list \<Rightarrow> sgsn_input" where
  "ex_msg tlli pd t d = In_msg \<lparr>gm_tlli = tlli, gm_bvci = 2, gm_nsei = 3, gm_ra = \<lparr>ra_mcc = 262, ra_mnc = 1, ra_lac = 1, ra_rac = 1\<rparr>, gm_cid = 4,
     gm_proto_discr = pd, gm_msg_type = t, gm_data = d\<rparr> (unat tlli)"

definition ex_attach :: "u32 \<Rightarrow> u8 \<Rightarrow> u8 \<Rightarrow> sgsn_input" where
  "ex_attach tlli mi0 digit = ex_msg tlli 8 1 ([1, 0, 1, 0, 0, 5, mi0, digit, 0, 0, 0] @ replicate 6 0 @ [0])"

definition ex_setup :: "sgsn_input list" where
  "ex_setup = [In_ggsn_ip 0 99, ex_attach 7 1 50, ex_msg 7 8 0x16 [5, 2, 0], ex_attach 8 1 51, ex_msg 8 8 0x16 [5, 2, 0],
     ex_msg 7 0x0a 0x41 [5, 3, 0, 2, 0xf1, 0x21]]"

text \<open>The state after that, and after the restart or the third attach.\<close>

abbreviation (input) ex_ra :: gprs_ra_id where "ex_ra \<equiv> \<lparr>ra_mcc = 262, ra_mnc = 1, ra_lac = 1, ra_rac = 1\<rparr>"

definition ex_pdp :: "bool \<Rightarrow> sgsn_pdp_ctx" where
  "ex_pdp timer = \<lparr>pdp_id = 2, pdp_ggsn = Some 0, pdp_lib = Some \<lparr>gp_version = 1, gp_eua = [241, 33], gp_pco_req = []\<rparr>,
     pdp_state = PDP_STATE_CR_REQ, pdp_nsapi = 5, pdp_sapi = 3, pdp_ti = 0, pdp_timer = timer, pdp_T = (if timer then 3395 else 0),
     pdp_num_T_exp = 0\<rparr>"

definition ex_mm0 :: "bool \<Rightarrow> sgsn_mm_ctx" where
  "ex_mm0 timer = \<lparr>mm_id = 0, mm_imsi = ''262012'', mm_imei = ''35'', mm_state = GMM_REGISTERED_NORMAL, mm_p_tmsi = 1, mm_p_tmsi_old = 0, mm_ra = ex_ra,
     mm_cell_id = 4, mm_radio_capa = [], mm_net_capa = [0], mm_drx_parms = 0, mm_pdp_list = [ex_pdp timer], mm_llme = 7, mm_tlli = 7,
     mm_tlli_new = 3221225473, mm_nsei = 3, mm_bvci = 2, mm_timer = True, mm_T = 3350, mm_num_T_exp = 0, mm_t3350_mode = GMM_T3350_MODE_ATT,
     mm_t3370_id_type = 2\<rparr>"

definition ex_mm1 :: sgsn_mm_ctx where
  "ex_mm1 = \<lparr>mm_id = 1, mm_imsi = ''262013'', mm_imei = ''35'', mm_state = GMM_REGISTERED_NORMAL, mm_p_tmsi = 2, mm_p_tmsi_old = 0, mm_ra = ex_ra,
     mm_cell_id = 4, mm_radio_capa = [], mm_net_capa = [0], mm_drx_parms = 0, mm_pdp_list = [], mm_llme = 8, mm_tlli = 8,
     mm_tlli_new = 3221225474, mm_nsei = 3, mm_bvci = 2, mm_timer = True, mm_T = 3350, mm_num_T_exp = 0, mm_t3350_mode = GMM_T3350_MODE_ATT,
     mm_t3370_id_type = 2\<rparr>"

definition ex_mm3 :: sgsn_mm_ctx where
  "ex_mm3 = \<lparr>mm_id = 3, mm_imsi = [], mm_imei = [], mm_state = GMM_COMMON_PROC_INIT, mm_p_tmsi = 3, mm_p_tmsi_old = 16777216, mm_ra = ex_ra,
     mm_cell_id = 4, mm_radio_capa = [], mm_net_capa = [0], mm_drx_parms = 0, mm_pdp_list = [], mm_llme = 9, mm_tlli = 9,
     mm_tlli_new = 3221225475, mm_nsei = 3, mm_bvci = 2, mm_timer = True, mm_T = 3370, mm_num_T_exp = 0, mm_t3350_mode = GMM_T3350_MODE_ATT,
     mm_t3370_id_type = 2\<rparr>"

definition ex_state :: sgsn where
  "ex_state = \<lparr>sg_mm_ctxts = [ex_mm1, ex_mm0 False], sg_ggsn_ctxts = [\<lparr>gg_id = 0, gg_gtp_version = 1, gg_remote_addr = 99,
     gg_remote_restart_ctr = - 1\<rparr>], sg_next = 3, sg_stale = [], sg_rnd = 2\<rparr>"

definition ex_restarted :: sgsn where
  "ex_restarted = \<lparr>sg_mm_ctxts = [ex_mm1, ex_mm0 True], sg_ggsn_ctxts = [\<lparr>gg_id = 0, gg_gtp_version = 1, gg_remote_addr = 99,
     gg_remote_restart_ctr = 2\<rparr>], sg_next = 3, sg_stale = [], sg_rnd = 2\<rparr>"

definition ex_third :: sgsn where
  "ex_third = ex_state\<lparr>sg_mm_ctxts := [ex_mm3, ex_mm1, ex_mm0 False], sg_next := 4, sg_rnd := 3\<rparr>"

lemma ex_state_reach: "sgsn_reach ex_env ex_state"
proof -
  have "sgsn_run ex_env ex_setup sgsn_init = Some ex_state" by code_simp
  then show ?thesis using run_reach reach_init by blast
qed

lemma ex_restarted_reach: "sgsn_reach ex_env ex_restarted"
proof -
  have "sgsn_run ex_env [In_recovery 99 1, In_recovery 99 2] ex_state = Some ex_restarted" by code_simp
  then show ?thesis using run_reach ex_state_reach by blast
qed

lemma ex_third_reach: "sgsn_reach ex_env ex_third"
proof -
  have "sgsn_run ex_env [ex_attach 9 4 1] ex_state = Some ex_third" by code_simp
  then show ?thesis using run_reach ex_state_reach by blast
qed

lemmas ex_defs = ex_state_def ex_restarted_def ex_third_def ex_mm0_def ex_mm1_def ex_mm3_def ex_pdp_def

lemma ex_digit: "char_of (51 :: nat) = CHR ''3''"
  by code_simp

lemma ex_mem:
  "ex_mm0 False \<in> set (sg_mm_ctxts ex_state)" "ex_mm1 \<in> set (sg_mm_ctxts ex_state)" "ex_mm0 True \<in> set (sg_mm_ctxts ex_restarted)"
  "ex_mm3 \<in> set (sg_mm_ctxts ex_third)" "ex_pdp t \<in> set (mm_pdp_list (ex_mm0 t))"
  by (simp_all add: ex_state_def ex_restarted_def ex_third_def ex_mm0_def)

lemma sgsn_contexts_consistent_witness: "distinct (map mm_p_tmsi (sg_mm_ctxts ex_state)) \<and> length (sg_mm_ctxts ex_state) = 2"
  using sgsn_contexts_consistent [OF ex_state_reach] by (simp add: ex_state_def)

lemma gmm_timer_gives_up_witness: "\<exists>sg' ev. mm_timer_expirations ex_env 1 5 ex_state = Some (sg', ev)"
proof -
  have "mm_timer ex_mm1" "mm_id ex_mm1 = 1" "5 - mm_num_T_exp ex_mm1 = 5" by (simp_all add: ex_mm1_def)
  then show ?thesis using gmm_timer_gives_up [OF ex_state_reach ex_mem(2)] by metis
qed



lemma identity_response_takes_imsi_witness:
  "\<exists>sg' ev rc. gsm48_rx_gmm_id_resp ex_env (ex_mm0 False) \<lparr>gm_tlli = 7, gm_bvci = 2, gm_nsei = 3, gm_ra = ex_ra, gm_cid = 4, gm_proto_discr = 8,
      gm_msg_type = 0x16, gm_data = [5, 1, 51]\<rparr> ex_state = Some (sg', ev, rc) \<and> ex_mm1 \<in> set (sg_mm_ctxts sg')"
proof -
  have "mm_id ex_mm1 \<noteq> mm_id (ex_mm0 False)" "mm_imsi (ex_mm0 False) \<noteq> []" "ge_mi_to_string ex_env [1, 51] 5 = mm_imsi ex_mm1"
      "length (mm_imsi ex_mm1) < 17"
    by (simp_all add: ex_defs ex_env_def ex_digit)
  then show ?thesis
    using identity_response_takes_imsi [OF ex_state_reach ex_mem(1,2), of "\<lparr>gm_tlli = 7, gm_bvci = 2, gm_nsei = 3, gm_ra = ex_ra, gm_cid = 4,
        gm_proto_discr = 8, gm_msg_type = 0x16, gm_data = [5, 1, 51]\<rparr>" 5 1 "[51]"] by auto
qed

lemma replaced_context_timer_crashes_witness:
  "\<exists>sg' ev rc. gsm48_rx_gmm_id_resp ex_env ex_mm3 \<lparr>gm_tlli = 9, gm_bvci = 2, gm_nsei = 3, gm_ra = ex_ra, gm_cid = 4, gm_proto_discr = 8,
      gm_msg_type = 0x16, gm_data = [5, 1, 51]\<rparr> ex_third = Some (sg', ev, rc) \<and> sgsn_handle ex_env (In_mm_timer 1) sg' = None"
proof -
  have "mm_id ex_mm1 \<noteq> mm_id ex_mm3" "mm_imsi ex_mm3 = []" "sgsn_mm_ctx_by_imsi (ge_mi_to_string ex_env [1, 51] 5) ex_third = Some ex_mm1"
      "mm_timer ex_mm1" "mm_id ex_mm1 = 1" "length (ge_mi_to_string ex_env [1, 51] 5) < 17"
    by (simp_all add: ex_defs ex_env_def ex_digit sgsn_mm_ctx_by_imsi_def)
  then show ?thesis
    using replaced_context_timer_crashes [OF ex_third_reach ex_mem(4), of "\<lparr>gm_tlli = 9, gm_bvci = 2, gm_nsei = 3, gm_ra = ex_ra, gm_cid = 4,
        gm_proto_discr = 8, gm_msg_type = 0x16, gm_data = [5, 1, 51]\<rparr>" 5 1 "[51]" ex_mm1] by auto
qed

end
