(* ===== verification/Spec2Isabelle.thy ===== *)
theory Spec2Isabelle
  imports Lchan_Life Handover_Decision Bsc_Net_Inv Gprs_Sndcp Paging Bsc_Rll
    Mncc_Builtin Subscriber Gsm_04_11_Inv Mobility_Inv Gprs_Gmm_Props
begin

text \<open>
  A verification library of OpenBSC, a GSM base station controller with a small core network, written
  in C under \<^verbatim>\<open>src/openbsc\<close>. All file names below are relative to that directory.

  \<^bold>\<open>The program.\<close> The BSC (\<^verbatim>\<open>src/libbsc\<close>) owns the data model of the base transceiver stations: transceivers
  with eight timeslots each, timeslots with up to eight logical channels. The channel allocator hands out
  logical channels, the RSL code activates and releases them by messages to the BTS, the BSC API
  connects them to subscriber connections and moves these between channels on assignment and
  handover. Measurement reports feed the handover decision. Paging reaches subscribers without a
  channel. The MSC (\<^verbatim>\<open>src/libmsc\<close>) runs transactions over the connections, calls and short messages, queues the
  requests for a channel to a subscriber, and joins the two legs of a call. The SGSN (\<^verbatim>\<open>src/gprs\<close>) carries packet
  data: SNDCP segments over LLC frames with a CRC-24, under the control of the mobility and session management.

  \<^bold>\<open>The theories.\<close>

  \<^item> \<open>Osmo_Prelude\<close>: machine integers, error codes, C division, the loops with an early return and the
    array updates that all components use.
  \<^item> \<open>Gsm_Data\<close> (\<^verbatim>\<open>include/openbsc/gsm_data_shared.h\<close>, \<^verbatim>\<open>src/libcommon/gsm_data_shared.c\<close>): stations, transceivers,
    timeslots and channels as records; pointers inside a station are paths of indices. Allocation and
    reset of managed objects, channel numbers, the object an OML instance denotes.
  \<^item> \<open>Chan_Alloc\<close> (\<^verbatim>\<open>src/libbsc/chan_alloc.c\<close>): physical and logical channel allocation, the release sequence,
    the load. Soundness and completeness of the allocation, the invariant \<open>alloc_inv\<close>.
  \<^item> \<open>Gsm_04_08_Utils\<close> (\<^verbatim>\<open>src/libbsc/gsm_04_08_utils.c\<close>): channel request tables, descriptions of channels and
    cells, the measurement report parser and its equivalence with a reader of 17 bit records.
  \<^item> \<open>Abis_Rsl\<close> (\<^verbatim>\<open>src/libbsc/abis_rsl.c\<close>): channel activation, release, immediate assignment, messages of the
    BTS. Round trip of channel numbers.
  \<^item> \<open>Lchan_Life\<close>: the step relation of one station under operator actions, BTS messages and timers; the
    invariant holds in every reachable station and a release completes.
  \<^item> \<open>Meas_Rep\<close> (\<^verbatim>\<open>src/libbsc/meas_rep.c\<close>) and \<open>Handover_Decision\<close> (\<^verbatim>\<open>src/libbsc/handover_decision.c\<close>): the ring of
    measurement reports against the list of all reports, the choice of the target cell.
  \<^item> \<open>Bsc_Net\<close> and \<open>Bsc_Net_Inv\<close> (\<^verbatim>\<open>src/libbsc/bsc_api.c\<close>, \<^verbatim>\<open>src/libbsc/handover_logic.c\<close>): the network with
    connections and handover records. The mutual pointers of channels and connections are consistent
    in every reachable network; assignment and handover complete; freeing a channel in the network
    refines freeing it in the station.
  \<^item> \<open>Paging\<close> (\<^verbatim>\<open>src/libbsc/paging.c\<close>): queues, slots and timers of paging; it never stalls, is fair, and ends
    everywhere with the answer.
  \<^item> \<open>Bsc_Rll\<close> (\<^verbatim>\<open>src/libbsc/bsc_rll.c\<close>): link establishment requests, each answered once.
  \<^item> \<open>Transaction\<close> (\<^verbatim>\<open>src/libmsc/transaction.c\<close>): transaction identifiers are unique.
  \<^item> \<open>Mncc\<close> (\<^verbatim>\<open>include/openbsc/mncc.h\<close>): the messages between call control and call application.
  \<^item> \<open>Call_Control\<close> and \<open>Call_Control_Inv\<close> (the call control of \<^verbatim>\<open>src/libmsc/gsm_04_08.c\<close>): every handler of
    both directions, the two state tables, timers, paging and the voice bridge. An invariant of the calls,
    no input fails, the end of a call is reported once, timers clear a silent call.
  \<^item> \<open>Mncc_Builtin\<close> (\<^verbatim>\<open>src/libmsc/mncc_builtin.c\<close>): the pairing of the legs of calls and its invariant.
  \<^item> \<open>Subscriber\<close> (\<^verbatim>\<open>src/libmsc/gsm_subscriber.c\<close>, \<^verbatim>\<open>src/libbsc/gsm_subscriber_base.c\<close>): the active subscribers and the
    queue of channel requests. The paging is the interface \<open>paging_service\<close>, interpreted on \<open>Paging\<close>; requests are
    answered in order and the queue does not stall.
  \<^item> \<open>Sms_Tpdu\<close>, \<open>Gsm_04_11\<close> and \<open>Gsm_04_11_Inv\<close> (\<^verbatim>\<open>src/libmsc/gsm_04_11.c\<close>): the coding of short messages and the two
    protocol layers on the list of transactions. Every message is accounted for, no complete input fails, and
    the steps fit between those of the call control.
  \<^item> \<open>Mobility\<close> and \<open>Mobility_Inv\<close> (the mobility management of \<^verbatim>\<open>src/libmsc/gsm_04_08.c\<close>, \<^verbatim>\<open>src/libmsc/osmo_msc.c\<close>,
    \<^verbatim>\<open>src/libmsc/auth.c\<close>, \<^verbatim>\<open>src/libmsc/ussd.c\<close>, \<^verbatim>\<open>src/libmsc/silent_call.c\<close>): location updating, identities, authentication
    and service requests on one connection. A connection is not used after it is freed, subscribers are attached with the
    consent of the policy, timers release a silent connection; and the ways around authentication that the code leaves.
  \<^item> \<open>Crc24\<close> (\<^verbatim>\<open>src/gprs/crc24.c\<close>): the table driven checksum equals the shift register and detects bursts.
  \<^item> \<open>Gprs_Llc\<close> (\<^verbatim>\<open>src/gprs/gprs_llc.c\<close>): LLC frames, their parser, reception, TLLI assignment. The checksum
    is the interface \<open>frame_check\<close>.
  \<^item> \<open>Gprs_Sndcp\<close> (\<^verbatim>\<open>src/gprs/gprs_sndcp.c\<close>): segmentation and reassembly of packets. The layer below is the
    interface \<open>unitdata_service\<close>, interpreted on the LLC model.
  \<^item> \<open>Gprs_Sgsn\<close> (\<^verbatim>\<open>src/gprs/gprs_sgsn.c\<close>), \<open>Gprs_Gmm\<close> (\<^verbatim>\<open>src/gprs/gprs_gmm.c\<close>, \<^verbatim>\<open>src/gprs/sgsn_libgtp.c\<close>), \<open>Gprs_Gmm_Inv\<close>
    and \<open>Gprs_Gmm_Props\<close>: the contexts of stations and sessions of the SGSN, attach, detach, routing area update and
    identities, the activation of sessions over the tunnel library, timers and packets. The contexts are consistent
    in every reachable state, a silent station is deregistered, packets take the tunnel of their session; and what
    happens to timers and identities that the code does not look after.

  \<^bold>\<open>Conventions.\<close> C integers are words of their width where they wrap, otherwise integers. Linked lists
  are lists in the order of the links; a pointer to a list element is its position or an address.
  Timers are the fact that they run; their expiry is a step. Sent messages, signals and calls of
  callbacks are events of the result, and a callback does not re-enter the component. The result
  \<open>None\<close> is behaviour C leaves undefined or an abort; theorems that an operation returns \<open>Some\<close> exclude it.
  Code outside the repository (libosmocore, the SCCP and BSSGP libraries) is an argument or a field of an
  environment record. Memory allocation succeeds unless stated otherwise.

  \<^bold>\<open>Loops.\<close> Loops over lists are structural recursion. The loops over the stations of a location area
  terminate by the number of stations left, the fragments of a packet by twice its remaining length plus
  one for the first fragment; the sending loop itself is a partial function that is shown to return
  for every packet below 65536 octets. The search for a P-TMSI that is not in use is a partial function that returns
  when a later random number is free. No fuel is used.

  \<^bold>\<open>Not modelled.\<close> Command line and control interfaces, the database, sockets and vendor specific network
  management (\<^verbatim>\<open>abis_nm.c\<close>, \<^verbatim>\<open>abis_om2000.c\<close>, \<^verbatim>\<open>bts_nokia_site.c\<close>) are I/O around the modelled state or
  formatting of configuration messages. Voice frames are not modelled. Planned in this order: the network service (\<^verbatim>\<open>gprs_ns.c\<close>), the media gateway (\<^verbatim>\<open>mgcp_protocol.c\<close>)
  and the connection tables of the NAT (\<^verbatim>\<open>bsc_nat_utils.c\<close>, \<^verbatim>\<open>bsc_sccp.c\<close>).
\<close>

end
